(* ===== verification/GoFloat.thy ===== *)
theory GoFloat
  imports Complex_Main Prelude
begin

text \<open>
  Go's \<open>float64\<close> as the money code uses it: IEEE 754 binary64 with round-to-nearest,
  ties-to-even, computed on integers. A finite value is \<open>Fin m e\<close>, the number \<open>m * 2 ^ e\<close>.
  The sign of zero is not represented: nothing modelled here can observe it (no float is
  divided by a computed zero, and no sign bit is read). A product followed by a sum is two
  roundings, as on amd64, where Go does not fuse them. Converting a float that does not fit
  \<open>int64\<close> gives the minimum of the type, the value of the amd64 instruction (the Go
  specification leaves it to the implementation).
\<close>

datatype f64 = Fin int int | PInf | NInf | NaN

definition fval :: "f64 \<Rightarrow> real" where
  "fval x = (case x of Fin m e \<Rightarrow> of_int m * 2 powi e | _ \<Rightarrow> 0)"

section \<open>Rounding\<close>

fun bit_len :: "nat \<Rightarrow> nat" where
  "bit_len n = (if n = 0 then 0 else Suc (bit_len (n div 2)))"

declare bit_len.simps [simp del]

text \<open>The quotient of two naturals rounded to the nearest natural, ties to even.\<close>

definition rne :: "nat \<Rightarrow> nat \<Rightarrow> nat" where
  "rne n d =
     (let q = n div d; r = n mod d
      in if 2 * r < d \<or> (2 * r = d \<and> even q) then q else q + 1)"

text \<open>The binary exponent of \<open>n / d\<close>: \<open>2 ^ l \<le> n / d < 2 ^ (l + 1)\<close>.\<close>

definition flog2 :: "nat \<Rightarrow> nat \<Rightarrow> int" where
  "flog2 n d =
     (let a = int (bit_len n) - int (bit_len d)
      in if (if 0 \<le> a then d * 2 ^ nat a \<le> n else d \<le> n * 2 ^ nat (- a)) then a else a - 1)"

text \<open>The exponent of the last bit kept: 53 significant bits, or the subnormal exponent.\<close>

definition ulp_exp :: "nat \<Rightarrow> nat \<Rightarrow> int" where
  "ulp_exp n d = max (flog2 n d - 52) (- 1074)"

definition mant :: "nat \<Rightarrow> nat \<Rightarrow> nat" where
  "mant n d =
     (let k = ulp_exp n d
      in if 0 \<le> k then rne n (d * 2 ^ nat k) else rne (n * 2 ^ nat (- k)) d)"

definition fround :: "int \<Rightarrow> nat \<Rightarrow> f64" where
  "fround n d =
     (if n = 0 then Fin 0 0
      else let a = nat \<bar>n\<bar>; k = ulp_exp a d; m = mant a d
        in if 1024 < int (bit_len m) + k then (if 0 < n then PInf else NInf)
           else if m = 0 then Fin 0 0
           else Fin (sgn n * int m) k)"

definition fround_scaled :: "int \<Rightarrow> int \<Rightarrow> f64" where
  "fround_scaled m e = (if 0 \<le> e then fround (m * 2 ^ nat e) 1 else fround m (2 ^ nat (- e)))"

section \<open>Operations\<close>

text \<open>A decimal constant of the source, \<open>n / d\<close>, rounded once by the compiler.\<close>

definition flit :: "int \<Rightarrow> nat \<Rightarrow> f64" where
  "flit n d = fround n d"

definition f_of_int :: "int \<Rightarrow> f64" where
  "f_of_int i = fround i 1"

definition is_nan :: "f64 \<Rightarrow> bool" where
  "is_nan x \<longleftrightarrow> x = NaN"

definition is_inf :: "f64 \<Rightarrow> bool" where
  "is_inf x \<longleftrightarrow> x = PInf \<or> x = NInf"

definition fsign :: "f64 \<Rightarrow> int" where
  "fsign x = (case x of Fin m e \<Rightarrow> sgn m | PInf \<Rightarrow> 1 | NInf \<Rightarrow> -1 | NaN \<Rightarrow> 0)"

fun fmul :: "f64 \<Rightarrow> f64 \<Rightarrow> f64" where
  "fmul NaN _ = NaN"
| "fmul _ NaN = NaN"
| "fmul (Fin m1 e1) (Fin m2 e2) = fround_scaled (m1 * m2) (e1 + e2)"
| "fmul x y = (let s = fsign x * fsign y in if s = 0 then NaN else if 0 < s then PInf else NInf)"

fun fadd :: "f64 \<Rightarrow> f64 \<Rightarrow> f64" where
  "fadd NaN _ = NaN"
| "fadd _ NaN = NaN"
| "fadd (Fin m1 e1) (Fin m2 e2) =
     (let e = min e1 e2
      in fround_scaled (m1 * 2 ^ nat (e1 - e) + m2 * 2 ^ nat (e2 - e)) e)"
| "fadd PInf NInf = NaN"
| "fadd NInf PInf = NaN"
| "fadd PInf _ = PInf"
| "fadd _ PInf = PInf"
| "fadd NInf _ = NInf"
| "fadd _ NInf = NInf"

fun fneg :: "f64 \<Rightarrow> f64" where
  "fneg (Fin m e) = Fin (- m) e"
| "fneg PInf = NInf"
| "fneg NInf = PInf"
| "fneg NaN = NaN"

definition fsub :: "f64 \<Rightarrow> f64 \<Rightarrow> f64" where
  "fsub x y = fadd x (fneg y)"

fun fdiv :: "f64 \<Rightarrow> f64 \<Rightarrow> f64" where
  "fdiv NaN _ = NaN"
| "fdiv _ NaN = NaN"
| "fdiv (Fin m1 e1) (Fin m2 e2) =
     (if m2 = 0 then (if m1 = 0 then NaN else if 0 < m1 then PInf else NInf)
      else let e = e1 - e2; n = m1 * sgn m2; d = nat \<bar>m2\<bar>
        in if 0 \<le> e then fround (n * 2 ^ nat e) d else fround n (d * 2 ^ nat (- e)))"
| "fdiv (Fin m e) _ = Fin 0 0"
| "fdiv x (Fin m e) = (if 0 \<le> m then x else fneg x)"
| "fdiv _ _ = NaN"

text \<open>The exact comparison of two finite values.\<close>

definition dy_less :: "int \<Rightarrow> int \<Rightarrow> int \<Rightarrow> int \<Rightarrow> bool" where
  "dy_less m1 e1 m2 e2 \<longleftrightarrow>
     (let e = min e1 e2 in m1 * 2 ^ nat (e1 - e) < m2 * 2 ^ nat (e2 - e))"

fun flt :: "f64 \<Rightarrow> f64 \<Rightarrow> bool" where
  "flt NaN _ = False"
| "flt _ NaN = False"
| "flt (Fin m1 e1) (Fin m2 e2) = dy_less m1 e1 m2 e2"
| "flt NInf y = (y \<noteq> NInf)"
| "flt x NInf = False"
| "flt x PInf = (x \<noteq> PInf)"
| "flt PInf y = False"

definition fle :: "f64 \<Rightarrow> f64 \<Rightarrow> bool" where
  "fle x y \<longleftrightarrow> x \<noteq> NaN \<and> y \<noteq> NaN \<and> \<not> flt y x"

definition feq :: "f64 \<Rightarrow> f64 \<Rightarrow> bool" where
  "feq x y \<longleftrightarrow> fle x y \<and> fle y x"

definition fzero :: f64 where "fzero = Fin 0 0"

definition fone :: f64 where "fone = Fin 1 0"

text \<open>\<open>math.Round\<close>: to the nearest integer, halves away from zero; \<open>math.Ceil\<close>.\<close>

fun math_round :: "f64 \<Rightarrow> f64" where
  "math_round (Fin m e) =
     (if 0 \<le> e then Fin m e
      else let p = 2 ^ nat (- e) in Fin (sgn m * ((2 * \<bar>m\<bar> + p) div (2 * p))) 0)"
| "math_round x = x"

fun math_ceil :: "f64 \<Rightarrow> f64" where
  "math_ceil (Fin m e) = (if 0 \<le> e then Fin m e else Fin (- ((- m) div 2 ^ nat (- e))) 0)"
| "math_ceil x = x"

text \<open>\<open>int64(x)\<close>: truncation towards zero.\<close>

fun f_to_int64 :: "f64 \<Rightarrow> int" where
  "f_to_int64 (Fin m e) =
     (let v = (if 0 \<le> e then m * 2 ^ nat e else sgn m * (\<bar>m\<bar> div 2 ^ nat (- e)))
      in if in_int64 v then v else min_int64)"
| "f_to_int64 _ = min_int64"

section \<open>Facts about rounding to nearest\<close>

lemma bit_len_0 [simp]: "bit_len 0 = 0"
  by (simp add: bit_len.simps)

lemma bit_len_bounds: "0 < n \<Longrightarrow> 2 ^ (bit_len n - 1) \<le> n \<and> n < 2 ^ bit_len n \<and> 0 < bit_len n"
proof (induction n rule: bit_len.induct)
  case (1 n)
  show ?case
  proof (cases "n div 2 = 0")
    case True
    with 1 show ?thesis by (auto simp: bit_len.simps [of n])
  next
    case False
    with 1 have h: "2 ^ (bit_len (n div 2) - 1) \<le> n div 2" "n div 2 < 2 ^ bit_len (n div 2)"
      "0 < bit_len (n div 2)" by auto
    define p :: nat where "p = 2 ^ (bit_len (n div 2) - 1)"
    have p2: "2 ^ bit_len (n div 2) = 2 * p"
      using h(3) unfolding p_def by (metis One_nat_def Suc_pred power_Suc)
    have "p \<le> n div 2" "n div 2 < 2 * p" using h p2 by (auto simp: p_def)
    then have "2 * p \<le> n \<and> n < 4 * p" by linarith
    then show ?thesis using p2 1 by (auto simp: bit_len.simps [of n])
  qed
qed

lemma rne_bounds:
  assumes "0 < d"
  shows "2 * d * rne n d \<le> 2 * n + d" and "2 * n \<le> 2 * d * rne n d + d"
proof -
  have n: "n = d * (n div d) + n mod d" by simp
  have r: "n mod d < d" using assms by simp
  have a: "2 * d * (n div d) \<le> 2 * n" by (subst (2) n) simp
  have b: "2 * d * (n div d + 1) = 2 * n + 2 * d - 2 * (n mod d)"
  proof -
    have "2 * n = 2 * d * (n div d) + 2 * (n mod d)"
      using n by (metis distrib_left mult.assoc)
    then show ?thesis by (simp add: algebra_simps)
  qed
  have c: "2 * n = 2 * d * (n div d) + 2 * (n mod d)"
    using n by (metis distrib_left mult.assoc)
  show "2 * d * rne n d \<le> 2 * n + d"
    using a b r by (auto simp: rne_def Let_def)
  show "2 * n \<le> 2 * d * rne n d + d"
    using b c r by (auto simp: rne_def Let_def)
qed

lemma rne_exact: "0 < d \<Longrightarrow> rne (d * q) d = q"
  by (simp add: rne_def Let_def)

lemma rne_real:
  assumes "0 < d"
  shows "\<bar>real (rne n d) - real n / real d\<bar> \<le> 1 / 2"
proof -
  have "real (2 * d * rne n d) \<le> real (2 * n + d)" "real (2 * n) \<le> real (2 * d * rne n d + d)"
    using rne_bounds [OF assms] by (simp_all only: of_nat_le_iff)
  then have "real (rne n d) - real n / real d \<le> 1 / 2" "real n / real d - real (rne n d) \<le> 1 / 2"
    using assms by (simp_all add: field_simps)
  then show ?thesis by linarith
qed

lemma powi_nat: "0 \<le> k \<Longrightarrow> (2 :: real) powi k = 2 ^ nat k"
  by (simp add: power_int_def)

lemma powi_neg: "k < 0 \<Longrightarrow> (2 :: real) powi k = 1 / 2 ^ nat (- k)"
  by (simp add: power_int_def power_one_over)

lemma powi_pos [simp]: "0 < (2 :: real) powi k"
  by (simp add: zero_less_power_int)

lemma powi_lessD: "(2 :: real) powi a < 2 powi b \<Longrightarrow> a < b"
  by (meson linorder_not_less one_le_numeral power_int_increasing)

lemma bit_len_real:
  assumes "0 < n"
  shows "2 powi (int (bit_len n) - 1) \<le> real n" and "real n < 2 powi int (bit_len n)"
proof -
  have b: "2 ^ (bit_len n - 1) \<le> n" "n < 2 ^ bit_len n" "0 < bit_len n"
    using bit_len_bounds [OF assms] by auto
  have "int (bit_len n) - 1 = int (bit_len n - 1)" using b(3) by simp
  then have "2 powi (int (bit_len n) - 1) = (2 :: real) ^ (bit_len n - 1)"
    by (simp only: power_int_of_nat)
  also have "\<dots> = real (2 ^ (bit_len n - 1))" by simp
  also have "\<dots> \<le> real n" using b(1) by (simp only: of_nat_le_iff)
  finally show "2 powi (int (bit_len n) - 1) \<le> real n" .
  have "real n < real (2 ^ bit_len n)" using b(2) by (simp only: of_nat_less_iff)
  then show "real n < 2 powi int (bit_len n)" by simp
qed

lemma flog2_test:
  assumes "0 < d"
  shows "(if 0 \<le> a then d * 2 ^ nat a \<le> n else d \<le> n * 2 ^ nat (- a))
    \<longleftrightarrow> 2 powi a \<le> real n / real d"
proof (cases "0 \<le> a")
  case True
  have "d * 2 ^ nat a \<le> n \<longleftrightarrow> real (d * 2 ^ nat a) \<le> real n" by (simp only: of_nat_le_iff)
  also have "\<dots> \<longleftrightarrow> 2 powi a \<le> real n / real d"
    using assms True by (simp add: powi_nat field_simps)
  finally show ?thesis using True by simp
next
  case False
  have "d \<le> n * 2 ^ nat (- a) \<longleftrightarrow> real d \<le> real (n * 2 ^ nat (- a))" by (simp only: of_nat_le_iff)
  also have "\<dots> \<longleftrightarrow> 2 powi a \<le> real n / real d"
    using assms False by (simp add: powi_neg field_simps)
  finally show ?thesis using False by simp
qed

lemma flog2_bounds:
  assumes "0 < n" "0 < d"
  shows "2 powi flog2 n d \<le> real n / real d" and "real n / real d < 2 powi (flog2 n d + 1)"
proof -
  define a where "a = int (bit_len n) - int (bit_len d)"
  note bn = bit_len_real [OF assms(1)] and bd = bit_len_real [OF assms(2)]
  have up: "real n / real d < 2 powi (a + 1)"
  proof -
    have "real n / real d < 2 powi int (bit_len n) / 2 powi (int (bit_len d) - 1)"
      using bn bd assms by (intro frac_less) auto
    also have "\<dots> = 2 powi (int (bit_len n) - (int (bit_len d) - 1))"
      by (simp add: power_int_diff)
    finally show ?thesis by (simp add: a_def algebra_simps)
  qed
  have lo: "2 powi (a - 1) \<le> real n / real d"
  proof -
    have "2 powi (a - 1) = 2 powi ((int (bit_len n) - 1) - int (bit_len d))"
      by (simp add: a_def algebra_simps)
    also have "\<dots> = 2 powi (int (bit_len n) - 1) / (2 :: real) powi int (bit_len d)"
      by (simp add: power_int_diff)
    also have "\<dots> \<le> real n / real d"
      using bn bd assms by (intro frac_le) auto
    finally show ?thesis .
  qed
  have f: "flog2 n d = (if 2 powi a \<le> real n / real d then a else a - 1)"
    unfolding flog2_def Let_def a_def by (simp only: flog2_test [OF assms(2)])
  show "2 powi flog2 n d \<le> real n / real d" using lo by (simp add: f)
  show "real n / real d < 2 powi (flog2 n d + 1)" using up by (auto simp: f)
qed

text \<open>The kept bits are within half a unit in the last place of the number.\<close>

lemma mant_real:
  assumes "0 < n" "0 < d"
  shows "\<bar>real (mant n d) * 2 powi ulp_exp n d - real n / real d\<bar> \<le> 2 powi ulp_exp n d / 2"
proof -
  define k where "k = ulp_exp n d"
  have scaled: "\<bar>real (mant n d) - (real n / real d) / 2 powi k\<bar> \<le> 1 / 2"
  proof (cases "0 \<le> k")
    case True
    have "\<bar>real (rne n (d * 2 ^ nat k)) - real n / real (d * 2 ^ nat k)\<bar> \<le> 1 / 2"
      by (rule rne_real) (use assms in simp)
    then show ?thesis using True by (simp add: mant_def Let_def k_def powi_nat field_simps)
  next
    case False
    have "\<bar>real (rne (n * 2 ^ nat (- k)) d) - real (n * 2 ^ nat (- k)) / real d\<bar> \<le> 1 / 2"
      by (rule rne_real) (use assms in simp)
    then show ?thesis using False by (simp add: mant_def Let_def k_def powi_neg field_simps)
  qed
  have "real (mant n d) * 2 powi k - real n / real d
      = (real (mant n d) - (real n / real d) / 2 powi k) * 2 powi k"
    using powi_pos [of k] by (simp add: left_diff_distrib)
  then have "\<bar>real (mant n d) * 2 powi k - real n / real d\<bar>
      = \<bar>real (mant n d) - (real n / real d) / 2 powi k\<bar> * 2 powi k"
    by (simp only: abs_mult) simp
  also have "\<dots> \<le> 1 / 2 * 2 powi k"
    using scaled by (intro mult_right_mono) auto
  finally show ?thesis by (simp add: k_def)
qed

text \<open>The range of positive values the error bounds below speak of.\<close>

definition f_hi :: real where "f_hi = 2 powi 1000"

definition f_lo :: real where "f_lo = 2 powi (- 1000)"

text \<open>
  Rounding a positive number in the normal range, far from overflow: the result is finite,
  not negative, and its relative error is at most \<open>2 ^ -53\<close>.
\<close>

lemma mant_le:
  assumes "0 < n" "0 < d"
  shows "mant n d \<le> 2 ^ 53"
proof -
  define k where "k = ulp_exp n d"
  have "real (mant n d) * 2 powi k \<le> real n / real d + 2 powi k / 2"
    using mant_real [OF assms] unfolding k_def by linarith
  also have "\<dots> < 2 powi (flog2 n d + 1) + 2 powi k"
    using flog2_bounds(2) [OF assms] powi_pos [of k] by linarith
  also have "\<dots> \<le> 2 powi (k + 53) + 2 powi k"
    by (intro add_right_mono power_int_increasing) (auto simp: k_def ulp_exp_def)
  also have "\<dots> = (2 ^ 53 + 1) * 2 powi k"
    by (simp add: power_int_add)
  finally have "real (mant n d) < real (2 ^ 53 + 1)" by simp
  then have "mant n d < 2 ^ 53 + 1" by (simp only: of_nat_less_iff)
  then show ?thesis by simp
qed

lemma bit_len_mono_le: "n \<le> 2 ^ k \<Longrightarrow> bit_len n \<le> k + 1"
proof (rule ccontr)
  assume n: "n \<le> 2 ^ k" and h: "\<not> bit_len n \<le> k + 1"
  then have "0 < n" by (cases n) auto
  then have "2 ^ (bit_len n - 1) \<le> n" using bit_len_bounds by blast
  moreover have "(2 :: nat) ^ (k + 1) \<le> 2 ^ (bit_len n - 1)"
    using h by (intro power_increasing) auto
  moreover have "(0 :: nat) < 2 ^ k" by simp
  ultimately show False using n by simp
qed

lemma fround_finite:
  assumes "0 < n" "0 < d" "real n / real d < f_hi"
  shows "\<exists>m k. fround (int n) d = Fin m k \<and> 0 \<le> m"
    and "fval (fround (int n) d) = real (mant n d) * 2 powi ulp_exp n d"
proof -
  define k where "k = ulp_exp n d"
  have "2 powi flog2 n d < (2 :: real) powi 1000"
    using flog2_bounds(1) [OF assms(1,2)] assms(3) unfolding f_hi_def by linarith
  then have "flog2 n d < 1000" by (rule powi_lessD)
  then have "k \<le> 948" by (simp add: k_def ulp_exp_def)
  moreover have "bit_len (mant n d) \<le> 54"
    using bit_len_mono_le [OF mant_le [OF assms(1,2)]] by simp
  ultimately have "\<not> 1024 < int (bit_len (mant n d)) + k" by simp
  with assms(1) have r: "fround (int n) d
    = (if mant n d = 0 then Fin 0 0 else Fin (int (mant n d)) k)"
    by (simp add: fround_def Let_def k_def)
  then show "\<exists>m k. fround (int n) d = Fin m k \<and> 0 \<le> m" by auto
  show "fval (fround (int n) d) = real (mant n d) * 2 powi ulp_exp n d"
    unfolding r by (simp add: fval_def k_def)
qed

lemma fround_pos_error:
  assumes "0 < n" "0 < d" "real n / real d < f_hi" "f_lo \<le> real n / real d"
  shows "\<bar>fval (fround (int n) d) - real n / real d\<bar> \<le> real n / real d * 2 powi (- 53)"
proof -
  have "2 powi (- 1000) < (2 :: real) powi (flog2 n d + 1)"
    using flog2_bounds(2) [OF assms(1,2)] assms(4) unfolding f_lo_def by linarith
  then have "- 1000 < flog2 n d + 1" by (rule powi_lessD)
  then have k: "ulp_exp n d = flog2 n d - 52" by (simp add: ulp_exp_def)
  have "\<bar>fval (fround (int n) d) - real n / real d\<bar> \<le> 2 powi (flog2 n d - 52) / 2"
    using mant_real [OF assms(1,2)] unfolding fround_finite(2) [OF assms(1-3)] k .
  also have "\<dots> = 2 powi flog2 n d * 2 powi (- 53)"
    by (simp add: power_int_diff power_int_minus field_simps)
  also have "\<dots> \<le> real n / real d * 2 powi (- 53)"
    using flog2_bounds(1) [OF assms(1,2)] by (intro mult_right_mono) auto
  finally show ?thesis .
qed

lemma fround_scaled_pos:
  assumes "0 < m"
  obtains n d where "0 < n" "0 < d" "fround_scaled m e = fround (int n) d"
    "real n / real d = real_of_int m * 2 powi e"
proof (cases "0 \<le> e")
  case True
  have "real (nat (m * 2 ^ nat e)) = real_of_int (m * 2 ^ nat e)"
    using assms by (intro of_nat_nat) auto
  then have "real (nat (m * 2 ^ nat e)) / real 1 = real_of_int m * 2 powi e"
    using True by (simp add: powi_nat)
  moreover have "fround_scaled m e = fround (int (nat (m * 2 ^ nat e))) 1"
    using True assms by (simp add: fround_scaled_def)
  ultimately show thesis using assms by (intro that [of "nat (m * 2 ^ nat e)" 1]) auto
next
  case False
  have "real (nat m) / real (2 ^ nat (- e)) = real_of_int m * 2 powi e"
    using False assms by (simp add: powi_neg)
  moreover have "fround_scaled m e = fround (int (nat m)) (2 ^ nat (- e))"
    using False assms by (simp add: fround_scaled_def)
  ultimately show thesis using assms by (intro that [of "nat m" "2 ^ nat (- e)"]) auto
qed

lemma fround_scaled_pos_error:
  assumes "0 < m" "real_of_int m * 2 powi e < f_hi" "f_lo \<le> real_of_int m * 2 powi e"
  shows "\<exists>m' k. fround_scaled m e = Fin m' k \<and> 0 \<le> m'"
    and "\<bar>fval (fround_scaled m e) - real_of_int m * 2 powi e\<bar> \<le> real_of_int m * 2 powi e * 2 powi (- 53)"
proof -
  obtain n d where n: "0 < n" "0 < d" "fround_scaled m e = fround (int n) d"
    and v: "real n / real d = real_of_int m * 2 powi e"
    using fround_scaled_pos [OF assms(1)] by blast
  show "\<exists>m' k. fround_scaled m e = Fin m' k \<and> 0 \<le> m'"
    using fround_finite(1) [of n d] n v assms(2) by simp
  show "\<bar>fval (fround_scaled m e) - real_of_int m * 2 powi e\<bar> \<le> real_of_int m * 2 powi e * 2 powi (- 53)"
    using fround_pos_error [of n d] n v assms(2,3) by simp
qed

text \<open>A non-negative integer below \<open>2 ^ 53\<close> is exact.\<close>

lemma flog2_int_bounds:
  assumes "0 < n" "n < 2 ^ 53"
  shows "0 \<le> flog2 n 1" and "flog2 n 1 \<le> 52"
proof -
  have "real n < real (2 ^ 53)" using assms(2) by (simp only: of_nat_less_iff)
  also have "\<dots> = 2 powi 53" by (simp add: powi_nat)
  finally have "2 powi flog2 n 1 < (2 :: real) powi 53"
    using flog2_bounds(1) [of n 1] assms(1) by simp
  then show "flog2 n 1 \<le> 52" using powi_lessD by fastforce
  have "1 \<le> real n" using assms(1) by simp
  then have "(2 :: real) powi 0 < 2 powi (flog2 n 1 + 1)"
    using flog2_bounds(2) [of n 1] assms(1) by simp
  then show "0 \<le> flog2 n 1" using powi_lessD by fastforce
qed

lemma int_below_f_hi: "n < 2 ^ 53 \<Longrightarrow> real n / real 1 < f_hi"
proof -
  assume n: "n < 2 ^ 53"
  have "real n < real (2 ^ 53)" using n by (simp only: of_nat_less_iff)
  also have "\<dots> = 2 powi 53" by (simp add: powi_nat)
  also have "\<dots> \<le> 2 powi 1000" by (rule power_int_increasing) auto
  finally show ?thesis by (simp add: f_hi_def)
qed

lemma f_of_nat_exact:
  assumes "0 < n" "n < 2 ^ 53"
  shows "\<exists>m k. f_of_int (int n) = Fin m k \<and> 0 \<le> m" and "fval (f_of_int (int n)) = real n"
proof -
  have k: "ulp_exp n 1 = flog2 n 1 - 52" "ulp_exp n 1 \<le> 0"
    using flog2_int_bounds [OF assms] by (auto simp: ulp_exp_def)
  have m: "mant n 1 = n * 2 ^ nat (- ulp_exp n 1)"
    using k(2) by (auto simp: mant_def Let_def rne_def)
  have "real (mant n 1) * 2 powi ulp_exp n 1 = real n"
    using k(2) unfolding m by (cases "ulp_exp n 1 = 0") (simp_all del: One_nat_def add: powi_neg)
  then show "fval (f_of_int (int n)) = real n"
    using fround_finite(2) [OF assms(1) _ int_below_f_hi [OF assms(2)]] by (simp add: f_of_int_def)
  show "\<exists>m k. f_of_int (int n) = Fin m k \<and> 0 \<le> m"
    using fround_finite(1) [OF assms(1) _ int_below_f_hi [OF assms(2)]] by (simp add: f_of_int_def)
qed

text \<open>Rounding a finite value that is nearest to the integer \<open>N\<close>, then converting, gives \<open>N\<close>.\<close>

lemma int_close_eq:
  assumes "\<bar>real_of_int a - real_of_int b\<bar> < 1 / 2"
  shows "a = b"
proof -
  have "real_of_int \<bar>a - b\<bar> < real_of_int 1" using assms by simp
  then have "\<bar>a - b\<bar> < 1" by (simp only: of_int_less_iff)
  then show ?thesis by simp
qed

lemma round_div_int:
  assumes "0 < p" "\<bar>real_of_int m / real_of_int p - real_of_int N\<bar> < 1 / 2"
  shows "(2 * m + p) div (2 * p) = N"
proof -
  have "real_of_int m / real_of_int p - real_of_int N < 1 / 2"
    "real_of_int N - real_of_int m / real_of_int p < 1 / 2"
    using assms(2) by linarith+
  then have "real_of_int (2 * m) < real_of_int (2 * N * p + p)"
    "real_of_int (2 * N * p) < real_of_int (2 * m + p)"
    using assms(1) by (simp_all add: field_simps)
  then have lohi: "2 * m < 2 * N * p + p" "2 * N * p < 2 * m + p"
    by (simp_all only: of_int_less_iff)
  have "2 * m + p = 2 * p * N + (2 * m + p - 2 * N * p)" by (simp add: algebra_simps)
  moreover have "0 \<le> 2 * m + p - 2 * N * p" "2 * m + p - 2 * N * p < 2 * p"
    using lohi by linarith+
  ultimately show ?thesis by (rule int_div_pos_eq)
qed

lemma round_to_nearest_int:
  assumes "0 \<le> m" "in_int64 N" "\<bar>fval (Fin m e) - real_of_int N\<bar> < 1 / 2"
  shows "f_to_int64 (math_round (Fin m e)) = N"
proof (cases "0 \<le> e")
  case True
  have "real_of_int (m * 2 ^ nat e) = fval (Fin m e)"
    using True by (simp add: fval_def powi_nat)
  with assms(3) have "m * 2 ^ nat e = N" by (intro int_close_eq) simp
  then show ?thesis using True assms(2) by simp
next
  case False
  define p :: int where "p = 2 ^ nat (- e)"
  have p: "0 < p" by (simp add: p_def)
  have v: "fval (Fin m e) = real_of_int m / real_of_int p"
    using False by (simp add: fval_def powi_neg p_def)
  have q: "(2 * m + p) div (2 * p) = N"
    by (rule round_div_int [OF p]) (use assms(3) v in simp)
  have "m = 0 \<Longrightarrow> N = 0" using q p by simp
  then show ?thesis
    using False assms(1,2) q by (cases "m = 0") (simp_all add: p_def [symmetric] Let_def)
qed

section \<open>Positive floats\<close>

text \<open>\<open>fpos x v\<close>: \<open>x\<close> is a finite float with the positive value \<open>v\<close>.\<close>

definition fpos :: "f64 \<Rightarrow> real \<Rightarrow> bool" where
  "fpos x v \<longleftrightarrow> (\<exists>m e. x = Fin m e \<and> 0 < m) \<and> fval x = v"

lemma fposE:
  assumes "fpos x v"
  obtains m e where "x = Fin m e" "0 < m" "v = real_of_int m * 2 powi e" "0 < v"
  using assms by (auto simp: fpos_def fval_def)

lemma fposI:
  assumes "\<exists>m e. x = Fin m e \<and> 0 \<le> m" "0 < fval x"
  shows "fpos x (fval x)"
  using assms by (auto simp: fpos_def fval_def zero_less_mult_iff)

lemma small_error_pos:
  assumes "0 < v" "\<bar>c - v\<bar> \<le> v * 2 powi (- 53)"
  shows "0 < (c :: real)"
proof -
  have "v * 2 powi (- 53) < v * 1"
    using assms(1) by (intro mult_strict_left_mono) (auto simp: powi_neg)
  with assms show ?thesis by linarith
qed

lemma fpos_int: "0 < n \<Longrightarrow> n < 2 ^ 53 \<Longrightarrow> fpos (f_of_int (int n)) (real n)"
  using fposI [OF f_of_nat_exact(1) [of n]] f_of_nat_exact(2) [of n] by simp

lemma fmul_pos_error:
  assumes "fpos x a" "fpos y b" "a * b < f_hi" "f_lo \<le> a * b"
  shows "\<exists>c. fpos (fmul x y) c \<and> \<bar>c - a * b\<bar> \<le> a * b * 2 powi (- 53)"
proof -
  obtain m e where x: "x = Fin m e" "0 < m" "a = real_of_int m * 2 powi e" "0 < a"
    using assms(1) by (rule fposE)
  obtain n k where y: "y = Fin n k" "0 < n" "b = real_of_int n * 2 powi k" "0 < b"
    using assms(2) by (rule fposE)
  have ab: "a * b = real_of_int (m * n) * 2 powi (e + k)"
    using x(3) y(3) by (simp add: power_int_add)
  have mn: "0 < m * n" using x(2) y(2) by simp
  note r = fround_scaled_pos_error [OF mn, of "e + k"]
  have f: "fmul x y = fround_scaled (m * n) (e + k)" using x y by simp
  have err: "\<bar>fval (fmul x y) - a * b\<bar> \<le> a * b * 2 powi (- 53)"
    using r(2) assms(3,4) unfolding f ab by blast
  have "0 < fval (fmul x y)" using small_error_pos [OF _ err] x(4) y(4) by simp
  moreover have "\<exists>m e. fmul x y = Fin m e \<and> 0 \<le> m"
    using r(1) assms(3,4) unfolding f ab by blast
  ultimately show ?thesis using err fposI by blast
qed

lemma fdiv_pos_error:
  assumes "fpos x a" "fpos y b" "a / b < f_hi" "f_lo \<le> a / b"
  shows "\<exists>c. fpos (fdiv x y) c \<and> \<bar>c - a / b\<bar> \<le> a / b * 2 powi (- 53)"
proof -
  obtain m e where x: "x = Fin m e" "0 < m" "a = real_of_int m * 2 powi e" "0 < a"
    using assms(1) by (rule fposE)
  obtain n k where y: "y = Fin n k" "0 < n" "b = real_of_int n * 2 powi k" "0 < b"
    using assms(2) by (rule fposE)
  have ab: "a / b = real_of_int m / real_of_int n * 2 powi (e - k)"
    using x(3) y(3) by (simp add: power_int_diff)
  obtain p d where pd: "0 < p" "0 < d" "fdiv x y = fround (int p) d" "real p / real d = a / b"
  proof (cases "0 \<le> e - k")
    case True
    have "real (nat (m * 2 ^ nat (e - k))) = real_of_int (m * 2 ^ nat (e - k))"
      using x(2) by (intro of_nat_nat) auto
    then have "real (nat (m * 2 ^ nat (e - k))) / real (nat n) = a / b"
      using True y(2) unfolding ab by (simp add: powi_nat)
    then show thesis using True x y
      by (intro that [of "nat (m * 2 ^ nat (e - k))" "nat n"]) (auto simp: Let_def)
  next
    case False
    have "real (nat m) / real (nat n * 2 ^ nat (- (e - k))) = a / b"
      using False x(2) y(2) unfolding ab by (simp add: powi_neg)
    then show thesis using False x y
      by (intro that [of "nat m" "nat n * 2 ^ nat (- (e - k))"]) (auto simp: Let_def)
  qed
  have err: "\<bar>fval (fdiv x y) - a / b\<bar> \<le> a / b * 2 powi (- 53)"
    using fround_pos_error [OF pd(1,2)] assms(3,4) unfolding pd(3,4) by blast
  have "0 < fval (fdiv x y)" using small_error_pos [OF _ err] x(4) y(4) by simp
  moreover have "\<exists>m e. fdiv x y = Fin m e \<and> 0 \<le> m"
    using fround_finite(1) [OF pd(1,2)] assms(3) unfolding pd(3,4) by blast
  ultimately show ?thesis using err fposI by blast
qed

lemma fpos_not_le_zero: "fpos x v \<Longrightarrow> \<not> fle x fzero"
  by (auto elim!: fposE simp: fle_def fzero_def dy_less_def Let_def)

lemma fpos_round:
  assumes "fpos x v" "in_int64 N" "\<bar>v - real_of_int N\<bar> < 1 / 2"
  shows "f_to_int64 (math_round x) = N"
proof -
  obtain m e where x: "x = Fin m e" "0 < m" "v = real_of_int m * 2 powi e" "0 < v"
    using assms(1) by (rule fposE)
  have "\<bar>fval (Fin m e) - real_of_int N\<bar> < 1 / 2" using assms(3) x(3) by (simp add: fval_def)
  then show ?thesis unfolding x(1) using x(2) assms(2) by (intro round_to_nearest_int) auto
qed

text \<open>
  A product of a rounded quotient is within \<open>3 * 2 ^ -53\<close> of the exact one, relatively.
\<close>

lemma two_roundings:
  assumes "0 < (v :: real)" "\<bar>q - v\<bar> \<le> v * 2 powi (- 53)" "0 < u"
    and "\<bar>c - q * u\<bar> \<le> q * u * 2 powi (- 53)"
  shows "\<bar>c - v * u\<bar> \<le> v * u * (3 * 2 powi (- 53))"
proof -
  define h :: real where "h = 2 powi (- 53)"
  have h: "0 < h" "h \<le> 1" by (auto simp: h_def powi_neg)
  have "q \<le> v + v * h" using assms(2) unfolding h_def by linarith
  then have "q * u \<le> (v + v * h) * u" using assms(3) by (intro mult_right_mono) auto
  then have "q * u * h \<le> (v + v * h) * u * h" by (rule mult_right_mono) (use h in simp)
  also have "\<dots> = v * u * h + v * u * h * h" by (simp add: algebra_simps)
  also have "\<dots> \<le> v * u * h + v * u * h * 1"
    using h assms(1,3) by (intro add_left_mono mult_left_mono) auto
  finally have a: "q * u * h \<le> 2 * (v * u * h)" by (simp add: mult.commute mult.left_commute)
  have "\<bar>q * u - v * u\<bar> = \<bar>q - v\<bar> * u" using assms(3) by (simp add: abs_mult flip: left_diff_distrib)
  also have "\<dots> \<le> v * h * u" using assms(2,3) unfolding h_def by (intro mult_right_mono) auto
  finally have b: "\<bar>q * u - v * u\<bar> \<le> v * u * h" by (simp add: mult.commute mult.left_commute)
  have "\<bar>c - v * u\<bar> \<le> \<bar>c - q * u\<bar> + \<bar>q * u - v * u\<bar>" by linarith
  then show ?thesis using a b assms(4) unfolding h_def by linarith
qed

section \<open>Sums and products of non-negative values\<close>

text \<open>\<open>fnn x v\<close>: \<open>x\<close> is a finite float with the non-negative value \<open>v\<close>.\<close>

definition fnn :: "f64 \<Rightarrow> real \<Rightarrow> bool" where
  "fnn x v \<longleftrightarrow> (\<exists>m e. x = Fin m e \<and> 0 \<le> m) \<and> fval x = v"

lemma fnnE:
  assumes "fnn x v"
  obtains m e where "x = Fin m e" "0 \<le> m" "v = real_of_int m * 2 powi e" "0 \<le> v"
  using assms by (auto simp: fnn_def fval_def)

lemma fnn_nonneg: "fnn x v \<Longrightarrow> 0 \<le> v"
  by (auto elim: fnnE)

lemma fpos_fnn: "fpos x v \<Longrightarrow> fnn x v"
  by (auto simp: fpos_def fnn_def)

lemma fnn_zero [simp]: "fnn (Fin 0 e) 0"
  by (auto simp: fnn_def fval_def)

lemma fnn_int: "n < 2 ^ 53 \<Longrightarrow> fnn (f_of_int (int n)) (real n)"
proof (cases "n = 0")
  case True
  then show ?thesis by (simp add: f_of_int_def fround_def)
next
  case False
  assume "n < 2 ^ 53"
  with False show ?thesis using fpos_fnn [OF fpos_int [of n]] by simp
qed

lemma fround_scaled_error:
  assumes "0 \<le> m" "real_of_int m * 2 powi e < f_hi" "m = 0 \<or> f_lo \<le> real_of_int m * 2 powi e"
  shows "\<exists>c. fnn (fround_scaled m e) c \<and> \<bar>c - real_of_int m * 2 powi e\<bar> \<le> real_of_int m * 2 powi e * 2 powi (- 53)"
proof (cases "m = 0")
  case True
  then show ?thesis by (auto simp: fround_scaled_def fround_def intro!: exI [of _ 0])
next
  case False
  then have "\<exists>m' k. fround_scaled m e = Fin m' k \<and> 0 \<le> m'"
    "\<bar>fval (fround_scaled m e) - real_of_int m * 2 powi e\<bar> \<le> real_of_int m * 2 powi e * 2 powi (- 53)"
    using fround_scaled_pos_error [of m e] assms by simp_all
  then show ?thesis by (auto simp: fnn_def)
qed

lemma fmul_error:
  assumes "fnn x a" "fnn y b" "a * b < f_hi" "a = 0 \<or> b = 0 \<or> f_lo \<le> a * b"
  shows "\<exists>c. fnn (fmul x y) c \<and> \<bar>c - a * b\<bar> \<le> a * b * 2 powi (- 53)"
proof -
  obtain m e where x: "x = Fin m e" "0 \<le> m" "a = real_of_int m * 2 powi e" by (rule fnnE [OF assms(1)])
  obtain n k where y: "y = Fin n k" "0 \<le> n" "b = real_of_int n * 2 powi k" by (rule fnnE [OF assms(2)])
  have ab: "a * b = real_of_int (m * n) * 2 powi (e + k)"
    using x(3) y(3) by (simp add: power_int_add)
  have "m * n = 0 \<or> f_lo \<le> a * b" using assms(4) x(3) y(3) by auto
  then show ?thesis
    using fround_scaled_error [of "m * n" "e + k"] x(1,2) y(1,2) assms(3) unfolding ab by simp
qed

lemma fadd_error:
  assumes "fnn x a" "fnn y b" "a + b < f_hi" "a + b = 0 \<or> f_lo \<le> a + b"
  shows "\<exists>c. fnn (fadd x y) c \<and> \<bar>c - (a + b)\<bar> \<le> (a + b) * 2 powi (- 53)"
proof -
  obtain m e where x: "x = Fin m e" "0 \<le> m" "a = real_of_int m * 2 powi e" "0 \<le> a" by (rule fnnE [OF assms(1)])
  obtain n k where y: "y = Fin n k" "0 \<le> n" "b = real_of_int n * 2 powi k" "0 \<le> b" by (rule fnnE [OF assms(2)])
  let ?e = "min e k" and ?s = "m * 2 ^ nat (e - min e k) + n * 2 ^ nat (k - min e k)"
  have shift: "real_of_int (i * 2 ^ nat (j - min e k)) * 2 powi ?e = real_of_int i * 2 powi j" if "min e k \<le> j" for i j
    using that by (simp add: power_int_diff flip: powi_nat)
  have ab: "a + b = real_of_int ?s * 2 powi ?e"
    using shift [of e m] shift [of k n] by (simp only: x(3) y(3) of_int_add distrib_right)
  have s: "0 \<le> ?s" using x(2) y(2) by simp
  have "real_of_int ?s * 2 powi ?e = 0 \<longleftrightarrow> ?s = 0" by (simp only: mult_eq_0_iff of_int_eq_0_iff) simp
  then have "?s = 0 \<or> f_lo \<le> a + b" using assms(4) unfolding ab by blast
  then show ?thesis
    using fround_scaled_error [OF s, of ?e] x(1) y(1) assms(3) unfolding ab by (simp add: Let_def)
qed

lemma ceil_value:
  assumes "fnn x v" "v < 2 ^ 62"
  shows "v \<le> real_of_int (f_to_int64 (math_ceil x)) \<and> real_of_int (f_to_int64 (math_ceil x)) < v + 1"
proof -
  obtain m e where x: "x = Fin m e" "0 \<le> m" "v = real_of_int m * 2 powi e" "0 \<le> v" by (rule fnnE [OF assms(1)])
  define c where "c = (if 0 \<le> e then m * 2 ^ nat e else - ((- m) div 2 ^ nat (- e)))"
  have c: "c = \<lceil>v\<rceil>"
  proof (cases "0 \<le> e")
    case True
    then have "v = real_of_int (m * 2 ^ nat e)" using x(3) by (simp add: powi_nat)
    then show ?thesis using True by (simp add: c_def del: of_int_mult)
  next
    case False
    then have "v = real_of_int m / real_of_int (2 ^ nat (- e))" using x(3) by (simp add: powi_neg)
    then have "- v = real_of_int (- m) / real_of_int (2 ^ nat (- e))" by simp
    then have "\<lfloor>- v\<rfloor> = (- m) div 2 ^ nat (- e)" by (simp only: floor_divide_of_int_eq)
    then have "- ((- m) div 2 ^ nat (- e)) = \<lceil>v\<rceil>" by (simp add: ceiling_def)
    then show ?thesis using False by (simp add: c_def)
  qed
  have "v \<le> real_of_int c" "real_of_int c < v + 1" unfolding c by linarith+
  moreover have "in_int64 c"
  proof -
    have "c \<le> 2 ^ 62" "0 \<le> c" using assms(2) x(4) unfolding c by (simp_all add: ceiling_le_iff)
    then show ?thesis by (simp add: in_int64_def min_int64_def max_int64_def)
  qed
  moreover have "f_to_int64 (math_ceil x) = c" if "in_int64 c"
    using that x(1) by (cases "0 \<le> e") (simp_all add: c_def Let_def)
  ultimately show ?thesis by simp
qed

text \<open>The equations that evaluate an operation on literals.\<close>

lemma bit_len_num:
  "bit_len (Suc 0) = 1"
  "bit_len (numeral (num.Bit0 n)) = Suc (bit_len (numeral n))"
  "bit_len (numeral (num.Bit1 n)) = Suc (bit_len (numeral n))"
  by (simp_all add: bit_len.simps [of "Suc 0"] bit_len.simps [of "numeral (num.Bit0 n)"]
      bit_len.simps [of "numeral (num.Bit1 n)"])

lemmas float_eval = f_of_int_def flit_def fround_def fround_scaled_def mant_def ulp_exp_def flog2_def
  rne_def bit_len_num Let_def fsub_def fle_def feq_def fzero_def fone_def dy_less_def in_int64_def
  min_int64_def max_int64_def fsign_def

end
