(* ===== verification/Schema.thy ===== *)
theory Schema
  imports GoFloat
begin

text \<open>
  The rows of the tables the modelled code reads and writes, one record per GORM model of the
  package \<open>model\<close>, the constants of \<open>common/constants.go\<close> that appear in their status columns,
  and the database as one record of tables. A table is the list of its rows in primary-key
  order, the order in which \<open>First\<close> searches. Fields carry the column name behind a
  table prefix. A nullable column is an option; a JSON column is its decoded value, in which a
  Go map is an association list (the nil map is the empty one).
\<close>

section \<open>Status constants\<close>

definition RoleAdminUser :: int where "RoleAdminUser = 10"
definition RoleRootUser :: int where "RoleRootUser = 100"

definition UserStatusEnabled :: int where "UserStatusEnabled = 1"
definition UserStatusDisabled :: int where "UserStatusDisabled = 2"
definition UserStatusDeleted :: int where "UserStatusDeleted = 3"

definition TokenStatusEnabled :: int where "TokenStatusEnabled = 1"
definition TokenStatusDisabled :: int where "TokenStatusDisabled = 2"
definition TokenStatusExpired :: int where "TokenStatusExpired = 3"
definition TokenStatusExhausted :: int where "TokenStatusExhausted = 4"

definition RedemptionCodeStatusEnabled :: int where "RedemptionCodeStatusEnabled = 1"
definition RedemptionCodeStatusUsed :: int where "RedemptionCodeStatusUsed = 3"

definition ChannelStatusUnknown :: int where "ChannelStatusUnknown = 0"
definition ChannelStatusEnabled :: int where "ChannelStatusEnabled = 1"
definition ChannelStatusManuallyDisabled :: int where "ChannelStatusManuallyDisabled = 2"
definition ChannelStatusAutoDisabled :: int where "ChannelStatusAutoDisabled = 3"

definition AffCommissionStatusGranted :: int where "AffCommissionStatusGranted = 1"
definition AffCommissionStatusReversed :: int where "AffCommissionStatusReversed = 2"

named_theorems status_defs \<open>the status constants\<close>

lemmas [status_defs] =
  RoleAdminUser_def RoleRootUser_def
  UserStatusEnabled_def UserStatusDisabled_def UserStatusDeleted_def
  TokenStatusEnabled_def TokenStatusDisabled_def TokenStatusExpired_def TokenStatusExhausted_def
  RedemptionCodeStatusEnabled_def RedemptionCodeStatusUsed_def
  ChannelStatusUnknown_def ChannelStatusEnabled_def ChannelStatusManuallyDisabled_def
  ChannelStatusAutoDisabled_def AffCommissionStatusGranted_def AffCommissionStatusReversed_def

section \<open>Rows\<close>

record user =
  u_id :: int
  u_username :: string
  u_role :: int
  u_status :: int
  u_email :: string
  u_access_token :: string
  u_quota :: int
  u_used_quota :: int
  u_request_count :: int
  u_group :: string
  u_aff_code :: string
  u_inviter_id :: int
  u_remind_threshold :: int
  u_last_notice_time :: int
  u_gift_quota :: int
  u_topup_quota :: int

record token =
  t_id :: int
  t_user_id :: int
  t_key :: string
  t_status :: int
  t_name :: string
  t_created_time :: int
  t_accessed_time :: int
  t_expired_time :: int
  t_remain_quota :: int
  t_unlimited :: bool
  t_used_quota :: int
  t_remind_threshold :: int
  t_last_notice_time :: int

datatype key_mode = KeySelectionPolling | KeySelectionRandom | KeySelectionOther int

datatype import_mode = BatchImportOverride | BatchImportAppend | BatchImportOther int

record key_metadata =
  k_balance :: f64
  k_usage :: int
  k_last_used :: int
  k_import_batch :: string
  k_note :: string
  k_disabled_reason :: "string option"
  k_disabled_time :: "int option"
  k_status_code :: "int option"
  k_disabled_model :: "string option"

record multi_key_info =
  mk_is_multi :: bool
  mk_key_count :: int
  mk_enabled_count :: int
  mk_mode :: key_mode
  mk_polling_index :: int
  mk_status :: "(int \<times> int) list"
  mk_metadata :: "(int \<times> key_metadata) list"
  mk_last_import :: int
  mk_import_mode :: import_mode

record channel =
  c_id :: int
  c_type :: int
  c_key :: string
  c_status :: int
  c_name :: string
  c_weight :: "nat option"
  c_models :: string
  c_group :: string
  c_used_quota :: int
  c_priority :: "int option"
  c_config :: string
  c_auto_disabled :: bool
  c_auto_enabled :: bool
  c_mk :: multi_key_info
  c_disabled_reason :: "string option"
  c_disabled_time :: "int option"
  c_disabled_model :: "string option"
  c_discount :: "f64 option"

record ability =
  ab_group :: string
  ab_model :: string
  ab_channel_id :: int
  ab_enabled :: bool
  ab_priority :: "int option"

record topup =
  tp_id :: int
  tp_user_id :: int
  tp_amount :: int
  tp_money :: f64
  tp_trade_no :: string
  tp_payment_method :: string
  tp_currency :: string
  tp_create_time :: int
  tp_complete_time :: int
  tp_status :: string
  tp_other :: string
  tp_receipt_url :: string

record redemption =
  rd_id :: int
  rd_user_id :: int
  rd_key :: string
  rd_status :: int
  rd_name :: string
  rd_quota :: int
  rd_created_time :: int
  rd_redeemed_time :: int

record charge_order =
  co_id :: int
  co_user_id :: int
  co_app_order_id :: string
  co_order_no :: string
  co_charge_id :: int
  co_status :: int
  co_currency :: string
  co_amount :: f64
  co_real_amount :: f64
  co_order_cost :: f64

record bill =
  b_id :: int
  b_username :: string
  b_user_id :: int
  b_type :: string
  b_created_at :: int
  b_updated_at :: int
  b_amount :: f64
  b_status :: int
  b_source_id :: string

record crypto_order =
  or_id :: int
  or_username :: string
  or_user_id :: int
  or_type :: string
  or_uuid :: string
  or_status :: int
  or_ticker :: string
  or_address_out :: string
  or_address_in :: string
  or_created_time :: int
  or_updated_time :: int
  or_fee_coin :: f64
  or_value_coin :: f64
  or_value_forwarded_coin :: f64

record commission =
  cm_id :: int
  cm_inviter_id :: int
  cm_invitee_id :: int
  cm_inviter_username :: string
  cm_invitee_username :: string
  cm_source_type :: string
  cm_source_no :: string
  cm_topup_amount :: f64
  cm_topup_quota :: int
  cm_rate :: f64
  cm_inviter_group :: string
  cm_commission_quota :: int
  cm_status :: int
  cm_reversed_quota :: int
  cm_created_at :: int
  cm_reversed_at :: int

record group_config =
  g_id :: int
  g_key :: string
  g_discount :: f64
  g_sort_order :: int
  g_commission_rate :: f64
  g_upgrade_threshold :: int

record video =
  v_id :: int
  v_task_id :: string
  v_prompt :: string
  v_created_at :: int
  v_updated_at :: int
  v_total_duration :: int
  v_type :: string
  v_provider :: string
  v_mode :: string
  v_duration :: string
  v_resolution :: string
  v_username :: string
  v_channel_id :: int
  v_user_id :: int
  v_model :: string
  v_status :: string
  v_fail_reason :: string
  v_video_id :: string
  v_store_url :: string
  v_quota :: int
  v_n :: int
  v_credentials :: string
  v_result :: string
  v_callback_url :: string
  v_callback_status :: string
  v_callback_time :: int
  v_callback_error :: string
  v_sound :: string
  v_voice_list :: string

record image =
  i_id :: int
  i_task_id :: string
  i_username :: string
  i_channel_id :: int
  i_key_index :: int
  i_user_id :: int
  i_model :: string
  i_status :: string
  i_fail_reason :: string
  i_image_id :: string
  i_store_url :: string
  i_provider :: string
  i_request_id :: string
  i_created_at :: int
  i_updated_at :: int
  i_mode :: string
  i_n :: int
  i_quota :: int
  i_detail :: string
  i_total_duration :: int
  i_result :: string

text \<open>A row of \<open>logs\<close>: the message is kept as the numbers and names it prints.\<close>

datatype log_content =
    LogTopUp int f64 string
  | LogRedeem int
  | LogCommission int int
  | LogCommissionReversed int string
  | LogLevelUp string string int
  | LogBonus string int
  | LogConsume int int int string string int int
  | LogVideo string string int int string

record log_row =
  l_user_id :: int
  l_username :: string
  l_created_at :: int
  l_type :: int
  l_content :: log_content

definition LogTypeTopup :: int where "LogTypeTopup = 1"
definition LogTypeConsume :: int where "LogTypeConsume = 2"
definition LogTypeSystem :: int where "LogTypeSystem = 4"
definition LogTypeAffCommission :: int where "LogTypeAffCommission = 6"

section \<open>The database\<close>

record db =
  d_users :: "user list"
  d_tokens :: "token list"
  d_channels :: "channel list"
  d_abilities :: "ability list"
  d_topups :: "topup list"
  d_redemptions :: "redemption list"
  d_charge_orders :: "charge_order list"
  d_bills :: "bill list"
  d_orders :: "crypto_order list"
  d_commissions :: "commission list"
  d_groups :: "group_config list"
  d_videos :: "video list"
  d_images :: "image list"

text \<open>Column values read through an identifier, zero when there is no row (a Go zero value).\<close>

definition user_of :: "db \<Rightarrow> int \<Rightarrow> user option" where
  "user_of d i = List.find (\<lambda>u. u_id u = i) (d_users d)"

definition token_of :: "db \<Rightarrow> int \<Rightarrow> token option" where
  "token_of d i = List.find (\<lambda>t. t_id t = i) (d_tokens d)"

definition channel_of :: "db \<Rightarrow> int \<Rightarrow> channel option" where
  "channel_of d i = List.find (\<lambda>c. c_id c = i) (d_channels d)"

end
