(* ===== verification/Store.thy ===== *)
theory Store
  imports Schema
begin

text \<open>
  The state the operations of \<open>model/\<close> run in, and the statements they are made of. A
  \<open>world\<close> holds the database, the configuration variables of \<open>common/config\<close>, the Redis
  instance, the in-memory stores of the batch updater, the log table, the sent mails, the
  in-memory channel cache with its routes, the polling counters and the notices sent. An
  operation maps a world to a result (\<open>Inl\<close> an error) and a new world.

  Failures are part of the model. The world carries a list of booleans, the fate of the
  statements to come; one is consumed by every SQL statement, Redis command and mail, and
  \<open>True\<close> makes it fail without effect (the empty list lets everything succeed).
  \<open>transaction\<close> follows GORM: begin, run the body, roll back when it returns an error, commit
  otherwise; begin and commit can fail too. Inside a transaction on PostgreSQL a failed
  statement aborts the transaction, after which every statement fails and the commit rolls
  back. Statements of the code that use the global handle inside a transaction run outside
  it (\<open>exec_global\<close>).
\<close>

datatype gerr = DbErr | DupKey | NotFound | Panic | Msg string

datatype dialect = SQLite | MySQL | PostgreSQL

datatype batch_type =
    BatchUpdateTypeUserQuota
  | BatchUpdateTypeTokenQuota
  | BatchUpdateTypeUsedQuota
  | BatchUpdateTypeChannelUsedQuota
  | BatchUpdateTypeRequestCount

record config =
  cfg_quota_per_unit :: f64
  cfg_batch_update :: bool
  cfg_redis :: bool
  cfg_pre_consumed :: int
  cfg_new_user_quota :: int
  cfg_invitee_quota :: int
  cfg_inviter_quota :: int
  cfg_sync_frequency :: int
  cfg_log_consume :: bool
  cfg_memory_cache :: bool

record world =
  w_db :: db
  w_base :: "db option"
  w_aborted :: bool
  w_faults :: "bool list"
  w_dialect :: dialect
  w_now :: int
  w_cfg :: config
  w_redis :: "string \<rightharpoonup> string \<times> int option"
  w_token_cache :: "string \<rightharpoonup> token \<times> int"
  w_batch :: "batch_type \<Rightarrow> (int \<times> int) list"
  w_logs :: "log_row list"
  w_mails :: "string list"
  w_channel_cache :: "int \<rightharpoonup> channel"
  w_routes :: "string \<Rightarrow> string \<Rightarrow> int list"
  w_polling :: "int \<Rightarrow> int"
  w_notices :: "(int \<times> int option) list"

type_synonym 'a op = "world \<Rightarrow> (gerr + 'a) \<times> world"

section \<open>Sequencing\<close>

definition ret :: "'a \<Rightarrow> 'a op" where
  "ret a w = (Inr a, w)"

definition fail :: "gerr \<Rightarrow> 'a op" where
  "fail e w = (Inl e, w)"

text \<open>\<open>on_ok op k\<close>: run \<open>op\<close>, return its error or go on with its value.\<close>

definition on_ok :: "'a op \<Rightarrow> ('a \<Rightarrow> 'b op) \<Rightarrow> 'b op" where
  "on_ok f k w = (case f w of (Inl e, w') \<Rightarrow> (Inl e, w') | (Inr a, w') \<Rightarrow> k a w')"

text \<open>\<open>on_result op k\<close>: run \<open>op\<close> and go on with its result, error included.\<close>

definition on_result :: "'a op \<Rightarrow> ((gerr + 'a) \<Rightarrow> 'b op) \<Rightarrow> 'b op" where
  "on_result f k w = (case f w of (r, w') \<Rightarrow> k r w')"

definition then_do :: "'a op \<Rightarrow> 'b op \<Rightarrow> 'b op" where
  "then_do f g = on_ok f (\<lambda>_. g)"

text \<open>An error that the code only logs.\<close>

definition ignore_err :: "'a op \<Rightarrow> unit op" where
  "ignore_err f = on_result f (\<lambda>_. ret ())"

definition reading :: "(world \<Rightarrow> 'a op) \<Rightarrow> 'a op" where
  "reading f w = f w w"

lemmas op_defs [go_simps] = ret_def fail_def on_ok_def on_result_def then_do_def ignore_err_def
  reading_def

lemma on_ok_Inr [elim!]:
  assumes "on_ok f k w = (Inr b, w')"
  obtains a w1 where "f w = (Inr a, w1)" "k a w1 = (Inr b, w')"
  using assms by (auto simp: on_ok_def split: prod.splits sum.splits)

lemma then_do_Inr [elim!]:
  assumes "then_do f g w = (Inr b, w')"
  obtains a w1 where "f w = (Inr a, w1)" "g w1 = (Inr b, w')"
  using assms by (auto simp: then_do_def)

lemma on_result_eq [elim!]:
  assumes "on_result f k w = (r', w')"
  obtains r w1 where "f w = (r, w1)" "k r w1 = (r', w')"
  using assms by (auto simp: on_result_def split: prod.splits)

lemma ret_iff [simp]: "ret a w = (r, w') \<longleftrightarrow> r = Inr a \<and> w' = w"
  by (auto simp: ret_def)

lemma fail_iff [simp]: "fail e w = (r, w') \<longleftrightarrow> r = Inl e \<and> w' = w"
  by (auto simp: fail_def)

section \<open>Statements\<close>

definition take_fault :: "world \<Rightarrow> bool \<times> world" where
  "take_fault w = (case w_faults w of [] \<Rightarrow> (False, w) | f # fs \<Rightarrow> (f, w\<lparr>w_faults := fs\<rparr>))"

definition abort_tx :: "world \<Rightarrow> world" where
  "abort_tx w = w\<lparr>w_aborted := (w_base w \<noteq> None \<and> w_dialect w = PostgreSQL)\<rparr>"

definition exec :: "(db \<Rightarrow> gerr + ('a \<times> db)) \<Rightarrow> 'a op" where
  "exec f w =
     (if w_aborted w then (Inl DbErr, w)
      else case take_fault w of (bad, w1) \<Rightarrow>
        if bad then (Inl DbErr, abort_tx w1)
        else case f (w_db w1) of
            Inl e \<Rightarrow> (Inl e, abort_tx w1)
          | Inr (a, d) \<Rightarrow> (Inr a, w1\<lparr>w_db := d\<rparr>))"

text \<open>
  A statement on the global handle. Inside a transaction it reads and writes the committed
  state; the rows it writes are visible to the transaction as well.
\<close>

definition exec_global :: "(db \<Rightarrow> gerr + ('a \<times> db)) \<Rightarrow> 'a op" where
  "exec_global f w =
     (case take_fault w of (bad, w1) \<Rightarrow>
        if bad then (Inl DbErr, w1)
        else case w_base w1 of
            None \<Rightarrow> (case f (w_db w1) of Inl e \<Rightarrow> (Inl e, w1) | Inr (a, d) \<Rightarrow> (Inr a, w1\<lparr>w_db := d\<rparr>))
          | Some b \<Rightarrow>
              (case f b of
                 Inl e \<Rightarrow> (Inl e, w1)
               | Inr (a, d) \<Rightarrow>
                   (Inr a, w1\<lparr>w_base := Some d,
                      w_db := (case f (w_db w1) of Inl _ \<Rightarrow> w_db w1 | Inr (_, d') \<Rightarrow> d')\<rparr>)))"

definition query :: "(db \<Rightarrow> 'a) \<Rightarrow> 'a op" where
  "query f = exec (\<lambda>d. Inr (f d, d))"

definition first :: "(db \<Rightarrow> 'r list) \<Rightarrow> ('r \<Rightarrow> bool) \<Rightarrow> 'r op" where
  "first tbl p =
     on_ok (query (\<lambda>d. List.find p (tbl d)))
       (\<lambda>r. case r of None \<Rightarrow> fail NotFound | Some x \<Rightarrow> ret x)"

definition update_rows :: "('r \<Rightarrow> bool) \<Rightarrow> ('r \<Rightarrow> 'r) \<Rightarrow> 'r list \<Rightarrow> 'r list" where
  "update_rows p u rows = map (\<lambda>r. if p r then u r else r) rows"

text \<open>\<open>RowsAffected\<close>: matched rows, on MySQL only those whose contents change.\<close>

definition affected :: "dialect \<Rightarrow> ('r \<Rightarrow> bool) \<Rightarrow> ('r \<Rightarrow> 'r) \<Rightarrow> 'r list \<Rightarrow> nat" where
  "affected dl p u rows = length (filter (\<lambda>r. p r \<and> (dl = MySQL \<longrightarrow> u r \<noteq> r)) rows)"

definition update_where ::
    "(db \<Rightarrow> 'r list) \<Rightarrow> (('r list \<Rightarrow> 'r list) \<Rightarrow> db \<Rightarrow> db) \<Rightarrow> ('r \<Rightarrow> bool) \<Rightarrow> ('r \<Rightarrow> 'r) \<Rightarrow> nat op" where
  "update_where tbl upd p u w =
     exec (\<lambda>d. Inr (affected (w_dialect w) p u (tbl d), upd (update_rows p u) d)) w"

definition delete_where ::
    "(db \<Rightarrow> 'r list) \<Rightarrow> (('r list \<Rightarrow> 'r list) \<Rightarrow> db \<Rightarrow> db) \<Rightarrow> ('r \<Rightarrow> bool) \<Rightarrow> nat op" where
  "delete_where tbl upd p =
     exec (\<lambda>d. Inr (length (filter p (tbl d)), upd (filter (\<lambda>r. \<not> p r)) d))"

text \<open>\<open>INSERT\<close>: refused when a row of the table has the same unique key.\<close>

definition insert_rows ::
    "(db \<Rightarrow> 'r list) \<Rightarrow> (('r list \<Rightarrow> 'r list) \<Rightarrow> db \<Rightarrow> db) \<Rightarrow> ('r \<Rightarrow> 'r \<Rightarrow> bool) \<Rightarrow> (db \<Rightarrow> 'r list)
       \<Rightarrow> db \<Rightarrow> gerr + unit \<times> db" where
  "insert_rows tbl upd clash mk d =
     (if list_ex (\<lambda>r. list_ex (clash r) (tbl d)) (mk d) then Inl DupKey
      else Inr ((), upd (\<lambda>rs. rs @ mk d) d))"

text \<open>The next value of an auto-increment column.\<close>

definition next_id :: "int list \<Rightarrow> int" where
  "next_id ids = foldr max ids 0 + 1"

section \<open>Transactions\<close>

definition rollback :: "world \<Rightarrow> world" where
  "rollback w =
     w\<lparr>w_db := (case w_base w of None \<Rightarrow> w_db w | Some b \<Rightarrow> b), w_base := None, w_aborted := False\<rparr>"

definition transaction :: "'a op \<Rightarrow> 'a op" where
  "transaction body w =
     (case take_fault w of (bad, w1) \<Rightarrow>
        if bad then (Inl DbErr, w1)
        else case body (w1\<lparr>w_base := Some (w_db w1), w_aborted := False\<rparr>) of
            (Inl e, w2) \<Rightarrow> (Inl e, rollback w2)
          | (Inr a, w2) \<Rightarrow>
              (case take_fault w2 of (bad', w3) \<Rightarrow>
                 if bad' \<or> w_aborted w3 then (Inl DbErr, rollback w3)
                 else (Inr a, w3\<lparr>w_base := None\<rparr>)))"

section \<open>Redis, logs and mail\<close>

text \<open>
  \<open>common/redis.go\<close>: without Redis every command is the error \<open>redis is not available\<close>. A key
  carries the time it expires at, if any; \<open>SET\<close> with expiration 0 keeps it for ever and
  \<open>DECRBY\<close> creates a missing key at 0 and keeps the expiry of an existing one.
\<close>

definition live :: "int \<Rightarrow> (string \<times> int option) option \<Rightarrow> string option" where
  "live now e = (case e of None \<Rightarrow> None | Some (v, None) \<Rightarrow> Some v | Some (v, Some t) \<Rightarrow> if now < t then Some v else None)"

definition redis_cmd :: "(world \<Rightarrow> (gerr + 'a) \<times> world) \<Rightarrow> 'a op" where
  "redis_cmd f w =
     (if \<not> cfg_redis (w_cfg w) then (Inl (Msg ''redis is not available''), w)
      else case take_fault w of (bad, w1) \<Rightarrow> if bad then (Inl (Msg ''redis''), w1) else f w1)"

definition RedisGet :: "string \<Rightarrow> string op" where
  "RedisGet k = redis_cmd (\<lambda>w. case live (w_now w) (w_redis w k) of
     None \<Rightarrow> (Inl (Msg ''redis: nil''), w) | Some v \<Rightarrow> (Inr v, w))"

definition RedisSet :: "string \<Rightarrow> string \<Rightarrow> int \<Rightarrow> unit op" where
  "RedisSet k v ttl = redis_cmd (\<lambda>w. (Inr (),
     w\<lparr>w_redis := (w_redis w)(k \<mapsto> (v, if ttl = 0 then None else Some (w_now w + ttl)))\<rparr>))"

definition RedisDel :: "string \<Rightarrow> unit op" where
  "RedisDel k = redis_cmd (\<lambda>w. (Inr (), w\<lparr>w_redis := (w_redis w)(k := None)\<rparr>))"

definition RedisDecrease :: "string \<Rightarrow> int \<Rightarrow> unit op" where
  "RedisDecrease k v = redis_cmd (\<lambda>w.
     case live (w_now w) (w_redis w k) of
       None \<Rightarrow> (Inr (), w\<lparr>w_redis := (w_redis w)(k \<mapsto> (itoa (- v), None))\<rparr>)
     | Some s \<Rightarrow>
         (case parse_int64 s of
            None \<Rightarrow> (Inl (Msg ''ERR value is not an integer or out of range''), w)
          | Some x \<Rightarrow>
              if in_int64 (x - v)
              then (Inr (), w\<lparr>w_redis := (w_redis w)(k \<mapsto>
                     (itoa (x - v), case w_redis w k of Some (_, e) \<Rightarrow> e | None \<Rightarrow> None))\<rparr>)
              else (Inl (Msg ''ERR increment or decrement would overflow''), w)))"

definition send_email :: "string \<Rightarrow> unit op" where
  "send_email to w =
     (case take_fault w of (bad, w1) \<Rightarrow>
        if bad then (Inl (Msg ''mail''), w1) else (Inr (), w1\<lparr>w_mails := w_mails w1 @ [to]\<rparr>))"

text \<open>
  \<open>RecordLog\<close>: the user name is read on the global handle and left empty when that fails; the
  row goes to the log database, outside every transaction, and a failure is only printed.
\<close>

definition RecordLog :: "int \<Rightarrow> int \<Rightarrow> log_content \<Rightarrow> unit op" where
  "RecordLog uid ty content w =
     (if ty = LogTypeConsume \<and> \<not> cfg_log_consume (w_cfg w) then (Inr (), w)
      else on_result (exec_global (\<lambda>d. Inr (case user_of d uid of None \<Rightarrow> [] | Some u \<Rightarrow> u_username u, d)))
        (\<lambda>r w. case take_fault w of (bad, w1) \<Rightarrow>
           if bad then (Inr (), w1)
           else (Inr (), w1\<lparr>w_logs := w_logs w1 @ [\<lparr>l_user_id = uid,
                   l_username = (case r of Inl _ \<Rightarrow> [] | Inr nm \<Rightarrow> nm), l_created_at = w_now w1,
                   l_type = ty, l_content = content\<rparr>]\<rparr>)) w)"


section \<open>Outcomes of statements\<close>

lemma take_faultE:
  assumes "take_fault w = (bad, w1)"
  obtains fs where "w1 = w\<lparr>w_faults := fs\<rparr>"
proof (rule that [of "w_faults w1"])
  show "w1 = w\<lparr>w_faults := w_faults w1\<rparr>"
    using assms by (auto simp: take_fault_def split: list.splits)
qed

lemma take_fault_db: "take_fault w = (bad, w1) \<Longrightarrow> w_db w1 = w_db w"
  by (auto elim: take_faultE)

lemma take_fault_ok [simp]: "w_faults w = [] \<Longrightarrow> take_fault w = (False, w)"
  by (simp add: take_fault_def)

lemma exec_Inr:
  assumes "exec f w = (Inr a, w')"
  obtains d fs where "f (w_db w) = Inr (a, d)" "w' = w\<lparr>w_faults := fs, w_db := d\<rparr>" "\<not> w_aborted w"
proof -
  obtain bad w1 where t: "take_fault w = (bad, w1)" by (cases "take_fault w")
  then obtain fs where w1: "w1 = w\<lparr>w_faults := fs\<rparr>" by (rule take_faultE)
  show thesis
    using assms t w1
    by (auto simp: exec_def split: if_splits sum.splits intro: that)
qed

lemma query_Inr:
  assumes "query f w = (Inr a, w')"
  obtains fs where "a = f (w_db w)" "w' = w\<lparr>w_faults := fs\<rparr>" "\<not> w_aborted w"
proof -
  from assms obtain d fs where "Inr (f (w_db w), w_db w) = (Inr (a, d) :: gerr + _)"
      "w' = w\<lparr>w_faults := fs, w_db := d\<rparr>" "\<not> w_aborted w"
    unfolding query_def by (rule exec_Inr)
  then show thesis by (intro that [of fs]) auto
qed

lemma first_Inr:
  assumes "first tbl p w = (Inr x, w')"
  obtains fs where "List.find p (tbl (w_db w)) = Some x" "w' = w\<lparr>w_faults := fs\<rparr>" "\<not> w_aborted w"
  using assms by (auto simp: first_def elim!: query_Inr split: option.splits intro: that)

lemma update_where_Inr:
  assumes "update_where tbl upd p u w = (Inr n, w')"
  obtains fs where "n = affected (w_dialect w) p u (tbl (w_db w))"
    "w' = w\<lparr>w_faults := fs, w_db := upd (update_rows p u) (w_db w)\<rparr>" "\<not> w_aborted w"
  using assms unfolding update_where_def by (auto elim!: exec_Inr intro: that)

text \<open>What a statement can touch, and that a failing one leaves the database alone.\<close>

definition touched :: "world \<Rightarrow> world \<Rightarrow> db \<Rightarrow> bool" where
  "touched w w' d \<longleftrightarrow> (\<exists>fs ab. w' = w\<lparr>w_faults := fs, w_aborted := ab, w_db := d\<rparr>)"

lemma touched_trans: "touched a b d1 \<Longrightarrow> touched b c d2 \<Longrightarrow> touched a c d2"
  by (force simp: touched_def)

lemma touched_refl [simp]: "touched w w (w_db w)"
  unfolding touched_def by (intro exI [of _ "w_faults w"] exI [of _ "w_aborted w"]) simp

lemma touchedD:
  "touched w w' d \<Longrightarrow> w_db w' = d" "touched w w' d \<Longrightarrow> w_cfg w' = w_cfg w"
  "touched w w' d \<Longrightarrow> w_now w' = w_now w" "touched w w' d \<Longrightarrow> w_base w' = w_base w"
  "touched w w' d \<Longrightarrow> w_dialect w' = w_dialect w" "touched w w' d \<Longrightarrow> w_logs w' = w_logs w"
  "touched w w' d \<Longrightarrow> w_redis w' = w_redis w"
  by (auto simp: touched_def)

lemma exec_touched:
  assumes "exec f w = (r, w')"
  shows "touched w w' (w_db w')" and "\<And>e. r = Inl e \<Longrightarrow> w_db w' = w_db w"
    and "\<And>a. r = Inr a \<Longrightarrow> f (w_db w) = Inr (a, w_db w') \<and> \<not> w_aborted w"
proof -
  obtain bad w1 where t: "take_fault w = (bad, w1)" by (cases "take_fault w")
  then obtain fs where w1: "w1 = w\<lparr>w_faults := fs\<rparr>" by (rule take_faultE)
  have "(\<exists>fs ab. w' = w\<lparr>w_faults := fs, w_aborted := ab, w_db := w_db w'\<rparr>) \<and>
    (\<forall>e. r = Inl e \<longrightarrow> w_db w' = w_db w) \<and>
    (\<forall>a. r = Inr a \<longrightarrow> f (w_db w) = Inr (a, w_db w') \<and> \<not> w_aborted w)"
    using assms t w1
    by (cases w) (auto simp: exec_def abort_tx_def split: if_splits sum.splits)
  then show "touched w w' (w_db w')" and "\<And>e. r = Inl e \<Longrightarrow> w_db w' = w_db w"
    and "\<And>a. r = Inr a \<Longrightarrow> f (w_db w) = Inr (a, w_db w') \<and> \<not> w_aborted w"
    by (auto simp: touched_def)
qed

lemma query_touched: "query f w = (r, w') \<Longrightarrow> touched w w' (w_db w)"
  using exec_touched [of "\<lambda>d. Inr (f d, d)" w r w'] unfolding query_def by (cases r) auto

lemma first_touched: "first tbl p w = (r, w') \<Longrightarrow> touched w w' (w_db w)"
  by (cases "query (\<lambda>d. List.find p (tbl d)) w")
    (auto simp: first_def on_ok_def dest!: query_touched split: sum.splits option.splits)

lemma first_NotFound: "first tbl p w = (Inl NotFound, w') \<Longrightarrow> List.find p (tbl (w_db w)) = None"
  by (auto simp: first_def on_ok_def query_def exec_def split: sum.splits option.splits prod.splits if_splits
      dest!: take_fault_db)

lemma on_first:
  assumes "on_result (first tbl p) k w = (r, w')"
  obtains (err) e w1 where "touched w w1 (w_db w)" "k (Inl e) w1 = (r, w')"
      "e = NotFound \<longrightarrow> List.find p (tbl (w_db w)) = None"
  | (row) x w1 where "touched w w1 (w_db w)" "List.find p (tbl (w_db w)) = Some x" "\<not> w_aborted w"
      "k (Inr x) w1 = (r, w')"
proof -
  obtain r1 w1 where f: "first tbl p w = (r1, w1)" "k r1 w1 = (r, w')" using assms by blast
  have t: "touched w w1 (w_db w)" using f(1) by (rule first_touched)
  show thesis
  proof (cases r1)
    case (Inl e)
    with f t first_NotFound show thesis by (intro err) auto
  next
    case (Inr x)
    then have "first tbl p w = (Inr x, w1)" using f(1) by simp
    then have "List.find p (tbl (w_db w)) = Some x" "\<not> w_aborted w" by (auto elim: first_Inr)
    with f(2) t Inr show thesis by (intro row) auto
  qed
qed

lemma update_where_touched:
  assumes "update_where tbl upd p u w = (r, w')"
  shows "touched w w' (w_db w')" "\<And>e. r = Inl e \<Longrightarrow> w_db w' = w_db w"
    "\<And>n. r = Inr n \<Longrightarrow> w_db w' = upd (update_rows p u) (w_db w)"
  using exec_touched [OF assms [unfolded update_where_def]] by auto

lemma exec_reliable:
  "w_faults w = [] \<Longrightarrow> \<not> w_aborted w \<Longrightarrow>
   exec f w = (case f (w_db w) of Inl e \<Rightarrow> (Inl e, abort_tx w) | Inr (a, d) \<Rightarrow> (Inr a, w\<lparr>w_db := d\<rparr>))"
  by (simp add: exec_def)

lemma query_reliable:
  "w_faults w = [] \<Longrightarrow> \<not> w_aborted w \<Longrightarrow> query f w = (Inr (f (w_db w)), w)"
  by (simp add: query_def exec_reliable)

lemma first_reliable:
  "w_faults w = [] \<Longrightarrow> \<not> w_aborted w \<Longrightarrow>
   first tbl p w = (case List.find p (tbl (w_db w)) of None \<Rightarrow> (Inl NotFound, w) | Some x \<Rightarrow> (Inr x, w))"
  by (simp add: first_def on_ok_def query_reliable ret_def fail_def split: option.splits)

lemma update_where_reliable:
  "w_faults w = [] \<Longrightarrow> \<not> w_aborted w \<Longrightarrow>
   update_where tbl upd p u w =
     (Inr (affected (w_dialect w) p u (tbl (w_db w))), w\<lparr>w_db := upd (update_rows p u) (w_db w)\<rparr>)"
  by (simp add: update_where_def exec_reliable)

lemmas reliable_simps = exec_reliable query_reliable first_reliable update_where_reliable

text \<open>A transaction without a failing statement: the body, undone when it returns an error.\<close>

lemma transaction_reliable:
  assumes "w_faults w = []" "w_base w = None" "\<not> w_aborted w"
    and "body (w\<lparr>w_base := Some (w_db w)\<rparr>) = (r, w')" "w_faults w' = []" "\<not> w_aborted w'"
  shows "transaction body w =
    (r, case r of Inl e \<Rightarrow> rollback w' | Inr a \<Rightarrow> w'\<lparr>w_base := None\<rparr>)"
proof -
  have *: "w\<lparr>w_base := Some (w_db w), w_aborted := False\<rparr> = w\<lparr>w_base := Some (w_db w)\<rparr>"
    using assms(3) by (cases w) simp
  show ?thesis using assms(1,4,5,6)
    by (simp add: transaction_def * split: sum.splits)
qed

text \<open>A log entry leaves everything but the log alone and never fails.\<close>

lemma RecordLog_result:
  assumes "RecordLog uid ty c w = (r, w')"
  shows "r = Inr ()" "w_db w' = w_db w" "w_base w' = w_base w" "w_cfg w' = w_cfg w" "w_now w' = w_now w"
    "w_aborted w' = w_aborted w" "w_dialect w' = w_dialect w"
proof -
  let ?f = "\<lambda>d. Inr (case user_of d uid of None \<Rightarrow> [] | Some u \<Rightarrow> u_username u, d) :: gerr + string \<times> db"
  have g: "\<exists>fs. w2 = w\<lparr>w_faults := fs\<rparr>" if "exec_global ?f w = (r2, w2)" for r2 w2
  proof -
    obtain bad w1 where t: "take_fault w = (bad, w1)" by (cases "take_fault w")
    then obtain fs where w1: "w1 = w\<lparr>w_faults := fs\<rparr>" by (rule take_faultE)
    from that t w1 have "w2 = w\<lparr>w_faults := fs\<rparr>"
      by (cases w) (auto simp: exec_global_def split: if_splits option.splits)
    then show ?thesis by blast
  qed
  have "r = Inr () \<and> w_db w' = w_db w \<and> w_base w' = w_base w \<and> w_cfg w' = w_cfg w \<and> w_now w' = w_now w \<and>
    w_aborted w' = w_aborted w \<and> w_dialect w' = w_dialect w"
  proof (cases "ty = LogTypeConsume \<and> \<not> cfg_log_consume (w_cfg w)")
    case True
    with assms show ?thesis by (auto simp: RecordLog_def)
  next
    case False
    obtain r2 w2 where e: "exec_global ?f w = (r2, w2)" by fastforce
    from g [OF e] obtain fs where w2: "w2 = w\<lparr>w_faults := fs\<rparr>" by blast
    obtain bad w3 where t: "take_fault w2 = (bad, w3)" by (cases "take_fault w2")
    then obtain fs' where w3: "w3 = w2\<lparr>w_faults := fs'\<rparr>" by (rule take_faultE)
    from False assms e w2 t w3 show ?thesis
      by (auto simp: RecordLog_def on_result_def split: if_splits)
  qed
  then show "r = Inr ()" "w_db w' = w_db w" "w_base w' = w_base w" "w_cfg w' = w_cfg w" "w_now w' = w_now w"
    "w_aborted w' = w_aborted w" "w_dialect w' = w_dialect w" by auto
qed

section \<open>Atomicity\<close>

text \<open>
  An operation keeps the base when it leaves alone what a rollback restores. Every statement
  on the transaction handle does, and so does what is built from them: a transaction over
  such a body is all or nothing, whichever statements fail.
\<close>

definition keeps_base :: "'a op \<Rightarrow> bool" where
  "keeps_base f \<longleftrightarrow> (\<forall>w r w'. f w = (r, w') \<longrightarrow> w_base w' = w_base w)"

named_theorems base_intros \<open>operations that keep the base of the transaction\<close>

lemma keeps_baseI: "(\<And>w r w'. f w = (r, w') \<Longrightarrow> w_base w' = w_base w) \<Longrightarrow> keeps_base f"
  by (simp add: keeps_base_def)

lemma keeps_baseD: "keeps_base f \<Longrightarrow> f w = (r, w') \<Longrightarrow> w_base w' = w_base w"
  by (simp add: keeps_base_def)

lemma keeps_base_ret [base_intros]: "keeps_base (ret a)"
  by (simp add: keeps_base_def)

lemma keeps_base_fail [base_intros]: "keeps_base (fail e)"
  by (simp add: keeps_base_def)

lemma keeps_base_on_ok [base_intros]:
  "keeps_base f \<Longrightarrow> (\<And>a. keeps_base (k a)) \<Longrightarrow> keeps_base (on_ok f k)"
  by (auto simp: keeps_base_def on_ok_def split: prod.splits sum.splits)

lemma keeps_base_then_do [base_intros]:
  "keeps_base f \<Longrightarrow> keeps_base g \<Longrightarrow> keeps_base (then_do f g)"
  unfolding then_do_def by (rule keeps_base_on_ok)

lemma keeps_base_on_result [base_intros]:
  "keeps_base f \<Longrightarrow> (\<And>r. keeps_base (k r)) \<Longrightarrow> keeps_base (on_result f k)"
  by (auto simp: keeps_base_def on_result_def split: prod.splits)

lemma keeps_base_reading [base_intros]:
  "(\<And>v. keeps_base (k v)) \<Longrightarrow> keeps_base (reading k)"
  by (auto simp: keeps_base_def reading_def)

lemma keeps_base_exec [base_intros]: "keeps_base (exec f)"
proof (rule keeps_baseI)
  fix w r w' assume e: "exec f w = (r, w')"
  obtain bad w1 where t: "take_fault w = (bad, w1)" by (cases "take_fault w")
  then obtain fs where w1: "w1 = w\<lparr>w_faults := fs\<rparr>" by (rule take_faultE)
  show "w_base w' = w_base w"
    using e t w1 by (auto simp: exec_def abort_tx_def split: if_splits sum.splits)
qed

lemma keeps_base_query [base_intros]: "keeps_base (query f)"
  unfolding query_def by (rule keeps_base_exec)

lemma keeps_base_first [base_intros]: "keeps_base (first tbl p)"
  unfolding first_def by (intro base_intros) (auto split: option.splits intro: base_intros)

lemma keeps_base_update [base_intros]: "keeps_base (update_where tbl upd p u)"
  unfolding update_where_def keeps_base_def using keeps_base_exec by (auto simp: keeps_base_def)

lemma keeps_base_delete [base_intros]: "keeps_base (delete_where tbl upd p)"
  unfolding delete_where_def by (rule keeps_base_exec)

lemma keeps_base_if [base_intros]:
  "(b \<Longrightarrow> keeps_base f) \<Longrightarrow> (\<not> b \<Longrightarrow> keeps_base g) \<Longrightarrow> keeps_base (if b then f else g)"
  by simp

lemma keeps_base_ignore_err [base_intros]: "keeps_base f \<Longrightarrow> keeps_base (ignore_err f)"
  unfolding ignore_err_def by (intro keeps_base_on_result keeps_base_ret)

lemma keeps_base_case_sum [base_intros]:
  "(\<And>e. keeps_base (f e)) \<Longrightarrow> (\<And>a. keeps_base (g a)) \<Longrightarrow> keeps_base (case r of Inl e \<Rightarrow> f e | Inr a \<Rightarrow> g a)"
  by (cases r) auto

lemma keeps_base_case_option [base_intros]:
  "keeps_base f \<Longrightarrow> (\<And>a. keeps_base (g a)) \<Longrightarrow> keeps_base (case r of None \<Rightarrow> f | Some a \<Rightarrow> g a)"
  by (cases r) auto

lemma keeps_base_RecordLog [base_intros]: "keeps_base (RecordLog uid ty c)"
  by (rule keeps_baseI) (rule RecordLog_result(3))

lemma keeps_base_redis_cmd:
  assumes "\<And>w. w_base (snd (f w)) = w_base w"
  shows "keeps_base (redis_cmd f)"
proof (rule keeps_baseI)
  fix w r w' assume c: "redis_cmd f w = (r, w')"
  obtain bad w1 where t: "take_fault w = (bad, w1)" by (cases "take_fault w")
  then obtain fs where w1: "w1 = w\<lparr>w_faults := fs\<rparr>" by (rule take_faultE)
  from c t w1 assms [of w1] show "w_base w' = w_base w"
    by (auto simp: redis_cmd_def split: if_splits)
qed

lemma keeps_base_redis [base_intros]:
  "keeps_base (RedisGet k)" "keeps_base (RedisSet k v ttl)" "keeps_base (RedisDel k)"
  "keeps_base (RedisDecrease k x)"
  unfolding RedisGet_def RedisSet_def RedisDel_def RedisDecrease_def
  by (rule keeps_base_redis_cmd; auto split: option.splits)+

lemma transaction_atomic:
  assumes "keeps_base body" "w_base w = None" "transaction body w = (Inl e, w')"
  shows "w_db w' = w_db w"
proof -
  obtain bad w1 where t: "take_fault w = (bad, w1)" by (cases "take_fault w")
  then obtain fs where w1: "w1 = w\<lparr>w_faults := fs\<rparr>" by (rule take_faultE)
  let ?w = "w1\<lparr>w_base := Some (w_db w1), w_aborted := False\<rparr>"
  obtain r w2 where b: "body ?w = (r, w2)" by (cases "body ?w")
  have base: "w_base w2 = Some (w_db w)" using keeps_baseD [OF assms(1) b] w1 by simp
  obtain bad' w3 where t': "take_fault w2 = (bad', w3)" by (cases "take_fault w2")
  then obtain fs' where w3: "w3 = w2\<lparr>w_faults := fs'\<rparr>" by (rule take_faultE)
  show ?thesis
    using assms(3) t b t' w1 w3 base
    by (auto simp: transaction_def rollback_def split: if_splits sum.splits)
qed

lemma transaction_base:
  assumes "w_base w = None" "transaction body w = (r, w')"
  shows "w_base w' = None"
proof -
  obtain bad w1 where t: "take_fault w = (bad, w1)" by (cases "take_fault w")
  then obtain fs where w1: "w1 = w\<lparr>w_faults := fs\<rparr>" by (rule take_faultE)
  show ?thesis
    using assms t w1
    by (auto simp: transaction_def rollback_def split: if_splits sum.splits prod.splits)
qed

lemma transaction_Inr:
  assumes "transaction body w = (Inr a, w')"
  obtains fs w2 fs' where
    "body (w\<lparr>w_base := Some (w_db w), w_aborted := False, w_faults := fs\<rparr>) = (Inr a, w2)"
    "w' = w2\<lparr>w_base := None, w_faults := fs'\<rparr>" "\<not> w_aborted w2"
proof -
  obtain bad w1 where t: "take_fault w = (bad, w1)" by (cases "take_fault w")
  then obtain fs where w1: "w1 = w\<lparr>w_faults := fs\<rparr>" by (rule take_faultE)
  let ?w = "w1\<lparr>w_base := Some (w_db w1), w_aborted := False\<rparr>"
  obtain r w2 where b: "body ?w = (r, w2)" by (cases "body ?w")
  obtain bad' w3 where t': "take_fault w2 = (bad', w3)" by (cases "take_fault w2")
  then obtain fs' where w3: "w3 = w2\<lparr>w_faults := fs'\<rparr>" by (rule take_faultE)
  have "?w = w\<lparr>w_base := Some (w_db w), w_aborted := False, w_faults := fs\<rparr>" using w1 by simp
  with assms t b t' w3 show thesis
    by (intro that [of fs w2 fs'])
      (auto simp: transaction_def split: if_splits sum.splits)
qed

section \<open>Views of the database\<close>

text \<open>
  \<open>keeps V f\<close>: the operation never changes the view \<open>V\<close> of the database, whichever statements
  fail. The rules follow the structure of an operation down to its updates, each of which
  then has to leave the view alone.
\<close>

definition keeps :: "(db \<Rightarrow> 'v) \<Rightarrow> 'a op \<Rightarrow> bool" where
  "keeps V f \<longleftrightarrow> (\<forall>w r w'. f w = (r, w') \<longrightarrow> V (w_db w') = V (w_db w))"

named_theorems keeps_intros \<open>operations that keep a view\<close>

lemma keepsD: "keeps V f \<Longrightarrow> f w = (r, w') \<Longrightarrow> V (w_db w') = V (w_db w)"
  by (simp add: keeps_def)

lemma keeps_ret [keeps_intros]: "keeps V (ret a)"
  by (simp add: keeps_def)

lemma keeps_fail [keeps_intros]: "keeps V (fail e)"
  by (simp add: keeps_def)

lemma keeps_on_ok [keeps_intros]: "keeps V f \<Longrightarrow> (\<And>a. keeps V (k a)) \<Longrightarrow> keeps V (on_ok f k)"
  by (fastforce simp: keeps_def on_ok_def split: prod.splits sum.splits)

lemma keeps_then_do [keeps_intros]: "keeps V f \<Longrightarrow> keeps V g \<Longrightarrow> keeps V (then_do f g)"
  unfolding then_do_def by (rule keeps_on_ok)

lemma keeps_on_result [keeps_intros]: "keeps V f \<Longrightarrow> (\<And>r. keeps V (k r)) \<Longrightarrow> keeps V (on_result f k)"
  by (fastforce simp: keeps_def on_result_def split: prod.splits)

lemma keeps_ignore_err [keeps_intros]: "keeps V f \<Longrightarrow> keeps V (ignore_err f)"
  unfolding ignore_err_def by (intro keeps_on_result keeps_ret)

lemma keeps_reading [keeps_intros]: "(\<And>v. keeps V (k v)) \<Longrightarrow> keeps V (reading k)"
  by (auto simp: keeps_def reading_def)

lemma keeps_if [keeps_intros]: "keeps V f \<Longrightarrow> keeps V g \<Longrightarrow> keeps V (if b then f else g)"
  by simp

lemma keeps_case_sum [keeps_intros]:
  "(\<And>e. keeps V (f e)) \<Longrightarrow> (\<And>a. keeps V (g a)) \<Longrightarrow> keeps V (case r of Inl e \<Rightarrow> f e | Inr a \<Rightarrow> g a)"
  by (cases r) auto

lemma keeps_case_option [keeps_intros]:
  "keeps V f \<Longrightarrow> (\<And>a. keeps V (g a)) \<Longrightarrow> keeps V (case r of None \<Rightarrow> f | Some a \<Rightarrow> g a)"
  by (cases r) auto

lemma keeps_query [keeps_intros]: "keeps V (query f)"
  unfolding keeps_def by (auto dest!: query_touched touchedD(1))

lemma keeps_first [keeps_intros]: "keeps V (first tbl p)"
  unfolding keeps_def by (auto dest!: first_touched touchedD(1))

lemma keeps_RecordLog [keeps_intros]: "keeps V (RecordLog uid ty c)"
  unfolding keeps_def by (auto dest: RecordLog_result(2))

lemma keeps_exec:
  assumes "\<And>d a d'. f d = Inr (a, d') \<Longrightarrow> V d' = V d"
  shows "keeps V (exec f)"
  unfolding keeps_def using exec_touched assms by (metis sum.exhaust surj_pair)

lemma keeps_update:
  assumes "\<And>d. V (upd (update_rows p u) d) = V d"
  shows "keeps V (update_where tbl upd p u)"
  unfolding keeps_def
proof (intro allI impI)
  fix w r w' assume u: "update_where tbl upd p u w = (r, w')"
  show "V (w_db w') = V (w_db w)"
    using update_where_touched(2,3) [OF u] assms by (cases r) auto
qed

lemma keeps_redis_cmd:
  assumes "\<And>w. w_db (snd (f w)) = w_db w"
  shows "keeps V (redis_cmd f)"
proof -
  have "w_db w' = w_db w" if "redis_cmd f w = (r, w')" for w r w'
  proof (cases "cfg_redis (w_cfg w)")
    case False
    with that show ?thesis by (simp add: redis_cmd_def)
  next
    case True
    obtain bad w1 where t: "take_fault w = (bad, w1)" by (cases "take_fault w")
    with that True assms [of w1] take_fault_db [OF t] show ?thesis
      by (auto simp: redis_cmd_def split: if_splits)
  qed
  then show ?thesis by (simp add: keeps_def)
qed

lemma keeps_redis [keeps_intros]:
  "keeps V (RedisGet k)" "keeps V (RedisSet k v ttl)" "keeps V (RedisDel k)" "keeps V (RedisDecrease k x)"
  unfolding RedisGet_def RedisSet_def RedisDel_def RedisDecrease_def
  by (rule keeps_redis_cmd; auto split: option.splits)+

section \<open>Values an operation can return\<close>

text \<open>\<open>yields P f\<close>: whatever \<open>f\<close> returns without an error satisfies \<open>P\<close>.\<close>

definition yields :: "('a \<Rightarrow> bool) \<Rightarrow> 'a op \<Rightarrow> bool" where
  "yields P f \<longleftrightarrow> (\<forall>w a w'. f w = (Inr a, w') \<longrightarrow> P a)"

named_theorems yields_intros \<open>what operations return\<close>

lemma yieldsD: "yields P f \<Longrightarrow> f w = (Inr a, w') \<Longrightarrow> P a"
  unfolding yields_def by blast

lemma yields_ret [yields_intros]: "P a \<Longrightarrow> yields P (ret a)"
  by (simp add: yields_def)

lemma yields_fail [yields_intros]: "yields P (fail e)"
  by (simp add: yields_def)

lemma yields_on_ok [yields_intros]: "(\<And>a. yields P (k a)) \<Longrightarrow> yields P (on_ok f k)"
  by (auto simp: yields_def elim!: on_ok_Inr)

lemma yields_then_do [yields_intros]: "yields P g \<Longrightarrow> yields P (then_do f g)"
  unfolding then_do_def by (rule yields_on_ok)

lemma yields_on_result [yields_intros]: "(\<And>r. yields P (k r)) \<Longrightarrow> yields P (on_result f k)"
  by (auto simp: yields_def elim!: on_result_eq)

lemma yields_reading [yields_intros]: "(\<And>v. yields P (k v)) \<Longrightarrow> yields P (reading k)"
  by (simp add: yields_def reading_def)

lemma yields_if [yields_intros]:
  "(b \<Longrightarrow> yields P f) \<Longrightarrow> (\<not> b \<Longrightarrow> yields P g) \<Longrightarrow> yields P (if b then f else g)"
  by simp

lemma yields_case_sum [yields_intros]:
  "(\<And>e. yields P (f e)) \<Longrightarrow> (\<And>a. yields P (g a)) \<Longrightarrow> yields P (case r of Inl e \<Rightarrow> f e | Inr a \<Rightarrow> g a)"
  by (cases r) auto

lemma yields_case_option [yields_intros]:
  "yields P f \<Longrightarrow> (\<And>a. yields P (g a)) \<Longrightarrow> yields P (case r of None \<Rightarrow> f | Some a \<Rightarrow> g a)"
  by (cases r) auto

section \<open>The start state\<close>

text \<open>The values \<open>common/config/config.go\<close> gives the variables, and a world with an empty database.\<close>

definition default_config :: config where
  "default_config = \<lparr>cfg_quota_per_unit = f_of_int 500000, cfg_batch_update = False, cfg_redis = False,
     cfg_pre_consumed = 500, cfg_new_user_quota = 0, cfg_invitee_quota = 0, cfg_inviter_quota = 0,
     cfg_sync_frequency = 600, cfg_log_consume = True, cfg_memory_cache = False\<rparr>"

definition empty_db :: db where
  "empty_db = \<lparr>d_users = [], d_tokens = [], d_channels = [], d_abilities = [], d_topups = [],
     d_redemptions = [], d_charge_orders = [], d_bills = [], d_orders = [], d_commissions = [],
     d_groups = [], d_videos = [], d_images = []\<rparr>"

definition world_with :: "db \<Rightarrow> int \<Rightarrow> world" where
  "world_with d now = \<lparr>w_db = d, w_base = None, w_aborted = False, w_faults = [], w_dialect = SQLite,
     w_now = now, w_cfg = default_config, w_redis = (\<lambda>_. None), w_token_cache = (\<lambda>_. None),
     w_batch = (\<lambda>_. []), w_logs = [], w_mails = [],
     w_channel_cache = (\<lambda>_. None), w_routes = (\<lambda>_ _. []), w_polling = (\<lambda>_. 0), w_notices = []\<rparr>"

definition blank_user :: user where
  "blank_user = \<lparr>u_id = 0, u_username = [], u_role = 1, u_status = 1, u_email = [], u_access_token = [],
     u_quota = 0, u_used_quota = 0, u_request_count = 0, u_group = ''Lv1'', u_aff_code = [],
     u_inviter_id = 0, u_remind_threshold = 0, u_last_notice_time = 0, u_gift_quota = 0, u_topup_quota = 0\<rparr>"

definition blank_token :: token where
  "blank_token = \<lparr>t_id = 0, t_user_id = 0, t_key = [], t_status = 1, t_name = [], t_created_time = 0,
     t_accessed_time = 0, t_expired_time = -1, t_remain_quota = 0, t_unlimited = False, t_used_quota = 0,
     t_remind_threshold = 0, t_last_notice_time = 0\<rparr>"

definition blank_mk :: multi_key_info where
  "blank_mk = \<lparr>mk_is_multi = False, mk_key_count = 0, mk_enabled_count = 0, mk_mode = KeySelectionPolling,
     mk_polling_index = 0, mk_status = [], mk_metadata = [], mk_last_import = 0,
     mk_import_mode = BatchImportOverride\<rparr>"

definition blank_channel :: channel where
  "blank_channel = \<lparr>c_id = 0, c_type = 0, c_key = [], c_status = 1, c_name = [], c_weight = Some 0,
     c_models = [], c_group = ''default'', c_used_quota = 0, c_priority = Some 0, c_config = [],
     c_auto_disabled = True, c_auto_enabled = True, c_mk = blank_mk, c_disabled_reason = None,
     c_disabled_time = None, c_disabled_model = None, c_discount = Some fone\<rparr>"

named_theorems start_defs \<open>the concrete start states\<close>

lemmas [start_defs] = default_config_def empty_db_def world_with_def blank_user_def blank_token_def
  blank_mk_def blank_channel_def

end
