(* ===== verification/Tables.thy ===== *)
theory Tables
  imports Store
begin

text \<open>
  The laws of a table with an integer primary key, stated once for every table of the
  database: what a lookup returns after a conditional update, how many rows the update
  counts, and that keys stay distinct. The locale \<open>table\<close> is interpreted on the users,
  tokens, channels, top-up orders, redemption codes, commission records, charge orders, videos and
  images; \<open>counter\<close> adds an
  integer column that statements of the form \<open>col = col + ?\<close> change.
\<close>

section \<open>Lists of rows\<close>

lemma find_SomeD: "List.find p xs = Some x \<Longrightarrow> p x \<and> x \<in> set xs"
  by (induction xs) (auto split: if_splits)

lemma find_map:
  "(\<And>x. p (f x) = p x) \<Longrightarrow> List.find p (map f xs) = map_option f (List.find p xs)"
  by (induction xs) auto

lemma find_None_filter: "List.find p xs = None \<Longrightarrow> filter (\<lambda>x. p x \<and> q x) xs = []"
  by (induction xs) (auto split: if_splits)

lemma later_key: "distinct (map key (y # ys)) \<Longrightarrow> z \<in> set ys \<Longrightarrow> key z \<noteq> key y"
proof -
  assume "distinct (map key (y # ys))" "z \<in> set ys"
  then have "key y \<notin> set (map key ys)" "key z \<in> set (map key ys)" by simp_all
  then show ?thesis by metis
qed

lemma filter_key_find:
  "distinct (map key xs) \<Longrightarrow> List.find (\<lambda>x. key x = i) xs = Some x \<Longrightarrow>
   filter (\<lambda>x. key x = i \<and> q x) xs = (if q x then [x] else [])"
proof (induction xs)
  case Nil
  then show ?case by simp
next
  case (Cons y ys)
  show ?case
  proof (cases "key y = i")
    case True
    with Cons.prems have "x = y" by simp
    moreover have "key z \<noteq> i" if "z \<in> set ys" for z
      using later_key [OF Cons.prems(1) that] True by simp
    then have "filter (\<lambda>z. key z = i \<and> q z) ys = []" by (simp add: filter_empty_conv)
    ultimately show ?thesis using True by simp
  next
    case False
    with Cons show ?thesis by simp
  qed
qed

lemma update_rows_keys [simp]:
  "(\<And>r. key (u r) = key r) \<Longrightarrow> map key (update_rows p u rs) = map key rs"
  by (auto simp: update_rows_def)

lemma update_rows_find:
  assumes "\<And>r. key (u r) = key r" "distinct (map key rs)"
  shows "List.find (\<lambda>r. key r = i) (update_rows (\<lambda>r. key r = j \<and> q r) u rs) =
    (if i = j then map_option (\<lambda>r. if q r then u r else r) (List.find (\<lambda>r. key r = i) rs)
     else List.find (\<lambda>r. key r = i) rs)"
  using assms(2)
proof (induction rs)
  case Nil
  then show ?case by (simp add: update_rows_def)
next
  case (Cons y ys)
  then show ?case using assms(1) by (auto simp: update_rows_def)
qed

lemma update_rows_find1:
  assumes "\<And>r. key (u r) = key r" "distinct (map key rs)"
  shows "List.find (\<lambda>r. key r = i) (update_rows (\<lambda>r. key r = j) u rs) =
    (if i = j then map_option u (List.find (\<lambda>r. key r = i) rs)
     else List.find (\<lambda>r. key r = i) rs)"
  using update_rows_find [OF assms, of i j "\<lambda>_. True"] by (simp del: One_nat_def cong: if_cong)

lemma affected_find:
  assumes "distinct (map key rs)"
  shows "affected dl (\<lambda>r. key r = j \<and> q r) u rs =
    (case List.find (\<lambda>r. key r = j) rs of
       None \<Rightarrow> 0
     | Some r \<Rightarrow> if q r \<and> (dl = MySQL \<longrightarrow> u r \<noteq> r) then 1 else 0)"
proof (cases "List.find (\<lambda>r. key r = j) rs")
  case None
  then show ?thesis using find_None_filter [OF None, of "\<lambda>r. q r \<and> (dl = MySQL \<longrightarrow> u r \<noteq> r)"]
    by (simp add: affected_def conj_assoc)
next
  case (Some r)
  then show ?thesis
    using filter_key_find [OF assms Some, of "\<lambda>r. q r \<and> (dl = MySQL \<longrightarrow> u r \<noteq> r)"]
    by (simp add: affected_def conj_assoc)
qed

lemma affected_find1:
  assumes "distinct (map key rs)"
  shows "affected dl (\<lambda>r. key r = j) u rs =
    (case List.find (\<lambda>r. key r = j) rs of
       None \<Rightarrow> 0 | Some r \<Rightarrow> if dl = MySQL \<longrightarrow> u r \<noteq> r then 1 else 0)"
  using affected_find [OF assms, of dl j "\<lambda>_. True" u] by (simp split: option.splits)

lemma find_conj:
  "distinct (map key rs) \<Longrightarrow>
   List.find (\<lambda>r. key r = j \<and> q r) rs =
     (case List.find (\<lambda>r. key r = j) rs of None \<Rightarrow> None | Some r \<Rightarrow> if q r then Some r else None)"
proof (induction rs)
  case Nil
  then show ?case by simp
next
  case (Cons y ys)
  have "List.find (\<lambda>r. key r = key y \<and> q r) ys = None"
    using later_key [OF Cons.prems] by (auto simp: find_None_iff)
  with Cons show ?case by auto
qed

lemma find_key_iff:
  "distinct (map key xs) \<Longrightarrow> List.find (\<lambda>x. key x = k) xs = Some x \<longleftrightarrow> x \<in> set xs \<and> key x = k"
proof (induction xs)
  case Nil
  then show ?case by simp
next
  case (Cons y ys)
  then show ?case using later_key [OF Cons.prems] by auto
qed

lemma find_update_rows:
  "(\<And>r. p (u r) = p r) \<Longrightarrow>
   List.find p (update_rows q u rs) = map_option (\<lambda>r. if q r then u r else r) (List.find p rs)"
  by (induction rs) (auto simp: update_rows_def)

lemma update_rows_cond:
  "distinct (map key rs) \<Longrightarrow> List.find (\<lambda>r. key r = j) rs = Some r \<Longrightarrow> q r \<Longrightarrow>
   update_rows (\<lambda>r. key r = j \<and> q r) u rs = update_rows (\<lambda>r. key r = j) u rs"
proof (induction rs)
  case Nil
  then show ?case by simp
next
  case (Cons y ys)
  then show ?case
  proof (cases "key y = j")
    case True
    then have "\<And>z. z \<in> set ys \<Longrightarrow> key z \<noteq> j" using later_key [OF Cons.prems(1)] by simp
    then show ?thesis using Cons.prems True by (auto simp: update_rows_def)
  next
    case False
    with Cons show ?thesis by (simp add: update_rows_def)
  qed
qed

lemma update_rows_at:
  "distinct (map key rs) \<Longrightarrow> List.find (\<lambda>r. key r = j) rs = Some r \<Longrightarrow> u r = v r \<Longrightarrow>
   update_rows (\<lambda>r. key r = j) u rs = update_rows (\<lambda>r. key r = j) v rs"
proof (induction rs)
  case Nil
  then show ?case by simp
next
  case (Cons y ys)
  then show ?case
  proof (cases "key y = j")
    case True
    then have "\<And>z. z \<in> set ys \<Longrightarrow> key z \<noteq> j" using later_key [OF Cons.prems(1)] by simp
    then show ?thesis using Cons.prems True by (auto simp: update_rows_def)
  next
    case False
    with Cons show ?thesis by (simp add: update_rows_def)
  qed
qed

lemma update_rows_again:
  "(\<And>r. key (v r) = key r) \<Longrightarrow>
   update_rows (\<lambda>r. key r = j \<and> q r) u (update_rows (\<lambda>r. key r = j) v rs)
     = update_rows (\<lambda>r. key r = j) (\<lambda>r. if q (v r) then u (v r) else v r) rs"
  by (auto simp: update_rows_def)

section \<open>The interface of a table\<close>

locale table =
  fixes rows :: "db \<Rightarrow> 'r list"
    and upd :: "('r list \<Rightarrow> 'r list) \<Rightarrow> db \<Rightarrow> db"
    and key :: "'r \<Rightarrow> int"
  assumes rows_upd: "rows (upd f d) = f (rows d)"
    and upd_upd: "upd f (upd g d) = upd (\<lambda>r. f (g r)) d"
    and upd_cong: "f (rows d) = g (rows d) \<Longrightarrow> upd f d = upd g d"
    and upd_id: "upd (\<lambda>r. r) d = d"
begin

lemma upd_same: "f (rows d) = rows d \<Longrightarrow> upd f d = d"
  using upd_cong [of f d "\<lambda>r. r"] by (simp add: upd_id)

lemma upd_cond:
  assumes "distinct (map key (rows d))" "List.find (\<lambda>r. key r = j) (rows d) = Some r" "q r"
  shows "upd (update_rows (\<lambda>r. key r = j \<and> q r) u) d = upd (update_rows (\<lambda>r. key r = j) u) d"
  by (rule upd_cong, rule update_rows_cond [where r = r]) (use assms in auto)

lemma upd_at:
  assumes "distinct (map key (rows d))" "List.find (\<lambda>r. key r = j) (rows d) = Some r" "u r = v r"
  shows "upd (update_rows (\<lambda>r. key r = j) u) d = upd (update_rows (\<lambda>r. key r = j) v) d"
  by (rule upd_cong, rule update_rows_at [where r = r]) (use assms in auto)

lemma distinct_upd:
  "distinct (map key (rows d)) \<Longrightarrow> (\<And>r. key (u r) = key r) \<Longrightarrow>
   distinct (map key (rows (upd (update_rows p u) d)))"
  by (simp add: rows_upd)

lemma find_upd:
  "distinct (map key (rows d)) \<Longrightarrow> (\<And>r. key (u r) = key r) \<Longrightarrow>
   List.find (\<lambda>r. key r = i) (rows (upd (update_rows (\<lambda>r. key r = j) u) d)) =
     (if i = j then map_option u (List.find (\<lambda>r. key r = i) (rows d))
      else List.find (\<lambda>r. key r = i) (rows d))"
  by (simp add: rows_upd update_rows_find1)

text \<open>An update whose condition no row meets changes nothing and counts no row.\<close>

lemma upd_none:
  assumes "\<And>r. r \<in> set (rows d) \<Longrightarrow> \<not> p r"
  shows "upd (update_rows p u) d = d" and "affected dl p u (rows d) = 0"
proof -
  have "update_rows p u (rows d) = rows d"
    using assms by (auto simp: update_rows_def intro: map_idI)
  then show "upd (update_rows p u) d = d" by (rule upd_same)
  show "affected dl p u (rows d) = 0"
    using assms by (simp add: affected_def filter_empty_conv)
qed

text \<open>The statement \<open>UPDATE ... WHERE id = ? AND q\<close> in a world where no statement fails.\<close>

lemma update_found:
  assumes "w_faults w = []" "\<not> w_aborted w" "distinct (map key (rows (w_db w)))"
    and "List.find (\<lambda>r. key r = j) (rows (w_db w)) = Some r"
  shows "update_where rows upd (\<lambda>r. key r = j \<and> q r) u w =
    (Inr (if q r \<and> (w_dialect w = MySQL \<longrightarrow> u r \<noteq> r) then 1 else 0),
     w\<lparr>w_db := upd (update_rows (\<lambda>r. key r = j \<and> q r) u) (w_db w)\<rparr>)"
  using assms by (simp add: update_where_reliable affected_find)

lemma update_found1:
  assumes "w_faults w = []" "\<not> w_aborted w" "distinct (map key (rows (w_db w)))"
    and "List.find (\<lambda>r. key r = j) (rows (w_db w)) = Some r"
  shows "update_where rows upd (\<lambda>r. key r = j) u w =
    (Inr (if w_dialect w = MySQL \<longrightarrow> u r \<noteq> r then 1 else 0),
     w\<lparr>w_db := upd (update_rows (\<lambda>r. key r = j) u) (w_db w)\<rparr>)"
  using assms by (simp add: update_where_reliable affected_find1)

lemma update_missing:
  assumes "w_faults w = []" "\<not> w_aborted w"
    and "List.find (\<lambda>r. key r = j) (rows (w_db w)) = None"
  shows "update_where rows upd (\<lambda>r. key r = j) u w = (Inr 0, w)"
proof -
  have "\<And>r. r \<in> set (rows (w_db w)) \<Longrightarrow> \<not> key r = j"
    using assms(3) by (auto simp: find_None_iff)
  from upd_none [OF this, where u = u] assms(1,2) show ?thesis
    by (simp add: update_where_reliable)
qed

end

section \<open>Integer columns\<close>

locale counter = table rows upd key
  for rows :: "db \<Rightarrow> 'r list"
    and upd :: "('r list \<Rightarrow> 'r list) \<Rightarrow> db \<Rightarrow> db"
    and key :: "'r \<Rightarrow> int" +
  fixes bump :: "int \<Rightarrow> 'r \<Rightarrow> 'r"
  assumes key_bump: "key (bump a r) = key r"
    and bump_bump: "bump a (bump b r) = bump (a + b) r"
begin

lemma bump_twice:
  "upd (update_rows (\<lambda>r. key r = i) (bump a)) (upd (update_rows (\<lambda>r. key r = i) (bump b)) d) =
   upd (update_rows (\<lambda>r. key r = i) (bump (a + b))) d"
proof -
  have "update_rows (\<lambda>r. key r = i) (bump a) (update_rows (\<lambda>r. key r = i) (bump b) rs)
      = update_rows (\<lambda>r. key r = i) (bump (a + b)) rs" for rs
    by (auto simp: update_rows_def key_bump bump_bump)
  then show ?thesis by (simp add: upd_upd)
qed

lemma bump_commute:
  "upd (update_rows (\<lambda>r. key r = i) (bump a)) (upd (update_rows (\<lambda>r. key r = j) (bump b)) d) =
   upd (update_rows (\<lambda>r. key r = j) (bump b)) (upd (update_rows (\<lambda>r. key r = i) (bump a)) d)"
proof -
  have "update_rows (\<lambda>r. key r = i) (bump a) (update_rows (\<lambda>r. key r = j) (bump b) rs)
      = update_rows (\<lambda>r. key r = j) (bump b) (update_rows (\<lambda>r. key r = i) (bump a) rs)" for rs
    by (auto simp: update_rows_def key_bump bump_bump add.commute)
  then show ?thesis by (simp add: upd_upd)
qed

end

section \<open>The tables of the database\<close>

interpretation users: table d_users d_users_update u_id
  by unfold_locales auto

interpretation tokens: table d_tokens d_tokens_update t_id
  by unfold_locales auto

interpretation channels: table d_channels d_channels_update c_id
  by unfold_locales auto

interpretation topups: table d_topups d_topups_update tp_id
  by unfold_locales auto

interpretation redemptions: table d_redemptions d_redemptions_update rd_id
  by unfold_locales auto

interpretation commissions: table d_commissions d_commissions_update cm_id
  by unfold_locales auto

interpretation charge_orders: table d_charge_orders d_charge_orders_update co_id
  by unfold_locales auto

interpretation videos: table d_videos d_videos_update v_id
  by unfold_locales auto

interpretation images: table d_images d_images_update i_id
  by unfold_locales auto

text \<open>The primary keys of a database are distinct.\<close>

definition keys_ok :: "db \<Rightarrow> bool" where
  "keys_ok d \<longleftrightarrow>
     distinct (map u_id (d_users d)) \<and> distinct (map t_id (d_tokens d)) \<and>
     distinct (map c_id (d_channels d)) \<and> distinct (map tp_id (d_topups d)) \<and>
     distinct (map rd_id (d_redemptions d)) \<and> distinct (map cm_id (d_commissions d)) \<and>
     distinct (map co_id (d_charge_orders d))"

end
