(* ===== verification/Quota.thy ===== *)
theory Quota
  imports Tables
begin

text \<open>
  Quota accounting: \<open>model/quota_convert.go\<close> (money to quota), the quota statements of
  \<open>model/user.go\<close> and \<open>model/token.go\<close>, the reservation and settlement transactions of
  \<open>model/relay-quota.go\<close> and the batch updater of \<open>model/utils.go\<close>.
\<close>

section \<open>Money to quota\<close>

definition AmountToQuota :: "config \<Rightarrow> f64 \<Rightarrow> int" where
  "AmountToQuota c amount =
     (if fle amount fzero \<or> fle (cfg_quota_per_unit c) fzero then 0
      else f_to_int64 (math_round (fmul amount (cfg_quota_per_unit c))))"

section \<open>Statements on users\<close>

abbreviation update_users :: "(user \<Rightarrow> bool) \<Rightarrow> (user \<Rightarrow> user) \<Rightarrow> nat op" where
  "update_users \<equiv> update_where d_users d_users_update"

abbreviation update_tokens :: "(token \<Rightarrow> bool) \<Rightarrow> (token \<Rightarrow> token) \<Rightarrow> nat op" where
  "update_tokens \<equiv> update_where d_tokens d_tokens_update"

abbreviation update_channels :: "(channel \<Rightarrow> bool) \<Rightarrow> (channel \<Rightarrow> channel) \<Rightarrow> nat op" where
  "update_channels \<equiv> update_where d_channels d_channels_update"

text \<open>An update of which the code keeps only the error.\<close>

definition stmt :: "nat op \<Rightarrow> unit op" where
  "stmt f = on_ok f (\<lambda>_. ret ())"

definition IsAdmin :: "int \<Rightarrow> bool op" where
  "IsAdmin i =
     (if i = 0 then ret False
      else on_result (query (\<lambda>d. user_of d i))
        (\<lambda>r. case r of Inl _ \<Rightarrow> ret False
           | Inr None \<Rightarrow> ret (RoleAdminUser \<le> 0)
           | Inr (Some u) \<Rightarrow> ret (RoleAdminUser \<le> u_role u)))"

definition IsUserEnabled :: "int \<Rightarrow> bool op" where
  "IsUserEnabled i =
     (if i = 0 then fail (Msg ''user id is empty'')
      else on_ok (query (\<lambda>d. user_of d i))
        (\<lambda>u. ret (case u of None \<Rightarrow> False | Some u \<Rightarrow> u_status u = UserStatusEnabled)))"

definition ValidateAccessToken :: "string \<Rightarrow> user option op" where
  "ValidateAccessToken tk =
     (if tk = [] then ret None
      else on_result (first d_users (\<lambda>u. u_access_token u = replace_first ''Bearer '' [] tk))
        (\<lambda>r. ret (case r of Inl _ \<Rightarrow> None | Inr u \<Rightarrow> Some u)))"

definition GetUserById :: "int \<Rightarrow> user op" where
  "GetUserById i = (if i = 0 then fail (Msg ''id is required'') else first d_users (\<lambda>u. u_id u = i))"

definition GetUserQuota :: "int \<Rightarrow> int op" where
  "GetUserQuota i = query (\<lambda>d. case user_of d i of None \<Rightarrow> 0 | Some u \<Rightarrow> u_quota u)"

definition GetUserEmail :: "int \<Rightarrow> string op" where
  "GetUserEmail i = query (\<lambda>d. case user_of d i of None \<Rightarrow> [] | Some u \<Rightarrow> u_email u)"

definition GetUserGroup :: "int \<Rightarrow> string op" where
  "GetUserGroup i = query (\<lambda>d. case user_of d i of None \<Rightarrow> [] | Some u \<Rightarrow> u_group u)"

definition add_quota :: "int \<Rightarrow> user \<Rightarrow> user" where
  "add_quota q u = u\<lparr>u_quota := u_quota u + q\<rparr>"

definition add_gift :: "int \<Rightarrow> user \<Rightarrow> user" where
  "add_gift q u = u\<lparr>u_gift_quota := u_gift_quota u + q\<rparr>"

definition add_topup :: "int \<Rightarrow> user \<Rightarrow> user" where
  "add_topup q u = u\<lparr>u_topup_quota := u_topup_quota u + q\<rparr>"

definition add_used :: "int \<Rightarrow> user \<Rightarrow> user" where
  "add_used q u = u\<lparr>u_used_quota := u_used_quota u + q\<rparr>"

definition add_requests :: "int \<Rightarrow> user \<Rightarrow> user" where
  "add_requests n u = u\<lparr>u_request_count := u_request_count u + n\<rparr>"

definition increaseUserQuota0 :: "int \<Rightarrow> int \<Rightarrow> unit op" where
  "increaseUserQuota0 i q = stmt (update_users (\<lambda>u. u_id u = i) (add_quota q))"

definition decreaseUserQuota0 :: "int \<Rightarrow> int \<Rightarrow> unit op" where
  "decreaseUserQuota0 i q = stmt (update_users (\<lambda>u. u_id u = i) (add_quota (- q)))"

definition IncreaseUserQuotaAndGift :: "int \<Rightarrow> int \<Rightarrow> unit op" where
  "IncreaseUserQuotaAndGift i q =
     (if i \<le> 0 \<or> q \<le> 0 then ret ()
      else stmt (update_users (\<lambda>u. u_id u = i) (\<lambda>u. add_gift q (add_quota q u))))"

definition updateUserUsedQuotaAndRequestCount0 :: "int \<Rightarrow> int \<Rightarrow> int \<Rightarrow> unit op" where
  "updateUserUsedQuotaAndRequestCount0 i q n =
     ignore_err (update_users (\<lambda>u. u_id u = i) (\<lambda>u. add_requests n (add_used q u)))"

definition updateUserUsedQuota :: "int \<Rightarrow> int \<Rightarrow> unit op" where
  "updateUserUsedQuota i q = ignore_err (update_users (\<lambda>u. u_id u = i) (add_used q))"

definition updateUserRequestCount :: "int \<Rightarrow> int \<Rightarrow> unit op" where
  "updateUserRequestCount i n = ignore_err (update_users (\<lambda>u. u_id u = i) (add_requests n))"

definition CompensateVideoTaskQuota :: "int \<Rightarrow> int \<Rightarrow> unit op" where
  "CompensateVideoTaskQuota i q =
     stmt (update_users (\<lambda>u. u_id u = i) (\<lambda>u. add_requests (- 1) (add_used (- q) (add_quota q u))))"

section \<open>Statements on tokens and channels\<close>

text \<open>\<open>remain_quota + q, used_quota - q, accessed_time = now\<close>.\<close>

definition add_remain :: "int \<Rightarrow> int \<Rightarrow> token \<Rightarrow> token" where
  "add_remain now q t =
     t\<lparr>t_remain_quota := t_remain_quota t + q, t_used_quota := t_used_quota t - q, t_accessed_time := now\<rparr>"

definition add_channel_used :: "int \<Rightarrow> channel \<Rightarrow> channel" where
  "add_channel_used q c = c\<lparr>c_used_quota := c_used_quota c + q\<rparr>"

definition increaseTokenQuota0 :: "int \<Rightarrow> int \<Rightarrow> unit op" where
  "increaseTokenQuota0 i q =
     reading (\<lambda>w. stmt (update_tokens (\<lambda>t. t_id t = i) (add_remain (w_now w) q)))"

definition decreaseTokenQuota0 :: "int \<Rightarrow> int \<Rightarrow> unit op" where
  "decreaseTokenQuota0 i q =
     reading (\<lambda>w. stmt (update_tokens (\<lambda>t. t_id t = i) (add_remain (w_now w) (- q))))"

definition updateChannelUsedQuota :: "int \<Rightarrow> int \<Rightarrow> unit op" where
  "updateChannelUsedQuota i q = ignore_err (update_channels (\<lambda>c. c_id c = i) (add_channel_used q))"

definition GetTokenById :: "int \<Rightarrow> token op" where
  "GetTokenById i = (if i = 0 then fail (Msg ''id is empty!'') else first d_tokens (\<lambda>t. t_id t = i))"

section \<open>The batch updater\<close>

text \<open>
  \<open>addNewRecord\<close> adds a value to the entry of an identifier, wrapping like Go's \<open>int64\<close>; the
  list is the Go map in the order in which \<open>batchUpdate\<close> happens to visit it.
\<close>

fun add_record :: "int \<Rightarrow> int \<Rightarrow> (int \<times> int) list \<Rightarrow> (int \<times> int) list" where
  "add_record i v [] = [(i, v)]"
| "add_record i v ((j, x) # xs) = (if i = j then (j, wrap64 (x + v)) # xs else (j, x) # add_record i v xs)"

definition addNewRecord :: "batch_type \<Rightarrow> int \<Rightarrow> int \<Rightarrow> unit op" where
  "addNewRecord ty i v w = (Inr (), w\<lparr>w_batch := (w_batch w)(ty := add_record i v (w_batch w ty))\<rparr>)"

definition flush_one :: "batch_type \<Rightarrow> int \<Rightarrow> int \<Rightarrow> unit op" where
  "flush_one ty i v =
     (case ty of
        BatchUpdateTypeUserQuota \<Rightarrow> ignore_err (increaseUserQuota0 i v)
      | BatchUpdateTypeTokenQuota \<Rightarrow> ignore_err (increaseTokenQuota0 i v)
      | BatchUpdateTypeUsedQuota \<Rightarrow> updateUserUsedQuota i v
      | BatchUpdateTypeRequestCount \<Rightarrow> updateUserRequestCount i v
      | BatchUpdateTypeChannelUsedQuota \<Rightarrow> updateChannelUsedQuota i v)"

fun flush_list :: "batch_type \<Rightarrow> (int \<times> int) list \<Rightarrow> unit op" where
  "flush_list ty [] = ret ()"
| "flush_list ty ((i, v) # xs) = then_do (flush_one ty i v) (flush_list ty xs)"

definition flush_type :: "batch_type \<Rightarrow> unit op" where
  "flush_type ty w = flush_list ty (w_batch w ty) (w\<lparr>w_batch := (w_batch w)(ty := [])\<rparr>)"

definition batchUpdate :: "unit op" where
  "batchUpdate =
     then_do (flush_type BatchUpdateTypeUserQuota)
    (then_do (flush_type BatchUpdateTypeTokenQuota)
    (then_do (flush_type BatchUpdateTypeUsedQuota)
    (then_do (flush_type BatchUpdateTypeChannelUsedQuota)
             (flush_type BatchUpdateTypeRequestCount))))"

section \<open>Batched or immediate\<close>

definition IncreaseUserQuota :: "int \<Rightarrow> int \<Rightarrow> unit op" where
  "IncreaseUserQuota i q =
     (if q < 0 then fail (Msg ''quota cannot be negative'')
      else reading (\<lambda>w. if cfg_batch_update (w_cfg w) then addNewRecord BatchUpdateTypeUserQuota i q
                        else increaseUserQuota0 i q))"

definition DecreaseUserQuota :: "int \<Rightarrow> int \<Rightarrow> unit op" where
  "DecreaseUserQuota i q =
     (if q < 0 then fail (Msg ''quota cannot be negative'')
      else reading (\<lambda>w. if cfg_batch_update (w_cfg w) then addNewRecord BatchUpdateTypeUserQuota i (- q)
                        else decreaseUserQuota0 i q))"

definition IncreaseTokenQuota :: "int \<Rightarrow> int \<Rightarrow> unit op" where
  "IncreaseTokenQuota i q =
     (if q < 0 then fail (Msg ''quota cannot be a negative number'')
      else reading (\<lambda>w. if cfg_batch_update (w_cfg w) then addNewRecord BatchUpdateTypeTokenQuota i q
                        else increaseTokenQuota0 i q))"

definition DecreaseTokenQuota :: "int \<Rightarrow> int \<Rightarrow> unit op" where
  "DecreaseTokenQuota i q =
     (if q < 0 then fail (Msg ''quota cannot be a negative number'')
      else reading (\<lambda>w. if cfg_batch_update (w_cfg w) then addNewRecord BatchUpdateTypeTokenQuota i (- q)
                        else decreaseTokenQuota0 i q))"

definition UpdateUserUsedQuotaAndRequestCount :: "int \<Rightarrow> int \<Rightarrow> unit op" where
  "UpdateUserUsedQuotaAndRequestCount i q =
     reading (\<lambda>w. if cfg_batch_update (w_cfg w)
       then then_do (addNewRecord BatchUpdateTypeUsedQuota i q) (addNewRecord BatchUpdateTypeRequestCount i 1)
       else updateUserUsedQuotaAndRequestCount0 i q 1)"

definition UpdateChannelUsedQuota :: "int \<Rightarrow> int \<Rightarrow> unit op" where
  "UpdateChannelUsedQuota i q =
     reading (\<lambda>w. if cfg_batch_update (w_cfg w) then addNewRecord BatchUpdateTypeChannelUsedQuota i q
                  else updateChannelUsedQuota i q)"

section \<open>Reservation and settlement\<close>

definition ErrInsufficientRelayQuota :: gerr where
  "ErrInsufficientRelayQuota = Msg ''insufficient user or token quota''"

text \<open>The token half of an adjustment; \<open>limited\<close> is \<open>reserve && !token.UnlimitedQuota\<close>.\<close>

definition adjust_token :: "int \<Rightarrow> int \<Rightarrow> int \<Rightarrow> bool \<Rightarrow> unit op" where
  "adjust_token uid tid delta limited =
     reading (\<lambda>w.
       on_ok (update_tokens
           (\<lambda>t. t_id t = tid \<and> t_user_id t = uid \<and> (limited \<longrightarrow> delta \<le> t_remain_quota t))
           (add_remain (w_now w) (- delta))) (\<lambda>n.
       if n \<noteq> 1 then fail ErrInsufficientRelayQuota
       else if delta < 0 then
         stmt (update_tokens
           (\<lambda>t. t_id t = tid \<and> t_user_id t = uid \<and> t_status t = TokenStatusExhausted \<and> 0 < t_remain_quota t)
           (\<lambda>t. t\<lparr>t_status := TokenStatusEnabled\<rparr>))
       else ret ()))"

definition adjustRelayQuota :: "int \<Rightarrow> int \<Rightarrow> int \<Rightarrow> bool \<Rightarrow> unit op" where
  "adjustRelayQuota uid tid delta reserve =
     on_ok (first d_tokens (\<lambda>t. t_id t = tid \<and> t_user_id t = uid)) (\<lambda>tok.
       if delta = 0 then ret ()
       else on_ok (update_users (\<lambda>u. u_id u = uid \<and> (reserve \<longrightarrow> delta \<le> u_quota u)) (add_quota (- delta))) (\<lambda>n.
       if n \<noteq> 1 then fail ErrInsufficientRelayQuota
       else adjust_token uid tid delta (reserve \<and> \<not> t_unlimited tok)))"

definition AdjustRelayQuota :: "int \<Rightarrow> int \<Rightarrow> int \<Rightarrow> bool \<Rightarrow> unit op" where
  "AdjustRelayQuota uid tid delta reserve =
     (if reserve \<and> delta < 0 then fail (Msg ''reservation cannot be negative'')
      else transaction (adjustRelayQuota uid tid delta reserve))"

definition AdjustAudioQuota :: "int \<Rightarrow> int \<Rightarrow> int \<Rightarrow> bool \<Rightarrow> unit op" where
  "AdjustAudioQuota = AdjustRelayQuota"

definition settle_body :: "int \<Rightarrow> int \<Rightarrow> int \<Rightarrow> int \<Rightarrow> int \<Rightarrow> unit op" where
  "settle_body uid tid cid delta quota =
     then_do (adjustRelayQuota uid tid delta False) (
     on_ok (update_users (\<lambda>u. u_id u = uid) (\<lambda>u. add_requests 1 (add_used quota u))) (\<lambda>n.
     if n \<noteq> 1 then fail (Msg ''user missing during settlement'')
     else if quota = 0 then ret ()
     else on_ok (update_channels (\<lambda>c. c_id c = cid) (add_channel_used quota)) (\<lambda>n.
     if n \<noteq> 1 then fail (Msg ''channel missing during settlement'')
     else ret ())))"

definition SettleRelayQuota :: "int \<Rightarrow> int \<Rightarrow> int \<Rightarrow> int \<Rightarrow> int \<Rightarrow> unit op" where
  "SettleRelayQuota uid tid cid reserved quota =
     (if reserved < 0 \<or> quota < 0 then fail (Msg ''quota cannot be negative'')
      else transaction (settle_body uid tid cid (wrap64 (quota - reserved)) quota))"

end
