(* ===== verification/RelayQuota.thy ===== *)
theory RelayQuota
  imports Quota
begin

text \<open>
  Reservation and settlement of \<open>model/relay-quota.go\<close>: what a successful adjustment does to
  the user and the token, that a failing one leaves the database alone whichever statement
  fails, when a reservation is granted, and that any interleaving of reservations, refunds
  and settlements conserves the balance.
\<close>

section \<open>The effect of an adjustment\<close>

definition relay_token :: "int \<Rightarrow> int \<Rightarrow> token \<Rightarrow> token" where
  "relay_token now delta t =
     (let t' = add_remain now (- delta) t
      in if delta < 0 \<and> t_status t' = TokenStatusExhausted \<and> 0 < t_remain_quota t'
         then t'\<lparr>t_status := TokenStatusEnabled\<rparr> else t')"

definition relay_apply :: "int \<Rightarrow> int \<Rightarrow> int \<Rightarrow> int \<Rightarrow> db \<Rightarrow> db" where
  "relay_apply now uid tid delta d =
     (if delta = 0 then d
      else d_tokens_update (update_rows (\<lambda>t. t_id t = tid) (relay_token now delta))
             (d_users_update (update_rows (\<lambda>u. u_id u = uid) (add_quota (- delta))) d))"

lemma relay_token_simps [simp]:
  "t_id (relay_token now delta t) = t_id t"
  "t_user_id (relay_token now delta t) = t_user_id t"
  "t_unlimited (relay_token now delta t) = t_unlimited t"
  "t_remain_quota (relay_token now delta t) = t_remain_quota t - delta"
  "t_used_quota (relay_token now delta t) = t_used_quota t + delta"
  "t_accessed_time (relay_token now delta t) = now"
  "t_expired_time (relay_token now delta t) = t_expired_time t"
  by (simp_all add: relay_token_def add_remain_def Let_def)

lemma add_quota_simps [simp]:
  "u_id (add_quota q u) = u_id u" "u_quota (add_quota q u) = u_quota u + q"
  "u_used_quota (add_quota q u) = u_used_quota u" "u_topup_quota (add_quota q u) = u_topup_quota u"
  "u_gift_quota (add_quota q u) = u_gift_quota u" "u_request_count (add_quota q u) = u_request_count u"
  by (simp_all add: add_quota_def)

lemma add_remain_simps [simp]:
  "t_id (add_remain now q t) = t_id t" "t_user_id (add_remain now q t) = t_user_id t"
  by (simp_all add: add_remain_def)

lemma add_quota_changes: "q \<noteq> 0 \<Longrightarrow> add_quota q u \<noteq> u"
  by (cases u) (simp add: add_quota_def)

lemma add_remain_changes: "q \<noteq> 0 \<Longrightarrow> add_remain now q t \<noteq> t"
  by (cases t) (simp add: add_remain_def)

lemma user_of_relay_apply:
  assumes "keys_ok d"
  shows "user_of (relay_apply now uid tid delta d) i =
    (if i = uid then map_option (add_quota (- delta)) (user_of d i) else user_of d i)"
proof -
  have "distinct (map u_id (d_users d))" using assms by (simp add: keys_ok_def)
  moreover have "add_quota 0 u = u" for u by (simp add: add_quota_def)
  ultimately show ?thesis
    by (cases "user_of d i") (auto simp: relay_apply_def user_of_def update_rows_find1)
qed

lemma token_of_relay_apply:
  assumes "keys_ok d"
  shows "token_of (relay_apply now uid tid delta d) i =
    (if i = tid \<and> delta \<noteq> 0 then map_option (relay_token now delta) (token_of d i) else token_of d i)"
proof -
  have "distinct (map t_id (d_tokens d))" using assms by (simp add: keys_ok_def)
  then show ?thesis by (auto simp: relay_apply_def token_of_def update_rows_find1)
qed

lemma relay_apply_frame [simp]:
  "d_channels (relay_apply now uid tid delta d) = d_channels d"
  "keys_ok (relay_apply now uid tid delta d) = keys_ok d"
  by (simp_all add: relay_apply_def keys_ok_def)

section \<open>The transaction body\<close>

lemma keeps_base_adjust: "keeps_base (adjustRelayQuota uid tid delta reserve)"
  unfolding adjustRelayQuota_def adjust_token_def stmt_def by (intro base_intros)

lemma keeps_base_settle: "keeps_base (settle_body uid tid cid delta quota)"
  unfolding settle_body_def by (intro base_intros keeps_base_adjust)

text \<open>The conditions under which an adjustment is granted.\<close>

definition relay_ok :: "db \<Rightarrow> int \<Rightarrow> int \<Rightarrow> int \<Rightarrow> bool \<Rightarrow> bool" where
  "relay_ok d uid tid delta reserve \<longleftrightarrow>
     (case token_of d tid of None \<Rightarrow> False | Some t \<Rightarrow>
        t_user_id t = uid \<and>
        (delta \<noteq> 0 \<longrightarrow>
           (case user_of d uid of None \<Rightarrow> False | Some u \<Rightarrow> reserve \<longrightarrow> delta \<le> u_quota u) \<and>
           (reserve \<and> \<not> t_unlimited t \<longrightarrow> delta \<le> t_remain_quota t)))"

lemma affected_one:
  assumes "distinct (map key rs)" "affected dl (\<lambda>r. key r = j \<and> q r) u rs = 1"
  obtains r where "List.find (\<lambda>r. key r = j) rs = Some r" "q r"
proof (cases "List.find (\<lambda>r. key r = j) rs")
  case None
  then show ?thesis using assms(2) unfolding affected_find [OF assms(1)] by simp
next
  case (Some r)
  then have "q r" using assms(2) unfolding affected_find [OF assms(1)] by (simp split: if_splits)
  with Some show ?thesis by (rule that)
qed

lemma stmt_Inr:
  assumes "stmt f w = (Inr (), w')" obtains n where "f w = (Inr n, w')"
  using assms by (auto simp: stmt_def)

lemma adjust_token_Inr:
  assumes "adjust_token uid tid delta limited w = (Inr (), w')"
    and dk: "distinct (map t_id (d_tokens (w_db w)))"
    and tok: "token_of (w_db w) tid = Some t" "t_user_id t = uid"
  shows "limited \<longrightarrow> delta \<le> t_remain_quota t"
    and "\<exists>fs. w' = w\<lparr>w_faults := fs,
          w_db := d_tokens_update (update_rows (\<lambda>t. t_id t = tid) (relay_token (w_now w) delta)) (w_db w)\<rparr>"
proof -
  let ?q = "\<lambda>t. t_user_id t = uid \<and> (limited \<longrightarrow> delta \<le> t_remain_quota t)"
  let ?u = "add_remain (w_now w) (- delta)"
  let ?q2 = "\<lambda>t. t_user_id t = uid \<and> t_status t = TokenStatusExhausted \<and> 0 < t_remain_quota t"
  let ?en = "\<lambda>t. t\<lparr>t_status := TokenStatusEnabled\<rparr>"
  obtain n w1 where up: "update_tokens (\<lambda>t. t_id t = tid \<and> ?q t) ?u w = (Inr n, w1)"
    and rest: "(if n \<noteq> 1 then fail ErrInsufficientRelayQuota
       else if delta < 0 then
         stmt (update_tokens
           (\<lambda>t. t_id t = tid \<and> t_user_id t = uid \<and> t_status t = TokenStatusExhausted \<and> 0 < t_remain_quota t)
           (\<lambda>t. t\<lparr>t_status := TokenStatusEnabled\<rparr>))
       else ret ()) w1 = (Inr (), w')"
    using assms(1) unfolding adjust_token_def reading_def by blast
  from rest have n: "n = 1" by (simp split: if_splits)
  from up obtain fs where n': "n = affected (w_dialect w) (\<lambda>t. t_id t = tid \<and> ?q t) ?u (d_tokens (w_db w))"
    and w1: "w1 = w\<lparr>w_faults := fs, w_db := d_tokens_update (update_rows (\<lambda>t. t_id t = tid \<and> ?q t) ?u) (w_db w)\<rparr>"
    by (rule update_where_Inr)
  have f: "List.find (\<lambda>t. t_id t = tid) (d_tokens (w_db w)) = Some t"
    using tok(1) by (simp add: token_of_def)
  have q: "?q t" using affected_one [OF dk n' [symmetric, unfolded n]] f by auto
  then show "limited \<longrightarrow> delta \<le> t_remain_quota t" by simp
  have w1': "w1 = w\<lparr>w_faults := fs, w_db := d_tokens_update (update_rows (\<lambda>t. t_id t = tid) ?u) (w_db w)\<rparr>"
    unfolding w1 tokens.upd_cond [OF dk f, of ?q, OF q] by simp
  show "\<exists>fs. w' = w\<lparr>w_faults := fs,
      w_db := d_tokens_update (update_rows (\<lambda>t. t_id t = tid) (relay_token (w_now w) delta)) (w_db w)\<rparr>"
  proof (cases "delta < 0")
    case False
    then have "relay_token (w_now w) delta = ?u" by (auto simp: relay_token_def Let_def)
    with rest n w1' False show ?thesis by auto
  next
    case True
    with rest n obtain n2 where "update_tokens
         (\<lambda>t. t_id t = tid \<and> t_user_id t = uid \<and> t_status t = TokenStatusExhausted \<and> 0 < t_remain_quota t)
         (\<lambda>t. t\<lparr>t_status := TokenStatusEnabled\<rparr>) w1 = (Inr n2, w')"
      by (auto elim: stmt_Inr)
    then obtain fs' where "w' = w1\<lparr>w_faults := fs', w_db := d_tokens_update (update_rows
         (\<lambda>t. t_id t = tid \<and> t_user_id t = uid \<and> t_status t = TokenStatusExhausted \<and> 0 < t_remain_quota t)
         (\<lambda>t. t\<lparr>t_status := TokenStatusEnabled\<rparr>)) (w_db w1)\<rparr>"
      by (rule update_where_Inr)
    then have "w' = w\<lparr>w_faults := fs', w_db := d_tokens_update (update_rows (\<lambda>t. t_id t = tid)
        (\<lambda>r. if ?q2 (?u r) then ?en (?u r) else ?u r)) (w_db w)\<rparr>"
      unfolding w1' by (simp add: tokens.upd_upd update_rows_again)
    also have "d_tokens_update (update_rows (\<lambda>t. t_id t = tid) (\<lambda>r. if ?q2 (?u r) then ?en (?u r) else ?u r)) (w_db w)
        = d_tokens_update (update_rows (\<lambda>t. t_id t = tid) (relay_token (w_now w) delta)) (w_db w)"
      using True tok(2)
      by (intro tokens.upd_at [OF dk f]) (simp add: relay_token_def Let_def)
    finally show ?thesis by blast
  qed
qed

lemma adjust_Inr:
  assumes "adjustRelayQuota uid tid delta reserve w = (Inr (), w')" "keys_ok (w_db w)"
  shows "relay_ok (w_db w) uid tid delta reserve" and "\<not> w_aborted w"
    and "\<exists>fs. w' = w\<lparr>w_faults := fs, w_db := relay_apply (w_now w) uid tid delta (w_db w)\<rparr>"
proof -
  let ?d = "w_db w" and ?q = "\<lambda>u. reserve \<longrightarrow> delta \<le> u_quota u"
  have dk: "distinct (map u_id (d_users ?d))" "distinct (map t_id (d_tokens ?d))"
    using assms(2) by (auto simp: keys_ok_def)
  obtain t w1 where t: "first d_tokens (\<lambda>t. t_id t = tid \<and> t_user_id t = uid) w = (Inr t, w1)"
    and rest: "(if delta = 0 then ret ()
       else on_ok (update_users (\<lambda>u. u_id u = uid \<and> ?q u) (add_quota (- delta))) (\<lambda>n.
       if n \<noteq> 1 then fail ErrInsufficientRelayQuota
       else adjust_token uid tid delta (reserve \<and> \<not> t_unlimited t))) w1 = (Inr (), w')"
    using assms(1) unfolding adjustRelayQuota_def by blast
  from t obtain fs where w1: "w1 = w\<lparr>w_faults := fs\<rparr>" and na: "\<not> w_aborted w"
    and f: "List.find (\<lambda>t. t_id t = tid \<and> t_user_id t = uid) (d_tokens ?d) = Some t"
    by (rule first_Inr)
  from na show "\<not> w_aborted w" .
  have tok: "token_of ?d tid = Some t" "t_user_id t = uid"
    using f unfolding find_conj [OF dk(2)] token_of_def by (auto split: option.splits if_splits)
  have "relay_ok ?d uid tid delta reserve \<and>
    (\<exists>fs. w' = w\<lparr>w_faults := fs, w_db := relay_apply (w_now w) uid tid delta ?d\<rparr>)"
  proof (cases "delta = 0")
    case True
    then show ?thesis using rest w1 tok by (auto simp: relay_ok_def relay_apply_def)
  next
    case False
    with rest obtain n w2 where up: "update_users (\<lambda>u. u_id u = uid \<and> ?q u) (add_quota (- delta)) w1 = (Inr n, w2)"
      and adj: "(if n \<noteq> 1 then fail ErrInsufficientRelayQuota
         else adjust_token uid tid delta (reserve \<and> \<not> t_unlimited t)) w2 = (Inr (), w')"
      by auto
    have n: "n = 1" using adj by (simp split: if_splits)
    from up obtain fs2 where n': "n = affected (w_dialect w1) (\<lambda>u. u_id u = uid \<and> ?q u) (add_quota (- delta)) (d_users (w_db w1))"
      and w2: "w2 = w1\<lparr>w_faults := fs2, w_db := d_users_update (update_rows (\<lambda>u. u_id u = uid \<and> ?q u) (add_quota (- delta))) (w_db w1)\<rparr>"
      by (rule update_where_Inr)
    have dk1: "distinct (map u_id (d_users (w_db w1)))" using dk(1) w1 by simp
    obtain u where u: "List.find (\<lambda>u. u_id u = uid) (d_users ?d) = Some u" "?q u"
      using affected_one [OF dk1 n' [symmetric, unfolded n]] w1 by auto
    have w2': "w2 = w\<lparr>w_faults := fs2, w_db := d_users_update (update_rows (\<lambda>u. u_id u = uid) (add_quota (- delta))) ?d\<rparr>"
      unfolding w2 w1 using users.upd_cond [OF dk(1) u(1), of ?q, OF u(2)] by simp
    have "adjust_token uid tid delta (reserve \<and> \<not> t_unlimited t) w2 = (Inr (), w')" using adj n by simp
    from adjust_token_Inr [OF this, of t] tok dk(2) w2'
    have "reserve \<and> \<not> t_unlimited t \<longrightarrow> delta \<le> t_remain_quota t"
      and "\<exists>fs. w' = w2\<lparr>w_faults := fs, w_db := d_tokens_update
            (update_rows (\<lambda>t. t_id t = tid) (relay_token (w_now w2) delta)) (w_db w2)\<rparr>"
      by (simp_all add: token_of_def)
    with w2' False u tok show ?thesis
      by (auto simp: relay_ok_def relay_apply_def user_of_def)
  qed
  then show "relay_ok ?d uid tid delta reserve"
    and "\<exists>fs. w' = w\<lparr>w_faults := fs, w_db := relay_apply (w_now w) uid tid delta ?d\<rparr>" by auto
qed

text \<open>Without a failing statement the conditions are sufficient.\<close>

lemma adjust_token_reliable:
  assumes "w_faults w = []" "\<not> w_aborted w" "delta \<noteq> 0"
    and dk: "distinct (map t_id (d_tokens (w_db w)))"
    and tok: "token_of (w_db w) tid = Some t" "t_user_id t = uid" "limited \<longrightarrow> delta \<le> t_remain_quota t"
  shows "\<exists>w'. adjust_token uid tid delta limited w = (Inr (), w') \<and> w_faults w' = []"
proof -
  let ?q = "\<lambda>t. t_user_id t = uid \<and> (limited \<longrightarrow> delta \<le> t_remain_quota t)"
  have f: "List.find (\<lambda>t. t_id t = tid) (d_tokens (w_db w)) = Some t"
    using tok(1) by (simp add: token_of_def)
  have "update_tokens (\<lambda>t. t_id t = tid \<and> ?q t) (add_remain (w_now w) (- delta)) w =
      (Inr 1, w\<lparr>w_db := d_tokens_update (update_rows (\<lambda>t. t_id t = tid \<and> ?q t) (add_remain (w_now w) (- delta))) (w_db w)\<rparr>)"
    using tokens.update_found [OF assms(1,2) dk f, of ?q "add_remain (w_now w) (- delta)"] tok assms(3)
    by (simp add: add_remain_changes)
  then show ?thesis using assms(1,2)
    by (simp add: adjust_token_def go_simps stmt_def update_where_reliable)
qed

lemma adjust_reliable:
  assumes "w_faults w = []" "keys_ok (w_db w)" "\<not> w_aborted w" "relay_ok (w_db w) uid tid delta reserve"
  shows "adjustRelayQuota uid tid delta reserve w =
    (Inr (), w\<lparr>w_db := relay_apply (w_now w) uid tid delta (w_db w)\<rparr>)"
proof -
  have dk: "distinct (map u_id (d_users (w_db w)))" "distinct (map t_id (d_tokens (w_db w)))"
    using assms(2) by (auto simp: keys_ok_def)
  obtain t where t: "token_of (w_db w) tid = Some t" "t_user_id t = uid"
    using assms(4) by (auto simp: relay_ok_def split: option.splits)
  have ft: "first d_tokens (\<lambda>t. t_id t = tid \<and> t_user_id t = uid) w = (Inr t, w)"
    using t assms(1,3) by (simp add: first_reliable find_conj [OF dk(2)] token_of_def)
  have "\<exists>w'. adjustRelayQuota uid tid delta reserve w = (Inr (), w') \<and> w_faults w' = []"
  proof (cases "delta = 0")
    case True
    then show ?thesis using ft assms(1) by (simp add: adjustRelayQuota_def go_simps)
  next
    case False
    then obtain u where u: "List.find (\<lambda>u. u_id u = uid) (d_users (w_db w)) = Some u"
        "reserve \<longrightarrow> delta \<le> u_quota u" "reserve \<and> \<not> t_unlimited t \<longrightarrow> delta \<le> t_remain_quota t"
      using assms(4) t by (auto simp: relay_ok_def user_of_def split: option.splits)
    let ?q = "\<lambda>u. reserve \<longrightarrow> delta \<le> u_quota u"
    let ?w2 = "w\<lparr>w_db := d_users_update (update_rows (\<lambda>u. u_id u = uid \<and> ?q u) (add_quota (- delta))) (w_db w)\<rparr>"
    have "update_users (\<lambda>u. u_id u = uid \<and> ?q u) (add_quota (- delta)) w = (Inr 1, ?w2)"
      using users.update_found [OF assms(1,3) dk(1) u(1), of ?q "add_quota (- delta)"] u(2) False
      by (simp add: add_quota_changes)
    moreover have "\<exists>w'. adjust_token uid tid delta (reserve \<and> \<not> t_unlimited t) ?w2 = (Inr (), w') \<and> w_faults w' = []"
      using adjust_token_reliable [of ?w2 delta tid t uid] assms(1,3) False dk(2) t u(3)
      by (simp add: token_of_def)
    ultimately show ?thesis using ft False by (simp add: adjustRelayQuota_def on_ok_def)
  qed
  then obtain w' where w': "adjustRelayQuota uid tid delta reserve w = (Inr (), w')" "w_faults w' = []"
    by blast
  from adjust_Inr(3) [OF w'(1) assms(2)] obtain fs where
    "w' = w\<lparr>w_faults := fs, w_db := relay_apply (w_now w) uid tid delta (w_db w)\<rparr>" by blast
  with w' assms(1) show ?thesis by simp
qed

section \<open>The transaction\<close>

lemma AdjustRelayQuota_Inr:
  assumes "AdjustRelayQuota uid tid delta reserve w = (Inr (), w')" "keys_ok (w_db w)"
  shows "reserve \<longrightarrow> 0 \<le> delta" "relay_ok (w_db w) uid tid delta reserve"
    and "w_db w' = relay_apply (w_now w) uid tid delta (w_db w)"
    and "w_base w' = None" "w_now w' = w_now w"
proof -
  show r: "reserve \<longrightarrow> 0 \<le> delta" using assms(1) by (auto simp: AdjustRelayQuota_def split: if_splits)
  with assms(1) have "transaction (adjustRelayQuota uid tid delta reserve) w = (Inr (), w')"
    by (auto simp: AdjustRelayQuota_def split: if_splits)
  then obtain fs w2 fs' where b: "adjustRelayQuota uid tid delta reserve
      (w\<lparr>w_base := Some (w_db w), w_aborted := False, w_faults := fs\<rparr>) = (Inr (), w2)"
    and w': "w' = w2\<lparr>w_base := None, w_faults := fs'\<rparr>" by (rule transaction_Inr)
  note * = adjust_Inr [OF b]
  show "relay_ok (w_db w) uid tid delta reserve" using *(1) assms(2) by simp
  from *(3) assms(2) w' show "w_db w' = relay_apply (w_now w) uid tid delta (w_db w)"
    and "w_base w' = None" "w_now w' = w_now w" by auto
qed

lemma AdjustRelayQuota_Inl:
  "AdjustRelayQuota uid tid delta reserve w = (Inl e, w') \<Longrightarrow> w_base w = None \<Longrightarrow> w_db w' = w_db w"
  using transaction_atomic [OF keeps_base_adjust]
  by (auto simp: AdjustRelayQuota_def split: if_splits)

lemma AdjustRelayQuota_reliable:
  assumes "w_faults w = []" "keys_ok (w_db w)" "w_base w = None" "\<not> w_aborted w"
    and "reserve \<longrightarrow> 0 \<le> delta" "relay_ok (w_db w) uid tid delta reserve"
  shows "AdjustRelayQuota uid tid delta reserve w =
    (Inr (), w\<lparr>w_db := relay_apply (w_now w) uid tid delta (w_db w)\<rparr>)"
proof -
  let ?w = "w\<lparr>w_base := Some (w_db w)\<rparr>"
  have "adjustRelayQuota uid tid delta reserve ?w =
      (Inr (), ?w\<lparr>w_db := relay_apply (w_now w) uid tid delta (w_db w)\<rparr>)"
    using adjust_reliable [of ?w] assms by simp
  from transaction_reliable [of w "adjustRelayQuota uid tid delta reserve", OF assms(1,3,4) this] assms show ?thesis
    by (cases w) (auto simp: AdjustRelayQuota_def)
qed

text \<open>
  A reservation debits the user and the token by the amount or changes nothing, whichever
  statements fail; when it is granted the user's balance covered it, and so did the token's
  unless the token is unlimited.
\<close>

theorem reserve_all_or_nothing:
  assumes "keys_ok (w_db w)" "w_base w = None" "0 < amount"
    and "AdjustRelayQuota uid tid amount True w = (r, w')"
  shows "case r of
      Inl e \<Rightarrow> w_db w' = w_db w
    | Inr _ \<Rightarrow> (\<exists>u t. user_of (w_db w) uid = Some u \<and> token_of (w_db w) tid = Some t \<and>
        t_user_id t = uid \<and> amount \<le> u_quota u \<and> (t_unlimited t \<or> amount \<le> t_remain_quota t) \<and>
        user_of (w_db w') uid = Some (u\<lparr>u_quota := u_quota u - amount\<rparr>) \<and>
        token_of (w_db w') tid = Some (t\<lparr>t_remain_quota := t_remain_quota t - amount,
          t_used_quota := t_used_quota t + amount, t_accessed_time := w_now w\<rparr>) \<and>
        (\<forall>i. i \<noteq> uid \<longrightarrow> user_of (w_db w') i = user_of (w_db w) i) \<and>
        (\<forall>i. i \<noteq> tid \<longrightarrow> token_of (w_db w') i = token_of (w_db w) i))"
proof (cases r)
  case (Inl e)
  with assms AdjustRelayQuota_Inl show ?thesis by fastforce
next
  case (Inr x)
  then have *: "AdjustRelayQuota uid tid amount True w = (Inr (), w')" using assms(4) by simp
  from AdjustRelayQuota_Inr(2,3) [OF this assms(1)] assms(3) show ?thesis
    by (auto simp: Inr relay_ok_def user_of_relay_apply [OF assms(1)] token_of_relay_apply [OF assms(1)]
        add_quota_def relay_token_def add_remain_def Let_def split: option.splits)
qed

text \<open>
  With no failing statement a reservation of a positive amount is granted exactly when
  the token belongs to the user and both balances cover it.
\<close>

theorem reserve_granted_iff:
  assumes "w_faults w = []" "\<not> w_aborted w" "keys_ok (w_db w)" "w_base w = None" "0 < amount"
  shows "fst (AdjustRelayQuota uid tid amount True w) = Inr () \<longleftrightarrow>
    (\<exists>u t. user_of (w_db w) uid = Some u \<and> token_of (w_db w) tid = Some t \<and> t_user_id t = uid \<and>
       amount \<le> u_quota u \<and> (t_unlimited t \<or> amount \<le> t_remain_quota t))"
    (is "?l \<longleftrightarrow> ?r")
proof
  assume ?l
  then obtain w' where "AdjustRelayQuota uid tid amount True w = (Inr (), w')"
    by (metis prod.collapse)
  from AdjustRelayQuota_Inr(2) [OF this assms(3)] assms(5) show ?r
    by (auto simp: relay_ok_def split: option.splits)
next
  assume ?r
  then have "relay_ok (w_db w) uid tid amount True" by (auto simp: relay_ok_def)
  from AdjustRelayQuota_reliable [OF assms(1,3,4,2) _ this] assms(5) show ?l by simp
qed

section \<open>Settlement\<close>

definition settle_apply :: "int \<Rightarrow> int \<Rightarrow> int \<Rightarrow> int \<Rightarrow> int \<Rightarrow> int \<Rightarrow> db \<Rightarrow> db" where
  "settle_apply now uid tid cid reserved quota d =
     (let d1 = relay_apply now uid tid (quota - reserved) d;
          d2 = d_users_update (update_rows (\<lambda>u. u_id u = uid) (\<lambda>u. add_requests 1 (add_used quota u))) d1
      in if quota = 0 then d2
         else d_channels_update (update_rows (\<lambda>c. c_id c = cid) (add_channel_used quota)) d2)"

lemma settle_tables:
  "d_users (settle_apply now uid tid cid reserved quota d) =
     update_rows (\<lambda>u. u_id u = uid) (\<lambda>u. add_requests 1 (add_used quota u))
       (d_users (relay_apply now uid tid (quota - reserved) d))"
  "d_tokens (settle_apply now uid tid cid reserved quota d) = d_tokens (relay_apply now uid tid (quota - reserved) d)"
  "d_channels (settle_apply now uid tid cid reserved quota d) =
     (if quota = 0 then d_channels d else update_rows (\<lambda>c. c_id c = cid) (add_channel_used quota) (d_channels d))"
  by (simp_all add: settle_apply_def Let_def)

lemma keys_okD:
  "keys_ok d \<Longrightarrow> distinct (map u_id (d_users d))"
  "keys_ok d \<Longrightarrow> distinct (map t_id (d_tokens d))"
  "keys_ok d \<Longrightarrow> distinct (map c_id (d_channels d))"
  by (simp_all add: keys_ok_def)

lemma counter_keys [simp]:
  "u_id (add_requests n u) = u_id u" "u_id (add_used n u) = u_id u" "c_id (add_channel_used n c) = c_id c"
  by (simp_all add: add_requests_def add_used_def add_channel_used_def)

lemma user_of_settle:
  assumes "keys_ok d"
  shows "user_of (settle_apply now uid tid cid reserved quota d) i =
    (if i = uid then map_option (\<lambda>u. add_requests 1 (add_used quota (add_quota (reserved - quota) u))) (user_of d i)
     else user_of d i)"
proof -
  let ?d1 = "relay_apply now uid tid (quota - reserved) d"
  have k: "distinct (map u_id (d_users ?d1))" using assms by (intro keys_okD(1)) simp
  have "user_of (settle_apply now uid tid cid reserved quota d) i =
    (if i = uid then map_option (\<lambda>u. add_requests 1 (add_used quota u)) (user_of ?d1 i) else user_of ?d1 i)"
    unfolding user_of_def settle_tables using update_rows_find1 [OF _ k] by simp
  then show ?thesis
    unfolding user_of_relay_apply [OF assms] by (simp add: option.map_comp comp_def)
qed

lemma token_of_settle:
  assumes "keys_ok d"
  shows "token_of (settle_apply now uid tid cid reserved quota d) i =
    (if i = tid \<and> quota \<noteq> reserved then map_option (relay_token now (quota - reserved)) (token_of d i)
     else token_of d i)"
  using token_of_relay_apply [OF assms, of now uid tid "quota - reserved" i]
  unfolding token_of_def settle_tables by simp

lemma channel_of_settle:
  assumes "keys_ok d"
  shows "channel_of (settle_apply now uid tid cid reserved quota d) i =
    (if i = cid \<and> quota \<noteq> 0 then map_option (add_channel_used quota) (channel_of d i) else channel_of d i)"
  using keys_okD(3) [OF assms] by (simp add: channel_of_def settle_tables update_rows_find1)

lemma settle_keys_ok [simp]: "keys_ok (settle_apply now uid tid cid reserved quota d) = keys_ok d"
  by (simp add: settle_apply_def Let_def keys_ok_def relay_apply_def)

lemma affected_one1:
  assumes "distinct (map key rs)" "affected dl (\<lambda>r. key r = j) u rs = 1"
  obtains r where "List.find (\<lambda>r. key r = j) rs = Some r"
  using affected_one [of key rs dl j "\<lambda>_. True" u] assms by auto

lemma settle_body_Inr:
  assumes "settle_body uid tid cid (quota - reserved) quota w = (Inr (), w')" "keys_ok (w_db w)"
  shows "relay_ok (w_db w) uid tid (quota - reserved) False" "\<not> w_aborted w"
    and "\<exists>fs. w' = w\<lparr>w_faults := fs, w_db := settle_apply (w_now w) uid tid cid reserved quota (w_db w)\<rparr>"
    and "user_of (w_db w) uid \<noteq> None" "quota \<noteq> 0 \<longrightarrow> channel_of (w_db w) cid \<noteq> None"
proof -
  let ?d1 = "relay_apply (w_now w) uid tid (quota - reserved) (w_db w)"
  let ?u = "\<lambda>u. add_requests 1 (add_used quota u)"
  let ?d2 = "d_users_update (update_rows (\<lambda>u. u_id u = uid) ?u) ?d1"
  obtain x w1 where a': "adjustRelayQuota uid tid (quota - reserved) False w = (Inr x, w1)"
    and rest: "on_ok (update_users (\<lambda>u. u_id u = uid) ?u) (\<lambda>n.
     if n \<noteq> 1 then fail (Msg ''user missing during settlement'')
     else if quota = 0 then ret ()
     else on_ok (update_channels (\<lambda>c. c_id c = cid) (add_channel_used quota)) (\<lambda>n.
     if n \<noteq> 1 then fail (Msg ''channel missing during settlement'') else ret ())) w1 = (Inr (), w')"
    using assms(1) unfolding settle_body_def by (rule then_do_Inr)
  have a: "adjustRelayQuota uid tid (quota - reserved) False w = (Inr (), w1)" using a' by (cases x) simp
  from adjust_Inr [OF a assms(2)] show "relay_ok (w_db w) uid tid (quota - reserved) False" "\<not> w_aborted w" by auto
  from adjust_Inr(3) [OF a assms(2)] obtain fs where w1: "w1 = w\<lparr>w_faults := fs, w_db := ?d1\<rparr>" by blast
  from rest obtain n w2 where up: "update_users (\<lambda>u. u_id u = uid) ?u w1 = (Inr n, w2)"
    and chan: "(if n \<noteq> 1 then fail (Msg ''user missing during settlement'')
     else if quota = 0 then ret ()
     else on_ok (update_channels (\<lambda>c. c_id c = cid) (add_channel_used quota)) (\<lambda>n.
     if n \<noteq> 1 then fail (Msg ''channel missing during settlement'') else ret ())) w2 = (Inr (), w')"
    by (rule on_ok_Inr)
  have n: "n = 1" using chan by (simp split: if_splits)
  from up obtain fs2 where n': "n = affected (w_dialect w1) (\<lambda>u. u_id u = uid) ?u (d_users (w_db w1))"
    and w2: "w2 = w1\<lparr>w_faults := fs2, w_db := d_users_update (update_rows (\<lambda>u. u_id u = uid) ?u) (w_db w1)\<rparr>"
    by (rule update_where_Inr)
  have k1: "keys_ok ?d1" using assms(2) by simp
  obtain u1 where "List.find (\<lambda>u. u_id u = uid) (d_users ?d1) = Some u1"
    using affected_one1 [OF keys_okD(1) [OF k1], of "w_dialect w1" uid ?u] n n' w1 by auto
  then have "user_of ?d1 uid = Some u1" by (simp add: user_of_def)
  then show "user_of (w_db w) uid \<noteq> None" using user_of_relay_apply [OF assms(2)] by auto
  have w2': "w2 = w\<lparr>w_faults := fs2, w_db := ?d2\<rparr>" using w1 w2 by simp
  have "(\<exists>fs. w' = w\<lparr>w_faults := fs, w_db := settle_apply (w_now w) uid tid cid reserved quota (w_db w)\<rparr>) \<and>
    (quota \<noteq> 0 \<longrightarrow> channel_of (w_db w) cid \<noteq> None)"
  proof (cases "quota = 0")
    case True
    then show ?thesis using chan n w2' by (auto simp: settle_apply_def Let_def)
  next
    case False
    with chan n obtain m w3 where up3: "update_channels (\<lambda>c. c_id c = cid) (add_channel_used quota) w2 = (Inr m, w3)"
      and last: "(if m \<noteq> 1 then fail (Msg ''channel missing during settlement'') else ret ()) w3 = (Inr (), w')"
      by auto
    from up3 obtain fs3 where m: "m = affected (w_dialect w2) (\<lambda>c. c_id c = cid) (add_channel_used quota) (d_channels (w_db w2))"
      and w3: "w3 = w2\<lparr>w_faults := fs3, w_db := d_channels_update (update_rows (\<lambda>c. c_id c = cid) (add_channel_used quota)) (w_db w2)\<rparr>"
      by (rule update_where_Inr)
    have m1: "m = 1" and w': "w' = w3" using last by (simp_all split: if_splits)
    have kc: "distinct (map c_id (d_channels (w_db w2)))" using keys_okD(3) [OF assms(2)] w2' by simp
    obtain c where "List.find (\<lambda>c. c_id c = cid) (d_channels (w_db w2)) = Some c"
      using affected_one1 [OF kc m [symmetric, unfolded m1]] by blast
    then show ?thesis using w' w3 w2' False by (auto simp: channel_of_def settle_apply_def Let_def)
  qed
  then show "\<exists>fs. w' = w\<lparr>w_faults := fs, w_db := settle_apply (w_now w) uid tid cid reserved quota (w_db w)\<rparr>"
    and "quota \<noteq> 0 \<longrightarrow> channel_of (w_db w) cid \<noteq> None" by auto
qed

lemma SettleRelayQuota_Inr:
  assumes "SettleRelayQuota uid tid cid reserved quota w = (Inr (), w')" "keys_ok (w_db w)"
    and "in_int64 reserved" "in_int64 quota"
  shows "0 \<le> reserved" "0 \<le> quota" "relay_ok (w_db w) uid tid (quota - reserved) False"
    and "w_db w' = settle_apply (w_now w) uid tid cid reserved quota (w_db w)" "w_base w' = None"
    and "user_of (w_db w) uid \<noteq> None" "quota \<noteq> 0 \<longrightarrow> channel_of (w_db w) cid \<noteq> None"
proof -
  show nn: "0 \<le> reserved" "0 \<le> quota" using assms(1) by (auto simp: SettleRelayQuota_def split: if_splits)
  have wr: "wrap64 (quota - reserved) = quota - reserved"
    using nn assms(3,4) by (simp add: in_int64_def min_int64_def max_int64_def)
  have "transaction (settle_body uid tid cid (quota - reserved) quota) w = (Inr (), w')"
    using assms(1) nn by (simp add: SettleRelayQuota_def wr)
  then obtain fs w2 fs' where b: "settle_body uid tid cid (quota - reserved) quota
      (w\<lparr>w_base := Some (w_db w), w_aborted := False, w_faults := fs\<rparr>) = (Inr (), w2)"
    and w': "w' = w2\<lparr>w_base := None, w_faults := fs'\<rparr>" by (rule transaction_Inr)
  note * = settle_body_Inr [OF b]
  show "relay_ok (w_db w) uid tid (quota - reserved) False" "user_of (w_db w) uid \<noteq> None"
    "quota \<noteq> 0 \<longrightarrow> channel_of (w_db w) cid \<noteq> None" using *(1,4,5) assms(2) by simp_all
  from *(3) assms(2) w' show "w_db w' = settle_apply (w_now w) uid tid cid reserved quota (w_db w)"
    and "w_base w' = None" by auto
qed

lemma SettleRelayQuota_Inl:
  "SettleRelayQuota uid tid cid reserved quota w = (Inl e, w') \<Longrightarrow> w_base w = None \<Longrightarrow> w_db w' = w_db w"
  using transaction_atomic [OF keeps_base_settle]
  by (auto simp: SettleRelayQuota_def split: if_splits)

text \<open>
  A request that reserves one amount and then settles at another is charged the settled
  amount, whatever was reserved: the user's balance, the token's and the three usage
  counters move by exactly \<open>quota\<close>, and a settlement that fails leaves the reservation as it
  was.
\<close>

theorem reserve_then_settle:
  assumes "keys_ok (w_db w)" "w_base w = None" "in_int64 reserved" "in_int64 quota"
    and "AdjustRelayQuota uid tid reserved True w = (Inr (), w1)"
    and "user_of (w_db w) uid = Some u" "token_of (w_db w) tid = Some t"
    and "SettleRelayQuota uid tid cid reserved quota w1 = (r, w2)"
  shows "case r of
      Inl e \<Rightarrow> w_db w2 = w_db w1
    | Inr _ \<Rightarrow>
        user_of (w_db w2) uid = Some (u\<lparr>u_quota := u_quota u - quota, u_used_quota := u_used_quota u + quota,
          u_request_count := u_request_count u + 1\<rparr>) \<and>
        (\<exists>t'. token_of (w_db w2) tid = Some t' \<and> t_remain_quota t' = t_remain_quota t - quota \<and>
          t_used_quota t' = t_used_quota t + quota) \<and>
        (\<forall>i. channel_of (w_db w2) i = (if i = cid \<and> quota \<noteq> 0
           then map_option (\<lambda>c. c\<lparr>c_used_quota := c_used_quota c + quota\<rparr>) (channel_of (w_db w) i)
           else channel_of (w_db w) i))"
proof (cases r)
  case (Inl e)
  have "w_base w1 = None" using AdjustRelayQuota_Inr(4) [OF assms(5,1)] .
  with Inl assms(8) SettleRelayQuota_Inl show ?thesis by fastforce
next
  case (Inr x)
  then have st: "SettleRelayQuota uid tid cid reserved quota w1 = (Inr (), w2)" using assms(8) by simp
  have d1: "w_db w1 = relay_apply (w_now w) uid tid reserved (w_db w)"
    using AdjustRelayQuota_Inr(3) [OF assms(5,1)] .
  then have k1: "keys_ok (w_db w1)" using assms(1) by simp
  have d2: "w_db w2 = settle_apply (w_now w1) uid tid cid reserved quota (w_db w1)"
    using SettleRelayQuota_Inr(4) [OF st k1 assms(3,4)] .
  show ?thesis
    unfolding d2 user_of_settle [OF k1] token_of_settle [OF k1] channel_of_settle [OF k1] Inr
    unfolding d1 user_of_relay_apply [OF assms(1)] token_of_relay_apply [OF assms(1)]
    using assms(6,7)
    by (auto simp: add_quota_def add_used_def add_requests_def add_channel_used_def [abs_def] channel_of_def)
qed

text \<open>
  Refunding a reservation restores both balances to what they were before it. The token's
  status changes in one case only: a token marked exhausted in the meantime is enabled again
  when its restored balance is positive; a token disabled in the meantime stays disabled.
\<close>

theorem refund_restores:
  assumes "0 < amount" "keys_ok (w_db w1)"
    and "user_of (w_db w1) uid = Some (add_quota (- amount) u)"
    and "token_of (w_db w1) tid = Some t1" "t_remain_quota t1 = remain - amount"
    and "AdjustRelayQuota uid tid (- amount) False w1 = (Inr (), w2)"
  shows "user_of (w_db w2) uid = Some u \<and>
    (\<exists>t2. token_of (w_db w2) tid = Some t2 \<and> t_remain_quota t2 = remain \<and>
      t_status t2 = (if t_status t1 = TokenStatusExhausted \<and> 0 < remain
                     then TokenStatusEnabled else t_status t1))"
proof
  have d2: "w_db w2 = relay_apply (w_now w1) uid tid (- amount) (w_db w1)"
    using AdjustRelayQuota_Inr(3) [OF assms(6,2)] .
  show "user_of (w_db w2) uid = Some u"
    unfolding d2 user_of_relay_apply [OF assms(2)] assms(3) by (simp add: add_quota_def)
  show "\<exists>t2. token_of (w_db w2) tid = Some t2 \<and> t_remain_quota t2 = remain \<and>
      t_status t2 = (if t_status t1 = TokenStatusExhausted \<and> 0 < remain
                     then TokenStatusEnabled else t_status t1)"
    unfolding d2 token_of_relay_apply [OF assms(2)] using assms(1,4,5)
    by (auto simp: relay_token_def add_remain_def Let_def)
qed

section \<open>Any interleaving of requests\<close>

text \<open>
  Requests of many users reserve, refund and settle in any order, at any time and with any
  statement failing. A state carries the world, the reservations still open as
  (user, token, amount) and, as a ghost, what each user has been charged.
\<close>

record ledger =
  g_world :: world
  g_open :: "(int \<times> int \<times> int) list"
  g_charged :: "int \<Rightarrow> int"

inductive ledger_step :: "ledger \<Rightarrow> ledger \<Rightarrow> bool" where
  environment: "w' = (g_world s)\<lparr>w_now := n, w_faults := fs, w_aborted := False\<rparr> \<Longrightarrow>
     ledger_step s (s\<lparr>g_world := w'\<rparr>)"
| reserve: "AdjustRelayQuota uid tid a True (g_world s) = (Inr (), w') \<Longrightarrow> in_int64 a \<Longrightarrow>
     ledger_step s (s\<lparr>g_world := w', g_open := (uid, tid, a) # g_open s\<rparr>)"
| reserve_fails: "AdjustRelayQuota uid tid a True (g_world s) = (Inl e, w') \<Longrightarrow>
     ledger_step s (s\<lparr>g_world := w'\<rparr>)"
| refund: "(uid, tid, a) \<in> set (g_open s) \<Longrightarrow>
     AdjustRelayQuota uid tid (- a) False (g_world s) = (Inr (), w') \<Longrightarrow>
     ledger_step s (s\<lparr>g_world := w', g_open := remove1 (uid, tid, a) (g_open s)\<rparr>)"
| refund_fails: "AdjustRelayQuota uid tid (- a) False (g_world s) = (Inl e, w') \<Longrightarrow>
     ledger_step s (s\<lparr>g_world := w'\<rparr>)"
| settle: "(uid, tid, a) \<in> set (g_open s) \<Longrightarrow> in_int64 q \<Longrightarrow>
     SettleRelayQuota uid tid cid a q (g_world s) = (Inr (), w') \<Longrightarrow>
     ledger_step s (s\<lparr>g_world := w', g_open := remove1 (uid, tid, a) (g_open s),
       g_charged := (g_charged s)(uid := g_charged s uid + q)\<rparr>)"
| settle_fails: "SettleRelayQuota uid tid cid a q (g_world s) = (Inl e, w') \<Longrightarrow>
     ledger_step s (s\<lparr>g_world := w'\<rparr>)"

inductive_cases ledger_stepE: "ledger_step s s'"

definition open_of :: "int \<Rightarrow> (int \<times> int \<times> int) list \<Rightarrow> int" where
  "open_of uid xs = sum_list (map (\<lambda>(u, t, a). if u = uid then a else 0) xs)"

lemma open_of_Cons [simp]: "open_of uid ((u, t, a) # xs) = (if u = uid then a else 0) + open_of uid xs"
  by (simp add: open_of_def)

lemma open_of_remove1:
  "(u, t, a) \<in> set xs \<Longrightarrow> open_of uid (remove1 (u, t, a) xs) = open_of uid xs - (if u = uid then a else 0)"
  by (induction xs) (auto simp: open_of_def split: if_splits)

text \<open>The balance is what it was at the start, less what is reserved and what was charged.\<close>

definition balanced :: "(int \<Rightarrow> int option) \<Rightarrow> ledger \<Rightarrow> bool" where
  "balanced start s \<longleftrightarrow>
     keys_ok (w_db (g_world s)) \<and> w_base (g_world s) = None \<and>
     (\<forall>x\<in>set (g_open s). in_int64 (snd (snd x))) \<and>
     (\<forall>uid. map_option (\<lambda>u. u_quota u + open_of uid (g_open s) + g_charged s uid) (user_of (w_db (g_world s)) uid)
        = start uid)"

lemma balanced_same_db:
  "balanced start s \<Longrightarrow> w_db w' = w_db (g_world s) \<Longrightarrow> w_base w' = None \<Longrightarrow> balanced start (s\<lparr>g_world := w'\<rparr>)"
  by (simp add: balanced_def)

lemma balanced_adjust:
  assumes "balanced start s" "AdjustRelayQuota uid tid a reserve (g_world s) = (Inr (), w')"
    and "\<forall>x\<in>set xs. in_int64 (snd (snd x))"
    and "\<And>i. open_of i xs = open_of i (g_open s) + (if i = uid then a else 0)"
  shows "balanced start (s\<lparr>g_world := w', g_open := xs\<rparr>)"
proof -
  have k: "keys_ok (w_db (g_world s))" using assms(1) by (simp add: balanced_def)
  note * = AdjustRelayQuota_Inr [OF assms(2) k]
  show ?thesis using assms(1,3,4) unfolding balanced_def
    by (auto simp: *(3,4) user_of_relay_apply [OF k] option.map_comp comp_def)
qed

lemma balanced_settle:
  assumes "balanced start s" "SettleRelayQuota uid tid cid a q (g_world s) = (Inr (), w')"
    and "(uid, tid, a) \<in> set (g_open s)" "in_int64 q"
  shows "balanced start (s\<lparr>g_world := w', g_open := remove1 (uid, tid, a) (g_open s),
       g_charged := (g_charged s)(uid := g_charged s uid + q)\<rparr>)"
proof -
  have k: "keys_ok (w_db (g_world s))" using assms(1) by (simp add: balanced_def)
  have a: "in_int64 a" using assms(1,3) unfolding balanced_def by fastforce
  note * = SettleRelayQuota_Inr [OF assms(2) k a assms(4)]
  have keep: "\<forall>x\<in>set (remove1 (uid, tid, a) (g_open s)). in_int64 (snd (snd x))"
    using assms(1) unfolding balanced_def by (meson notin_set_remove1)
  have u: "u_quota (add_requests 1 (add_used q (add_quota (a - q) u))) = u_quota u + (a - q)" for u
    by (simp add: add_requests_def add_used_def)
  have "map_option (\<lambda>v. u_quota v + open_of i (remove1 (uid, tid, a) (g_open s))
        + ((g_charged s)(uid := g_charged s uid + q)) i)
      (user_of (settle_apply (w_now (g_world s)) uid tid cid a q (w_db (g_world s))) i)
    = map_option (\<lambda>v. u_quota v + open_of i (g_open s) + g_charged s i) (user_of (w_db (g_world s)) i)" for i
    unfolding user_of_settle [OF k] open_of_remove1 [OF assms(3)]
    by (cases "i = uid"; cases "user_of (w_db (g_world s)) i") (auto simp: u)
  then show ?thesis using assms(1) keep unfolding balanced_def by (simp add: *(4,5))
qed

lemma failed_adjustment:
  assumes "AdjustRelayQuota uid tid a reserve w = (Inl e, w')" "w_base w = None"
  shows "w_db w' = w_db w \<and> w_base w' = None"
  using AdjustRelayQuota_Inl [OF assms] assms transaction_base
  by (auto simp: AdjustRelayQuota_def split: if_splits)

lemma failed_settlement:
  assumes "SettleRelayQuota uid tid cid a q w = (Inl e, w')" "w_base w = None"
  shows "w_db w' = w_db w \<and> w_base w' = None"
  using SettleRelayQuota_Inl [OF assms] assms transaction_base
  by (auto simp: SettleRelayQuota_def split: if_splits)

lemma balanced_fails:
  "balanced start s \<Longrightarrow> w_db w' = w_db (g_world s) \<and> w_base w' = None \<Longrightarrow> s' = s\<lparr>g_world := w'\<rparr> \<Longrightarrow>
   balanced start s'"
  using balanced_same_db by blast

lemma ledger_step_balanced:
  assumes "ledger_step s s'" "balanced start s"
  shows "balanced start s'"
  using assms
proof (cases rule: ledger_step.cases)
  case (environment w' n fs)
  with assms(2) show ?thesis by (auto intro!: balanced_same_db simp: balanced_def)
next
  case (reserve uid tid a w')
  have "\<forall>x\<in>set ((uid, tid, a) # g_open s). in_int64 (snd (snd x))"
    using assms(2) reserve by (simp add: balanced_def)
  from balanced_adjust [OF assms(2) reserve(2) this] show ?thesis unfolding reserve(1) by simp
next
  case (reserve_fails uid tid a e w')
  show ?thesis
    by (rule balanced_fails [OF assms(2) failed_adjustment [OF reserve_fails(2)] reserve_fails(1)])
      (use assms(2) in \<open>simp add: balanced_def\<close>)
next
  case (refund uid tid a w')
  have "\<forall>x\<in>set (remove1 (uid, tid, a) (g_open s)). in_int64 (snd (snd x))"
    using assms(2) unfolding balanced_def by (meson notin_set_remove1)
  from balanced_adjust [OF assms(2) refund(3) this] show ?thesis
    unfolding refund(1) by (simp add: open_of_remove1 [OF refund(2)])
next
  case (refund_fails uid tid a e w')
  show ?thesis
    by (rule balanced_fails [OF assms(2) failed_adjustment [OF refund_fails(2)] refund_fails(1)])
      (use assms(2) in \<open>simp add: balanced_def\<close>)
next
  case (settle uid tid a q cid w')
  then show ?thesis using balanced_settle [OF assms(2)] by blast
next
  case (settle_fails uid tid cid a q e w')
  show ?thesis
    by (rule balanced_fails [OF assms(2) failed_settlement [OF settle_fails(2)] settle_fails(1)])
      (use assms(2) in \<open>simp add: balanced_def\<close>)
qed

text \<open>
  C1. From any consistent start with no open reservation, after any sequence of steps every
  user's balance equals the starting balance minus the open reservations minus the settled
  charges: no interleaving and no failure creates or loses quota.
\<close>

theorem ledger_conserves_quota:
  assumes "ledger_step\<^sup>*\<^sup>* s s'" "keys_ok (w_db (g_world s))" "w_base (g_world s) = None"
    and "g_open s = []" "g_charged s = (\<lambda>_. 0)"
  shows "map_option u_quota (user_of (w_db (g_world s')) uid) =
    map_option (\<lambda>u. u_quota u - open_of uid (g_open s') - g_charged s' uid) (user_of (w_db (g_world s)) uid)"
proof -
  let ?start = "\<lambda>i. map_option u_quota (user_of (w_db (g_world s)) i)"
  have "balanced ?start s" using assms(2-5) by (simp add: balanced_def open_of_def)
  with assms(1) have "balanced ?start s'"
    by (induction rule: rtranclp_induct) (auto intro: ledger_step_balanced)
  then have "map_option (\<lambda>u. u_quota u + open_of uid (g_open s') + g_charged s' uid)
      (user_of (w_db (g_world s')) uid) = ?start uid" by (simp add: balanced_def)
  then show ?thesis
    by (cases "user_of (w_db (g_world s')) uid"; cases "user_of (w_db (g_world s)) uid") auto
qed

section \<open>Concrete runs\<close>

definition demo_db :: db where
  "demo_db = empty_db\<lparr>
     d_users := [blank_user\<lparr>u_id := 1, u_quota := 1000\<rparr>, blank_user\<lparr>u_id := 2, u_quota := 50\<rparr>],
     d_tokens := [blank_token\<lparr>t_id := 5, t_user_id := 1, t_remain_quota := 700\<rparr>],
     d_channels := [blank_channel\<lparr>c_id := 9\<rparr>]\<rparr>"

lemmas run_simps = demo_db_def start_defs go_simps AdjustRelayQuota_def adjustRelayQuota_def
  adjust_token_def SettleRelayQuota_def settle_body_def transaction_def rollback_def take_fault_def
  abort_tx_def exec_def query_def first_def update_where_def update_rows_def affected_def stmt_def
  user_of_def token_of_def channel_of_def keys_ok_def status_defs

theorem reserve_all_or_nothing_witness:
  "map_option u_quota (user_of (w_db (snd (AdjustRelayQuota 1 5 300 True (world_with demo_db 77)))) 1) = Some 700"
proof -
  have k: "keys_ok (w_db (world_with demo_db 77))" by (simp add: run_simps)
  have b: "w_base (world_with demo_db 77) = None" by (simp add: run_simps)
  have r: "AdjustRelayQuota 1 5 300 True (world_with demo_db 77) =
      (Inr (), snd (AdjustRelayQuota 1 5 300 True (world_with demo_db 77)))"
    by (simp add: run_simps)
  have u: "user_of (w_db (world_with demo_db 77)) 1 = Some (blank_user\<lparr>u_id := 1, u_quota := 1000\<rparr>)"
    by (simp add: run_simps)
  from reserve_all_or_nothing [OF k b _ r] u show ?thesis by auto
qed

theorem reserve_granted_iff_witness:
  "fst (AdjustRelayQuota 1 5 700 True (world_with demo_db 77)) = Inr () \<and>
   fst (AdjustRelayQuota 1 5 701 True (world_with demo_db 77)) \<noteq> Inr ()"
proof -
  let ?w = "world_with demo_db 77"
  have h: "w_faults ?w = []" "\<not> w_aborted ?w" "keys_ok (w_db ?w)" "w_base ?w = None"
    by (simp_all add: run_simps)
  show ?thesis
    using reserve_granted_iff [OF h, of 700 1 5] reserve_granted_iff [OF h, of 701 1 5]
    by (simp add: demo_db_def start_defs user_of_def token_of_def)
qed

theorem reserve_then_settle_witness:
  "map_option u_quota (user_of (w_db (snd (SettleRelayQuota 1 5 9 300 120
      (snd (AdjustRelayQuota 1 5 300 True (world_with demo_db 77)))))) 1) = Some 880"
proof -
  let ?w = "world_with demo_db 77" and ?w1 = "snd (AdjustRelayQuota 1 5 300 True (world_with demo_db 77))"
  have h: "keys_ok (w_db ?w)" "w_base ?w = None" "in_int64 300" "in_int64 120"
    by (simp_all add: run_simps in_int64_def min_int64_def max_int64_def)
  have a: "AdjustRelayQuota 1 5 300 True ?w = (Inr (), ?w1)"
    and u: "user_of (w_db ?w) 1 = Some (blank_user\<lparr>u_id := 1, u_quota := 1000\<rparr>)"
    and t: "token_of (w_db ?w) 5 = Some (blank_token\<lparr>t_id := 5, t_user_id := 1, t_remain_quota := 700\<rparr>)"
    and r: "SettleRelayQuota 1 5 9 300 120 ?w1 = (Inr (), snd (SettleRelayQuota 1 5 9 300 120 ?w1))"
    by (simp_all add: run_simps wrap64_def)
  from reserve_then_settle [OF h a u t r] show ?thesis by simp
qed

theorem refund_restores_witness:
  "map_option u_quota (user_of (w_db (snd (AdjustRelayQuota 1 5 (- 300) False
     (world_with (demo_db\<lparr>d_tokens := [blank_token\<lparr>t_id := 5, t_user_id := 1, t_remain_quota := 0,
        t_status := TokenStatusExhausted\<rparr>]\<rparr>) 77)))) 1) = Some 1300"
proof -
  let ?w = "world_with (demo_db\<lparr>d_tokens := [blank_token\<lparr>t_id := 5, t_user_id := 1, t_remain_quota := 0,
        t_status := TokenStatusExhausted\<rparr>]\<rparr>) 77"
  let ?r = "AdjustRelayQuota 1 5 (- 300) False ?w"
  have h: "(0 :: int) < 300" "keys_ok (w_db ?w)"
    "user_of (w_db ?w) 1 = Some (add_quota (- 300) (blank_user\<lparr>u_id := 1, u_quota := 1300\<rparr>))"
    "token_of (w_db ?w) 5 = Some (blank_token\<lparr>t_id := 5, t_user_id := 1, t_remain_quota := 0, t_status := TokenStatusExhausted\<rparr>)"
    "t_remain_quota (blank_token\<lparr>t_id := 5, t_user_id := 1, t_remain_quota := 0, t_status := TokenStatusExhausted\<rparr>) = 300 - 300"
    by (simp_all add: run_simps add_quota_def)
  have r: "?r = (Inr (), snd ?r)" by (simp add: run_simps)
  from refund_restores [OF h r] show ?thesis by simp
qed

theorem ledger_conserves_quota_witness:
  "map_option u_quota (user_of (w_db (snd (AdjustRelayQuota 1 5 300 True (world_with demo_db 77)))) 1) = Some 700"
proof -
  let ?w = "world_with demo_db 77"
  let ?s = "\<lparr>g_world = ?w, g_open = [], g_charged = \<lambda>_. 0\<rparr>"
  let ?w1 = "snd (AdjustRelayQuota 1 5 300 True ?w)"
  have a: "AdjustRelayQuota 1 5 300 True (g_world ?s) = (Inr (), ?w1)" by (simp add: run_simps)
  have "ledger_step ?s (?s\<lparr>g_world := ?w1, g_open := (1, 5, 300) # g_open ?s\<rparr>)"
    by (rule ledger_step.reserve [OF a]) (simp add: in_int64_def min_int64_def max_int64_def)
  then have st: "ledger_step\<^sup>*\<^sup>* ?s (?s\<lparr>g_world := ?w1, g_open := (1, 5, 300) # g_open ?s\<rparr>)" by blast
  have h: "keys_ok (w_db (g_world ?s))" "w_base (g_world ?s) = None" "g_open ?s = []" "g_charged ?s = (\<lambda>_. 0)"
    and u: "user_of (w_db ?w) 1 = Some (blank_user\<lparr>u_id := 1, u_quota := 1000\<rparr>)"
    by (simp_all add: run_simps)
  from ledger_conserves_quota [OF st h, of 1] u show ?thesis by (simp add: open_of_def)
qed

end
