(* ===== verification/Tokens.thy ===== *)
theory Tokens
  imports RelayQuota
begin

text \<open>
  API tokens, \<open>model/token.go\<close>: validation at the gateway's entrance, creation, edits and
  deletion, and the pre- and post-consumption of the billing path that does not use the
  reservation transactions.
\<close>

section \<open>Validation\<close>

text \<open>\<open>CacheGetTokenByKey\<close> of \<open>model/cache.go\<close>; the cached JSON decodes to the row it was made from.\<close>

definition token_cache_get :: "string \<Rightarrow> token option op" where
  "token_cache_get k w =
     (case take_fault w of (bad, w1) \<Rightarrow>
        if bad then (Inr None, w1)
        else case w_token_cache w1 k of
            None \<Rightarrow> (Inr None, w1)
          | Some (t, e) \<Rightarrow> (Inr (if w_now w1 < e then Some t else None), w1))"

definition token_cache_set :: "string \<Rightarrow> token \<Rightarrow> unit op" where
  "token_cache_set k t w =
     (case take_fault w of (bad, w1) \<Rightarrow>
        if bad then (Inr (), w1)
        else (Inr (), w1\<lparr>w_token_cache := (w_token_cache w1)(k \<mapsto>
               (t, w_now w1 + cfg_sync_frequency (w_cfg w1)))\<rparr>))"

definition CacheGetTokenByKey :: "string \<Rightarrow> token op" where
  "CacheGetTokenByKey key =
     reading (\<lambda>w.
       if \<not> cfg_redis (w_cfg w) then first d_tokens (\<lambda>t. t_key t = key)
       else on_ok (token_cache_get key) (\<lambda>c.
         case c of
           Some t \<Rightarrow> ret t
         | None \<Rightarrow> on_ok (first d_tokens (\<lambda>t. t_key t = key)) (\<lambda>t.
             then_do (token_cache_set key t) (ret t))))"

definition SelectUpdate :: "token \<Rightarrow> unit op" where
  "SelectUpdate tok =
     (if t_id tok = 0 then fail (Msg ''WHERE conditions required'')
      else stmt (update_tokens (\<lambda>t. t_id t = t_id tok)
             (\<lambda>t. t\<lparr>t_accessed_time := t_accessed_time tok, t_status := t_status tok\<rparr>)))"

definition ValidateUserToken :: "string \<Rightarrow> token op" where
  "ValidateUserToken key =
     (if key = [] then fail (Msg ''Token not provided'')
      else on_result (CacheGetTokenByKey key) (\<lambda>r.
        case r of
          Inl e \<Rightarrow> if e = NotFound then fail (Msg ''Token not provided'')
                   else fail (Msg ''Token verification failed'')
        | Inr tok \<Rightarrow> reading (\<lambda>w.
            if t_status tok = TokenStatusExhausted then fail (Msg ''The token quota has been exhausted'')
            else if t_status tok = TokenStatusExpired then fail (Msg ''The token has expired'')
            else if t_status tok \<noteq> TokenStatusEnabled then fail (Msg ''The token status is not available'')
            else if t_expired_time tok \<noteq> - 1 \<and> t_expired_time tok < w_now w then
              then_do
                (if \<not> cfg_redis (w_cfg w)
                 then ignore_err (SelectUpdate (tok\<lparr>t_status := TokenStatusExpired\<rparr>)) else ret ())
                (fail (Msg ''The token has expired''))
            else if \<not> t_unlimited tok \<and> t_remain_quota tok \<le> 0 then
              then_do
                (if \<not> cfg_redis (w_cfg w)
                 then ignore_err (update_tokens
                   (\<lambda>t. t_id t = t_id tok \<and> t_status t = TokenStatusEnabled \<and> t_remain_quota t \<le> 0 \<and> \<not> t_unlimited t)
                   (\<lambda>t. t\<lparr>t_status := TokenStatusExhausted\<rparr>)) else ret ())
                (fail (Msg ''The token quota has been exhausted''))
            else ret tok)))"

section \<open>Creation, edits and deletion\<close>

definition GetTokenByIds :: "int \<Rightarrow> int \<Rightarrow> token op" where
  "GetTokenByIds i uid =
     (if i = 0 \<or> uid = 0 then fail (Msg ''id or userId is empty!'')
      else first d_tokens (\<lambda>t. t_id t = i \<and> t_user_id t = uid))"

text \<open>
  \<open>Insert\<close>: GORM leaves a zero-valued column that has a declared default to the database, so
  status 0 becomes 1 and expiry 0 becomes \<open>-1\<close>, never. The key column is unique.
\<close>

definition token_defaults :: "token \<Rightarrow> token" where
  "token_defaults t =
     t\<lparr>t_status := (if t_status t = 0 then 1 else t_status t),
       t_expired_time := (if t_expired_time t = 0 then - 1 else t_expired_time t)\<rparr>"

definition Token_Insert :: "token \<Rightarrow> int op" where
  "Token_Insert tok =
     exec (\<lambda>d.
       let row = (token_defaults tok)\<lparr>t_id := (if t_id tok = 0 then next_id (map t_id (d_tokens d)) else t_id tok)\<rparr>
       in case insert_rows d_tokens d_tokens_update (\<lambda>r s. t_id r = t_id s \<or> t_key r = t_key s) (\<lambda>_. [row]) d of
            Inl e \<Rightarrow> Inl e
          | Inr (_, d') \<Rightarrow> Inr (t_id row, d'))"

definition Token_Update :: "token \<Rightarrow> unit op" where
  "Token_Update tok =
     (if t_id tok = 0 then fail (Msg ''WHERE conditions required'')
      else stmt (update_tokens (\<lambda>t. t_id t = t_id tok)
        (\<lambda>t. t\<lparr>t_name := t_name tok, t_status := t_status tok, t_expired_time := t_expired_time tok,
              t_remain_quota := t_remain_quota tok, t_remind_threshold := t_remind_threshold tok,
              t_unlimited := t_unlimited tok\<rparr>)))"

definition Token_Delete :: "token \<Rightarrow> unit op" where
  "Token_Delete tok =
     (if t_id tok = 0 then fail (Msg ''WHERE conditions required'')
      else stmt (delete_where d_tokens d_tokens_update (\<lambda>t. t_id t = t_id tok)))"

definition DeleteTokensByIds :: "int list \<Rightarrow> int \<Rightarrow> unit op" where
  "DeleteTokensByIds ids uid =
     (if ids = [] \<or> uid = 0 then fail (Msg ''The ids list is empty or the userId is invalid'')
      else stmt (delete_where d_tokens d_tokens_update (\<lambda>t. t_id t \<in> set ids \<and> t_user_id t = uid)))"

definition DeleteTokenById :: "int \<Rightarrow> int \<Rightarrow> unit op" where
  "DeleteTokenById i uid =
     (if i = 0 \<or> uid = 0 then fail (Msg ''id or userId is empty!'')
      else on_ok (first d_tokens (\<lambda>t. t_id t = i \<and> t_user_id t = uid)) Token_Delete)"

section \<open>Pre- and post-consumption\<close>

definition UpdateTokenLastNoticeTime :: "int \<Rightarrow> int \<Rightarrow> unit op" where
  "UpdateTokenLastNoticeTime i now =
     stmt (update_tokens (\<lambda>t. t_id t = i) (\<lambda>t. t\<lparr>t_last_notice_time := now\<rparr>))"

definition UpdateUserLastNoticeTime :: "int \<Rightarrow> int \<Rightarrow> unit op" where
  "UpdateUserLastNoticeTime i now =
     stmt (update_users (\<lambda>u. u_id u = i) (\<lambda>u. u\<lparr>u_last_notice_time := now\<rparr>))"

text \<open>Both reminders: fetch the address, send unless it is empty, remember when.\<close>

definition remind :: "int \<Rightarrow> unit op \<Rightarrow> unit op" where
  "remind uid remember =
     on_ok (GetUserEmail uid) (\<lambda>em. if em \<noteq> [] then then_do (send_email em) remember else ret ())"

definition PreConsumeTokenQuota :: "int \<Rightarrow> int \<Rightarrow> unit op" where
  "PreConsumeTokenQuota tid quota =
     (if quota < 0 then fail (Msg ''quota cannot be negative'')
      else on_ok (GetTokenById tid) (\<lambda>tok. reading (\<lambda>w.
        then_do
          (if \<not> t_unlimited tok \<and> wrap64 (t_remain_quota tok - quota) < t_remind_threshold tok \<and>
              3600 < wrap64 (w_now w - t_last_notice_time tok)
           then remind (t_user_id tok) (UpdateTokenLastNoticeTime tid (w_now w)) else ret ())
        (if \<not> t_unlimited tok \<and> t_remain_quota tok < quota then fail (Msg ''Insufficient token amount'')
         else on_ok (GetUserById (t_user_id tok)) (\<lambda>u.
              on_ok (GetUserQuota (t_user_id tok)) (\<lambda>uq.
              if uq < quota then fail (Msg ''Insufficient user quota'')
              else then_do
                (if ((u_remind_threshold u \<le> uq \<and> wrap64 (uq - quota) < u_remind_threshold u) \<or>
                     wrap64 (uq - quota) \<le> 0) \<and>
                    3600 < wrap64 (w_now w - u_last_notice_time u)
                 then remind (t_user_id tok) (UpdateUserLastNoticeTime (t_user_id tok) (w_now w)) else ret ())
                (then_do (DecreaseTokenQuota tid quota) (DecreaseUserQuota (t_user_id tok) quota))))))))"

text \<open>
  The error of \<open>GetTokenById\<close> is overwritten before it is looked at: with a missing row the
  user is 0, with identifier 0 the token is nil and the field access panics.
\<close>

definition PostConsumeTokenQuota :: "int \<Rightarrow> int \<Rightarrow> unit op" where
  "PostConsumeTokenQuota tid quota =
     (if tid = 0 then fail Panic
      else on_result (GetTokenById tid) (\<lambda>r.
        let uid = (case r of Inl _ \<Rightarrow> 0 | Inr tok \<Rightarrow> t_user_id tok)
        in then_do
          (if 0 < quota then DecreaseUserQuota uid quota else IncreaseUserQuota uid (wrap64 (- quota)))
          (if 0 < quota then DecreaseTokenQuota tid quota else IncreaseTokenQuota tid (wrap64 (- quota)))))"

section \<open>Validation accepts exactly the usable tokens\<close>

text \<open>
  With no Redis and no failing statement, a key is accepted exactly when it is not empty,
  a token has it, and that token is enabled, not expired, and unlimited or with quota left. A
  validation changes no column of any token but its status.
\<close>

theorem ValidateUserToken_accepts:
  assumes "w_faults w = []" "\<not> w_aborted w" "\<not> cfg_redis (w_cfg w)"
  shows "(fst (ValidateUserToken key w) = Inr t \<longleftrightarrow>
      key \<noteq> [] \<and> List.find (\<lambda>t. t_key t = key) (d_tokens (w_db w)) = Some t \<and>
      t_status t = TokenStatusEnabled \<and> (t_expired_time t = - 1 \<or> w_now w \<le> t_expired_time t) \<and>
      (t_unlimited t \<or> 0 < t_remain_quota t)) \<and>
    (keys_ok (w_db w) \<longrightarrow>
      map (\<lambda>t. t\<lparr>t_status := 0\<rparr>) (d_tokens (w_db (snd (ValidateUserToken key w))))
        = map (\<lambda>t. t\<lparr>t_status := 0\<rparr>) (d_tokens (w_db w)))"
proof (cases "List.find (\<lambda>t. t_key t = key) (d_tokens (w_db w))")
  case None
  with assms show ?thesis
    by (simp add: ValidateUserToken_def CacheGetTokenByKey_def go_simps first_reliable)
next
  case (Some x)
  have keep: "map (\<lambda>t. t\<lparr>t_status := 0\<rparr>) (update_rows p (\<lambda>t. t\<lparr>t_status := s\<rparr>) ts)
      = map (\<lambda>t. t\<lparr>t_status := 0\<rparr>) ts" for p s ts
    by (simp add: update_rows_def)
  have keep': "keys_ok (w_db w) \<Longrightarrow> map (\<lambda>t. t\<lparr>t_status := 0\<rparr>)
      (update_rows (\<lambda>t. t_id t = t_id x) (\<lambda>t. t\<lparr>t_accessed_time := t_accessed_time x, t_status := s\<rparr>) (d_tokens (w_db w)))
      = map (\<lambda>t. t\<lparr>t_status := 0\<rparr>) (d_tokens (w_db w))" for s
  proof -
    assume k: "keys_ok (w_db w)"
    have "t = x" if "t \<in> set (d_tokens (w_db w))" "t_id t = t_id x" for t
      using that find_SomeD [OF Some] keys_okD(2) [OF k] by (auto simp: distinct_map inj_on_def)
    then have "t\<lparr>t_accessed_time := t_accessed_time x, t_status := 0\<rparr> = t\<lparr>t_status := 0\<rparr>"
      if "t \<in> set (d_tokens (w_db w))" "t_id t = t_id x" for t
      using that by (cases x) force
    then show ?thesis by (simp add: update_rows_def)
  qed
  have c: "CacheGetTokenByKey key w = (Inr x, w)"
    using assms Some by (simp add: CacheGetTokenByKey_def go_simps first_reliable)
  note run = ValidateUserToken_def c go_simps SelectUpdate_def stmt_def update_where_reliable
  show ?thesis
  proof (cases "key = [] \<or> t_status x \<noteq> TokenStatusEnabled")
    case True
    then show ?thesis using Some by (auto simp: run status_defs)
  next
    case False
    then have st: "key \<noteq> []" "t_status x = TokenStatusEnabled" "t_status x \<noteq> TokenStatusExhausted"
      "t_status x \<noteq> TokenStatusExpired" by (auto simp: status_defs)
    show ?thesis
    proof (cases "t_expired_time x \<noteq> - 1 \<and> t_expired_time x < w_now w")
      case True
      then show ?thesis using Some st assms keep' by (auto simp: run)
    next
      case False
      then show ?thesis using Some st assms keep by (auto simp: run)
    qed
  qed
qed

text \<open>A world with one usable and one expired token.\<close>

theorem ValidateUserToken_accepts_witness:
  "fst (ValidateUserToken ''sk-a'' (world_with (empty_db\<lparr>d_tokens :=
      [blank_token\<lparr>t_id := 1, t_key := ''sk-a'', t_remain_quota := 5\<rparr>]\<rparr>) 77))
     = Inr (blank_token\<lparr>t_id := 1, t_key := ''sk-a'', t_remain_quota := 5\<rparr>)"
proof -
  let ?w = "world_with (empty_db\<lparr>d_tokens := [blank_token\<lparr>t_id := 1, t_key := ''sk-a'', t_remain_quota := 5\<rparr>]\<rparr>) 77"
  have h: "w_faults ?w = []" "\<not> w_aborted ?w" "\<not> cfg_redis (w_cfg ?w)" by (simp_all add: start_defs)
  from ValidateUserToken_accepts [OF h, of "''sk-a''" "blank_token\<lparr>t_id := 1, t_key := ''sk-a'', t_remain_quota := 5\<rparr>"]
  show ?thesis by (simp add: start_defs status_defs)
qed

section \<open>Pre- and post-consumption move both balances\<close>

definition quota_at :: "db \<Rightarrow> int \<Rightarrow> int option" where
  "quota_at d i = map_option u_quota (user_of d i)"

definition remain_at :: "db \<Rightarrow> int \<Rightarrow> int option" where
  "remain_at d i = map_option t_remain_quota (token_of d i)"

definition owner_at :: "db \<Rightarrow> int \<Rightarrow> int option" where
  "owner_at d i = map_option t_user_id (token_of d i)"

text \<open>Two worlds with the same balances, owners and configuration.\<close>

definition same_money :: "world \<Rightarrow> world \<Rightarrow> bool" where
  "same_money w w' \<longleftrightarrow> keys_ok (w_db w') = keys_ok (w_db w) \<and> w_cfg w' = w_cfg w \<and>
     quota_at (w_db w') = quota_at (w_db w) \<and> remain_at (w_db w') = remain_at (w_db w) \<and>
     owner_at (w_db w') = owner_at (w_db w)"

lemma same_money_trans: "same_money a b \<Longrightarrow> same_money b c \<Longrightarrow> same_money a c"
  by (simp add: same_money_def)

lemma same_money_faults [simp]: "same_money w (w\<lparr>w_faults := fs\<rparr>)"
  by (simp add: same_money_def)

lemma first_same: "first tbl p w = (Inr x, w') \<Longrightarrow> same_money w w'"
  by (auto elim: first_Inr)

lemma query_same: "query f w = (Inr x, w') \<Longrightarrow> same_money w w'"
  by (auto elim: query_Inr)

lemma update_rows_same_key:
  assumes "\<And>r. key (u r) = key r" "\<And>r. g (u r) = g r"
  shows "map_option g (List.find (\<lambda>r. key r = i) (update_rows p u rs)) = map_option g (List.find (\<lambda>r. key r = i) rs)"
  by (induction rs) (auto simp: update_rows_def assms)

lemma send_email_same: "send_email em w = (Inr (), w') \<Longrightarrow> same_money w w'"
  by (auto simp: send_email_def take_fault_def same_money_def split: prod.splits if_splits list.splits)

lemma remind_same:
  assumes "remind uid rem w = (Inr (), w')"
    and rem: "\<And>w1 w2. rem w1 = (Inr (), w2) \<Longrightarrow> same_money w1 w2"
  shows "same_money w w'"
proof -
  obtain em w1 where q: "GetUserEmail uid w = (Inr em, w1)"
    and k: "(if em \<noteq> [] then then_do (send_email em) rem else ret ()) w1 = (Inr (), w')"
    using assms(1) unfolding remind_def by blast
  have "same_money w w1" using q unfolding GetUserEmail_def by (rule query_same)
  moreover have "same_money w1 w'"
    using k by (auto dest!: send_email_same rem split: if_splits elim: same_money_trans simp: same_money_def)
  ultimately show ?thesis by (rule same_money_trans)
qed

lemma notice_same:
  "UpdateTokenLastNoticeTime i now w1 = (Inr (), w2) \<Longrightarrow> same_money w1 w2"
  "UpdateUserLastNoticeTime i now w1 = (Inr (), w2) \<Longrightarrow> same_money w1 w2"
  by (auto simp: UpdateTokenLastNoticeTime_def UpdateUserLastNoticeTime_def same_money_def quota_at_def
      remain_at_def owner_at_def user_of_def token_of_def update_rows_same_key keys_ok_def fun_eq_iff
      elim!: stmt_Inr update_where_Inr)

lemma maybe_remind_same:
  assumes "(if b then remind uid (UpdateTokenLastNoticeTime i now) else ret ()) w = (Inr (), w')"
  shows "same_money w w'"
  using assms remind_same [OF _ notice_same(1)] by (auto split: if_splits simp: same_money_def)

lemma maybe_remind_user_same:
  assumes "(if b then remind uid (UpdateUserLastNoticeTime i now) else ret ()) w = (Inr (), w')"
  shows "same_money w w'"
  using assms remind_same [OF _ notice_same(2)] by (auto split: if_splits simp: same_money_def)

text \<open>The immediate changes of a balance.\<close>

definition user_moved :: "int \<Rightarrow> int \<Rightarrow> world \<Rightarrow> world \<Rightarrow> bool" where
  "user_moved i v w w' \<longleftrightarrow> keys_ok (w_db w') \<and> w_cfg w' = w_cfg w \<and>
     quota_at (w_db w') = (quota_at (w_db w))(i := map_option (\<lambda>x. x + v) (quota_at (w_db w) i)) \<and>
     remain_at (w_db w') = remain_at (w_db w) \<and> owner_at (w_db w') = owner_at (w_db w)"

definition token_moved :: "int \<Rightarrow> int \<Rightarrow> world \<Rightarrow> world \<Rightarrow> bool" where
  "token_moved i v w w' \<longleftrightarrow> keys_ok (w_db w') \<and> w_cfg w' = w_cfg w \<and>
     remain_at (w_db w') = (remain_at (w_db w))(i := map_option (\<lambda>x. x + v) (remain_at (w_db w) i)) \<and>
     quota_at (w_db w') = quota_at (w_db w) \<and> owner_at (w_db w') = owner_at (w_db w)"

lemma user_update_moves:
  assumes "update_users (\<lambda>u. u_id u = i) (add_quota v) w = (Inr n, w')" "keys_ok (w_db w)"
  shows "user_moved i v w w'"
proof -
  from assms(1) obtain fs where
    w': "w' = w\<lparr>w_faults := fs, w_db := d_users_update (update_rows (\<lambda>u. u_id u = i) (add_quota v)) (w_db w)\<rparr>"
    by (rule update_where_Inr)
  show ?thesis using assms(2) keys_okD(1) [OF assms(2)] unfolding w' user_moved_def
    by (auto simp: keys_ok_def quota_at_def remain_at_def owner_at_def user_of_def token_of_def fun_eq_iff
        update_rows_find1 option.map_comp comp_def)
qed

lemma token_update_moves:
  assumes "update_tokens (\<lambda>t. t_id t = i) (add_remain now v) w = (Inr n, w')" "keys_ok (w_db w)"
  shows "token_moved i v w w'"
proof -
  from assms(1) obtain fs where
    w': "w' = w\<lparr>w_faults := fs, w_db := d_tokens_update (update_rows (\<lambda>t. t_id t = i) (add_remain now v)) (w_db w)\<rparr>"
    by (rule update_where_Inr)
  have r: "t_remain_quota (add_remain now v t) = t_remain_quota t + v" for t by (simp add: add_remain_def)
  show ?thesis using assms(2) keys_okD(2) [OF assms(2)] unfolding w' token_moved_def
    by (auto simp: keys_ok_def quota_at_def remain_at_def owner_at_def user_of_def token_of_def fun_eq_iff
        update_rows_find1 option.map_comp comp_def r)
qed

lemma user_quota_moves:
  assumes "\<not> cfg_batch_update (w_cfg w)" "keys_ok (w_db w)"
  shows "DecreaseUserQuota i q w = (Inr (), w') \<Longrightarrow> user_moved i (- q) w w' \<and> 0 \<le> q"
    and "IncreaseUserQuota i q w = (Inr (), w') \<Longrightarrow> user_moved i q w w' \<and> 0 \<le> q"
  using assms user_update_moves
  by (auto simp: DecreaseUserQuota_def decreaseUserQuota0_def IncreaseUserQuota_def increaseUserQuota0_def
      reading_def elim!: stmt_Inr split: if_splits)

lemma token_quota_moves:
  assumes "\<not> cfg_batch_update (w_cfg w)" "keys_ok (w_db w)"
  shows "DecreaseTokenQuota i q w = (Inr (), w') \<Longrightarrow> token_moved i (- q) w w' \<and> 0 \<le> q"
    and "IncreaseTokenQuota i q w = (Inr (), w') \<Longrightarrow> token_moved i q w w' \<and> 0 \<le> q"
  using assms token_update_moves
  by (auto simp: DecreaseTokenQuota_def decreaseTokenQuota0_def IncreaseTokenQuota_def increaseTokenQuota0_def
      reading_def elim!: stmt_Inr split: if_splits)

text \<open>Both balances moved by \<open>v\<close>, nothing else.\<close>

definition both_moved :: "int \<Rightarrow> int \<Rightarrow> int \<Rightarrow> world \<Rightarrow> world \<Rightarrow> bool" where
  "both_moved uid tid v w w' \<longleftrightarrow> keys_ok (w_db w') \<and> w_cfg w' = w_cfg w \<and>
     quota_at (w_db w') = (quota_at (w_db w))(uid := map_option (\<lambda>x. x + v) (quota_at (w_db w) uid)) \<and>
     remain_at (w_db w') = (remain_at (w_db w))(tid := map_option (\<lambda>x. x + v) (remain_at (w_db w) tid)) \<and>
     owner_at (w_db w') = owner_at (w_db w)"

lemma PreConsume_moves:
  assumes "PreConsumeTokenQuota tid q w = (Inr (), w')" "\<not> cfg_batch_update (w_cfg w)" "keys_ok (w_db w)"
  shows "\<exists>t. token_of (w_db w) tid = Some t \<and> 0 \<le> q \<and> (t_unlimited t \<or> q \<le> t_remain_quota t) \<and>
    both_moved (t_user_id t) tid (- q) w w'"
proof -
  have q: "0 \<le> q" using assms(1) by (auto simp: PreConsumeTokenQuota_def split: if_splits)
  obtain t w1 where t: "GetTokenById tid w = (Inr t, w1)"
    and rest: "reading (\<lambda>w.
        then_do
          (if \<not> t_unlimited t \<and> wrap64 (t_remain_quota t - q) < t_remind_threshold t \<and>
              3600 < wrap64 (w_now w - t_last_notice_time t)
           then remind (t_user_id t) (UpdateTokenLastNoticeTime tid (w_now w)) else ret ())
        (if \<not> t_unlimited t \<and> t_remain_quota t < q then fail (Msg ''Insufficient token amount'')
         else on_ok (GetUserById (t_user_id t)) (\<lambda>u.
              on_ok (GetUserQuota (t_user_id t)) (\<lambda>uq.
              if uq < q then fail (Msg ''Insufficient user quota'')
              else then_do
                (if ((u_remind_threshold u \<le> uq \<and> wrap64 (uq - q) < u_remind_threshold u) \<or>
                     wrap64 (uq - q) \<le> 0) \<and>
                    3600 < wrap64 (w_now w - u_last_notice_time u)
                 then remind (t_user_id t) (UpdateUserLastNoticeTime (t_user_id t) (w_now w)) else ret ())
                (then_do (DecreaseTokenQuota tid q) (DecreaseUserQuota (t_user_id t) q)))))) w1 = (Inr (), w')"
    using assms(1) q unfolding PreConsumeTokenQuota_def by (auto simp del: op_defs elim!: on_ok_Inr)
  obtain w2 where r1: "(if \<not> t_unlimited t \<and> wrap64 (t_remain_quota t - q) < t_remind_threshold t \<and>
              3600 < wrap64 (w_now w1 - t_last_notice_time t)
           then remind (t_user_id t) (UpdateTokenLastNoticeTime tid (w_now w1)) else ret ()) w1 = (Inr (), w2)"
    and enough: "t_unlimited t \<or> q \<le> t_remain_quota t"
    and rest2: "on_ok (GetUserById (t_user_id t)) (\<lambda>u.
              on_ok (GetUserQuota (t_user_id t)) (\<lambda>uq.
              if uq < q then fail (Msg ''Insufficient user quota'')
              else then_do
                (if ((u_remind_threshold u \<le> uq \<and> wrap64 (uq - q) < u_remind_threshold u) \<or>
                     wrap64 (uq - q) \<le> 0) \<and>
                    3600 < wrap64 (w_now w1 - u_last_notice_time u)
                 then remind (t_user_id t) (UpdateUserLastNoticeTime (t_user_id t) (w_now w1)) else ret ())
                (then_do (DecreaseTokenQuota tid q) (DecreaseUserQuota (t_user_id t) q)))) w2 = (Inr (), w')"
    using rest unfolding reading_def by (elim then_do_Inr) (auto split: if_splits)
  obtain u uq w3 w4 w5 w6 where r3: "GetUserById (t_user_id t) w2 = (Inr u, w3)"
    "GetUserQuota (t_user_id t) w3 = (Inr uq, w4)"
    and r5: "(if ((u_remind_threshold u \<le> uq \<and> wrap64 (uq - q) < u_remind_threshold u) \<or>
                     wrap64 (uq - q) \<le> 0) \<and>
                    3600 < wrap64 (w_now w1 - u_last_notice_time u)
                 then remind (t_user_id t) (UpdateUserLastNoticeTime (t_user_id t) (w_now w1)) else ret ()) w4 = (Inr (), w5)"
    and r6: "DecreaseTokenQuota tid q w5 = (Inr (), w6)" "DecreaseUserQuota (t_user_id t) q w6 = (Inr (), w')"
    using rest2 by (elim on_ok_Inr) (auto split: if_splits elim!: then_do_Inr)
  have "same_money w w1" "token_of (w_db w) tid = Some t"
    using t by (auto simp: GetTokenById_def token_of_def same_money_def split: if_splits elim!: first_Inr)
  moreover have "same_money w2 w3" using r3(1) by (auto simp: GetUserById_def split: if_splits dest: first_same)
  moreover have "same_money w3 w4" using r3(2) by (auto simp: GetUserQuota_def dest: query_same)
  ultimately have s: "same_money w w5" "token_of (w_db w) tid = Some t"
    using maybe_remind_same [OF r1] maybe_remind_user_same [OF r5] same_money_trans by blast+
  have w5: "\<not> cfg_batch_update (w_cfg w5)" "keys_ok (w_db w5)" using s(1) assms(2,3) by (simp_all add: same_money_def)
  have m5: "token_moved tid (- q) w5 w6" using token_quota_moves(1) [OF w5 r6(1)] by simp
  then have w6: "\<not> cfg_batch_update (w_cfg w6)" "keys_ok (w_db w6)" using w5 by (simp_all add: token_moved_def)
  have m6: "user_moved (t_user_id t) (- q) w6 w'" using user_quota_moves(1) [OF w6 r6(2)] by simp
  have "both_moved (t_user_id t) tid (- q) w w'"
    using s(1) m5 m6 unfolding both_moved_def same_money_def token_moved_def user_moved_def by simp
  then show ?thesis using q enough s(2) by auto
qed

lemma PostConsume_moves:
  assumes "PostConsumeTokenQuota tid q w = (Inr (), w')" "\<not> cfg_batch_update (w_cfg w)" "keys_ok (w_db w)"
    and "GetTokenById tid w = (Inr t, w1)" "in_int64 q" "q \<noteq> min_int64"
  shows "both_moved (t_user_id t) tid (- q) w w'"
proof -
  have neg: "wrap64 (- q) = - q" using assms(5,6) by (simp add: in_int64_def min_int64_def max_int64_def)
  obtain w2 where
    u: "(if 0 < q then DecreaseUserQuota (t_user_id t) q else IncreaseUserQuota (t_user_id t) (- q)) w1 = (Inr (), w2)"
    and t: "(if 0 < q then DecreaseTokenQuota tid q else IncreaseTokenQuota tid (- q)) w2 = (Inr (), w')"
    using assms(1,4) unfolding PostConsumeTokenQuota_def
    by (auto simp: neg Let_def split: if_splits elim!: on_result_eq then_do_Inr)
  have s: "same_money w w1"
    using assms(4) by (auto simp: GetTokenById_def split: if_splits dest: first_same)
  then have w1: "\<not> cfg_batch_update (w_cfg w1)" "keys_ok (w_db w1)" using assms(2,3) by (simp_all add: same_money_def)
  have m1: "user_moved (t_user_id t) (- q) w1 w2"
    using u user_quota_moves [OF w1] by (auto split: if_splits)
  then have w2: "\<not> cfg_batch_update (w_cfg w2)" "keys_ok (w_db w2)" using w1 by (simp_all add: user_moved_def)
  have m2: "token_moved tid (- q) w2 w'"
    using t token_quota_moves [OF w2] by (auto split: if_splits)
  show ?thesis
    using s m1 m2 unfolding both_moved_def same_money_def token_moved_def user_moved_def by simp
qed

text \<open>
  With batching off, pre-consuming an estimate and post-consuming the difference to the
  actual price charges the actual price: when both calls succeed, the user's and the token's
  balance are lower by exactly \<open>actual\<close>, and no other balance moved. Reminder mails sent on the
  way do not change that.
\<close>

theorem pre_then_post_consume:
  assumes "\<not> cfg_batch_update (w_cfg w)" "keys_ok (w_db w)" "in_int64 (actual - estimate)"
    and "actual - estimate \<noteq> min_int64"
    and "PreConsumeTokenQuota tid estimate w = (Inr (), w1)"
    and "GetTokenById tid w1 = (Inr t, w1')"
    and "PostConsumeTokenQuota tid (actual - estimate) w1 = (Inr (), w2)"
  shows "quota_at (w_db w2) = (quota_at (w_db w))(t_user_id t := map_option (\<lambda>x. x - actual) (quota_at (w_db w) (t_user_id t))) \<and>
    remain_at (w_db w2) = (remain_at (w_db w))(tid := map_option (\<lambda>x. x - actual) (remain_at (w_db w) tid))"
proof -
  obtain t0 where t0: "token_of (w_db w) tid = Some t0" "both_moved (t_user_id t0) tid (- estimate) w w1"
    using PreConsume_moves [OF assms(5,1,2)] by blast
  have w1: "\<not> cfg_batch_update (w_cfg w1)" "keys_ok (w_db w1)" using t0(2) assms(1) by (simp_all add: both_moved_def)
  have "token_of (w_db w1) tid = Some t"
    using assms(6) by (auto simp: GetTokenById_def token_of_def split: if_splits elim!: first_Inr)
  moreover have "owner_at (w_db w1) tid = owner_at (w_db w) tid" using t0(2) by (simp add: both_moved_def)
  ultimately have u: "t_user_id t = t_user_id t0" using t0(1) by (simp add: owner_at_def)
  have "both_moved (t_user_id t) tid (- (actual - estimate)) w1 w2"
    using PostConsume_moves [OF assms(7) w1 assms(6,3,4)] .
  with t0(2) show ?thesis unfolding both_moved_def u by (simp add: option.map_comp comp_def)
qed

theorem pre_then_post_consume_witness:
  "quota_at (w_db (snd (PostConsumeTokenQuota 5 (- 180) (snd (PreConsumeTokenQuota 5 300 (world_with demo_db 77)))))) 1
     = Some 880"
proof -
  let ?w = "world_with demo_db 77"
  let ?w1 = "snd (PreConsumeTokenQuota 5 300 ?w)"
  have h: "\<not> cfg_batch_update (w_cfg ?w)" "keys_ok (w_db ?w)" "in_int64 (120 - 300)" "(120 :: int) - 300 \<noteq> min_int64"
    by (simp_all add: run_simps in_int64_def min_int64_def max_int64_def)
  note run = run_simps PreConsumeTokenQuota_def PostConsumeTokenQuota_def GetTokenById_def GetUserById_def
    GetUserQuota_def DecreaseTokenQuota_def decreaseTokenQuota0_def DecreaseUserQuota_def decreaseUserQuota0_def
    IncreaseTokenQuota_def increaseTokenQuota0_def IncreaseUserQuota_def increaseUserQuota0_def
    add_quota_def add_remain_def wrap64_def
  have p: "PreConsumeTokenQuota 5 300 ?w = (Inr (), ?w1)" by (simp add: run)
  have g: "GetTokenById 5 ?w1 = (Inr (blank_token\<lparr>t_id := 5, t_user_id := 1, t_remain_quota := 400,
      t_used_quota := 300, t_accessed_time := 77\<rparr>), ?w1)" by (simp add: run)
  have q: "PostConsumeTokenQuota 5 (120 - 300) ?w1 = (Inr (), snd (PostConsumeTokenQuota 5 (120 - 300) ?w1))"
    by (simp add: run)
  from pre_then_post_consume [OF h p g q] show ?thesis
    by (simp add: quota_at_def run_simps)
qed

end
