(* ===== verification/UserCache.thy ===== *)
theory UserCache
  imports Tokens
begin

text \<open>
  The Redis caches of \<open>model/cache.go\<close> in front of the user table: balance, group and enabled
  flag, each under its own key with the synchronisation period as its life time.
\<close>

definition quota_key :: "int \<Rightarrow> string" where
  "quota_key i = ''user_quota:'' @ itoa i"

definition group_key :: "int \<Rightarrow> string" where
  "group_key i = ''user_group:'' @ itoa i"

definition enabled_key :: "int \<Rightarrow> string" where
  "enabled_key i = ''user_enabled:'' @ itoa i"

definition CacheGetUserGroup :: "int \<Rightarrow> string op" where
  "CacheGetUserGroup i =
     reading (\<lambda>w.
       if \<not> cfg_redis (w_cfg w) then GetUserGroup i
       else on_result (RedisGet (group_key i)) (\<lambda>r.
         case r of
           Inr g \<Rightarrow> ret g
         | Inl _ \<Rightarrow> on_ok (GetUserGroup i) (\<lambda>g.
             on_result (RedisSet (group_key i) g (cfg_sync_frequency (w_cfg w))) (\<lambda>s.
             case s of Inl e \<Rightarrow> fail e | Inr _ \<Rightarrow> ret g))))"

definition InvalidateUserGroupCache :: "int \<Rightarrow> unit op" where
  "InvalidateUserGroupCache i =
     reading (\<lambda>w. if i \<le> 0 \<or> \<not> cfg_redis (w_cfg w) then ret () else ignore_err (RedisDel (group_key i)))"

definition fetchAndUpdateUserQuota :: "int \<Rightarrow> int op" where
  "fetchAndUpdateUserQuota i =
     on_ok (GetUserQuota i) (\<lambda>q. reading (\<lambda>w.
       on_result (RedisSet (quota_key i) (itoa q) (cfg_sync_frequency (w_cfg w))) (\<lambda>s.
       case s of Inl e \<Rightarrow> fail e | Inr _ \<Rightarrow> ret q)))"

definition CacheGetUserQuota :: "int \<Rightarrow> int op" where
  "CacheGetUserQuota i =
     reading (\<lambda>w.
       if \<not> cfg_redis (w_cfg w) then GetUserQuota i
       else on_result (RedisGet (quota_key i)) (\<lambda>r.
         case r of
           Inl _ \<Rightarrow> fetchAndUpdateUserQuota i
         | Inr s \<Rightarrow>
             (case parse_int64 s of
                None \<Rightarrow> ret 0
              | Some q \<Rightarrow> if q \<le> cfg_pre_consumed (w_cfg w) then fetchAndUpdateUserQuota i else ret q)))"

definition CacheUpdateUserQuota :: "int \<Rightarrow> unit op" where
  "CacheUpdateUserQuota i =
     reading (\<lambda>w.
       if \<not> cfg_redis (w_cfg w) then ret ()
       else on_ok (CacheGetUserQuota i) (\<lambda>q. RedisSet (quota_key i) (itoa q) (cfg_sync_frequency (w_cfg w))))"

definition CacheUpdateUserQuota2 :: "int \<Rightarrow> unit op" where
  "CacheUpdateUserQuota2 i =
     reading (\<lambda>w.
       if \<not> cfg_redis (w_cfg w) then ret ()
       else on_ok (GetUserQuota i) (\<lambda>q. RedisSet (quota_key i) (itoa q) (cfg_sync_frequency (w_cfg w))))"

definition CacheDecreaseUserQuota :: "int \<Rightarrow> int \<Rightarrow> unit op" where
  "CacheDecreaseUserQuota i q =
     reading (\<lambda>w. if \<not> cfg_redis (w_cfg w) then ret () else RedisDecrease (quota_key i) q)"

definition CacheIsUserEnabled :: "int \<Rightarrow> bool op" where
  "CacheIsUserEnabled i =
     reading (\<lambda>w.
       if \<not> cfg_redis (w_cfg w) then IsUserEnabled i
       else on_result (RedisGet (enabled_key i)) (\<lambda>r.
         case r of
           Inr s \<Rightarrow> ret (s = ''1'')
         | Inl _ \<Rightarrow> on_ok (IsUserEnabled i) (\<lambda>b.
             on_result (RedisSet (enabled_key i) (if b then ''1'' else ''0'') (cfg_sync_frequency (w_cfg w))) (\<lambda>s.
             case s of Inl e \<Rightarrow> fail e | Inr _ \<Rightarrow> ret b))))"

section \<open>What a reader sees\<close>

definition db_quota :: "db \<Rightarrow> int \<Rightarrow> int" where
  "db_quota d i = (case user_of d i of None \<Rightarrow> 0 | Some u \<Rightarrow> u_quota u)"

lemma GetUserQuota_reliable:
  "w_faults w = [] \<Longrightarrow> \<not> w_aborted w \<Longrightarrow> GetUserQuota i w = (Inr (db_quota (w_db w) i), w)"
  by (simp add: GetUserQuota_def query_reliable db_quota_def)

lemma RedisSet_reliable:
  "w_faults w = [] \<Longrightarrow> cfg_redis (w_cfg w) \<Longrightarrow>
   RedisSet k v ttl w = (Inr (), w\<lparr>w_redis := (w_redis w)(k \<mapsto> (v, if ttl = 0 then None else Some (w_now w + ttl)))\<rparr>)"
  by (simp add: RedisSet_def redis_cmd_def)

lemma RedisGet_reliable:
  "w_faults w = [] \<Longrightarrow> cfg_redis (w_cfg w) \<Longrightarrow>
   RedisGet k w = (case live (w_now w) (w_redis w k) of None \<Rightarrow> (Inl (Msg ''redis: nil''), w) | Some v \<Rightarrow> (Inr v, w))"
  by (simp add: RedisGet_def redis_cmd_def)

text \<open>
  After a refresh the cached read of a balance is the balance of the database, through the
  decimal text that Redis holds: a balance above the pre-consumption threshold comes from the
  cache, a lower one is read again.
\<close>

theorem refreshed_cache_reads_db:
  assumes "w_faults w = []" "\<not> w_aborted w" "cfg_redis (w_cfg w)" "0 < cfg_sync_frequency (w_cfg w)"
    and "in_int64 (db_quota (w_db w) i)"
  shows "fst (CacheGetUserQuota i (snd (CacheUpdateUserQuota2 i w))) = Inr (db_quota (w_db w) i)"
  using assms
  by (simp add: CacheUpdateUserQuota2_def CacheGetUserQuota_def fetchAndUpdateUserQuota_def go_simps
      GetUserQuota_reliable RedisSet_reliable RedisGet_reliable live_def parse_itoa)

theorem refreshed_cache_reads_db_witness:
  "fst (CacheGetUserQuota 1 (snd (CacheUpdateUserQuota2 1
     ((world_with demo_db 77)\<lparr>w_cfg := default_config\<lparr>cfg_redis := True\<rparr>\<rparr>)))) = Inr 1000"
proof -
  let ?w = "(world_with demo_db 77)\<lparr>w_cfg := default_config\<lparr>cfg_redis := True\<rparr>\<rparr>"
  have h: "w_faults ?w = []" "\<not> w_aborted ?w" "cfg_redis (w_cfg ?w)" "0 < cfg_sync_frequency (w_cfg ?w)"
    "in_int64 (db_quota (w_db ?w) 1)" "db_quota (w_db ?w) 1 = 1000"
    by (simp_all add: run_simps db_quota_def in_int64_def min_int64_def max_int64_def)
  from refreshed_cache_reads_db [OF h(1-5)] h(6) show ?thesis by simp
qed

text \<open>
  With Redis configured but unreachable the read falls back to the database and then returns
  the error of its attempt to fill the cache, so the caller gets no balance.
\<close>

theorem cache_outage_hides_balance:
  "fst (CacheGetUserQuota 1 ((world_with demo_db 77)\<lparr>w_cfg := default_config\<lparr>cfg_redis := True\<rparr>,
     w_faults := [True, False, True]\<rparr>)) = Inl (Msg ''redis'')"
  by (simp add: CacheGetUserQuota_def fetchAndUpdateUserQuota_def GetUserQuota_def RedisGet_def RedisSet_def
      redis_cmd_def run_simps)

end
