(* ===== verification/Commission.thy ===== *)
theory Commission
  imports UserCache
begin

text \<open>
  Referral commissions, \<open>model/aff_commission.go\<close>: granting one inside the transaction of a
  top-up, reversing it inside the transaction of a refund, and the summary of an inviter.
  \<open>isDuplicateKeyError\<close> recognises the result of an insert that the unique index refused.
\<close>

definition SourceTypeStripeCheckout :: string where "SourceTypeStripeCheckout = ''stripe_checkout''"
definition SourceTypeStripeCharge :: string where "SourceTypeStripeCharge = ''stripe_charge''"

definition GetAffCommissionRecordBySourceNo :: "string \<Rightarrow> commission option op" where
  "GetAffCommissionRecordBySourceNo no =
     (if no = [] then ret None
      else on_result (first d_commissions (\<lambda>c. cm_source_no c = no)) (\<lambda>r.
        case r of Inr c \<Rightarrow> ret (Some c) | Inl e \<Rightarrow> if e = NotFound then ret None else fail e))"

definition GetAffCommissionSummary :: "int \<Rightarrow> (int \<times> int) op" where
  "GetAffCommissionSummary i =
     (if i \<le> 0 then ret (0, 0)
      else on_ok (query (\<lambda>d. int (length (filter (\<lambda>c. cm_inviter_id c = i \<and> cm_status c = AffCommissionStatusGranted) (d_commissions d))))) (\<lambda>n.
           on_ok (query (\<lambda>d. sum_list (map cm_commission_quota
                    (filter (\<lambda>c. cm_inviter_id c = i \<and> cm_status c = AffCommissionStatusGranted) (d_commissions d))))) (\<lambda>q.
           ret (q, n))))"

definition GetGroupConfigByKeyTx :: "string \<Rightarrow> group_config op" where
  "GetGroupConfigByKeyTx key = first d_groups (\<lambda>g. g_key g = key)"

definition isDuplicateKeyError :: "gerr \<Rightarrow> bool" where
  "isDuplicateKeyError e \<longleftrightarrow> e = DupKey"

definition create_commission :: "commission \<Rightarrow> unit op" where
  "create_commission c =
     exec (insert_rows d_commissions d_commissions_update (\<lambda>r s. cm_source_no r = cm_source_no s)
       (\<lambda>d. [c\<lparr>cm_id := next_id (map cm_id (d_commissions d))\<rparr>]))"

definition commission_quota :: "config \<Rightarrow> f64 \<Rightarrow> f64 \<Rightarrow> int" where
  "commission_quota cfg amount rate =
     f_to_int64 (math_round (fmul (fmul amount rate) (cfg_quota_per_unit cfg)))"

definition new_commission :: "int \<Rightarrow> f64 \<Rightarrow> int \<Rightarrow> string \<Rightarrow> string \<Rightarrow> user \<Rightarrow> user \<Rightarrow> f64 \<Rightarrow> int \<Rightarrow> int \<Rightarrow> commission" where
  "new_commission inviteeId topupAmount topupQuota sourceType sourceNo invitee inviter rate now q =
     \<lparr>cm_id = 0, cm_inviter_id = u_inviter_id invitee, cm_invitee_id = inviteeId,
      cm_inviter_username = u_username inviter, cm_invitee_username = u_username invitee,
      cm_source_type = sourceType, cm_source_no = sourceNo, cm_topup_amount = topupAmount,
      cm_topup_quota = topupQuota, cm_rate = rate, cm_inviter_group = u_group inviter,
      cm_commission_quota = q, cm_status = AffCommissionStatusGranted, cm_reversed_quota = 0,
      cm_created_at = now, cm_reversed_at = 0\<rparr>"

text \<open>The grant in three steps: for a known invitee, for a known inviter, for a known rate.\<close>

definition grant_at_rate :: "int \<Rightarrow> f64 \<Rightarrow> int \<Rightarrow> string \<Rightarrow> string \<Rightarrow> user \<Rightarrow> user \<Rightarrow> f64 \<Rightarrow> (int \<times> int) op" where
  "grant_at_rate inviteeId topupAmount topupQuota sourceType sourceNo invitee inviter rate =
     reading (\<lambda>w.
       if fle rate fzero then ret (0, 0)
       else let q = commission_quota (w_cfg w) topupAmount rate; inviterId = u_inviter_id invitee
       in if q \<le> 0 then ret (0, 0)
       else on_result (create_commission (new_commission inviteeId topupAmount topupQuota sourceType sourceNo
           invitee inviter rate (w_now w) q)) (\<lambda>r. case r of
         Inl e \<Rightarrow> if isDuplicateKeyError e then ret (0, 0) else fail e
       | Inr _ \<Rightarrow>
         then_do (stmt (update_users (\<lambda>u. u_id u = inviterId) (\<lambda>u. add_gift q (add_quota q u))))
           (ret (inviterId, q))))"

definition grant_by :: "int \<Rightarrow> f64 \<Rightarrow> int \<Rightarrow> string \<Rightarrow> string \<Rightarrow> user \<Rightarrow> user \<Rightarrow> (int \<times> int) op" where
  "grant_by inviteeId topupAmount topupQuota sourceType sourceNo invitee inviter =
     on_result (GetGroupConfigByKeyTx (u_group inviter)) (\<lambda>r. case r of
       Inl e \<Rightarrow> if e = NotFound then ret (0, 0) else fail e
     | Inr gc \<Rightarrow> grant_at_rate inviteeId topupAmount topupQuota sourceType sourceNo invitee inviter (g_commission_rate gc))"

definition grant_from :: "int \<Rightarrow> f64 \<Rightarrow> int \<Rightarrow> string \<Rightarrow> string \<Rightarrow> user \<Rightarrow> (int \<times> int) op" where
  "grant_from inviteeId topupAmount topupQuota sourceType sourceNo invitee =
     (let inviterId = u_inviter_id invitee
      in if inviterId \<le> 0 then ret (0, 0)
      else if inviterId = inviteeId then ret (0, 0)
      else on_result (first d_users (\<lambda>u. u_id u = inviterId)) (\<lambda>r. case r of
        Inl e \<Rightarrow> if e = NotFound then ret (0, 0) else fail e
      | Inr inviter \<Rightarrow> grant_by inviteeId topupAmount topupQuota sourceType sourceNo invitee inviter))"

definition GrantCommission :: "int \<Rightarrow> f64 \<Rightarrow> int \<Rightarrow> string \<Rightarrow> string \<Rightarrow> (int \<times> int) op" where
  "GrantCommission inviteeId topupAmount topupQuota sourceType sourceNo =
     (if inviteeId \<le> 0 \<or> fle topupAmount fzero \<or> sourceNo = [] then ret (0, 0)
      else on_result (first d_users (\<lambda>u. u_id u = inviteeId)) (\<lambda>r. case r of
        Inl e \<Rightarrow> if e = NotFound then ret (0, 0) else fail e
      | Inr invitee \<Rightarrow> grant_from inviteeId topupAmount topupQuota sourceType sourceNo invitee))"

definition markCommissionReversed :: "commission \<Rightarrow> int \<Rightarrow> unit op" where
  "markCommissionReversed rec q =
     reading (\<lambda>w. stmt (update_where d_commissions d_commissions_update (\<lambda>c. cm_id c = cm_id rec)
       (\<lambda>c. c\<lparr>cm_status := AffCommissionStatusReversed, cm_reversed_quota := q, cm_reversed_at := w_now w\<rparr>)))"

text \<open>The amount taken back: the commission, at most the balance, at least nothing.\<close>

definition actual_reverse :: "int \<Rightarrow> int \<Rightarrow> int" where
  "actual_reverse commission balance =
     (let a = (if balance < commission then balance else commission) in if a < 0 then 0 else a)"

definition ReverseCommission :: "string \<Rightarrow> (int \<times> int) op" where
  "ReverseCommission sourceNo =
     (if sourceNo = [] then ret (0, 0)
      else on_result (first d_commissions (\<lambda>c. cm_source_no c = sourceNo)) (\<lambda>r. case r of
        Inl e \<Rightarrow> if e = NotFound then ret (0, 0) else fail e
      | Inr rec \<Rightarrow>
        if cm_status rec \<noteq> AffCommissionStatusGranted then ret (0, 0)
        else on_result (first d_users (\<lambda>u. u_id u = cm_inviter_id rec)) (\<lambda>r. case r of
          Inl e \<Rightarrow> if e = NotFound then then_do (markCommissionReversed rec 0) (ret (cm_inviter_id rec, 0))
                   else fail e
        | Inr inviter \<Rightarrow>
          let q = actual_reverse (cm_commission_quota rec) (u_quota inviter)
          in then_do
            (if 0 < q then stmt (update_users (\<lambda>u. u_id u = cm_inviter_id rec)
                (\<lambda>u. add_gift (- q) (add_quota (- q) u))) else ret ())
            (then_do (markCommissionReversed rec q) (ret (cm_inviter_id rec, q))))))"

section \<open>What a grant does\<close>

definition grant_db :: "int \<Rightarrow> int \<Rightarrow> commission \<Rightarrow> db \<Rightarrow> db" where
  "grant_db inviter q rec d =
     d_users_update (update_rows (\<lambda>u. u_id u = inviter) (\<lambda>u. add_gift q (add_quota q u)))
       (d_commissions_update (\<lambda>cs. cs @ [rec]) d)"

definition granted :: "db \<Rightarrow> db \<Rightarrow> int \<Rightarrow> int \<Rightarrow> string \<Rightarrow> bool" where
  "granted d d' inviter q no \<longleftrightarrow>
     0 < inviter \<and> 0 < q \<and> user_of d inviter \<noteq> None \<and> (\<forall>c\<in>set (d_commissions d). cm_source_no c \<noteq> no) \<and>
     (\<exists>rec. cm_source_no rec = no \<and> cm_inviter_id rec = inviter \<and> cm_commission_quota rec = q \<and>
        cm_status rec = AffCommissionStatusGranted \<and> cm_id rec = next_id (map cm_id (d_commissions d)) \<and>
        d' = grant_db inviter q rec d)"

lemma create_commission_result:
  assumes "create_commission c w = (r, w')"
  shows "touched w w' (w_db w')"
    and "r = Inr () \<Longrightarrow> (\<forall>x\<in>set (d_commissions (w_db w)). cm_source_no x \<noteq> cm_source_no c) \<and>
      w_db w' = d_commissions_update (\<lambda>cs. cs @ [c\<lparr>cm_id := next_id (map cm_id (d_commissions (w_db w)))\<rparr>]) (w_db w)"
    and "r = Inl e \<Longrightarrow> w_db w' = w_db w"
  using exec_touched [OF assms [unfolded create_commission_def]]
  by (auto simp: insert_rows_def list_ex_iff split: if_splits)

lemma grant_credit:
  assumes "then_do (stmt (update_users (\<lambda>u. u_id u = i) (\<lambda>u. add_gift q (add_quota q u)))) (ret (i, q)) w = (Inr x, w')"
  shows "x = (i, q) \<and> touched w w'
    (d_users_update (update_rows (\<lambda>u. u_id u = i) (\<lambda>u. add_gift q (add_quota q u))) (w_db w))"
proof -
  obtain n where "update_users (\<lambda>u. u_id u = i) (\<lambda>u. add_gift q (add_quota q u)) w = (Inr n, w')" and x: "x = (i, q)"
    using assms by (auto elim!: stmt_Inr)
  from update_where_touched [OF this(1)] x show ?thesis by auto
qed

definition grant_outcome :: "string \<Rightarrow> world \<Rightarrow> gerr + int \<times> int \<Rightarrow> world \<Rightarrow> bool" where
  "grant_outcome no w r w' \<longleftrightarrow> touched w w' (w_db w') \<and>
     (\<forall>i q. r = Inr (i, q) \<longrightarrow> (i = 0 \<and> q = 0 \<and> w_db w' = w_db w) \<or> granted (w_db w) (w_db w') i q no) \<and>
     ((\<exists>c\<in>set (d_commissions (w_db w)). cm_source_no c = no) \<longrightarrow> w_db w' = w_db w)"

lemma grant_outcome_same: "touched w w' (w_db w) \<Longrightarrow> r = Inr (0, 0) \<or> (\<exists>e. r = Inl e) \<Longrightarrow> grant_outcome no w r w'"
  using touchedD(1) [of w w' "w_db w"] by (auto simp: grant_outcome_def)

lemma grant_outcome_err:
  "touched w w1 (w_db w) \<Longrightarrow> (if e = NotFound then ret (0, 0) else fail e) w1 = (r, w') \<Longrightarrow> grant_outcome no w r w'"
  by (rule grant_outcome_same) (auto split: if_splits)

lemma grant_insert_outcome:
  assumes "on_result (create_commission c) (\<lambda>r. case r of
              Inl e \<Rightarrow> if isDuplicateKeyError e then ret (0, 0) else fail e
            | Inr _ \<Rightarrow>
              then_do (stmt (update_users (\<lambda>u. u_id u = i) (\<lambda>u. add_gift q (add_quota q u))))
                (ret (i, q))) w1 = (r, w')"
    and "touched w w1 (w_db w)" "cm_source_no c = no" "cm_inviter_id c = i" "cm_commission_quota c = q"
    and "cm_status c = AffCommissionStatusGranted" "0 < i" "0 < q" "user_of (w_db w) i \<noteq> None"
  shows "grant_outcome no w r w'"
proof -
  obtain r1 w2 where c: "create_commission c w1 = (r1, w2)"
    and k: "(case r1 of
              Inl e \<Rightarrow> if isDuplicateKeyError e then ret (0, 0) else fail e
            | Inr _ \<Rightarrow>
              then_do (stmt (update_users (\<lambda>u. u_id u = i) (\<lambda>u. add_gift q (add_quota q u))))
                (ret (i, q))) w2 = (r, w')"
    using assms(1) by (rule on_result_eq)
  have db: "w_db w1 = w_db w" using touchedD(1) [OF assms(2)] .
  note t2 = touched_trans [OF assms(2) create_commission_result(1) [OF c]]
  show ?thesis
  proof (cases r1)
    case (Inl e)
    with create_commission_result(3) [OF c] have "w_db w2 = w_db w" using db by auto
    with k t2 Inl show ?thesis by (intro grant_outcome_same) (auto split: if_splits)
  next
    case (Inr x)
    with create_commission_result(2) [OF c] db
    have new: "\<forall>x\<in>set (d_commissions (w_db w)). cm_source_no x \<noteq> no"
      "w_db w2 = d_commissions_update (\<lambda>cs. cs @ [c\<lparr>cm_id := next_id (map cm_id (d_commissions (w_db w)))\<rparr>]) (w_db w)"
      using assms(3) by auto
    have k': "then_do (stmt (update_users (\<lambda>u. u_id u = i) (\<lambda>u. add_gift q (add_quota q u)))) (ret (i, q)) w2 = (r, w')"
      using k Inr by simp
    obtain r2 w3 where up: "update_users (\<lambda>u. u_id u = i) (\<lambda>u. add_gift q (add_quota q u)) w2 = (r2, w3)" by fastforce
    have rr: "r = (case r2 of Inl e \<Rightarrow> Inl e | Inr _ \<Rightarrow> Inr (i, q)) \<and> w' = w3"
      using k' up by (auto simp: then_do_def on_ok_def stmt_def ret_def split: sum.splits)
    note t3 = touched_trans [OF t2 update_where_touched(1) [OF up]]
    show ?thesis
    proof (cases r2)
      case (Inl e)
      then show ?thesis using rr t3 new(1) by (auto simp: grant_outcome_def)
    next
      case (Inr n)
      have "w_db w3 = grant_db i q (c\<lparr>cm_id := next_id (map cm_id (d_commissions (w_db w)))\<rparr>) (w_db w)"
        using update_where_touched(3) [OF up Inr] new(2) by (simp add: grant_db_def)
      then have "granted (w_db w) (w_db w3) i q no"
        using new(1) assms(3-9) unfolding granted_def by (intro conjI exI) simp_all
      then show ?thesis using rr t3 Inr new(1) by (auto simp: grant_outcome_def)
    qed
  qed
qed

lemma grant_at_rate_outcome:
  assumes "grant_at_rate iid amt tq st no invitee inviter rate w1 = (r, w')" "touched w w1 (w_db w)"
    and "0 < u_inviter_id invitee" "user_of (w_db w) (u_inviter_id invitee) \<noteq> None"
  shows "grant_outcome no w r w'"
proof (cases "fle rate fzero \<or> commission_quota (w_cfg w1) amt rate \<le> 0")
  case True
  with assms(1,2) show ?thesis
    by (intro grant_outcome_same) (auto simp: grant_at_rate_def reading_def Let_def split: if_splits)
next
  case False
  let ?q = "commission_quota (w_cfg w1) amt rate"
  let ?c = "new_commission iid amt tq st no invitee inviter rate (w_now w1) ?q"
  have "on_result (create_commission ?c) (\<lambda>r. case r of
         Inl e \<Rightarrow> if isDuplicateKeyError e then ret (0, 0) else fail e
       | Inr _ \<Rightarrow> then_do (stmt (update_users (\<lambda>u. u_id u = u_inviter_id invitee) (\<lambda>u. add_gift ?q (add_quota ?q u))))
           (ret (u_inviter_id invitee, ?q))) w1 = (r, w')"
    using assms(1) False by (simp add: grant_at_rate_def reading_def Let_def)
  from grant_insert_outcome [OF this assms(2)] assms(3,4) False show ?thesis
    by (simp add: new_commission_def)
qed

lemma grant_by_outcome:
  assumes "grant_by iid amt tq st no invitee inviter w1 = (r, w')" "touched w w1 (w_db w)"
    and "0 < u_inviter_id invitee" "user_of (w_db w) (u_inviter_id invitee) \<noteq> None"
  shows "grant_outcome no w r w'"
  using assms(1) unfolding grant_by_def GetGroupConfigByKeyTx_def
proof (cases rule: on_first)
  case (err e w2)
  then show ?thesis using touched_trans [OF assms(2) err(1)] touchedD(1) [OF assms(2)]
    by (auto intro: grant_outcome_err)
next
  case (row gc w2)
  then show ?thesis using touched_trans [OF assms(2) row(1)] touchedD(1) [OF assms(2)] assms(3,4)
    by (auto intro: grant_at_rate_outcome)
qed

lemma grant_from_outcome:
  assumes "grant_from iid amt tq st no invitee w1 = (r, w')" "touched w w1 (w_db w)"
  shows "grant_outcome no w r w'"
proof (cases "u_inviter_id invitee \<le> 0 \<or> u_inviter_id invitee = iid")
  case True
  with assms show ?thesis
    by (intro grant_outcome_same) (auto simp: grant_from_def Let_def split: if_splits)
next
  case False
  then have "on_result (first d_users (\<lambda>u. u_id u = u_inviter_id invitee)) (\<lambda>r. case r of
          Inl e \<Rightarrow> if e = NotFound then ret (0, 0) else fail e
        | Inr inviter \<Rightarrow> grant_by iid amt tq st no invitee inviter) w1 = (r, w')"
    using assms(1) by (simp add: grant_from_def Let_def)
  then show ?thesis
  proof (cases rule: on_first)
    case (err e w2)
    then show ?thesis using touched_trans [OF assms(2) err(1)] touchedD(1) [OF assms(2)]
      by (auto intro: grant_outcome_err)
  next
    case (row inviter w2)
    then have "user_of (w_db w) (u_inviter_id invitee) = Some inviter"
      using touchedD(1) [OF assms(2)] by (simp add: user_of_def)
    with row(4) False touched_trans [OF assms(2) row(1)] touchedD(1) [OF assms(2)] show ?thesis
      by (auto intro: grant_by_outcome)
  qed
qed

lemma GrantCommission_outcome:
  assumes "GrantCommission iid amt tq st no w = (r, w')"
  shows "grant_outcome no w r w'"
proof (cases "iid \<le> 0 \<or> fle amt fzero \<or> no = []")
  case True
  with assms show ?thesis by (intro grant_outcome_same) (auto simp: GrantCommission_def)
next
  case False
  then have "on_result (first d_users (\<lambda>u. u_id u = iid)) (\<lambda>r. case r of
        Inl e \<Rightarrow> if e = NotFound then ret (0, 0) else fail e
      | Inr invitee \<Rightarrow> grant_from iid amt tq st no invitee) w = (r, w')"
    using assms by (simp add: GrantCommission_def)
  then show ?thesis
  proof (cases rule: on_first)
    case (err e w1)
    then show ?thesis by (auto intro: grant_outcome_err)
  next
    case (row invitee w1)
    then show ?thesis by (auto intro: grant_from_outcome)
  qed
qed

text \<open>The inviter that is paid is another user than the one who topped up.\<close>

lemma GrantCommission_other: "yields (\<lambda>(i, q). i = 0 \<or> i \<noteq> iid) (GrantCommission iid amt tq st no)"
  unfolding GrantCommission_def grant_from_def grant_by_def grant_at_rate_def Let_def
  by (intro yields_intros) auto

lemma keeps_base_grant: "keeps_base (GrantCommission iid amt tq st no)"
  by (rule keeps_baseI) (drule GrantCommission_outcome, auto simp: grant_outcome_def dest: touchedD(4))

lemma granted_effect:
  assumes "granted d d' i q no" "keys_ok d"
  shows "(\<forall>c\<in>set (d_commissions d). cm_source_no c \<noteq> no) \<and>
    map cm_source_no (d_commissions d') = map cm_source_no (d_commissions d) @ [no] \<and>
    (\<forall>j. user_of d' j = (if j = i
          then map_option (\<lambda>u. u\<lparr>u_quota := u_quota u + q, u_gift_quota := u_gift_quota u + q\<rparr>) (user_of d j)
          else user_of d j))"
proof -
  obtain rec where rec: "cm_source_no rec = no" "d' = grant_db i q rec d"
    and new: "\<forall>c\<in>set (d_commissions d). cm_source_no c \<noteq> no"
    using assms(1) by (auto simp: granted_def)
  have "user_of (grant_db i q rec d) j = (if j = i
      then map_option (\<lambda>u. u\<lparr>u_quota := u_quota u + q, u_gift_quota := u_gift_quota u + q\<rparr>) (user_of d j)
      else user_of d j)" for j
    using keys_okD(1) [OF assms(2)]
    by (simp add: grant_db_def user_of_def update_rows_find1 add_gift_def add_quota_def)
  then show ?thesis using new rec by (simp add: grant_db_def)
qed

text \<open>
  C18. A commission is granted at most once per source number: once a record with the number
  exists, a further grant for it changes nothing, on every database and whichever statement
  fails; and a grant that reports a commission inserted exactly one record and credited
  exactly that amount to the inviter's balance and gift total.
\<close>

theorem commission_granted_once:
  assumes "GrantCommission iid amt tq st no w = (r, w')" "keys_ok (w_db w)"
  shows "((\<exists>c\<in>set (d_commissions (w_db w)). cm_source_no c = no) \<longrightarrow> w_db w' = w_db w) \<and>
    (\<forall>i q. r = Inr (i, q) \<and> 0 < q \<longrightarrow>
       (\<forall>c\<in>set (d_commissions (w_db w)). cm_source_no c \<noteq> no) \<and>
       map cm_source_no (d_commissions (w_db w')) = map cm_source_no (d_commissions (w_db w)) @ [no] \<and>
       (\<forall>j. user_of (w_db w') j = (if j = i
          then map_option (\<lambda>u. u\<lparr>u_quota := u_quota u + q, u_gift_quota := u_gift_quota u + q\<rparr>) (user_of (w_db w) j)
          else user_of (w_db w) j)))"
proof (intro conjI impI)
  note o = GrantCommission_outcome [OF assms(1), unfolded grant_outcome_def]
  show "w_db w' = w_db w" if "\<exists>c\<in>set (d_commissions (w_db w)). cm_source_no c = no"
    using o that by blast
  show "\<forall>i q. r = Inr (i, q) \<and> 0 < q \<longrightarrow>
       (\<forall>c\<in>set (d_commissions (w_db w)). cm_source_no c \<noteq> no) \<and>
       map cm_source_no (d_commissions (w_db w')) = map cm_source_no (d_commissions (w_db w)) @ [no] \<and>
       (\<forall>j. user_of (w_db w') j = (if j = i
          then map_option (\<lambda>u. u\<lparr>u_quota := u_quota u + q, u_gift_quota := u_gift_quota u + q\<rparr>) (user_of (w_db w) j)
          else user_of (w_db w) j))"
  proof (intro allI impI)
    fix i q assume rq: "r = Inr (i, q) \<and> 0 < q"
    then have "granted (w_db w) (w_db w') i q no" using o by auto
    from granted_effect [OF this assms(2)]
    show "(\<forall>c\<in>set (d_commissions (w_db w)). cm_source_no c \<noteq> no) \<and>
       map cm_source_no (d_commissions (w_db w')) = map cm_source_no (d_commissions (w_db w)) @ [no] \<and>
       (\<forall>j. user_of (w_db w') j = (if j = i
          then map_option (\<lambda>u. u\<lparr>u_quota := u_quota u + q, u_gift_quota := u_gift_quota u + q\<rparr>) (user_of (w_db w) j)
          else user_of (w_db w) j))" .
  qed
qed

section \<open>What a reversal does\<close>

definition reverse_db :: "int \<Rightarrow> commission \<Rightarrow> int \<Rightarrow> db \<Rightarrow> db" where
  "reverse_db now rec q d =
     d_commissions_update (update_rows (\<lambda>c. cm_id c = cm_id rec)
         (\<lambda>c. c\<lparr>cm_status := AffCommissionStatusReversed, cm_reversed_quota := q, cm_reversed_at := now\<rparr>))
       (if 0 < q then d_users_update (update_rows (\<lambda>u. u_id u = cm_inviter_id rec)
            (\<lambda>u. add_gift (- q) (add_quota (- q) u))) d else d)"

definition reversed :: "int \<Rightarrow> string \<Rightarrow> db \<Rightarrow> db \<Rightarrow> int \<Rightarrow> int \<Rightarrow> bool" where
  "reversed now no d d' i q \<longleftrightarrow>
     (\<exists>rec. List.find (\<lambda>c. cm_source_no c = no) (d_commissions d) = Some rec \<and>
        cm_status rec = AffCommissionStatusGranted \<and> i = cm_inviter_id rec \<and>
        q = (case user_of d i of None \<Rightarrow> 0 | Some u \<Rightarrow> actual_reverse (cm_commission_quota rec) (u_quota u)) \<and>
        d' = reverse_db now rec q d)"

definition not_granted :: "string \<Rightarrow> db \<Rightarrow> bool" where
  "not_granted no d \<longleftrightarrow> no = [] \<or>
     (\<forall>c. List.find (\<lambda>c. cm_source_no c = no) (d_commissions d) = Some c \<longrightarrow>
        cm_status c \<noteq> AffCommissionStatusGranted)"

definition reverse_outcome :: "string \<Rightarrow> world \<Rightarrow> gerr + int \<times> int \<Rightarrow> world \<Rightarrow> bool" where
  "reverse_outcome no w r w' \<longleftrightarrow> touched w w' (w_db w') \<and>
     (\<forall>i q. r = Inr (i, q) \<longrightarrow> (i = 0 \<and> q = 0 \<and> w_db w' = w_db w \<and> not_granted no (w_db w)) \<or>
        reversed (w_now w) no (w_db w) (w_db w') i q) \<and>
     (not_granted no (w_db w) \<longrightarrow> w_db w' = w_db w)"

lemma mark_result:
  assumes "markCommissionReversed rec q w = (r, w')"
  shows "touched w w' (w_db w')" and "r = Inr () \<Longrightarrow> w_db w' = d_commissions_update (update_rows (\<lambda>c. cm_id c = cm_id rec)
         (\<lambda>c. c\<lparr>cm_status := AffCommissionStatusReversed, cm_reversed_quota := q, cm_reversed_at := w_now w\<rparr>)) (w_db w)"
proof -
  obtain r1 where u: "update_where d_commissions d_commissions_update (\<lambda>c. cm_id c = cm_id rec)
       (\<lambda>c. c\<lparr>cm_status := AffCommissionStatusReversed, cm_reversed_quota := q, cm_reversed_at := w_now w\<rparr>) w = (r1, w')"
    and r: "r = (case r1 of Inl e \<Rightarrow> Inl e | Inr _ \<Rightarrow> Inr ())"
    using assms by (auto simp: markCommissionReversed_def reading_def stmt_def on_ok_def ret_def split: prod.splits sum.splits)
  show "touched w w' (w_db w')" using update_where_touched(1) [OF u] .
  show "r = Inr () \<Longrightarrow> w_db w' = d_commissions_update (update_rows (\<lambda>c. cm_id c = cm_id rec)
         (\<lambda>c. c\<lparr>cm_status := AffCommissionStatusReversed, cm_reversed_quota := q, cm_reversed_at := w_now w\<rparr>)) (w_db w)"
    using r update_where_touched(3) [OF u] by (auto split: sum.splits)
qed

lemma stmt_result:
  assumes "stmt (update_where tbl upd p u) w = (r, w')"
  shows "touched w w' (w_db w')" and "r = Inr () \<Longrightarrow> w_db w' = upd (update_rows p u) (w_db w)"
proof -
  obtain r1 where u: "update_where tbl upd p u w = (r1, w')"
    and r: "r = (case r1 of Inl e \<Rightarrow> Inl e | Inr _ \<Rightarrow> Inr ())"
    using assms by (auto simp: stmt_def on_ok_def ret_def split: prod.splits sum.splits)
  show "touched w w' (w_db w')" using update_where_touched(1) [OF u] .
  show "r = Inr () \<Longrightarrow> w_db w' = upd (update_rows p u) (w_db w)"
    using r update_where_touched(3) [OF u] by (auto split: sum.splits)
qed

lemma reverse_tail:
  assumes "then_do (if 0 < q then stmt (update_users (\<lambda>u. u_id u = cm_inviter_id rec)
                (\<lambda>u. add_gift (- q) (add_quota (- q) u))) else ret ())
            (then_do (markCommissionReversed rec q) (ret (cm_inviter_id rec, q))) w = (r, w')"
  shows "touched w w' (w_db w')" and "r = Inr x \<Longrightarrow> x = (cm_inviter_id rec, q) \<and> w_db w' = reverse_db (w_now w) rec q (w_db w)"
proof -
  let ?f = "if 0 < q then stmt (update_users (\<lambda>u. u_id u = cm_inviter_id rec)
                (\<lambda>u. add_gift (- q) (add_quota (- q) u))) else ret ()"
  obtain r1 w1 where f: "?f w = (r1, w1)" by fastforce
  obtain r2 w2 where m: "markCommissionReversed rec q w1 = (r2, w2)" by fastforce
  have t1: "touched w w1 (w_db w1)"
    and d1: "r1 = Inr () \<Longrightarrow> w_db w1 = (if 0 < q then d_users_update (update_rows (\<lambda>u. u_id u = cm_inviter_id rec)
            (\<lambda>u. add_gift (- q) (add_quota (- q) u))) (w_db w) else w_db w)"
    using f by (auto split: if_splits dest: stmt_result)
  have run: "r = (case r1 of Inl e \<Rightarrow> Inl e | Inr _ \<Rightarrow> case r2 of Inl e \<Rightarrow> Inl e | Inr _ \<Rightarrow> Inr (cm_inviter_id rec, q)) \<and>
      w' = (case r1 of Inl _ \<Rightarrow> w1 | Inr _ \<Rightarrow> w2)"
    using assms f m unfolding then_do_def on_ok_def ret_def by (auto split: sum.splits)
  show "touched w w' (w_db w')"
    using run t1 touched_trans [OF t1 mark_result(1) [OF m]] by (auto split: sum.splits)
  show "r = Inr x \<Longrightarrow> x = (cm_inviter_id rec, q) \<and> w_db w' = reverse_db (w_now w) rec q (w_db w)"
    using run d1 mark_result(2) [OF m] touchedD(3) [OF t1] by (auto simp: reverse_db_def split: sum.splits)
qed

lemma ReverseCommission_outcome:
  assumes "ReverseCommission no w = (r, w')"
  shows "reverse_outcome no w r w'"
proof (cases "no = []")
  case True
  with assms show ?thesis by (auto simp: ReverseCommission_def reverse_outcome_def not_granted_def)
next
  case ne: False
  let ?found = "\<lambda>rec. List.find (\<lambda>c. cm_source_no c = no) (d_commissions (w_db w)) = Some rec"
  have "on_result (first d_commissions (\<lambda>c. cm_source_no c = no)) (\<lambda>r. case r of
        Inl e \<Rightarrow> if e = NotFound then ret (0, 0) else fail e
      | Inr rec \<Rightarrow>
        if cm_status rec \<noteq> AffCommissionStatusGranted then ret (0, 0)
        else on_result (first d_users (\<lambda>u. u_id u = cm_inviter_id rec)) (\<lambda>r. case r of
          Inl e \<Rightarrow> if e = NotFound then then_do (markCommissionReversed rec 0) (ret (cm_inviter_id rec, 0))
                   else fail e
        | Inr inviter \<Rightarrow>
          let q = actual_reverse (cm_commission_quota rec) (u_quota inviter)
          in then_do
            (if 0 < q then stmt (update_users (\<lambda>u. u_id u = cm_inviter_id rec)
                (\<lambda>u. add_gift (- q) (add_quota (- q) u))) else ret ())
            (then_do (markCommissionReversed rec q) (ret (cm_inviter_id rec, q))))) w = (r, w')"
    using assms ne by (simp add: ReverseCommission_def)
  then show ?thesis
  proof (cases rule: on_first)
    case (err e w1)
    then show ?thesis using touchedD(1) [OF err(1)]
      by (auto simp: reverse_outcome_def not_granted_def split: if_splits)
  next
    case (row rec w1)
    note d1 = touchedD(1) [OF row(1)]
    show ?thesis
    proof (cases "cm_status rec = AffCommissionStatusGranted")
      case False
      with row d1 show ?thesis by (auto simp: reverse_outcome_def not_granted_def)
    next
      case True
      from row(4) True have "on_result (first d_users (\<lambda>u. u_id u = cm_inviter_id rec)) (\<lambda>r. case r of
          Inl e \<Rightarrow> if e = NotFound then then_do (markCommissionReversed rec 0) (ret (cm_inviter_id rec, 0))
                   else fail e
        | Inr inviter \<Rightarrow>
          let q = actual_reverse (cm_commission_quota rec) (u_quota inviter)
          in then_do
            (if 0 < q then stmt (update_users (\<lambda>u. u_id u = cm_inviter_id rec)
                (\<lambda>u. add_gift (- q) (add_quota (- q) u))) else ret ())
            (then_do (markCommissionReversed rec q) (ret (cm_inviter_id rec, q)))) w1 = (r, w')" by simp
      then show ?thesis
      proof (cases rule: on_first)
        case (err e w2)
        note d2 = touchedD(1) [OF err(1)] and t2 = touched_trans [OF row(1) err(1)]
        show ?thesis
        proof (cases "e = NotFound")
          case False
          with err(2) t2 d1 d2 True row(2) show ?thesis by (auto simp: reverse_outcome_def not_granted_def)
        next
          case nf: True
          then have t: "then_do (if 0 < (0 :: int) then stmt (update_users (\<lambda>u. u_id u = cm_inviter_id rec)
                (\<lambda>u. add_gift (- 0) (add_quota (- 0) u))) else ret ())
              (then_do (markCommissionReversed rec 0) (ret (cm_inviter_id rec, 0))) w2 = (r, w')"
            using err(2) by (simp add: then_do_def on_ok_def ret_def)
          have "user_of (w_db w) (cm_inviter_id rec) = None"
            using err(3) nf d1 by (simp add: user_of_def)
          with reverse_tail [OF t] t2 touchedD(3) [OF t2] d1 d2 row(2) True touched_trans [OF t2 reverse_tail(1) [OF t]]
          show ?thesis by (auto simp: ne reverse_outcome_def not_granted_def reversed_def)
        qed
      next
        case u: (row inviter w2)
        note d2 = touchedD(1) [OF u(1)] and t2 = touched_trans [OF row(1) u(1)]
        have t: "then_do (if 0 < actual_reverse (cm_commission_quota rec) (u_quota inviter)
              then stmt (update_users (\<lambda>u. u_id u = cm_inviter_id rec)
                (\<lambda>u. add_gift (- actual_reverse (cm_commission_quota rec) (u_quota inviter))
                      (add_quota (- actual_reverse (cm_commission_quota rec) (u_quota inviter)) u))) else ret ())
            (then_do (markCommissionReversed rec (actual_reverse (cm_commission_quota rec) (u_quota inviter)))
               (ret (cm_inviter_id rec, actual_reverse (cm_commission_quota rec) (u_quota inviter)))) w2 = (r, w')"
          using u(4) by (simp add: Let_def)
        have "user_of (w_db w) (cm_inviter_id rec) = Some inviter"
          using u(2) d1 by (simp add: user_of_def)
        with reverse_tail(2) [OF t] touchedD(3) [OF t2] d1 d2 row(2) True touched_trans [OF t2 reverse_tail(1) [OF t]]
        show ?thesis by (auto simp: ne reverse_outcome_def not_granted_def reversed_def)
      qed
    qed
  qed
qed

lemma reversed_effect:
  assumes "reversed now no d d' i q" "keys_ok d"
  shows "user_of d' j = (if j = i \<and> 0 < q
      then map_option (\<lambda>u. u\<lparr>u_quota := u_quota u - q, u_gift_quota := u_gift_quota u - q\<rparr>) (user_of d j)
      else user_of d j)"
    and "not_granted no d'"
proof -
  obtain rec where rec: "List.find (\<lambda>c. cm_source_no c = no) (d_commissions d) = Some rec"
      "i = cm_inviter_id rec" "d' = reverse_db now rec q d"
    using assms(1) by (auto simp: reversed_def)
  show "user_of d' j = (if j = i \<and> 0 < q
      then map_option (\<lambda>u. u\<lparr>u_quota := u_quota u - q, u_gift_quota := u_gift_quota u - q\<rparr>) (user_of d j)
      else user_of d j)"
    using keys_okD(1) [OF assms(2)]
    by (simp add: rec reverse_db_def user_of_def update_rows_find1 add_gift_def add_quota_def)
  show "not_granted no d'"
    using rec(1) by (simp add: not_granted_def rec(3) reverse_db_def find_update_rows status_defs)
qed

lemma reversed_bounds:
  assumes "reversed now no d d' i q"
  shows "0 \<le> q" and "user_of d i = Some u \<Longrightarrow> 0 \<le> u_quota u \<Longrightarrow> q \<le> u_quota u"
  using assms by (auto simp: reversed_def actual_reverse_def Let_def split: option.splits if_splits)


text \<open>
  Granting a commission and reversing it with no spending in between leaves every
  balance and every gift total as they were.
\<close>

theorem grant_then_reverse:
  assumes "GrantCommission iid amt tq st no w = (Inr (i, q), w1)" "0 < q" "keys_ok (w_db w)"
    and "user_of (w_db w) i = Some u" "0 \<le> u_quota u" "no \<noteq> []"
    and "w_db v = w_db w1" "ReverseCommission no v = (Inr (k, p), v')" "k \<noteq> 0"
  shows "k = i \<and> p = q \<and> user_of (w_db v') j = user_of (w_db w) j"
proof -
  have g: "granted (w_db w) (w_db w1) i q no"
    using GrantCommission_outcome [OF assms(1)] assms(2) by (auto simp: grant_outcome_def)
  then obtain rec where rec: "cm_source_no rec = no" "cm_inviter_id rec = i" "cm_commission_quota rec = q"
      "w_db w1 = grant_db i q rec (w_db w)" and new: "\<forall>c\<in>set (d_commissions (w_db w)). cm_source_no c \<noteq> no"
      "cm_id rec = next_id (map cm_id (d_commissions (w_db w)))"
    by (auto simp: granted_def)
  note eff = granted_effect [OF g assms(3)]
  have fresh: "x \<in> set xs \<Longrightarrow> x < next_id xs" for x xs
    by (induction xs) (auto simp: next_id_def)
  have "cm_id rec \<notin> cm_id ` set (d_commissions (w_db w))"
    using fresh [of _ "map cm_id (d_commissions (w_db w))"] new(2) by force
  then have k1: "keys_ok (w_db w1)"
    using assms(3) unfolding rec(4) by (simp add: keys_ok_def grant_db_def add_gift_def)
  have "List.find (\<lambda>c. cm_source_no c = no) (xs @ [rec]) = Some rec"
    if "\<forall>c\<in>set xs. cm_source_no c \<noteq> no" for xs
    using that rec(1) by (induction xs) auto
  with new(1) have f: "List.find (\<lambda>c. cm_source_no c = no) (d_commissions (w_db v)) = Some rec"
    unfolding assms(7) rec(4) by (simp add: grant_db_def)
  have r: "reversed (w_now v) no (w_db v) (w_db v') k p"
    using ReverseCommission_outcome [OF assms(8)] assms(9) by (auto simp: reverse_outcome_def)
  then have k: "k = i" "p = (case user_of (w_db v) i of None \<Rightarrow> 0 | Some u \<Rightarrow> actual_reverse q (u_quota u))"
    using f rec(2,3) by (auto simp: reversed_def)
  have "user_of (w_db v) i = Some (u\<lparr>u_quota := u_quota u + q, u_gift_quota := u_gift_quota u + q\<rparr>)"
    using eff assms(4,7) by simp
  then have p: "p = q" using k(2) assms(2,5) by (simp add: actual_reverse_def)
  have "user_of (w_db v') j = user_of (w_db w) j"
    using reversed_effect(1) [OF r, of j] k1 eff assms(2,7) k(1) p
    by (cases "user_of (w_db w) j") auto
  then show ?thesis using k(1) p by simp
qed

section \<open>Concrete runs\<close>

definition aff_demo :: world where
  "aff_demo = world_with (empty_db\<lparr>
     d_users := [blank_user\<lparr>u_id := 1, u_username := ''ann'', u_quota := 100\<rparr>,
                 blank_user\<lparr>u_id := 2, u_username := ''bob'', u_inviter_id := 1\<rparr>],
     d_groups := [\<lparr>g_id = 1, g_key = ''Lv1'', g_discount = fone, g_sort_order = 0,
                   g_commission_rate = flit 5 100, g_upgrade_threshold = 0\<rparr>]\<rparr>) 77"

lemmas grant_run = aff_demo_def GrantCommission_def run_simps grant_from_def grant_by_def grant_at_rate_def
  GetGroupConfigByKeyTx_def create_commission_def insert_rows_def new_commission_def
  commission_quota_def float_eval isDuplicateKeyError_def next_id_def

lemmas reverse_run = ReverseCommission_def markCommissionReversed_def actual_reverse_def

definition aff_demo1 :: world where
  "aff_demo1 = snd (GrantCommission 2 (f_of_int 10) 5000000 SourceTypeStripeCheckout ''T1'' aff_demo)"

lemma aff_demo_run:
  "GrantCommission 2 (f_of_int 10) 5000000 SourceTypeStripeCheckout ''T1'' aff_demo = (Inr (1, 250000), aff_demo1)"
  "keys_ok (w_db aff_demo)"
  by (simp_all add: aff_demo1_def grant_run)

lemma aff_demo1_facts:
  "keys_ok (w_db aff_demo1)" "\<exists>c\<in>set (d_commissions (w_db aff_demo1)). cm_source_no c = ''T1''"
  "map_option u_quota (user_of (w_db aff_demo1) 1) = Some 250100"
  "ReverseCommission ''T1'' aff_demo1 = (Inr (1, 250000), snd (ReverseCommission ''T1'' aff_demo1))"
  by (simp_all add: aff_demo1_def grant_run reverse_run add_gift_def add_quota_def)

theorem commission_granted_once_witness:
  "w_db (snd (GrantCommission 2 (f_of_int 10) 5000000 SourceTypeStripeCheckout ''T1'' aff_demo1)) = w_db aff_demo1"
proof -
  obtain r w' where g: "GrantCommission 2 (f_of_int 10) 5000000 SourceTypeStripeCheckout ''T1'' aff_demo1 = (r, w')"
    by fastforce
  from commission_granted_once [OF this aff_demo1_facts(1)] aff_demo1_facts(2) show ?thesis by (simp add: g)
qed


theorem grant_then_reverse_witness:
  "map_option u_quota (user_of (w_db (snd (ReverseCommission ''T1'' aff_demo1))) 1) = Some 100"
proof -
  have h: "(0 :: int) < 250000" and u: "user_of (w_db aff_demo) 1 = Some (blank_user\<lparr>u_id := 1, u_username := ''ann'', u_quota := 100\<rparr>)"
    "0 \<le> u_quota (blank_user\<lparr>u_id := 1, u_username := ''ann'', u_quota := 100\<rparr>)" "''T1'' \<noteq> []"
    and k: "(1 :: int) \<noteq> 0"
    by (simp_all add: aff_demo_def user_of_def start_defs)
  from grant_then_reverse [OF aff_demo_run(1) h aff_demo_run(2) u refl aff_demo1_facts(4) k, of 1] u(1)
  show ?thesis by simp
qed

text \<open>
  The replay branch of \<open>GrantCommission\<close> treats the refused insert as a success. On PostgreSQL the
  refusal has already aborted the transaction, so the top-up around it cannot commit.
\<close>

theorem replayed_grant_fails_on_postgres:
  "fst (transaction (GrantCommission 2 (f_of_int 10) 5000000 SourceTypeStripeCheckout ''T1'')
     (aff_demo1\<lparr>w_dialect := PostgreSQL\<rparr>)) = Inl DbErr \<and>
   fst (transaction (GrantCommission 2 (f_of_int 10) 5000000 SourceTypeStripeCheckout ''T1'') aff_demo1)
     = Inr (0, 0)"
  by (simp add: aff_demo1_def grant_run add_gift_def add_quota_def)

end
