(* ===== verification/UserLevel.thy ===== *)
theory UserLevel
  imports Commission "HOL-Library.Multiset" "HOL-Library.Product_Lexorder" "HOL-Library.List_Lexorder" "HOL-Library.Char_ord"
begin

text \<open>
  Group levels: the configuration table of \<open>model/group_config.go\<close> and the recalculation of a
  user's level after a top-up, \<open>model/user_level.go\<close>.
\<close>

section \<open>The group table\<close>

definition GetAllGroupConfigs :: "group_config list op" where
  "GetAllGroupConfigs = query (\<lambda>d. sort_key (\<lambda>g. (g_sort_order g, g_id g)) (d_groups d))"

definition GetGroupConfigByKey :: "string \<Rightarrow> group_config op" where
  "GetGroupConfigByKey key = first d_groups (\<lambda>g. g_key g = key)"

definition GetGroupConfigByID :: "int \<Rightarrow> group_config op" where
  "GetGroupConfigByID i = first d_groups (\<lambda>g. g_id g = i)"

definition DeleteGroupConfigByID :: "int \<Rightarrow> unit op" where
  "DeleteGroupConfigByID i = stmt (delete_where d_groups d_groups_update (\<lambda>g. g_id g = i))"

definition CreateGroupConfig :: "group_config \<Rightarrow> unit op" where
  "CreateGroupConfig g =
     exec (insert_rows d_groups d_groups_update (\<lambda>r s. g_id r = g_id s \<or> g_key r = g_key s)
       (\<lambda>d. [g\<lparr>g_id := (if g_id g = 0 then next_id (map g_id (d_groups d)) else g_id g)\<rparr>]))"

text \<open>Thresholds descending, ties by sort order, then by identifier.\<close>

definition threshold_key :: "group_config \<Rightarrow> int \<times> int \<times> int" where
  "threshold_key g = (- g_upgrade_threshold g, g_sort_order g, g_id g)"

definition GetGroupConfigsByThresholdDesc :: "group_config list op" where
  "GetGroupConfigsByThresholdDesc = query (\<lambda>d. sort_key threshold_key (d_groups d))"

definition defaultUpgradeThresholds :: "(string \<times> int) list" where
  "defaultUpgradeThresholds = [(''Lv1'', 0), (''Lv2'', 5 * 500000), (''Lv3'', 50 * 500000),
     (''Lv4'', 100 * 500000), (''Lv5'', 250 * 500000), (''Lv6'', 500 * 500000)]"

fun create_defaults :: "(string \<rightharpoonup> f64) \<Rightarrow> int \<Rightarrow> string list \<Rightarrow> unit op" where
  "create_defaults ratios order [] = ret ()"
| "create_defaults ratios order (k # ks) =
     then_do (CreateGroupConfig \<lparr>g_id = 0, g_key = k, g_discount = (case ratios k of Some r \<Rightarrow> r | None \<Rightarrow> fzero),
        g_sort_order = order, g_commission_rate = fzero,
        g_upgrade_threshold = (case map_of defaultUpgradeThresholds k of Some t \<Rightarrow> t | None \<Rightarrow> 0)\<rparr>)
       (create_defaults ratios (order + 1) ks)"

text \<open>A failing count leaves 0 in the variable, as the code ignores its error.\<close>

definition InitGroupConfigs :: "(string \<times> f64) list \<Rightarrow> unit op" where
  "InitGroupConfigs ratios =
     on_result (query (\<lambda>d. length (d_groups d))) (\<lambda>r.
       if 0 < (case r of Inl _ \<Rightarrow> 0 | Inr n \<Rightarrow> n) then ret ()
       else create_defaults (map_of ratios) 0 (sort (map fst ratios)))"

section \<open>Levels\<close>

definition raise_level :: "int \<Rightarrow> user \<Rightarrow> group_config list \<Rightarrow> bool op" where
  "raise_level uid u configs =
     (if configs = [] then ret False
      else case List.find (\<lambda>g. g_upgrade_threshold g \<le> u_topup_quota u) configs of
        None \<Rightarrow> ret False
      | Some target \<Rightarrow>
          if g_key target = u_group u then ret False
          else let current = (case List.find (\<lambda>g. g_key g = u_group u) configs of
                                None \<Rightarrow> 0 | Some g \<Rightarrow> g_upgrade_threshold g)
          in if g_upgrade_threshold target \<le> current then ret False
          else then_do (stmt (update_users (\<lambda>u. u_id u = uid) (\<lambda>u. u\<lparr>u_group := g_key target\<rparr>)))
              (then_do (RecordLog uid LogTypeSystem (LogLevelUp (u_group u) (g_key target) (u_topup_quota u)))
                 (ret True)))"

definition RecalcUserLevel :: "int \<Rightarrow> bool op" where
  "RecalcUserLevel uid =
     (if uid \<le> 0 then ret False
      else on_ok (first d_users (\<lambda>u. u_id u = uid)) (\<lambda>u.
           on_ok GetGroupConfigsByThresholdDesc (raise_level uid u)))"

definition RecalcUserLevelAndRefreshCache :: "int \<Rightarrow> unit op" where
  "RecalcUserLevelAndRefreshCache uid =
     on_result (RecalcUserLevel uid) (\<lambda>r. case r of
       Inl _ \<Rightarrow> ret ()
     | Inr changed \<Rightarrow> if changed then InvalidateUserGroupCache uid else ret ())"

section \<open>A level never falls and reaches the highest threshold met\<close>

definition threshold_of :: "group_config list \<Rightarrow> string \<Rightarrow> int" where
  "threshold_of gs k = (case List.find (\<lambda>g. g_key g = k) gs of None \<Rightarrow> 0 | Some g \<Rightarrow> g_upgrade_threshold g)"

lemma find_unique:
  assumes "distinct (map key xs)" "mset xs = mset ys"
  shows "List.find (\<lambda>x. key x = k) xs = List.find (\<lambda>x. key x = k) ys"
proof -
  have dy: "distinct (map key ys)"
    using assms by (metis mset_eq_imp_distinct_iff mset_map)
  have "List.find (\<lambda>x. key x = k) xs = Some a \<longleftrightarrow> List.find (\<lambda>x. key x = k) ys = Some a" for a
    using mset_eq_setD [OF assms(2)] by (simp add: find_key_iff [OF assms(1)] find_key_iff [OF dy])
  then show ?thesis by (metis option.exhaust)
qed

lemma find_sorted_max:
  assumes "sorted (map f xs)" "List.find p xs = Some x" "y \<in> set xs" "p y"
  shows "f x \<le> f y"
  using assms
proof (induction xs)
  case Nil
  then show ?case by simp
next
  case (Cons z zs)
  then show ?case by (cases "p z") auto
qed

lemma RecalcUserLevel_Inr:
  assumes "RecalcUserLevel uid w = (Inr changed, w')" "0 < uid"
  obtains u where "user_of (w_db w) uid = Some u"
    and "let gs = sort_key threshold_key (d_groups (w_db w));
             target = List.find (\<lambda>g. g_upgrade_threshold g \<le> u_topup_quota u) gs
         in if changed
            then (\<exists>t. target = Some t \<and> threshold_of gs (u_group u) < g_upgrade_threshold t \<and>
               w_db w' = d_users_update (update_rows (\<lambda>u. u_id u = uid) (\<lambda>u. u\<lparr>u_group := g_key t\<rparr>)) (w_db w))
            else w_db w' = w_db w \<and> (\<forall>t. target = Some t \<longrightarrow>
               g_key t = u_group u \<or> g_upgrade_threshold t \<le> threshold_of gs (u_group u))"
proof -
  have "on_ok (first d_users (\<lambda>u. u_id u = uid)) (\<lambda>u.
           on_ok GetGroupConfigsByThresholdDesc (raise_level uid u)) w = (Inr changed, w')"
    using assms by (simp add: RecalcUserLevel_def)
  then obtain u w1 gs w2 where u: "first d_users (\<lambda>u. u_id u = uid) w = (Inr u, w1)"
    and q: "GetGroupConfigsByThresholdDesc w1 = (Inr gs, w2)" and k: "raise_level uid u gs w2 = (Inr changed, w')"
    by (elim on_ok_Inr)
  from u have uo: "user_of (w_db w) uid = Some u" by (rule first_Inr) (simp add: user_of_def)
  have d1: "w_db w1 = w_db w" using first_touched [OF u] by (rule touchedD(1))
  have gs: "gs = sort_key threshold_key (d_groups (w_db w))"
    using q d1 unfolding GetGroupConfigsByThresholdDesc_def by (auto elim: query_Inr)
  have d2: "w_db w2 = w_db w"
    using q d1 query_touched unfolding GetGroupConfigsByThresholdDesc_def by (metis touchedD(1))
  have up: "w_db w4 = d_users_update (update_rows (\<lambda>u. u_id u = uid) (\<lambda>u. u\<lparr>u_group := k\<rparr>)) (w_db w)"
    if "stmt (update_users (\<lambda>u. u_id u = uid) (\<lambda>u. u\<lparr>u_group := k\<rparr>)) w2 = (Inr (), w3)"
      "RecordLog a b c w3 = (r, w4)" for w3 w4 k a b c r
    using stmt_result(2) [OF that(1)] RecordLog_result(2) [OF that(2)] d2 by simp
  have "(if changed
     then (\<exists>t. List.find (\<lambda>g. g_upgrade_threshold g \<le> u_topup_quota u) gs = Some t \<and>
         threshold_of gs (u_group u) < g_upgrade_threshold t \<and>
         w_db w' = d_users_update (update_rows (\<lambda>u. u_id u = uid) (\<lambda>u. u\<lparr>u_group := g_key t\<rparr>)) (w_db w))
     else w_db w' = w_db w \<and> (\<forall>t. List.find (\<lambda>g. g_upgrade_threshold g \<le> u_topup_quota u) gs = Some t \<longrightarrow>
         g_key t = u_group u \<or> g_upgrade_threshold t \<le> threshold_of gs (u_group u)))"
    using k d2 unfolding raise_level_def threshold_of_def [symmetric] Let_def
    by (auto split: if_splits option.splits dest: up)
  then show thesis using uo that unfolding gs Let_def by simp
qed

text \<open>
  A recalculation never lowers a level and leaves the user at the highest threshold the
  accumulated top-ups meet: afterwards no group whose threshold is met has a higher one than
  the user's group. It changes no other column and no other user.
\<close>

theorem level_reaches_highest:
  assumes "RecalcUserLevel uid w = (Inr changed, w')" "0 < uid" "keys_ok (w_db w)"
    and "distinct (map g_key (d_groups (w_db w)))"
  shows "\<exists>u u'. user_of (w_db w) uid = Some u \<and> user_of (w_db w') uid = Some u' \<and>
      u' = u\<lparr>u_group := u_group u'\<rparr> \<and>
      threshold_of (d_groups (w_db w)) (u_group u) \<le> threshold_of (d_groups (w_db w)) (u_group u') \<and>
      (\<forall>g\<in>set (d_groups (w_db w)). g_upgrade_threshold g \<le> u_topup_quota u \<longrightarrow>
         g_upgrade_threshold g \<le> threshold_of (d_groups (w_db w)) (u_group u')) \<and>
      (\<forall>j. j \<noteq> uid \<longrightarrow> user_of (w_db w') j = user_of (w_db w) j)"
proof -
  let ?gs = "sort_key threshold_key (d_groups (w_db w))"
  obtain u where u: "user_of (w_db w) uid = Some u" and out: "let gs = ?gs;
             target = List.find (\<lambda>g. g_upgrade_threshold g \<le> u_topup_quota u) gs
         in if changed
            then (\<exists>t. target = Some t \<and> threshold_of gs (u_group u) < g_upgrade_threshold t \<and>
               w_db w' = d_users_update (update_rows (\<lambda>u. u_id u = uid) (\<lambda>u. u\<lparr>u_group := g_key t\<rparr>)) (w_db w))
            else w_db w' = w_db w \<and> (\<forall>t. target = Some t \<longrightarrow>
               g_key t = u_group u \<or> g_upgrade_threshold t \<le> threshold_of gs (u_group u))"
    using RecalcUserLevel_Inr [OF assms(1,2)] by blast
  have dist: "distinct (map g_key ?gs)"
    using assms(4) by (simp add: distinct_map)
  have th: "threshold_of ?gs k = threshold_of (d_groups (w_db w)) k" for k
    unfolding threshold_of_def using find_unique [OF dist, of "d_groups (w_db w)"] by simp
  have tk: "threshold_of ?gs (g_key t) = g_upgrade_threshold t" if "t \<in> set ?gs" for t
    using that find_key_iff [OF dist, of "g_key t" t] by (simp add: threshold_of_def)
  have best: "g_upgrade_threshold g \<le> g_upgrade_threshold t"
    if "List.find (\<lambda>g. g_upgrade_threshold g \<le> u_topup_quota u) ?gs = Some t"
      "g \<in> set (d_groups (w_db w))" "g_upgrade_threshold g \<le> u_topup_quota u" for g t
    using find_sorted_max [of threshold_key ?gs, OF _ that(1), of g] that(2,3)
    by (auto simp: threshold_key_def less_eq_prod_simp)
  have some: "\<exists>t. List.find (\<lambda>g. g_upgrade_threshold g \<le> u_topup_quota u) ?gs = Some t \<and> t \<in> set ?gs"
    if "g \<in> set (d_groups (w_db w))" "g_upgrade_threshold g \<le> u_topup_quota u" for g
    using that find_SomeD by (cases "List.find (\<lambda>g. g_upgrade_threshold g \<le> u_topup_quota u) ?gs")
      (fastforce simp: find_None_iff)+
  show ?thesis
  proof (cases changed)
    case True
    then obtain t where t: "List.find (\<lambda>g. g_upgrade_threshold g \<le> u_topup_quota u) ?gs = Some t"
        "threshold_of ?gs (u_group u) < g_upgrade_threshold t"
        "w_db w' = d_users_update (update_rows (\<lambda>u. u_id u = uid) (\<lambda>u. u\<lparr>u_group := g_key t\<rparr>)) (w_db w)"
      using out unfolding Let_def by auto
    have "t \<in> set ?gs" using find_SomeD [OF t(1)] by simp
    then have tt: "threshold_of (d_groups (w_db w)) (g_key t) = g_upgrade_threshold t" using tk th by simp
    have us: "user_of (w_db w') j = (if j = uid then Some (u\<lparr>u_group := g_key t\<rparr>) else user_of (w_db w) j)" for j
      using u keys_okD(1) [OF assms(3)] by (simp add: t(3) user_of_def update_rows_find1)
    show ?thesis
      using u us tt t(2) th best [OF t(1)] by (intro exI [of _ u] exI [of _ "u\<lparr>u_group := g_key t\<rparr>"]) auto
  next
    case False
    then have same: "w_db w' = w_db w"
      and stay: "\<And>t. List.find (\<lambda>g. g_upgrade_threshold g \<le> u_topup_quota u) ?gs = Some t \<Longrightarrow>
        g_key t = u_group u \<or> g_upgrade_threshold t \<le> threshold_of ?gs (u_group u)"
      using out unfolding Let_def by auto
    have "g_upgrade_threshold g \<le> threshold_of (d_groups (w_db w)) (u_group u)"
      if "g \<in> set (d_groups (w_db w))" "g_upgrade_threshold g \<le> u_topup_quota u" for g
      using some [OF that] stay best [OF _ that] tk th by fastforce
    then show ?thesis using u same by auto
  qed
qed

definition level_demo :: world where
  "level_demo = world_with (empty_db\<lparr>
     d_users := [blank_user\<lparr>u_id := 2, u_topup_quota := 600\<rparr>],
     d_groups := [\<lparr>g_id = 1, g_key = ''Lv1'', g_discount = fone, g_sort_order = 0, g_commission_rate = fone,
         g_upgrade_threshold = 0\<rparr>,
       \<lparr>g_id = 2, g_key = ''Lv2'', g_discount = fone, g_sort_order = 1, g_commission_rate = fone,
         g_upgrade_threshold = 500\<rparr>]\<rparr>) 77"

theorem level_reaches_highest_witness:
  "map_option (threshold_of (d_groups (w_db level_demo)) \<circ> u_group)
     (user_of (w_db (snd (RecalcUserLevel 2 level_demo))) 2) = Some 500"
proof -
  have r: "RecalcUserLevel 2 level_demo = (Inr True, snd (RecalcUserLevel 2 level_demo))"
    by (simp add: level_demo_def RecalcUserLevel_def raise_level_def GetGroupConfigsByThresholdDesc_def
        threshold_key_def RecordLog_def exec_global_def run_simps)
  have h: "(0 :: int) < 2" "keys_ok (w_db level_demo)" "distinct (map g_key (d_groups (w_db level_demo)))"
    by (simp_all add: level_demo_def run_simps)
  obtain u u' where u: "user_of (w_db level_demo) 2 = Some u" "user_of (w_db (snd (RecalcUserLevel 2 level_demo))) 2 = Some u'"
    and t: "\<forall>g\<in>set (d_groups (w_db level_demo)). g_upgrade_threshold g \<le> u_topup_quota u \<longrightarrow>
         g_upgrade_threshold g \<le> threshold_of (d_groups (w_db level_demo)) (u_group u')"
    using level_reaches_highest [OF r h] by blast
  have "u_topup_quota u = 600" using u(1) by (auto simp: level_demo_def user_of_def start_defs)
  with t have "500 \<le> threshold_of (d_groups (w_db level_demo)) (u_group u')"
    by (simp add: level_demo_def start_defs)
  moreover have "threshold_of (d_groups (w_db level_demo)) k \<le> 500" for k
    by (simp add: level_demo_def start_defs threshold_of_def)
  ultimately have "threshold_of (d_groups (w_db level_demo)) (u_group u') = 500" by (rule antisym [rotated])
  with u(2) show ?thesis by simp
qed

end
