(* ===== verification/TopUp.thy ===== *)
theory TopUp
  imports UserLevel
begin

text \<open>
  Top-up orders, \<open>model/topup.go\<close> and \<open>model/topup_stripe.go\<close>, and redemption codes,
  \<open>model/redemption.go\<close>: completing an order credits the buyer and the commission of the
  inviter in one transaction, expiring it and redeeming a code are transactions too.
\<close>

section \<open>Amounts\<close>

definition zeroDecimal :: "string list" where
  "zeroDecimal = [''bif'', ''clp'', ''djf'', ''gnf'', ''jpy'', ''kmf'', ''krw'', ''mga'', ''pyg'', ''rwf'',
     ''ugx'', ''vnd'', ''vuv'', ''xaf'', ''xof'', ''xpf'']"

definition StripeAmountTotalToMajor :: "int \<Rightarrow> string \<Rightarrow> f64" where
  "StripeAmountTotalToMajor amountTotal currency =
     (if to_lower (trim_space currency) \<in> set zeroDecimal then f_of_int amountTotal
      else fdiv (f_of_int amountTotal) (f_of_int 100))"

section \<open>Orders\<close>

abbreviation update_topups :: "(topup \<Rightarrow> bool) \<Rightarrow> (topup \<Rightarrow> topup) \<Rightarrow> nat op" where
  "update_topups \<equiv> update_where d_topups d_topups_update"

definition TopUp_Insert :: "topup \<Rightarrow> unit op" where
  "TopUp_Insert tp =
     exec (insert_rows d_topups d_topups_update (\<lambda>r s. tp_id r = tp_id s \<or> tp_trade_no r = tp_trade_no s)
       (\<lambda>d. [tp\<lparr>tp_id := (if tp_id tp = 0 then next_id (map tp_id (d_topups d)) else tp_id tp)\<rparr>]))"

definition GetTopUpByTradeNo :: "string \<Rightarrow> topup option op" where
  "GetTopUpByTradeNo no =
     on_result (first d_topups (\<lambda>t. tp_trade_no t = no)) (\<lambda>r. ret (case r of Inl _ \<Rightarrow> None | Inr t \<Rightarrow> Some t))"

definition CountPendingTopUp :: "int \<Rightarrow> int op" where
  "CountPendingTopUp uid =
     query (\<lambda>d. int (length (filter (\<lambda>t. tp_user_id t = uid \<and> tp_status t = ''pending'') (d_topups d))))"

text \<open>\<open>Save\<close> of a row that was read in the same transaction: every column of its row is written.\<close>

definition save_topup :: "topup \<Rightarrow> unit op" where
  "save_topup tp = stmt (update_topups (\<lambda>t. tp_id t = tp_id tp) (\<lambda>_. tp))"

text \<open>What a completed order reports: buyer, quota, money, currency, inviter, commission.\<close>

type_synonym receipt = "int \<times> int \<times> f64 \<times> string \<times> int \<times> int"

definition no_receipt :: receipt where
  "no_receipt = (0, 0, fzero, [], 0, 0)"

definition credited :: "bool \<Rightarrow> int \<Rightarrow> user \<Rightarrow> user" where
  "credited paid q u = (if paid then add_topup q (add_quota q u) else add_quota q u)"

definition completed_order ::
    "f64 option \<Rightarrow> string option \<Rightarrow> string option \<Rightarrow> string \<Rightarrow> int \<Rightarrow> topup \<Rightarrow> topup" where
  "completed_order money currency receipt other now tp =
     tp\<lparr>tp_money := (case money of Some m \<Rightarrow> m | None \<Rightarrow> tp_money tp),
        tp_currency := (case currency of Some c \<Rightarrow> if c = [] then tp_currency tp else c | None \<Rightarrow> tp_currency tp),
        tp_receipt_url := (case receipt of Some r \<Rightarrow> r | None \<Rightarrow> tp_receipt_url tp),
        tp_other := (if other = [] then tp_other tp else other),
        tp_status := ''success'', tp_complete_time := now\<rparr>"

definition topup_quota_of :: "config \<Rightarrow> int option \<Rightarrow> topup \<Rightarrow> int" where
  "topup_quota_of cfg quota tp = (case quota of Some q \<Rightarrow> q | None \<Rightarrow> AmountToQuota cfg (f_of_int (tp_amount tp)))"

definition topup_body ::
    "string \<Rightarrow> f64 option \<Rightarrow> string option \<Rightarrow> int option \<Rightarrow> string option \<Rightarrow> string \<Rightarrow> receipt op" where
  "topup_body tradeNo money currency quota receipt other =
     on_result (first d_topups (\<lambda>t. tp_trade_no t = tradeNo)) (\<lambda>r. case r of
       Inl _ \<Rightarrow> fail (Msg ''top-up order not found'')
     | Inr tp \<Rightarrow> reading (\<lambda>w.
         if tp_status tp \<noteq> ''pending'' then ret no_receipt
         else let q = topup_quota_of (w_cfg w) quota tp
         in if q \<le> 0 then fail (Msg ''invalid top-up quota'')
         else let tp' = completed_order money currency receipt other (w_now w) tp
         in then_do (save_topup tp')
           (then_do (stmt (update_users (\<lambda>u. u_id u = tp_user_id tp') (credited (other = []) q)))
             (if other = []
              then on_ok (GrantCommission (tp_user_id tp') (tp_money tp') q SourceTypeStripeCheckout (tp_trade_no tp'))
                (\<lambda>(i, cq). ret (tp_user_id tp', q, tp_money tp', tp_currency tp', i, cq))
              else ret (tp_user_id tp', q, tp_money tp', tp_currency tp', 0, 0)))))"

definition topup_after :: "receipt \<Rightarrow> unit op" where
  "topup_after = (\<lambda>(uid, q, money, currency, inviter, cq).
     if 0 < uid \<and> 0 < q then
       then_do (RecordLog uid LogTypeTopup (LogTopUp q money currency))
      (then_do (ignore_err (CacheUpdateUserQuota2 uid))
      (then_do (if 0 < inviter \<and> 0 < cq
                then then_do (ignore_err (CacheUpdateUserQuota2 inviter))
                       (RecordLog inviter LogTypeAffCommission (LogCommission cq uid))
                else ret ())
        (RecalcUserLevelAndRefreshCache uid)))
     else ret ())"

definition completeTopUpOrder ::
    "string \<Rightarrow> f64 option \<Rightarrow> string option \<Rightarrow> int option \<Rightarrow> string option \<Rightarrow> string \<Rightarrow> unit op" where
  "completeTopUpOrder tradeNo money currency quota receipt other =
     (if tradeNo = [] then fail (Msg ''trade number not provided'')
      else on_ok (transaction (topup_body tradeNo money currency quota receipt other)) topup_after)"

definition CompleteTopUpOrder :: "string \<Rightarrow> unit op" where
  "CompleteTopUpOrder tradeNo = completeTopUpOrder tradeNo None None None None []"

text \<open>The JSON of the operator's note is a parameter: it is stored and never read back.\<close>

definition CompleteTopUpOrderManual :: "string \<Rightarrow> int \<Rightarrow> string \<Rightarrow> unit op" where
  "CompleteTopUpOrderManual tradeNo operator metaJSON =
     (if operator \<le> 0 then fail (Msg ''invalid operator'')
      else completeTopUpOrder tradeNo None None None None metaJSON)"

definition CompleteStripeTopUp :: "string \<Rightarrow> unit op" where
  "CompleteStripeTopUp tradeNo = CompleteTopUpOrder tradeNo"

definition CompleteStripeTopUpFromCheckout :: "string \<Rightarrow> int \<Rightarrow> string \<Rightarrow> string \<Rightarrow> unit op" where
  "CompleteStripeTopUpFromCheckout tradeNo netTotal currency receiptUrl =
     reading (\<lambda>w.
       let net = StripeAmountTotalToMajor netTotal currency;
           cur = to_upper (trim_space currency)
       in completeTopUpOrder tradeNo (Some net) (if cur \<noteq> [] then Some cur else None)
            (Some (AmountToQuota (w_cfg w) net)) (if receiptUrl \<noteq> [] then Some receiptUrl else None) [])"

definition CreateStripeTopUp :: "int \<Rightarrow> int \<Rightarrow> string \<Rightarrow> unit op" where
  "CreateStripeTopUp uid amount tradeNo =
     reading (\<lambda>w. TopUp_Insert \<lparr>tp_id = 0, tp_user_id = uid, tp_amount = amount, tp_money = f_of_int amount,
       tp_trade_no = tradeNo, tp_payment_method = ''stripe'', tp_currency = ''USD'', tp_create_time = w_now w,
       tp_complete_time = 0, tp_status = ''pending'', tp_other = [], tp_receipt_url = []\<rparr>)"

definition expire_body :: "string \<Rightarrow> unit op" where
  "expire_body tradeNo =
     on_result (first d_topups (\<lambda>t. tp_trade_no t = tradeNo)) (\<lambda>r. case r of
       Inl _ \<Rightarrow> fail (Msg ''top-up order not found'')
     | Inr tp \<Rightarrow> reading (\<lambda>w.
         if tp_status tp \<noteq> ''pending'' then ret ()
         else save_topup (tp\<lparr>tp_status := ''expired'', tp_complete_time := w_now w\<rparr>)))"

definition ExpireTopUpOrder :: "string \<Rightarrow> unit op" where
  "ExpireTopUpOrder tradeNo =
     (if tradeNo = [] then fail (Msg ''trade number not provided'') else transaction (expire_body tradeNo))"

section \<open>Redemption codes\<close>

definition save_redemption :: "redemption \<Rightarrow> unit op" where
  "save_redemption rd =
     stmt (update_where d_redemptions d_redemptions_update (\<lambda>r. rd_id r = rd_id rd) (\<lambda>_. rd))"

definition redeem_body :: "string \<Rightarrow> int \<Rightarrow> int op" where
  "redeem_body key uid =
     on_result (first d_redemptions (\<lambda>r. rd_key r = key)) (\<lambda>r. case r of
       Inl _ \<Rightarrow> fail (Msg ''invalid redemption code'')
     | Inr rd \<Rightarrow> reading (\<lambda>w.
         if rd_status rd \<noteq> RedemptionCodeStatusEnabled then fail (Msg ''redemption code has already been used'')
         else then_do (stmt (update_users (\<lambda>u. u_id u = uid) (add_quota (rd_quota rd))))
           (then_do (save_redemption (rd\<lparr>rd_redeemed_time := w_now w, rd_status := RedemptionCodeStatusUsed\<rparr>))
             (ret (rd_quota rd)))))"

definition Redeem :: "string \<Rightarrow> int \<Rightarrow> int op" where
  "Redeem key uid =
     (if key = [] then fail (Msg ''redemption code is required'')
      else if uid = 0 then fail (Msg ''invalid user id'')
      else on_result (transaction (redeem_body key uid)) (\<lambda>r. case r of
        Inl e \<Rightarrow> fail (Msg ''redemption failed'')
      | Inr q \<Rightarrow> then_do (RecordLog uid LogTypeTopup (LogRedeem q)) (ret q)))"

section \<open>Balances\<close>

text \<open>The money columns of a user: quota, accumulated top-ups, gifts. A view of the database.\<close>

definition balance :: "user \<Rightarrow> int \<times> int \<times> int" where
  "balance u = (u_quota u, u_topup_quota u, u_gift_quota u)"

definition money_view :: "db \<Rightarrow> (int \<times> int \<times> int \<times> int) list \<times> topup list" where
  "money_view d = (map (\<lambda>u. (u_id u, balance u)) (d_users d), d_topups d)"

definition balance_of :: "db \<Rightarrow> int \<Rightarrow> (int \<times> int \<times> int) option" where
  "balance_of d i = map_option balance (user_of d i)"

lemma balance_of_view: "balance_of d i = map_of (fst (money_view d)) i"
proof -
  have "map_option balance (List.find (\<lambda>u. u_id u = i) us) = map_of (map (\<lambda>u. (u_id u, balance u)) us) i" for us
    by (induction us) auto
  then show ?thesis by (simp add: balance_of_def user_of_def money_view_def)
qed

lemma same_balances: "money_view d' = money_view d \<Longrightarrow> balance_of d' = balance_of d \<and> d_topups d' = d_topups d"
  by (auto simp: balance_of_view money_view_def)

lemma keeps_group: "keeps money_view (stmt (update_users p (\<lambda>u. u\<lparr>u_group := k\<rparr>)))"
  unfolding stmt_def
  by (intro keeps_intros keeps_update)
    (auto simp: money_view_def update_rows_def balance_def o_def)

lemma keeps_level: "keeps money_view (RecalcUserLevelAndRefreshCache uid)"
  unfolding RecalcUserLevelAndRefreshCache_def RecalcUserLevel_def raise_level_def
    GetGroupConfigsByThresholdDesc_def InvalidateUserGroupCache_def Let_def
  by (intro keeps_intros keeps_group)

lemma keeps_after: "keeps money_view (topup_after rc)"
  unfolding topup_after_def CacheUpdateUserQuota2_def GetUserQuota_def
  by (cases rc) (simp, intro conjI impI keeps_intros keeps_level)

lemma after_result:
  assumes "topup_after rc w = (r, w')"
  shows "balance_of (w_db w') = balance_of (w_db w) \<and> d_topups (w_db w') = d_topups (w_db w)"
  using keepsD [OF keeps_after assms] by (rule same_balances)

section \<open>Completion\<close>

lemma save_topup_Inr:
  "save_topup tp w = (Inr (), w') \<Longrightarrow> w_db w' = d_topups_update (update_rows (\<lambda>t. tp_id t = tp_id tp) (\<lambda>_. tp)) (w_db w)"
  unfolding save_topup_def by (drule stmt_result(2)) simp_all

definition commission_step :: "string \<Rightarrow> db \<Rightarrow> db \<Rightarrow> int \<Rightarrow> int \<Rightarrow> bool" where
  "commission_step no d d' i q \<longleftrightarrow> (i = 0 \<and> q = 0 \<and> d' = d) \<or> granted d d' i q no"

text \<open>The two writes of a completion before the commission.\<close>

definition credit_db :: "topup \<Rightarrow> bool \<Rightarrow> int \<Rightarrow> db \<Rightarrow> db" where
  "credit_db tp paid q d =
     d_users_update (update_rows (\<lambda>u. u_id u = tp_user_id tp) (credited paid q))
       (d_topups_update (update_rows (\<lambda>t. tp_id t = tp_id tp) (\<lambda>_. tp)) d)"

lemma topup_credit_Inr:
  assumes "then_do (save_topup tp')
           (then_do (stmt (update_users (\<lambda>u. u_id u = tp_user_id tp') (credited paid q)))
             (if paid
              then on_ok (GrantCommission a b c d e)
                (\<lambda>(i, cq). ret (tp_user_id tp', q, tp_money tp', tp_currency tp', i, cq))
              else ret (tp_user_id tp', q, tp_money tp', tp_currency tp', 0, 0))) w = (Inr rc, w')"
  obtains i cq where "rc = (tp_user_id tp', q, tp_money tp', tp_currency tp', i, cq)" "i = 0 \<or> i \<noteq> a"
    "commission_step e (credit_db tp' paid q (w_db w)) (w_db w') i cq" "\<not> paid \<Longrightarrow> i = 0 \<and> cq = 0"
proof -
  obtain w1 w2 where s: "save_topup tp' w = (Inr (), w1)"
    and c: "stmt (update_users (\<lambda>u. u_id u = tp_user_id tp') (credited paid q)) w1 = (Inr (), w2)"
    and g: "(if paid then on_ok (GrantCommission a b c d e)
                (\<lambda>(i, cq). ret (tp_user_id tp', q, tp_money tp', tp_currency tp', i, cq))
              else ret (tp_user_id tp', q, tp_money tp', tp_currency tp', 0, 0)) w2 = (Inr rc, w')"
    using assms by (elim then_do_Inr) auto
  have db: "w_db w2 = credit_db tp' paid q (w_db w)"
    using stmt_result(2) [OF c] save_topup_Inr [OF s] by (simp add: credit_db_def)
  show thesis
  proof (cases paid)
    case False
    with g db show thesis by (intro that [of 0 0]) (auto simp: commission_step_def)
  next
    case True
    then obtain i cq w3 where k: "GrantCommission a b c d e w2 = (Inr (i, cq), w3)"
      and r: "rc = (tp_user_id tp', q, tp_money tp', tp_currency tp', i, cq)" "w' = w3"
      using g by (auto elim!: on_ok_Inr)
    from GrantCommission_outcome [OF k] yieldsD [OF GrantCommission_other k] db r True show thesis
      by (intro that [of i cq]) (auto simp: grant_outcome_def commission_step_def)
  qed
qed

lemma topup_body_Inr:
  assumes "topup_body no money currency quota receipt other w = (Inr rc, w')"
  obtains (idle) "rc = no_receipt" "w_db w' = w_db w"
      "\<And>tp. List.find (\<lambda>t. tp_trade_no t = no) (d_topups (w_db w)) = Some tp \<Longrightarrow> tp_status tp \<noteq> ''pending''"
  | (credit) tp tp' i cq where "List.find (\<lambda>t. tp_trade_no t = no) (d_topups (w_db w)) = Some tp"
      "tp_status tp = ''pending''" "tp' = completed_order money currency receipt other (w_now w) tp"
      "0 < topup_quota_of (w_cfg w) quota tp"
      "rc = (tp_user_id tp, topup_quota_of (w_cfg w) quota tp, tp_money tp', tp_currency tp', i, cq)"
      "commission_step no (credit_db tp' (other = []) (topup_quota_of (w_cfg w) quota tp) (w_db w)) (w_db w') i cq"
      "other \<noteq> [] \<Longrightarrow> i = 0 \<and> cq = 0" "i = 0 \<or> i \<noteq> tp_user_id tp"
  using assms unfolding topup_body_def
proof (cases rule: on_first)
  case (err e w1)
  then show thesis by simp
next
  case (row tp w1)
  let ?q = "topup_quota_of (w_cfg w) quota tp"
  let ?tp = "completed_order money currency receipt other (w_now w) tp"
  note t = touchedD(1-3) [OF row(1)]
  have no: "tp_trade_no tp = no" using find_SomeD [OF row(2)] by simp
  show thesis
  proof (cases "tp_status tp = ''pending''")
    case False
    with row t show thesis by (intro idle) (auto simp: reading_def)
  next
    case True
    have fields: "tp_user_id ?tp = tp_user_id tp" "tp_trade_no ?tp = no" using no by (simp_all add: completed_order_def)
    have q: "?q > 0" using row(4) True t by (simp add: reading_def Let_def split: if_splits)
    have "then_do (save_topup ?tp)
           (then_do (stmt (update_users (\<lambda>u. u_id u = tp_user_id ?tp) (credited (other = []) ?q)))
             (if other = []
              then on_ok (GrantCommission (tp_user_id ?tp) (tp_money ?tp) ?q SourceTypeStripeCheckout (tp_trade_no ?tp))
                (\<lambda>(i, cq). ret (tp_user_id ?tp, ?q, tp_money ?tp, tp_currency ?tp, i, cq))
              else ret (tp_user_id ?tp, ?q, tp_money ?tp, tp_currency ?tp, 0, 0))) w1 = (Inr rc, w')"
      using row(4) True q unfolding sum.case reading_def Let_def t by (simp del: if_split)
    from topup_credit_Inr [OF this] t fields credit [OF row(2) True refl q] show thesis by auto
  qed
qed

lemma keeps_base_topup: "keeps_base (topup_body no money currency quota receipt other)"
proof -
  have "keeps_base (case p of (i, cq) \<Rightarrow> ret (f i cq))" for p :: "int \<times> int" and f :: "int \<Rightarrow> int \<Rightarrow> receipt"
    by (cases p) (simp add: base_intros)
  then show ?thesis
    unfolding topup_body_def save_topup_def stmt_def Let_def
    by (intro base_intros keeps_base_grant)
qed

lemma keeps_base_after: "keeps_base (topup_after rc)"
  unfolding topup_after_def CacheUpdateUserQuota2_def GetUserQuota_def RecalcUserLevelAndRefreshCache_def
    RecalcUserLevel_def raise_level_def GetGroupConfigsByThresholdDesc_def InvalidateUserGroupCache_def Let_def stmt_def
  by (cases rc) (simp, intro conjI impI base_intros)

text \<open>What follows the transaction reports no error.\<close>

definition succeeds :: "'a op \<Rightarrow> bool" where
  "succeeds f \<longleftrightarrow> (\<forall>w e w'. f w \<noteq> (Inl e, w'))"

lemma succeeds_on_ok: "succeeds f \<Longrightarrow> (\<And>a. succeeds (k a)) \<Longrightarrow> succeeds (on_ok f k)"
  unfolding succeeds_def on_ok_def by (auto split: prod.splits sum.splits)

lemma succeeds_then_do: "succeeds f \<Longrightarrow> succeeds h \<Longrightarrow> succeeds (then_do f h)"
  unfolding then_do_def by (rule succeeds_on_ok)

lemma succeeds_log: "succeeds (RecordLog uid ty c)"
  unfolding succeeds_def using RecordLog_result(1) by fastforce

lemma succeeds_basic:
  "succeeds (ret a)" "succeeds (ignore_err g)"
  "(\<And>r. succeeds (k' r)) \<Longrightarrow> succeeds (on_result g' k')"
  "(\<And>v. succeeds (rd v)) \<Longrightarrow> succeeds (reading rd)"
  "succeeds f \<Longrightarrow> succeeds h \<Longrightarrow> succeeds (if b then f else h)"
  by (auto simp: succeeds_def ret_def ignore_err_def on_result_def reading_def split: prod.splits)

lemmas succeeds_rules = succeeds_on_ok succeeds_then_do succeeds_log succeeds_basic

lemma succeeds_sum: "(\<And>e. succeeds (f e)) \<Longrightarrow> (\<And>a. succeeds (g a)) \<Longrightarrow> succeeds (case r of Inl e \<Rightarrow> f e | Inr a \<Rightarrow> g a)"
  by (cases r) auto

lemma after_succeeds: "topup_after rc w = (r, w') \<Longrightarrow> r = Inr ()"
proof -
  have "succeeds (topup_after rc)"
    unfolding topup_after_def RecalcUserLevelAndRefreshCache_def InvalidateUserGroupCache_def
    by (cases rc) (simp, intro conjI impI succeeds_rules succeeds_sum)
  moreover assume "topup_after rc w = (r, w')"
  ultimately show ?thesis unfolding succeeds_def by (cases r) auto
qed

section \<open>A completion in full\<close>

lemma completion_Inl:
  assumes "completeTopUpOrder no money currency quota receipt other w = (Inl e, w')" "w_base w = None"
  shows "w_db w' = w_db w"
proof (cases "no = []")
  case True
  with assms show ?thesis by (simp add: completeTopUpOrder_def)
next
  case False
  obtain r w1 where t: "transaction (topup_body no money currency quota receipt other) w = (r, w1)" by fastforce
  with assms(1) False have "r = Inl e" "w1 = w'"
    by (auto simp: completeTopUpOrder_def on_ok_def split: sum.splits dest!: after_succeeds)
  with t show ?thesis using transaction_atomic [OF keeps_base_topup assms(2)] by simp
qed

lemma completion_Inr:
  assumes "completeTopUpOrder no money currency quota receipt other w = (Inr (), w')"
  obtains rc v w1 where "topup_body no money currency quota receipt other v = (Inr rc, w1)"
    "w_db v = w_db w" "w_cfg v = w_cfg w" "w_now v = w_now w"
    "balance_of (w_db w') = balance_of (w_db w1)" "d_topups (w_db w') = d_topups (w_db w1)"
proof -
  have "on_ok (transaction (topup_body no money currency quota receipt other)) topup_after w = (Inr (), w')"
    using assms by (simp add: completeTopUpOrder_def split: if_splits)
  then obtain rc w0 where t: "transaction (topup_body no money currency quota receipt other) w = (Inr rc, w0)"
    and a: "topup_after rc w0 = (Inr (), w')" by (rule on_ok_Inr)
  from t obtain fs w1 fs' where
    "topup_body no money currency quota receipt other (w\<lparr>w_base := Some (w_db w), w_aborted := False, w_faults := fs\<rparr>) = (Inr rc, w1)"
    "w0 = w1\<lparr>w_base := None, w_faults := fs'\<rparr>" by (rule transaction_Inr)
  with after_result [OF a] that
    [of "w\<lparr>w_base := Some (w_db w), w_aborted := False, w_faults := fs\<rparr>" rc w1] show thesis by simp
qed

lemma find_saved:
  assumes "List.find p xs = Some x" "distinct (map key xs)" "p y" "key y = key x"
  shows "List.find p (update_rows (\<lambda>r. key r = key x) (\<lambda>_. y) xs) = Some y"
  using assms(1,2)
proof (induction xs)
  case Nil
  then show ?case by simp
next
  case (Cons z zs)
  then show ?case using assms(3) later_key [OF Cons.prems(2)] find_SomeD [of p zs x]
    by (auto simp: update_rows_def split: if_splits)
qed

lemma credit_db_effect:
  assumes "keys_ok d" "List.find (\<lambda>t. tp_trade_no t = no) (d_topups d) = Some tp"
    and "tp_id tp' = tp_id tp" "tp_trade_no tp' = no"
  shows "keys_ok (credit_db tp' paid q d)"
    and "List.find (\<lambda>t. tp_trade_no t = no) (d_topups (credit_db tp' paid q d)) = Some tp'"
    and "user_of (credit_db tp' paid q d) j =
      (if j = tp_user_id tp' then map_option (credited paid q) (user_of d j) else user_of d j)"
proof -
  note k = assms(1) [unfolded keys_ok_def]
  have c: "u_id (credited paid q u) = u_id u" for u by (simp add: credited_def add_quota_def add_topup_def)
  have "map tp_id (update_rows (\<lambda>t. tp_id t = tp_id tp') (\<lambda>_. tp') rs) = map tp_id rs" for rs
    by (simp add: update_rows_def)
  then show "keys_ok (credit_db tp' paid q d)" using k c by (simp add: keys_ok_def credit_db_def)
  show "List.find (\<lambda>t. tp_trade_no t = no) (d_topups (credit_db tp' paid q d)) = Some tp'"
    using find_saved [OF assms(2), of tp_id tp'] k assms(3,4) by (simp add: credit_db_def)
  show "user_of (credit_db tp' paid q d) j =
      (if j = tp_user_id tp' then map_option (credited paid q) (user_of d j) else user_of d j)"
    using k c by (simp add: credit_db_def user_of_def update_rows_find1)
qed

lemma commission_balance:
  assumes "commission_step no d d' i c" "keys_ok d"
  shows "balance_of d' j = (if j = i then map_option (\<lambda>(a, b, g). (a + c, b, g + c)) (balance_of d j) else balance_of d j)"
    and "d_topups d' = d_topups d"
proof -
  have z: "map_option (\<lambda>(a, b, g). (a + 0, b, g + 0)) x = x" for x :: "(int \<times> int \<times> int) option"
    by (cases x) auto
  have "user_of d' j = (if j = i
          then map_option (\<lambda>u. u\<lparr>u_quota := u_quota u + c, u_gift_quota := u_gift_quota u + c\<rparr>) (user_of d j)
          else user_of d j)" if "granted d d' i c no"
    using granted_effect [OF that assms(2)] by blast
  with assms(1) z show "balance_of d' j = (if j = i then map_option (\<lambda>(a, b, g). (a + c, b, g + c)) (balance_of d j) else balance_of d j)"
    unfolding commission_step_def balance_of_def
    by (auto simp: balance_def option.map_comp o_def intro: option.map_cong)
  show "d_topups d' = d_topups d"
    using assms(1) by (auto simp: commission_step_def granted_def grant_db_def)
qed

text \<open>
  C7. A top-up order that is not pending is never credited again, and a completion that
  reports an error credits nothing: in both cases every balance and every order stay as they
  were, whichever statement fails.
\<close>

theorem topup_not_credited_twice:
  assumes "completeTopUpOrder no money currency quota receipt other w = (r, w')" "w_base w = None"
    and "(\<exists>e. r = Inl e) \<or>
      (\<forall>tp. List.find (\<lambda>t. tp_trade_no t = no) (d_topups (w_db w)) = Some tp \<longrightarrow> tp_status tp \<noteq> ''pending'')"
  shows "balance_of (w_db w') = balance_of (w_db w) \<and> d_topups (w_db w') = d_topups (w_db w)"
proof (cases r)
  case (Inl e)
  with assms(1) completion_Inl [OF _ assms(2)] show ?thesis by simp
next
  case (Inr u)
  with assms(1) have "completeTopUpOrder no money currency quota receipt other w = (Inr (), w')" by simp
  then obtain rc v w1 where b: "topup_body no money currency quota receipt other v = (Inr rc, w1)"
    and v: "w_db v = w_db w" and bal: "balance_of (w_db w') = balance_of (w_db w1)" "d_topups (w_db w') = d_topups (w_db w1)"
    by (rule completion_Inr)
  have "w_db w1 = w_db w" using b v assms(3) Inr by (cases rule: topup_body_Inr) auto
  with bal show ?thesis by simp
qed

text \<open>
  Completing a pending order credits its buyer with exactly the quota of the order (in
  the balance and, for a paid order, in the accumulated top-ups), marks the order successful
  and leaves every other balance alone, apart from the commission of one other user, which
  the gift total of that user grows by as well.
\<close>

theorem topup_credits_exactly:
  assumes "completeTopUpOrder no money currency quota receipt other w = (Inr (), w')" "keys_ok (w_db w)"
    and "List.find (\<lambda>t. tp_trade_no t = no) (d_topups (w_db w)) = Some tp" "tp_status tp = ''pending''"
    and "balance_of (w_db w) (tp_user_id tp) = Some (a, b, g)" "q = topup_quota_of (w_cfg w) quota tp"
  shows "0 < q \<and>
    balance_of (w_db w') (tp_user_id tp) = Some (a + q, if other = [] then b + q else b, g) \<and>
    (\<exists>tp'. List.find (\<lambda>t. tp_trade_no t = no) (d_topups (w_db w')) = Some tp' \<and> tp_status tp' = ''success'') \<and>
    (\<exists>i c. i \<noteq> tp_user_id tp \<and> (other \<noteq> [] \<longrightarrow> c = 0) \<and> (\<forall>j. j \<noteq> tp_user_id tp \<longrightarrow>
       balance_of (w_db w') j = (if j = i then map_option (\<lambda>(a, b, g). (a + c, b, g + c)) (balance_of (w_db w) j)
         else balance_of (w_db w) j)))"
proof -
  obtain rc v w1 where b: "topup_body no money currency quota receipt other v = (Inr rc, w1)"
    and v: "w_db v = w_db w" "w_cfg v = w_cfg w"
    and bal: "balance_of (w_db w') = balance_of (w_db w1)" "d_topups (w_db w') = d_topups (w_db w1)"
    using assms(1) by (rule completion_Inr) blast
  let ?uid = "tp_user_id tp"
  obtain tp' i c where tp': "tp_id tp' = tp_id tp" "tp_trade_no tp' = no" "tp_user_id tp' = ?uid" "tp_status tp' = ''success''"
    and q: "0 < q" and st: "commission_step no (credit_db tp' (other = []) q (w_db w)) (w_db w1) i c"
    and o: "other \<noteq> [] \<longrightarrow> i = 0 \<and> c = 0" and i: "i = 0 \<or> i \<noteq> ?uid"
  proof (cases rule: topup_body_Inr [OF b])
    case 1
    then show thesis using assms(3,4) v by auto
  next
    case (2 t t' i c)
    then show thesis using assms(3,6) v find_SomeD [OF assms(3)]
      by (intro that [of t' i c]) (auto simp: completed_order_def)
  qed
  note eff = credit_db_effect [OF assms(2,3) tp'(1,2), of "other = []" q]
  note com = commission_balance [OF st eff(1)]
  have c0: "i = 0 \<longrightarrow> c = 0" using st by (auto simp: commission_step_def granted_def)
  have credit: "balance_of (credit_db tp' (other = []) q (w_db w)) j =
      (if j = ?uid then Some (a + q, if other = [] then b + q else b, g) else balance_of (w_db w) j)" for j
    using assms(5) eff(3) [of j] tp'(3)
    by (auto simp: balance_of_def balance_def credited_def add_quota_def add_topup_def)
  have same: "map_option (\<lambda>(a, b, g). (a + 0, b, g + 0)) x = x" for x :: "(int \<times> int \<times> int) option"
    by (cases x) auto
  let ?i = "if i = 0 then ?uid + 1 else i"
  have fin: "balance_of (w_db w') j = (if j = i then map_option (\<lambda>(a, b, g). (a + c, b, g + c))
      (balance_of (credit_db tp' (other = []) q (w_db w)) j) else balance_of (credit_db tp' (other = []) q (w_db w)) j)" for j
    using bal(1) com(1) [of j] by simp
  have "balance_of (w_db w') ?uid = Some (a + q, if other = [] then b + q else b, g)"
    using fin [of ?uid] credit i c0 same by (cases "i = 0") auto
  moreover have "?i \<noteq> ?uid" using i by auto
  moreover have "\<forall>j. j \<noteq> ?uid \<longrightarrow> balance_of (w_db w') j =
      (if j = ?i then map_option (\<lambda>(a, b, g). (a + c, b, g + c)) (balance_of (w_db w) j) else balance_of (w_db w) j)"
    using fin credit c0 same by (cases "i = 0") auto
  moreover have "List.find (\<lambda>t. tp_trade_no t = no) (d_topups (w_db w')) = Some tp'"
    using bal(2) com(2) eff(2) by simp
  ultimately show ?thesis using q tp'(4) o by blast
qed

section \<open>Redemption codes pay once\<close>

lemma redeem_body_Inr:
  assumes "redeem_body key uid w = (Inr q, w')"
  obtains rd where "List.find (\<lambda>r. rd_key r = key) (d_redemptions (w_db w)) = Some rd"
    "rd_status rd = RedemptionCodeStatusEnabled" "q = rd_quota rd"
    "w_db w' = d_redemptions_update (update_rows (\<lambda>r. rd_id r = rd_id rd)
        (\<lambda>_. rd\<lparr>rd_redeemed_time := w_now w, rd_status := RedemptionCodeStatusUsed\<rparr>))
      (d_users_update (update_rows (\<lambda>u. u_id u = uid) (add_quota q)) (w_db w))"
  using assms unfolding redeem_body_def
proof (cases rule: on_first)
  case (err e w1)
  then show thesis by simp
next
  case (row rd w1)
  note t = touchedD(1,3) [OF row(1)]
  let ?rd = "rd\<lparr>rd_redeemed_time := w_now w, rd_status := RedemptionCodeStatusUsed\<rparr>"
  have st: "rd_status rd = RedemptionCodeStatusEnabled"
    using row(4) by (simp add: reading_def split: if_splits)
  with row(4) t have "then_do (stmt (update_users (\<lambda>u. u_id u = uid) (add_quota (rd_quota rd))))
      (then_do (save_redemption ?rd) (ret (rd_quota rd))) w1 = (Inr q, w')"
    by (simp add: reading_def)
  then obtain w2 where "stmt (update_users (\<lambda>u. u_id u = uid) (add_quota (rd_quota rd))) w1 = (Inr (), w2)"
    "save_redemption ?rd w2 = (Inr (), w')" "q = rd_quota rd"
    by (elim then_do_Inr) auto
  with row(2) st t show thesis
    by (intro that) (auto simp: save_redemption_def dest!: stmt_result(2))
qed

lemma keeps_base_redeem: "keeps_base (redeem_body key uid)"
  unfolding redeem_body_def save_redemption_def stmt_def by (intro base_intros)

lemma Redeem_result:
  assumes "Redeem key uid w = (r, w')" "w_base w = None"
  shows "(\<exists>e. r = Inl e) \<and> w_db w' = w_db w \<or>
    (\<exists>v w1 q. r = Inr q \<and> redeem_body key uid v = (Inr q, w1) \<and> w_db v = w_db w \<and> w_db w' = w_db w1)"
proof (cases "key = [] \<or> uid = 0")
  case True
  with assms(1) show ?thesis by (auto simp: Redeem_def split: if_splits)
next
  case False
  then obtain r1 w0 where t: "transaction (redeem_body key uid) w = (r1, w0)"
    and k: "(case r1 of Inl e \<Rightarrow> fail (Msg ''redemption failed'')
      | Inr q \<Rightarrow> then_do (RecordLog uid LogTypeTopup (LogRedeem q)) (ret q)) w0 = (r, w')"
    using assms(1) by (auto simp: Redeem_def)
  show ?thesis
  proof (cases r1)
    case (Inl e)
    with k t transaction_atomic [OF keeps_base_redeem assms(2)] show ?thesis by auto
  next
    case (Inr q)
    obtain fs w1 fs' where b: "redeem_body key uid (w\<lparr>w_base := Some (w_db w), w_aborted := False, w_faults := fs\<rparr>) = (Inr q, w1)"
      "w0 = w1\<lparr>w_base := None, w_faults := fs'\<rparr>"
      using t [unfolded Inr] by (rule transaction_Inr)
    obtain r2 w2 where l: "RecordLog uid LogTypeTopup (LogRedeem q) w0 = (r2, w2)" by fastforce
    from RecordLog_result(1,2) [OF l] k l Inr have "r = Inr q" "w_db w' = w_db w0"
      by (simp_all add: then_do_def on_ok_def)
    with b show ?thesis
      by (intro disjI2 exI [of _ "w\<lparr>w_base := Some (w_db w), w_aborted := False, w_faults := fs\<rparr>"]
          exI [of _ w1] exI [of _ q]) simp
  qed
qed

text \<open>
  C20. A redemption code pays once: a redemption that succeeds found the code enabled, adds
  exactly its quota to the balance of the user and no other, and every later redemption of
  the code, by any user and whichever statement fails, reports an error and changes nothing.
  A failed redemption changes nothing.
\<close>

theorem redeem_pays_once:
  assumes "Redeem key uid w = (r, w')" "w_base w = None" "keys_ok (w_db w)"
  shows "case r of Inl _ \<Rightarrow> w_db w' = w_db w
    | Inr q \<Rightarrow> (\<exists>rd\<in>set (d_redemptions (w_db w)). rd_key rd = key \<and> rd_status rd = RedemptionCodeStatusEnabled \<and> rd_quota rd = q) \<and>
       (\<forall>j. user_of (w_db w') j = (if j = uid then map_option (add_quota q) (user_of (w_db w) j) else user_of (w_db w) j)) \<and>
       (\<forall>uid2 v r2 w2. w_db v = w_db w' \<and> w_base v = None \<and> Redeem key uid2 v = (r2, w2) \<longrightarrow>
          (\<exists>e. r2 = Inl e) \<and> w_db w2 = w_db w')"
proof (cases r)
  case (Inl e)
  with Redeem_result [OF assms(1,2)] show ?thesis by auto
next
  case (Inr q)
  with Redeem_result [OF assms(1,2)] obtain v0 w1 where b: "redeem_body key uid v0 = (Inr q, w1)"
    and db: "w_db v0 = w_db w" "w_db w' = w_db w1" by auto
  obtain rd where rd: "List.find (\<lambda>r. rd_key r = key) (d_redemptions (w_db w)) = Some rd"
    "rd_status rd = RedemptionCodeStatusEnabled" "q = rd_quota rd"
    "w_db w' = d_redemptions_update (update_rows (\<lambda>r. rd_id r = rd_id rd)
        (\<lambda>_. rd\<lparr>rd_redeemed_time := w_now v0, rd_status := RedemptionCodeStatusUsed\<rparr>))
      (d_users_update (update_rows (\<lambda>u. u_id u = uid) (add_quota q)) (w_db w))"
    using redeem_body_Inr [OF b] db by auto
  let ?rd = "rd\<lparr>rd_redeemed_time := w_now v0, rd_status := RedemptionCodeStatusUsed\<rparr>"
  note k = assms(3) [unfolded keys_ok_def]
  have used: "List.find (\<lambda>r. rd_key r = key) (d_redemptions (w_db w')) = Some ?rd"
    using find_saved [OF rd(1), of rd_id ?rd] k find_SomeD [OF rd(1)] rd(4) by simp
  have "(\<exists>e. r2 = Inl e) \<and> w_db w2 = w_db w'"
    if "w_db v = w_db w'" "w_base v = None" "Redeem key uid2 v = (r2, w2)" for uid2 v r2 w2
  proof -
    have "\<not> (\<exists>v1 w3 q'. redeem_body key uid2 v1 = (Inr q', w3) \<and> w_db v1 = w_db v)"
    proof (intro notI, elim exE conjE)
      fix v1 w3 q' assume "redeem_body key uid2 v1 = (Inr q', w3)" "w_db v1 = w_db v"
      then show False using used that(1) by (cases rule: redeem_body_Inr) (auto simp: status_defs)
    qed
    with Redeem_result [OF that(3,2)] that(1) show ?thesis by auto
  qed
  moreover have "user_of (w_db w') j = (if j = uid then map_option (add_quota q) (user_of (w_db w) j) else user_of (w_db w) j)" for j
    using k by (simp add: rd(4) user_of_def update_rows_find1)
  moreover have "\<exists>rd\<in>set (d_redemptions (w_db w)). rd_key rd = key \<and> rd_status rd = RedemptionCodeStatusEnabled \<and> rd_quota rd = q"
    using rd(2,3) find_SomeD [OF rd(1)] by blast
  ultimately show ?thesis unfolding Inr sum.case by blast
qed

section \<open>Concrete runs\<close>

definition topup_demo :: world where
  "topup_demo = aff_demo\<lparr>w_db := (w_db aff_demo)\<lparr>
     d_topups := [\<lparr>tp_id = 4, tp_user_id = 2, tp_amount = 10, tp_money = f_of_int 10, tp_trade_no = ''T1'',
       tp_payment_method = ''stripe'', tp_currency = ''USD'', tp_create_time = 5, tp_complete_time = 0,
       tp_status = ''pending'', tp_other = [], tp_receipt_url = []\<rparr>],
     d_redemptions := [\<lparr>rd_id = 3, rd_user_id = 1, rd_key = ''K'', rd_status = 1, rd_name = [], rd_quota = 700,
       rd_created_time = 1, rd_redeemed_time = 0\<rparr>]\<rparr>\<rparr>"

lemmas topup_run = topup_demo_def grant_run completeTopUpOrder_def topup_body_def topup_quota_of_def AmountToQuota_def
  save_topup_def credited_def completed_order_def topup_after_def CacheUpdateUserQuota2_def RecalcUserLevelAndRefreshCache_def
  RecalcUserLevel_def raise_level_def GetGroupConfigsByThresholdDesc_def threshold_key_def InvalidateUserGroupCache_def
  RecordLog_def exec_global_def LogTypeTopup_def LogTypeConsume_def LogTypeAffCommission_def
  no_receipt_def

definition topup_demo1 :: world where
  "topup_demo1 = snd (CompleteTopUpOrder ''T1'' topup_demo)"

lemma topup_demo_run:
  "completeTopUpOrder ''T1'' None None None None [] topup_demo = (Inr (), topup_demo1)"
  "w_base topup_demo1 = None" "topup_quota_of (w_cfg topup_demo) None (hd (d_topups (w_db topup_demo))) = 5000000"
  "map tp_status (d_topups (w_db topup_demo1)) = [''success'']"
  by (simp_all add: topup_demo1_def CompleteTopUpOrder_def topup_run add_gift_def add_quota_def add_topup_def)

theorem topup_not_credited_twice_witness:
  "balance_of (w_db (snd (CompleteTopUpOrder ''T1'' topup_demo1))) = balance_of (w_db topup_demo1)"
proof -
  obtain r w' where c: "completeTopUpOrder ''T1'' None None None None [] topup_demo1 = (r, w')" by fastforce
  have "\<forall>t\<in>set (d_topups (w_db topup_demo1)). tp_status t = ''success''"
    using topup_demo_run(4) by (cases "d_topups (w_db topup_demo1)") auto
  then have "\<forall>tp. List.find (\<lambda>t. tp_trade_no t = ''T1'') (d_topups (w_db topup_demo1)) = Some tp \<longrightarrow> tp_status tp \<noteq> ''pending''"
    using find_SomeD by fastforce
  from topup_not_credited_twice [OF c topup_demo_run(2) disjI2, OF this] c show ?thesis
    by (simp add: CompleteTopUpOrder_def)
qed

theorem topup_credits_exactly_witness:
  "balance_of (w_db topup_demo1) 2 = Some (5000000, 5000000, 0)"
proof -
  have k: "keys_ok (w_db topup_demo)" by (simp add: topup_demo_def aff_demo_def run_simps)
  have t: "List.find (\<lambda>t. tp_trade_no t = ''T1'') (d_topups (w_db topup_demo)) = Some (hd (d_topups (w_db topup_demo)))"
    "tp_status (hd (d_topups (w_db topup_demo))) = ''pending''"
    "balance_of (w_db topup_demo) (tp_user_id (hd (d_topups (w_db topup_demo)))) = Some (0, 0, 0)"
    by (simp_all add: topup_demo_def aff_demo_def balance_of_def balance_def user_of_def start_defs)
  from topup_credits_exactly [OF topup_demo_run(1) k t topup_demo_run(3) [symmetric]]
  show ?thesis by (simp add: topup_demo_def aff_demo_def)
qed

theorem redeem_pays_once_witness:
  "map_option u_quota (user_of (w_db (snd (Redeem ''K'' 2 topup_demo))) 2) = Some 700"
proof -
  have k: "w_base topup_demo = None" "keys_ok (w_db topup_demo)"
    and u: "user_of (w_db topup_demo) 2 = Some (blank_user\<lparr>u_id := 2, u_username := ''bob'', u_inviter_id := 1\<rparr>)"
    by (simp_all add: topup_demo_def aff_demo_def run_simps)
  have r: "Redeem ''K'' 2 topup_demo = (Inr 700, snd (Redeem ''K'' 2 topup_demo))"
    by (simp add: topup_demo_def aff_demo_def Redeem_def redeem_body_def save_redemption_def RecordLog_def exec_global_def
        run_simps)
  have "user_of (w_db (snd (Redeem ''K'' 2 topup_demo))) 2 = map_option (add_quota 700) (user_of (w_db topup_demo) 2)"
    using redeem_pays_once [OF r k, unfolded sum.case, THEN conjunct2, THEN conjunct1, THEN spec [of _ 2]]
    by (simp only: simp_thms if_True)
  then show ?thesis using u by (simp add: add_quota_def blank_user_def)
qed

end
