(* ===== verification/Ability.thy ===== *)
theory Ability
  imports TopUp
begin

text \<open>
  The routing table \<open>abilities\<close>, \<open>model/ability.go\<close>: one row per group, model and channel, its
  \<open>enabled\<close> flag a copy of the channel status. Rows are written in batches, repaired by
  \<open>CheckDataConsistency\<close> and read by the weighted choice of a channel.
\<close>

section \<open>Weights and priorities\<close>

abbreviation update_abilities :: "(ability \<Rightarrow> bool) \<Rightarrow> (ability \<Rightarrow> ability) \<Rightarrow> nat op" where
  "update_abilities \<equiv> update_where d_abilities d_abilities_update"

definition GetPriority :: "channel \<Rightarrow> int" where
  "GetPriority c = (case c_priority c of None \<Rightarrow> 0 | Some p \<Rightarrow> p)"

definition GetWeight :: "channel \<Rightarrow> nat" where
  "GetWeight c = (case c_weight c of None \<Rightarrow> 0 | Some v \<Rightarrow> v)"

text \<open>\<open>int(*channel.Weight)\<close>, at least 1; a null weight is the nil dereference of the code.\<close>

definition channel_weight :: "channel \<Rightarrow> nat option" where
  "channel_weight c = (case c_weight c of None \<Rightarrow> None
     | Some v \<Rightarrow> let x = wrap64 (int v) in Some (if x \<le> 0 then 1 else nat x))"

fun channel_weights :: "channel list \<Rightarrow> (channel \<times> nat) list option" where
  "channel_weights [] = Some []"
| "channel_weights (c # cs) = (case (channel_weight c, channel_weights cs) of
     (Some v, Some vs) \<Rightarrow> Some ((c, v) # vs) | _ \<Rightarrow> None)"

definition total_weight :: "(channel \<times> nat) list \<Rightarrow> nat" where
  "total_weight vs = sum_list (map snd vs)"

text \<open>The walk over the cumulated weights up to the threshold.\<close>

fun walk_weights :: "nat \<Rightarrow> nat \<Rightarrow> (channel \<times> nat) list \<Rightarrow> channel option" where
  "walk_weights threshold current [] = None"
| "walk_weights threshold current ((c, v) # vs) =
     (if threshold \<le> current + v then Some c else walk_weights threshold (current + v) vs)"

text \<open>
  The weighted choice; \<open>rnd\<close> is the raw number behind \<open>rand.Intn(n)\<close>, which is its remainder by \<open>n\<close>.
\<close>

definition pick_weighted :: "nat \<Rightarrow> channel list \<Rightarrow> gerr + channel" where
  "pick_weighted rnd cs =
     (case channel_weights cs of
        None \<Rightarrow> Inl Panic
      | Some vs \<Rightarrow>
          if total_weight vs = 0 \<or> cs = [] then Inl (Msg ''no channels available with the required priority and weight'')
          else (case walk_weights (rnd mod total_weight vs + 1) 0 vs of
                  None \<Rightarrow> Inl (Msg ''unable to select a channel based on weight'')
                | Some c \<Rightarrow> Inr c))"

section \<open>Reading\<close>

definition joined :: "db \<Rightarrow> (channel \<times> ability) list" where
  "joined d = [(c, a). c \<leftarrow> d_channels d, a \<leftarrow> d_abilities d, ab_channel_id a = c_id c]"

text \<open>\<open>MAX\<close> over a nullable column: nulls are left out, no value gives null.\<close>

definition max_option :: "int option list \<Rightarrow> int option" where
  "max_option ps = (case List.map_filter id ps of [] \<Rightarrow> None | x # xs \<Rightarrow> Some (foldl max x xs))"

definition satisfied_channels :: "string \<Rightarrow> string \<Rightarrow> db \<Rightarrow> channel list" where
  "satisfied_channels grp model d =
     (let m = max_option [ab_priority a. a \<leftarrow> d_abilities d, ab_group a = grp \<and> ab_model a = model \<and> ab_enabled a]
      in [c. (c, a) \<leftarrow> joined d, ab_group a = grp \<and> ab_model a = model \<and> ab_enabled a \<and>
            m \<noteq> None \<and> ab_priority a = m])"

definition GetRandomSatisfiedChannel :: "nat \<Rightarrow> string \<Rightarrow> string \<Rightarrow> channel op" where
  "GetRandomSatisfiedChannel rnd grp model =
     on_ok (query (satisfied_channels grp model)) (\<lambda>cs.
       case pick_weighted rnd cs of Inl e \<Rightarrow> fail e | Inr c \<Rightarrow> ret c)"

definition GetEnabledModelsForGroup :: "string \<Rightarrow> string list op" where
  "GetEnabledModelsForGroup grp = query (\<lambda>d. sort (remdups
     [ab_model a. (c, a) \<leftarrow> joined d, ab_group a = grp \<and> ab_enabled a \<and> c_status c = ChannelStatusEnabled \<and>
        dropWhile (\<lambda>x. x = CHR '' '') (ab_model a) \<noteq> []]))"

text \<open>\<open>GROUP BY model ORDER BY MAX(priority) DESC\<close>; models of one maximum in table order.\<close>

definition FindEnabledModelsByGroup :: "string \<Rightarrow> string list op" where
  "FindEnabledModelsByGroup grp = query (\<lambda>d.
     let rows = [a. a \<leftarrow> d_abilities d, ab_group a = grp \<and> ab_enabled a];
         top = (\<lambda>m. max_option [ab_priority a. a \<leftarrow> rows, ab_model a = m])
     in sort_key (\<lambda>m. case top m of None \<Rightarrow> 0 | Some p \<Rightarrow> - p) (remdups (map ab_model rows)))"

section \<open>Writing\<close>

definition split_trim :: "string \<Rightarrow> string list" where
  "split_trim s = [x. x \<leftarrow> map trim_space (split_on (CHR '','') s), x \<noteq> []]"

text \<open>The rows of a channel; the column default replaces a null priority.\<close>

definition channel_abilities :: "channel \<Rightarrow> ability list" where
  "channel_abilities c =
     [\<lparr>ab_group = g, ab_model = m, ab_channel_id = c_id c, ab_enabled = (c_status c = ChannelStatusEnabled),
        ab_priority = (case c_priority c of None \<Rightarrow> Some 0 | Some p \<Rightarrow> Some p)\<rparr>.
      m \<leftarrow> split_trim (c_models c), g \<leftarrow> split_trim (c_group c)]"

definition ability_key :: "ability \<Rightarrow> string \<times> string \<times> int" where
  "ability_key a = (ab_group a, ab_model a, ab_channel_id a)"

definition insert_abilities :: "ability list \<Rightarrow> db \<Rightarrow> gerr + unit \<times> db" where
  "insert_abilities batch d =
     (if \<not> distinct (map ability_key batch) \<or>
         list_ex (\<lambda>a. list_ex (\<lambda>b. ability_key b = ability_key a) (d_abilities d)) batch then Inl DupKey
      else Inr ((), d_abilities_update (\<lambda>rs. rs @ batch) d))"

function create_batches :: "nat \<Rightarrow> ability list \<Rightarrow> unit op" where
  "create_batches n [] = ret ()"
| "create_batches n (a # rest) =
     then_do (exec (insert_abilities (take (Suc n) (a # rest)))) (create_batches n (drop n rest))"
  by pat_completeness auto
termination by (relation "measure (\<lambda>(n, xs). length xs)") auto

definition AddAbilities :: "channel \<Rightarrow> unit op" where
  "AddAbilities c = create_batches 149 (channel_abilities c)"

definition DeleteAbilities :: "channel \<Rightarrow> unit op" where
  "DeleteAbilities c = stmt (delete_where d_abilities d_abilities_update (\<lambda>a. ab_channel_id a = c_id c))"

definition UpdateAbilities :: "channel \<Rightarrow> unit op" where
  "UpdateAbilities c = then_do (DeleteAbilities c) (AddAbilities c)"

definition set_enabled :: "int \<Rightarrow> bool \<Rightarrow> unit op" where
  "set_enabled cid b = stmt (update_abilities (\<lambda>a. ab_channel_id a = cid) (\<lambda>a. a\<lparr>ab_enabled := b\<rparr>))"

definition UpdateAbilityStatus :: "int \<Rightarrow> bool \<Rightarrow> unit op" where
  "UpdateAbilityStatus cid b = set_enabled cid b"

definition SyncChannelAbilities :: "int \<Rightarrow> unit op" where
  "SyncChannelAbilities cid =
     on_ok (first d_channels (\<lambda>c. c_id c = cid)) (\<lambda>c. set_enabled cid (c_status c = ChannelStatusEnabled))"

section \<open>Repair\<close>

definition mismatch :: "channel \<Rightarrow> ability \<Rightarrow> bool" where
  "mismatch c a \<longleftrightarrow> (c_status c = ChannelStatusEnabled \<and> \<not> ab_enabled a) \<or>
     (c_status c \<noteq> ChannelStatusEnabled \<and> ab_enabled a)"

text \<open>\<open>UPDATE ... JOIN\<close> (MySQL) and \<open>UPDATE ... FROM\<close> (PostgreSQL): the joined channel decides.\<close>

definition repair_joined :: "db \<Rightarrow> ability \<Rightarrow> ability" where
  "repair_joined d a =
     (case List.find (\<lambda>c. c_id c = ab_channel_id a \<and> mismatch c a) (d_channels d) of
        None \<Rightarrow> a | Some c \<Rightarrow> a\<lparr>ab_enabled := (c_status c = ChannelStatusEnabled)\<rparr>)"

text \<open>The SQLite statement: a scalar subquery for the value, an \<open>EXISTS\<close> for the condition.\<close>

definition repair_subquery :: "db \<Rightarrow> ability \<Rightarrow> ability" where
  "repair_subquery d a =
     (if list_ex (\<lambda>c. c_id c = ab_channel_id a \<and> mismatch c a) (d_channels d)
      then a\<lparr>ab_enabled := (case List.find (\<lambda>c. c_id c = ab_channel_id a) (d_channels d) of
               None \<Rightarrow> False | Some c \<Rightarrow> c_status c = ChannelStatusEnabled)\<rparr>
      else a)"

definition repair_abilities :: "dialect \<Rightarrow> db \<Rightarrow> db" where
  "repair_abilities dl d =
     d_abilities_update (map (case dl of MySQL \<Rightarrow> repair_joined d | PostgreSQL \<Rightarrow> repair_joined d
       | SQLite \<Rightarrow> repair_subquery d)) d"

definition CheckDataConsistency :: "unit op" where
  "CheckDataConsistency =
     on_ok (query (\<lambda>d. length (filter (\<lambda>(c, a). mismatch c a) (joined d)))) (\<lambda>n.
       if 0 < n then reading (\<lambda>w. exec (\<lambda>d. Inr ((), repair_abilities (w_dialect w) d))) else ret ())"

section \<open>The weighted choice is exact\<close>

lemma channel_weights_map:
  "channel_weights cs = Some vs \<Longrightarrow> map fst vs = cs \<and> (\<forall>(c, v)\<in>set vs. 0 < v \<and> channel_weight c = Some v)"
proof (induction cs arbitrary: vs)
  case Nil
  then show ?case by simp
next
  case (Cons c cs)
  then obtain v us where *: "channel_weight c = Some v" "channel_weights cs = Some us" "vs = (c, v) # us"
    by (auto split: option.splits)
  then have "0 < v" by (auto simp: channel_weight_def Let_def split: option.splits if_splits)
  with * Cons.IH show ?case by auto
qed

definition weight_in :: "channel \<Rightarrow> (channel \<times> nat) list \<Rightarrow> nat" where
  "weight_in c vs = sum_list (map snd (filter (\<lambda>(x, v). x = c) vs))"

lemma walk_card:
  "card {t. cur < t \<and> t \<le> cur + total_weight vs \<and> walk_weights t cur vs = Some c} = weight_in c vs"
proof (induction vs arbitrary: cur)
  case Nil
  then show ?case by (simp add: weight_in_def)
next
  case (Cons xv vs)
  obtain x v where xv: "xv = (x, v)" by (cases xv)
  let ?A = "{t. cur < t \<and> t \<le> cur + v \<and> x = c}"
  let ?B = "{t. cur + v < t \<and> t \<le> cur + v + total_weight vs \<and> walk_weights t (cur + v) vs = Some c}"
  have "{t. cur < t \<and> t \<le> cur + total_weight (xv # vs) \<and> walk_weights t cur (xv # vs) = Some c} = ?A \<union> ?B"
    by (auto simp: xv total_weight_def)
  moreover have "?A = (if x = c then {cur<..cur + v} else {})" by auto
  then have "card ?A = (if x = c then v else 0)" "finite ?A" by auto
  moreover have "finite ?B" by (rule finite_subset [of _ "{..cur + v + total_weight vs}"]) auto
  moreover have "?A \<inter> ?B = {}" by auto
  ultimately show ?case by (simp add: card_Un_disjoint Cons.IH xv weight_in_def)
qed

lemma walk_finds:
  "cur < t \<Longrightarrow> t \<le> cur + total_weight vs \<Longrightarrow> \<exists>c. walk_weights t cur vs = Some c \<and> c \<in> fst ` set vs"
proof (induction vs arbitrary: cur)
  case Nil
  then show ?case by (simp add: total_weight_def)
next
  case (Cons xv vs)
  obtain x v where xv: "xv = (x, v)" by (cases xv)
  show ?case
  proof (cases "t \<le> cur + v")
    case True
    then show ?thesis by (simp add: xv)
  next
    case False
    with Cons.prems have "cur + v < t" "t \<le> cur + v + total_weight vs" by (simp_all add: xv total_weight_def)
    from Cons.IH [OF this] False show ?thesis by (auto simp: xv)
  qed
qed

lemma total_weight_pos: "channel_weights cs = Some vs \<Longrightarrow> cs \<noteq> [] \<Longrightarrow> 0 < total_weight vs"
  using channel_weights_map [of cs vs] by (cases vs) (auto simp: total_weight_def)


lemma max_option_ge: "max_option ps = Some m \<Longrightarrow> Some p \<in> set ps \<Longrightarrow> p \<le> m"
proof -
  have fold: "x \<le> foldl max x xs \<and> (\<forall>y\<in>set xs. y \<le> foldl max x xs)" for x :: int and xs
  proof (induction xs arbitrary: x)
    case Nil
    then show ?case by simp
  next
    case (Cons a xs)
    from Cons.IH [of "max x a"] show ?case by auto
  qed
  assume "max_option ps = Some m" "Some p \<in> set ps"
  then have "p \<in> set (List.map_filter id ps)" by (force simp: map_filter_def)
  with \<open>max_option ps = Some m\<close> fold show ?thesis
    by (auto simp: max_option_def split: list.splits)
qed

text \<open>
  C27. The channel that routing picks serves the group and the model, its row is enabled, and
  no enabled row of the pair has a higher priority.
\<close>

theorem routing_takes_top_priority:
  assumes "GetRandomSatisfiedChannel rnd grp model w = (Inr c, w')"
  shows "w_db w' = w_db w \<and> c \<in> set (d_channels (w_db w)) \<and>
    (\<exists>a\<in>set (d_abilities (w_db w)). ab_channel_id a = c_id c \<and> ab_group a = grp \<and> ab_model a = model \<and> ab_enabled a \<and>
      (\<exists>p. ab_priority a = Some p \<and> (\<forall>b\<in>set (d_abilities (w_db w)). ab_group b = grp \<and> ab_model b = model \<and> ab_enabled b \<longrightarrow>
         (\<forall>q. ab_priority b = Some q \<longrightarrow> q \<le> p))))"
proof -
  let ?d = "w_db w"
  let ?ps = "[ab_priority a. a \<leftarrow> d_abilities ?d, ab_group a = grp \<and> ab_model a = model \<and> ab_enabled a]"
  obtain cs w1 where q: "query (satisfied_channels grp model) w = (Inr cs, w1)"
    and k: "(case pick_weighted rnd cs of Inl e \<Rightarrow> fail e | Inr c \<Rightarrow> ret c) w1 = (Inr c, w')"
    using assms unfolding GetRandomSatisfiedChannel_def by (rule on_ok_Inr)
  have pick: "pick_weighted rnd cs = Inr c" "w' = w1" using k by (auto split: sum.splits)
  have cs: "cs = satisfied_channels grp model ?d" using q by (auto elim: query_Inr)
  have db: "w_db w' = ?d" using query_touched [OF q] touchedD(1) pick(2) by blast
  have "c \<in> set cs"
  proof -
    obtain vs where vs: "channel_weights cs = Some vs" "cs \<noteq> []"
      and walk: "walk_weights (rnd mod total_weight vs + 1) 0 vs = Some c"
      using pick(1) by (auto simp: pick_weighted_def split: option.splits if_splits)
    have "rnd mod total_weight vs + 1 \<le> total_weight vs"
      using total_weight_pos [OF vs] by (simp add: Suc_le_eq)
    with walk_finds [of 0 "rnd mod total_weight vs + 1" vs] walk channel_weights_map [OF vs(1)]
    show ?thesis by force
  qed
  then obtain a m where a: "c \<in> set (d_channels ?d)" "a \<in> set (d_abilities ?d)" "ab_channel_id a = c_id c" "ab_group a = grp"
    "ab_model a = model" "ab_enabled a" "ab_priority a = Some m" "max_option ?ps = Some m"
    unfolding cs satisfied_channels_def joined_def Let_def by auto
  have "q \<le> m" if "b \<in> set (d_abilities ?d)" "ab_group b = grp \<and> ab_model b = model \<and> ab_enabled b" "ab_priority b = Some q" for b q
  proof (rule max_option_ge [OF a(8)])
    show "Some q \<in> set ?ps" using that by force
  qed
  with a db show ?thesis by blast
qed

section \<open>Consistency of channels and abilities\<close>

definition consistent :: "db \<Rightarrow> bool" where
  "consistent d \<longleftrightarrow> (\<forall>a\<in>set (d_abilities d). \<forall>c\<in>set (d_channels d).
     c_id c = ab_channel_id a \<longrightarrow> ab_enabled a = (c_status c = ChannelStatusEnabled))"

lemma no_mismatch: "filter (\<lambda>(c, a). mismatch c a) (joined d) = [] \<Longrightarrow> consistent d"
  by (force simp: consistent_def joined_def mismatch_def filter_empty_conv)

lemma repair_same:
  assumes "distinct (map c_id (d_channels d))"
  shows "repair_subquery d a = repair_joined d a"
    and "c \<in> set (d_channels d) \<Longrightarrow> c_id c = ab_channel_id a \<Longrightarrow>
      repair_joined d a = a\<lparr>ab_enabled := (c_status c = ChannelStatusEnabled)\<rparr>"
proof -
  have one: "List.find (\<lambda>c. c_id c = ab_channel_id a \<and> mismatch c a) (d_channels d) =
      (case List.find (\<lambda>c. c_id c = ab_channel_id a) (d_channels d) of None \<Rightarrow> None
       | Some c \<Rightarrow> if mismatch c a then Some c else None)"
    by (rule find_conj [OF assms])
  have ex: "list_ex (\<lambda>c. c_id c = ab_channel_id a \<and> mismatch c a) (d_channels d) =
      (List.find (\<lambda>c. c_id c = ab_channel_id a \<and> mismatch c a) (d_channels d) \<noteq> None)"
    by (auto simp: list_ex_iff find_None_iff)
  show "repair_subquery d a = repair_joined d a"
    unfolding repair_subquery_def repair_joined_def ex one by (auto split: option.splits)
  show "repair_joined d a = a\<lparr>ab_enabled := (c_status c = ChannelStatusEnabled)\<rparr>"
    if "c \<in> set (d_channels d)" "c_id c = ab_channel_id a"
    using find_key_iff [OF assms, of "ab_channel_id a" c] that unfolding repair_joined_def one
    by (cases a) (auto simp: mismatch_def)
qed

lemma CheckDataConsistency_Inr:
  assumes "CheckDataConsistency w = (Inr (), w')" "keys_ok (w_db w)"
  shows "consistent (w_db w') \<and>
    (w_db w' = w_db w \<or> (\<forall>dl. w_db w' = repair_abilities dl (w_db w))) \<and>
    d_channels (w_db w') = d_channels (w_db w) \<and>
    map ability_key (d_abilities (w_db w')) = map ability_key (d_abilities (w_db w))"
proof -
  have dc: "distinct (map c_id (d_channels (w_db w)))" using assms(2) by (simp add: keys_ok_def)
  have key: "ability_key (repair_joined d a) = ability_key a" for d a
    by (simp add: repair_joined_def ability_key_def split: option.splits)
  have all: "repair_abilities dl d = d_abilities_update (map (repair_joined d)) d"
    if "distinct (map c_id (d_channels d))" for dl d
  proof -
    have "repair_subquery d = repair_joined d" using repair_same(1) [OF that] by blast
    then show ?thesis by (cases dl) (simp_all add: repair_abilities_def)
  qed
  have fixed: "consistent (repair_abilities dl (w_db w))" for dl
  proof -
    have "ab_channel_id (repair_joined d a) = ab_channel_id a" for d a
      using key [of d a] by (simp add: ability_key_def)
    then show ?thesis using repair_same(2) [OF dc] by (fastforce simp: all [OF dc] consistent_def)
  qed
  obtain n w1 where q: "query (\<lambda>d. length (filter (\<lambda>(c, a). mismatch c a) (joined d))) w = (Inr n, w1)"
    and k: "(if 0 < n then reading (\<lambda>w. exec (\<lambda>d. Inr ((), repair_abilities (w_dialect w) d))) else ret ()) w1 = (Inr (), w')"
    using assms(1) unfolding CheckDataConsistency_def by (rule on_ok_Inr)
  have n: "n = length (filter (\<lambda>(c, a). mismatch c a) (joined (w_db w)))" using q by (auto elim: query_Inr)
  have db: "w_db w1 = w_db w" using query_touched [OF q] touchedD(1) by blast
  show ?thesis
  proof (cases "0 < n")
    case True
    with k have "exec (\<lambda>d. Inr ((), repair_abilities (w_dialect w1) d)) w1 = (Inr (), w')"
      by (simp add: reading_def)
    then have "w_db w' = repair_abilities (w_dialect w1) (w_db w)"
      using exec_touched(3) db by fastforce
    then show ?thesis using fixed all [OF dc] key by (auto simp: o_def)
  next
    case False
    with k n db no_mismatch [of "w_db w"] show ?thesis by simp
  qed
qed

text \<open>
  C35. The repair makes every ability agree with its channel, whichever of the three dialects
  runs it, and the repaired database is the same on all of them: only enabled flags change.
\<close>

theorem repair_restores_consistency:
  assumes "CheckDataConsistency w = (Inr (), w')" "keys_ok (w_db w)"
  shows "consistent (w_db w') \<and>
    (w_db w' = w_db w \<or> (\<forall>dl. w_db w' = repair_abilities dl (w_db w))) \<and>
    d_channels (w_db w') = d_channels (w_db w) \<and>
    map ability_key (d_abilities (w_db w')) = map ability_key (d_abilities (w_db w))"
  using assms by (rule CheckDataConsistency_Inr)

section \<open>Concrete runs\<close>

definition route_demo :: world where
  "route_demo = world_with (empty_db\<lparr>
     d_channels := [blank_channel\<lparr>c_id := 1, c_weight := Some 3, c_models := ''m''\<rparr>,
                    blank_channel\<lparr>c_id := 2, c_models := ''m''\<rparr>],
     d_abilities := [\<lparr>ab_group = ''default'', ab_model = ''m'', ab_channel_id = 1, ab_enabled = True, ab_priority = Some 5\<rparr>,
                     \<lparr>ab_group = ''default'', ab_model = ''m'', ab_channel_id = 2, ab_enabled = False, ab_priority = Some 5\<rparr>]\<rparr>) 77"

lemmas route_run = route_demo_def GetRandomSatisfiedChannel_def satisfied_channels_def joined_def max_option_def
  pick_weighted_def channel_weight_def total_weight_def wrap64_def map_filter_simps


theorem routing_takes_top_priority_witness:
  "\<exists>a\<in>set (d_abilities (w_db route_demo)). ab_channel_id a = 1 \<and> ab_enabled a"
proof -
  have "GetRandomSatisfiedChannel 7 ''default'' ''m'' route_demo = (Inr (hd (d_channels (w_db route_demo))), route_demo)"
    by (simp add: route_run run_simps)
  from routing_takes_top_priority [OF this] show ?thesis by (auto simp: route_demo_def start_defs)
qed

theorem repair_restores_consistency_witness:
  "\<not> consistent (w_db route_demo) \<and> consistent (w_db (snd (CheckDataConsistency route_demo)))"
proof -
  have "CheckDataConsistency route_demo = (Inr (), snd (CheckDataConsistency route_demo))" "keys_ok (w_db route_demo)"
    by (simp_all add: route_run run_simps CheckDataConsistency_def mismatch_def)
  from repair_restores_consistency [OF this] show ?thesis
    by (simp add: consistent_def route_demo_def start_defs status_defs)
qed

end
