(* ===== verification/ChannelStatus.thy ===== *)
theory ChannelStatus
  imports Ability
begin

text \<open>
  Channels as rows: creating, editing, deleting, enabling and disabling them
  (\<open>model/channel.go\<close>) and the in-memory channel cache of \<open>model/cache.go\<close>. Every operation that
  changes a status writes the abilities of the channel as well. The per-channel locks serialise
  these operations, so each is one step here.
\<close>

section \<open>The channel cache\<close>

definition route_pairs :: "channel \<Rightarrow> (string \<times> string) list" where
  "route_pairs c = [(g, m). g \<leftarrow> split_trim (c_group c), m \<leftarrow> split_trim (c_models c)]"

text \<open>
  Channels of equal priority keep the table order, one of the orders \<open>sort.Slice\<close> may produce.
  A failing query leaves its slice empty, as the code does not look at the errors.
\<close>

definition InitChannelCache :: "unit op" where
  "InitChannelCache =
     on_result (query (\<lambda>d. [c \<leftarrow> d_channels d. c_status c = ChannelStatusEnabled])) (\<lambda>r.
     on_result (query d_abilities) (\<lambda>_ w.
       let cs = (case r of Inl _ \<Rightarrow> [] | Inr cs \<Rightarrow> cs)
       in (Inr (), w\<lparr>w_channel_cache := map_of (rev (map (\<lambda>c. (c_id c, c)) cs)),
            w_routes := (\<lambda>g m. [c_id c. c \<leftarrow> sort_key (\<lambda>c. - GetPriority c) cs, e \<leftarrow> route_pairs c, e = (g, m)])\<rparr>)))"

definition GetChannelById :: "int \<Rightarrow> bool \<Rightarrow> channel op" where
  "GetChannelById i selectAll =
     on_ok (first d_channels (\<lambda>c. c_id c = i)) (\<lambda>c. ret (if selectAll then c else c\<lparr>c_key := []\<rparr>))"

definition CacheGetChannel :: "int \<Rightarrow> channel op" where
  "CacheGetChannel i =
     reading (\<lambda>w. if \<not> cfg_memory_cache (w_cfg w) then GetChannelById i True
       else (case w_channel_cache w i of None \<Rightarrow> fail (Msg ''channel not found'') | Some c \<Rightarrow> ret c))"

definition CacheGetChannelCopy :: "int \<Rightarrow> channel op" where
  "CacheGetChannelCopy i =
     reading (\<lambda>w. if \<not> cfg_memory_cache (w_cfg w) then GetChannelById i True
       else (case w_channel_cache w i of None \<Rightarrow> GetChannelById i True | Some c \<Rightarrow> ret c))"

definition CacheUpdateChannelMultiKeyInfo :: "int \<Rightarrow> multi_key_info \<Rightarrow> int \<Rightarrow> unit op" where
  "CacheUpdateChannelMultiKeyInfo i info newStatus w =
     (if \<not> cfg_memory_cache (w_cfg w) then (Inr (), w)
      else case w_channel_cache w i of
        None \<Rightarrow> (Inr (), w)
      | Some c \<Rightarrow>
          let c' = c\<lparr>c_mk := info\<rparr>
          in if newStatus = ChannelStatusAutoDisabled \<and> c_status c' \<noteq> ChannelStatusAutoDisabled
             then (Inr (), w\<lparr>w_channel_cache := (w_channel_cache w)(i \<mapsto> c'\<lparr>c_status := newStatus\<rparr>),
                     w_routes := (\<lambda>g m. remove1 i (w_routes w g m))\<rparr>)
             else (Inr (), w\<lparr>w_channel_cache := (w_channel_cache w)(i \<mapsto> c')\<rparr>))"

definition forget_polling :: "int list \<Rightarrow> unit op" where
  "forget_polling ids w = (Inr (), w\<lparr>w_polling := (\<lambda>i. if i \<in> set ids then 0 else w_polling w i)\<rparr>)"

section \<open>Creating\<close>

text \<open>The column defaults that GORM fills in for zero values on insert.\<close>

definition channel_defaults :: "channel \<Rightarrow> channel" where
  "channel_defaults c =
     c\<lparr>c_status := (if c_status c = 0 then 1 else c_status c),
       c_weight := (case c_weight c of None \<Rightarrow> Some 0 | Some v \<Rightarrow> Some v),
       c_group := (if c_group c = [] then ''default'' else c_group c),
       c_priority := (case c_priority c of None \<Rightarrow> Some 0 | Some p \<Rightarrow> Some p),
       c_auto_disabled := True, c_auto_enabled := True,
       c_discount := (case c_discount c of None \<Rightarrow> Some fone | Some x \<Rightarrow> Some x)\<rparr>"

fun number_channels :: "int \<Rightarrow> channel list \<Rightarrow> channel list" where
  "number_channels n [] = []"
| "number_channels n (c # cs) =
     (if c_id c = 0 then c\<lparr>c_id := n\<rparr> # number_channels (n + 1) cs
      else c # number_channels (max n (c_id c + 1)) cs)"

definition create_channels :: "channel list \<Rightarrow> channel list op" where
  "create_channels cs =
     exec (\<lambda>d. let new = number_channels (next_id (map c_id (d_channels d))) (map channel_defaults cs)
       in if \<not> distinct (map c_id new) \<or> list_ex (\<lambda>c. list_ex (\<lambda>x. c_id x = c_id c) (d_channels d)) new
          then Inl DupKey else Inr (new, d_channels_update (\<lambda>rs. rs @ new) d))"

definition Channel_Insert :: "channel \<Rightarrow> channel op" where
  "Channel_Insert c =
     on_ok (create_channels [c]) (\<lambda>new. then_do (AddAbilities (hd new)) (ret (hd new)))"

function create_channel_batches :: "nat \<Rightarrow> channel list \<Rightarrow> channel list op" where
  "create_channel_batches n [] = ret []"
| "create_channel_batches n (c # rest) =
     on_ok (create_channels (take (Suc n) (c # rest))) (\<lambda>new.
     on_ok (create_channel_batches n (drop n rest)) (\<lambda>more. ret (new @ more)))"
  by pat_completeness auto
termination by (relation "measure (\<lambda>(n, xs). length xs)") auto

fun add_all_abilities :: "channel list \<Rightarrow> unit op" where
  "add_all_abilities [] = ret ()"
| "add_all_abilities (c # cs) = then_do (AddAbilities c) (add_all_abilities cs)"

definition BatchInsertChannels :: "channel list \<Rightarrow> unit op" where
  "BatchInsertChannels cs = on_ok (create_channel_batches 19 cs) add_all_abilities"

section \<open>Editing\<close>

definition mk_zero :: "multi_key_info \<Rightarrow> bool" where
  "mk_zero m \<longleftrightarrow> \<not> mk_is_multi m \<and> mk_key_count m = 0 \<and> mk_enabled_count m = 0 \<and>
     mk_mode m = KeySelectionPolling \<and> mk_polling_index m = 0 \<and> mk_status m = [] \<and> mk_metadata m = [] \<and>
     mk_last_import m = 0 \<and> mk_import_mode m = BatchImportOverride"

definition keep_none :: "'a option \<Rightarrow> 'a option \<Rightarrow> 'a option" where
  "keep_none new old = (case new of None \<Rightarrow> old | Some v \<Rightarrow> Some v)"

text \<open>\<open>Updates\<close> with a struct writes its non-zero fields.\<close>

definition nonzero_update :: "channel \<Rightarrow> channel \<Rightarrow> channel" where
  "nonzero_update c r =
     r\<lparr>c_type := (if c_type c = 0 then c_type r else c_type c),
       c_key := (if c_key c = [] then c_key r else c_key c),
       c_status := (if c_status c = 0 then c_status r else c_status c),
       c_name := (if c_name c = [] then c_name r else c_name c),
       c_weight := keep_none (c_weight c) (c_weight r),
       c_models := (if c_models c = [] then c_models r else c_models c),
       c_group := (if c_group c = [] then c_group r else c_group c),
       c_used_quota := (if c_used_quota c = 0 then c_used_quota r else c_used_quota c),
       c_priority := keep_none (c_priority c) (c_priority r),
       c_config := (if c_config c = [] then c_config r else c_config c),
       c_auto_disabled := (c_auto_disabled c \<or> c_auto_disabled r),
       c_auto_enabled := (c_auto_enabled c \<or> c_auto_enabled r),
       c_mk := (if mk_zero (c_mk c) then c_mk r else c_mk c),
       c_disabled_reason := keep_none (c_disabled_reason c) (c_disabled_reason r),
       c_disabled_time := keep_none (c_disabled_time c) (c_disabled_time r),
       c_disabled_model := keep_none (c_disabled_model c) (c_disabled_model r),
       c_discount := keep_none (c_discount c) (c_discount r)\<rparr>"

definition set_channel :: "int \<Rightarrow> (channel \<Rightarrow> channel) \<Rightarrow> unit op" where
  "set_channel i f = stmt (update_channels (\<lambda>c. c_id c = i) f)"

definition mk_differs :: "multi_key_info \<Rightarrow> multi_key_info \<Rightarrow> bool" where
  "mk_differs saved m \<longleftrightarrow> mk_is_multi saved \<and>
     (mk_key_count saved \<noteq> mk_key_count m \<or> mk_mode saved \<noteq> mk_mode m \<or> mk_import_mode saved \<noteq> mk_import_mode m)"

text \<open>
  \<open>Update\<close>, which returns the reloaded channel. The column \<open>test_model\<close> is not part of the model,
  its statement remains as one that changes no column here. An update without an identifier
  has no condition and is refused by GORM.
\<close>

definition Channel_Update :: "channel \<Rightarrow> channel op" where
  "Channel_Update c =
     (if c_id c = 0 then fail (Msg ''WHERE conditions required'')
      else then_do (set_channel (c_id c) (nonzero_update c))
     (then_do (set_channel (c_id c) (\<lambda>r. r\<lparr>c_auto_disabled := c_auto_disabled c\<rparr>))
     (then_do (set_channel (c_id c) (\<lambda>r. r))
     (then_do (set_channel (c_id c) (\<lambda>r. r\<lparr>c_auto_enabled := c_auto_enabled c\<rparr>))
     (on_result (first d_channels (\<lambda>r. c_id r = c_id c)) (\<lambda>row.
        let c1 = (case row of Inl _ \<Rightarrow> c | Inr r \<Rightarrow> r)
        in if mk_differs (c_mk c) (c_mk c1)
           then then_do (set_channel (c_id c) (\<lambda>r. r\<lparr>c_mk := c_mk c\<rparr>))
               (then_do (UpdateAbilities (c1\<lparr>c_mk := c_mk c\<rparr>)) (ret (c1\<lparr>c_mk := c_mk c\<rparr>)))
           else then_do (UpdateAbilities c1) (ret c1)))))))"

definition CompensateChannelQuota :: "int \<Rightarrow> int \<Rightarrow> unit op" where
  "CompensateChannelQuota i q = set_channel i (add_channel_used (- q))"

definition ClearUsedQuota :: "channel \<Rightarrow> channel op" where
  "ClearUsedQuota c =
     transaction (then_do (set_channel (c_id c) (\<lambda>r. r\<lparr>c_used_quota := 0\<rparr>)) (ret (c\<lparr>c_used_quota := 0\<rparr>)))"

definition GetChannelModelsbyId :: "int \<Rightarrow> string list op" where
  "GetChannelModelsbyId i = on_ok (first d_channels (\<lambda>c. c_id c = i)) (\<lambda>c. ret (split_trim (c_models c)))"

section \<open>Deleting\<close>

definition Channel_Delete :: "channel \<Rightarrow> unit op" where
  "Channel_Delete c =
     then_do (stmt (delete_where d_channels d_channels_update (\<lambda>r. c_id r = c_id c)))
    (then_do (DeleteAbilities c) (forget_polling [c_id c]))"

definition BatchDeleteChannel :: "int list \<Rightarrow> unit op" where
  "BatchDeleteChannel ids =
     then_do (transaction
       (then_do (stmt (delete_where d_abilities d_abilities_update (\<lambda>a. ab_channel_id a \<in> set ids)))
                (stmt (delete_where d_channels d_channels_update (\<lambda>c. c_id c \<in> set ids)))))
       (forget_polling ids)"

definition DeleteChannelByStatus :: "int \<Rightarrow> nat op" where
  "DeleteChannelByStatus st = delete_where d_channels d_channels_update (\<lambda>c. c_status c = st)"

definition DeleteDisabledChannel :: "nat op" where
  "DeleteDisabledChannel = delete_where d_channels d_channels_update
     (\<lambda>c. c_status c = ChannelStatusAutoDisabled \<or> c_status c = ChannelStatusManuallyDisabled)"

section \<open>Status changes\<close>

text \<open>The two updates of a status change, abilities first.\<close>

definition status_body :: "int list \<Rightarrow> int \<Rightarrow> unit op" where
  "status_body ids st =
     then_do (stmt (update_abilities (\<lambda>a. ab_channel_id a \<in> set ids) (\<lambda>a. a\<lparr>ab_enabled := (st = ChannelStatusEnabled)\<rparr>)))
             (stmt (update_channels (\<lambda>c. c_id c \<in> set ids) (\<lambda>c. c\<lparr>c_status := st\<rparr>)))"

text \<open>The existence check reads a value that nothing looks at; it can only fail.\<close>

definition UpdateChannelStatusById :: "int \<Rightarrow> int \<Rightarrow> unit op" where
  "UpdateChannelStatusById i st =
     then_do (transaction (then_do (query (\<lambda>d. channel_of d i \<noteq> None)) (status_body [i] st))) InitChannelCache"

definition BatchUpdateChannelStatus :: "int list \<Rightarrow> int \<Rightarrow> unit op" where
  "BatchUpdateChannelStatus ids st =
     (if ids = [] then fail (Msg ''no channel IDs provided'') else transaction (status_body ids st))"

definition disable_row :: "string \<Rightarrow> int \<Rightarrow> string \<Rightarrow> channel \<Rightarrow> channel" where
  "disable_row reason now model c =
     c\<lparr>c_status := ChannelStatusAutoDisabled, c_disabled_reason := Some reason,
       c_disabled_time := Some now, c_disabled_model := Some model\<rparr>"

definition auto_disable_body :: "int \<Rightarrow> string \<Rightarrow> string \<Rightarrow> int \<Rightarrow> bool op" where
  "auto_disable_body i reason model now =
     on_ok (first d_channels (\<lambda>c. c_id c = i)) (\<lambda>c.
       if \<not> c_auto_disabled c \<or> mk_is_multi (c_mk c) then ret False
       else then_do (set_enabled i False)
        (on_ok (update_channels (\<lambda>c. c_id c = i \<and> c_status c \<noteq> ChannelStatusAutoDisabled)
            (disable_row reason now model)) (\<lambda>n. ret (0 < n))))"

definition AutoDisableChannelById :: "int \<Rightarrow> string \<Rightarrow> string \<Rightarrow> bool op" where
  "AutoDisableChannelById i reason model =
     reading (\<lambda>w. transaction (auto_disable_body i reason model (w_now w)))"

section \<open>Routing stays consistent\<close>

definition routing_ok :: "db \<Rightarrow> bool" where
  "routing_ok d \<longleftrightarrow> consistent d \<and> distinct (map c_id (d_channels d))"

text \<open>\<open>maintains I f\<close>: outside a transaction, \<open>f\<close> keeps \<open>I\<close> whatever it returns.\<close>

definition maintains :: "(db \<Rightarrow> bool) \<Rightarrow> 'a op \<Rightarrow> bool" where
  "maintains I f \<longleftrightarrow> (\<forall>w r w'. f w = (r, w') \<and> w_base w = None \<and> I (w_db w) \<longrightarrow> I (w_db w') \<and> w_base w' = None)"

lemma maintainsD:
  "maintains I f \<Longrightarrow> f w = (r, w') \<Longrightarrow> w_base w = None \<Longrightarrow> I (w_db w) \<Longrightarrow> I (w_db w') \<and> w_base w' = None"
  unfolding maintains_def by blast

lemma maintains_transaction:
  assumes "keeps_base body" "\<And>w a w'. body w = (Inr a, w') \<Longrightarrow> I (w_db w) \<Longrightarrow> I (w_db w')"
  shows "maintains I (transaction body)"
  unfolding maintains_def
proof (intro allI impI, elim conjE)
  fix w r w' assume t: "transaction body w = (r, w')" and b: "w_base w = None" and i: "I (w_db w)"
  have "I (w_db w')"
  proof (cases r)
    case (Inl e)
    with transaction_atomic [OF assms(1) b] t i show ?thesis by simp
  next
    case (Inr a)
    obtain fs w2 fs' where "body (w\<lparr>w_base := Some (w_db w), w_aborted := False, w_faults := fs\<rparr>) = (Inr a, w2)"
      "w' = w2\<lparr>w_base := None, w_faults := fs'\<rparr>" using t [unfolded Inr] by (rule transaction_Inr)
    with assms(2) i show ?thesis by fastforce
  qed
  then show "I (w_db w') \<and> w_base w' = None" using transaction_base [OF b t] by simp
qed

lemma maintains_then_do: "maintains I f \<Longrightarrow> maintains I g \<Longrightarrow> maintains I (then_do f g)"
proof -
  assume f: "maintains I f" and g: "maintains I g"
  show "maintains I (then_do f g)"
    unfolding maintains_def
  proof (intro allI impI, elim conjE)
    fix w r w' assume r: "then_do f g w = (r, w')" and b: "w_base w = None" "I (w_db w)"
    obtain r1 w1 where f1: "f w = (r1, w1)" by fastforce
    note m = maintainsD [OF f f1 b]
    show "I (w_db w') \<and> w_base w' = None"
      using r f1 m maintainsD [OF g] by (cases r1) (auto simp: then_do_def on_ok_def)
  qed
qed

lemma maintains_kept:
  assumes "keeps (\<lambda>d. d) f" "keeps_base f" shows "maintains I f"
  unfolding maintains_def using keepsD [OF assms(1)] keeps_baseD [OF assms(2)] by metis

lemma InitChannelCache_quiet: "keeps (\<lambda>d. d) InitChannelCache" "keeps_base InitChannelCache"
  unfolding InitChannelCache_def
  by (rule keeps_intros base_intros | rule keeps_query keeps_base_query | auto simp: keeps_def keeps_base_def Let_def touched_def dest!: query_touched)+

lemma forget_quiet: "keeps (\<lambda>d. d) (forget_polling ids)" "keeps_base (forget_polling ids)"
  by (auto simp: forget_polling_def keeps_def keeps_base_def)

lemma delete_Inr:
  assumes "stmt (delete_where tbl upd p) w = (Inr (), w')"
  shows "w_db w' = upd (filter (\<lambda>r. \<not> p r)) (w_db w)"
proof -
  obtain n where "delete_where tbl upd p w = (Inr n, w')" using assms by (rule stmt_Inr)
  then show ?thesis using exec_touched(3) unfolding delete_where_def by fastforce
qed

lemma status_body_ok:
  assumes "status_body ids st w = (Inr a, w')" "routing_ok (w_db w)"
  shows "routing_ok (w_db w')"
proof -
  obtain w1 where
    a: "stmt (update_abilities (\<lambda>a. ab_channel_id a \<in> set ids) (\<lambda>a. a\<lparr>ab_enabled := (st = ChannelStatusEnabled)\<rparr>)) w = (Inr (), w1)"
    and c: "stmt (update_channels (\<lambda>c. c_id c \<in> set ids) (\<lambda>c. c\<lparr>c_status := st\<rparr>)) w1 = (Inr (), w')"
    using assms(1) unfolding status_body_def by (elim then_do_Inr) auto
  show ?thesis
    using assms(2) stmt_result(2) [OF a] stmt_result(2) [OF c]
    by (auto simp: routing_ok_def consistent_def update_rows_def o_def if_distrib cong: if_cong)
qed

lemma keeps_base_status: "keeps_base (status_body ids st)"
  unfolding status_body_def stmt_def by (intro base_intros)

lemma set_enabled_Inr:
  "set_enabled i b w = (Inr (), w') \<Longrightarrow>
   w_db w' = d_abilities_update (update_rows (\<lambda>a. ab_channel_id a = i) (\<lambda>a. a\<lparr>ab_enabled := b\<rparr>)) (w_db w)"
  unfolding set_enabled_def by (drule stmt_result(2)) simp_all

lemma auto_disable_body_Inr:
  assumes "auto_disable_body i reason model now w = (Inr b, w')"
  obtains c where "channel_of (w_db w) i = Some c" and
    "if c_auto_disabled c \<and> \<not> mk_is_multi (c_mk c)
     then w_db w' = d_channels_update (update_rows (\<lambda>c. c_id c = i \<and> c_status c \<noteq> ChannelStatusAutoDisabled)
            (disable_row reason now model))
          (d_abilities_update (update_rows (\<lambda>a. ab_channel_id a = i) (\<lambda>a. a\<lparr>ab_enabled := False\<rparr>)) (w_db w))
       \<and> b = (0 < affected (w_dialect w) (\<lambda>c. c_id c = i \<and> c_status c \<noteq> ChannelStatusAutoDisabled)
           (disable_row reason now model) (d_channels (w_db w)))
     else w_db w' = w_db w \<and> \<not> b"
proof -
  obtain c w1 where f: "first d_channels (\<lambda>c. c_id c = i) w = (Inr c, w1)" and k:
    "(if \<not> c_auto_disabled c \<or> mk_is_multi (c_mk c) then ret False
       else then_do (set_enabled i False)
        (on_ok (update_channels (\<lambda>c. c_id c = i \<and> c_status c \<noteq> ChannelStatusAutoDisabled)
            (disable_row reason now model)) (\<lambda>n. ret (0 < n)))) w1 = (Inr b, w')"
    using assms unfolding auto_disable_body_def by (rule on_ok_Inr)
  have c: "channel_of (w_db w) i = Some c" using f by (auto simp: channel_of_def elim: first_Inr)
  have db: "w_db w1 = w_db w" using first_touched [OF f] touchedD(1) by blast
  show thesis
  proof (cases "c_auto_disabled c \<and> \<not> mk_is_multi (c_mk c)")
    case True
    with k obtain w2 n where s: "set_enabled i False w1 = (Inr (), w2)" and b: "b = (0 < n)"
      and u: "update_channels (\<lambda>c. c_id c = i \<and> c_status c \<noteq> ChannelStatusAutoDisabled)
            (disable_row reason now model) w2 = (Inr n, w')"
      by (auto elim!: on_ok_Inr then_do_Inr)
    have dl: "w_dialect w2 = w_dialect w"
      using touchedD(5) [OF first_touched [OF f]] touchedD(5) [OF stmt_result(1) [OF s [unfolded set_enabled_def]]] by simp
    have ch: "d_channels (w_db w2) = d_channels (w_db w)" using set_enabled_Inr [OF s] db by simp
    obtain fs where "n = affected (w_dialect w2) (\<lambda>c. c_id c = i \<and> c_status c \<noteq> ChannelStatusAutoDisabled)
            (disable_row reason now model) (d_channels (w_db w2))" using u by (rule update_where_Inr)
    with that [OF c] True db set_enabled_Inr [OF s] update_where_touched(3) [OF u refl] b dl ch show thesis by simp
  next
    case False
    with k db that [OF c] show thesis by auto
  qed
qed

lemma auto_disable_ok:
  assumes "auto_disable_body i reason model now w = (Inr b, w')" "routing_ok (w_db w)"
  shows "routing_ok (w_db w')"
  using assms(1)
proof (rule auto_disable_body_Inr)
  fix c assume out: "if c_auto_disabled c \<and> \<not> mk_is_multi (c_mk c)
     then w_db w' = d_channels_update (update_rows (\<lambda>c. c_id c = i \<and> c_status c \<noteq> ChannelStatusAutoDisabled)
            (disable_row reason now model))
          (d_abilities_update (update_rows (\<lambda>a. ab_channel_id a = i) (\<lambda>a. a\<lparr>ab_enabled := False\<rparr>)) (w_db w))
       \<and> b = (0 < affected (w_dialect w) (\<lambda>c. c_id c = i \<and> c_status c \<noteq> ChannelStatusAutoDisabled)
           (disable_row reason now model) (d_channels (w_db w)))
     else w_db w' = w_db w \<and> \<not> b"
  have "distinct (map c_id (d_channels (w_db w')))"
    using out assms(2) by (simp add: routing_ok_def disable_row_def split: if_splits)
  moreover have "consistent (w_db w')"
    using out assms(2) by (auto simp: routing_ok_def consistent_def update_rows_def disable_row_def status_defs split: if_splits)
  ultimately show ?thesis by (simp add: routing_ok_def)
qed

lemma keeps_base_auto_disable: "keeps_base (auto_disable_body i reason model now)"
  unfolding auto_disable_body_def set_enabled_def stmt_def by (intro base_intros)

datatype status_call = SetStatus int int | SetStatuses "int list" int | AutoDisable int string string
  | SyncAbilities int | Repair | DeleteChannels "int list"

text \<open>A call with its result dropped, as the HTTP handler or the monitor that made it answers.\<close>

definition run_call :: "status_call \<Rightarrow> unit op" where
  "run_call e =
     (case e of
        SetStatus i st \<Rightarrow> UpdateChannelStatusById i st
      | SetStatuses ids st \<Rightarrow> BatchUpdateChannelStatus ids st
      | AutoDisable i reason model \<Rightarrow> ignore_err (AutoDisableChannelById i reason model)
      | SyncAbilities i \<Rightarrow> SyncChannelAbilities i
      | Repair \<Rightarrow> CheckDataConsistency
      | DeleteChannels ids \<Rightarrow> BatchDeleteChannel ids)"

fun run_calls :: "status_call list \<Rightarrow> world \<Rightarrow> world" where
  "run_calls [] w = w"
| "run_calls (e # es) w = run_calls es (snd (run_call e w))"

lemma maintains_if: "maintains I f \<Longrightarrow> maintains I g \<Longrightarrow> maintains I (if b then f else g)"
  by simp

lemma maintains_fail: "maintains I (fail e)" "maintains I (ret a)"
  by (auto simp: maintains_def)

lemma maintains_ignore: "maintains I f \<Longrightarrow> maintains I (ignore_err f)"
proof -
  assume "maintains I f"
  moreover have "ignore_err f w = (Inr (), snd (f w))" for w
    by (cases "f w") (simp add: ignore_err_def on_result_def ret_def)
  ultimately show ?thesis unfolding maintains_def by (metis prod.collapse snd_conv)
qed

lemma maintains_reading: "(\<And>v. maintains I (f v)) \<Longrightarrow> maintains I (reading f)"
  unfolding maintains_def reading_def by blast

lemma maintains_update:
  assumes "\<And>d. I d \<Longrightarrow> I (upd (update_rows p u) d)"
  shows "maintains I (stmt (update_where tbl upd p u))"
  unfolding maintains_def
proof (intro allI impI, elim conjE)
  fix w r w' assume r: "stmt (update_where tbl upd p u) w = (r, w')" and b: "w_base w = None" and i: "I (w_db w)"
  obtain r1 where u: "update_where tbl upd p u w = (r1, w')"
    using r by (auto simp: stmt_def on_ok_def ret_def split: prod.splits sum.splits)
  show "I (w_db w') \<and> w_base w' = None"
    using update_where_touched [OF u] i b assms touchedD(4) [OF update_where_touched(1) [OF u]] by (cases r1) auto
qed

lemma sync_ok: "maintains routing_ok (SyncChannelAbilities i)"
  unfolding maintains_def
proof (intro allI impI, elim conjE)
  fix w r w' assume r: "SyncChannelAbilities i w = (r, w')" and b: "w_base w = None" and i: "routing_ok (w_db w)"
  obtain r1 w1 where f: "first d_channels (\<lambda>c. c_id c = i) w = (r1, w1)" by fastforce
  note t = touchedD(1,4) [OF first_touched [OF f]]
  show "routing_ok (w_db w') \<and> w_base w' = None"
  proof (cases r1)
    case (Inl e)
    with r f t b i show ?thesis by (auto simp: SyncChannelAbilities_def on_ok_def)
  next
    case (Inr c)
    with f have c: "List.find (\<lambda>c. c_id c = i) (d_channels (w_db w)) = Some c" by (auto elim: first_Inr)
    from r f Inr have s: "set_enabled i (c_status c = ChannelStatusEnabled) w1 = (r, w')"
      by (simp add: SyncChannelAbilities_def on_ok_def)
    obtain r2 where u: "update_abilities (\<lambda>a. ab_channel_id a = i)
        (\<lambda>a. a\<lparr>ab_enabled := (c_status c = ChannelStatusEnabled)\<rparr>) w1 = (r2, w')"
      using s by (auto simp: set_enabled_def stmt_def on_ok_def ret_def split: prod.splits sum.splits)
    have base: "w_base w' = None" using touchedD(4) [OF update_where_touched(1) [OF u]] t b by simp
    show ?thesis
    proof (cases r2)
      case (Inl e)
      with update_where_touched(2) [OF u] t i base show ?thesis by simp
    next
      case (Inr n)
      have one: "x = c" if "x \<in> set (d_channels (w_db w))" "c_id x = i" for x
        using find_key_iff [of c_id "d_channels (w_db w)" i x] i that c by (auto simp: routing_ok_def)
      have "consistent (w_db w')"
        using update_where_touched(3) [OF u Inr] t i one
        by (auto simp: routing_ok_def consistent_def update_rows_def)
      with update_where_touched(3) [OF u Inr] t i base show ?thesis by (simp add: routing_ok_def)
    qed
  qed
qed

lemma repair_ok: "maintains routing_ok CheckDataConsistency"
  unfolding maintains_def
proof (intro allI impI, elim conjE)
  fix w r w' assume r: "CheckDataConsistency w = (r, w')" and b: "w_base w = None" and i: "routing_ok (w_db w)"
  let ?n = "\<lambda>d. length (filter (\<lambda>(c, a). mismatch c a) (joined d))"
  have ok: "\<And>c a. (c, a) \<in> set (joined (w_db w)) \<Longrightarrow> \<not> mismatch c a"
    using i by (auto simp: routing_ok_def consistent_def joined_def mismatch_def)
  have z: "?n (w_db w) = 0" using ok by (auto simp: filter_empty_conv)
  obtain r1 w1 where q: "query ?n w = (r1, w1)" by fastforce
  note t = touchedD(1,4) [OF query_touched [OF q]]
  have "w' = w1"
  proof (cases r1)
    case (Inl e)
    with r q show ?thesis by (simp add: CheckDataConsistency_def on_ok_def)
  next
    case (Inr n)
    with q have "n = ?n (w_db w)" by (auto elim: query_Inr)
    with r q Inr z show ?thesis by (simp add: CheckDataConsistency_def on_ok_def ret_def)
  qed
  with t b i show "routing_ok (w_db w') \<and> w_base w' = None" by simp
qed

lemma delete_channels_ok:
  "maintains routing_ok (transaction
       (then_do (stmt (delete_where d_abilities d_abilities_update (\<lambda>a. ab_channel_id a \<in> set ids)))
                (stmt (delete_where d_channels d_channels_update (\<lambda>c. c_id c \<in> set ids)))))"
proof (rule maintains_transaction)
  show "keeps_base (then_do (stmt (delete_where d_abilities d_abilities_update (\<lambda>a. ab_channel_id a \<in> set ids)))
                (stmt (delete_where d_channels d_channels_update (\<lambda>c. c_id c \<in> set ids))))"
    unfolding stmt_def by (intro base_intros)
  fix w a w'
  assume "then_do (stmt (delete_where d_abilities d_abilities_update (\<lambda>a. ab_channel_id a \<in> set ids)))
                (stmt (delete_where d_channels d_channels_update (\<lambda>c. c_id c \<in> set ids))) w = (Inr a, w')"
    and i: "routing_ok (w_db w)"
  then obtain w1 where "stmt (delete_where d_abilities d_abilities_update (\<lambda>a. ab_channel_id a \<in> set ids)) w = (Inr (), w1)"
    "stmt (delete_where d_channels d_channels_update (\<lambda>c. c_id c \<in> set ids)) w1 = (Inr (), w')"
    by (elim then_do_Inr) auto
  from delete_Inr [OF this(1)] delete_Inr [OF this(2)] i show "routing_ok (w_db w')"
    by (auto simp: routing_ok_def consistent_def distinct_map intro: inj_on_subset)
qed

lemma maintains_status: "maintains routing_ok (transaction (status_body ids st))"
  by (rule maintains_transaction [OF keeps_base_status]) (rule status_body_ok)

lemma maintains_auto_disable: "maintains routing_ok (transaction (auto_disable_body i reason model now))"
  by (rule maintains_transaction [OF keeps_base_auto_disable]) (rule auto_disable_ok)

lemma run_call_ok: "maintains routing_ok (run_call e)"
proof (cases e)
  case (SetStatus i st)
  have "maintains routing_ok (transaction (then_do (query (\<lambda>d. channel_of d i \<noteq> None)) (status_body [i] st)))"
  proof (rule maintains_transaction)
    show "keeps_base (then_do (query (\<lambda>d. channel_of d i \<noteq> None)) (status_body [i] st))"
      by (intro base_intros keeps_base_status)
    fix w a w' assume b: "then_do (query (\<lambda>d. channel_of d i \<noteq> None)) (status_body [i] st) w = (Inr a, w')"
      and i: "routing_ok (w_db w)"
    from b obtain x w1 where q: "query (\<lambda>d. channel_of d i \<noteq> None) w = (Inr x, w1)" "status_body [i] st w1 = (Inr a, w')"
      by (rule then_do_Inr)
    show "routing_ok (w_db w')"
      using status_body_ok [OF q(2)] touchedD(1) [OF query_touched [OF q(1)]] i by simp
  qed
  with SetStatus show ?thesis
    by (simp add: run_call_def UpdateChannelStatusById_def maintains_then_do maintains_kept InitChannelCache_quiet)
next
  case (SetStatuses ids st)
  then show ?thesis
    by (simp add: run_call_def BatchUpdateChannelStatus_def maintains_if maintains_fail
        maintains_status)
next
  case (AutoDisable i reason model)
  then show ?thesis
    by (simp add: run_call_def AutoDisableChannelById_def maintains_ignore maintains_reading
        maintains_auto_disable)
next
  case (SyncAbilities i)
  then show ?thesis by (simp add: run_call_def sync_ok)
next
  case Repair
  then show ?thesis by (simp add: run_call_def repair_ok)
next
  case (DeleteChannels ids)
  then show ?thesis
    by (simp add: run_call_def BatchDeleteChannel_def maintains_then_do delete_channels_ok maintains_kept forget_quiet)
qed

text \<open>
  C24. Routing stays consistent: after any sequence of status changes, automatic disables,
  synchronisations, repairs and deletions, whichever of their statements fail, the enabled flag
  of every ability is the status of its channel.
\<close>

theorem routing_stays_consistent:
  assumes "routing_ok (w_db w)" "w_base w = None"
  shows "routing_ok (w_db (run_calls es w)) \<and> w_base (run_calls es w) = None"
  using assms
proof (induction es arbitrary: w)
  case Nil
  then show ?case by simp
next
  case (Cons e es)
  obtain r w1 where "run_call e w = (r, w1)" by fastforce
  with maintainsD [OF run_call_ok this Cons.prems(2,1)] Cons.IH show ?case by simp
qed

theorem routing_stays_consistent_witness:
  "routing_ok (w_db (run_calls [SetStatus 1 2, Repair, SetStatus 2 1]
     (world_with (w_db route_demo\<lparr>d_channels := [blank_channel\<lparr>c_id := 1\<rparr>]\<rparr>) 77)))"
proof -
  have "routing_ok (w_db (world_with (w_db route_demo\<lparr>d_channels := [blank_channel\<lparr>c_id := 1\<rparr>]\<rparr>) 77))"
    "w_base (world_with (w_db route_demo\<lparr>d_channels := [blank_channel\<lparr>c_id := 1\<rparr>]\<rparr>) 77) = None"
    by (simp_all add: routing_ok_def consistent_def route_demo_def start_defs status_defs)
  from routing_stays_consistent [OF this] show ?thesis by blast
qed

lemma disabled_row:
  "ab_channel_id (if ab_channel_id x = i then x\<lparr>ab_enabled := False\<rparr> else x) = i \<longrightarrow>
   \<not> ab_enabled (if ab_channel_id x = i then x\<lparr>ab_enabled := False\<rparr> else x)"
  by (cases "ab_channel_id x = i") simp_all

lemma disabled_rows:
  "\<forall>a\<in>set (update_rows (\<lambda>a. ab_channel_id a = i) (\<lambda>a. a\<lparr>ab_enabled := False\<rparr>) rs). ab_channel_id a = i \<longrightarrow> \<not> ab_enabled a"
  unfolding update_rows_def set_map ball_simps using disabled_row by blast

lemma AutoDisable_Inr:
  assumes "AutoDisableChannelById i reason model w = (Inr b, w')" "keys_ok (w_db w)"
  obtains c where "channel_of (w_db w) i = Some c"
    "b = (c_auto_disabled c \<and> \<not> mk_is_multi (c_mk c) \<and> c_status c \<noteq> ChannelStatusAutoDisabled)"
    "b \<longrightarrow> channel_of (w_db w') i = Some (disable_row reason (w_now w) model c)"
    "b \<longrightarrow> (\<forall>a\<in>set (d_abilities (w_db w')). ab_channel_id a = i \<longrightarrow> \<not> ab_enabled a)"
proof -
  have "transaction (auto_disable_body i reason model (w_now w)) w = (Inr b, w')"
    using assms(1) by (simp add: AutoDisableChannelById_def reading_def)
  then obtain fs w2 fs' where body: "auto_disable_body i reason model (w_now w)
      (w\<lparr>w_base := Some (w_db w), w_aborted := False, w_faults := fs\<rparr>) = (Inr b, w2)"
    and w2: "w_db w' = w_db w2"
    by (auto elim!: transaction_Inr)
  have dc: "distinct (map c_id (d_channels (w_db w)))" using assms(2) by (simp add: keys_ok_def)
  from body show thesis
  proof (rule auto_disable_body_Inr)
    fix c assume c: "channel_of (w_db (w\<lparr>w_base := Some (w_db w), w_aborted := False, w_faults := fs\<rparr>)) i = Some c"
      and out: "if c_auto_disabled c \<and> \<not> mk_is_multi (c_mk c)
     then w_db w2 = d_channels_update (update_rows (\<lambda>c. c_id c = i \<and> c_status c \<noteq> ChannelStatusAutoDisabled)
            (disable_row reason (w_now w) model))
          (d_abilities_update (update_rows (\<lambda>a. ab_channel_id a = i) (\<lambda>a. a\<lparr>ab_enabled := False\<rparr>))
            (w_db (w\<lparr>w_base := Some (w_db w), w_aborted := False, w_faults := fs\<rparr>)))
       \<and> b = (0 < affected (w_dialect (w\<lparr>w_base := Some (w_db w), w_aborted := False, w_faults := fs\<rparr>))
           (\<lambda>c. c_id c = i \<and> c_status c \<noteq> ChannelStatusAutoDisabled)
           (disable_row reason (w_now w) model) (d_channels (w_db (w\<lparr>w_base := Some (w_db w), w_aborted := False, w_faults := fs\<rparr>))))
     else w_db w2 = w_db (w\<lparr>w_base := Some (w_db w), w_aborted := False, w_faults := fs\<rparr>) \<and> \<not> b"
    let ?p = "\<lambda>c. c_id c = i \<and> c_status c \<noteq> ChannelStatusAutoDisabled"
    have find: "List.find (\<lambda>c. c_id c = i) (d_channels (w_db w)) = Some c" using c by (simp add: channel_of_def)
    have changed: "c_status c \<noteq> ChannelStatusAutoDisabled \<Longrightarrow> disable_row reason (w_now w) model c \<noteq> c"
      by (cases c) (auto simp: disable_row_def)
    have aff: "(0 < affected dl ?p (disable_row reason (w_now w) model) (d_channels (w_db w))) =
        (c_status c \<noteq> ChannelStatusAutoDisabled)" for dl
      using affected_find [OF dc, of dl i "\<lambda>c. c_status c \<noteq> ChannelStatusAutoDisabled" "disable_row reason (w_now w) model"]
        find changed by auto
    have key: "c_id (disable_row reason (w_now w) model x) = c_id x" for x by (simp add: disable_row_def)
    show thesis
    proof (rule that)
      show "channel_of (w_db w) i = Some c" using c by simp
      show b: "b = (c_auto_disabled c \<and> \<not> mk_is_multi (c_mk c) \<and> c_status c \<noteq> ChannelStatusAutoDisabled)"
        using out aff by (cases "c_auto_disabled c \<and> \<not> mk_is_multi (c_mk c)") auto
      have db: "b \<longrightarrow> w_db w' = d_channels_update (update_rows ?p (disable_row reason (w_now w) model))
          (d_abilities_update (update_rows (\<lambda>a. ab_channel_id a = i) (\<lambda>a. a\<lparr>ab_enabled := False\<rparr>)) (w_db w))"
        using out b w2 by (cases "c_auto_disabled c \<and> \<not> mk_is_multi (c_mk c)") auto
      show "b \<longrightarrow> channel_of (w_db w') i = Some (disable_row reason (w_now w) model c)"
      proof
        assume b: b
        then have "channel_of (w_db w') i = List.find (\<lambda>c. c_id c = i)
            (update_rows ?p (disable_row reason (w_now w) model) (d_channels (w_db w)))"
          using db by (simp add: channel_of_def)
        moreover have "c_status c \<noteq> ChannelStatusAutoDisabled"
          using b \<open>b = (c_auto_disabled c \<and> \<not> mk_is_multi (c_mk c) \<and> c_status c \<noteq> ChannelStatusAutoDisabled)\<close> by blast
        ultimately show "channel_of (w_db w') i = Some (disable_row reason (w_now w) model c)"
          using update_rows_find [OF key dc, of i i "\<lambda>c. c_status c \<noteq> ChannelStatusAutoDisabled"] find by simp
      qed
      show "b \<longrightarrow> (\<forall>a\<in>set (d_abilities (w_db w')). ab_channel_id a = i \<longrightarrow> \<not> ab_enabled a)"
      proof
        assume b
        with db have "d_abilities (w_db w') = update_rows (\<lambda>a. ab_channel_id a = i) (\<lambda>a. a\<lparr>ab_enabled := False\<rparr>) (d_abilities (w_db w))"
          by simp
        then show "\<forall>a\<in>set (d_abilities (w_db w')). ab_channel_id a = i \<longrightarrow> \<not> ab_enabled a"
          by (elim ssubst) (rule disabled_rows)
      qed
    qed
  qed
qed

text \<open>
  A channel is reported as automatically disabled to exactly one caller: a call that
  returns true found the channel open to automatic disabling and in another status and leaves
  it disabled with all its abilities, and until its status changes again every further call
  returns false.
\<close>

theorem auto_disable_reported_once:
  assumes "AutoDisableChannelById i reason model w = (Inr b, w')" "keys_ok (w_db w)"
  shows "\<exists>c. channel_of (w_db w) i = Some c \<and>
    b = (c_auto_disabled c \<and> \<not> mk_is_multi (c_mk c) \<and> c_status c \<noteq> ChannelStatusAutoDisabled) \<and>
    (b \<longrightarrow> map_option c_status (channel_of (w_db w') i) = Some ChannelStatusAutoDisabled \<and>
       (\<forall>a\<in>set (d_abilities (w_db w')). ab_channel_id a = i \<longrightarrow> \<not> ab_enabled a)) \<and>
    (b \<longrightarrow> (\<forall>v r2 m2 b2 v'. channel_of (w_db v) i = channel_of (w_db w') i \<and> keys_ok (w_db v) \<and>
        AutoDisableChannelById i r2 m2 v = (Inr b2, v') \<longrightarrow> \<not> b2))"
proof -
  obtain c where c: "channel_of (w_db w) i = Some c"
    "b = (c_auto_disabled c \<and> \<not> mk_is_multi (c_mk c) \<and> c_status c \<noteq> ChannelStatusAutoDisabled)"
    "b \<longrightarrow> channel_of (w_db w') i = Some (disable_row reason (w_now w) model c)"
    "b \<longrightarrow> (\<forall>a\<in>set (d_abilities (w_db w')). ab_channel_id a = i \<longrightarrow> \<not> ab_enabled a)"
    using assms by (rule AutoDisable_Inr)
  have "\<not> b2" if "b" "channel_of (w_db v) i = channel_of (w_db w') i" "keys_ok (w_db v)"
      "AutoDisableChannelById i r2 m2 v = (Inr b2, v')" for v r2 m2 b2 v'
    using that(4,3)
  proof (rule AutoDisable_Inr)
    fix x assume "channel_of (w_db v) i = Some x"
      "b2 = (c_auto_disabled x \<and> \<not> mk_is_multi (c_mk x) \<and> c_status x \<noteq> ChannelStatusAutoDisabled)"
    then show ?thesis using that(1,2) c(3) by (auto simp: disable_row_def)
  qed
  then have "b \<longrightarrow> (\<forall>v r2 m2 b2 v'. channel_of (w_db v) i = channel_of (w_db w') i \<and> keys_ok (w_db v) \<and>
        AutoDisableChannelById i r2 m2 v = (Inr b2, v') \<longrightarrow> \<not> b2)"
    by blast
  moreover have "b \<longrightarrow> map_option c_status (channel_of (w_db w') i) = Some ChannelStatusAutoDisabled"
    using c(3) by (simp add: disable_row_def)
  ultimately show ?thesis using c(1,2,4) by blast
qed

theorem auto_disable_reported_once_witness:
  "map_option c_status (channel_of (w_db (snd (AutoDisableChannelById 1 ''401'' ''m'' route_demo))) 1)
     = Some ChannelStatusAutoDisabled"
proof -
  have h: "AutoDisableChannelById 1 ''401'' ''m'' route_demo =
      (Inr True, snd (AutoDisableChannelById 1 ''401'' ''m'' route_demo))" "keys_ok (w_db route_demo)"
    by (simp_all add: AutoDisableChannelById_def auto_disable_body_def set_enabled_def disable_row_def route_run run_simps)
  show ?thesis using auto_disable_reported_once [OF h] by blast
qed

end
