(* ===== verification/MediaTables.thy ===== *)
theory MediaTables
  imports ChannelStatus Tokens
begin

text \<open>
  The rows of asynchronous jobs, \<open>model/video.go\<close> and \<open>model/image.go\<close>: inserting, looking up, and the
  four ways a row is written. \<open>Video.Update\<close> writes the columns of a struct that are not zero,
  \<open>Image.Update\<close> writes the whole row, and the two conditional updates of an image write only while
  its status is not final, which makes them a compare-and-set. GORM sets \<open>updated_at\<close> on every update.
\<close>

abbreviation update_videos :: "(video \<Rightarrow> bool) \<Rightarrow> (video \<Rightarrow> video) \<Rightarrow> nat op" where
  "update_videos \<equiv> update_where d_videos d_videos_update"

abbreviation update_images :: "(image \<Rightarrow> bool) \<Rightarrow> (image \<Rightarrow> image) \<Rightarrow> nat op" where
  "update_images \<equiv> update_where d_images d_images_update"

section \<open>Videos\<close>

definition Video_Insert :: "video \<Rightarrow> video op" where
  "Video_Insert v =
     reading (\<lambda>w. exec (\<lambda>d.
       let row = v\<lparr>v_id := (if v_id v = 0 then next_id (map v_id (d_videos d)) else v_id v),
                   v_created_at := w_now w, v_updated_at := w_now w\<rparr>
       in case insert_rows d_videos d_videos_update (\<lambda>r s. v_id r = v_id s) (\<lambda>_. [row]) d of
            Inl e \<Rightarrow> Inl e
          | Inr (_, d') \<Rightarrow> Inr (row, d')))"

text \<open>\<open>Updates\<close> with a struct: a zero field leaves its column alone.\<close>

definition nz :: "int \<Rightarrow> int \<Rightarrow> int" where
  "nz new old = (if new = 0 then old else new)"

definition ne :: "string \<Rightarrow> string \<Rightarrow> string" where
  "ne new old = (if new = [] then old else new)"

definition set_columns :: "video \<Rightarrow> video \<Rightarrow> video" where
  "set_columns v r = r\<lparr>v_task_id := ne (v_task_id v) (v_task_id r), v_prompt := ne (v_prompt v) (v_prompt r),
     v_created_at := nz (v_created_at v) (v_created_at r), v_updated_at := v_updated_at v,
     v_total_duration := nz (v_total_duration v) (v_total_duration r), v_type := ne (v_type v) (v_type r),
     v_provider := ne (v_provider v) (v_provider r), v_mode := ne (v_mode v) (v_mode r),
     v_duration := ne (v_duration v) (v_duration r), v_resolution := ne (v_resolution v) (v_resolution r),
     v_username := ne (v_username v) (v_username r), v_channel_id := nz (v_channel_id v) (v_channel_id r),
     v_user_id := nz (v_user_id v) (v_user_id r), v_model := ne (v_model v) (v_model r),
     v_status := ne (v_status v) (v_status r), v_fail_reason := ne (v_fail_reason v) (v_fail_reason r),
     v_video_id := ne (v_video_id v) (v_video_id r), v_store_url := ne (v_store_url v) (v_store_url r),
     v_quota := nz (v_quota v) (v_quota r), v_n := nz (v_n v) (v_n r),
     v_credentials := ne (v_credentials v) (v_credentials r), v_result := ne (v_result v) (v_result r),
     v_callback_url := ne (v_callback_url v) (v_callback_url r),
     v_callback_status := ne (v_callback_status v) (v_callback_status r),
     v_callback_time := nz (v_callback_time v) (v_callback_time r),
     v_callback_error := ne (v_callback_error v) (v_callback_error r),
     v_sound := ne (v_sound v) (v_sound r), v_voice_list := ne (v_voice_list v) (v_voice_list r)\<rparr>"

definition Video_Update :: "video \<Rightarrow> unit op" where
  "Video_Update v =
     reading (\<lambda>w. stmt (update_videos (\<lambda>r. v_id r = v_id v) (set_columns (v\<lparr>v_updated_at := w_now w\<rparr>))))"

text \<open>A lookup that turns a missing row into an error of its own.\<close>

definition not_found_as :: "string \<Rightarrow> 'a op \<Rightarrow> 'a op" where
  "not_found_as msg f = on_result f (\<lambda>r. case r of Inl e \<Rightarrow> fail (if e = NotFound then Msg msg else e) | Inr a \<Rightarrow> ret a)"

definition GetVideoTaskById :: "string \<Rightarrow> video op" where
  "GetVideoTaskById task = not_found_as (''no record found for task_id: '' @ task) (first d_videos (\<lambda>v. v_task_id v = task))"

definition GetVideoTaskByInternalId :: "int \<Rightarrow> video op" where
  "GetVideoTaskByInternalId i = not_found_as (''no record found for id: '' @ itoa i) (first d_videos (\<lambda>v. v_id v = i))"

definition GetVideoTaskByVideoId :: "string \<Rightarrow> video op" where
  "GetVideoTaskByVideoId i = not_found_as (''no record found for video_id: '' @ i) (first d_videos (\<lambda>v. v_video_id v = i))"

definition GetVideoTaskByIdAndUserId :: "string \<Rightarrow> int \<Rightarrow> video op" where
  "GetVideoTaskByIdAndUserId task uid =
     not_found_as (''no record found for task_id: '' @ task @ '' and user_id: '' @ itoa uid)
       (first d_videos (\<lambda>v. v_task_id v = task \<and> v_user_id v = uid))"

definition GetVideoTaskByVideoIdAndUserId :: "string \<Rightarrow> int \<Rightarrow> video op" where
  "GetVideoTaskByVideoIdAndUserId i uid =
     not_found_as (''no record found for video_id: '' @ i @ '' and user_id: '' @ itoa uid)
       (first d_videos (\<lambda>v. v_video_id v = i \<and> v_user_id v = uid))"

definition UpdateVideoTaskStatusWithCondition :: "string \<Rightarrow> string \<Rightarrow> string \<Rightarrow> int \<Rightarrow> bool op" where
  "UpdateVideoTaskStatusWithCondition task expected new quota =
     reading (\<lambda>w. on_result
       (update_videos (\<lambda>v. v_task_id v = task \<and> v_status v = expected)
          (\<lambda>v. v\<lparr>v_status := new, v_quota := quota, v_updated_at := w_now w\<rparr>))
       (\<lambda>r. ret (r = Inr 1)))"

text \<open>An update by \<open>task_id\<close> that must meet a row.\<close>

definition update_by_task :: "string \<Rightarrow> string \<Rightarrow> (int \<Rightarrow> video \<Rightarrow> video) \<Rightarrow> unit op" where
  "update_by_task what task u =
     reading (\<lambda>w. on_ok (update_videos (\<lambda>v. v_task_id v = task) (u (w_now w))) (\<lambda>n.
       if n = 0 then fail (Msg (what @ task)) else ret ()))"

definition UpdateVideoStoreUrl :: "string \<Rightarrow> string \<Rightarrow> unit op" where
  "UpdateVideoStoreUrl task url =
     update_by_task ''no record found for task_id: '' task (\<lambda>now v. v\<lparr>v_store_url := url, v_updated_at := now\<rparr>)"

definition UpdateVideoCredentials :: "string \<Rightarrow> string \<Rightarrow> unit op" where
  "UpdateVideoCredentials task credentials =
     update_by_task ''no record found for task_id: '' task (\<lambda>now v. v\<lparr>v_credentials := credentials, v_updated_at := now\<rparr>)"

section \<open>Images\<close>

definition Image_Insert :: "image \<Rightarrow> image op" where
  "Image_Insert im =
     reading (\<lambda>w. exec (\<lambda>d.
       let row = im\<lparr>i_id := (if i_id im = 0 then next_id (map i_id (d_images d)) else i_id im),
                    i_created_at := nz (i_created_at im) (w_now w), i_updated_at := nz (i_updated_at im) (w_now w)\<rparr>
       in case insert_rows d_images d_images_update (\<lambda>r s. i_id r = i_id s) (\<lambda>_. [row]) d of
            Inl e \<Rightarrow> Inl e
          | Inr (_, d') \<Rightarrow> Inr (row, d')))"

text \<open>\<open>Save\<close>: a row without a key is created; otherwise all columns are written, and where no row is
  affected the row is inserted, or written again if it exists.\<close>

definition Image_Update :: "image \<Rightarrow> unit op" where
  "Image_Update im =
     (if i_id im = 0 then on_ok (Image_Insert im) (\<lambda>_. ret ())
      else reading (\<lambda>w. let row = im\<lparr>i_updated_at := w_now w\<rparr> in
        on_ok (update_images (\<lambda>r. i_id r = i_id im) (\<lambda>_. row)) (\<lambda>n.
          if 0 < n then ret ()
          else exec (\<lambda>d. Inr ((), d_images_update (\<lambda>rs.
            if \<exists>r\<in>set rs. i_id r = i_id im then update_rows (\<lambda>r. i_id r = i_id im) (\<lambda>_. row) rs else rs @ [row]) d)))))"

definition final_image :: "image \<Rightarrow> bool" where
  "final_image im \<longleftrightarrow> i_status im = ''success'' \<or> i_status im = ''failed''"

definition UpdateIfNotTerminal :: "image \<Rightarrow> bool op" where
  "UpdateIfNotTerminal im =
     reading (\<lambda>w. on_ok
       (update_images (\<lambda>r. (i_id im = 0 \<or> i_id r = i_id im) \<and> \<not> final_image r)
          (\<lambda>r. r\<lparr>i_task_id := i_task_id im, i_status := i_status im, i_store_url := i_store_url im, i_result := i_result im,
                 i_detail := i_detail im, i_quota := i_quota im, i_fail_reason := i_fail_reason im, i_updated_at := w_now w\<rparr>))
       (\<lambda>n. ret (0 < n)))"

definition UpdateProcessingIfNotTerminal :: "image \<Rightarrow> bool op" where
  "UpdateProcessingIfNotTerminal im =
     reading (\<lambda>w. on_ok
       (update_images (\<lambda>r. (i_id im = 0 \<or> i_id r = i_id im) \<and> \<not> final_image r)
          (\<lambda>r. r\<lparr>i_status := i_status im, i_updated_at := w_now w\<rparr>))
       (\<lambda>n. ret (0 < n)))"

definition GetImageByTaskId :: "string \<Rightarrow> image op" where
  "GetImageByTaskId task = first d_images (\<lambda>im. i_task_id im = task)"

definition GetImageByTaskIdAndUserId :: "string \<Rightarrow> int \<Rightarrow> image op" where
  "GetImageByTaskIdAndUserId task uid = first d_images (\<lambda>im. i_task_id im = task \<and> i_user_id im = uid)"

definition GetImageById :: "int \<Rightarrow> image op" where
  "GetImageById i = first d_images (\<lambda>im. i_id im = i)"

definition GetStuckFluxImages :: "string list \<Rightarrow> int \<Rightarrow> int \<Rightarrow> nat \<Rightarrow> image list op" where
  "GetStuckFluxImages statuses older newer limit =
     query (\<lambda>d. take limit (sort_key i_created_at
       (filter (\<lambda>im. i_provider im = ''flux'' \<and> i_status im \<in> set statuses \<and> i_created_at im < older \<and>
                     newer \<le> i_created_at im \<and> i_task_id im \<noteq> []) (d_images d))))"

definition ExpireStuckFluxImages :: "string list \<Rightarrow> int \<Rightarrow> string \<Rightarrow> nat op" where
  "ExpireStuckFluxImages statuses before reason =
     reading (\<lambda>w. update_images
       (\<lambda>im. i_provider im = ''flux'' \<and> i_status im \<in> set statuses \<and> i_created_at im < before \<and> i_task_id im \<noteq> [])
       (\<lambda>im. im\<lparr>i_status := ''failed'', i_fail_reason := reason, i_updated_at := w_now w\<rparr>))"

section \<open>Operations that keep the configuration\<close>

definition keeps_cfg :: "'a op \<Rightarrow> bool" where
  "keeps_cfg f \<longleftrightarrow> (\<forall>w r w'. f w = (r, w') \<longrightarrow> w_cfg w' = w_cfg w)"

named_theorems cfg_intros \<open>operations that keep the configuration\<close>

lemma keeps_cfgD: "keeps_cfg f \<Longrightarrow> f w = (r, w') \<Longrightarrow> w_cfg w' = w_cfg w"
  by (simp add: keeps_cfg_def)

lemma cfg_basic [cfg_intros]: "keeps_cfg (ret a)" "keeps_cfg (fail e)"
  by (simp_all add: keeps_cfg_def)

lemma cfg_on_ok [cfg_intros]: "keeps_cfg f \<Longrightarrow> (\<And>a. keeps_cfg (k a)) \<Longrightarrow> keeps_cfg (on_ok f k)"
  by (fastforce simp: keeps_cfg_def on_ok_def split: prod.splits sum.splits)

lemma cfg_then_do [cfg_intros]: "keeps_cfg f \<Longrightarrow> keeps_cfg g \<Longrightarrow> keeps_cfg (then_do f g)"
  unfolding then_do_def by (rule cfg_on_ok)

lemma cfg_on_result [cfg_intros]: "keeps_cfg f \<Longrightarrow> (\<And>r. keeps_cfg (k r)) \<Longrightarrow> keeps_cfg (on_result f k)"
  by (fastforce simp: keeps_cfg_def on_result_def split: prod.splits)

lemma cfg_ignore_err [cfg_intros]: "keeps_cfg f \<Longrightarrow> keeps_cfg (ignore_err f)"
  unfolding ignore_err_def by (intro cfg_intros)

lemma cfg_reading [cfg_intros]: "(\<And>v. keeps_cfg (k v)) \<Longrightarrow> keeps_cfg (reading k)"
  by (auto simp: keeps_cfg_def reading_def)

lemma cfg_if [cfg_intros]: "keeps_cfg f \<Longrightarrow> keeps_cfg g \<Longrightarrow> keeps_cfg (if b then f else g)"
  by simp

lemma cfg_case_sum [cfg_intros]:
  "(\<And>e. keeps_cfg (f e)) \<Longrightarrow> (\<And>a. keeps_cfg (g a)) \<Longrightarrow> keeps_cfg (case r of Inl e \<Rightarrow> f e | Inr a \<Rightarrow> g a)"
  by (cases r) auto

lemma cfg_case_option [cfg_intros]:
  "keeps_cfg f \<Longrightarrow> (\<And>a. keeps_cfg (g a)) \<Longrightarrow> keeps_cfg (case r of None \<Rightarrow> f | Some a \<Rightarrow> g a)"
  by (cases r) auto

lemma cfg_exec [cfg_intros]: "keeps_cfg (exec f)"
  unfolding keeps_cfg_def using exec_touched(1) touchedD(2) by blast

lemma cfg_query [cfg_intros]: "keeps_cfg (query f)"
  unfolding query_def by (rule cfg_exec)

lemma cfg_first [cfg_intros]: "keeps_cfg (first tbl p)"
  unfolding first_def by (intro cfg_intros)

lemma cfg_update [cfg_intros]: "keeps_cfg (update_where tbl upd p u)"
  unfolding keeps_cfg_def using update_where_touched(1) touchedD(2) by blast

lemma cfg_stmt [cfg_intros]: "keeps_cfg f \<Longrightarrow> keeps_cfg (stmt f)"
  unfolding stmt_def by (intro cfg_intros)

lemma cfg_redis_cmd:
  assumes "\<And>w. w_cfg (snd (f w)) = w_cfg w"
  shows "keeps_cfg (redis_cmd f)"
  unfolding keeps_cfg_def
proof (intro allI impI)
  fix w r w' assume c: "redis_cmd f w = (r, w')"
  have "w_cfg w' = w_cfg x" if "f x = (r, w')" for x using assms [of x] that by simp
  then show "w_cfg w' = w_cfg w"
    using c by (cases "take_fault w") (fastforce simp: redis_cmd_def take_fault_def split: if_splits list.splits)
qed

lemma cfg_redis [cfg_intros]:
  "keeps_cfg (RedisGet k)" "keeps_cfg (RedisSet k v ttl)" "keeps_cfg (RedisDel k)" "keeps_cfg (RedisDecrease k x)"
  unfolding RedisGet_def RedisSet_def RedisDel_def RedisDecrease_def
  by (rule cfg_redis_cmd; auto split: option.splits)+

lemma cfg_RecordLog [cfg_intros]: "keeps_cfg (RecordLog uid ty c)"
  unfolding keeps_cfg_def by (auto dest: RecordLog_result(4))

lemma cfg_addNewRecord [cfg_intros]: "keeps_cfg (addNewRecord ty i v)"
  by (simp add: keeps_cfg_def addNewRecord_def)

lemma cfg_statistics [cfg_intros]:
  "keeps_cfg (UpdateUserUsedQuotaAndRequestCount i q)" "keeps_cfg (UpdateChannelUsedQuota i q)"
  "keeps_cfg (DecreaseUserQuota i q)" "keeps_cfg (IncreaseUserQuota i q)" "keeps_cfg (GetChannelById i b)"
  unfolding UpdateUserUsedQuotaAndRequestCount_def updateUserUsedQuotaAndRequestCount0_def UpdateChannelUsedQuota_def
    updateChannelUsedQuota_def DecreaseUserQuota_def decreaseUserQuota0_def IncreaseUserQuota_def increaseUserQuota0_def
    GetChannelById_def
  by (intro cfg_intros)+

lemma cfg_images [cfg_intros]:
  "keeps_cfg (Image_Insert im)" "keeps_cfg (Image_Update im)" "keeps_cfg (UpdateIfNotTerminal im)"
  "keeps_cfg (UpdateProcessingIfNotTerminal im)" "keeps_cfg (GetImageByTaskId t)" "keeps_cfg (GetStuckFluxImages ss o1 n1 l)"
  "keeps_cfg (ExpireStuckFluxImages ss b why)"
  unfolding Image_Update_def Image_Insert_def UpdateIfNotTerminal_def UpdateProcessingIfNotTerminal_def GetImageByTaskId_def
    GetStuckFluxImages_def ExpireStuckFluxImages_def Let_def
  by (intro cfg_intros)+

lemma cfg_videos [cfg_intros]:
  "keeps_cfg (Video_Insert v)" "keeps_cfg (Video_Update v)" "keeps_cfg (GetVideoTaskById t)"
  unfolding Video_Insert_def Video_Update_def GetVideoTaskById_def not_found_as_def
  by (intro cfg_intros)+

end
