(* ===== verification/Pricing.thy ===== *)
theory Pricing
  imports GoFloat
begin

text \<open>
  Prices: the ratio tables of \<open>common/model-ratio.go\<close>, discounts of groups, channels, users and models, and
  the quota an answer costs. The tables are the ones the options start with; a lookup reads the first
  entry of a name.
\<close>

section \<open>Tables\<close>

text \<open>The untyped constants of the source: \<open>RMB\<close> divides integers.\<close>

definition USD2RMB :: int where "USD2RMB = 7"

definition USD :: int where "USD = 500"

definition RMB :: int where "RMB = USD div USD2RMB"

definition initial_model_ratio :: "(string \<times> f64) list" where
  "initial_model_ratio = [
     (''jev-latest'', flit 21 1000), (''jev-preview'', flit 21 1000), (''jev-1.13.0'', flit 21 1000), (''gpt-4'', flit 15 1),
     (''gpt-4-0314'', flit 15 1), (''gpt-4-0613'', flit 15 1), (''gpt-4-32k'', flit 30 1), (''gpt-4-32k-0314'', flit 30 1),
     (''gpt-4-32k-0613'', flit 30 1), (''gpt-4-1106-preview'', flit 5 1), (''gpt-4-0125-preview'', flit 5 1), (''gpt-4-turbo-preview'', flit 5 1),
     (''gpt-4-vision-preview'', flit 5 1), (''gpt-4o'', flit 25 10), (''gpt-4o-2024-05-13'', flit 25 10), (''gpt-3.5-turbo'', flit 25 100),
     (''gpt-3.5-turbo-0301'', flit 75 100), (''gpt-3.5-turbo-0613'', flit 75 100), (''gpt-3.5-turbo-16k'', flit 15 10),
     (''gpt-3.5-turbo-16k-0613'', flit 15 10), (''gpt-3.5-turbo-instruct'', flit 75 100), (''gpt-3.5-turbo-1106'', flit 5 10),
     (''gpt-3.5-turbo-0125'', flit 25 100), (''davinci-002'', flit 1 1), (''babbage-002'', flit 2 10), (''text-ada-001'', flit 2 10),
     (''text-babbage-001'', flit 25 100), (''text-curie-001'', flit 1 1), (''text-davinci-002'', flit 10 1), (''text-davinci-003'', flit 10 1),
     (''text-davinci-edit-001'', flit 10 1), (''code-davinci-edit-001'', flit 10 1), (''whisper-1'', flit 15 1),
     (''gpt-4o-mini-transcribe'', flit 625 1000), (''gpt-4o-mini-tts'', flit 3 10), (''tts-1'', flit 75 10), (''tts-1-1106'', flit 75 10),
     (''tts-1-hd'', flit 15 1), (''tts-1-hd-1106'', flit 15 1), (''davinci'', flit 10 1), (''curie'', flit 10 1), (''babbage'', flit 10 1),
     (''ada'', flit 10 1), (''text-embedding-ada-002'', flit 5 100), (''text-embedding-3-small'', flit 1 100),
     (''text-embedding-3-large'', flit 65 1000), (''text-search-ada-doc-001'', flit 10 1), (''text-moderation-stable'', flit 1 10),
     (''text-moderation-latest'', flit 1 10), (''dall-e-2'', flit 8 1), (''dall-e-3'', flit 20 1), (''gpt-4.1'', flit 1 1),
     (''gpt-4.1-2025-04-14'', flit 1 1), (''gpt-4.1-mini-2025-04-14'', flit 2 10), (''gpt-4.1-mini'', flit 2 10),
     (''gpt-4.1-nano-2025-04-14'', flit 5 100), (''gpt-4.1-nano'', flit 5 100), (''claude-instant-1.2'', flit (8 * USD) 10000),
     (''claude-2.0'', flit (8 * USD) 1000), (''claude-2.1'', flit (8 * USD) 1000), (''claude-3-haiku-20240307'', flit (25 * USD) 100000),
     (''claude-3-sonnet-20240229'', flit (3 * USD) 1000), (''claude-3-opus-20240229'', flit (15 * USD) 1000), (''ERNIE-Bot'', flit 8572 10000),
     (''ERNIE-Bot-turbo'', flit 5715 10000), (''ERNIE-Bot-4'', flit (12 * RMB) 100), (''ERNIE-Bot-8K'', flit (24 * RMB) 1000),
     (''Embedding-V1'', flit 1429 10000), (''bge-large-zh'', flit (2 * RMB) 1000), (''bge-large-en'', flit (2 * RMB) 1000),
     (''bge-large-8k'', flit (2 * RMB) 1000), (''gemini-1.5-pro'', flit 1 1), (''glm-4'', flit (1 * RMB) 10), (''glm-4v'', flit (1 * RMB) 10),
     (''glm-3-turbo'', flit (5 * RMB) 1000), (''chatglm_turbo'', flit 3572 10000), (''chatglm_pro'', flit 7143 10000),
     (''chatglm_std'', flit 3572 10000), (''chatglm_lite'', flit 1429 10000), (''qwen-turbo'', flit 5715 10000),
     (''qwen-plus'', flit 14286 10000), (''qwen-max'', flit 14286 10000), (''qwen-max-longcontext'', flit 14286 10000),
     (''text-embedding-v1'', flit 5 100), (''SparkDesk'', flit 12858 10000), (''SparkDesk-v1.1'', flit 12858 10000),
     (''SparkDesk-v2.1'', flit 12858 10000), (''SparkDesk-v3.1'', flit 12858 10000), (''SparkDesk-v3.5'', flit 12858 10000),
     (''360GPT_S2_V9'', flit 8572 10000), (''embedding-bert-512-v1'', flit 715 10000), (''embedding_s1_v1'', flit 715 10000),
     (''semantic_similarity_s1_v1'', flit 715 10000), (''hunyuan'', flit 7143 1000), (''ChatStd'', flit (1 * RMB) 100),
     (''ChatPro'', flit (1 * RMB) 10), (''moonshot-v1-8k'', flit (12 * RMB) 1000), (''moonshot-v1-32k'', flit (24 * RMB) 1000),
     (''moonshot-v1-128k'', flit (6 * RMB) 100), (''Baichuan2-Turbo'', flit (8 * RMB) 1000), (''Baichuan2-Turbo-192k'', flit (16 * RMB) 1000),
     (''Baichuan2-53B'', flit (2 * RMB) 100), (''abab6-chat'', flit (1 * RMB) 10), (''abab5.5-chat'', flit (15 * RMB) 1000),
     (''abab5.5s-chat'', flit (5 * RMB) 1000), (''open-mistral-7b'', flit (25 * USD) 100000), (''open-mixtral-8x7b'', flit (7 * USD) 10000),
     (''mistral-small-latest'', flit (2 * USD) 1000), (''mistral-medium-latest'', flit (27 * USD) 10000),
     (''mistral-large-latest'', flit (8 * USD) 1000), (''mistral-embed'', flit (1 * USD) 10000), (''llama2-70b-4096'', flit (7 * USD) 10000),
     (''llama2-7b-2048'', flit (1 * USD) 10000), (''mixtral-8x7b-32768'', flit (27 * USD) 100000), (''gemma-7b-it'', flit (1 * USD) 10000),
     (''yi-34b-chat-0205'', flit (25 * RMB) 10000), (''yi-34b-chat-200k'', flit (12 * RMB) 1000), (''yi-vl-plus'', flit (6 * RMB) 1000),
     (''command'', flit 5 10), (''command-light'', flit 5 10), (''command-nightly'', flit 5 10), (''command-light-nightly'', flit 5 10),
     (''command-r'', flit 25 100), (''command-r-plus'', flit 15 10), (''deepseek-chat'', flit (1 * RMB) 1000),
     (''deepseek-coder'', flit (1 * RMB) 1000), (''gpt-image-1'', flit 25 10), (''gpt-image-2'', flit 4 1),
     (''gemini-2.5-flash-image-preview'', flit 15 100)]"

definition initial_completion_ratio :: "(string \<times> f64) list" where
  "initial_completion_ratio = [
     (''jev-latest'', flit 0 1), (''jev-preview'', flit 0 1), (''jev-1.13.0'', flit 0 1), (''gpt-image-1'', flit 8 1),
     (''gemini-2.5-flash-image-preview'', flit 100 1), (''gpt-4o-mini-transcribe'', flit 4 1), (''gpt-4o-mini-tts'', flit 20 1)]"

definition initial_cache_ratio :: "(string \<times> f64) list" where
  "initial_cache_ratio = [
     (''claude-3-5-sonnet-20240620'', flit 1 10), (''claude-3-5-sonnet-20241022'', flit 1 10), (''claude-3-5-haiku-20241022'', flit 1 10),
     (''claude-3-opus-20240229'', flit 1 10), (''claude-3-sonnet-20240229'', flit 1 10), (''claude-3-haiku-20240307'', flit 1 10),
     (''claude-sonnet-4-20250514'', flit 1 10), (''gemini-2.5-pro'', flit 25 100), (''gemini-2.5-flash'', flit 25 100),
     (''gemini-2.0-flash'', flit 25 100), (''gemini-2.0-flash-lite'', flit 25 100), (''gemini-1.5-pro'', flit 25 100),
     (''gemini-1.5-flash'', flit 25 100)]"

definition initial_create_cache_ratio :: "(string \<times> f64) list" where
  "initial_create_cache_ratio = []"

definition initial_audio_input_ratio :: "(string \<times> f64) list" where
  "initial_audio_input_ratio = [(''gpt-4o-mini-transcribe'', flit 24 10)]"

definition initial_audio_output_ratio :: "(string \<times> f64) list" where
  "initial_audio_output_ratio = []"

definition initial_image_input_ratio :: "(string \<times> f64) list" where
  "initial_image_input_ratio = []"

definition initial_image_output_ratio :: "(string \<times> f64) list" where
  "initial_image_output_ratio = []"

definition DefaultModelPrice :: "(string \<times> f64) list" where
  "DefaultModelPrice = [
     (''gpt-4-gizmo-*'', flit 1 10), (''generate_core'', flit 3 100), (''generate_sd3'', flit 65 1000), (''generate_ultra'', flit 8 100),
     (''sd3-turbo'', flit 4 100), (''upscale_conservative'', flit 3 100), (''upscale_creative'', flit 25 100),
     (''upscale_creative_result'', flit 0 1), (''edit_erase'', flit 3 100), (''edit_inpaint'', flit 3 100), (''edit_outpaint'', flit 4 100),
     (''edit_search_replace'', flit 4 100), (''edit_remove_background'', flit 2 100), (''control_sketch'', flit 3 100),
     (''control_structure'', flit 3 100), (''image_to_video'', flit 2 10), (''flux-pro'', flit 55 1000), (''flux-schnell'', flit 3 1000),
     (''flux-dev'', flit 3 100), (''flux-2-pro'', flit 4 100), (''flux-2-flex'', flit 25 1000), (''flux-kontext-pro'', flit 6 100),
     (''flux-kontext-max'', flit 8 100), (''flux-pro-1.1'', flit 5 100), (''flux-pro-1.1-ultra'', flit 6 100),
     (''flux-pro-1.0-fill'', flit 4 100), (''flux-pro-1.0-expand'', flit 45 1000), (''flux-2-max'', flit 9 100), (''sd3-large'', flit 65 1000),
     (''sd3-medium'', flit 35 1000), (''sd3-large-turbo'', flit 4 100), (''cogvideox'', flit 1 10), (''video-01'', flit 45 100),
     (''kling-v1'', flit 14 100), (''kling-v1-5'', flit 28 100), (''kling-v1-5-std'', flit 50 1), (''kling-v1-5-pro'', flit 100 1),
     (''kling-v1-6-std'', flit 60 1), (''kling-v1-6-pro'', flit 120 1), (''gen3a_turbo'', flit 25 100), (''luma'', flit 4 10),
     (''dall-e-3'', flit 4 100), (''dall-e-2'', flit 2 100), (''viggle'', flit 2 10), (''v3.5'', flit 45 100), (''video-01-live2d'', flit 45 100),
     (''S2V-01'', flit 6 10), (''image-01'', flit 25 1000), (''grok-2-image-1212'', flit 7 100), (''grok-2-image'', flit 7 100),
     (''doubao-seedream-4-0-250828'', flit 3 100), (''doubao-seedream-4-5-251128'', flit 4 100), (''doubao-seedream-5-0-260128'', flit 35 1000)]"

text \<open>The options of the administrator; the defaults of the source are the tables above.\<close>

record pricing =
  pr_model_ratio :: "(string \<times> f64) list"
  pr_completion :: "(string \<times> f64) list"
  pr_cache :: "(string \<times> f64) list"
  pr_create_cache :: "(string \<times> f64) list"
  pr_audio_input :: "(string \<times> f64) list"
  pr_audio_output :: "(string \<times> f64) list"
  pr_image_input :: "(string \<times> f64) list"
  pr_image_output :: "(string \<times> f64) list"
  pr_model_price :: "(string \<times> f64) list"
  pr_group :: "(string \<times> f64) list"
  pr_discount :: "(string \<times> f64) list"

definition GroupRatio :: "(string \<times> f64) list" where
  "GroupRatio = [(''Lv1'', flit 1 1), (''Lv2'', flit 1 1), (''Lv3'', flit 1 1), (''Lv4'', flit 1 1), (''Lv5'', flit 1 1), (''Lv6'', flit 1 1)]"

definition initial_pricing :: pricing where
  "initial_pricing = \<lparr>pr_model_ratio = initial_model_ratio, pr_completion = initial_completion_ratio, pr_cache = initial_cache_ratio,
     pr_create_cache = initial_create_cache_ratio, pr_audio_input = initial_audio_input_ratio, pr_audio_output = initial_audio_output_ratio,
     pr_image_input = initial_image_input_ratio, pr_image_output = initial_image_output_ratio, pr_model_price = DefaultModelPrice,
     pr_group = GroupRatio, pr_discount = []\<rparr>"

section \<open>Lookups\<close>

definition trim_suffix :: "string \<Rightarrow> string \<Rightarrow> string" where
  "trim_suffix s p = (if has_suffix s p then take (length s - length p) s else s)"

definition or_else :: "f64 option \<Rightarrow> f64 \<Rightarrow> f64" where
  "or_else x d = (case x of None \<Rightarrow> d | Some v \<Rightarrow> v)"

definition GetModelRatio :: "pricing \<Rightarrow> string \<Rightarrow> f64" where
  "GetModelRatio P name0 =
     (let name1 = (if has_prefix name0 ''qwen-'' \<and> has_suffix name0 ''-internet'' then trim_suffix name0 ''-internet'' else name0);
          name = (if has_prefix name1 ''command-'' \<and> has_suffix name1 ''-internet'' then trim_suffix name1 ''-internet'' else name1)
      in case map_of (pr_model_ratio P) name of
           Some r \<Rightarrow> r
         | None \<Rightarrow> or_else (map_of DefaultModelPrice name) (flit 30 1))"

definition GetCompletionRatio :: "pricing \<Rightarrow> string \<Rightarrow> f64" where
  "GetCompletionRatio P name =
     (case map_of (pr_completion P) name of
        Some r \<Rightarrow> r
      | None \<Rightarrow>
     (case map_of initial_completion_ratio name of
        Some r \<Rightarrow> r
      | None \<Rightarrow>
        if has_prefix name ''gpt-3.5'' then
          (if name = ''gpt-3.5-turbo'' \<or> has_suffix name ''0125'' then flit 3 1
           else if has_suffix name ''1106'' then flit 2 1 else flit 4 3)
        else if has_prefix name ''gpt-4.1'' then flit 4 1
        else if has_prefix name ''gpt-4'' then
          (if has_prefix name ''gpt-4-turbo'' \<or> has_prefix name ''gpt-4o'' \<or> has_suffix name ''preview'' then flit 3 1 else flit 2 1)
        else if has_prefix name ''claude-3'' then flit 5 1
        else if has_prefix name ''claude-'' then flit 3 1
        else if has_prefix name ''mistral-'' then flit 3 1
        else if has_prefix name ''gemini-'' then flit 3 1
        else if name = ''llama2-70b-4096'' then flit 80 64
        else if name = ''llama3-8b-8192'' then flit 2 1
        else if name = ''llama3-70b-8192'' then flit 79 59
        else if name \<in> {''command'', ''command-light'', ''command-nightly'', ''command-light-nightly''} then flit 2 1
        else if name = ''command-r'' then flit 3 1
        else if name = ''command-r-plus'' then flit 5 1
        else flit 1 1))"

definition GetCacheRatio :: "pricing \<Rightarrow> string \<Rightarrow> f64" where
  "GetCacheRatio P name =
     (case map_of (pr_cache P) name of
        Some r \<Rightarrow> r
      | None \<Rightarrow> (case map_of initial_cache_ratio name of Some r \<Rightarrow> r | None \<Rightarrow> GetCompletionRatio P name))"

definition GetCreateCacheRatio :: "pricing \<Rightarrow> string \<Rightarrow> f64" where
  "GetCreateCacheRatio P name =
     (case map_of (pr_create_cache P) name of
        Some r \<Rightarrow> r
      | None \<Rightarrow> or_else (map_of initial_create_cache_ratio name) (flit 5 4))"

definition GetConfiguredCreateCacheRatio :: "pricing \<Rightarrow> string \<Rightarrow> f64" where
  "GetConfiguredCreateCacheRatio P name =
     (case map_of (pr_create_cache P) name of
        Some r \<Rightarrow> r
      | None \<Rightarrow> or_else (map_of initial_create_cache_ratio name) fzero)"

definition GetAudioInputRatio :: "pricing \<Rightarrow> string \<Rightarrow> f64" where
  "GetAudioInputRatio P name = or_else (map_of (pr_audio_input P) name) (flit 1 1)"

definition GetAudioOutputRatio :: "pricing \<Rightarrow> string \<Rightarrow> f64" where
  "GetAudioOutputRatio P name = or_else (map_of (pr_audio_output P) name) (GetCompletionRatio P name)"

definition GetImageInputRatio :: "pricing \<Rightarrow> string \<Rightarrow> f64" where
  "GetImageInputRatio P name = or_else (map_of (pr_image_input P) name) (flit 1 1)"

definition GetImageOutputRatio :: "pricing \<Rightarrow> string \<Rightarrow> f64" where
  "GetImageOutputRatio P name = or_else (map_of (pr_image_output P) name) (GetCompletionRatio P name)"

text \<open>\<open>-1\<close> is no price.\<close>

definition GetModelPrice :: "pricing \<Rightarrow> string \<Rightarrow> f64" where
  "GetModelPrice P name =
     or_else (map_of (pr_model_price P) (if has_prefix name ''gpt-4-gizmo'' then ''gpt-4-gizmo-*'' else name)) (f_of_int (- 1))"

definition has_price :: "pricing \<Rightarrow> string \<Rightarrow> bool" where
  "has_price P name \<longleftrightarrow> \<not> feq (GetModelPrice P name) (f_of_int (- 1))"

definition GetGroupRatio :: "pricing \<Rightarrow> string \<Rightarrow> f64" where
  "GetGroupRatio P name = or_else (map_of (pr_group P) name) (flit 1 1)"

definition ValidateModelDiscount :: "string \<Rightarrow> f64 \<Rightarrow> bool" where
  "ValidateModelDiscount name d \<longleftrightarrow>
     name \<noteq> [] \<and> trim_space name = name \<and> \<not> is_nan d \<and> \<not> is_inf d \<and> \<not> fle d fzero \<and> \<not> flt fone d"

definition GetModelDiscount :: "pricing \<Rightarrow> string \<Rightarrow> f64" where
  "GetModelDiscount P name = or_else (map_of (pr_discount P) name) fone"

section \<open>Combined discounts\<close>

text \<open>\<open>GetBillingFactors\<close>, from what the context has for the channel and the user, 0 when it has nothing.\<close>

definition positive_or_one :: "f64 \<Rightarrow> f64" where
  "positive_or_one v = (if flt fzero v then v else fone)"

definition GetBillingFactors :: "pricing \<Rightarrow> f64 \<Rightarrow> f64 \<Rightarrow> string \<Rightarrow> f64 \<times> f64 \<times> f64" where
  "GetBillingFactors P channel_discount user_ratio grp =
     (GetGroupRatio P grp, positive_or_one channel_discount, positive_or_one user_ratio)"

definition combined :: "f64 \<Rightarrow> f64 \<Rightarrow> f64 \<Rightarrow> f64 \<Rightarrow> f64" where
  "combined g c u m = fmul (fmul (fmul g c) u) m"

definition GetBillingGroupRatio :: "pricing \<Rightarrow> f64 \<Rightarrow> f64 \<Rightarrow> string \<Rightarrow> string \<Rightarrow> f64" where
  "GetBillingGroupRatio P channel_discount user_ratio grp name =
     (case GetBillingFactors P channel_discount user_ratio grp of (g, c, u) \<Rightarrow> combined g c u (GetModelDiscount P name))"

section \<open>The price of an answer\<close>

record usage =
  us_prompt :: int
  us_completion :: int
  us_cached :: int
  us_cache_write :: int

text \<open>A model with a price costs it once, whatever the tokens.\<close>

definition fixed_quota :: "f64 \<Rightarrow> f64 \<Rightarrow> int" where
  "fixed_quota price group_ratio = f_to_int64 (fmul (fmul price (f_of_int 500000)) group_ratio)"

definition token_sum :: "pricing \<Rightarrow> string \<Rightarrow> usage \<Rightarrow> f64 \<Rightarrow> f64 \<Rightarrow> f64 \<Rightarrow> f64" where
  "token_sum P name u model_ratio group_ratio ratio =
     (let completion_ratio = GetCompletionRatio P name
      in if 0 < us_cached u \<or> 0 < us_cache_write u then
           (let rest = wrap64 (wrap64 (us_prompt u - us_cached u) - us_cache_write u);
                plain = (if rest < 0 then 0 else rest);
                cost = (\<lambda>n k. fmul (fmul (fmul (f_of_int n) model_ratio) k) group_ratio);
                input = fmul (fmul (f_of_int plain) model_ratio) group_ratio
            in fadd (fadd (fadd input (cost (us_cached u) (GetCacheRatio P name)))
                          (cost (us_cache_write u) (GetCreateCacheRatio P name)))
                    (cost (us_completion u) completion_ratio))
         else fmul (fadd (f_of_int (us_prompt u)) (fmul (f_of_int (us_completion u)) completion_ratio)) ratio)"

definition used_quota :: "pricing \<Rightarrow> string \<Rightarrow> usage \<Rightarrow> f64 \<Rightarrow> f64 \<Rightarrow> f64 \<Rightarrow> int" where
  "used_quota P name u model_ratio group_ratio ratio =
     (if has_price P name then fixed_quota (GetModelPrice P name) group_ratio
      else let q = f_to_int64 (math_ceil (token_sum P name u model_ratio group_ratio ratio));
               q1 = (if \<not> feq ratio fzero \<and> q \<le> 0 then 1 else q)
           in if wrap64 (us_prompt u + us_completion u) = 0 then 0 else q1)"

text \<open>The estimate reserved before the answer.\<close>

definition getPreConsumedQuota :: "int \<Rightarrow> int \<Rightarrow> int \<Rightarrow> f64 \<Rightarrow> int" where
  "getPreConsumedQuota pre_consumed max_tokens prompt_tokens ratio =
     (let t = wrap64 (pre_consumed + prompt_tokens);
          t1 = (if max_tokens \<noteq> 0 then wrap64 (t + max_tokens) else t)
      in f_to_int64 (fmul (f_of_int t1) ratio))"

text \<open>Images of the two models with sizes; \<open>None\<close> for a size they do not have.\<close>

definition getImageCostRatio :: "string \<Rightarrow> string \<Rightarrow> string \<Rightarrow> f64 option" where
  "getImageCostRatio name sz quality =
     (if name = ''dall-e-2'' then
        (if sz = ''1024x1024'' then Some (flit 1 1)
         else if sz = ''512x512'' then Some (flit 9 10)
         else if sz = ''256x256'' then Some (flit 8 10) else None)
      else if name = ''dall-e-3'' then
        (if sz = ''1024x1024'' then Some (if quality = ''hd'' then flit 2 1 else flit 1 1)
         else if sz = ''1024x1792'' \<or> sz = ''1792x1024'' then Some (if quality = ''hd'' then flit 3 1 else flit 2 1)
         else None)
      else Some (flit 1 1))"

section \<open>How close the price is\<close>

lemma relative_product:
  fixes a b c u :: real
  assumes "0 \<le> a" "0 \<le> u" "u \<le> 1" "0 \<le> k" "\<bar>b - a\<bar> \<le> a * (k * u)" "\<bar>c - b\<bar> \<le> b * u" "k * u \<le> 1"
  shows "\<bar>c - a\<bar> \<le> a * ((2 * k + 1) * u)" "a * (1 - (k + 1) * u) \<le> c"
proof -
  have b: "b \<le> a * (1 + k * u)" "a * (1 - k * u) \<le> b" using assms(5) by (simp_all add: algebra_simps abs_le_iff)
  have "b * u \<le> a * (1 + k * u) * u" by (rule mult_right_mono [OF b(1) assms(2)])
  also have "\<dots> = a * u + a * (k * u) * u" by (simp add: algebra_simps)
  also have "\<dots> \<le> a * u + a * (k * u) * 1"
    using assms(1-4) by (intro add_left_mono mult_left_mono) auto
  finally have bu: "b * u \<le> a * u + a * (k * u)" by simp
  then show "\<bar>c - a\<bar> \<le> a * ((2 * k + 1) * u)" using assms(5,6) by (simp add: algebra_simps)
  have "a * (1 - k * u) * (1 - u) \<le> b * (1 - u)" by (rule mult_right_mono [OF b(2)]) (use assms(3) in simp)
  moreover have "b * (1 - u) \<le> c" using assms(6) by (simp add: algebra_simps)
  moreover have "a * (1 - (k + 1) * u) \<le> a * (1 - k * u) * (1 - u)"
    using assms(1,2,4) by (simp add: algebra_simps)
  ultimately show "a * (1 - (k + 1) * u) \<le> c" by linarith
qed

definition unit_error :: real where "unit_error = 2 powi (- 53)"

lemma unit_error_bounds: "0 < unit_error" "unit_error \<le> 1 / 2 ^ 50"
  by (simp_all add: unit_error_def powi_neg)

text \<open>\<open>approx x v k\<close>: \<open>x\<close> has the value \<open>v\<close> up to \<open>k\<close> roundings; \<open>fits v\<close>: \<open>v\<close> is far from overflow and underflow.\<close>

definition approx :: "f64 \<Rightarrow> real \<Rightarrow> real \<Rightarrow> bool" where
  "approx x v k \<longleftrightarrow> 0 \<le> v \<and> (\<exists>w. fnn x w \<and> \<bar>w - v\<bar> \<le> v * (k * unit_error))"

definition fits :: "real \<Rightarrow> bool" where
  "fits v \<longleftrightarrow> v < 2 ^ 150 \<and> (v = 0 \<or> 1 / 2 ^ 150 \<le> v)"

lemma approx_exact: "fnn x v \<Longrightarrow> approx x v 0"
  using fnn_nonneg by (force simp: approx_def)

lemma fits_near:
  assumes "fits v" "v / 2 \<le> w" "w \<le> 2 * v"
  shows "w < f_hi" "w = 0 \<or> f_lo \<le> w"
proof -
  have "(2 :: real) powi 200 \<le> 2 powi 1000" "(2 :: real) powi (- 1000) \<le> 2 powi (- 200)"
    by (rule power_int_increasing; simp)+
  then have "2 ^ 200 \<le> f_hi" "f_lo \<le> 1 / 2 ^ 200" by (simp_all add: f_hi_def f_lo_def powi_nat powi_neg)
  then show "w < f_hi" "w = 0 \<or> f_lo \<le> w" using assms by (auto simp: fits_def)
qed

lemma approx_round:
  assumes "fits v" "0 \<le> v" "0 \<le> k" "k \<le> 8" "\<bar>w - v\<bar> \<le> v * (k * unit_error)"
    and "w < f_hi \<Longrightarrow> w = 0 \<or> f_lo \<le> w \<Longrightarrow> \<exists>c. fnn x c \<and> \<bar>c - w\<bar> \<le> w * 2 powi (- 53)"
  shows "approx x v (2 * k + 1)"
proof -
  have ku: "k * unit_error \<le> 8 * (1 / 2 ^ 50)" using assms(3,4) unit_error_bounds by (intro mult_mono) auto
  then have "v * (k * unit_error) \<le> v * (1 / 2)" by (intro mult_left_mono) (use assms(2) in auto)
  then have "v / 2 \<le> w" "w \<le> 2 * v" using assms(2,5) by (auto simp: abs_le_iff)
  note n = fits_near [OF assms(1) this]
  from assms(6) [OF n] obtain c where c: "fnn x c" "\<bar>c - w\<bar> \<le> w * unit_error" by (auto simp: unit_error_def)
  have "\<bar>c - v\<bar> \<le> v * ((2 * k + 1) * unit_error)"
    by (rule relative_product(1) [OF assms(2) _ _ assms(3,5) c(2)]) (use unit_error_bounds ku in auto)
  then show ?thesis using c(1) assms(2) by (auto simp: approx_def)
qed

lemma approx_mul:
  assumes "approx x a k" "fnn y b" "0 \<le> k" "k \<le> 8" "fits (a * b)"
  shows "approx (fmul x y) (a * b) (2 * k + 1)"
proof -
  obtain w where w: "0 \<le> a" "fnn x w" "\<bar>w - a\<bar> \<le> a * (k * unit_error)" using assms(1) by (auto simp: approx_def)
  have b: "0 \<le> b" using assms(2) by (rule fnn_nonneg)
  have "\<bar>w * b - a * b\<bar> = \<bar>w - a\<bar> * b" using b by (simp add: abs_mult flip: left_diff_distrib)
  also have "\<dots> \<le> a * (k * unit_error) * b" by (rule mult_right_mono [OF w(3) b])
  finally have e: "\<bar>w * b - a * b\<bar> \<le> a * b * (k * unit_error)" by (simp add: mult_ac)
  show ?thesis
    by (rule approx_round [OF assms(5) _ assms(3,4) e]) (use w b fmul_error [OF w(2) assms(2)] in auto)
qed

lemma approx_add:
  assumes "fnn x a" "approx y b k" "0 \<le> k" "k \<le> 8" "fits (a + b)"
  shows "approx (fadd x y) (a + b) (2 * k + 1)"
proof -
  obtain w where w: "0 \<le> b" "fnn y w" "\<bar>w - b\<bar> \<le> b * (k * unit_error)" using assms(2) by (auto simp: approx_def)
  have a: "0 \<le> a" using assms(1) by (rule fnn_nonneg)
  have "b * (k * unit_error) \<le> (a + b) * (k * unit_error)"
    using a assms(3) unit_error_bounds(1) by (intro mult_right_mono) auto
  then have e: "\<bar>a + w - (a + b)\<bar> \<le> (a + b) * (k * unit_error)" using w(3) by simp
  show ?thesis
    by (rule approx_round [OF assms(5) _ assms(3,4) e]) (use w a fadd_error [OF assms(1) w(2)] in auto)
qed

text \<open>The ratios that occur: zero or not tiny, and not huge.\<close>

definition plain_ratio :: "real \<Rightarrow> bool" where
  "plain_ratio k \<longleftrightarrow> 0 \<le> k \<and> (k = 0 \<or> 1 / 2 ^ 30 \<le> k) \<and> k \<le> 2 ^ 30"

lemma fits_tokens:
  assumes "p < 2 ^ 52" "c < 2 ^ 52" "plain_ratio k" "plain_ratio r"
  shows "fits (real c * k)" "fits (real p + real c * k)" "fits ((real p + real c * k) * r)"
proof -
  have pc: "real p \<le> 2 ^ 52" "real c \<le> 2 ^ 52" "0 \<le> k" "0 \<le> r" using assms by (simp_all add: plain_ratio_def)
  have kr: "k \<le> 2 ^ 30" "r \<le> 2 ^ 30" using assms(3,4) by (simp_all add: plain_ratio_def)
  have ck1: "real c * k \<le> 2 ^ 52 * 2 ^ 30" by (rule mult_mono [OF pc(2) kr(1)]) (use pc in auto)
  have "(real p + real c * k) * r \<le> (2 ^ 52 + 2 ^ 52 * 2 ^ 30) * 2 ^ 30"
    by (rule mult_mono [OF add_mono [OF pc(1) ck1] kr(2)]) (use pc in auto)
  note up = ck1 this
  have ck: "real c * k = 0 \<or> 1 * (1 / 2 ^ 30) \<le> real c * k"
  proof (cases "c = 0 \<or> k = 0")
    case False
    then have "1 * (1 / 2 ^ 30) \<le> real c * k" using assms(3) by (intro mult_mono) (auto simp: plain_ratio_def)
    then show ?thesis by simp
  qed auto
  then show "fits (real c * k)" using up(1) by (auto simp: fits_def)
  have t: "real p + real c * k = 0 \<or> 1 / 2 ^ 30 \<le> real p + real c * k"
    using ck pc by (cases "p = 0") (auto intro: order_trans [of _ "real 1"])
  then show "fits (real p + real c * k)" using up(1) pc(1) by (auto simp: fits_def)
  have "(real p + real c * k) * r = 0 \<or> 1 / 2 ^ 30 * (1 / 2 ^ 30) \<le> (real p + real c * k) * r"
  proof (cases "real p + real c * k = 0 \<or> r = 0")
    case False
    then have "1 / 2 ^ 30 * (1 / 2 ^ 30) \<le> (real p + real c * k) * r"
      using t assms(4) pc by (intro mult_mono) (auto simp: plain_ratio_def)
    then show ?thesis by simp
  qed auto
  then show "fits ((real p + real c * k) * r)" using up(2) by (auto simp: fits_def)
qed

lemma token_sum_close:
  assumes "us_cached u \<le> 0" "us_cache_write u \<le> 0" "us_prompt u = int p" "us_completion u = int c" "p < 2 ^ 52" "c < 2 ^ 52"
    and "fnn (GetCompletionRatio P name) k" "plain_ratio k" "fnn ratio r" "plain_ratio r"
  shows "approx (token_sum P name u mr gr ratio) ((real p + real c * k) * r) 7"
proof -
  note f = fits_tokens [OF assms(5,6,8,10)]
  have "approx (fmul (f_of_int (int c)) (GetCompletionRatio P name)) (real c * k) 1"
    using approx_mul [OF approx_exact [OF fnn_int [of c]] assms(7)] f(1) assms(6) by simp
  then have "approx (fadd (f_of_int (int p)) (fmul (f_of_int (int c)) (GetCompletionRatio P name))) (real p + real c * k) 3"
    using approx_add [OF fnn_int [of p]] f(2) assms(5) by fastforce
  then have "approx (fmul (fadd (f_of_int (int p)) (fmul (f_of_int (int c)) (GetCompletionRatio P name))) ratio) ((real p + real c * k) * r) 7"
    using approx_mul [OF _ assms(9)] f(3) by fastforce
  then show ?thesis using assms(1-4) by (simp add: token_sum_def Let_def)
qed


section \<open>A concrete price\<close>

lemma no_price: "feq (f_of_int (- 1)) (f_of_int (- 1))"
  by (simp add: float_eval)

lemma gpt4_prices: "\<not> has_price initial_pricing ''gpt-4''" "GetCompletionRatio initial_pricing ''gpt-4'' = f_of_int 2"
  "GetModelRatio initial_pricing ''gpt-4'' = f_of_int 15"
proof -
  have "map_of DefaultModelPrice ''gpt-4'' = None" by (simp add: DefaultModelPrice_def)
  then show "\<not> has_price initial_pricing ''gpt-4''"
    using no_price by (simp add: has_price_def GetModelPrice_def initial_pricing_def or_else_def)
  show "GetCompletionRatio initial_pricing ''gpt-4'' = f_of_int 2" "GetModelRatio initial_pricing ''gpt-4'' = f_of_int 15"
    by (simp_all add: GetCompletionRatio_def GetModelRatio_def initial_pricing_def
      initial_completion_ratio_def initial_model_ratio_def or_else_def has_suffix_def trim_suffix_def flit_def f_of_int_def)
qed


end
