(* ===== verification/VideoPrice.thy ===== *)
theory VideoPrice
  imports Pricing
begin

text \<open>
  What an image or video costs: the rules of \<open>common/video-pricing.go\<close> with the exchange rate of
  \<open>common/exchange.go\<close>, the price of a Grok video (\<open>relay/channel/xai/video_native.go\<close>), of a Doubao
  video (\<open>relay/channel/doubao/standalone.go\<close>), of a Flux image (\<open>relay/channel/flux\<close>), and the names
  under which Kling requests are priced (\<open>relay/channel/kling\<close>).
\<close>

section \<open>The exchange rate\<close>

text \<open>The cached rate with the second it was fetched in. \<open>fetched\<close> is the answer of the rate service.\<close>

record exchange =
  ex_rate :: f64
  ex_last :: int

definition DefaultCNYToUSDRate :: f64 where "DefaultCNYToUSDRate = flit 14 100"

definition GetCNYToUSDRate :: "int \<Rightarrow> f64 option \<Rightarrow> exchange \<Rightarrow> f64 \<times> exchange" where
  "GetCNYToUSDRate now fetched e =
     (if now - ex_last e < 600 \<and> flt fzero (ex_rate e) then (ex_rate e, e)
      else let rate = (case fetched of None \<Rightarrow> DefaultCNYToUSDRate | Some r \<Rightarrow> r)
           in (rate, \<lparr>ex_rate = rate, ex_last = now\<rparr>))"

definition ConvertCNYToUSD :: "f64 \<Rightarrow> f64 \<Rightarrow> f64" where
  "ConvertCNYToUSD rate amount = fmul amount rate"

section \<open>Price rules of videos\<close>

datatype pricing_type = PricingTypePerSecond | PricingTypeFixed | PricingTypeOther string

record video_rule =
  vr_model :: string
  vr_type :: string
  vr_mode :: string
  vr_duration :: string
  vr_resolution :: string
  vr_sound :: string
  vr_pricing :: pricing_type
  vr_price :: f64
  vr_currency :: string
  vr_priority :: int

definition rule :: "string \<Rightarrow> string \<Rightarrow> string \<Rightarrow> string \<Rightarrow> string \<Rightarrow> string \<Rightarrow> pricing_type \<Rightarrow> f64 \<Rightarrow> string \<Rightarrow> int \<Rightarrow> video_rule" where
  "rule model type mode duration resolution sound pricing price currency priority =
     \<lparr>vr_model = model, vr_type = type, vr_mode = mode, vr_duration = duration, vr_resolution = resolution, vr_sound = sound,
      vr_pricing = pricing, vr_price = price, vr_currency = currency, vr_priority = priority\<rparr>"

definition DefaultVideoPricingRules :: "video_rule list" where
  "DefaultVideoPricingRules =
    [rule ''kling-v3'' ''*'' ''4k'' ''*'' ''*'' ''*'' PricingTypePerSecond (flit 3 1) ''CNY'' 15,
     rule ''kling-v3'' ''*'' ''std'' ''*'' ''*'' ''on'' PricingTypePerSecond (flit 9 10) ''CNY'' 10,
     rule ''kling-v3'' ''*'' ''std'' ''*'' ''*'' ''off'' PricingTypePerSecond (flit 6 10) ''CNY'' 10,
     rule ''kling-v3'' ''*'' ''pro'' ''*'' ''*'' ''on'' PricingTypePerSecond (flit 12 10) ''CNY'' 10,
     rule ''kling-v3'' ''*'' ''pro'' ''*'' ''*'' ''off'' PricingTypePerSecond (flit 8 10) ''CNY'' 10,
     rule ''kling-v3'' ''*'' ''*'' ''*'' ''*'' ''*'' PricingTypePerSecond (flit 6 10) ''CNY'' 5,
     rule ''kling-v3-omni'' ''*'' ''4k'' ''*'' ''*'' ''*'' PricingTypePerSecond (flit 3 1) ''CNY'' 15,
     rule ''kling-v3-omni'' ''*'' ''std'' ''*'' ''*'' ''on'' PricingTypePerSecond (flit 8 10) ''CNY'' 10,
     rule ''kling-v3-omni'' ''*'' ''std'' ''*'' ''*'' ''off'' PricingTypePerSecond (flit 6 10) ''CNY'' 10,
     rule ''kling-v3-omni'' ''*'' ''pro'' ''*'' ''*'' ''on'' PricingTypePerSecond (flit 1 1) ''CNY'' 10,
     rule ''kling-v3-omni'' ''*'' ''pro'' ''*'' ''*'' ''off'' PricingTypePerSecond (flit 8 10) ''CNY'' 10,
     rule ''kling-v3-omni'' ''*'' ''*'' ''*'' ''*'' ''*'' PricingTypePerSecond (flit 6 10) ''CNY'' 5,
     rule ''kling-video-o1'' ''*'' ''std'' ''*'' ''*'' ''*'' PricingTypePerSecond (flit 6 10) ''CNY'' 10,
     rule ''kling-video-o1'' ''*'' ''pro'' ''*'' ''*'' ''*'' PricingTypePerSecond (flit 8 10) ''CNY'' 10,
     rule ''kling-video-o1'' ''*'' ''*'' ''*'' ''*'' ''*'' PricingTypePerSecond (flit 6 10) ''CNY'' 5,
     rule ''kling-v2-master'' ''*'' ''*'' ''*'' ''*'' ''*'' PricingTypePerSecond (flit 2 1) ''CNY'' 10]"

definition matchPattern :: "string \<Rightarrow> string \<Rightarrow> bool" where
  "matchPattern pattern v =
     (if pattern = ''*'' \<or> pattern = [] then True
      else if v = [] then False
      else if has_suffix pattern ''*'' then has_prefix (to_lower v) (to_lower (trim_suffix pattern ''*''))
      else to_lower pattern = to_lower v)"

text \<open>What a rule is matched against: model, type, mode, duration, resolution and sound.\<close>

record video_spec =
  vs_model :: string
  vs_type :: string
  vs_mode :: string
  vs_duration :: string
  vs_resolution :: string
  vs_sound :: string

definition rule_matches :: "video_spec \<Rightarrow> video_rule \<Rightarrow> bool" where
  "rule_matches s r \<longleftrightarrow> matchPattern (vr_model r) (vs_model s) \<and> matchPattern (vr_type r) (vs_type s) \<and>
     matchPattern (vr_mode r) (vs_mode s) \<and> matchPattern (vr_duration r) (vs_duration s) \<and>
     matchPattern (vr_resolution r) (vs_resolution s) \<and> matchPattern (vr_sound r) (vs_sound s)"

definition better_rule :: "video_spec \<Rightarrow> video_rule \<Rightarrow> int \<times> video_rule option \<Rightarrow> int \<times> video_rule option" where
  "better_rule s r best = (if \<not> rule_matches s r then best else if fst best < vr_priority r then (vr_priority r, Some r) else best)"

definition GetVideoPricingRuleInfo :: "video_rule list \<Rightarrow> video_spec \<Rightarrow> video_rule option" where
  "GetVideoPricingRuleInfo rules s = snd (fold (better_rule s) rules (- 1, None))"

text \<open>\<open>n, _ := strconv.Atoi(s)\<close>: zero for what is no number, the nearest bound outside the range.\<close>

fun read_uint :: "nat \<Rightarrow> string \<Rightarrow> nat option" where
  "read_uint acc [] = Some acc"
| "read_uint acc (c # s) =
     (case digit_val c of None \<Rightarrow> None
      | Some k \<Rightarrow> (let n = 10 * acc + k in if 2 ^ 64 \<le> n then Some n else read_uint n s))"

definition atoi :: "string \<Rightarrow> int" where
  "atoi s =
     (let neg = (s \<noteq> [] \<and> hd s = CHR ''-'');
          body = (if s \<noteq> [] \<and> (hd s = CHR ''-'' \<or> hd s = CHR ''+'') then tl s else s)
      in if body = [] then 0
         else case read_uint 0 body of
             None \<Rightarrow> 0
           | Some n \<Rightarrow> if neg then max min_int64 (- int n) else min max_int64 (int n))"

definition CalculateVideoQuota :: "video_rule list \<Rightarrow> f64 \<Rightarrow> f64 \<Rightarrow> video_spec \<Rightarrow> int" where
  "CalculateVideoQuota rules rate quota_per_unit s =
     (let n = atoi (vs_duration s); seconds = (if n \<le> 0 then 5 else n)
      in case GetVideoPricingRuleInfo rules s of
           None \<Rightarrow> (case map_of DefaultModelPrice (vs_model s) of
                      Some price \<Rightarrow> f_to_int64 (fmul price quota_per_unit)
                    | None \<Rightarrow> f_to_int64 (fmul (flit 1 10) quota_per_unit))
         | Some r \<Rightarrow>
             (let base = (if to_upper (vr_currency r) = ''CNY'' then ConvertCNYToUSD rate (vr_price r) else vr_price r);
                  total = (case vr_pricing r of PricingTypePerSecond \<Rightarrow> fmul base (f_of_int seconds) | _ \<Rightarrow> base)
              in f_to_int64 (fmul total quota_per_unit)))"

section \<open>Grok and Doubao videos\<close>

definition bounded_seconds :: "int \<Rightarrow> int \<Rightarrow> int \<Rightarrow> int" where
  "bounded_seconds dflt most n = (let d = (if n \<le> 0 then dflt else n) in if most < d then most else d)"

definition CalculateNativeVideoQuota :: "f64 \<Rightarrow> string \<Rightarrow> int \<Rightarrow> string \<Rightarrow> bool \<Rightarrow> int" where
  "CalculateNativeVideoQuota quota_per_unit endpoint duration resolution has_image =
     (let price = (if resolution = ''720p'' then flit 7 100 else flit 5 100)
      in if endpoint = ''generations'' then
           (let total = fmul (f_of_int (bounded_seconds 8 15 duration)) price;
                total1 = (if has_image then fadd total (flit 2 1000) else total)
            in f_to_int64 (fmul total1 quota_per_unit))
         else if endpoint = ''edits'' then f_to_int64 (fmul (flit 20 100) quota_per_unit)
         else if endpoint = ''extensions'' then
           f_to_int64 (fmul (fmul (f_of_int (bounded_seconds 6 10 duration)) price) quota_per_unit)
         else f_to_int64 (fmul (flit 20 100) quota_per_unit))"

definition NativeDurationStr :: "string \<Rightarrow> int \<Rightarrow> string" where
  "NativeDurationStr endpoint duration =
     (if endpoint = ''generations'' then itoa (if duration \<le> 0 then 8 else duration)
      else if endpoint = ''extensions'' then itoa (if duration \<le> 0 then 6 else duration)
      else [])"

definition CalcPrePayQuota :: "f64 \<Rightarrow> f64 \<Rightarrow> int" where
  "CalcPrePayQuota rate quota_per_unit = f_to_int64 (fmul (ConvertCNYToUSD rate (flit 14 10)) quota_per_unit)"

definition CalcActualQuota :: "f64 \<Rightarrow> f64 \<Rightarrow> string \<Rightarrow> int \<Rightarrow> int" where
  "CalcActualQuota rate quota_per_unit name tokens =
     (let price = (if str_contains name ''doubao-seedance-2-0-fast'' then 37
                   else if str_contains name ''doubao-seedance-2-0'' then 46
                   else if str_contains name ''doubao-seedance-1-5-pro'' then 16
                   else if str_contains name ''doubao-seedance-1-0-pro'' then 15
                   else if str_contains name ''doubao-seedance-1-0-lite'' then 10 else 46);
          cny = fmul (fdiv (f_of_int price) (f_of_int 1000000)) (f_of_int tokens)
      in f_to_int64 (fmul (ConvertCNYToUSD rate cny) quota_per_unit))"

section \<open>Flux images\<close>

definition FluxMPPricingMap :: "(string \<times> f64 \<times> f64 \<times> f64) list" where
  "FluxMPPricingMap =
    [(''flux-2-max'', flit 7 100, flit 3 100, flit 15 1000),
     (''flux-2-pro'', flit 3 100, flit 15 1000, flit 15 1000),
     (''flux-2-pro-preview'', flit 3 100, flit 15 1000, flit 15 1000),
     (''flux-2-flex'', flit 5 100, flit 5 100, flit 5 100),
     (''flux-2-klein-9b'', flit 15 1000, flit 2 1000, flit 2 1000),
     (''flux-2-klein-9b-preview'', flit 15 1000, flit 2 1000, flit 2 1000),
     (''flux-2-klein-4b'', flit 14 1000, flit 1 1000, flit 1 1000)]"

definition FluxPriceMap :: "(string \<times> f64) list" where
  "FluxPriceMap =
    [(''flux-dev'', flit 25 1000),
     (''flux-pro'', flit 5 100),
     (''flux-pro-1.0-fill'', flit 5 100),
     (''flux-pro-1.0-expand'', flit 5 100),
     (''flux-pro-1.1'', flit 4 100),
     (''flux-pro-1.1-ultra'', flit 6 100),
     (''flux-kontext-pro'', flit 4 100),
     (''flux-kontext-max'', flit 8 100),
     (''flux-2-pro'', flit 3 100),
     (''flux-2-pro-preview'', flit 3 100),
     (''flux-2-max'', flit 7 100),
     (''flux-2-flex'', flit 5 100),
     (''flux-2-klein-4b'', flit 14 1000),
     (''flux-2-klein-9b'', flit 15 1000),
     (''flux-2-klein-9b-preview'', flit 15 1000)]"

definition ReplicateModelMap :: "(string \<times> string) list" where
  "ReplicateModelMap =
    [(''flux-2-max'', ''black-forest-labs/flux-2-max''),
     (''flux-2-pro-preview'', ''black-forest-labs/flux-2-pro''),
     (''flux-2-pro'', ''black-forest-labs/flux-2-pro''),
     (''flux-2-flex'', ''black-forest-labs/flux-2-flex''),
     (''flux-2-klein-4b'', ''black-forest-labs/flux-2-klein-4b''),
     (''flux-2-klein-9b-preview'', ''black-forest-labs/flux-2-klein-9b''),
     (''flux-2-klein-9b'', ''black-forest-labs/flux-2-klein-9b''),
     (''flux-kontext-pro'', ''black-forest-labs/flux-kontext-pro''),
     (''flux-kontext-max'', ''black-forest-labs/flux-kontext-max''),
     (''flux-pro-1.1-ultra'', ''black-forest-labs/flux-1.1-pro-ultra''),
     (''flux-pro-1.1'', ''black-forest-labs/flux-1.1-pro''),
     (''flux-pro'', ''black-forest-labs/flux-pro''),
     (''flux-dev'', ''black-forest-labs/flux-dev'')]"

text \<open>\<open>int64(cost / 100.0 * 500000 * groupRatio)\<close>, the cost in cents.\<close>

definition CalculateQuota :: "f64 \<Rightarrow> f64 \<Rightarrow> int" where
  "CalculateQuota cost group_ratio = f_to_int64 (fmul (fmul (fdiv cost (f_of_int 100)) (f_of_int 500000)) group_ratio)"

text \<open>Output and input megapixels.\<close>

definition ComputeCostUSD :: "string \<Rightarrow> f64 \<Rightarrow> f64 \<Rightarrow> f64" where
  "ComputeCostUSD name outputMP inputMP =
     (case map_of FluxMPPricingMap name of
        Some (first_mp, next_mp, ref_mp) \<Rightarrow>
          if flt fzero outputMP then
            (let cost = fadd fzero (if fle outputMP fone then first_mp else fadd first_mp (fmul (fsub outputMP fone) next_mp))
             in if flt fzero inputMP then fadd cost (fmul inputMP ref_mp) else cost)
          else or_else (map_of FluxPriceMap name) (flit 5 100)
      | None \<Rightarrow> or_else (map_of FluxPriceMap name) (flit 5 100))"

definition usdToQuota :: "f64 \<Rightarrow> f64 \<Rightarrow> int" where
  "usdToQuota usd group_ratio = (if fle usd fzero then 0 else f_to_int64 (fmul (fmul usd (f_of_int 500000)) group_ratio))"

definition CalculateReplicateQuota :: "string \<Rightarrow> f64 \<Rightarrow> f64 \<Rightarrow> f64 \<Rightarrow> int" where
  "CalculateReplicateQuota name outputMP inputMP group_ratio = usdToQuota (ComputeCostUSD name outputMP inputMP) group_ratio"

text \<open>The fixed price of a model, five cents for a model without one.\<close>

definition flux_fixed_quota :: "string \<Rightarrow> f64 \<Rightarrow> int" where
  "flux_fixed_quota name group_ratio =
     (case map_of FluxPriceMap name of
        Some price \<Rightarrow> f_to_int64 (fmul (fmul price (f_of_int 500000)) group_ratio)
      | None \<Rightarrow> f_to_int64 (fmul (fmul (flit 5 100) (f_of_int 500000)) group_ratio))"

section \<open>The kinds of Kling requests\<close>

definition RequestTypeText2Video :: string where "RequestTypeText2Video = ''text2video''"
definition RequestTypeOmniVideo :: string where "RequestTypeOmniVideo = ''omni-video''"
definition RequestTypeImage2Video :: string where "RequestTypeImage2Video = ''image2video''"
definition RequestTypeMultiImage2Video :: string where "RequestTypeMultiImage2Video = ''multi-image2video''"
definition RequestTypeIdentifyFace :: string where "RequestTypeIdentifyFace = ''identify-face''"
definition RequestTypeAdvancedLipSync :: string where "RequestTypeAdvancedLipSync = ''advanced-lip-sync''"
definition RequestTypeMotionControl :: string where "RequestTypeMotionControl = ''motion-control''"
definition RequestTypeMultiElements :: string where "RequestTypeMultiElements = ''multi-elements''"
definition RequestTypeVideoExtend :: string where "RequestTypeVideoExtend = ''video-extend''"
definition RequestTypeAvatarI2V :: string where "RequestTypeAvatarI2V = ''avatar-image2video''"
definition RequestTypeVideoEffects :: string where "RequestTypeVideoEffects = ''effects''"
definition RequestTypeImageRecognize :: string where "RequestTypeImageRecognize = ''image-recognize''"
definition RequestTypeTextToAudio :: string where "RequestTypeTextToAudio = ''text-to-audio''"
definition RequestTypeVideoToAudio :: string where "RequestTypeVideoToAudio = ''video-to-audio''"
definition RequestTypeTTS :: string where "RequestTypeTTS = ''tts''"
definition RequestTypeImageGeneration :: string where "RequestTypeImageGeneration = ''image-generation''"
definition RequestTypeOmniImage :: string where "RequestTypeOmniImage = ''omni-image''"
definition RequestTypeMultiImage2Image :: string where "RequestTypeMultiImage2Image = ''multi-image2image''"
definition RequestTypeImageExpand :: string where "RequestTypeImageExpand = ''image-expand''"
definition RequestTypeCustomElements :: string where "RequestTypeCustomElements = ''custom-elements''"
definition RequestTypeAdvancedCustomElements :: string where "RequestTypeAdvancedCustomElements = ''advanced-custom-elements''"
definition RequestTypeCustomVoices :: string where "RequestTypeCustomVoices = ''custom-voices''"
definition RequestTypePresetsElements :: string where "RequestTypePresetsElements = ''presets-elements''"
definition RequestTypeDeleteElements :: string where "RequestTypeDeleteElements = ''delete-elements''"
definition RequestTypePresetsVoices :: string where "RequestTypePresetsVoices = ''presets-voices''"
definition RequestTypeDeleteVoices :: string where "RequestTypeDeleteVoices = ''delete-voices''"

definition DetermineRequestType :: "string \<Rightarrow> string" where
  "DetermineRequestType path =
     (if str_contains path ''/text2video'' then RequestTypeText2Video
      else if str_contains path ''/omni-video'' then RequestTypeOmniVideo
      else if str_contains path ''/image2video'' \<and> \<not> str_contains path ''/multi-'' then RequestTypeImage2Video
      else if str_contains path ''/multi-image2video'' then RequestTypeMultiImage2Video
      else if str_contains path ''/identify-face'' then RequestTypeIdentifyFace
      else if str_contains path ''/advanced-lip-sync'' then RequestTypeAdvancedLipSync
      else if str_contains path ''/motion-control'' then RequestTypeMotionControl
      else if str_contains path ''/multi-elements'' then RequestTypeMultiElements
      else if str_contains path ''/video-extend'' then RequestTypeVideoExtend
      else if str_contains path ''/avatar/image2video'' then RequestTypeAvatarI2V
      else if str_contains path ''/effects'' then RequestTypeVideoEffects
      else if str_contains path ''/image-recognize'' then RequestTypeImageRecognize
      else if str_contains path ''/text-to-audio'' then RequestTypeTextToAudio
      else if str_contains path ''/video-to-audio'' then RequestTypeVideoToAudio
      else if str_contains path ''/tts'' then RequestTypeTTS
      else if str_contains path ''/generations'' then RequestTypeImageGeneration
      else if str_contains path ''/omni-image'' then RequestTypeOmniImage
      else if str_contains path ''/multi-image2image'' then RequestTypeMultiImage2Image
      else if str_contains path ''/editing/expand'' then RequestTypeImageExpand
      else if str_contains path ''/presets-elements'' then RequestTypePresetsElements
      else if str_contains path ''/delete-elements'' then RequestTypeDeleteElements
      else if str_contains path ''/advanced-custom-elements'' then RequestTypeAdvancedCustomElements
      else if str_contains path ''/custom-elements'' then RequestTypeCustomElements
      else if str_contains path ''/presets-voices'' then RequestTypePresetsVoices
      else if str_contains path ''/delete-voices'' then RequestTypeDeleteVoices
      else if str_contains path ''/custom-voices'' then RequestTypeCustomVoices
      else [])"

definition IsSyncRequestType :: "string \<Rightarrow> bool" where
  "IsSyncRequestType t \<longleftrightarrow> t \<in> set [RequestTypeCustomElements, RequestTypeTTS, RequestTypeImageRecognize]"

definition IsImageRequestType :: "string \<Rightarrow> bool" where
  "IsImageRequestType t \<longleftrightarrow>
     t \<in> set [RequestTypeImageGeneration, RequestTypeOmniImage, RequestTypeMultiImage2Image, RequestTypeImageExpand]"

definition IsSuccessMessage :: "string \<Rightarrow> bool" where
  "IsSuccessMessage message \<longleftrightarrow> (let n = to_lower (trim_space message) in n = ''success'' \<or> n = ''succeed'')"

definition RequiredModelNameMapping :: "(string \<times> string) list" where
  "RequiredModelNameMapping =
    [(RequestTypeIdentifyFace, ''kling-identify-face''),
     (RequestTypeImageRecognize, ''kling-image-recognize''),
     (RequestTypeCustomVoices, ''kling-custom-voices''),
     (RequestTypeTTS, ''kling-tts''),
     (RequestTypeTextToAudio, ''kling-text-to-audio''),
     (RequestTypeVideoToAudio, ''kling-video-to-audio''),
     (RequestTypeCustomElements, ''kling-custom-elements''),
     (RequestTypeAdvancedCustomElements, ''kling-advanced-custom-elements''),
     (RequestTypeVideoExtend, ''kling-video-extend''),
     (RequestTypeVideoEffects, ''kling-video-effects''),
     (RequestTypeAvatarI2V, ''kling-avatar-image2video''),
     (RequestTypeImageExpand, ''kling-image-expand'')]"

definition DefaultModelMapping :: "(string \<times> string) list" where
  "DefaultModelMapping =
    [(RequestTypeText2Video, ''kling-v1''),
     (RequestTypeImage2Video, ''kling-v1''),
     (RequestTypeOmniVideo, ''kling-video-o1''),
     (RequestTypeMultiImage2Video, ''kling-v1-6''),
     (RequestTypeMotionControl, ''kling-v2-6'')]"

definition GetModelNameByRequestType :: "string \<Rightarrow> string \<Rightarrow> string" where
  "GetModelNameByRequestType t user_model =
     (case map_of RequiredModelNameMapping t of
        Some m \<Rightarrow> m
      | None \<Rightarrow> if user_model \<noteq> [] then user_model
                else (case map_of DefaultModelMapping t of Some m \<Rightarrow> m | None \<Rightarrow> []))"

text \<open>A duration that is no number, or is under five seconds, counts as five.\<close>

definition GetDurationFromRequest :: "f64 option \<Rightarrow> int" where
  "GetDurationFromRequest d = (case d of None \<Rightarrow> 5 | Some x \<Rightarrow> if flt x (f_of_int 5) then 5 else f_to_int64 x)"

definition GetModeFromRequest :: "string option \<Rightarrow> string" where
  "GetModeFromRequest m =
     (case m of None \<Rightarrow> ''std'' | Some s \<Rightarrow> if s = ''std'' \<or> s = ''pro'' \<or> s = ''4k'' then s else ''std'')"

definition looksLikeTaskID :: "string \<Rightarrow> bool" where
  "looksLikeTaskID s \<longleftrightarrow> str_contains s ''-'' \<or> 10 < length s"

definition inferResolutionFromSize :: "string \<Rightarrow> string" where
  "inferResolutionFromSize sz =
     (case split_on (CHR ''*'') sz of
        [a, b] \<Rightarrow> (let pixels = wrap64 (atoi a * atoi b)
                   in if pixels \<le> 520000 then ''480P'' else if pixels \<le> 1050000 then ''720P'' else ''1080P'')
      | _ \<Rightarrow> ''1080P'')"

section \<open>The rule that is chosen\<close>

text \<open>The candidates of a request, and the choice the loop stands for: the first of highest priority.\<close>

definition candidates :: "video_rule list \<Rightarrow> video_spec \<Rightarrow> video_rule list" where
  "candidates rules s = filter (\<lambda>r. rule_matches s r \<and> 0 \<le> vr_priority r) rules"

definition first_best :: "video_rule list \<Rightarrow> video_rule option" where
  "first_best rs = List.find (\<lambda>r. vr_priority r = Max (vr_priority ` set rs)) rs"

lemma find_snoc: "List.find p (xs @ [x]) = (case List.find p xs of None \<Rightarrow> if p x then Some x else None | Some y \<Rightarrow> Some y)"
  by (induction xs) auto

lemma first_best_snoc:
  assumes "rs \<noteq> []"
  shows "first_best (rs @ [r]) =
    (if Max (vr_priority ` set rs) < vr_priority r then Some r else first_best rs)"
proof -
  let ?M = "Max (vr_priority ` set rs)"
  have fin: "finite (vr_priority ` set rs)" "vr_priority ` set rs \<noteq> {}" using assms by auto
  have M: "Max (vr_priority ` set (rs @ [r])) = max (vr_priority r) ?M" using fin by simp
  have le: "vr_priority q \<le> ?M" if "q \<in> set rs" for q using fin that by auto
  obtain q where q: "q \<in> set rs" "vr_priority q = ?M" using Max_in [OF fin] by fastforce
  show ?thesis
  proof (cases "?M < vr_priority r")
    case True
    then have "List.find (\<lambda>q. vr_priority q = vr_priority r) rs = None"
      unfolding find_None_iff using le by fastforce
    with True show ?thesis unfolding first_best_def M by (simp add: find_snoc max_def)
  next
    case False
    have "List.find (\<lambda>q. vr_priority q = ?M) rs \<noteq> None" using q by (auto simp: find_None_iff)
    with False show ?thesis unfolding first_best_def M by (auto simp: find_snoc max_def)
  qed
qed

lemma best_rule_fold:
  "fold (better_rule s) rules (- 1, None) =
     (let cs = candidates rules s in if cs = [] then (- 1, None) else (Max (vr_priority ` set cs), first_best cs))"
proof (induction rules rule: rev_induct)
  case Nil
  then show ?case by (simp add: candidates_def)
next
  case (snoc r rules)
  let ?cs = "candidates rules s"
  have fin: "finite (vr_priority ` set ?cs)" by simp
  have nonneg: "0 \<le> Max (vr_priority ` set ?cs)" if "?cs \<noteq> []"
  proof -
    from that obtain q where "q \<in> set ?cs" by (cases ?cs) auto
    then have "0 \<le> vr_priority q" "vr_priority q \<le> Max (vr_priority ` set ?cs)"
      using fin by (auto simp: candidates_def)
    then show ?thesis by simp
  qed
  show ?case
  proof (cases "rule_matches s r \<and> 0 \<le> vr_priority r")
    case False
    then have "candidates (rules @ [r]) s = ?cs" by (auto simp: candidates_def)
    moreover have "better_rule s r b = b" if "- 1 \<le> fst b" for b using False that by (auto simp: better_rule_def)
    ultimately show ?thesis using snoc nonneg by (auto simp: Let_def)
  next
    case True
    then have c: "candidates (rules @ [r]) s = ?cs @ [r]" by (simp add: candidates_def)
    show ?thesis
    proof (cases "?cs = []")
      case True
      then show ?thesis using snoc c \<open>rule_matches s r \<and> 0 \<le> vr_priority r\<close>
        by (simp add: better_rule_def first_best_def)
    next
      case ne: False
      have "Max (vr_priority ` set (?cs @ [r])) = max (vr_priority r) (Max (vr_priority ` set ?cs))"
        using ne by simp
      then show ?thesis using snoc c ne True first_best_snoc [OF ne, of r]
        by (cases "Max (vr_priority ` set ?cs) < vr_priority r") (simp_all add: better_rule_def max_def Let_def del: Max_less_iff set_append)
    qed
  qed
qed

text \<open>
  The price rule of a video is, of the rules that match the request and whose priority is not
  negative, the first of highest priority; without one there is no rule.
\<close>

theorem video_rule_is_best:
  "GetVideoPricingRuleInfo rules s =
     (if candidates rules s = [] then None else first_best (candidates rules s))"
  unfolding GetVideoPricingRuleInfo_def best_rule_fold by (simp add: Let_def)

section \<open>Avatar videos\<close>

lemmas kling_types =
  RequestTypeText2Video_def RequestTypeOmniVideo_def RequestTypeImage2Video_def RequestTypeMultiImage2Video_def
  RequestTypeIdentifyFace_def RequestTypeAdvancedLipSync_def RequestTypeMotionControl_def RequestTypeMultiElements_def
  RequestTypeVideoExtend_def RequestTypeAvatarI2V_def RequestTypeVideoEffects_def RequestTypeImageRecognize_def
  RequestTypeTextToAudio_def RequestTypeVideoToAudio_def RequestTypeTTS_def RequestTypeImageGeneration_def
  RequestTypeOmniImage_def RequestTypeMultiImage2Image_def RequestTypeImageExpand_def RequestTypeCustomElements_def
  RequestTypeAdvancedCustomElements_def RequestTypeCustomVoices_def RequestTypePresetsElements_def RequestTypeDeleteElements_def
  RequestTypePresetsVoices_def RequestTypeDeleteVoices_def

lemma request_types_differ:
  "RequestTypeText2Video \<noteq> RequestTypeAvatarI2V" "RequestTypeOmniVideo \<noteq> RequestTypeAvatarI2V"
  "RequestTypeImage2Video \<noteq> RequestTypeAvatarI2V"
  by (simp_all add: RequestTypeText2Video_def RequestTypeOmniVideo_def RequestTypeImage2Video_def RequestTypeAvatarI2V_def)

lemma names_unmapped:
  "map_of RequiredModelNameMapping RequestTypeText2Video = None"
  "map_of RequiredModelNameMapping RequestTypeOmniVideo = None"
  "map_of RequiredModelNameMapping RequestTypeImage2Video = None"
  by (simp_all add: RequiredModelNameMapping_def kling_types)

lemma str_contains_iff: "str_contains s p \<longleftrightarrow> (\<exists>a b. s = a @ p @ b)"
proof (induction s)
  case Nil
  then show ?case by (simp add: has_prefix_iff)
next
  case (Cons c s)
  have "(\<exists>a b. c # s = a @ p @ b) \<longleftrightarrow> (\<exists>b. c # s = p @ b) \<or> (\<exists>a b. s = a @ p @ b)"
    by (metis append_Cons append_Nil neq_Nil_conv list.inject)
  with Cons.IH show ?case by (simp only: str_contains.simps has_prefix_iff)
qed

lemma contains_part: "str_contains s (p @ q) \<Longrightarrow> str_contains s q"
  unfolding str_contains_iff by (metis append.assoc)

text \<open>
  A path that contains \<open>/avatar/image2video\<close> is never an avatar request, unless it contains
  \<open>/multi-\<close> too: an earlier test for \<open>/image2video\<close> takes it. The model is then the one the client
  named, where an avatar request would be \<open>kling-avatar-image2video\<close>.
\<close>

theorem avatar_never_recognised:
  assumes "str_contains path ''/avatar/image2video''" "\<not> str_contains path ''/multi-''" "user_model \<noteq> []"
  shows "DetermineRequestType path \<noteq> RequestTypeAvatarI2V \<and>
    GetModelNameByRequestType (DetermineRequestType path) user_model = user_model"
proof -
  have "str_contains path (''/avatar'' @ ''/image2video'')" using assms(1) by simp
  then have "str_contains path ''/image2video''" by (rule contains_part)
  then have t: "DetermineRequestType path \<in> {RequestTypeText2Video, RequestTypeOmniVideo, RequestTypeImage2Video}"
    using assms(2) by (simp add: DetermineRequestType_def)
  then have "DetermineRequestType path \<noteq> RequestTypeAvatarI2V" using request_types_differ by auto
  moreover have "map_of RequiredModelNameMapping (DetermineRequestType path) = None"
    using t names_unmapped by auto
  ultimately show ?thesis using assms(3) by (simp add: GetModelNameByRequestType_def)
qed

theorem avatar_never_recognised_witness:
  "DetermineRequestType ''/kling/v1/videos/avatar/image2video'' \<noteq> RequestTypeAvatarI2V \<and>
   GetModelNameByRequestType (DetermineRequestType ''/kling/v1/videos/avatar/image2video'') ''kling-v1'' = ''kling-v1''"
  by (rule avatar_never_recognised) simp_all

end
