(* ===== verification/Json.thy ===== *)
theory Json
  imports Prelude
begin

text \<open>
  \<open>encoding/json\<close> as the code uses it: the grammar of a document, read into a tree, and the
  decoding of a tree into Go strings, booleans, slices and maps of strings and struct fields.
  Strings are byte strings in valid UTF-8, numbers keep their text.
\<close>

section \<open>Lexical elements\<close>

definition json_space :: "char \<Rightarrow> bool" where
  "json_space c \<longleftrightarrow> c = CHR '' '' \<or> c = CHR 0x09 \<or> c = CHR 0x0A \<or> c = CHR 0x0D"

definition hex_val :: "char \<Rightarrow> nat option" where
  "hex_val c = (let n = (of_char c :: nat) in
     if 48 \<le> n \<and> n \<le> 57 then Some (n - 48)
     else if 97 \<le> n \<and> n \<le> 102 then Some (n - 87)
     else if 65 \<le> n \<and> n \<le> 70 then Some (n - 55) else None)"

fun hex4 :: "string \<Rightarrow> nat option" where
  "hex4 (a # b # c # d # s) =
     (case (hex_val a, hex_val b, hex_val c, hex_val d) of
        (Some w, Some x, Some y, Some z) \<Rightarrow> Some (((w * 16 + x) * 16 + y) * 16 + z) | _ \<Rightarrow> None)"
| "hex4 _ = None"

definition utf8 :: "nat \<Rightarrow> string" where
  "utf8 n =
     (if n < 128 then [char_of n]
      else if n < 2048 then [char_of (192 + n div 64), char_of (128 + n mod 64)]
      else if n < 65536 then [char_of (224 + n div 4096), char_of (128 + n div 64 mod 64), char_of (128 + n mod 64)]
      else [char_of (240 + n div 262144), char_of (128 + n div 4096 mod 64), char_of (128 + n div 64 mod 64),
            char_of (128 + n mod 64)])"

definition simple_escape :: "char \<Rightarrow> char option" where
  "simple_escape e = map_of [(CHR 0x22, CHR 0x22), (CHR 0x5C, CHR 0x5C), (CHR ''/'', CHR ''/''), (CHR ''b'', CHR 0x08),
     (CHR ''f'', CHR 0x0C), (CHR ''n'', CHR 0x0A), (CHR ''r'', CHR 0x0D), (CHR ''t'', CHR 0x09)] e"

text \<open>
  The text after an opening quote up to the closing one, and the rest. A surrogate pair is one
  character, a lone surrogate the replacement character.
\<close>

function json_string :: "string \<Rightarrow> (string \<times> string) option" where
  "json_string [] = None"
| "json_string (c # s) =
     (if c = CHR 0x22 then Some ([], s)
      else if (of_char c :: nat) < 32 then None
      else if c \<noteq> CHR 0x5C then map_option (\<lambda>(v, r). (c # v, r)) (json_string s)
      else case s of
        [] \<Rightarrow> None
      | e # t \<Rightarrow>
          if e = CHR ''u'' then
            (case hex4 t of
               None \<Rightarrow> None
             | Some hi \<Rightarrow>
                 let t4 = drop 4 t;
                     lo = (if take 2 t4 = [CHR 0x5C, CHR ''u''] then hex4 (drop 2 t4) else None)
                 in if 55296 \<le> hi \<and> hi < 56320 \<and> (case lo of None \<Rightarrow> False | Some l \<Rightarrow> 56320 \<le> l \<and> l < 57344)
                    then map_option (\<lambda>(v, r). (utf8 (65536 + (hi - 55296) * 1024 + (the lo - 56320)) @ v, r)) (json_string (drop 6 t4))
                    else map_option (\<lambda>(v, r). (utf8 (if 55296 \<le> hi \<and> hi < 57344 then 65533 else hi) @ v, r)) (json_string t4))
          else (case simple_escape e of None \<Rightarrow> None | Some x \<Rightarrow> map_option (\<lambda>(v, r). (x # v, r)) (json_string t)))"
  by pat_completeness auto
termination by (relation "measure size") auto

section \<open>Documents\<close>

datatype json = JNull | JBool bool | JNum string | JStr string | JArr "json list" | JObj "(string \<times> json) list"

definition skip_space :: "string \<Rightarrow> string" where
  "skip_space = dropWhile json_space"

definition is_digit :: "char \<Rightarrow> bool" where
  "is_digit c \<longleftrightarrow> digit_val c \<noteq> None"

text \<open>A number literal and the rest: sign, integer part without leading zeros, fraction, exponent.\<close>

definition json_int :: "string \<Rightarrow> (string \<times> string) option" where
  "json_int s =
     (case s of
        [] \<Rightarrow> None
      | c # t \<Rightarrow> if c = CHR ''0'' then Some ([c], t)
          else if is_digit c then Some (takeWhile is_digit s, dropWhile is_digit s) else None)"

definition json_frac :: "string \<Rightarrow> (string \<times> string) option" where
  "json_frac s =
     (case s of
        c # t \<Rightarrow> if c \<noteq> CHR ''.'' then Some ([], s)
          else if takeWhile is_digit t = [] then None
          else Some (c # takeWhile is_digit t, dropWhile is_digit t)
      | [] \<Rightarrow> Some ([], []))"

definition json_exp :: "string \<Rightarrow> (string \<times> string) option" where
  "json_exp s =
     (case s of
        c # t \<Rightarrow> if c \<noteq> CHR ''e'' \<and> c \<noteq> CHR ''E'' then Some ([], s)
          else let sg = takeWhile (\<lambda>x. x = CHR ''+'' \<or> x = CHR ''-'') (take 1 t); u = drop (length sg) t
               in if takeWhile is_digit u = [] then None
                  else Some (c # sg @ takeWhile is_digit u, dropWhile is_digit u)
      | [] \<Rightarrow> Some ([], []))"

definition json_number :: "string \<Rightarrow> (string \<times> string) option" where
  "json_number s =
     (let sg = takeWhile (\<lambda>x. x = CHR ''-'') (take 1 s)
      in case json_int (drop (length sg) s) of None \<Rightarrow> None
       | Some (i, r) \<Rightarrow> (case json_frac r of None \<Rightarrow> None
           | Some (f, r1) \<Rightarrow> (case json_exp r1 of None \<Rightarrow> None
               | Some (e, r2) \<Rightarrow> Some (sg @ i @ f @ e, r2))))"

definition json_scalar :: "string \<Rightarrow> (json \<times> string) option" where
  "json_scalar s =
     (if take 4 s = ''null'' then Some (JNull, drop 4 s)
      else if take 4 s = ''true'' then Some (JBool True, drop 4 s)
      else if take 5 s = ''false'' then Some (JBool False, drop 5 s)
      else map_option (\<lambda>(x, r). (JNum x, r)) (json_number s))"

text \<open>
  A value, the members of an object after its opening brace, the items of an array after its
  opening bracket. The fuel counts calls; two per character are enough.
\<close>

fun json_value :: "nat \<Rightarrow> string \<Rightarrow> (json \<times> string) option"
  and json_members :: "nat \<Rightarrow> string \<Rightarrow> ((string \<times> json) list \<times> string) option"
  and json_items :: "nat \<Rightarrow> string \<Rightarrow> (json list \<times> string) option"
where
  "json_value 0 s = None"
| "json_value (Suc n) s =
     (case skip_space s of
        [] \<Rightarrow> None
      | c # t \<Rightarrow>
          if c = CHR 0x22 then map_option (\<lambda>(v, r). (JStr v, r)) (json_string t)
          else if c = CHR ''{'' then
            (case skip_space t of
               [] \<Rightarrow> None
             | b # u \<Rightarrow> if b = CHR ''}'' then Some (JObj [], u)
                        else map_option (\<lambda>(m, r). (JObj m, r)) (json_members n (b # u)))
          else if c = CHR ''['' then
            (case skip_space t of
               [] \<Rightarrow> None
             | b # u \<Rightarrow> if b = CHR '']'' then Some (JArr [], u)
                        else map_option (\<lambda>(vs, r). (JArr vs, r)) (json_items n (b # u)))
          else json_scalar (c # t))"
| "json_members 0 s = None"
| "json_members (Suc n) s =
     (case s of
        [] \<Rightarrow> None
      | q # t \<Rightarrow>
          if q \<noteq> CHR 0x22 then None
          else (case json_string t of
             None \<Rightarrow> None
           | Some (k, r) \<Rightarrow>
               (case skip_space r of
                  [] \<Rightarrow> None
                | c # r1 \<Rightarrow>
                    if c \<noteq> CHR '':'' then None
                    else (case json_value n r1 of
                       None \<Rightarrow> None
                     | Some (v, r2) \<Rightarrow>
                         (case skip_space r2 of
                            [] \<Rightarrow> None
                          | e # r3 \<Rightarrow>
                              if e = CHR ''}'' then Some ([(k, v)], r3)
                              else if e = CHR '','' then
                                map_option (\<lambda>(m, r). ((k, v) # m, r)) (json_members n (skip_space r3))
                              else None)))))"
| "json_items 0 s = None"
| "json_items (Suc n) s =
     (case json_value n s of
        None \<Rightarrow> None
      | Some (v, r) \<Rightarrow>
          (case skip_space r of
             [] \<Rightarrow> None
           | e # r1 \<Rightarrow>
               if e = CHR '']'' then Some ([v], r1)
               else if e = CHR '','' then map_option (\<lambda>(vs, r). (v # vs, r)) (json_items n r1)
               else None))"

text \<open>A whole document: one value, white space around it and nothing else.\<close>

definition json_doc :: "nat \<Rightarrow> string \<Rightarrow> json option" where
  "json_doc n s =
     (case json_value n s of
        None \<Rightarrow> None
      | Some (v, r) \<Rightarrow> if skip_space r = [] then Some v else None)"

definition json_parse :: "string \<Rightarrow> json option" where
  "json_parse s = json_doc (2 * length s + 2) s"

section \<open>Decoding\<close>

text \<open>
  \<open>json.Unmarshal\<close> into a Go value that holds \<open>cur\<close>: \<open>null\<close> leaves a string, boolean or number as
  it is and clears a map; a value of another kind is the type error.
\<close>

definition decode_string :: "string \<Rightarrow> json \<Rightarrow> string option" where
  "decode_string cur v = (case v of JNull \<Rightarrow> Some cur | JStr s \<Rightarrow> Some s | _ \<Rightarrow> None)"

definition decode_bool :: "bool \<Rightarrow> json \<Rightarrow> bool option" where
  "decode_bool cur v = (case v of JNull \<Rightarrow> Some cur | JBool b \<Rightarrow> Some b | _ \<Rightarrow> None)"

text \<open>All the values, or the type error of one of them.\<close>

fun all_some :: "'a option list \<Rightarrow> 'a list option" where
  "all_some [] = Some []"
| "all_some (x # xs) = (case x of None \<Rightarrow> None | Some y \<Rightarrow> map_option (Cons y) (all_some xs))"

definition decode_strings :: "json \<Rightarrow> string list option" where
  "decode_strings v = (case v of JNull \<Rightarrow> Some [] | JArr vs \<Rightarrow> all_some (map (decode_string []) vs) | _ \<Rightarrow> None)"

text \<open>A map keeps its last entry per key; the result lists its keys once.\<close>

definition put_key :: "'k \<Rightarrow> 'v \<Rightarrow> ('k \<times> 'v) list \<Rightarrow> ('k \<times> 'v) list" where
  "put_key k v m = filter (\<lambda>e. fst e \<noteq> k) m @ [(k, v)]"

definition decode_string_map :: "(string \<times> string) list \<Rightarrow> json \<Rightarrow> (string \<times> string) list option" where
  "decode_string_map cur v =
     (case v of
        JNull \<Rightarrow> Some []
      | JObj m \<Rightarrow> map_option (\<lambda>vs. fold (\<lambda>(k, x). put_key k x) (zip (map fst m) vs) cur)
                     (all_some (map (\<lambda>e. decode_string [] (snd e)) m))
      | _ \<Rightarrow> None)"

text \<open>A struct field: the members whose key is its name, in any case, in the order of the document.\<close>

fun decode_field :: "('a \<Rightarrow> json \<Rightarrow> 'a option) \<Rightarrow> string \<Rightarrow> 'a \<Rightarrow> (string \<times> json) list \<Rightarrow> 'a option" where
  "decode_field dec name cur [] = Some cur"
| "decode_field dec name cur ((k, v) # m) =
     (if to_lower k = to_lower name
      then (case dec cur v of None \<Rightarrow> None | Some x \<Rightarrow> decode_field dec name x m)
      else decode_field dec name cur m)"

section \<open>Enough fuel\<close>

lemma json_string_shorter_aux: "length s \<le> n \<Longrightarrow> json_string s = Some (v, r) \<Longrightarrow> length r < length s"
proof (induction n arbitrary: s v r)
  case 0
  then show ?case by simp
next
  case (Suc n)
  show ?case
  proof (cases s)
    case Nil
    with Suc.prems show ?thesis by simp
  next
    case (Cons c t)
    have ih: "length r' < length x" if "json_string x = Some (v', r')" "length x \<le> length t" for x v' r'
      using Suc.IH [OF _ that(1)] that(2) Suc.prems(1) Cons by simp
    have "length r \<le> length t"
      using Suc.prems(2) unfolding Cons
      by (force simp: Let_def dest!: ih split: if_splits list.splits option.splits simp del: json_string.simps(1)
          simp: json_string.simps)
    then show ?thesis by (simp add: Cons)
  qed
qed

lemma skip_space_le: "length (skip_space s) \<le> length s"
  unfolding skip_space_def by (rule length_dropWhile_le)

lemma skip_space_Cons: "skip_space s = c # t \<Longrightarrow> length t < length s"
  using skip_space_le [of s] by simp

lemma json_string_shorter: "json_string s = Some (v, r) \<Longrightarrow> length r < length s"
  using json_string_shorter_aux by blast

lemma json_scalar_shorter: "json_scalar s = Some (v, r) \<Longrightarrow> length r < length s"
proof -
  have int: "json_int x = Some (i, y) \<Longrightarrow> length y < length x" for x i y
    using length_dropWhile_le [of is_digit "tl x"]
    by (cases x) (auto simp: json_int_def split: if_splits)
  have frac: "json_frac x = Some (i, y) \<Longrightarrow> length y \<le> length x" for x i y
    using length_dropWhile_le [of is_digit "tl x"]
    by (cases x) (auto simp: json_frac_def split: if_splits)
  have ex: "json_exp x = Some (i, y) \<Longrightarrow> length y \<le> length x" for x i y
  proof (cases x)
    case (Cons c t)
    moreover assume "json_exp x = Some (i, y)"
    ultimately show ?thesis
      using length_dropWhile_le [of is_digit "drop n t" for n] 
      by (auto simp: json_exp_def Let_def split: if_splits intro: le_SucI order_trans [OF length_dropWhile_le])
  qed (simp add: json_exp_def)
  have num: "json_number x = Some (i, y) \<Longrightarrow> length y < length x" for x i y
    by (auto simp: json_number_def Let_def split: option.splits prod.splits dest!: int frac ex)
  have "s \<noteq> []" if "json_scalar s = Some (v, r)"
    using that by (auto simp: json_scalar_def json_number_def json_int_def)
  then show "json_scalar s = Some (v, r) \<Longrightarrow> length r < length s"
    by (cases s) (auto simp: json_scalar_def split: if_splits dest!: num)
qed

lemma json_shorter:
  "(\<forall>s v r. json_value n s = Some (v, r) \<longrightarrow> length r < length s) \<and>
   (\<forall>s m r. json_members n s = Some (m, r) \<longrightarrow> length r < length s) \<and>
   (\<forall>s vs r. json_items n s = Some (vs, r) \<longrightarrow> length r < length s)"
proof (induction n)
  case (Suc n)
  then have v: "json_value n s = Some (v, r) \<Longrightarrow> length r < length s"
    and m: "json_members n s = Some (m, r) \<Longrightarrow> length r < length s"
    and i: "json_items n s = Some (vs, r) \<Longrightarrow> length r < length s" for s v m vs r by blast+
  note short = json_string_shorter json_scalar_shorter skip_space_Cons v m i
  have "length r < length s" if "json_value (Suc n) s = Some (x, r)" for s x r
  proof (cases "skip_space s")
    case (Cons c t)
    with that have "length r \<le> length t"
      by (cases "skip_space t") (auto split: if_splits dest!: short)
    with skip_space_Cons [OF Cons] show ?thesis by simp
  qed (use that in simp)
  moreover have "length r < length s" if "json_members (Suc n) s = Some (x, r)" for s x r
  proof -
    from that obtain t k u where t: "s = CHR 0x22 # t" "json_string t = Some (k, u)"
      by (auto split: list.splits if_splits option.splits)
    from that t obtain u1 y u2 where u: "skip_space u = CHR '':'' # u1" "json_value n u1 = Some (y, u2)"
      by (auto split: list.splits if_splits option.splits)
    from that t u obtain e u3 where e: "skip_space u2 = e # u3" "r = u3 \<or> (\<exists>m. json_members n (skip_space u3) = Some (m, r))"
      by (auto split: list.splits if_splits option.splits)
    have "length r \<le> length u3" using e(2) m skip_space_le [of u3] by (metis less_imp_le order.refl order.trans)
    moreover have "length u < length t" "length u1 < length u" "length u2 < length u1" "length u3 < length u2"
      using short(1) [OF t(2)] skip_space_Cons [OF u(1)] v [OF u(2)] skip_space_Cons [OF e(1)] by simp_all
    ultimately show ?thesis by (simp add: t(1))
  qed
  moreover have "length r < length s" if "json_items (Suc n) s = Some (x, r)" for s x r
  proof -
    from that obtain y u where u: "json_value n s = Some (y, u)" by (auto split: option.splits)
    from that u obtain e u3 where e: "skip_space u = e # u3" "r = u3 \<or> (\<exists>m. json_items n u3 = Some (m, r))"
      by (auto split: list.splits if_splits option.splits)
    have "length r \<le> length u3" using e(2) i by (metis less_imp_le order.refl)
    with v [OF u] skip_space_Cons [OF e(1)] show ?thesis by simp
  qed
  ultimately show ?case by blast
qed simp

lemma json_enough:
  "(\<forall>s m. 2 * length s < n \<and> 2 * length s < m \<longrightarrow> json_value n s = json_value m s) \<and>
   (\<forall>s m. 2 * length s < n \<and> 2 * length s < m \<longrightarrow> json_members n s = json_members m s) \<and>
   (\<forall>s m. 2 * length s + 1 < n \<and> 2 * length s + 1 < m \<longrightarrow> json_items n s = json_items m s)"
proof (induction n)
  case (Suc n)
  then have v: "2 * length s < n \<Longrightarrow> 2 * length s < m \<Longrightarrow> json_value n s = json_value m s"
    and mm: "2 * length s < n \<Longrightarrow> 2 * length s < m \<Longrightarrow> json_members n s = json_members m s"
    and i: "2 * length s + 1 < n \<Longrightarrow> 2 * length s + 1 < m \<Longrightarrow> json_items n s = json_items m s" for s m by blast+
  have short: "json_value n s = Some (x, r) \<Longrightarrow> length r < length s" for s x r using json_shorter [of n] by blast
  have "json_value (Suc n) s = json_value m s" if "2 * length s < Suc n" "2 * length s < m" for s m
  proof (cases "skip_space s")
    case Nil
    with that(2) show ?thesis by (cases m) simp_all
  next
    case (Cons c t)
    from that(2) obtain k where k: "m = Suc k" by (cases m) auto
    note t = skip_space_Cons [OF Cons]
    show ?thesis
    proof (cases "skip_space t")
      case Nil
      then show ?thesis by (simp add: Cons k)
    next
      case b: (Cons b u)
      have "length (b # u) < length s" using t skip_space_le [of t] b by simp
      then have "json_members n (b # u) = json_members k (b # u)" "json_items n (b # u) = json_items k (b # u)"
        using that k by (intro mm i; simp)+
      then show ?thesis by (simp add: Cons k b)
    qed
  qed
  moreover have "json_members (Suc n) s = json_members m s" if "2 * length s < Suc n" "2 * length s < m" for s m
  proof -
    from that(2) obtain k where k: "m = Suc k" by (cases m) auto
    show ?thesis
    proof (cases s)
      case (Cons q t)
      show ?thesis
      proof (cases "json_string t")
        case (Some p)
        then obtain kk r where p: "json_string t = Some (kk, r)" by (cases p) auto
        then have r: "length r < length t" by (rule json_string_shorter)
        show ?thesis
        proof (cases "skip_space r")
          case c: (Cons c r1)
          have r1: "length r1 < length r" using skip_space_Cons [OF c] .
          have e1: "json_value n r1 = json_value k r1" using that k r r1 Cons by (intro v) simp_all
          show ?thesis
          proof (cases "json_value n r1")
            case None
            then show ?thesis by (simp add: k Cons p c flip: e1)
          next
            case y: (Some y)
            obtain x r2 where x: "json_value n r1 = Some (x, r2)" using y by (cases y) auto
            then have r2: "length r2 < length r1" by (rule short)
            show ?thesis
            proof (cases "skip_space r2")
              case Nil
              then show ?thesis by (simp add: k Cons p c x flip: e1)
            next
              case e: (Cons e r3)
              have "length (skip_space r3) < length s"
                using skip_space_Cons [OF e] skip_space_le [of r3] r r1 r2 Cons by simp
              then have "json_members n (skip_space r3) = json_members k (skip_space r3)"
                using that k by (intro mm) simp_all
              then show ?thesis by (simp add: k Cons p c x e flip: e1)
            qed
          qed
        qed (simp add: k Cons p)
      qed (simp add: k Cons)
    qed (simp add: k)
  qed
  moreover have "json_items (Suc n) s = json_items m s" if "2 * length s + 1 < Suc n" "2 * length s + 1 < m" for s m
  proof -
    from that(2) obtain k where k: "m = Suc k" by (cases m) auto
    have e1: "json_value n s = json_value k s" using that k by (intro v) simp_all
    show ?thesis
    proof (cases "json_value n s")
      case None
      then show ?thesis by (simp add: k flip: e1)
    next
      case y: (Some y)
      obtain x r where x: "json_value n s = Some (x, r)" using y by (cases y) auto
      then have r: "length r < length s" by (rule short)
      show ?thesis
      proof (cases "skip_space r")
        case Nil
        then show ?thesis by (simp add: k x flip: e1)
      next
        case e: (Cons e r1)
        have "json_items n r1 = json_items k r1"
          using that k r skip_space_Cons [OF e] by (intro i) simp_all
        then show ?thesis by (simp add: k x e flip: e1)
      qed
    qed
  qed
  ultimately show ?case by blast
qed simp

lemma json_doc_enough:
  assumes "2 * length s < n"
  shows "json_doc n s = json_parse s"
proof -
  have "2 * length s < 2 * length s + 2" by simp
  with json_enough [of n] assms have "json_value n s = json_value (2 * length s + 2) s" by blast
  then show ?thesis unfolding json_doc_def json_parse_def by (simp only:)
qed

end
