(* ===== verification/JsonWrite.thy ===== *)
theory JsonWrite
  imports Json
begin

text \<open>
  \<open>json.Marshal\<close>: the compact text of a tree, with the escapes of \<open>encoding/json\<close>, and the round trip
  through the parser of \<open>Json\<close>.
\<close>

section \<open>Texts\<close>

definition hex_digit :: "nat \<Rightarrow> char" where
  "hex_digit n = (if n < 10 then char_of (48 + n) else char_of (87 + n))"

definition u_escape :: "nat \<Rightarrow> string" where
  "u_escape n = [CHR 0x5C, CHR ''u'', hex_digit (n div 4096), hex_digit (n div 256 mod 16), hex_digit (n div 16 mod 16), hex_digit (n mod 16)]"

definition escape_char :: "char \<Rightarrow> string" where
  "escape_char c =
     (if c = CHR 0x22 \<or> c = CHR 0x5C then [CHR 0x5C, c]
      else if c = CHR 0x08 then [CHR 0x5C, CHR ''b'']
      else if c = CHR 0x0C then [CHR 0x5C, CHR ''f'']
      else if c = CHR 0x0A then [CHR 0x5C, CHR ''n'']
      else if c = CHR 0x0D then [CHR 0x5C, CHR ''r'']
      else if c = CHR 0x09 then [CHR 0x5C, CHR ''t'']
      else if (of_char c :: nat) < 32 \<or> c = CHR ''<'' \<or> c = CHR ''>'' \<or> c = CHR ''&'' then u_escape (of_char c)
      else [c])"

text \<open>The line separators U+2028 and U+2029 are escaped as well.\<close>

fun quote_chars :: "string \<Rightarrow> string" where
  "quote_chars (a # b # c # s) =
     (if a = CHR 0xE2 \<and> b = CHR 0x80 \<and> c = CHR 0xA8 then u_escape 8232 @ quote_chars s
      else if a = CHR 0xE2 \<and> b = CHR 0x80 \<and> c = CHR 0xA9 then u_escape 8233 @ quote_chars s
      else escape_char a @ quote_chars (b # c # s))"
| "quote_chars (a # s) = escape_char a @ quote_chars s"
| "quote_chars [] = []"

definition json_quote :: "string \<Rightarrow> string" where
  "json_quote s = CHR 0x22 # quote_chars s @ [CHR 0x22]"

fun render :: "json \<Rightarrow> string" where
  "render JNull = ''null''"
| "render (JBool b) = (if b then ''true'' else ''false'')"
| "render (JNum t) = t"
| "render (JStr s) = json_quote s"
| "render (JArr vs) = ''['' @ join_with '','' (map render vs) @ '']''"
| "render (JObj m) = ''{'' @ join_with '','' (map (\<lambda>(k, v). json_quote k @ '':'' @ render v) m) @ ''}''"

section \<open>A quoted text is read back\<close>

declare json_string.simps(2) [simp del]

lemma read_quote: "json_string (CHR 0x22 # r) = Some ([], r)"
  by (simp add: json_string.simps(2))

lemma read_plain:
  assumes "c \<noteq> CHR 0x22" "c \<noteq> CHR 0x5C" "\<not> (of_char c :: nat) < 32"
  shows "json_string (c # r) = map_option (\<lambda>(v, r). (c # v, r)) (json_string r)"
  using assms by (simp add: json_string.simps(2))

lemma read_escape:
  assumes "simple_escape e = Some x" "e \<noteq> CHR ''u''"
  shows "json_string (CHR 0x5C # e # r) = map_option (\<lambda>(v, r). (x # v, r)) (json_string r)"
  using assms by (simp add: json_string.simps(2))

lemma read_u:
  assumes "hex4 t = Some n" "n < 55296"
  shows "json_string (CHR 0x5C # CHR ''u'' # t) = map_option (\<lambda>(v, r). (utf8 n @ v, r)) (json_string (drop 4 t))"
  using assms by (simp add: json_string.simps(2) Let_def)

lemma hex_digits: "n < 16 \<Longrightarrow> hex_val (hex_digit n) = Some n"
  by (simp add: hex_digit_def hex_val_def Let_def)

lemma four_digits: "((n div 4096 * 16 + n div 256 mod 16) * 16 + n div 16 mod 16) * 16 + n mod 16 = (n :: nat)"
proof -
  have "n div 4096 = n div 256 div 16" "n div 256 = n div 16 div 16" by (simp_all add: div_mult2_eq [symmetric])
  then have "n div 4096 * 16 + n div 256 mod 16 = n div 256" "n div 256 * 16 + n div 16 mod 16 = n div 16"
    by (simp_all only: div_mult_mod_eq)
  then show ?thesis by simp
qed

lemma u_escape_read:
  assumes "n < 55296"
  shows "json_string (u_escape n @ r) = map_option (\<lambda>(v, r). (utf8 n @ v, r)) (json_string r)"
proof -
  have "n div 4096 < 16" using assms by simp
  then have "hex4 (drop 2 (u_escape n) @ r) =
      Some (((n div 4096 * 16 + n div 256 mod 16) * 16 + n div 16 mod 16) * 16 + n mod 16)"
    by (simp add: u_escape_def hex_digits)
  then have "hex4 (drop 2 (u_escape n) @ r) = Some n" by (simp only: four_digits)
  then show ?thesis using read_u [OF _ assms, of "drop 2 (u_escape n) @ r"] by (simp add: u_escape_def)
qed

lemma escape_char_read:
  "json_string (escape_char c @ r) = map_option (\<lambda>(v, r). (c # v, r)) (json_string r)"
proof -
  have u: "json_string (u_escape (of_char c) @ r) = map_option (\<lambda>(v, r). (c # v, r)) (json_string r)"
    if "(of_char c :: nat) < 128"
    using u_escape_read [of "of_char c" r] that by (simp add: utf8_def)
  have big: "(of_char c :: nat) < 128" if "(of_char c :: nat) < 32 \<or> c = CHR ''<'' \<or> c = CHR ''>'' \<or> c = CHR ''&''"
    using that by auto
  show ?thesis
  proof (cases "c \<in> {CHR 0x22, CHR 0x5C, CHR 0x08, CHR 0x0C, CHR 0x0A, CHR 0x0D, CHR 0x09}")
    case True
    then obtain e where "escape_char c = [CHR 0x5C, e]" "simple_escape e = Some c" "e \<noteq> CHR ''u''"
      by (auto simp: escape_char_def simple_escape_def)
    then show ?thesis by (simp add: read_escape)
  next
    case False
    then show ?thesis using u big by (auto simp: escape_char_def read_plain)
  qed
qed

lemma quote_chars_read: "json_string (quote_chars s @ CHR 0x22 # r) = Some (s, r)"
proof (induction s rule: quote_chars.induct)
  case (1 a b c s)
  have l: "utf8 8232 = [CHR 0xE2, CHR 0x80, CHR 0xA8]" "utf8 8233 = [CHR 0xE2, CHR 0x80, CHR 0xA9]"
    using char_of_char [where ?'a = nat, of "CHR 0xE2"] char_of_char [where ?'a = nat, of "CHR 0x80"]
      char_of_char [where ?'a = nat, of "CHR 0xA8"] char_of_char [where ?'a = nat, of "CHR 0xA9"]
    by (simp_all add: utf8_def)
  show ?case using 1 by (simp add: u_escape_read escape_char_read l)
qed (simp_all add: escape_char_read read_quote)

lemma json_quote_read: "json_string (tl (json_quote s) @ r) = Some (s, r)"
  using quote_chars_read [of s r] by (simp add: json_quote_def)

section \<open>A document is read back\<close>

text \<open>Trees whose numbers are integers, the ones the code writes.\<close>

fun int_json :: "json \<Rightarrow> bool" where
  "int_json (JNum t) = (\<exists>i. t = itoa i)"
| "int_json (JArr vs) = (\<forall>v\<in>set vs. int_json v)"
| "int_json (JObj m) = (\<forall>kv\<in>set m. int_json (snd kv))"
| "int_json v = True"

definition closes :: "string \<Rightarrow> bool" where
  "closes r \<longleftrightarrow> r = [] \<or> hd r \<in> {CHR '','', CHR '']'', CHR ''}''}"

lemma closes_simps [simp]: "closes []" "closes (CHR '','' # r)" "closes (CHR '']'' # r)" "closes (CHR ''}'' # r)"
  by (simp_all add: closes_def)

lemma digit_char_is_digit: "k < 10 \<Longrightarrow> is_digit (digit_char k)"
  by (simp add: is_digit_def)

lemma digit_char_ne: "k < 10 \<Longrightarrow> digit_char k = c \<Longrightarrow> 48 \<le> (of_char c :: nat) \<and> (of_char c :: nat) < 58"
  by (auto simp: digit_char_def)

lemma nat_digits_all: "\<forall>c\<in>set (nat_digits n). is_digit c"
proof (induction n rule: nat_digits.induct)
  case (1 n)
  then show ?case by (simp add: nat_digits.simps [of n] digit_char_is_digit)
qed

lemma nat_digits_lead: "nat_digits n = CHR ''0'' # s \<Longrightarrow> n = 0"
proof (induction n arbitrary: s rule: nat_digits.induct)
  case (1 n)
  show ?case
  proof (cases "n < 10")
    case True
    with "1.prems" have "digit_char n = CHR ''0''" by (simp add: nat_digits.simps [of n])
    then have "(of_char (digit_char n) :: nat) = 48" by simp
    with True show ?thesis by (simp add: digit_char_def)
  next
    case False
    obtain k t where k: "nat_digits (n div 10) = digit_char k # t" using nat_digits_hd by blast
    with False "1.prems" have "nat_digits (n div 10) = CHR ''0'' # t" by (simp add: nat_digits.simps [of n])
    from "1.IH" [OF False this] have "n div 10 = 0" .
    with False show ?thesis by simp
  qed
qed

lemma closes_number:
  assumes "closes r"
  shows "takeWhile is_digit r = []" "dropWhile is_digit r = r" "json_frac r = Some ([], r)" "json_exp r = Some ([], r)"
  using assms by (cases r; auto simp: closes_def json_frac_def json_exp_def is_digit_def digit_val_def Let_def)+

lemma json_int_digits:
  assumes "closes r"
  shows "json_int (nat_digits n @ r) = Some (nat_digits n, r)"
proof -
  obtain k t where k: "k < 10" "nat_digits n = digit_char k # t" using nat_digits_hd by blast
  show ?thesis
  proof (cases "digit_char k = CHR ''0''")
    case True
    then have "n = 0" using nat_digits_lead k(2) by simp
    then have "nat_digits n = ''0''"
      using char_of_char [where ?'a = nat, of "CHR ''0''"] by (simp add: nat_digits.simps [of 0] digit_char_def)
    then show ?thesis by (simp add: json_int_def)
  next
    case False
    have "takeWhile is_digit (nat_digits n @ r) = nat_digits n" "dropWhile is_digit (nat_digits n @ r) = r"
      using nat_digits_all [of n] closes_number(1,2) [OF assms] by (simp_all add: takeWhile_append2 dropWhile_append2)
    then show ?thesis using False k by (simp add: json_int_def digit_char_is_digit)
  qed
qed

lemma json_number_itoa:
  assumes "closes r"
  shows "json_number (itoa i @ r) = Some (itoa i, r)"
proof -
  obtain k t where k: "k < 10" "nat_digits (nat \<bar>i\<bar>) = digit_char k # t" using nat_digits_hd by blast
  have "digit_char k \<noteq> CHR ''-''" using digit_char_not_sign [OF k(1)] by blast
  then show ?thesis
    using k json_int_digits [OF assms, of "nat \<bar>i\<bar>"] closes_number(3,4) [OF assms]
    by (cases "i < 0") (simp_all add: json_number_def itoa_def Let_def)
qed

lemma render_start:
  assumes "int_json v"
  obtains c t where "render v = c # t" "\<not> json_space c" "c \<noteq> CHR '']''" "c \<noteq> CHR ''}''"
proof (cases v)
  case (JNum x)
  then obtain i where i: "x = itoa i" using assms by auto
  obtain k t where k: "k < 10" "nat_digits (nat \<bar>i\<bar>) = digit_char k # t" using nat_digits_hd by blast
  have d: "\<not> json_space (digit_char k)" "digit_char k \<noteq> CHR '']''" "digit_char k \<noteq> CHR ''}''"
    using digit_char_ne [OF k(1)] by (fastforce simp: json_space_def)+
  show thesis using that [of "hd x" "tl x"] JNum i k d by (cases "i < 0") (auto simp: itoa_def json_space_def)
qed (use that [of "hd (render v)" "tl (render v)"] in \<open>auto simp: json_quote_def json_space_def split: if_splits\<close>)

text \<open>\<open>reads v s r\<close>: with enough fuel the value at the head of \<open>s\<close> is \<open>v\<close> and \<open>r\<close> is left.\<close>

definition reads :: "json \<Rightarrow> string \<Rightarrow> string \<Rightarrow> bool" where
  "reads v s r \<longleftrightarrow> (\<exists>n0. \<forall>n\<ge>n0. json_value n s = Some (v, r))"

lemma reads_Suc:
  assumes "\<exists>n0. \<forall>n\<ge>n0. json_value (Suc n) s = Some (v, r)"
  shows "reads v s r"
proof -
  from assms obtain n0 where n0: "\<And>n. n0 \<le> n \<Longrightarrow> json_value (Suc n) s = Some (v, r)" by blast
  have "json_value n s = Some (v, r)" if "Suc n0 \<le> n" for n
    using n0 [of "n - 1"] that by (cases n) auto
  then show ?thesis unfolding reads_def by blast
qed

lemma skip_start: "\<not> json_space c \<Longrightarrow> skip_space (c # t) = c # t"
  by (simp add: skip_space_def)

lemma render_skip: "int_json v \<Longrightarrow> skip_space (render v @ r) = render v @ r"
  by (rule render_start [of v]) (auto simp: skip_start)

lemma items_read:
  assumes "vs \<noteq> []" "\<forall>v\<in>set vs. \<forall>r. closes r \<longrightarrow> reads v (render v @ r) r"
  shows "\<exists>n0. \<forall>n\<ge>n0. json_items n (join_with '','' (map render vs) @ CHR '']'' # r) = Some (vs, r)"
  using assms
proof (induction vs)
  case Nil
  then show ?case by simp
next
  case (Cons v vs)
  show ?case
  proof (cases vs)
    case Nil
    have "closes (CHR '']'' # r)" by simp
    then obtain n0 where n0: "\<And>n. n0 \<le> n \<Longrightarrow> json_value n (render v @ CHR '']'' # r) = Some (v, CHR '']'' # r)"
      using Cons.prems(2) unfolding reads_def by (meson list.set_intros(1))
    have "json_items n (join_with '','' (map render (v # vs)) @ CHR '']'' # r) = Some (v # vs, r)" if "Suc n0 \<le> n" for n
      using that n0 [of "n - 1"] Nil by (cases n) (auto simp: skip_start json_space_def)
    then show ?thesis by blast
  next
    case (Cons w ws)
    let ?rest = "join_with '','' (map render vs) @ CHR '']'' # r"
    have "closes (CHR '','' # ?rest)" by simp
    then obtain n0 where n0: "\<And>n. n0 \<le> n \<Longrightarrow> json_value n (render v @ CHR '','' # ?rest) = Some (v, CHR '','' # ?rest)"
      using Cons.prems(2) unfolding reads_def by (meson list.set_intros(1))
    obtain n1 where n1: "\<And>n. n1 \<le> n \<Longrightarrow> json_items n ?rest = Some (vs, r)"
      using Cons.IH Cons.prems(2) Cons by auto
    have "json_items n (join_with '','' (map render (v # vs)) @ CHR '']'' # r) = Some (v # vs, r)" if "Suc (max n0 n1) \<le> n" for n
      using that n0 [of "n - 1"] n1 [of "n - 1"] Cons by (cases n) (auto simp: skip_start json_space_def)
    then show ?thesis by blast
  qed
qed

abbreviation member :: "string \<times> json \<Rightarrow> string" where
  "member kv \<equiv> (case kv of (k, v) \<Rightarrow> json_quote k @ '':'' @ render v)"

lemma json_quote_Cons: "json_quote s = CHR 0x22 # quote_chars s @ [CHR 0x22]"
  by (simp add: json_quote_def)

lemma members_read:
  assumes "m \<noteq> []" "\<forall>kv\<in>set m. \<forall>r. closes r \<longrightarrow> reads (snd kv) (render (snd kv) @ r) r"
  shows "\<exists>n0. \<forall>n\<ge>n0. json_members n (join_with '','' (map member m) @ CHR ''}'' # r) = Some (m, r)"
  using assms
proof (induction m)
  case Nil
  then show ?case by simp
next
  case (Cons kv m)
  obtain k v where kv: "kv = (k, v)" by (cases kv)
  have vr: "\<forall>r. closes r \<longrightarrow> (\<exists>n0. \<forall>n\<ge>n0. json_value n (render v @ r) = Some (v, r))"
    using Cons.prems(2) kv by (simp add: reads_def)
  have colon: "\<And>x. skip_space (CHR '':'' # x) = CHR '':'' # x" "\<And>x. skip_space (CHR ''}'' # x) = CHR ''}'' # x"
    "\<And>x. skip_space (CHR '','' # x) = CHR '','' # x" "\<And>x. skip_space (CHR 0x22 # x) = CHR 0x22 # x"
    by (simp_all add: skip_space_def json_space_def)
  show ?case
  proof (cases m)
    case Nil
    have "closes (CHR ''}'' # r)" by simp
    then obtain n0 where n0: "\<And>n. n0 \<le> n \<Longrightarrow> json_value n (render v @ CHR ''}'' # r) = Some (v, CHR ''}'' # r)"
      using vr by blast
    have "json_members n (join_with '','' (map member (kv # m)) @ CHR ''}'' # r) = Some (kv # m, r)" if "Suc n0 \<le> n" for n
      using that n0 [of "n - 1"] Nil by (cases n) (auto simp: colon kv json_quote_Cons quote_chars_read)
    then show ?thesis by blast
  next
    case (Cons w ws)
    let ?rest = "join_with '','' (map member m) @ CHR ''}'' # r"
    have "closes (CHR '','' # ?rest)" by simp
    then obtain n0 where n0: "\<And>n. n0 \<le> n \<Longrightarrow> json_value n (render v @ CHR '','' # ?rest) = Some (v, CHR '','' # ?rest)"
      using vr by blast
    obtain n1 where n1: "\<And>n. n1 \<le> n \<Longrightarrow> json_members n ?rest = Some (m, r)"
      using Cons.IH Cons.prems(2) Cons by auto
    obtain x where x: "?rest = CHR 0x22 # x" using Cons by (cases w; cases ws) (auto simp: json_quote_Cons)
    have "json_members n (join_with '','' (map member (kv # m)) @ CHR ''}'' # r) = Some (kv # m, r)" if "Suc (max n0 n1) \<le> n" for n
      using that n0 [of "n - 1"] n1 [of "n - 1"] Cons x by (cases n) (auto simp: colon kv json_quote_Cons quote_chars_read)
    then show ?thesis by blast
  qed
qed

lemma render_read: "int_json v \<Longrightarrow> closes r \<Longrightarrow> reads v (render v @ r) r"
proof (induction v arbitrary: r)
  case (JArr vs)
  show ?case
  proof (cases "vs = []")
    case True
    then show ?thesis by (intro reads_Suc) (simp add: skip_start json_space_def)
  next
    case False
    then obtain n0 where n0: "\<And>n. n0 \<le> n \<Longrightarrow> json_items n (join_with '','' (map render vs) @ CHR '']'' # r) = Some (vs, r)"
      using items_read [of vs r] JArr by auto
    obtain w ws where vs: "vs = w # ws" using False by (cases vs) auto
    obtain c t where w: "render w = c # t" "\<not> json_space c" "c \<noteq> CHR '']''"
    proof -
      have "int_json w" using JArr.prems(1) vs by simp
      then show thesis by (rule render_start) (rule that)
    qed
    obtain u where u: "join_with '','' (map render vs) = c # u" using w vs by (cases ws) auto
    show ?thesis
      using n0 u w(2,3) by (intro reads_Suc exI [of _ n0]) (auto simp: skip_start json_space_def)
  qed
next
  case (JObj m)
  show ?case
  proof (cases "m = []")
    case True
    then show ?thesis by (intro reads_Suc) (simp add: skip_start json_space_def)
  next
    case False
    have "\<forall>kv\<in>set m. \<forall>r. closes r \<longrightarrow> reads (snd kv) (render (snd kv) @ r) r"
      using JObj by (auto simp: snds.simps)
    with False obtain n0 where n0: "\<And>n. n0 \<le> n \<Longrightarrow> json_members n (join_with '','' (map member m) @ CHR ''}'' # r) = Some (m, r)"
      using members_read [of m r] by auto
    obtain k v ws where m: "m = (k, v) # ws" using False by (cases m) auto
    obtain u where u: "join_with '','' (map member m) = CHR 0x22 # u" using m by (cases ws) (auto simp: json_quote_Cons)
    show ?thesis
      using n0 u by (intro reads_Suc exI [of _ n0]) (auto simp: skip_start json_space_def)
  qed
next
  case (JNum t)
  then obtain i where i: "t = itoa i" by auto
  obtain k s where k: "k < 10" "nat_digits (nat \<bar>i\<bar>) = digit_char k # s" using nat_digits_hd by blast
  have v: "digit_char k \<noteq> c" if "c \<in> {CHR 0x22, CHR ''{'', CHR ''['', CHR ''n'', CHR ''t'', CHR ''f''}" for c
    using digit_char_ne [OF k(1)] that by auto
  obtain c u where c: "render (JNum t) = c # u" "\<not> json_space c"
    by (rule render_start [OF JNum.prems(1)]) (rule that)
  have cs: "c \<notin> {CHR 0x22, CHR ''{'', CHR ''['', CHR ''n'', CHR ''t'', CHR ''f''}"
    using c(1) i k v by (cases "i < 0") (auto simp: itoa_def)
  have "json_scalar (itoa i @ r) = Some (JNum (itoa i), r)"
    using json_number_itoa [OF JNum.prems(2), of i] c cs i by (auto simp: json_scalar_def)
  then show ?case using c cs i by (intro reads_Suc) (auto simp: skip_start)
qed (auto intro!: reads_Suc simp: skip_start json_space_def json_scalar_def json_quote_Cons quote_chars_read)

lemma parse_render:
  assumes "int_json v"
  shows "json_parse (render v) = Some v"
proof -
  have "closes []" by simp
  from render_read [OF assms this] obtain n0 where n0: "\<And>n. n0 \<le> n \<Longrightarrow> json_value n (render v) = Some (v, [])"
    by (auto simp: reads_def)
  let ?n = "max n0 (2 * length (render v) + 2)"
  have "json_doc ?n (render v) = Some v" using n0 [of ?n] by (simp add: json_doc_def skip_space_def)
  moreover have "2 * length (render v) < ?n" by simp
  ultimately show ?thesis using json_doc_enough [of "render v" ?n] by (simp only:)
qed

end
