(* ===== verification/MultiKey.thy ===== *)
theory MultiKey
  imports ChannelStatus Json "HOL-Library.AList"
begin

text \<open>
  Channels that hold several keys, \<open>model/channel.go\<close>: parsing the key column, choosing the next
  key by round robin or at random, importing, toggling and deleting keys, and the handling of a
  key error that disables a key and, with the last one, the channel.
\<close>

section \<open>Parsing the key column\<close>

text \<open>
  \<open>common.ExtractJSONObjects\<close>: top-level brace-balanced substrings; \<open>cur\<close> is the current object
  read backwards. Bytes of multi-byte characters count as text, so only ASCII white space may
  stand between objects.
\<close>

fun extract_objects :: "nat \<Rightarrow> string \<Rightarrow> string \<Rightarrow> string list" where
  "extract_objects depth cur [] = []"
| "extract_objects depth cur (r # s) =
     (if r = CHR ''{'' then extract_objects (depth + 1) (r # (if depth = 0 then [] else cur)) s
      else if r = CHR ''}'' then
        (if depth = 0 then extract_objects 0 cur s
         else if depth = 1 then rev (r # cur) # extract_objects 0 [] s
         else extract_objects (depth - 1) (r # cur) s)
      else if depth = 0 then (if is_space r then extract_objects 0 cur s else [])
      else extract_objects depth (r # cur) s)"

definition ExtractJSONObjects :: "string \<Rightarrow> string list" where
  "ExtractJSONObjects s = extract_objects 0 [] (trim_space s)"

definition json_string_array :: "string \<Rightarrow> string list option" where
  "json_string_array s = (case json_parse s of None \<Rightarrow> None | Some v \<Rightarrow> decode_strings v)"

definition ChannelTypeVertexAI :: int where "ChannelTypeVertexAI = 48"

definition trim_newlines :: "string \<Rightarrow> string" where
  "trim_newlines s = rev (dropWhile (\<lambda>c. c = CHR 0x0A) (rev (dropWhile (\<lambda>c. c = CHR 0x0A) s)))"

definition lines_of_keys :: "string \<Rightarrow> string list" where
  "lines_of_keys s = filter (\<lambda>k. k \<noteq> []) (map trim_space (split_on (CHR 0x0A) (trim_newlines s)))"

definition ParseKeys :: "channel \<Rightarrow> string list" where
  "ParseKeys c =
     (if c_key c = [] then []
      else let trimmed = trim_space (c_key c)
      in if c_type c = ChannelTypeVertexAI then ExtractJSONObjects trimmed
      else case (if has_prefix trimmed ''['' \<and> has_suffix trimmed '']'' then json_string_array trimmed else None) of
        Some keys \<Rightarrow> keys
      | None \<Rightarrow> lines_of_keys trimmed)"

section \<open>Key status\<close>

definition GetKeyStatus :: "channel \<Rightarrow> int \<Rightarrow> int" where
  "GetKeyStatus c i = (case map_of (mk_status (c_mk c)) i of Some st \<Rightarrow> st | None \<Rightarrow> ChannelStatusEnabled)"

definition key_enabled :: "channel \<Rightarrow> nat \<Rightarrow> bool" where
  "key_enabled c i \<longleftrightarrow> GetKeyStatus c (int i) = ChannelStatusEnabled"

definition enabled_indices :: "channel \<Rightarrow> nat list" where
  "enabled_indices c = filter (key_enabled c) [0..<length (ParseKeys c)]"

definition GetKeyByIndex :: "channel \<Rightarrow> int \<Rightarrow> gerr + string" where
  "GetKeyByIndex c i =
     (if \<not> mk_is_multi (c_mk c) then
        (if i = 0 then Inr (c_key c) else Inl (Msg ''key index out of range for single-key channel''))
      else let keys = ParseKeys c
      in if i < 0 \<or> int (length keys) \<le> i then Inl (Msg ''key index out of range'')
      else if GetKeyStatus c i \<noteq> ChannelStatusEnabled then Inl (Msg ''key is disabled'')
      else Inr (keys ! nat i))"

definition GetKeyStats :: "channel \<Rightarrow> nat \<times> nat \<times> nat \<times> nat" where
  "GetKeyStats c =
     (let n = length (ParseKeys c); count = (\<lambda>st. length (filter (\<lambda>i. GetKeyStatus c (int i) = st) [0..<n]))
      in (n, count ChannelStatusEnabled, count ChannelStatusManuallyDisabled, count ChannelStatusAutoDisabled))"

section \<open>Choosing a key\<close>

text \<open>The process-wide counter: its old value, modulo the number of keys.\<close>

definition incrChannelPollingIndex :: "int \<Rightarrow> nat \<Rightarrow> nat op" where
  "incrChannelPollingIndex cid n w =
     (Inr (nat (go_mod (w_polling w cid) (int n))), w\<lparr>w_polling := (w_polling w)(cid := wrap64 (w_polling w cid + 1))\<rparr>)"

text \<open>\<open>common.RedisIncrMod\<close>: a pipelined \<open>INCR\<close> and \<open>EXPIRE\<close>.\<close>

definition RedisIncrMod :: "string \<Rightarrow> nat \<Rightarrow> int \<Rightarrow> nat op" where
  "RedisIncrMod key n ttl =
     (if n = 0 then fail (Msg ''n must be positive'')
      else redis_cmd (\<lambda>w.
        let old = (case live (w_now w) (w_redis w key) of None \<Rightarrow> Some 0 | Some s \<Rightarrow> parse_int64 s)
        in case old of
          None \<Rightarrow> (Inl (Msg ''ERR value is not an integer or out of range''), w)
        | Some v \<Rightarrow>
            if in_int64 (v + 1)
            then (Inr (nat (go_mod v (int n))), w\<lparr>w_redis := (w_redis w)(key \<mapsto> (itoa (v + 1), Some (w_now w + ttl)))\<rparr>)
            else (Inl (Msg ''ERR increment or decrement would overflow''), w)))"

definition polling_key :: "int \<Rightarrow> string" where
  "polling_key cid = ''channel:polling:'' @ itoa cid"

definition polling_start :: "channel \<Rightarrow> nat \<Rightarrow> nat op" where
  "polling_start c n =
     on_result (RedisIncrMod (polling_key (c_id c)) n 86400) (\<lambda>r.
       case r of Inl _ \<Rightarrow> incrChannelPollingIndex (c_id c) n | Inr i \<Rightarrow> ret i)"

text \<open>The first allowed index of a round starting at \<open>start\<close>.\<close>

definition next_from :: "nat \<Rightarrow> nat \<Rightarrow> (nat \<Rightarrow> bool) \<Rightarrow> nat option" where
  "next_from start n ok = List.find ok (map (\<lambda>i. (start + i) mod n) [0..<n])"

text \<open>One of the allowed indices by the selection mode; \<open>rnd\<close> is the raw random number.\<close>

definition select_key :: "nat \<Rightarrow> channel \<Rightarrow> nat list \<Rightarrow> (string \<times> nat) op" where
  "select_key rnd c allowed =
     (let keys = ParseKeys c; pick = (\<lambda>i. ret (keys ! i, i))
      in case mk_mode (c_mk c) of
        KeySelectionRandom \<Rightarrow> pick (allowed ! (rnd mod length allowed))
      | KeySelectionPolling \<Rightarrow>
          on_ok (polling_start c (length keys)) (\<lambda>start.
            case next_from start (length keys) (\<lambda>i. i \<in> set allowed) of
              Some i \<Rightarrow> pick i | None \<Rightarrow> pick (hd allowed))
      | KeySelectionOther _ \<Rightarrow> pick (hd allowed))"

definition GetNextAvailableKey :: "nat \<Rightarrow> channel \<Rightarrow> (string \<times> nat) op" where
  "GetNextAvailableKey rnd c =
     (if \<not> mk_is_multi (c_mk c) then ret (c_key c, 0)
      else if ParseKeys c = [] then fail (Msg ''no keys available'')
      else if enabled_indices c = [] then fail (Msg ''no enabled keys available'')
      else select_key rnd c (enabled_indices c))"

definition GetNextAvailableKeyWithRetry :: "nat \<Rightarrow> channel \<Rightarrow> int list \<Rightarrow> (string \<times> nat) op" where
  "GetNextAvailableKeyWithRetry rnd c excluded =
     (if \<not> mk_is_multi (c_mk c) then ret (c_key c, 0)
      else if ParseKeys c = [] then fail (Msg ''no keys available'')
      else let available = filter (\<lambda>i. int i \<notin> set excluded) (enabled_indices c)
      in if available = [] then fail (Msg ''no available keys after excluding failed ones'')
      else select_key rnd c available)"

definition ResolveKeyByIndex :: "nat \<Rightarrow> channel \<Rightarrow> int \<Rightarrow> string op" where
  "ResolveKeyByIndex rnd c i =
     (case GetKeyByIndex c i of
        Inr (k # ks) \<Rightarrow> ret (k # ks)
      | _ \<Rightarrow> on_result (GetNextAvailableKey rnd c) (\<lambda>r. case r of
          Inr (k # ks, _) \<Rightarrow> ret (k # ks) | _ \<Rightarrow> ret (c_key c)))"

section \<open>Changing keys\<close>

definition notify :: "int \<Rightarrow> int option \<Rightarrow> unit op" where
  "notify cid key w = (Inr (), w\<lparr>w_notices := w_notices w @ [(cid, key)]\<rparr>)"

definition checkAndUpdateChannelStatus :: "channel \<Rightarrow> channel op" where
  "checkAndUpdateChannelStatus c =
     (if \<not> mk_is_multi (c_mk c) then ret c
      else if ParseKeys c = [] then ret (c\<lparr>c_status := ChannelStatusAutoDisabled\<rparr>)
      else if enabled_indices c = [] then reading (\<lambda>w.
        let c' = c\<lparr>c_status := ChannelStatusAutoDisabled, c_disabled_reason := Some ''all keys disabled'',
                   c_disabled_time := Some (w_now w)\<rparr>
        in if c_status c \<noteq> ChannelStatusAutoDisabled then then_do (notify (c_id c) None) (ret c') else ret c')
      else ret c)"

definition saveMultiKeyInfo :: "channel \<Rightarrow> unit op" where
  "saveMultiKeyInfo c =
     (if c_id c = 0 then fail (Msg ''WHERE conditions required'') else set_channel (c_id c) (\<lambda>r. r\<lparr>c_mk := c_mk c\<rparr>))"

definition updateChannelStatus :: "channel \<Rightarrow> unit op" where
  "updateChannelStatus c =
     (if c_id c = 0 then fail (Msg ''WHERE conditions required'') else set_channel (c_id c) (\<lambda>r. r\<lparr>c_status := c_status c\<rparr>))"

definition zero_metadata :: key_metadata where
  "zero_metadata = \<lparr>k_balance = fzero, k_usage = 0, k_last_used = 0, k_import_batch = [], k_note = [],
     k_disabled_reason = None, k_disabled_time = None, k_status_code = None, k_disabled_model = None\<rparr>"

definition new_metadata :: "int \<Rightarrow> key_metadata" where
  "new_metadata now = zero_metadata\<lparr>k_import_batch := ''batch_'' @ itoa now\<rparr>"

text \<open>Metadata for the keys from \<open>start\<close> on that have none.\<close>

definition init_metadata :: "int \<Rightarrow> nat list \<Rightarrow> (int \<times> key_metadata) list \<Rightarrow> (int \<times> key_metadata) list" where
  "init_metadata now = fold (\<lambda>i md. if map_of md (int i) = None then AList.update (int i) (new_metadata now) md else md)"

definition imported :: "channel \<Rightarrow> string list \<Rightarrow> import_mode \<Rightarrow> int \<Rightarrow> channel" where
  "imported c newKeys mode now =
     (let finalKeys = (if mode = BatchImportOverride then newKeys else ParseKeys c @ newKeys);
          mk = c_mk c;
          status = (if mode = BatchImportOverride then [] else mk_status mk);
          metadata = (if mode = BatchImportOverride then [] else mk_metadata mk)
      in c\<lparr>c_key := join_with [CHR 0x0A] finalKeys,
           c_mk := mk\<lparr>mk_is_multi := (1 < length finalKeys), mk_key_count := int (length finalKeys),
             mk_last_import := now, mk_import_mode := mode, mk_status := status,
             mk_metadata := init_metadata now [length finalKeys - length newKeys..<length finalKeys] metadata\<rparr>\<rparr>)"

definition BatchImportKeys :: "channel \<Rightarrow> string list \<Rightarrow> import_mode \<Rightarrow> channel op" where
  "BatchImportKeys c newKeys mode =
     (if newKeys = [] then fail (Msg ''no keys provided'')
      else case mode of
        BatchImportOther _ \<Rightarrow> fail (Msg ''invalid batch import mode'')
      | _ \<Rightarrow> reading (\<lambda>w. Channel_Update (imported c newKeys mode (w_now w))))"

definition set_key :: "channel \<Rightarrow> bool \<Rightarrow> int \<Rightarrow> channel" where
  "set_key c enabled i =
     c\<lparr>c_mk := (c_mk c)\<lparr>mk_status :=
        (if enabled then AList.delete i (mk_status (c_mk c))
         else AList.update i ChannelStatusManuallyDisabled (mk_status (c_mk c)))\<rparr>\<rparr>"

definition save_toggled :: "channel \<Rightarrow> channel op" where
  "save_toggled c = on_ok (checkAndUpdateChannelStatus c) (\<lambda>c'. then_do (saveMultiKeyInfo c') (ret c'))"

definition ToggleKeyStatus :: "channel \<Rightarrow> int \<Rightarrow> bool \<Rightarrow> channel op" where
  "ToggleKeyStatus c i enabled =
     (if i < 0 \<or> int (length (ParseKeys c)) \<le> i then fail (Msg ''invalid key index'')
      else save_toggled (set_key c enabled i))"

definition BatchToggleKeyStatus :: "channel \<Rightarrow> int list \<Rightarrow> bool \<Rightarrow> channel op" where
  "BatchToggleKeyStatus c is enabled =
     save_toggled (fold (\<lambda>i c'. if i < 0 \<or> int (length (ParseKeys c)) \<le> i then c' else set_key c' enabled i) is c)"

definition ToggleKeysByBatch :: "channel \<Rightarrow> string \<Rightarrow> bool \<Rightarrow> channel op" where
  "ToggleKeysByBatch c batchId enabled =
     (let targets = [i. (i, m) \<leftarrow> mk_metadata (c_mk c), k_import_batch m = batchId]
      in if targets = [] then fail (Msg ''no keys found for the specified batch'')
         else BatchToggleKeyStatus c targets enabled)"

definition FixMultiKeyStatus :: "channel \<Rightarrow> channel op" where
  "FixMultiKeyStatus c =
     (if \<not> mk_is_multi (c_mk c) then fail (Msg ''not a multi-key channel'')
      else Channel_Update (c\<lparr>c_mk := (c_mk c)\<lparr>mk_status :=
        fold (\<lambda>i st. if map_of st (int i) = None then AList.update (int i) ChannelStatusEnabled st else st)
          [0..<length (ParseKeys c)] (mk_status (c_mk c))\<rparr>\<rparr>))"

text \<open>The keys that stay, their metadata moved to the new positions.\<close>

definition kept_keys :: "channel \<Rightarrow> string list" where
  "kept_keys c = map (\<lambda>i. ParseKeys c ! i) (enabled_indices c)"

definition kept_metadata :: "channel \<Rightarrow> (int \<times> key_metadata) list" where
  "kept_metadata c =
     [(int k, m). (k, i) \<leftarrow> enumerate 0 (enabled_indices c),
        m \<leftarrow> (case map_of (mk_metadata (c_mk c)) (int i) of None \<Rightarrow> [] | Some m \<Rightarrow> [m])]"

definition without_disabled :: "channel \<Rightarrow> channel" where
  "without_disabled c =
     c\<lparr>c_key := join_with [CHR 0x0A] (kept_keys c),
       c_mk := (c_mk c)\<lparr>mk_key_count := int (length (kept_keys c)), mk_metadata := kept_metadata c,
         mk_status := [], mk_polling_index := 0\<rparr>\<rparr>"

definition DeleteDisabledKeys :: "channel \<Rightarrow> channel op" where
  "DeleteDisabledKeys c =
     (if \<not> mk_is_multi (c_mk c) then fail (Msg ''not a multi-key channel'')
      else if ParseKeys c = [] then ret c
      else on_ok (checkAndUpdateChannelStatus (without_disabled c)) Channel_Update)"

definition metadata_of :: "channel \<Rightarrow> int \<Rightarrow> key_metadata" where
  "metadata_of c i = (case map_of (mk_metadata (c_mk c)) i of None \<Rightarrow> zero_metadata | Some m \<Rightarrow> m)"

definition HandleKeyUsed :: "channel \<Rightarrow> int \<Rightarrow> bool \<Rightarrow> channel op" where
  "HandleKeyUsed c i success =
     (if \<not> mk_is_multi (c_mk c) then ret c
      else reading (\<lambda>w.
        let m = metadata_of c i;
            c' = c\<lparr>c_mk := (c_mk c)\<lparr>mk_metadata :=
              AList.update i (m\<lparr>k_usage := wrap64 (k_usage m + 1), k_last_used := w_now w\<rparr>) (mk_metadata (c_mk c))\<rparr>\<rparr>
        in then_do (saveMultiKeyInfo c') (ret c')))"

section \<open>A key error\<close>

definition key_failed :: "channel \<Rightarrow> int \<Rightarrow> string \<Rightarrow> int \<Rightarrow> string \<Rightarrow> int \<Rightarrow> channel" where
  "key_failed c i msg code model now =
     c\<lparr>c_mk := (c_mk c)\<lparr>mk_status := AList.update i ChannelStatusAutoDisabled (mk_status (c_mk c)),
        mk_metadata := AList.update i ((metadata_of c i)\<lparr>k_disabled_reason := Some msg, k_disabled_time := Some now,
          k_status_code := Some code, k_disabled_model := Some model\<rparr>) (mk_metadata (c_mk c))\<rparr>\<rparr>"

text \<open>The transaction that stores a key error; \<open>now_disabled\<close> when the channel went with its last key.\<close>

definition key_error_body :: "channel \<Rightarrow> bool \<Rightarrow> int \<Rightarrow> unit op" where
  "key_error_body fresh now_disabled now =
     then_do (if now_disabled then set_enabled (c_id fresh) False else ret ())
       (set_channel (c_id fresh) (\<lambda>r.
          if now_disabled
          then r\<lparr>c_mk := c_mk fresh, c_status := ChannelStatusAutoDisabled,
                 c_disabled_reason := Some ''all keys disabled'', c_disabled_time := Some now\<rparr>
          else r\<lparr>c_mk := c_mk fresh\<rparr>))"

text \<open>
  A negative index passes the check \<open>keyIndex < len(keys)\<close> of the code that masks the key for the
  log, and the slice access panics there, after the cache was written.
\<close>

definition apply_key_error :: "channel \<Rightarrow> int \<Rightarrow> string \<Rightarrow> int \<Rightarrow> string \<Rightarrow> unit op" where
  "apply_key_error fresh i msg code model =
     reading (\<lambda>w.
     on_ok (checkAndUpdateChannelStatus (key_failed fresh i msg code model (w_now w))) (\<lambda>fresh'.
       let now_disabled = (c_status fresh \<noteq> ChannelStatusAutoDisabled \<and> c_status fresh' = ChannelStatusAutoDisabled)
       in then_do (CacheUpdateChannelMultiKeyInfo (c_id fresh') (c_mk fresh')
             (if now_disabled then c_status fresh' else ChannelStatusEnabled))
         (if i < 0 then fail Panic
          else then_do (notify (c_id fresh') (Some i))
                 (transaction (key_error_body fresh' now_disabled (w_now w))))))"

definition HandleKeyError :: "channel \<Rightarrow> int \<Rightarrow> string \<Rightarrow> int \<Rightarrow> string \<Rightarrow> unit op" where
  "HandleKeyError c i msg code model =
     (if \<not> mk_is_multi (c_mk c) then ret ()
      else on_ok (CacheGetChannelCopy (c_id c)) (\<lambda>fresh.
        if \<not> c_auto_disabled fresh \<or> GetKeyStatus fresh i = ChannelStatusAutoDisabled then ret ()
        else apply_key_error fresh i msg code model))"

section \<open>The chosen key is usable\<close>

lemma enabled_indices_iff: "i \<in> set (enabled_indices c) \<longleftrightarrow> i < length (ParseKeys c) \<and> key_enabled c i"
  by (auto simp: enabled_indices_def)

lemma next_from_Some: "next_from start n ok = Some i \<Longrightarrow> ok i \<and> i < n"
proof -
  assume "next_from start n ok = Some i"
  then have f: "ok i \<and> i \<in> set (map (\<lambda>i. (start + i) mod n) [0..<n])"
    unfolding next_from_def by (rule find_SomeD)
  then obtain k where "i = (start + k) mod n" "k < n" by auto
  with f show ?thesis by simp
qed

lemma select_key_result:
  assumes "select_key rnd c allowed w = (r, w')" "allowed \<noteq> []"
  shows "\<exists>i. r = Inr (ParseKeys c ! i, i) \<and> i \<in> set allowed"
proof (cases "mk_mode (c_mk c)")
  case KeySelectionPolling
  obtain r1 w1 where p: "polling_start c (length (ParseKeys c)) w = (r1, w1)" by fastforce
  obtain start where st: "r1 = Inr start"
    using p by (auto simp: polling_start_def incrChannelPollingIndex_def on_result_def split: prod.splits sum.splits)
  show ?thesis
  proof (cases "next_from start (length (ParseKeys c)) (\<lambda>i. i \<in> set allowed)")
    case None
    with assms p st KeySelectionPolling show ?thesis by (auto simp: select_key_def on_ok_def Let_def)
  next
    case (Some i)
    with assms p st KeySelectionPolling next_from_Some [OF Some] show ?thesis by (auto simp: select_key_def on_ok_def Let_def)
  qed
next
  case KeySelectionRandom
  with assms show ?thesis by (auto simp: select_key_def)
next
  case (KeySelectionOther n)
  with assms show ?thesis by (auto simp: select_key_def)
qed

text \<open>
  A channel with several keys hands out only keys of its list that are enabled and, on a
  retry, not among the excluded ones, under every selection mode and whether or not Redis
  answers; it reports an error only when there is no such key.
\<close>

theorem selected_key_usable:
  assumes "mk_is_multi (c_mk c)" "GetNextAvailableKeyWithRetry rnd c ex w = (r, w')"
  shows "case r of
      Inr (k, i) \<Rightarrow> i < length (ParseKeys c) \<and> k = ParseKeys c ! i \<and> key_enabled c i \<and> int i \<notin> set ex
    | Inl _ \<Rightarrow> \<forall>i<length (ParseKeys c). key_enabled c i \<longrightarrow> int i \<in> set ex"
proof -
  let ?av = "filter (\<lambda>i. int i \<notin> set ex) (enabled_indices c)"
  show ?thesis
  proof (cases "ParseKeys c = [] \<or> ?av = []")
    case True
    with assms have "\<exists>e. r = Inl e" by (auto simp: GetNextAvailableKeyWithRetry_def split: if_splits)
    moreover have "\<forall>i<length (ParseKeys c). key_enabled c i \<longrightarrow> int i \<in> set ex"
      using True by (auto simp: filter_empty_conv enabled_indices_iff)
    ultimately show ?thesis by auto
  next
    case False
    with assms have "select_key rnd c ?av w = (r, w')" by (simp add: GetNextAvailableKeyWithRetry_def Let_def)
    from select_key_result [OF this] False show ?thesis by (auto simp: enabled_indices_iff)
  qed
qed

lemma selection_without_exclusion:
  assumes "GetNextAvailableKeyWithRetry rnd c [] w = (Inr x, w') \<or> GetNextAvailableKey rnd c w = (Inr x, w')"
  shows "GetNextAvailableKeyWithRetry rnd c [] w = GetNextAvailableKey rnd c w"
  using assms by (auto simp: GetNextAvailableKeyWithRetry_def GetNextAvailableKey_def split: if_splits)

section \<open>Round robin\<close>

fun key_calls :: "nat \<Rightarrow> channel \<Rightarrow> world \<Rightarrow> (gerr + string \<times> nat) list" where
  "key_calls 0 c w = []"
| "key_calls (Suc m) c w = fst (GetNextAvailableKey 0 c w) # key_calls m c (snd (GetNextAvailableKey 0 c w))"

definition polled :: "channel \<Rightarrow> nat \<Rightarrow> string \<times> nat" where
  "polled c start = (case next_from start (length (ParseKeys c)) (\<lambda>i. i \<in> set (enabled_indices c)) of
     Some i \<Rightarrow> (ParseKeys c ! i, i) | None \<Rightarrow> (ParseKeys c ! hd (enabled_indices c), hd (enabled_indices c)))"

lemma poll_step:
  assumes "mk_is_multi (c_mk c)" "mk_mode (c_mk c) = KeySelectionPolling" "\<not> cfg_redis (w_cfg w)"
    and "0 \<le> w_polling w (c_id c)" "w_polling w (c_id c) < max_int64" "enabled_indices c \<noteq> []"
  shows "GetNextAvailableKey 0 c w = (Inr (polled c (nat (w_polling w (c_id c)) mod length (ParseKeys c))),
    w\<lparr>w_polling := (w_polling w)(c_id c := w_polling w (c_id c) + 1)\<rparr>)"
proof -
  let ?n = "length (ParseKeys c)" and ?p = "w_polling w (c_id c)"
  have ne: "ParseKeys c \<noteq> []" using assms(6) by (auto simp: enabled_indices_def)
  have start: "polling_start c ?n w = (Inr (nat ?p mod ?n), w\<lparr>w_polling := (w_polling w)(c_id c := ?p + 1)\<rparr>)"
    using assms(3,4,5) ne
    by (simp add: polling_start_def RedisIncrMod_def redis_cmd_def on_result_def incrChannelPollingIndex_def
        nat_mod_as_int in_int64_def min_int64_def)
  show ?thesis
    using assms(1,2,6) ne start
    by (simp add: GetNextAvailableKey_def select_key_def on_ok_def polled_def Let_def ret_def split: option.splits)
qed

lemma key_calls_polled:
  assumes "mk_is_multi (c_mk c)" "mk_mode (c_mk c) = KeySelectionPolling" "\<not> cfg_redis (w_cfg w)"
    and "0 \<le> w_polling w (c_id c)" "w_polling w (c_id c) + int m \<le> max_int64" "enabled_indices c \<noteq> []"
  shows "key_calls m c w = map (\<lambda>k. Inr (polled c ((nat (w_polling w (c_id c)) + k) mod length (ParseKeys c)))) [0..<m]"
  using assms(3-5)
proof (induction m arbitrary: w)
  case 0
  then show ?case by simp
next
  case (Suc m)
  let ?w = "w\<lparr>w_polling := (w_polling w)(c_id c := w_polling w (c_id c) + 1)\<rparr>"
  have step: "GetNextAvailableKey 0 c w = (Inr (polled c (nat (w_polling w (c_id c)) mod length (ParseKeys c))), ?w)"
    using Suc.prems by (intro poll_step assms) auto
  have "key_calls m c ?w = map (\<lambda>k. Inr (polled c ((nat (w_polling ?w (c_id c)) + k) mod length (ParseKeys c)))) [0..<m]"
    using Suc.prems by (intro Suc.IH) auto
  then show ?case
    using step Suc.prems(2) by (simp add: upt_conv_Cons map_Suc_upt [symmetric] nat_add_distrib o_def del: upt_Suc)
qed

lemma polled_self: "j \<in> set (enabled_indices c) \<Longrightarrow> polled c j = (ParseKeys c ! j, j)"
proof -
  assume j: "j \<in> set (enabled_indices c)"
  then have "j < length (ParseKeys c)" by (simp add: enabled_indices_iff)
  then obtain n where n: "length (ParseKeys c) = Suc n" "j \<le> n" by (cases "length (ParseKeys c)") auto
  then have "map (\<lambda>i. (j + i) mod Suc n) [0..<Suc n] = j # map (\<lambda>i. (j + i) mod Suc n) [1..<Suc n]"
    by (simp add: upt_conv_Cons del: upt_Suc)
  then show ?thesis using j n by (simp add: polled_def next_from_def del: upt_Suc)
qed

text \<open>
  C28. Round robin starves no key: without Redis, among as many consecutive selections as the
  channel has keys, every enabled key is handed out, wherever the process-wide counter stands.
\<close>

theorem polling_serves_every_key:
  assumes "mk_is_multi (c_mk c)" "mk_mode (c_mk c) = KeySelectionPolling" "\<not> cfg_redis (w_cfg w)"
    and "0 \<le> w_polling w (c_id c)" "w_polling w (c_id c) + int (length (ParseKeys c)) \<le> max_int64"
    and "j < length (ParseKeys c)" "key_enabled c j"
  shows "Inr (ParseKeys c ! j, j) \<in> set (key_calls (length (ParseKeys c)) c w)"
proof -
  let ?n = "length (ParseKeys c)" and ?p = "nat (w_polling w (c_id c))"
  have j: "j \<in> set (enabled_indices c)" using assms(6,7) by (simp add: enabled_indices_iff)
  then have ne: "enabled_indices c \<noteq> []" by auto
  let ?k = "(j + (?n - ?p mod ?n)) mod ?n"
  have "(?p + ?k) mod ?n = (?p mod ?n + (j + (?n - ?p mod ?n))) mod ?n"
    by (simp add: mod_add_left_eq mod_add_right_eq)
  also have "?p mod ?n + (j + (?n - ?p mod ?n)) = j + ?n"
    using assms(6) mod_less_divisor [of ?n ?p] by linarith
  finally have "(?p + ?k) mod ?n = j" using assms(6) by simp
  moreover have "?k < ?n" using assms(6) by (intro mod_less_divisor) linarith
  ultimately have "Inr (polled c j) \<in> set (map (\<lambda>k. Inr (polled c ((?p + k) mod ?n)) :: gerr + string \<times> nat) [0..<?n])"
    by (force simp: image_iff)
  then show ?thesis
    using key_calls_polled [OF assms(1-5) ne] polled_self [OF j] by simp
qed

section \<open>Writing and reading back a key list\<close>

definition plain_key :: "string \<Rightarrow> bool" where
  "plain_key k \<longleftrightarrow> k \<noteq> [] \<and> \<not> is_space (hd k) \<and> \<not> is_space (last k) \<and> CHR 0x0A \<notin> set k"

lemma trim_ends: "s = [] \<or> \<not> p (hd s) \<and> \<not> p (last s) \<Longrightarrow> rev (dropWhile p (rev (dropWhile p s))) = s"
proof -
  assume s: "s = [] \<or> \<not> p (hd s) \<and> \<not> p (last s)"
  have "dropWhile p s = s" using s by (cases s) auto
  moreover have "dropWhile p (rev s) = rev s"
    using s by (cases s rule: rev_cases) auto
  ultimately show ?thesis by simp
qed

lemma plain_trim: "plain_key k \<Longrightarrow> trim_space k = k"
  unfolding trim_space_def plain_key_def by (intro trim_ends) auto

lemma newline_space: "is_space (CHR 0x0A)"
  by (simp add: is_space_def)

lemma join_ends:
  "keys \<noteq> [] \<Longrightarrow> \<forall>k\<in>set keys. plain_key k \<Longrightarrow>
   join_with sep keys \<noteq> [] \<and> hd (join_with sep keys) = hd (hd keys) \<and> last (join_with sep keys) = last (last keys)"
proof (induction keys rule: induct_list012)
  case (3 x y zs)
  then show ?case by (auto simp: plain_key_def)
qed (auto simp: plain_key_def)

lemma parse_join:
  assumes "keys \<noteq> []" "\<forall>k\<in>set keys. plain_key k" "hd (hd keys) \<noteq> CHR ''[''"
    and "c_type c \<noteq> ChannelTypeVertexAI" "c_key c = join_with [CHR 0x0A] keys"
  shows "ParseKeys c = keys"
proof -
  let ?s = "join_with [CHR 0x0A] keys"
  note ends = join_ends [OF assms(1,2), of "[CHR 0x0A]"]
  have plain: "plain_key (hd keys)" "plain_key (last keys)" using assms(1,2) by simp_all
  have trim: "trim_space ?s = ?s"
    unfolding trim_space_def using ends plain by (intro trim_ends) (auto simp: plain_key_def)
  have nl: "trim_newlines ?s = ?s"
    unfolding trim_newlines_def using ends plain newline_space by (intro trim_ends) (auto simp: plain_key_def)
  have "split_on (CHR 0x0A) ?s = keys"
    using assms(1,2) by (intro split_join) (auto simp: plain_key_def)
  then have "lines_of_keys ?s = filter (\<lambda>k. k \<noteq> []) (map trim_space keys)" by (simp add: lines_of_keys_def nl)
  also have "map trim_space keys = keys" using assms(2) by (auto intro: map_idI plain_trim)
  also have "filter (\<lambda>k. k \<noteq> []) keys = keys" using assms(2) by (auto simp: filter_id_conv plain_key_def)
  finally have "lines_of_keys ?s = keys" .
  moreover have "\<not> has_prefix ?s ''[''" using ends assms(3) by (cases ?s) auto
  ultimately show ?thesis using ends trim assms(4,5) by (simp add: ParseKeys_def Let_def)
qed

text \<open>
  Appending keys keeps every old key at its index and in its state and adds the new ones
  behind them; the stored column reads back as the joined list. (Keys without line breaks and
  surrounding white space, a list that does not start like a JSON array.)
\<close>

theorem import_appends:
  assumes "c_type c \<noteq> ChannelTypeVertexAI" "newKeys \<noteq> []" "\<forall>k\<in>set (ParseKeys c @ newKeys). plain_key k"
    and "hd (hd (ParseKeys c @ newKeys)) \<noteq> CHR ''[''"
  shows "ParseKeys (imported c newKeys BatchImportAppend now) = ParseKeys c @ newKeys \<and>
    mk_key_count (c_mk (imported c newKeys BatchImportAppend now)) = int (length (ParseKeys c @ newKeys)) \<and>
    (\<forall>i. GetKeyStatus (imported c newKeys BatchImportAppend now) i = GetKeyStatus c i) \<and>
    (\<forall>i<length (ParseKeys c). map_of (mk_metadata (c_mk (imported c newKeys BatchImportAppend now))) (int i)
       = map_of (mk_metadata (c_mk c)) (int i))"
proof -
  let ?c = "imported c newKeys BatchImportAppend now"
  have "ParseKeys ?c = ParseKeys c @ newKeys"
    using assms by (intro parse_join) (auto simp: imported_def Let_def)
  moreover have "map_of (init_metadata now is md) j = map_of md j" if "\<forall>i\<in>set is. int i \<noteq> j" for "is" md j
    using that by (induction "is" arbitrary: md) (auto simp: init_metadata_def update_conv')
  then have "map_of (mk_metadata (c_mk ?c)) (int i) = map_of (mk_metadata (c_mk c)) (int i)" if "i < length (ParseKeys c)" for i
    using that by (simp add: imported_def Let_def)
  moreover have "GetKeyStatus ?c i = GetKeyStatus c i" for i by (simp add: imported_def GetKeyStatus_def Let_def)
  moreover have "mk_key_count (c_mk ?c) = int (length (ParseKeys c @ newKeys))" by (simp add: imported_def Let_def)
  ultimately show ?thesis by blast
qed

lemma kept_metadata_at:
  "map_of [(int k, m). (k, i) \<leftarrow> enumerate n xs, m \<leftarrow> (case f i of None \<Rightarrow> [] | Some m \<Rightarrow> [m])] (int j) =
   (if n \<le> j \<and> j < n + length xs then f (xs ! (j - n)) else None)"
proof (induction xs arbitrary: n)
  case Nil
  then show ?case by auto
next
  case (Cons x xs)
  show ?case
  proof (cases "j = n")
    case True
    with Cons.IH [of "Suc n"] show ?thesis by (simp split: option.splits)
  next
    case False
    then have "n \<le> j \<Longrightarrow> (x # xs) ! (j - n) = xs ! (j - Suc n)" by (simp add: nth_Cons')
    with False Cons.IH [of "Suc n"] show ?thesis by (auto split: option.splits)
  qed
qed

text \<open>
  Deleting the disabled keys of a channel keeps exactly its enabled keys, in order, all
  enabled, each with its own metadata under the new index.
\<close>

theorem delete_keeps_enabled_keys:
  assumes "c_type c \<noteq> ChannelTypeVertexAI" "\<forall>k\<in>set (ParseKeys c). plain_key k" "kept_keys c \<noteq> []"
    and "hd (hd (kept_keys c)) \<noteq> CHR ''[''"
  shows "ParseKeys (without_disabled c) = map (\<lambda>i. ParseKeys c ! i) (enabled_indices c) \<and>
    enabled_indices (without_disabled c) = [0..<length (enabled_indices c)] \<and>
    (\<forall>k<length (enabled_indices c).
       metadata_of (without_disabled c) (int k) = metadata_of c (int (enabled_indices c ! k)))"
proof -
  have "\<forall>k\<in>set (kept_keys c). plain_key k"
    using assms(2) by (auto simp: kept_keys_def enabled_indices_iff)
  then have keys: "ParseKeys (without_disabled c) = kept_keys c"
    using assms by (intro parse_join) (auto simp: without_disabled_def)
  have "key_enabled (without_disabled c) k" for k
    by (simp add: key_enabled_def GetKeyStatus_def without_disabled_def)
  then have "enabled_indices (without_disabled c) = [0..<length (enabled_indices c)]"
    by (simp add: enabled_indices_def keys kept_keys_def)
  moreover have "metadata_of (without_disabled c) (int k) = metadata_of c (int (enabled_indices c ! k))"
    if "k < length (enabled_indices c)" for k
    using that kept_metadata_at [where n = 0 and xs = "enabled_indices c" and f = "\<lambda>i. map_of (mk_metadata (c_mk c)) (int i)" and j = k]
    by (simp add: metadata_of_def without_disabled_def kept_metadata_def)
  ultimately show ?thesis using keys by (simp add: kept_keys_def)
qed

section \<open>Key errors\<close>

lemma check_result:
  assumes "checkAndUpdateChannelStatus f w = (r, w')"
  obtains f' where "r = Inr f'" "w_db w' = w_db w" "w_base w' = w_base w" "w_cfg w' = w_cfg w" "c_mk f' = c_mk f"
    "c_id f' = c_id f" "w_now w' = w_now w"
    "c_status f' = (if mk_is_multi (c_mk f) \<and> enabled_indices f = [] then ChannelStatusAutoDisabled else c_status f)"
  using assms that
  by (auto simp: checkAndUpdateChannelStatus_def reading_def then_do_def on_ok_def notify_def Let_def
      enabled_indices_def ret_def split: if_splits)

lemma set_channel_Inr:
  "set_channel i f w = (Inr (), w') \<Longrightarrow>
   w_db w' = d_channels_update (update_rows (\<lambda>c. c_id c = i) f) (w_db w)"
  unfolding set_channel_def by (drule stmt_result(2)) simp_all

definition key_error_row :: "channel \<Rightarrow> bool \<Rightarrow> int \<Rightarrow> channel \<Rightarrow> channel" where
  "key_error_row fresh nd now r =
     (if nd then r\<lparr>c_mk := c_mk fresh, c_status := ChannelStatusAutoDisabled,
             c_disabled_reason := Some ''all keys disabled'', c_disabled_time := Some now\<rparr>
      else r\<lparr>c_mk := c_mk fresh\<rparr>)"

lemma key_error_body_Inr:
  assumes "key_error_body fresh nd now w = (Inr (), w')"
  shows "w_db w' = d_channels_update (update_rows (\<lambda>c. c_id c = c_id fresh) (key_error_row fresh nd now))
    (if nd then d_abilities_update (update_rows (\<lambda>a. ab_channel_id a = c_id fresh) (\<lambda>a. a\<lparr>ab_enabled := False\<rparr>)) (w_db w)
     else w_db w)"
proof -
  obtain w1 where a: "(if nd then set_enabled (c_id fresh) False else ret ()) w = (Inr (), w1)"
    and c: "set_channel (c_id fresh) (key_error_row fresh nd now) w1 = (Inr (), w')"
    using assms unfolding key_error_body_def key_error_row_def [abs_def] by (elim then_do_Inr) auto
  from a have "w_db w1 = (if nd then d_abilities_update (update_rows (\<lambda>a. ab_channel_id a = c_id fresh) (\<lambda>a. a\<lparr>ab_enabled := False\<rparr>)) (w_db w)
     else w_db w)"
    by (cases nd) (auto dest: set_enabled_Inr)
  with set_channel_Inr [OF c] show ?thesis by simp
qed

lemma key_failed_status:
  "GetKeyStatus (key_failed c i msg code model now) j = (if j = i then ChannelStatusAutoDisabled else GetKeyStatus c j)"
  by (simp add: key_failed_def GetKeyStatus_def update_conv')

lemma keeps_base_key_error: "keeps_base (key_error_body fresh nd now)"
  unfolding key_error_body_def set_enabled_def set_channel_def stmt_def by (intro base_intros)

lemma copy_from_db:
  assumes "CacheGetChannelCopy i w = (r, w')" "\<not> cfg_memory_cache (w_cfg w)"
  shows "w_db w' = w_db w \<and> w_cfg w' = w_cfg w \<and> (\<forall>c. r = Inr c \<longrightarrow> channel_of (w_db w) i = Some c)"
proof -
  obtain r1 w1 where f: "first d_channels (\<lambda>c. c_id c = i) w = (r1, w1)" by fastforce
  with assms have "w' = w1" "r = r1"
    by (cases r1; simp add: CacheGetChannelCopy_def reading_def GetChannelById_def on_ok_def)+
  with f touchedD(1,2) [OF first_touched [OF f]] show ?thesis
    by (auto simp: channel_of_def elim: first_Inr)
qed

lemma apply_key_error_Inr:
  assumes "apply_key_error fresh i msg code model w = (Inr (), w')" "mk_is_multi (c_mk fresh)"
    and "\<not> cfg_memory_cache (w_cfg w)"
  obtains f nd where "c_id f = c_id fresh" "c_mk f = c_mk (key_failed fresh i msg code model (w_now w))"
    "nd = (c_status fresh \<noteq> ChannelStatusAutoDisabled \<and> enabled_indices (key_failed fresh i msg code model (w_now w)) = [])"
    "w_db w' = d_channels_update (update_rows (\<lambda>c. c_id c = c_id fresh) (key_error_row f nd (w_now w)))
      (if nd then d_abilities_update (update_rows (\<lambda>a. ab_channel_id a = c_id fresh) (\<lambda>a. a\<lparr>ab_enabled := False\<rparr>)) (w_db w)
       else w_db w)"
proof -
  let ?f = "key_failed fresh i msg code model (w_now w)"
  obtain r w1 where ch: "checkAndUpdateChannelStatus ?f w = (r, w1)" by fastforce
  then obtain f where f: "r = Inr f" "w_db w1 = w_db w" "w_cfg w1 = w_cfg w" "c_mk f = c_mk ?f" "c_id f = c_id ?f"
    "c_status f = (if mk_is_multi (c_mk ?f) \<and> enabled_indices ?f = [] then ChannelStatusAutoDisabled else c_status ?f)"
    by (rule check_result)
  let ?nd = "c_status fresh \<noteq> ChannelStatusAutoDisabled \<and> c_status f = ChannelStatusAutoDisabled"
  have run: "(then_do (CacheUpdateChannelMultiKeyInfo (c_id f) (c_mk f) (if ?nd then c_status f else ChannelStatusEnabled))
         (if i < 0 then fail Panic
          else then_do (notify (c_id f) (Some i)) (transaction (key_error_body f ?nd (w_now w))))) w1 = (Inr (), w')"
    using assms(1) ch f(1) unfolding apply_key_error_def reading_def on_ok_def Let_def by simp
  then obtain w2 w3 where "CacheUpdateChannelMultiKeyInfo (c_id f) (c_mk f) (if ?nd then c_status f else ChannelStatusEnabled) w1 = (Inr (), w2)"
    "notify (c_id f) (Some i) w2 = (Inr (), w3)" and t: "transaction (key_error_body f ?nd (w_now w)) w3 = (Inr (), w')"
    by (auto elim!: then_do_Inr split: if_splits)
  then have db: "w_db w3 = w_db w"
    using assms(3) f(2,3) by (auto simp: CacheUpdateChannelMultiKeyInfo_def notify_def)
  from t obtain fs w4 fs' where b: "key_error_body f ?nd (w_now w) (w3\<lparr>w_base := Some (w_db w3), w_aborted := False, w_faults := fs\<rparr>) = (Inr (), w4)"
    "w' = w4\<lparr>w_base := None, w_faults := fs'\<rparr>" by (rule transaction_Inr)
  have ids: "c_id f = c_id fresh" "mk_is_multi (c_mk ?f)" "c_status ?f = c_status fresh"
    using f(5) assms(2) by (simp_all add: key_failed_def)
  then have nd: "?nd = (c_status fresh \<noteq> ChannelStatusAutoDisabled \<and> enabled_indices ?f = [])" using f(6) by auto
  show thesis
    using that [OF ids(1) f(4) nd] key_error_body_Inr [OF b(1)] b(2) db ids(1) by simp
qed

text \<open>
  A key error that is stored disables that key and no other, takes the channel and all its
  abilities out of routing when no enabled key is left, leaves every other channel alone, and
  is idempotent: reporting the same key again changes nothing. (Without the memory cache.)
\<close>

theorem key_error_disables:
  assumes "HandleKeyError c i msg code model w = (Inr (), w')" "mk_is_multi (c_mk c)" "\<not> cfg_memory_cache (w_cfg w)"
    and "keys_ok (w_db w)" "channel_of (w_db w) (c_id c) = Some r" "mk_is_multi (c_mk r)" "c_auto_disabled r"
    and "GetKeyStatus r i \<noteq> ChannelStatusAutoDisabled"
  shows "\<exists>r'. channel_of (w_db w') (c_id c) = Some r' \<and> ParseKeys r' = ParseKeys r \<and>
    (\<forall>j. GetKeyStatus r' j = (if j = i then ChannelStatusAutoDisabled else GetKeyStatus r j)) \<and>
    (enabled_indices r' = [] \<and> c_status r \<noteq> ChannelStatusAutoDisabled \<longrightarrow> c_status r' = ChannelStatusAutoDisabled \<and>
       (\<forall>a\<in>set (d_abilities (w_db w')). ab_channel_id a = c_id c \<longrightarrow> \<not> ab_enabled a)) \<and>
    (enabled_indices r' \<noteq> [] \<longrightarrow> c_status r' = c_status r \<and> d_abilities (w_db w') = d_abilities (w_db w)) \<and>
    (\<forall>j. j \<noteq> c_id c \<longrightarrow> channel_of (w_db w') j = channel_of (w_db w) j) \<and>
    (\<forall>v msg2 code2 model2 r2 v'. w_db v = w_db w' \<and> \<not> cfg_memory_cache (w_cfg v) \<and>
       HandleKeyError c i msg2 code2 model2 v = (r2, v') \<longrightarrow> w_db v' = w_db w')"
proof -
  obtain fresh w1 where g: "CacheGetChannelCopy (c_id c) w = (Inr fresh, w1)" and
    k: "(if \<not> c_auto_disabled fresh \<or> GetKeyStatus fresh i = ChannelStatusAutoDisabled then ret ()
        else apply_key_error fresh i msg code model) w1 = (Inr (), w')"
    using assms(1,2) by (auto simp: HandleKeyError_def)
  have fr: "fresh = r" "w_db w1 = w_db w" "w_cfg w1 = w_cfg w" using copy_from_db [OF g assms(3)] assms(5) by auto
  have id: "c_id r = c_id c" using assms(5) find_SomeD by (fastforce simp: channel_of_def)
  have a: "apply_key_error r i msg code model w1 = (Inr (), w')" using k fr assms(7,8) by simp
  let ?kf = "key_failed r i msg code model (w_now w1)"
  have mc: "\<not> cfg_memory_cache (w_cfg w1)" using assms(3) fr(3) by simp
  obtain f nd where f: "c_id f = c_id r" "c_mk f = c_mk ?kf"
    "nd = (c_status r \<noteq> ChannelStatusAutoDisabled \<and> enabled_indices ?kf = [])"
    "w_db w' = d_channels_update (update_rows (\<lambda>c. c_id c = c_id r) (key_error_row f nd (w_now w1)))
      (if nd then d_abilities_update (update_rows (\<lambda>a. ab_channel_id a = c_id r) (\<lambda>a. a\<lparr>ab_enabled := False\<rparr>)) (w_db w1)
       else w_db w1)"
    by (rule apply_key_error_Inr [OF a assms(6) mc])
  let ?r = "key_error_row f nd (w_now w1) r"
  have dc: "distinct (map c_id (d_channels (w_db w)))" using assms(4) by (simp add: keys_ok_def)
  have ch: "d_channels (w_db w') = update_rows (\<lambda>c. c_id c = c_id r) (key_error_row f nd (w_now w1)) (d_channels (w_db w))"
    using f(4) fr(2) by simp
  have key: "c_id (key_error_row f nd (w_now w1) x) = c_id x" for x by (simp add: key_error_row_def)
  have row: "channel_of (w_db w') j = (if j = c_id c then Some ?r else channel_of (w_db w) j)" for j
    using assms(5) id by (simp add: channel_of_def ch update_rows_find1 [OF key dc])
  have st: "GetKeyStatus ?r j = (if j = i then ChannelStatusAutoDisabled else GetKeyStatus r j)" for j
  proof -
    have "GetKeyStatus ?r j = GetKeyStatus ?kf j" using f(2) by (simp add: GetKeyStatus_def key_error_row_def)
    then show ?thesis by (simp add: key_failed_status)
  qed
  have pk: "ParseKeys ?r = ParseKeys r" "ParseKeys ?kf = ParseKeys r"
    by (simp_all add: ParseKeys_def key_error_row_def key_failed_def)
  have en: "enabled_indices ?r = enabled_indices ?kf"
    unfolding enabled_indices_def pk key_enabled_def using st key_failed_status by simp
  have again: "w_db v' = w_db w'"
    if "w_db v = w_db w'" "\<not> cfg_memory_cache (w_cfg v)" "HandleKeyError c i msg2 code2 model2 v = (r2, v')" for v msg2 code2 model2 r2 v'
  proof -
    obtain r1 v1 where cp: "CacheGetChannelCopy (c_id c) v = (r1, v1)" by fastforce
    note cd = copy_from_db [OF cp that(2)]
    show ?thesis
    proof (cases r1)
      case (Inl e)
      with that(1,3) cp cd assms(2) show ?thesis by (simp add: HandleKeyError_def on_ok_def)
    next
      case (Inr x)
      with cd that(1) row have "x = ?r" by simp
      with that(1,3) cp cd assms(2) Inr st show ?thesis by (simp add: HandleKeyError_def on_ok_def)
    qed
  qed
  have A: "enabled_indices ?r = [] \<and> c_status r \<noteq> ChannelStatusAutoDisabled \<longrightarrow> c_status ?r = ChannelStatusAutoDisabled \<and>
       (\<forall>a\<in>set (d_abilities (w_db w')). ab_channel_id a = c_id c \<longrightarrow> \<not> ab_enabled a)"
    using f(3,4) en disabled_rows [of "c_id r" "d_abilities (w_db w)"] fr(2) id by (simp add: key_error_row_def)
  have B: "enabled_indices ?r \<noteq> [] \<longrightarrow> c_status ?r = c_status r \<and> d_abilities (w_db w') = d_abilities (w_db w)"
    using f(3,4) en fr(2) by (simp add: key_error_row_def)
  have self: "channel_of (w_db w') (c_id c) = Some ?r" using row by simp
  have others: "\<forall>j. j \<noteq> c_id c \<longrightarrow> channel_of (w_db w') j = channel_of (w_db w) j" using row by simp
  show ?thesis
    using self pk(1) st A B others again by blast
qed

section \<open>Deleting the last keys\<close>

lemma set_channel_row:
  assumes "set_channel i f w = (Inr (), w')" "distinct (map c_id (d_channels (w_db w)))" "\<And>x. c_id (f x) = c_id x"
  shows "channel_of (w_db w') j = (if j = i then map_option f (channel_of (w_db w) i) else channel_of (w_db w) j)"
    and "distinct (map c_id (d_channels (w_db w')))"
  using set_channel_Inr [OF assms(1)] update_rows_find1 [of c_id f, OF assms(3,2)] assms(2,3)
  by (simp_all add: channel_of_def update_rows_def o_def if_distrib cong: if_cong)

lemma UpdateAbilities_channels: "keeps d_channels (UpdateAbilities c)"
proof -
  have "keeps d_channels (create_batches n as)" for n as
  proof (induction n as rule: create_batches.induct)
    case (2 n a rest)
    have "keeps d_channels (exec (insert_abilities (take (Suc n) (a # rest))))"
      by (rule keeps_exec) (auto simp: insert_abilities_def split: if_splits)
    with 2 show ?case by (simp add: keeps_then_do del: take_Suc_Cons)
  qed (simp add: keeps_ret)
  moreover have "keeps d_channels (DeleteAbilities c)"
    unfolding DeleteAbilities_def stmt_def delete_where_def by (intro keeps_intros keeps_exec) auto
  ultimately show ?thesis unfolding UpdateAbilities_def AddAbilities_def by (intro keeps_intros)
qed

lemma Update_row:
  assumes "Channel_Update c w = (Inr c', w')" "distinct (map c_id (d_channels (w_db w)))" "channel_of (w_db w) (c_id c) = Some r"
    and "mk_is_multi (c_mk c)"
  shows "channel_of (w_db w') (c_id c) =
     Some ((nonzero_update c r)\<lparr>c_auto_disabled := c_auto_disabled c, c_auto_enabled := c_auto_enabled c\<rparr>)"
proof -
  have id: "c_id (nonzero_update c x) = c_id x" for x by (simp add: nonzero_update_def)
  have nz: "c_mk (nonzero_update c x) = c_mk c" for x
    using assms(4) by (simp add: nonzero_update_def mk_zero_def)
  define K where "K = on_result (first d_channels (\<lambda>r. c_id r = c_id c)) (\<lambda>row.
        let c1 = (case row of Inl _ \<Rightarrow> c | Inr r \<Rightarrow> r)
        in if mk_differs (c_mk c) (c_mk c1)
           then then_do (set_channel (c_id c) (\<lambda>r. r\<lparr>c_mk := c_mk c\<rparr>))
               (then_do (UpdateAbilities (c1\<lparr>c_mk := c_mk c\<rparr>)) (ret (c1\<lparr>c_mk := c_mk c\<rparr>)))
           else then_do (UpdateAbilities c1) (ret c1))"
  have step: "\<exists>w1. set_channel i f v = (Inr (), w1) \<and> g w1 = (Inr x, v')" if "then_do (set_channel i f) g v = (Inr x, v')" for i f g v x v'
    using that by (auto elim: then_do_Inr)
  from assms(1) have "then_do (set_channel (c_id c) (nonzero_update c))
     (then_do (set_channel (c_id c) (\<lambda>r. r\<lparr>c_auto_disabled := c_auto_disabled c\<rparr>))
     (then_do (set_channel (c_id c) (\<lambda>r. r))
     (then_do (set_channel (c_id c) (\<lambda>r. r\<lparr>c_auto_enabled := c_auto_enabled c\<rparr>)) K))) w = (Inr c', w')"
    unfolding Channel_Update_def K_def by (cases "c_id c = 0") simp_all
  from step [OF this] obtain w1 where s1: "set_channel (c_id c) (nonzero_update c) w = (Inr (), w1)"
    and k1: "then_do (set_channel (c_id c) (\<lambda>r. r\<lparr>c_auto_disabled := c_auto_disabled c\<rparr>))
     (then_do (set_channel (c_id c) (\<lambda>r. r))
     (then_do (set_channel (c_id c) (\<lambda>r. r\<lparr>c_auto_enabled := c_auto_enabled c\<rparr>)) K)) w1 = (Inr c', w')" by (elim exE conjE) (rule that)
  from step [OF k1] obtain w2 where s2: "set_channel (c_id c) (\<lambda>r. r\<lparr>c_auto_disabled := c_auto_disabled c\<rparr>) w1 = (Inr (), w2)"
    and k2: "then_do (set_channel (c_id c) (\<lambda>r. r))
     (then_do (set_channel (c_id c) (\<lambda>r. r\<lparr>c_auto_enabled := c_auto_enabled c\<rparr>)) K) w2 = (Inr c', w')" by (elim exE conjE) (rule that)
  from step [OF k2] obtain w3 where s3: "set_channel (c_id c) (\<lambda>r. r) w2 = (Inr (), w3)"
    and k3: "then_do (set_channel (c_id c) (\<lambda>r. r\<lparr>c_auto_enabled := c_auto_enabled c\<rparr>)) K w3 = (Inr c', w')" by (elim exE conjE) (rule that)
  from step [OF k3] obtain w4 where s4: "set_channel (c_id c) (\<lambda>r. r\<lparr>c_auto_enabled := c_auto_enabled c\<rparr>) w3 = (Inr (), w4)"
    and k: "K w4 = (Inr c', w')" by (elim exE conjE) (rule that)
  note c1 = set_channel_row [OF s1 assms(2) id]
  note c2 = set_channel_row [OF s2 c1(2)]
  note c3 = set_channel_row [OF s3 c2(2)]
  note c4 = set_channel_row [OF s4 c3(2)]
  let ?r = "(nonzero_update c r)\<lparr>c_auto_disabled := c_auto_disabled c, c_auto_enabled := c_auto_enabled c\<rparr>"
  have row: "channel_of (w_db w4) (c_id c) = Some ?r"
    using c1 c2 c3 c4 assms(3) by simp
  obtain row' w5 where f: "first d_channels (\<lambda>r. c_id r = c_id c) w4 = (row', w5)" by fastforce
  have db5: "w_db w5 = w_db w4" using first_touched [OF f] touchedD(1) by blast
  have "row' = Inr ?r \<or> (\<exists>e. row' = Inl e)"
  proof (cases row')
    case (Inr x)
    with first_Inr [where tbl = d_channels] f row show ?thesis by (fastforce simp: channel_of_def)
  qed simp
  then have "(case row' of Inl _ \<Rightarrow> c_mk c | Inr r \<Rightarrow> c_mk r) = c_mk c" using nz by auto
  then obtain c1 where "then_do (UpdateAbilities c1) (ret c1) w5 = (Inr c', w')"
    using k f by (auto simp: K_def on_result_def mk_differs_def Let_def split: sum.splits)
  then have "d_channels (w_db w') = d_channels (w_db w5)"
    using keepsD [OF UpdateAbilities_channels] by (auto elim!: then_do_Inr)
  with row db5 show ?thesis by (simp add: channel_of_def)
qed

text \<open>
  Deleting the disabled keys when every key is disabled stores nothing of the deletion but
  forgets that the keys were disabled: the row keeps all of them, and all count as enabled.
\<close>

theorem deleting_all_keys_revives_them:
  assumes "DeleteDisabledKeys c w = (Inr c', w')" "mk_is_multi (c_mk c)" "ParseKeys c \<noteq> []" "enabled_indices c = []"
    and "distinct (map c_id (d_channels (w_db w)))" "channel_of (w_db w) (c_id c) = Some c"
  shows "\<exists>r. channel_of (w_db w') (c_id c) = Some r \<and> ParseKeys r = ParseKeys c \<and>
    enabled_indices r = [0..<length (ParseKeys c)] \<and> c_status r = ChannelStatusAutoDisabled"
proof -
  let ?f = "without_disabled c"
  have k: "c_key ?f = []" "c_type ?f = c_type c" "mk_status (c_mk ?f) = []" "mk_is_multi (c_mk ?f)" "c_id ?f = c_id c"
    using assms(2,4) by (simp_all add: without_disabled_def kept_keys_def)
  then have p: "enabled_indices ?f = []" by (simp add: ParseKeys_def enabled_indices_def)
  obtain f w1 where ch: "checkAndUpdateChannelStatus ?f w = (Inr f, w1)" and u: "Channel_Update f w1 = (Inr c', w')"
    using assms(1-3) by (auto simp: DeleteDisabledKeys_def)
  from ch obtain f' where f': "(Inr f :: gerr + channel) = Inr f'" "w_db w1 = w_db w" "w_base w1 = w_base w" "w_cfg w1 = w_cfg w" "c_mk f' = c_mk ?f"
    "c_id f' = c_id ?f" "w_now w1 = w_now w" "c_status f' = (if mk_is_multi (c_mk ?f) \<and> enabled_indices ?f = [] then ChannelStatusAutoDisabled else c_status ?f)"
    by (rule check_result)
  have f: "c_mk f = c_mk ?f" "c_id f = c_id c" "c_status f = ChannelStatusAutoDisabled"
    using f' k p by simp_all
  have fk: "c_key f = []" "c_type f = c_type c"
    using ch k by (auto simp: checkAndUpdateChannelStatus_def reading_def then_do_def on_ok_def notify_def Let_def ret_def split: if_splits)
  let ?r = "(nonzero_update f c)\<lparr>c_auto_disabled := c_auto_disabled f, c_auto_enabled := c_auto_enabled f\<rparr>"
  have row: "channel_of (w_db w') (c_id c) = Some ?r"
    using Update_row [OF u] assms(5,6) f f'(2) k by simp
  have "c_key ?r = c_key c" "c_type ?r = c_type c" "c_status ?r = ChannelStatusAutoDisabled" "mk_status (c_mk ?r) = []"
    using f fk k by (simp_all add: nonzero_update_def mk_zero_def status_defs)
  moreover from this have "ParseKeys ?r = ParseKeys c" by (simp add: ParseKeys_def)
  moreover from calculation have "enabled_indices ?r = [0..<length (ParseKeys c)]"
    by (simp add: enabled_indices_def key_enabled_def GetKeyStatus_def)
  ultimately show ?thesis using row by blast
qed

section \<open>The decoder terminates within its fuel\<close>


section \<open>Concrete runs\<close>

definition mk_demo :: channel where
  "mk_demo = blank_channel\<lparr>c_id := 1, c_key := ''aa'' @ [CHR 0x0A] @ ''bb'', c_models := ''m'',
     c_mk := blank_mk\<lparr>mk_is_multi := True, mk_key_count := 2\<rparr>\<rparr>"

definition mk_world :: world where
  "mk_world = world_with (empty_db\<lparr>d_channels := [mk_demo],
     d_abilities := [\<lparr>ab_group = ''default'', ab_model = ''m'', ab_channel_id = 1, ab_enabled = True, ab_priority = Some 0\<rparr>]\<rparr>) 77"

lemma mk_demo_keys: "ParseKeys mk_demo = [''aa'', ''bb'']" "enabled_indices mk_demo = [0, 1]"
proof -
  have "ParseKeys mk_demo = [''aa'', ''bb'']"
    by (rule parse_join) (auto simp: mk_demo_def blank_channel_def plain_key_def is_space_def ChannelTypeVertexAI_def)
  moreover have "key_enabled mk_demo i" for i
    by (simp add: key_enabled_def GetKeyStatus_def mk_demo_def blank_channel_def blank_mk_def)
  ultimately show "ParseKeys mk_demo = [''aa'', ''bb'']" "enabled_indices mk_demo = [0, 1]"
    by (simp_all add: enabled_indices_def upt_rec)
qed

theorem selected_key_usable_witness:
  "fst (GetNextAvailableKeyWithRetry 0 mk_demo [0] mk_world) = Inr (''bb'', 1)"
proof -
  obtain r w' where g: "GetNextAvailableKeyWithRetry 0 mk_demo [0] mk_world = (r, w')" by fastforce
  have m: "mk_is_multi (c_mk mk_demo)" by (simp add: mk_demo_def)
  have en: "key_enabled mk_demo 1" using mk_demo_keys(2) enabled_indices_iff [of 1 mk_demo] by simp
  from selected_key_usable [OF m g] en show ?thesis
    by (cases r) (auto simp: g mk_demo_keys less_Suc_eq)
qed

theorem polling_serves_every_key_witness:
  "Inr (''bb'', 1) \<in> set (key_calls 2 mk_demo mk_world)"
proof -
  have h: "mk_is_multi (c_mk mk_demo)" "mk_mode (c_mk mk_demo) = KeySelectionPolling" "\<not> cfg_redis (w_cfg mk_world)"
    "0 \<le> w_polling mk_world (c_id mk_demo)" "w_polling mk_world (c_id mk_demo) + int (length (ParseKeys mk_demo)) \<le> max_int64"
    "1 < length (ParseKeys mk_demo)"
  proof -
    show "w_polling mk_world (c_id mk_demo) + int (length (ParseKeys mk_demo)) \<le> max_int64"
      unfolding mk_demo_keys(1) by (simp add: mk_world_def start_defs max_int64_def)
    show "1 < length (ParseKeys mk_demo)" by (simp add: mk_demo_keys(1))
  qed (simp_all add: mk_world_def start_defs, simp_all add: mk_demo_def blank_channel_def blank_mk_def)
  have en: "key_enabled mk_demo 1" using mk_demo_keys(2) enabled_indices_iff [of 1 mk_demo] by simp
  from polling_serves_every_key [OF h en] show ?thesis
    by (simp only: mk_demo_keys(1)) (simp add: numeral_2_eq_2)
qed

theorem import_appends_witness:
  "ParseKeys (imported mk_demo [''cc''] BatchImportAppend 77) = [''aa'', ''bb'', ''cc'']"
proof -
  have h: "c_type mk_demo \<noteq> ChannelTypeVertexAI" "[''cc''] \<noteq> []" "\<forall>k\<in>set (ParseKeys mk_demo @ [''cc'']). plain_key k"
    "hd (hd (ParseKeys mk_demo @ [''cc''])) \<noteq> CHR ''[''"
    by (simp_all add: mk_demo_keys(1) plain_key_def is_space_def) (simp add: mk_demo_def blank_channel_def ChannelTypeVertexAI_def)
  from import_appends [OF h] show ?thesis by (simp add: mk_demo_keys(1))
qed

definition mk_demo2 :: channel where
  "mk_demo2 = set_key mk_demo False 0"

lemma mk_demo2_facts:
  "ParseKeys mk_demo2 = [''aa'', ''bb'']" "enabled_indices mk_demo2 = [1]" "c_type mk_demo2 \<noteq> ChannelTypeVertexAI"
proof -
  show p: "ParseKeys mk_demo2 = [''aa'', ''bb'']"
    by (simp only: mk_demo_keys(1) [symmetric]) (simp add: ParseKeys_def mk_demo2_def set_key_def)
  have "key_enabled mk_demo2 i = (i \<noteq> 0)" for i
    by (auto simp: key_enabled_def GetKeyStatus_def mk_demo2_def set_key_def mk_demo_def blank_channel_def blank_mk_def status_defs)
  then show "enabled_indices mk_demo2 = [1]" by (simp add: enabled_indices_def p upt_rec)
  show "c_type mk_demo2 \<noteq> ChannelTypeVertexAI"
    by (simp add: mk_demo2_def set_key_def mk_demo_def blank_channel_def ChannelTypeVertexAI_def)
qed

theorem delete_keeps_enabled_keys_witness:
  "ParseKeys (without_disabled mk_demo2) = [''bb'']"
proof -
  have h: "\<forall>k\<in>set (ParseKeys mk_demo2). plain_key k" "kept_keys mk_demo2 \<noteq> []" "hd (hd (kept_keys mk_demo2)) \<noteq> CHR ''[''"
    by (simp_all add: mk_demo2_facts kept_keys_def plain_key_def is_space_def)
  from delete_keeps_enabled_keys [OF mk_demo2_facts(3) h] show ?thesis by (simp add: mk_demo2_facts)
qed


lemma mk_failed_keys: "ParseKeys (key_failed mk_demo 1 m c d t) = [''aa'', ''bb'']"
  "enabled_indices (key_failed mk_demo 1 m c d t) = [0]"
proof -
  show p: "ParseKeys (key_failed mk_demo 1 m c d t) = [''aa'', ''bb'']"
    by (simp only: mk_demo_keys(1) [symmetric]) (simp add: ParseKeys_def key_failed_def)
  have "key_enabled (key_failed mk_demo 1 m c d t) i = (i = 0)" if "i < 2" for i
    using that by (simp add: key_enabled_def key_failed_status) (auto simp: less_2_cases_iff GetKeyStatus_def mk_demo_def blank_channel_def blank_mk_def status_defs)
  then show "enabled_indices (key_failed mk_demo 1 m c d t) = [0]" by (simp add: enabled_indices_def p upt_rec)
qed

lemma mk_demo_row: "channel_of (w_db mk_world) 1 = Some mk_demo" "keys_ok (w_db mk_world)" "mk_is_multi (c_mk mk_demo)"
  "c_auto_disabled mk_demo" "GetKeyStatus mk_demo 1 \<noteq> ChannelStatusAutoDisabled" "c_id mk_demo = 1" "\<not> cfg_memory_cache (w_cfg mk_world)" "c_status mk_demo = ChannelStatusEnabled"
  by (simp_all add: mk_world_def mk_demo_def start_defs channel_of_def keys_ok_def blank_channel_def blank_mk_def GetKeyStatus_def status_defs)

lemma key_failed_sel: "c_id (key_failed c i m code d t) = c_id c" "c_status (key_failed c i m code d t) = c_status c"
  "mk_is_multi (c_mk (key_failed c i m code d t)) = mk_is_multi (c_mk c)"
  by (simp_all add: key_failed_def)

theorem key_error_disables_witness:
  "\<exists>r. channel_of (w_db (snd (HandleKeyError mk_demo 1 ''bad'' 401 ''m'' mk_world))) 1 = Some r \<and>
     GetKeyStatus r 1 = ChannelStatusAutoDisabled"
proof -
  let ?w' = "snd (HandleKeyError mk_demo 1 ''bad'' 401 ''m'' mk_world)"
  have h: "HandleKeyError mk_demo 1 ''bad'' 401 ''m'' mk_world = (Inr (), ?w')" 
    by (simp add: HandleKeyError_def apply_key_error_def checkAndUpdateChannelStatus_def mk_failed_keys key_failed_sel
        mk_demo_row(3,4,5,6,8) status_defs CacheGetChannelCopy_def CacheUpdateChannelMultiKeyInfo_def notify_def
        GetChannelById_def mk_world_def run_simps key_error_body_def set_channel_def Let_def)
  have r: "channel_of (w_db mk_world) (c_id mk_demo) = Some mk_demo" by (simp add: mk_demo_row)
  from key_error_disables [OF h mk_demo_row(3,7,2) r mk_demo_row(3,4,5)]
  obtain r' where "channel_of (w_db ?w') (c_id mk_demo) = Some r'"
    "\<forall>j. GetKeyStatus r' j = (if j = 1 then ChannelStatusAutoDisabled else GetKeyStatus mk_demo j)" by blast
  then show ?thesis by (simp add: mk_demo_row(6))
qed

definition mk_gone :: channel where
  "mk_gone = set_key mk_demo2 False 1"

lemma mk_gone_facts: "ParseKeys mk_gone = [''aa'', ''bb'']" "enabled_indices mk_gone = []" "c_id mk_gone = 1"
  "mk_is_multi (c_mk mk_gone)" "mk_key_count (c_mk mk_gone) = 2"
proof -
  show p: "ParseKeys mk_gone = [''aa'', ''bb'']"
    by (simp only: mk_demo2_facts(1) [symmetric]) (simp add: ParseKeys_def mk_gone_def set_key_def)
  have "\<not> key_enabled mk_gone i" if "i < 2" for i
    using that by (auto simp: less_2_cases_iff key_enabled_def GetKeyStatus_def mk_gone_def mk_demo2_def set_key_def mk_demo_def blank_channel_def blank_mk_def status_defs)
  then show "enabled_indices mk_gone = []" by (simp add: enabled_indices_def p)
qed (simp_all add: mk_gone_def mk_demo2_def set_key_def mk_demo_def blank_channel_def blank_mk_def)

definition gone_world :: world where
  "gone_world = mk_world\<lparr>w_db := d_channels_update (\<lambda>_. [mk_gone]) (w_db mk_world)\<rparr>"

lemma gone_abilities: "c_models c = ''m'' \<Longrightarrow> c_group c = ''default'' \<Longrightarrow> channel_abilities c =
   [\<lparr>ab_group = ''default'', ab_model = ''m'', ab_channel_id = c_id c, ab_enabled = (c_status c = ChannelStatusEnabled),
        ab_priority = (case c_priority c of None \<Rightarrow> Some 0 | Some p \<Rightarrow> Some p)\<rparr>]"
  by (simp add: channel_abilities_def split_trim_def trim_space_def split_on.simps is_space_def)

lemma gone_check: "checkAndUpdateChannelStatus (without_disabled mk_gone) gone_world =
   (Inr ((without_disabled mk_gone)\<lparr>c_status := ChannelStatusAutoDisabled\<rparr>), gone_world)"
   by (simp add: checkAndUpdateChannelStatus_def mk_gone_facts without_disabled_def kept_keys_def ParseKeys_def)

lemma gone_row: "c_models mk_gone = ''m''" "c_group mk_gone = ''default''" "c_id mk_gone = 1" "c_status mk_gone = 1" "c_priority mk_gone = Some 0"
"c_auto_disabled mk_gone" "c_auto_enabled mk_gone"
   by (simp_all add: mk_gone_def mk_demo2_def mk_demo_def set_key_def blank_channel_def)


lemma gone_run: "\<exists>c' w'. DeleteDisabledKeys mk_gone gone_world = (Inr c', w')"
proof -
  let ?f = "(without_disabled mk_gone)\<lparr>c_status := ChannelStatusAutoDisabled\<rparr>"
  have k: "ParseKeys mk_gone \<noteq> []" by (simp add: mk_gone_facts)
  have "\<exists>c' w'. Channel_Update ?f gone_world = (Inr c', w')"
  by (simp add: Channel_Update_def set_channel_def nonzero_update_def gone_world_def mk_world_def without_disabled_def
      kept_keys_def mk_gone_facts gone_row mk_zero_def keep_none_def status_defs mk_differs_def
     run_simps Let_def UpdateAbilities_def DeleteAbilities_def AddAbilities_def gone_abilities insert_abilities_def delete_where_def)
  then show ?thesis using k by (simp add: DeleteDisabledKeys_def gone_check mk_gone_facts on_ok_def)
qed

theorem deleting_all_keys_revives_them_witness:
  "\<exists>r. channel_of (w_db (snd (DeleteDisabledKeys mk_gone gone_world))) 1 = Some r \<and> enabled_indices r = [0, 1]"
proof -
  have g: "distinct (map c_id (d_channels (w_db gone_world)))" "channel_of (w_db gone_world) (c_id mk_gone) = Some mk_gone"
    by (simp_all add: gone_world_def channel_of_def)
  obtain c' w' where h: "DeleteDisabledKeys mk_gone gone_world = (Inr c', w')" using gone_run by blast
  have k: "ParseKeys mk_gone \<noteq> []" by (simp add: mk_gone_facts)
  from deleting_all_keys_revives_them [OF h mk_gone_facts(4) k mk_gone_facts(2) g]
  obtain r where "channel_of (w_db w') (c_id mk_gone) = Some r"
    "enabled_indices r = [0..<length (ParseKeys mk_gone)]" by blast
  then show ?thesis by (intro exI [of _ r]) (simp add: h mk_gone_facts upt_rec)
qed

end
