(* ===== verification/ChannelSelect.thy ===== *)
theory ChannelSelect
  imports MultiKey "HOL-Library.Monad_Syntax"
begin

text \<open>
  Choosing the channel of a request, \<open>model/cache.go\<close> and \<open>model/channel_provider.go\<close>: the channel
  a response identifier is bound to in Redis, the priority levels with the levels a retry skips,
  the boundaries a retry must stay within, and the choice among channels with a capability.
\<close>

section \<open>Channel settings\<close>

text \<open>\<open>ChannelConfig\<close>, decoded from the column \<open>config\<close>.\<close>

record channel_config =
  cc_provider :: string
  cc_region :: string
  cc_sk :: string
  cc_ak :: string
  cc_user_id :: string
  cc_api_version :: string
  cc_library_id :: string
  cc_plugin :: string
  cc_vertex_project :: string
  cc_vertex_adc :: string
  cc_google_storage :: string
  cc_vertex_key_type :: string
  cc_vertex_region :: "(string \<times> string) list"
  cc_aws_key_type :: string
  cc_count_tokens :: bool
  cc_beta_filter :: string

definition zero_config :: channel_config where
  "zero_config = \<lparr>cc_provider = [], cc_region = [], cc_sk = [], cc_ak = [], cc_user_id = [], cc_api_version = [],
     cc_library_id = [], cc_plugin = [], cc_vertex_project = [], cc_vertex_adc = [], cc_google_storage = [],
     cc_vertex_key_type = [], cc_vertex_region = [], cc_aws_key_type = [], cc_count_tokens = False, cc_beta_filter = []\<rparr>"

definition decode_config :: "(string \<times> json) list \<Rightarrow> channel_config option" where
  "decode_config m =
     (let text = (\<lambda>name. decode_field decode_string name [] m)
      in do {
        provider \<leftarrow> text ''provider''; region \<leftarrow> text ''region''; sk \<leftarrow> text ''sk''; ak \<leftarrow> text ''ak'';
        user \<leftarrow> text ''user_id''; api \<leftarrow> text ''api_version''; library \<leftarrow> text ''library_id'';
        plugin \<leftarrow> text ''plugin''; project \<leftarrow> text ''vertex_ai_project_id''; adc \<leftarrow> text ''vertex_ai_adc'';
        storage \<leftarrow> text ''google_storage''; vkey \<leftarrow> text ''vertex_key_type'';
        vregion \<leftarrow> decode_field decode_string_map ''vertex_model_region'' [] m;
        awskey \<leftarrow> text ''aws_key_type'';
        count \<leftarrow> decode_field decode_bool ''support_count_tokens'' False m;
        beta \<leftarrow> text ''beta_filter_mode'';
        Some \<lparr>cc_provider = provider, cc_region = region, cc_sk = sk, cc_ak = ak, cc_user_id = user, cc_api_version = api,
          cc_library_id = library, cc_plugin = plugin, cc_vertex_project = project, cc_vertex_adc = adc,
          cc_google_storage = storage, cc_vertex_key_type = vkey, cc_vertex_region = vregion, cc_aws_key_type = awskey,
          cc_count_tokens = count, cc_beta_filter = beta\<rparr> })"

definition LoadConfig :: "channel \<Rightarrow> channel_config option" where
  "LoadConfig c =
     (if c_config c = [] then Some zero_config
      else case json_parse (c_config c) of
        Some JNull \<Rightarrow> Some zero_config
      | Some (JObj m) \<Rightarrow> decode_config m
      | _ \<Rightarrow> None)"

text \<open>
  \<open>GetModelMapping\<close> and \<open>GetHeaderOverride\<close> decode a nullable column that holds an object of
  strings; the result \<open>None\<close> is the nil map.
\<close>

definition string_map_column :: "string option \<Rightarrow> (string \<times> string) list option" where
  "string_map_column col =
     (case col of
        None \<Rightarrow> None
      | Some s \<Rightarrow> if s = [] \<or> s = ''{}'' then None
          else (case json_parse s of None \<Rightarrow> None | Some v \<Rightarrow> decode_string_map [] v))"

definition GetModelMapping :: "string option \<Rightarrow> (string \<times> string) list option" where
  "GetModelMapping modelMapping = string_map_column modelMapping"

definition GetHeaderOverride :: "string option \<Rightarrow> (string \<times> string) list option" where
  "GetHeaderOverride headerOverride = string_map_column headerOverride"

definition GetModels :: "channel \<Rightarrow> string list" where
  "GetModels c = split_trim (c_models c)"

section \<open>Retry boundaries\<close>

record retry_ctx =
  rx_provider :: string
  rx_state_channel :: int

definition no_boundary :: retry_ctx where
  "no_boundary = \<lparr>rx_provider = [], rx_state_channel = 0\<rparr>"

definition WithResponseStateChannel :: "retry_ctx \<Rightarrow> int \<Rightarrow> retry_ctx" where
  "WithResponseStateChannel ctx i = ctx\<lparr>rx_state_channel := i\<rparr>"

definition HasRetryBoundary :: "retry_ctx \<Rightarrow> bool" where
  "HasRetryBoundary ctx \<longleftrightarrow> rx_provider ctx \<noteq> [] \<or> 0 < rx_state_channel ctx"

definition ChannelProvider :: "channel \<Rightarrow> string" where
  "ChannelProvider c = (case LoadConfig c of None \<Rightarrow> [] | Some cfg \<Rightarrow> to_lower (trim_space (cc_provider cfg)))"

definition WithRetryProvider :: "retry_ctx \<Rightarrow> string \<Rightarrow> retry_ctx" where
  "WithRetryProvider ctx p = ctx\<lparr>rx_provider := to_lower (trim_space p)\<rparr>"

definition RetryProviderAllows :: "retry_ctx \<Rightarrow> channel \<Rightarrow> bool" where
  "RetryProviderAllows ctx c \<longleftrightarrow>
     \<not> (0 < rx_state_channel ctx \<and> c_id c \<noteq> rx_state_channel ctx) \<and>
     (rx_provider ctx = [] \<or> ChannelProvider c = rx_provider ctx)"

definition filterRetryProviderChannels :: "retry_ctx \<Rightarrow> channel list \<Rightarrow> channel list" where
  "filterRetryProviderChannels ctx cs =
     (if \<not> HasRetryBoundary ctx then cs else filter (RetryProviderAllows ctx) cs)"

section \<open>The channel a response is bound to\<close>

definition response_key :: "string \<Rightarrow> string" where
  "response_key i = ''cache_response_id_'' @ i"

definition length_key :: "string \<Rightarrow> string" where
  "length_key i = ''claude_length_'' @ i"

text \<open>Both keys are set by one pipeline; \<open>expire\<close> is in minutes.\<close>

definition SetClaudeCacheIdToRedis :: "string \<Rightarrow> string \<Rightarrow> int \<Rightarrow> int \<Rightarrow> unit op" where
  "SetClaudeCacheIdToRedis i ch expire keyIndex = reading (\<lambda>w.
     if \<not> cfg_redis (w_cfg w) then fail (Msg ''redis disabled'')
     else if ch = [] then fail (Msg ''empty channel'')
     else if i = [] then fail (Msg ''empty id'')
     else if expire \<le> 0 then fail (Msg ''invalid expire time'')
     else redis_cmd (\<lambda>w.
       let v = (if 0 \<le> keyIndex then ch @ '':'' @ itoa keyIndex else ch);
           e = Some (w_now w + 60 * expire)
       in (Inr (), w\<lparr>w_redis := (w_redis w)(response_key i \<mapsto> (v, e), length_key i \<mapsto> (itoa expire, e))\<rparr>)))"

text \<open>\<open>strings.SplitN(value, ":", 2)\<close>\<close>

definition split_colon :: "string \<Rightarrow> string \<times> string option" where
  "split_colon v = (takeWhile (\<lambda>c. c \<noteq> CHR '':'') v,
     case dropWhile (\<lambda>c. c \<noteq> CHR '':'') v of [] \<Rightarrow> None | _ # r \<Rightarrow> Some r)"

definition GetClaudeCacheIdFromRedis :: "string \<Rightarrow> (string \<times> int) op" where
  "GetClaudeCacheIdFromRedis i = reading (\<lambda>w.
     if \<not> cfg_redis (w_cfg w) then fail (Msg ''redis disabled'')
     else if i = [] then fail (Msg ''empty id'')
     else on_ok (RedisGet (response_key i)) (\<lambda>v.
       ret (fst (split_colon v),
         case snd (split_colon v) of None \<Rightarrow> - 1
         | Some s \<Rightarrow> (case parse_int64 s of None \<Rightarrow> - 1 | Some k \<Rightarrow> k))))"

definition CacheResponseIdToChannel :: "string \<Rightarrow> int \<Rightarrow> int \<Rightarrow> unit op" where
  "CacheResponseIdToChannel i ch keyIndex =
     (if i = [] \<or> ch \<le> 0 then ret ()
      else ignore_err (SetClaudeCacheIdToRedis i (itoa ch) 1440 keyIndex))"

definition isExcludedChannel :: "int \<Rightarrow> int list \<Rightarrow> bool" where
  "isExcludedChannel i excl \<longleftrightarrow> i \<in> set excl"

text \<open>\<open>strings.Split(list, ",")\<close> with an entry that is \<open>x\<close> but for white space\<close>

definition lists_entry :: "string \<Rightarrow> string \<Rightarrow> bool" where
  "lists_entry column x \<longleftrightarrow> x \<in> set (map trim_space (split_on (CHR '','') column))"

text \<open>The bound channel when it still fits the request; every failure is a miss.\<close>

definition bound_channel :: "retry_ctx \<Rightarrow> string \<Rightarrow> string \<Rightarrow> int \<Rightarrow> string \<Rightarrow> int list \<Rightarrow> (channel \<times> int) option op" where
  "bound_channel ctx grp model skip responseID excl =
     (if skip \<noteq> 0 \<or> responseID = [] then ret None
      else on_result (GetClaudeCacheIdFromRedis responseID) (\<lambda>r. case r of
        Inl _ \<Rightarrow> ret None
      | Inr (cached, keyIndex) \<Rightarrow>
          (case parse_int64 cached of
             None \<Rightarrow> ret None
           | Some i \<Rightarrow>
               if isExcludedChannel i excl then ret None
               else on_result (GetChannelById i True) (\<lambda>g. case g of
                 Inl _ \<Rightarrow> ret None
               | Inr c \<Rightarrow> ret (if c_status c = ChannelStatusEnabled \<and> lists_entry (c_group c) grp \<and>
                     lists_entry (c_models c) model \<and> RetryProviderAllows ctx c then Some (c, keyIndex) else None)))))"

section \<open>Priority levels\<close>

definition serves :: "string \<Rightarrow> string \<Rightarrow> channel \<times> ability \<Rightarrow> bool" where
  "serves grp model ca \<longleftrightarrow> ab_group (snd ca) = grp \<and> ab_model (snd ca) = model \<and> ab_enabled (snd ca) \<and>
     c_status (fst ca) = ChannelStatusEnabled"

definition level_values :: "string \<Rightarrow> string \<Rightarrow> db \<Rightarrow> int option list" where
  "level_values grp model d = remdups (map (ab_priority \<circ> snd) (filter (serves grp model) (joined d)))"

text \<open>A null priority cannot be scanned into an \<open>int\<close>: the query fails.\<close>

definition getSortedSatisfiedChannelPriorities :: "string \<Rightarrow> string \<Rightarrow> int list op" where
  "getSortedSatisfiedChannelPriorities grp model =
     on_ok (query (level_values grp model)) (\<lambda>ps.
       if None \<in> set ps then fail (Msg ''failed to fetch priorities'') else ret (sort_key uminus (map the ps)))"

definition level_channels :: "string \<Rightarrow> string \<Rightarrow> int list \<Rightarrow> int \<Rightarrow> db \<Rightarrow> channel list" where
  "level_channels grp model excl p d =
     map fst (filter (\<lambda>ca. serves grp model ca \<and> ab_priority (snd ca) = Some p \<and> c_id (fst ca) \<notin> set excl) (joined d))"

text \<open>The channels of the first level that has one within the boundaries.\<close>

fun first_level :: "retry_ctx \<Rightarrow> string \<Rightarrow> string \<Rightarrow> int list \<Rightarrow> int list \<Rightarrow> channel list op" where
  "first_level ctx grp model excl [] = ret []"
| "first_level ctx grp model excl (p # ps) =
     on_ok (query (level_channels grp model excl p)) (\<lambda>cs.
       let eligible = filterRetryProviderChannels ctx cs
       in if eligible \<noteq> [] then ret eligible else first_level ctx grp model excl ps)"

definition from_level :: "int \<Rightarrow> int list \<Rightarrow> int list" where
  "from_level skip ps = drop (min (nat skip) (length ps - 1)) ps"

definition CacheGetRandomSatisfiedChannel ::
    "nat \<Rightarrow> retry_ctx \<Rightarrow> string \<Rightarrow> string \<Rightarrow> int \<Rightarrow> string \<Rightarrow> int list \<Rightarrow> (channel \<times> int) op" where
  "CacheGetRandomSatisfiedChannel rnd ctx grp model skip responseID excl =
     on_ok (bound_channel ctx grp model skip responseID excl) (\<lambda>b. case b of
       Some r \<Rightarrow> ret r
     | None \<Rightarrow> on_ok (getSortedSatisfiedChannelPriorities grp model) (\<lambda>ps.
         if ps = [] then fail (Msg ''no priorities available'')
         else if skip < 0 then fail Panic
         else on_ok (first_level ctx grp model excl (from_level skip ps)) (\<lambda>cs.
           if cs = [] then fail (Msg ''no channels available with the required priority and weight'')
           else case pick_weighted rnd cs of Inl e \<Rightarrow> fail e | Inr c \<Rightarrow> ret (c, - 1))))"

section \<open>Capabilities\<close>

definition FilterSupportCountTokens :: "channel \<Rightarrow> channel_config \<Rightarrow> bool" where
  "FilterSupportCountTokens c cfg \<longleftrightarrow> cc_count_tokens cfg"

definition capable :: "(channel \<Rightarrow> channel_config \<Rightarrow> bool) \<Rightarrow> channel \<Rightarrow> bool" where
  "capable has_cap c = (case LoadConfig c of None \<Rightarrow> False | Some cfg \<Rightarrow> has_cap c cfg)"

text \<open>A level whose query fails, or that has no capable channel, gives way to the next one.\<close>

fun capable_level ::
    "nat \<Rightarrow> (channel \<Rightarrow> channel_config \<Rightarrow> bool) \<Rightarrow> string \<Rightarrow> string \<Rightarrow> int list \<Rightarrow> int list \<Rightarrow> channel op" where
  "capable_level rnd has_cap grp model excl [] = fail (Msg ''no channels available with required capability'')"
| "capable_level rnd has_cap grp model excl (p # ps) =
     on_result (query (level_channels grp model excl p)) (\<lambda>r. case r of
       Inl _ \<Rightarrow> capable_level rnd has_cap grp model excl ps
     | Inr cs \<Rightarrow>
         let fs = filter (capable has_cap) cs
         in if fs = [] then capable_level rnd has_cap grp model excl ps
            else case pick_weighted rnd fs of
              Inr c \<Rightarrow> ret c
            | Inl e \<Rightarrow> if e = Panic then fail Panic else capable_level rnd has_cap grp model excl ps)"

definition CacheGetRandomSatisfiedChannelWithCapability ::
    "nat \<Rightarrow> string \<Rightarrow> string \<Rightarrow> (channel \<Rightarrow> channel_config \<Rightarrow> bool) \<Rightarrow> int \<Rightarrow> int list \<Rightarrow> channel op" where
  "CacheGetRandomSatisfiedChannelWithCapability rnd grp model has_cap skip excl =
     on_ok (getSortedSatisfiedChannelPriorities grp model) (\<lambda>ps.
       if ps = [] then fail (Msg ''no priorities available'')
       else if skip < 0 then fail Panic
       else capable_level rnd has_cap grp model excl (from_level skip ps))"

section \<open>Allowed channels\<close>

lemma query_db: "query f w = (Inr a, w') \<Longrightarrow> a = f (w_db w) \<and> w_db w' = w_db w"
  by (auto elim!: query_Inr)

lemma pick_weighted_result:
  assumes "cs \<noteq> []"
  shows "pick_weighted r cs = Inl Panic \<or> (\<exists>c\<in>set cs. pick_weighted r cs = Inr c)"
proof (cases "channel_weights cs")
  case None
  then show ?thesis by (simp add: pick_weighted_def)
next
  case (Some vs)
  have m: "fst ` set vs = set cs" using channel_weights_map [OF Some] by (metis list.set_map)
  have pos: "0 < total_weight vs" by (rule total_weight_pos [OF Some assms])
  then obtain c where "walk_weights (r mod total_weight vs + 1) 0 vs = Some c" "c \<in> fst ` set vs"
    using walk_finds [of 0 "r mod total_weight vs + 1" vs] by (auto simp: Suc_leI)
  with Some m pos assms show ?thesis by (simp add: pick_weighted_def)
qed

lemma level_channels_member:
  assumes "c \<in> set (level_channels grp model excl p d)"
  shows "c \<in> set (d_channels d)" "c_status c = ChannelStatusEnabled" "c_id c \<notin> set excl"
    "\<exists>a\<in>set (d_abilities d). ab_channel_id a = c_id c \<and> ab_group a = grp \<and> ab_model a = model \<and> ab_enabled a \<and>
       ab_priority a = Some p"
  using assms by (auto simp: level_channels_def serves_def joined_def)

lemma filter_boundary [simp]:
  "c \<in> set (filterRetryProviderChannels ctx cs) \<longleftrightarrow> c \<in> set cs \<and> RetryProviderAllows ctx c"
  by (auto simp: filterRetryProviderChannels_def HasRetryBoundary_def RetryProviderAllows_def)

lemma first_level_Inr:
  assumes "first_level ctx grp model excl ps w = (Inr cs, w')"
  shows "w_db w' = w_db w \<and> (cs \<noteq> [] \<longrightarrow> (\<exists>pre p post. ps = pre @ p # post \<and>
     cs = filterRetryProviderChannels ctx (level_channels grp model excl p (w_db w)) \<and>
     (\<forall>q\<in>set pre. filterRetryProviderChannels ctx (level_channels grp model excl q (w_db w)) = [])))"
  using assms
proof (induction ps arbitrary: w)
  case Nil
  then show ?case by simp
next
  case (Cons p ps)
  let ?e = "filterRetryProviderChannels ctx (level_channels grp model excl p (w_db w))"
  from Cons.prems obtain w1 where w1: "w_db w1 = w_db w" and
    k: "(if ?e \<noteq> [] then ret ?e else first_level ctx grp model excl ps) w1 = (Inr cs, w')"
    by (auto simp: Let_def dest!: query_db)
  show ?case
  proof (cases "?e = []")
    case False
    with k w1 show ?thesis by (intro conjI impI exI [of _ "[]"] exI [of _ p] exI [of _ ps]) auto
  next
    case True
    with k have "first_level ctx grp model excl ps w1 = (Inr cs, w')" by simp
    note ih = Cons.IH [OF this]
    show ?thesis
    proof (intro conjI impI)
      show "w_db w' = w_db w" using ih w1 by simp
      assume "cs \<noteq> []"
      with ih w1 obtain pre q post where "ps = pre @ q # post"
        "cs = filterRetryProviderChannels ctx (level_channels grp model excl q (w_db w))"
        "\<forall>q\<in>set pre. filterRetryProviderChannels ctx (level_channels grp model excl q (w_db w)) = []" by auto
      with True show "\<exists>pre q post. p # ps = pre @ q # post \<and>
          cs = filterRetryProviderChannels ctx (level_channels grp model excl q (w_db w)) \<and>
          (\<forall>q\<in>set pre. filterRetryProviderChannels ctx (level_channels grp model excl q (w_db w)) = [])"
        by (intro exI [of _ "p # pre"] exI [of _ q] exI [of _ post]) simp
    qed
  qed
qed

lemma bound_channel_result:
  assumes "bound_channel ctx grp model skip responseID excl w = (r, w')"
  shows "w_db w' = w_db w \<and> (\<forall>c k. r = Inr (Some (c, k)) \<longrightarrow> skip = 0 \<and> responseID \<noteq> [] \<and>
     c \<in> set (d_channels (w_db w)) \<and> c_status c = ChannelStatusEnabled \<and> c_id c \<notin> set excl \<and>
     lists_entry (c_group c) grp \<and> lists_entry (c_models c) model \<and> RetryProviderAllows ctx c)"
proof (cases "skip \<noteq> 0 \<or> responseID = []")
  case True
  with assms show ?thesis by (auto simp: bound_channel_def)
next
  case False
  obtain r1 w1 where g: "GetClaudeCacheIdFromRedis responseID w = (r1, w1)" by fastforce
  have kp: "keeps (\<lambda>d. d) (GetClaudeCacheIdFromRedis responseID)"
    unfolding GetClaudeCacheIdFromRedis_def RedisGet_def
    by (intro keeps_intros keeps_redis_cmd) (simp split: option.splits)
  then have w1: "w_db w1 = w_db w" using keepsD [OF kp g] by simp
  show ?thesis
  proof (cases "\<exists>cached k i. r1 = Inr (cached, k) \<and> parse_int64 cached = Some i \<and> i \<notin> set excl")
    case False
    with assms g w1 \<open>\<not> (skip \<noteq> 0 \<or> responseID = [])\<close> show ?thesis
      by (auto simp: bound_channel_def on_result_def isExcludedChannel_def split: sum.splits prod.splits option.splits if_splits)
  next
    case True
    then obtain cached k i where i: "r1 = Inr (cached, k)" "parse_int64 cached = Some i" "i \<notin> set excl" by blast
    obtain r2 w2 where f: "first d_channels (\<lambda>c. c_id c = i) w1 = (r2, w2)" by fastforce
    have w2: "w_db w2 = w_db w1" using first_touched [OF f] touchedD(1) by blast
    show ?thesis
    proof (cases r2)
      case (Inl e)
      with assms g w1 w2 f i \<open>\<not> (skip \<noteq> 0 \<or> responseID = [])\<close> show ?thesis
        by (auto simp: bound_channel_def on_result_def isExcludedChannel_def GetChannelById_def on_ok_def ret_def)
    next
      case (Inr c)
      with f have "find (\<lambda>c. c_id c = i) (d_channels (w_db w1)) = Some c" by (auto elim: first_Inr)
      then have "c \<in> set (d_channels (w_db w))" "c_id c = i" using find_SomeD w1 by fastforce+
      with Inr assms g w1 w2 f i \<open>\<not> (skip \<noteq> 0 \<or> responseID = [])\<close> show ?thesis
        by (auto simp: bound_channel_def on_result_def isExcludedChannel_def GetChannelById_def on_ok_def ret_def split: if_splits)
    qed
  qed
qed

lemma select_Inr:
  assumes "CacheGetRandomSatisfiedChannel rnd ctx grp model skip responseID excl w = (Inr (c, k), w')"
  obtains w1 where "bound_channel ctx grp model skip responseID excl w = (Inr (Some (c, k)), w1)"
  | w1 pre p post where "w_db w1 = w_db w" "bound_channel ctx grp model skip responseID excl w = (Inr None, w1)"
    "None \<notin> set (level_values grp model (w_db w))" "0 \<le> skip" "k = - 1"
    "from_level skip (sort_key uminus (map the (level_values grp model (w_db w)))) = pre @ p # post"
    "c \<in> set (filterRetryProviderChannels ctx (level_channels grp model excl p (w_db w)))"
    "\<forall>q\<in>set pre. filterRetryProviderChannels ctx (level_channels grp model excl q (w_db w)) = []"
proof -
  from assms obtain b w1 where b: "bound_channel ctx grp model skip responseID excl w = (Inr b, w1)"
    by (auto simp: CacheGetRandomSatisfiedChannel_def)
  have db1: "w_db w1 = w_db w" using bound_channel_result [OF b] by blast
  show thesis
  proof (cases b)
    case (Some x)
    with assms b have "x = (c, k)" by (auto simp: CacheGetRandomSatisfiedChannel_def on_ok_def)
    with that(1) b Some show thesis by simp
  next
    case None
    let ?ps = "sort_key uminus (map the (level_values grp model (w_db w)))"
    from assms b None db1 obtain w2 cs w3 where
      f: "None \<notin> set (level_values grp model (w_db w))" "0 \<le> skip" "w_db w2 = w_db w"
        "first_level ctx grp model excl (from_level skip ?ps) w2 = (Inr cs, w3)" "cs \<noteq> []"
        "pick_weighted rnd cs = Inr c" "k = - 1"
      by (auto simp: CacheGetRandomSatisfiedChannel_def on_ok_def getSortedSatisfiedChannelPriorities_def
          dest!: query_db split: if_splits sum.splits prod.splits)
    then have c: "c \<in> set cs" using pick_weighted_result [OF f(5), of rnd] by auto
    from first_level_Inr [OF f(4)] f(3,5) obtain pre p post where
      "from_level skip ?ps = pre @ p # post" "cs = filterRetryProviderChannels ctx (level_channels grp model excl p (w_db w))"
      "\<forall>q\<in>set pre. filterRetryProviderChannels ctx (level_channels grp model excl q (w_db w)) = []" by auto
    with that(2) db1 b None f c show thesis by blast
  qed
qed

text \<open>
  C29. The channel chosen for a request exists, is enabled, is not among those a retry excludes,
  lies within the retry boundary, and serves the group and model: by an enabled ability, or by
  its own lists when it is the channel the response is bound to.
\<close>

theorem selected_channel_allowed:
  assumes "CacheGetRandomSatisfiedChannel rnd ctx grp model skip responseID excl w = (Inr (c, k), w')"
  shows "c \<in> set (d_channels (w_db w)) \<and> c_status c = ChannelStatusEnabled \<and> c_id c \<notin> set excl \<and>
    RetryProviderAllows ctx c \<and>
    ((\<exists>a\<in>set (d_abilities (w_db w)). ab_channel_id a = c_id c \<and> ab_group a = grp \<and> ab_model a = model \<and> ab_enabled a) \<or>
     (skip = 0 \<and> responseID \<noteq> [] \<and> lists_entry (c_group c) grp \<and> lists_entry (c_models c) model))"
  using assms
proof (rule select_Inr)
  fix w1 assume "bound_channel ctx grp model skip responseID excl w = (Inr (Some (c, k)), w1)"
  from bound_channel_result [OF this] show ?thesis by blast
next
  fix p assume "c \<in> set (filterRetryProviderChannels ctx (level_channels grp model excl p (w_db w)))"
  then have "c \<in> set (level_channels grp model excl p (w_db w))" "RetryProviderAllows ctx c" by simp_all
  with level_channels_member [OF this(1)] show ?thesis by blast
qed

section \<open>Levels\<close>

text \<open>The priorities of the enabled channels that serve a group and model.\<close>

definition levels :: "string \<Rightarrow> string \<Rightarrow> db \<Rightarrow> int set" where
  "levels grp model d = {p. Some p \<in> set (level_values grp model d)}"

lemma sorted_levels:
  assumes "None \<notin> set (level_values grp model d)"
  defines "ps \<equiv> sort_key uminus (map the (level_values grp model d))"
  shows "set ps = levels grp model d" "i < j \<Longrightarrow> j < length ps \<Longrightarrow> ps ! j < ps ! i"
proof -
  have inj: "inj_on the (set (level_values grp model d))"
    using assms(1) by (auto simp: inj_on_def the_def split: option.splits) (metis option.exhaust_sel)+
  have "distinct (level_values grp model d)" by (simp add: level_values_def)
  with inj have ds: "distinct ps" unfolding ps_def by (simp add: distinct_map)
  have st: "sorted (map uminus ps)" unfolding ps_def by (rule sorted_sort_key)
  show "set ps = levels grp model d"
  proof (intro set_eqI)
    fix p
    have "p \<in> the ` set (level_values grp model d) \<longleftrightarrow> Some p \<in> set (level_values grp model d)"
    proof
      assume "p \<in> the ` set (level_values grp model d)"
      then obtain v where v: "v \<in> set (level_values grp model d)" "p = the v" by blast
      with assms(1) show "Some p \<in> set (level_values grp model d)" by (cases v) auto
    next
      assume "Some p \<in> set (level_values grp model d)"
      then have "the (Some p) \<in> the ` set (level_values grp model d)" by (rule imageI)
      then show "p \<in> the ` set (level_values grp model d)" by simp
    qed
    then show "p \<in> set ps \<longleftrightarrow> p \<in> levels grp model d" by (simp add: ps_def levels_def)
  qed
  show "ps ! j < ps ! i" if "i < j" "j < length ps"
  proof -
    have "ps ! j \<le> ps ! i" using sorted_nth_mono [OF st, of i j] that by simp
    moreover have "ps ! j \<noteq> ps ! i" using ds that by (simp add: nth_eq_iff_index_eq)
    ultimately show ?thesis by simp
  qed
qed

lemma card_above:
  assumes "\<And>i j. i < j \<Longrightarrow> j < length ps \<Longrightarrow> ps ! j < ps ! i" "n < length (ps :: int list)"
  shows "card {x \<in> set ps. ps ! n < x} = n"
proof -
  have "{x \<in> set ps. ps ! n < x} = (\<lambda>i. ps ! i) ` {..<n}"
  proof (intro equalityI subsetI)
    fix x assume "x \<in> {x \<in> set ps. ps ! n < x}"
    then obtain i where i: "x = ps ! i" "i < length ps" "ps ! n < ps ! i" by (auto simp: in_set_conv_nth)
    have "i < n"
    proof (rule ccontr)
      assume "\<not> i < n"
      then have "ps ! i \<le> ps ! n" using assms(1) [of n i] i(2) by (cases "i = n") auto
      with i(3) show False by simp
    qed
    with i(1) show "x \<in> (\<lambda>i. ps ! i) ` {..<n}" by blast
  next
    fix x assume "x \<in> (\<lambda>i. ps ! i) ` {..<n}"
    with assms show "x \<in> {x \<in> set ps. ps ! n < x}" by (auto intro!: nth_mem)
  qed
  moreover have "inj_on (\<lambda>i. ps ! i) {..<n}"
  proof (rule inj_onI)
    fix i j assume "i \<in> {..<n}" "j \<in> {..<n}" "ps ! i = ps ! j"
    with assms(1) [of i j] assms(1) [of j i] assms(2) show "i = j" by (cases i j rule: linorder_cases) auto
  qed
  ultimately show ?thesis by (simp add: card_image)
qed

text \<open>
  C30. A retry that skips levels never takes a channel of a higher priority than the level it
  skips to, unless fewer levels exist, and of the levels from there on it takes the highest that
  has a channel within its boundaries.
\<close>

theorem selection_level:
  assumes "CacheGetRandomSatisfiedChannel rnd ctx grp model skip [] excl w = (Inr (c, k), w')"
  shows "\<exists>p\<in>levels grp model (w_db w).
    c \<in> set (level_channels grp model excl p (w_db w)) \<and>
    (nat skip \<le> card {x \<in> levels grp model (w_db w). p < x} \<or> (\<forall>x\<in>levels grp model (w_db w). p \<le> x)) \<and>
    (\<forall>q\<in>levels grp model (w_db w). p < q \<and> nat skip \<le> card {x \<in> levels grp model (w_db w). q < x} \<longrightarrow>
       filterRetryProviderChannels ctx (level_channels grp model excl q (w_db w)) = [])"
  using assms
proof (rule select_Inr)
  fix w1 assume "bound_channel ctx grp model skip [] excl w = (Inr (Some (c, k)), w1)"
  from bound_channel_result [OF this] show ?thesis by blast
next
  fix pre p post
  let ?ps = "sort_key uminus (map the (level_values grp model (w_db w)))"   assume none: "None \<notin> set (level_values grp model (w_db w))"
    and d: "from_level skip ?ps = pre @ p # post"
    and c: "c \<in> set (filterRetryProviderChannels ctx (level_channels grp model excl p (w_db w)))"
    and e: "\<forall>q\<in>set pre. filterRetryProviderChannels ctx (level_channels grp model excl q (w_db w)) = []"
  define ps where "ps = ?ps"
  note sl = sorted_levels [OF none, folded ps_def]
  define m where "m = min (nat skip) (length ps - 1)"
  have dr: "drop m ps = pre @ p # post" using d by (simp add: from_level_def ps_def m_def)
  define n where "n = m + length pre"
  have nth: "n < length ps" "ps ! n = p"
  proof -
    have "length (drop m ps) = length pre + 1 + length post" unfolding dr by simp
    then show l: "n < length ps" by (simp add: n_def)
    have "drop m ps ! length pre = ps ! n" unfolding n_def by (rule nth_drop) (use l n_def in simp)
    then show "ps ! n = p" by (simp only: dr nth_append_length)
  qed
  have above: "card {x \<in> levels grp model (w_db w). ps ! j < x} = j" if "j < length ps" for j
    using card_above [of ps j, OF sl(2) that] sl(1) by simp
  have p: "p \<in> levels grp model (w_db w)" using nth sl(1) nth_mem by blast
  have low: "nat skip \<le> card {x \<in> levels grp model (w_db w). p < x} \<or> (\<forall>x\<in>levels grp model (w_db w). p \<le> x)"
  proof (cases "nat skip \<le> length ps - 1")
    case True
    with above [OF nth(1)] nth(2) show ?thesis by (simp add: n_def m_def)
  next
    case False
    then have "n = length ps - 1" using nth(1) by (simp add: n_def m_def)
    moreover have "ps ! (length ps - 1) \<le> ps ! j" if "j < length ps" for j
    proof (cases "j = length ps - 1")
      case False
      with that have "j < length ps - 1" "length ps - 1 < length ps" by linarith+
      from sl(2) [OF this] show ?thesis by (rule less_imp_le)
    qed simp
    ultimately have "\<forall>x\<in>set ps. p \<le> x" using nth(2) by (auto simp: in_set_conv_nth)
    then show ?thesis using sl(1) by simp
  qed
  have high: "filterRetryProviderChannels ctx (level_channels grp model excl q (w_db w)) = []"
    if q: "q \<in> levels grp model (w_db w)" "p < q" "nat skip \<le> card {x \<in> levels grp model (w_db w). q < x}" for q
  proof -
    obtain j where j: "j < length ps" "ps ! j = q" using q(1) sl(1) by (metis in_set_conv_nth)
    then have "m \<le> j" using above [of j] q(3) by (simp add: m_def)
    moreover have "j < n"
    proof (rule ccontr)
      assume "\<not> j < n"
      then have "q \<le> p" using sl(2) [of n j] j nth by (cases "j = n") auto
      with q(2) show False by simp
    qed
    ultimately have "q = drop m ps ! (j - m)" "j - m < length pre" using j by (simp_all add: n_def)
    then have "q \<in> set pre" by (simp add: dr nth_append)
    with e show ?thesis by blast
  qed
  show ?thesis using p c low high by auto
qed

section \<open>Capabilities\<close>

lemma calm_query: "w_faults w = [] \<Longrightarrow> \<not> w_aborted w \<Longrightarrow> query f w = (Inr (f (w_db w)), w)"
  by (simp add: query_def exec_def)

lemma no_boundary_filter [simp]: "filterRetryProviderChannels no_boundary cs = cs"
  by (simp add: filterRetryProviderChannels_def HasRetryBoundary_def no_boundary_def)

lemma capable_level_all:
  assumes "w_faults w = []" "\<not> w_aborted w" "\<forall>c\<in>set (d_channels (w_db w)). LoadConfig c \<noteq> None"
  shows "fst (capable_level rnd (\<lambda>_ _. True) grp model excl ps w) = Inr c \<longleftrightarrow>
    (\<exists>cs. first_level no_boundary grp model excl ps w = (Inr cs, w) \<and> cs \<noteq> [] \<and> pick_weighted rnd cs = Inr c)"
proof (induction ps)
  case Nil
  then show ?case by (simp add: fail_def)
next
  case (Cons p ps)
  let ?cs = "level_channels grp model excl p (w_db w)"
  note q = calm_query [OF assms(1,2), of "level_channels grp model excl p"]
  have "filter (capable (\<lambda>_ _. True)) ?cs = ?cs"
    using assms(3) level_channels_member(1) by (fastforce simp: filter_id_conv capable_def split: option.splits)
  then show ?case
    using Cons.IH pick_weighted_result [of ?cs rnd] q
    by (cases "?cs = []") (auto simp: on_result_def on_ok_def Let_def ret_def fail_def)
qed

text \<open>
  The selection by capability adds nothing but the filter: with a filter that accepts every
  channel it returns the channel the plain selection returns outside a retry boundary, for the
  same random number. (With readable configurations and no failing statement.)
\<close>

theorem capability_selection_conservative:
  assumes "w_faults w = []" "\<not> w_aborted w" "\<forall>c\<in>set (d_channels (w_db w)). LoadConfig c \<noteq> None"
  shows "fst (CacheGetRandomSatisfiedChannelWithCapability rnd grp model (\<lambda>_ _. True) skip excl w) = Inr c \<longleftrightarrow>
    fst (CacheGetRandomSatisfiedChannel rnd no_boundary grp model skip [] excl w) = Inr (c, - 1)"
proof -
  let ?vs = "level_values grp model (w_db w)"
  let ?ls = "from_level skip (sort_key uminus (map the ?vs))"
  have lv: "first_level no_boundary grp model excl ps w = (Inr cs, w1) \<Longrightarrow> w1 = w" for ps cs w1
    by (induction ps) (auto simp: on_ok_def calm_query [OF assms(1,2)] Let_def ret_def split: if_splits)
  have fl: "\<exists>cs. first_level no_boundary grp model excl ps w = (Inr cs, w)" for ps
    by (induction ps) (auto simp: on_ok_def calm_query [OF assms(1,2)] Let_def ret_def)
  obtain cs where cs: "first_level no_boundary grp model excl ?ls w = (Inr cs, w)" using fl by blast
  show ?thesis
    using capable_level_all [OF assms, of rnd grp model excl ?ls c] cs
    by (auto simp: CacheGetRandomSatisfiedChannelWithCapability_def CacheGetRandomSatisfiedChannel_def bound_channel_def
        getSortedSatisfiedChannelPriorities_def on_ok_def calm_query [OF assms(1,2)] ret_def fail_def split: sum.splits)
qed

section \<open>The binding of a response\<close>

lemma digit_not_colon: "k < 10 \<Longrightarrow> digit_char k \<noteq> CHR '':''"
  using digit_val_char [of k] by (auto simp: digit_val_def)

lemma nat_digits_no_colon: "CHR '':'' \<notin> set (nat_digits n)"
proof (induction n rule: nat_digits.induct)
  case (1 n)
  then show ?case
    using digit_not_colon [of n] digit_not_colon [of "n mod 10"] by (simp add: nat_digits.simps [of n]) (metis)
qed

lemma split_colon_plain: "CHR '':'' \<notin> set a \<Longrightarrow> split_colon a = (a, None)"
proof -
  assume "CHR '':'' \<notin> set a"
  then have "\<forall>c\<in>set a. c \<noteq> CHR '':''" by auto
  then show ?thesis by (simp add: split_colon_def takeWhile_eq_all_conv dropWhile_eq_Nil_conv [THEN iffD2])
qed

lemma split_colon_pair: "CHR '':'' \<notin> set a \<Longrightarrow> split_colon (a @ '':'' @ b) = (a, Some b)"
  by (induction a) (auto simp: split_colon_def)

text \<open>
  A response identifier keeps its channel and key for a day: while the key is stored, every
  lookup until then gives exactly the channel and the key index that were recorded, without a
  key index -1, and afterwards none.
\<close>

theorem response_binding_kept:
  assumes "i \<noteq> []" "0 < ch" "in_int64 ch" "in_int64 k" "cfg_redis (w_cfg w)" "w_faults w = []"
  shows "\<exists>w1. CacheResponseIdToChannel i ch k w = (Inr (), w1) \<and>
    (\<forall>v. w_redis v (response_key i) = w_redis w1 (response_key i) \<and> cfg_redis (w_cfg v) \<and> w_faults v = [] \<longrightarrow>
      fst (GetClaudeCacheIdFromRedis i v) =
        (if w_now v < w_now w + 24 * 60 * 60 then Inr (itoa ch, if 0 \<le> k then k else - 1)
         else Inl (Msg ''redis: nil'')))"
proof -
  let ?v = "if 0 \<le> k then itoa ch @ '':'' @ itoa k else itoa ch"
  let ?e = "Some (w_now w + 86400)"
  have ne: "itoa ch \<noteq> []" using nat_digits_hd [of "nat ch"] assms(2) by (auto simp: itoa_def)
  have keys: "response_key i \<noteq> length_key i" by (simp add: response_key_def length_key_def)
  have nc: "CHR '':'' \<notin> set (itoa ch)" using assms(2) nat_digits_no_colon by (simp add: itoa_def)
  have s: "split_colon ?v = (itoa ch, if 0 \<le> k then Some (itoa k) else None)"
    using split_colon_plain [OF nc] split_colon_pair [OF nc] by simp
  let ?w1 = "w\<lparr>w_redis := (w_redis w)(response_key i \<mapsto> (?v, ?e), length_key i \<mapsto> (itoa 1440, ?e))\<rparr>"
  have r: "CacheResponseIdToChannel i ch k w = (Inr (), ?w1)"
    using assms ne by (simp add: CacheResponseIdToChannel_def SetClaudeCacheIdToRedis_def reading_def ignore_err_def
        on_result_def redis_cmd_def Let_def ret_def)
  have "fst (GetClaudeCacheIdFromRedis i v) =
        (if w_now v < w_now w + 24 * 60 * 60 then Inr (itoa ch, if 0 \<le> k then k else - 1)
         else Inl (Msg ''redis: nil''))"
    if "w_redis v (response_key i) = w_redis ?w1 (response_key i)" "cfg_redis (w_cfg v)" "w_faults v = []" for v
  proof -
    have e: "w_redis v (response_key i) = Some (?v, ?e)" using that(1) keys by simp
    show ?thesis
      using assms(1,4) that(2,3) s by (simp add: GetClaudeCacheIdFromRedis_def reading_def RedisGet_def redis_cmd_def on_ok_def e live_def
          parse_itoa ret_def split: if_splits)
  qed
  with r show ?thesis by blast
qed

section \<open>Concrete runs\<close>

definition select_demo :: world where
  "select_demo = world_with (empty_db\<lparr>
     d_channels := [blank_channel\<lparr>c_id := 1\<rparr>, blank_channel\<lparr>c_id := 2\<rparr>, blank_channel\<lparr>c_id := 3, c_status := ChannelStatusAutoDisabled\<rparr>],
     d_abilities :=
      [\<lparr>ab_group = ''g'', ab_model = ''m'', ab_channel_id = 1, ab_enabled = True, ab_priority = Some 9\<rparr>,
       \<lparr>ab_group = ''g'', ab_model = ''m'', ab_channel_id = 2, ab_enabled = True, ab_priority = Some 4\<rparr>,
       \<lparr>ab_group = ''g'', ab_model = ''m'', ab_channel_id = 3, ab_enabled = True, ab_priority = Some 20\<rparr>]\<rparr>) 77"

lemmas select_run = select_demo_def CacheGetRandomSatisfiedChannel_def bound_channel_def getSortedSatisfiedChannelPriorities_def
  level_values_def level_channels_def serves_def joined_def from_level_def no_boundary_filter
  pick_weighted_def channel_weight_def total_weight_def wrap64_def

lemma select_demo_run:
  "CacheGetRandomSatisfiedChannel 5 no_boundary ''g'' ''m'' 0 [] [1] select_demo =
     (Inr (blank_channel\<lparr>c_id := 2\<rparr>, - 1), select_demo)"
  by (simp add: select_run run_simps)

theorem selected_channel_allowed_witness:
  "RetryProviderAllows no_boundary (blank_channel\<lparr>c_id := 2\<rparr>) \<and> c_id (blank_channel\<lparr>c_id := 2\<rparr>) \<notin> {1}"
  using selected_channel_allowed [OF select_demo_run] by simp

theorem selection_level_witness:
  "\<exists>p\<in>levels ''g'' ''m'' (w_db select_demo).
     blank_channel\<lparr>c_id := 2\<rparr> \<in> set (level_channels ''g'' ''m'' [1] p (w_db select_demo))"
  using selection_level [OF select_demo_run] by blast

theorem capability_selection_conservative_witness:
  "fst (CacheGetRandomSatisfiedChannelWithCapability 5 ''g'' ''m'' (\<lambda>_ _. True) 0 [1] select_demo) =
     Inr (blank_channel\<lparr>c_id := 2\<rparr>)"
proof -
  have h: "w_faults select_demo = []" "\<not> w_aborted select_demo"
    "\<forall>c\<in>set (d_channels (w_db select_demo)). LoadConfig c \<noteq> None"
    by (simp_all add: select_demo_def start_defs LoadConfig_def)
  show ?thesis using capability_selection_conservative [OF h] select_demo_run by simp
qed

definition select_redis :: world where
  "select_redis = select_demo\<lparr>w_cfg := default_config\<lparr>cfg_redis := True\<rparr>\<rparr>"

theorem response_binding_kept_witness:
  "\<exists>w1. CacheResponseIdToChannel ''r1'' 7 2 select_redis = (Inr (), w1) \<and>
     fst (GetClaudeCacheIdFromRedis ''r1'' (select_redis\<lparr>w_redis := w_redis w1\<rparr>)) = Inr (itoa 7, 2)"
proof -
  have h: "''r1'' \<noteq> []" "0 < (7::int)" "in_int64 7" "in_int64 2" "cfg_redis (w_cfg select_redis)" "w_faults select_redis = []"
    by (simp_all add: select_redis_def select_demo_def start_defs in_int64_def min_int64_def max_int64_def)
  obtain w1 where r: "CacheResponseIdToChannel ''r1'' 7 2 select_redis = (Inr (), w1)" and
    k: "\<forall>v. w_redis v (response_key ''r1'') = w_redis w1 (response_key ''r1'') \<and> cfg_redis (w_cfg v) \<and> w_faults v = [] \<longrightarrow>
      fst (GetClaudeCacheIdFromRedis ''r1'' v) =
        (if w_now v < w_now select_redis + 24 * 60 * 60 then Inr (itoa 7, if 0 \<le> (2::int) then 2 else - 1)
         else Inl (Msg ''redis: nil''))"
    using response_binding_kept [OF h] by blast
  from k [rule_format, of "select_redis\<lparr>w_redis := w_redis w1\<rparr>"] h r show ?thesis by simp
qed

end
