(* ===== verification/StateStore.thy ===== *)
theory StateStore
  imports ChannelSelect JsonWrite
begin

text \<open>
  \<open>service/responses_state_store.go\<close>: where the origin of every response, conversation and item is
  kept, in Redis or in the memory of the process, and the interface both stores provide. Time is in
  seconds; the iteration order of a Go map is the order of the list that stands for it.
\<close>

section \<open>Origins\<close>

record origin =
  og_provider :: string
  og_channel :: int
  og_index :: int
  og_print :: string

definition responsesStateTTL :: int where "responsesStateTTL = 7 * 24 * 60 * 60"

definition encode_origin :: "origin \<Rightarrow> string" where
  "encode_origin g = render (JObj
     ([(''provider'', JStr (og_provider g)), (''channel_id'', JNum (itoa (og_channel g))),
       (''key_index'', JNum (itoa (og_index g)))] @
      (if og_print g = [] then [] else [(''key_fingerprint'', JStr (og_print g))])))"

definition decode_int :: "int \<Rightarrow> json \<Rightarrow> int option" where
  "decode_int cur v = (case v of JNull \<Rightarrow> Some cur | JNum t \<Rightarrow> parse_int64 t | _ \<Rightarrow> None)"

definition decode_origin :: "json \<Rightarrow> origin option" where
  "decode_origin v =
     (case v of
        JNull \<Rightarrow> Some \<lparr>og_provider = [], og_channel = 0, og_index = 0, og_print = []\<rparr>
      | JObj m \<Rightarrow>
          (case (decode_field decode_string ''provider'' [] m, decode_field decode_int ''channel_id'' 0 m,
                 decode_field decode_int ''key_index'' 0 m, decode_field decode_string ''key_fingerprint'' [] m) of
             (Some p, Some c, Some i, Some f) \<Rightarrow> Some \<lparr>og_provider = p, og_channel = c, og_index = i, og_print = f\<rparr>
           | _ \<Rightarrow> None)
      | _ \<Rightarrow> None)"

text \<open>A stored text that is no document, no origin, or an origin without a channel is invalid.\<close>

definition read_origin :: "string \<Rightarrow> origin option" where
  "read_origin raw =
     (case Option.bind (json_parse raw) decode_origin of
        None \<Rightarrow> None
      | Some g \<Rightarrow> if og_channel g \<le> 0 \<or> og_index g < 0 then None else Some g)"

definition ok_origin :: "origin \<Rightarrow> bool" where
  "ok_origin g \<longleftrightarrow> 0 < og_channel g \<and> 0 \<le> og_index g \<and> in_int64 (og_channel g) \<and> in_int64 (og_index g)"

lemma origin_round_trip:
  assumes "in_int64 (og_channel g)" "in_int64 (og_index g)"
  shows "Option.bind (json_parse (encode_origin g)) decode_origin = Some g"
proof -
  have i: "int_json (JObj ([(''provider'', JStr (og_provider g)), (''channel_id'', JNum (itoa (og_channel g))),
       (''key_index'', JNum (itoa (og_index g)))] @
      (if og_print g = [] then [] else [(''key_fingerprint'', JStr (og_print g))])))" by auto
  show ?thesis
    unfolding encode_origin_def parse_render [OF i]
    using assms by (simp add: decode_origin_def decode_string_def decode_int_def parse_itoa to_lower_def lower_char_def)
qed

lemma read_encode: "ok_origin g \<Longrightarrow> read_origin (encode_origin g) = Some g"
  by (simp add: ok_origin_def read_origin_def origin_round_trip)

lemma parse_int64_range: "parse_int64 t = Some i \<Longrightarrow> in_int64 i"
  by (auto simp: parse_int64_def Let_def split: if_splits option.splits)

lemma decode_int_range:
  "decode_field decode_int name cur m = Some i \<Longrightarrow> in_int64 cur \<Longrightarrow> in_int64 i"
proof (induction m arbitrary: cur)
  case (Cons e m)
  obtain k v where e: "e = (k, v)" by (cases e)
  have "in_int64 x" if "decode_int cur v = Some x" for x
    using that Cons.prems(2) by (auto simp: decode_int_def parse_int64_range split: json.splits)
  then show ?case using Cons e by (auto split: if_splits option.splits)
qed simp

lemma read_origin_ok: "read_origin raw = Some g \<Longrightarrow> ok_origin g"
proof -
  assume r: "read_origin raw = Some g"
  have z: "in_int64 0" by (simp add: in_int64_def min_int64_def max_int64_def)
  obtain v where v: "decode_origin v = Some g" "0 < og_channel g" "0 \<le> og_index g"
    using r by (auto simp: read_origin_def split: option.splits if_splits Option.bind_splits)
  have "in_int64 (og_channel g) \<and> in_int64 (og_index g)"
    using v(1) z by (auto simp: decode_origin_def split: json.splits option.splits dest: decode_int_range)
  with v show ?thesis by (simp add: ok_origin_def)
qed

section \<open>The store in Redis\<close>

definition cache_unavailable :: gerr where
  "cache_unavailable = Msg ''Responses state cache unavailable''"

text \<open>The result of one lookup: the origins found, by key.\<close>

type_synonym origins = "string \<rightharpoonup> origin"

fun read_all :: "int \<Rightarrow> (string \<rightharpoonup> string \<times> int option) \<Rightarrow> string list \<Rightarrow> (string \<times> origin) list option" where
  "read_all now r [] = Some []"
| "read_all now r (k # ks) =
     (case live now (r k) of
        None \<Rightarrow> read_all now r ks
      | Some raw \<Rightarrow>
          (case read_origin raw of
             None \<Rightarrow> None
           | Some g \<Rightarrow> map_option (Cons (k, g)) (read_all now r ks)))"

definition set_expiry :: "int \<Rightarrow> string \<Rightarrow> (string \<rightharpoonup> string \<times> int option) \<Rightarrow> (string \<rightharpoonup> string \<times> int option)" where
  "set_expiry t k r = (case r k of None \<Rightarrow> r | Some (v, _) \<Rightarrow> r(k \<mapsto> (v, Some t)))"

definition set_nx :: "int \<Rightarrow> string \<times> origin \<Rightarrow> (string \<rightharpoonup> string \<times> int option) \<Rightarrow> (string \<rightharpoonup> string \<times> int option)" where
  "set_nx now e r =
     (case live now (r (fst e)) of
        Some _ \<Rightarrow> r
      | None \<Rightarrow> r(fst e \<mapsto> (encode_origin (snd e), Some (now + responsesStateTTL))))"

text \<open>\<open>MGET\<close> without a key is an error of the server.\<close>

definition redis_lookup :: "string list \<Rightarrow> origins op" where
  "redis_lookup ks w =
     (case redis_cmd (\<lambda>w. if ks = [] then (Inl (Msg ''redis''), w) else (Inr (), w)) w of
        (Inl _, w1) \<Rightarrow> (Inl cache_unavailable, w1)
      | (Inr _, w1) \<Rightarrow>
          (case read_all (w_now w1) (w_redis w1) ks of
             None \<Rightarrow> (Inl (Msg ''Invalid Responses state cache entry''), w1)
           | Some [] \<Rightarrow> (Inr Map.empty, w1)
           | Some found \<Rightarrow>
               (case redis_cmd (\<lambda>w. (Inr (), w\<lparr>w_redis :=
                        fold (\<lambda>e. set_expiry (w_now w + responsesStateTTL) (fst e)) found (w_redis w)\<rparr>)) w1 of
                  (Inl _, w2) \<Rightarrow> (Inl cache_unavailable, w2)
                | (Inr _, w2) \<Rightarrow> (Inr (map_of found), w2))))"

definition redis_remember :: "(string \<times> origin) list \<Rightarrow> unit op" where
  "redis_remember es w =
     (if \<not> cfg_redis (w_cfg w) then (Inl cache_unavailable, w)
      else case redis_cmd (\<lambda>w. (Inr (), w\<lparr>w_redis := fold (set_nx (w_now w)) es (w_redis w)\<rparr>)) w of
        (Inl _, w1) \<Rightarrow> (Inl (Msg ''Failed to record Responses state origin''), w1)
      | (Inr _, w1) \<Rightarrow> (Inr (), w1))"

section \<open>The store in memory\<close>

record mem_entry =
  me_origin :: origin
  me_expires :: int

text \<open>\<open>ms_order\<close> is the linked list of the keys, the one used longest ago first.\<close>

record mem_store =
  ms_entries :: "(string \<times> mem_entry) list"
  ms_limit :: nat
  ms_order :: "string list"

definition newMemoryResponsesStateStore :: "nat \<Rightarrow> mem_store" where
  "newMemoryResponsesStateStore limit = \<lparr>ms_entries = [], ms_limit = limit, ms_order = []\<rparr>"

definition del_key :: "'k \<Rightarrow> ('k \<times> 'v) list \<Rightarrow> ('k \<times> 'v) list" where
  "del_key k m = filter (\<lambda>e. fst e \<noteq> k) m"

definition mem_lookup_key :: "int \<Rightarrow> string \<Rightarrow> mem_store \<times> origins \<Rightarrow> mem_store \<times> origins" where
  "mem_lookup_key now k = (\<lambda>(s, m).
     (case map_of (ms_entries s) k of
        None \<Rightarrow> (s\<lparr>ms_entries := del_key k (ms_entries s)\<rparr>, m)
      | Some e \<Rightarrow>
          if now < me_expires e
          then (s\<lparr>ms_entries := put_key k (e\<lparr>me_expires := now + responsesStateTTL\<rparr>) (ms_entries s),
                  ms_order := remove1 k (ms_order s) @ [k]\<rparr>, m(k \<mapsto> me_origin e))
          else (s\<lparr>ms_entries := del_key k (ms_entries s), ms_order := remove1 k (ms_order s)\<rparr>, m)))"

definition mem_lookup :: "int \<Rightarrow> string list \<Rightarrow> mem_store \<Rightarrow> mem_store \<times> origins" where
  "mem_lookup now ks s = fold (mem_lookup_key now) ks (s, Map.empty)"

text \<open>The oldest key goes when the store is full; the list of an empty full store has no front.\<close>

definition make_room :: "mem_store \<Rightarrow> gerr + mem_store" where
  "make_room s =
     (if length (ms_entries s) < ms_limit s then Inr s
      else case ms_order s of
        [] \<Rightarrow> Inl Panic
      | k # ks \<Rightarrow> Inr (s\<lparr>ms_entries := del_key k (ms_entries s), ms_order := ks\<rparr>))"

definition drop_expired :: "string \<Rightarrow> mem_store \<Rightarrow> mem_store" where
  "drop_expired k s =
     (if map_of (ms_entries s) k = None then s
      else s\<lparr>ms_entries := del_key k (ms_entries s), ms_order := remove1 k (ms_order s)\<rparr>)"

definition mem_remember_key :: "int \<Rightarrow> string \<Rightarrow> origin \<Rightarrow> mem_store \<Rightarrow> gerr + mem_store" where
  "mem_remember_key now k g s =
     (if (case map_of (ms_entries s) k of None \<Rightarrow> False | Some e \<Rightarrow> now < me_expires e) then Inr s
      else case make_room (drop_expired k s) of
        Inl e \<Rightarrow> Inl e
      | Inr s1 \<Rightarrow> Inr (s1\<lparr>ms_entries := put_key k \<lparr>me_origin = g, me_expires = now + responsesStateTTL\<rparr> (ms_entries s1),
          ms_order := ms_order s1 @ [k]\<rparr>))"

fun mem_remember :: "int \<Rightarrow> (string \<times> origin) list \<Rightarrow> mem_store \<Rightarrow> (gerr + unit) \<times> mem_store" where
  "mem_remember now [] s = (Inr (), s)"
| "mem_remember now ((k, g) # es) s =
     (case mem_remember_key now k g s of
        Inl e \<Rightarrow> (Inl e, s)
      | Inr s1 \<Rightarrow> mem_remember now es s1)"

section \<open>The store in use\<close>

type_synonym state_world = "world \<times> mem_store"

definition current_lookup :: "string list \<Rightarrow> state_world \<Rightarrow> (gerr + origins) \<times> state_world" where
  "current_lookup ks = (\<lambda>(w, s).
     if cfg_redis (w_cfg w) then (case redis_lookup ks w of (r, w') \<Rightarrow> (r, (w', s)))
     else (case mem_lookup (w_now w) ks s of (s', m) \<Rightarrow> (Inr m, (w, s'))))"

definition current_remember :: "(string \<times> origin) list \<Rightarrow> state_world \<Rightarrow> (gerr + unit) \<times> state_world" where
  "current_remember es = (\<lambda>(w, s).
     if cfg_redis (w_cfg w) then (case redis_remember es w of (r, w') \<Rightarrow> (r, (w', s)))
     else (case mem_remember (w_now w) es s of (r, s') \<Rightarrow> (r, (w, s'))))"

section \<open>The interface\<close>

text \<open>
  What a store promises its clients. \<open>known s k\<close> is the origin under the key \<open>k\<close> at the time of the
  state \<open>s\<close>, \<open>usable s k\<close> says that nothing keeps the store from reading \<open>k\<close>, \<open>room s n\<close> that it holds
  \<open>n\<close> further keys without dropping one, and \<open>wait d s\<close> is the state \<open>d\<close> seconds later.
\<close>

locale state_store =
  fixes lookup :: "string list \<Rightarrow> 's \<Rightarrow> (gerr + origins) \<times> 's"
    and remember :: "(string \<times> origin) list \<Rightarrow> 's \<Rightarrow> (gerr + unit) \<times> 's"
    and known :: "'s \<Rightarrow> origins"
    and wf :: "'s \<Rightarrow> bool"
    and usable :: "'s \<Rightarrow> string \<Rightarrow> bool"
    and room :: "'s \<Rightarrow> nat \<Rightarrow> bool"
    and wait :: "int \<Rightarrow> 's \<Rightarrow> 's"
  assumes lookup_wf: "wf s \<Longrightarrow> lookup ks s = (r, s') \<Longrightarrow> wf s'"
    and lookup_known: "wf s \<Longrightarrow> lookup ks s = (r, s') \<Longrightarrow> known s' = known s"
    and lookup_value: "wf s \<Longrightarrow> lookup ks s = (Inr m, s') \<Longrightarrow> m k = (if k \<in> set ks then known s k else None)"
    and lookup_works: "wf s \<Longrightarrow> ks \<noteq> [] \<Longrightarrow> \<forall>k\<in>set ks. usable s k \<Longrightarrow> \<exists>m s'. lookup ks s = (Inr m, s')"
    and lookup_refresh: "wf s \<Longrightarrow> lookup ks s = (Inr m, s') \<Longrightarrow> m k = Some g \<Longrightarrow> 0 \<le> d \<Longrightarrow> d < responsesStateTTL \<Longrightarrow>
      known (wait d s') k = Some g"
    and remember_wf: "wf s \<Longrightarrow> \<forall>e\<in>set es. ok_origin (snd e) \<Longrightarrow> distinct (map fst es) \<Longrightarrow>
      remember es s = (q, s') \<Longrightarrow> wf s'"
    and remember_first: "wf s \<Longrightarrow> \<forall>e\<in>set es. ok_origin (snd e) \<Longrightarrow> distinct (map fst es) \<Longrightarrow>
      remember es s = (q, s') \<Longrightarrow> known s' k = Some g \<Longrightarrow> known s k = Some g \<or> map_of es k = Some g"
    and remember_all: "wf s \<Longrightarrow> usable s k \<Longrightarrow> \<forall>e\<in>set es. ok_origin (snd e) \<Longrightarrow> distinct (map fst es) \<Longrightarrow> room s (length es) \<Longrightarrow>
      remember es s = (Inr (), s') \<Longrightarrow> known s' k = (case known s k of Some g \<Rightarrow> Some g | None \<Rightarrow> map_of es k)"
    and remember_kept: "wf s \<Longrightarrow> usable s k \<Longrightarrow> \<forall>e\<in>set es. ok_origin (snd e) \<Longrightarrow> distinct (map fst es) \<Longrightarrow> room s (length es) \<Longrightarrow>
      remember es s = (Inr (), s') \<Longrightarrow> known s k = None \<Longrightarrow> map_of es k = Some g \<Longrightarrow> 0 \<le> d \<Longrightarrow> d < responsesStateTTL \<Longrightarrow>
      known (wait d s') k = Some g"
    and remember_usable: "wf s \<Longrightarrow> \<forall>e\<in>set es. ok_origin (snd e) \<Longrightarrow> distinct (map fst es) \<Longrightarrow> usable s k \<Longrightarrow>
      remember es s = (q, s') \<Longrightarrow> usable s' k"
    and wait_wf: "wf s \<Longrightarrow> wf (wait d s)"
    and wait_usable: "usable s k \<Longrightarrow> 0 \<le> d \<Longrightarrow> usable (wait d s) k"
    and known_ok: "wf s \<Longrightarrow> known s k = Some g \<Longrightarrow> ok_origin g"
begin

lemma found_ok: "wf s \<Longrightarrow> lookup ks s = (Inr m, s') \<Longrightarrow> m k = Some g \<Longrightarrow> ok_origin g"
  using known_ok [of s k g] lookup_value [of s ks m s' k] by (simp split: if_splits)

text \<open>While there is room, a key that is known keeps its origin.\<close>

lemma remember_keeps_origin:
  "wf s \<Longrightarrow> usable s k \<Longrightarrow> \<forall>e\<in>set es. ok_origin (snd e) \<Longrightarrow> distinct (map fst es) \<Longrightarrow> room s (length es) \<Longrightarrow>
   remember es s = (Inr (), s') \<Longrightarrow> known s k = Some g \<Longrightarrow> known s' k = Some g"
  using remember_all [of s k es s'] by simp

end

section \<open>Redis provides it\<close>

definition redis_known :: "world \<Rightarrow> origins" where
  "redis_known w k = Option.bind (live (w_now w) (w_redis w k)) read_origin"

definition redis_usable :: "world \<Rightarrow> string \<Rightarrow> bool" where
  "redis_usable w k \<longleftrightarrow> cfg_redis (w_cfg w) \<and> w_faults w = [] \<and>
     (case w_redis w k of None \<Rightarrow> True | Some e \<Rightarrow> read_origin (fst e) \<noteq> None)"

definition wait_world :: "int \<Rightarrow> world \<Rightarrow> world" where
  "wait_world d w = w\<lparr>w_now := w_now w + d\<rparr>"

lemma TTL_pos [simp]: "0 < responsesStateTTL"
  by (simp add: responsesStateTTL_def)

lemma map_of_put_key [simp]: "map_of (put_key k v m) = (map_of m)(k \<mapsto> v)"
  by (induction m) (auto simp: put_key_def fun_eq_iff)

lemma map_of_del_key [simp]: "map_of (del_key k m) = (map_of m)(k := None)"
  by (induction m) (auto simp: del_key_def fun_eq_iff)

lemma live_SomeD: "live now e = Some v \<Longrightarrow> \<exists>t. e = Some (v, t) \<and> (case t of None \<Rightarrow> True | Some x \<Rightarrow> now < x)"
  by (auto simp: live_def split: option.splits if_splits)

lemma read_all_map:
  "read_all now r ks = Some found \<Longrightarrow>
   map_of found k = (if k \<in> set ks then Option.bind (live now (r k)) read_origin else None)"
proof (induction ks arbitrary: found)
  case (Cons k1 ks)
  then show ?case by (fastforce split: option.splits if_splits)
qed simp

lemma set_expiry_live:
  assumes "now < t" "live now (r k) \<noteq> None"
  shows "live now (set_expiry t k r x) = live now (r x)"
  using assms by (auto simp: set_expiry_def live_def split: option.splits if_splits)

lemma fold_set_expiry:
  assumes "now < t" "\<forall>e\<in>set found. live now (r (fst e)) \<noteq> None"
  shows "live now (fold (\<lambda>e. set_expiry t (fst e)) found r x) = live now (r x)"
  using assms(2)
proof (induction found arbitrary: r)
  case (Cons e found)
  have "\<forall>f\<in>set found. live now (set_expiry t (fst e) r (fst f)) \<noteq> None"
    using Cons.prems set_expiry_live [OF assms(1), of r "fst e"] by simp
  from Cons.IH [OF this] show ?case using Cons.prems set_expiry_live [OF assms(1), of r "fst e"] by simp
qed simp

lemma fold_set_expiry_at:
  fixes found :: "(string \<times> origin) list"
  assumes "x \<in> fst ` set found" "r x = Some (v, y)"
  shows "fold (\<lambda>e. set_expiry t (fst e)) found r x = Some (v, Some t)"
proof -
  have keep: "fold (\<lambda>e. set_expiry t (fst e)) found r x = Some (v, Some t)" if "r x = Some (v, Some t)" for found :: "(string \<times> origin) list" and r
    using that
  proof (induction found arbitrary: r)
    case (Cons e found)
    have "set_expiry t (fst e) r x = Some (v, Some t)" using Cons.prems by (auto simp: set_expiry_def split: option.splits)
    with Cons.IH [of "set_expiry t (fst e) r"] show ?case by simp
  qed simp
  show ?thesis using assms
  proof (induction found arbitrary: r y)
    case (Cons e found)
    show ?case
    proof (cases "fst e = x")
      case True
      then have "set_expiry t (fst e) r x = Some (v, Some t)" using Cons.prems(2) by (simp add: set_expiry_def)
      with keep [of "set_expiry t (fst e) r" found] show ?thesis by simp
    next
      case False
      then have "set_expiry t (fst e) r x = Some (v, y)" "x \<in> fst ` set found"
        using Cons.prems by (auto simp: set_expiry_def split: option.splits)
      with Cons.IH [of "set_expiry t (fst e) r" y] show ?thesis by simp
    qed
  qed simp
qed

lemma read_all_live: "read_all now r ks = Some found \<Longrightarrow> e \<in> set found \<Longrightarrow> live now (r (fst e)) \<noteq> None"
proof (induction ks arbitrary: found)
  case (Cons k ks)
  then show ?case by (fastforce split: option.splits)
qed simp

lemma redis_cmd_cases:
  assumes "redis_cmd f w = (r, w')"
  obtains (failed) e where "r = Inl e" "w_redis w' = w_redis w" "w_now w' = w_now w" "w_cfg w' = w_cfg w"
  | (ran) w1 where "f w1 = (r, w')" "w_redis w1 = w_redis w" "w_now w1 = w_now w" "w_cfg w1 = w_cfg w" "cfg_redis (w_cfg w)"
proof (cases "cfg_redis (w_cfg w)")
  case False
  then show thesis using assms failed by (auto simp: redis_cmd_def)
next
  case True
  obtain b w1 where b: "take_fault w = (b, w1)" by (cases "take_fault w")
  then have "w_redis w1 = w_redis w" "w_now w1 = w_now w" "w_cfg w1 = w_cfg w"
    by (auto simp: take_fault_def split: list.splits)
  then show thesis using assms True b failed ran by (cases b) (auto simp: redis_cmd_def)
qed

text \<open>A lookup finds what is known and renews it.\<close>

lemma redis_lookup_result:
  assumes "redis_lookup ks w = (r, w')"
  shows "w_now w' = w_now w \<and> (\<forall>x. live (w_now w) (w_redis w' x) = live (w_now w) (w_redis w x)) \<and>
    (\<forall>m. r = Inr m \<longrightarrow> (\<forall>x. m x = (if x \<in> set ks then redis_known w x else None)) \<and>
       (\<forall>x. m x \<noteq> None \<longrightarrow> (\<exists>v. w_redis w' x = Some (v, Some (w_now w + responsesStateTTL)))))"
proof -
  obtain r1 w1 where 1: "redis_cmd (\<lambda>w. if ks = [] then (Inl (Msg ''redis''), w) else (Inr (), w)) w = (r1, w1)"
    by fastforce
  have w1: "w_redis w1 = w_redis w" "w_now w1 = w_now w"
    using 1 by (auto elim!: redis_cmd_cases split: if_splits)
  show ?thesis
  proof (cases r1)
    case (Inl e)
    then show ?thesis using assms 1 w1 by (auto simp: redis_lookup_def)
  next
    case (Inr u)
    show ?thesis
    proof (cases "read_all (w_now w1) (w_redis w1) ks")
      case None
      then show ?thesis using assms 1 w1 Inr by (auto simp: redis_lookup_def)
    next
      case (Some found)
      have m: "map_of found x = (if x \<in> set ks then redis_known w x else None)" for x
        using read_all_map [OF Some] w1 by (simp add: redis_known_def)
      show ?thesis
      proof (cases found)
        case Nil
        have "(if x \<in> set ks then redis_known w x else None) = None" for x using m [of x] Nil by simp
        then show ?thesis using assms 1 w1 Inr Some Nil by (auto simp: redis_lookup_def)
      next
        case (Cons e es)
        let ?f = "\<lambda>w :: world. (Inr () :: gerr + unit, w\<lparr>w_redis := fold (\<lambda>e. set_expiry (w_now w + responsesStateTTL) (fst e)) found (w_redis w)\<rparr>)"
        obtain r2 w2 where 2: "redis_cmd ?f w1 = (r2, w2)" by fastforce
        have r: "r = (case r2 of Inl _ \<Rightarrow> Inl cache_unavailable | Inr _ \<Rightarrow> Inr (map_of found))" "w' = w2"
          using assms 1 2 Inr Some Cons by (auto simp: redis_lookup_def split: sum.splits)
        from 2 show ?thesis
        proof (cases rule: redis_cmd_cases)
          case (failed e)
          then show ?thesis using r w1 by auto
        next
          case (ran w3)
          have l: "\<forall>e\<in>set found. live (w_now w) (w_redis w (fst e)) \<noteq> None" using read_all_live [OF Some] w1 by simp
          have at: "\<exists>v. fold (\<lambda>e. set_expiry (w_now w + responsesStateTTL) (fst e)) found (w_redis w) x =
              Some (v, Some (w_now w + responsesStateTTL))" if x: "map_of found x \<noteq> None" for x
          proof -
            from x have i: "x \<in> fst ` set found" by (simp add: map_of_eq_None_iff)
            then obtain v where "live (w_now w) (w_redis w x) = Some v" using l by fastforce
            then obtain y where "w_redis w x = Some (v, y)" using live_SomeD by blast
            then show ?thesis using fold_set_expiry_at [OF i] by blast
          qed
          show ?thesis using ran r w1 m l at fold_set_expiry [OF _ l, of "w_now w + responsesStateTTL"] by auto
        qed
      qed
    qed
  qed
qed

text \<open>A pipeline of \<open>SETNX\<close>: the first live value of a key stays.\<close>

lemma set_nx_live:
  "live now (set_nx now e r x) =
     (if x = fst e \<and> live now (r x) = None then Some (encode_origin (snd e)) else live now (r x))"
  by (auto simp: set_nx_def live_def split: option.splits)

lemma fold_set_nx:
  assumes "distinct (map fst es)"
  shows "live now (fold (set_nx now) es r x) =
    (case live now (r x) of Some v \<Rightarrow> Some v | None \<Rightarrow> map_option encode_origin (map_of es x))"
  using assms
proof (induction es arbitrary: r)
  case Nil
  then show ?case by (simp split: option.splits)
next
  case (Cons e es)
  have "map_of es (fst e) = None" using Cons.prems by (simp add: map_of_eq_None_iff)
  then show ?case using Cons by (cases e) (auto simp: set_nx_live split: option.splits)
qed

lemma fold_set_nx_other: "x \<notin> fst ` set es \<Longrightarrow> fold (set_nx now) es r x = r x"
  by (induction es arbitrary: r) (auto simp: set_nx_def split: option.splits)

lemma fold_set_nx_at:
  assumes "distinct (map fst es)" "live now (r x) = None" "map_of es x = Some g"
  shows "fold (set_nx now) es r x = Some (encode_origin g, Some (now + responsesStateTTL))"
  using assms
proof (induction es arbitrary: r)
  case (Cons e es)
  obtain k h where e: "e = (k, h)" by (cases e)
  show ?case
  proof (cases "x = k")
    case True
    then have "x \<notin> fst ` set es" "h = g" using Cons.prems e by auto
    moreover have "set_nx now (k, g) r k = Some (encode_origin g, Some (now + responsesStateTTL))"
      using Cons.prems(2) True by (simp add: set_nx_def)
    ultimately show ?thesis using e True fold_set_nx_other [of k es now "set_nx now e r"] by simp
  next
    case False
    then show ?thesis using Cons e by (simp add: set_nx_live)
  qed
qed simp

lemma redis_remember_result:
  assumes "redis_remember es w = (r, w')"
  shows "w_now w' = w_now w \<and> (w_redis w' = w_redis w \<and> r \<noteq> Inr () \<or>
     w_redis w' = fold (set_nx (w_now w)) es (w_redis w) \<and> r = Inr ())"
  using assms
  by (auto simp: redis_remember_def split: if_splits prod.splits sum.splits elim!: redis_cmd_cases)

lemma redis_cmd_calm: "cfg_redis (w_cfg w) \<Longrightarrow> w_faults w = [] \<Longrightarrow> redis_cmd f w = f w"
  by (simp add: redis_cmd_def take_fault_def)

lemma read_all_works: "\<forall>k\<in>set ks. live now (r k) = None \<or> Option.bind (live now (r k)) read_origin \<noteq> None \<Longrightarrow>
  \<exists>found. read_all now r ks = Some found"
  by (induction ks) (auto split: option.splits)

lemma usable_live: "redis_usable w k \<Longrightarrow> live (w_now w) (w_redis w k) = None \<or> Option.bind (live (w_now w) (w_redis w k)) read_origin \<noteq> None"
  by (auto simp: redis_usable_def live_def split: option.splits if_splits)

lemma redis_known_eq: "w_now w' = w_now w \<Longrightarrow> (\<And>x. live (w_now w) (w_redis w' x) = live (w_now w) (w_redis w x)) \<Longrightarrow>
  redis_known w' = redis_known w"
  by (simp add: redis_known_def fun_eq_iff)

lemma redis_known_after:
  assumes "redis_remember es w = (Inr (), w')" "distinct (map fst es)" "\<forall>e\<in>set es. ok_origin (snd e)" "redis_usable w k \<or> redis_known w k \<noteq> None \<or> live (w_now w) (w_redis w k) = None"
  shows "redis_known w' k = (case redis_known w k of Some g \<Rightarrow> Some g | None \<Rightarrow> map_of es k)"
proof -
  have l: "live (w_now w') (w_redis w' k) =
      (case live (w_now w) (w_redis w k) of Some v \<Rightarrow> Some v | None \<Rightarrow> map_option encode_origin (map_of es k))"
    using redis_remember_result [OF assms(1)] fold_set_nx [OF assms(2)] by simp
  have e: "read_origin (encode_origin g) = Some g" if "map_of es k = Some g" for g
    using map_of_SomeD [OF that] assms(3) read_encode by fastforce
  show ?thesis
  proof (cases "live (w_now w) (w_redis w k)")
    case None
    then show ?thesis using l e by (cases "map_of es k") (auto simp: redis_known_def)
  next
    case (Some v)
    then have "read_origin v \<noteq> None" using assms(4) usable_live [of w k] by (auto simp: redis_known_def)
    then show ?thesis using l Some by (auto simp: redis_known_def)
  qed
qed

lemma redis_known_kept:
  assumes "redis_remember es w = (Inr (), w')" "distinct (map fst es)" "\<forall>e\<in>set es. ok_origin (snd e)" "redis_usable w k"
    "redis_known w k = None" "map_of es k = Some g" "0 \<le> d" "d < responsesStateTTL"
  shows "redis_known (wait_world d w') k = Some g"
proof -
  have "live (w_now w) (w_redis w k) = None"
    using assms(4,5) usable_live [of w k] by (simp add: redis_known_def)
  then have "w_redis w' k = Some (encode_origin g, Some (w_now w + responsesStateTTL))"
    using redis_remember_result [OF assms(1)] fold_set_nx_at [OF assms(2) _ assms(6)] by simp
  moreover have "ok_origin g" using map_of_SomeD [OF assms(6)] assms(3) by fastforce
  moreover have "w_now w' = w_now w" using redis_remember_result [OF assms(1)] by simp
  ultimately show ?thesis using assms(8) by (simp add: redis_known_def wait_world_def live_def read_encode)
qed

lemma redis_remember_usable:
  assumes "redis_remember es w = (r, w')" "distinct (map fst es)" "\<forall>e\<in>set es. ok_origin (snd e)" "redis_usable w k"
  shows "redis_usable w' k"
proof -
  have c: "cfg_redis (w_cfg w)" "w_faults w = []" using assms(4) by (simp_all add: redis_usable_def)
  then have w': "w' = w\<lparr>w_redis := fold (set_nx (w_now w)) es (w_redis w)\<rparr>"
    using assms(1) by (simp add: redis_remember_def redis_cmd_calm)
  show ?thesis
  proof (cases "w_redis w' k = w_redis w k")
    case True
    then show ?thesis using assms(4) w' by (simp add: redis_usable_def)
  next
    case False
    have "fold (set_nx now) es r k \<noteq> r k \<Longrightarrow> \<exists>g e. (k, g) \<in> set es \<and> fold (set_nx now) es r k = Some (encode_origin g, e)" for now r
    proof (induction es arbitrary: r)
      case (Cons e es)
      show ?case
      proof (cases "fold (set_nx now) es (set_nx now e r) k = set_nx now e r k")
        case True
        then have "set_nx now e r k \<noteq> r k" using Cons.prems by simp
        then have "fst e = k" "set_nx now e r k = Some (encode_origin (snd e), Some (now + responsesStateTTL))"
          by (auto simp: set_nx_def split: option.splits if_splits)
        then show ?thesis using True by (cases e) auto
      next
        case False
        then show ?thesis using Cons.IH [of "set_nx now e r"] by auto
      qed
    qed simp
    from this [of "w_now w" "w_redis w"] False w'
    obtain g e where g: "(k, g) \<in> set es" "w_redis w' k = Some (encode_origin g, e)" by auto
    then have "read_origin (encode_origin g) = Some g" using assms(3) read_encode by fastforce
    then show ?thesis using g c w' by (simp add: redis_usable_def)
  qed
qed

lemma redis_lookup_works:
  assumes "ks \<noteq> []" "\<forall>k\<in>set ks. redis_usable w k"
  shows "\<exists>m w'. redis_lookup ks w = (Inr m, w')"
proof -
  have c: "cfg_redis (w_cfg w)" "w_faults w = []"
    using assms by (auto simp: redis_usable_def neq_Nil_conv)
  have "\<forall>k\<in>set ks. live (w_now w) (w_redis w k) = None \<or> Option.bind (live (w_now w) (w_redis w k)) read_origin \<noteq> None"
    using assms(2) usable_live by blast
  from read_all_works [OF this] obtain found where "read_all (w_now w) (w_redis w) ks = Some found" by blast
  then show ?thesis using c assms(1) by (cases found) (simp_all add: redis_lookup_def redis_cmd_calm)
qed

lemma redis_lookup_refresh:
  assumes "redis_lookup ks w = (Inr m, w')" "m k = Some g" "0 \<le> d" "d < responsesStateTTL"
  shows "redis_known (wait_world d w') k = Some g"
proof -
  note r = redis_lookup_result [OF assms(1)]
  obtain v where v: "w_redis w' k = Some (v, Some (w_now w + responsesStateTTL))" using r assms(2) by blast
  have "redis_known w k = Some g" using r assms(2) by (auto split: if_splits)
  then obtain u where u: "live (w_now w) (w_redis w k) = Some u" "read_origin u = Some g"
    by (auto simp: redis_known_def split: Option.bind_splits)
  have "live (w_now w) (w_redis w' k) = Some u" using r u by simp
  then have "u = v" using v by (auto simp: live_def split: if_splits)
  with u v r assms show ?thesis by (simp add: redis_known_def wait_world_def live_def)
qed

interpretation redis_store: state_store redis_lookup redis_remember redis_known "\<lambda>_. True" redis_usable "\<lambda>_ _. True" wait_world
proof (unfold_locales, goal_cases)
  case (2 s ks r s') \<comment> \<open>nothing known changes\<close>
  then show ?case using redis_lookup_result [OF 2(2)] by (intro redis_known_eq) auto
next
  case (3 s ks m s' k)
  then show ?case using redis_lookup_result [OF 3(2)] by simp
next
  case (4 s ks)
  then show ?case using redis_lookup_works by blast
next
  case (5 s ks m s' k g d)
  then show ?case using redis_lookup_refresh by blast
next
  case (7 s es q s' k g)
  show ?case
  proof (cases "w_redis s' = w_redis s")
    case True
    then have "redis_known s' = redis_known s" using redis_remember_result [OF 7(4)] by (intro redis_known_eq) auto
    then show ?thesis using 7 by simp
  next
    case False
    then have q: "q = Inr ()" using redis_remember_result [OF 7(4)] by auto
    have l: "live (w_now s') (w_redis s' k) =
        (case live (w_now s) (w_redis s k) of Some v \<Rightarrow> Some v | None \<Rightarrow> map_option encode_origin (map_of es k))"
      using redis_remember_result [OF 7(4)] fold_set_nx [OF 7(3)] q by simp
    show ?thesis
    proof (cases "live (w_now s) (w_redis s k)")
      case None
      then have "redis_usable s k \<or> redis_known s k \<noteq> None \<or> live (w_now s) (w_redis s k) = None" by simp
      from redis_known_after [OF 7(4) [unfolded q] 7(3,2) this] show ?thesis using 7(5) by (auto split: option.splits)
    next
      case (Some v)
      then show ?thesis using l 7(5) by (simp add: redis_known_def)
    qed
  qed
next
  case (8 s k es s')
  then show ?case using redis_known_after [of es s s' k] by blast
next
  case (9 s k es s' g d)
  then show ?case using redis_known_kept [of es s s' k g d] by blast
next
  case (10 s es k q s')
  then show ?case using redis_remember_usable [of es s q s' k] by blast
next
  case (12 s k d)
  then show ?case by (simp add: redis_usable_def wait_world_def)
next
  case (13 s k g)
  then show ?case by (auto simp: redis_known_def split: Option.bind_splits intro: read_origin_ok)
qed (rule TrueI)+

section \<open>Memory provides it\<close>

definition mem_ok :: "mem_store \<Rightarrow> bool" where
  "mem_ok s \<longleftrightarrow> distinct (map fst (ms_entries s)) \<and> distinct (ms_order s) \<and> set (ms_order s) = fst ` set (ms_entries s) \<and>
     length (ms_entries s) \<le> ms_limit s \<and> 0 < ms_limit s \<and> (\<forall>e\<in>set (ms_entries s). ok_origin (me_origin (snd e)))"

definition mem_known :: "int \<times> mem_store \<Rightarrow> origins" where
  "mem_known = (\<lambda>(now, s) k.
     (case map_of (ms_entries s) k of None \<Rightarrow> None | Some e \<Rightarrow> if now < me_expires e then Some (me_origin e) else None))"

definition mem_room :: "int \<times> mem_store \<Rightarrow> nat \<Rightarrow> bool" where
  "mem_room = (\<lambda>(now, s) n. length (ms_entries s) + n \<le> ms_limit s)"

lemma keys_put: "fst ` set (put_key k v m) = insert k (fst ` set m)"
  by (auto simp: put_key_def image_iff)

lemma keys_del: "fst ` set (del_key k m) = fst ` set m - {k}"
  by (auto simp: del_key_def image_iff)

lemma distinct_put: "distinct (map fst m) \<Longrightarrow> distinct (map fst (put_key k v m))"
  by (induction m) (auto simp: put_key_def)

lemma distinct_del: "distinct (map fst m) \<Longrightarrow> distinct (map fst (del_key k m))"
  by (induction m) (auto simp: del_key_def)

lemma length_del_le: "length (del_key k m) \<le> length m"
  by (simp add: del_key_def)

lemma length_del: "k \<in> fst ` set m \<Longrightarrow> length (del_key k m) < length m"
  using length_filter_less [of _ m "\<lambda>e. fst e \<noteq> k"] by (auto simp: del_key_def)

lemma length_put: "length (put_key k v m) = Suc (length (del_key k m))"
  by (simp add: put_key_def del_key_def)

lemma in_put: "e \<in> set (put_key k v m) \<Longrightarrow> e = (k, v) \<or> e \<in> set m"
  by (auto simp: put_key_def)

lemma in_del: "e \<in> set (del_key k m) \<Longrightarrow> e \<in> set m"
  by (auto simp: del_key_def)

lemmas mem_facts = keys_put keys_del distinct_put distinct_del length_put

lemma remove1_distinct: "distinct xs \<Longrightarrow> set (remove1 k xs) = set xs - {k}"
  by simp

lemma mem_ok_drop:
  assumes "mem_ok s"
  shows "mem_ok (s\<lparr>ms_entries := del_key k (ms_entries s), ms_order := remove1 k (ms_order s)\<rparr>)"
  using assms length_del_le [of k "ms_entries s"] by (auto simp: mem_ok_def mem_facts dest: in_del)

lemma mem_ok_renew:
  assumes "mem_ok s" "map_of (ms_entries s) k = Some e" "me_origin e' = me_origin e"
  shows "mem_ok (s\<lparr>ms_entries := put_key k e' (ms_entries s), ms_order := remove1 k (ms_order s) @ [k]\<rparr>)"
proof -
  have i: "(k, e) \<in> set (ms_entries s)" using assms(2) by (rule map_of_SomeD)
  then have "length (del_key k (ms_entries s)) < length (ms_entries s)" by (intro length_del) force
  moreover have "ok_origin (me_origin e')" using assms(1,3) i by (fastforce simp: mem_ok_def)
  ultimately show ?thesis using assms(1) by (auto simp: mem_ok_def mem_facts dest: in_put)
qed

lemma del_key_same: "map_of m k = None \<Longrightarrow> del_key k m = m"
  by (induction m) (auto simp: del_key_def split: if_splits)

lemma mem_lookup_key_result:
  assumes "mem_ok s" "mem_lookup_key now k (s, m) = (s', m')"
  shows "mem_ok s' \<and> mem_known (now, s') = mem_known (now, s) \<and>
    m' = (case mem_known (now, s) k of None \<Rightarrow> m | Some g \<Rightarrow> m(k \<mapsto> g)) \<and> ms_limit s' = ms_limit s \<and>
    (\<forall>x e. map_of (ms_entries s) x = Some e \<longrightarrow> me_expires e = now + responsesStateTTL \<longrightarrow> map_of (ms_entries s') x = Some e) \<and>
    (mem_known (now, s) k \<noteq> None \<longrightarrow> (\<exists>e. map_of (ms_entries s') k = Some e \<and> me_expires e = now + responsesStateTTL))"
proof (cases "map_of (ms_entries s) k")
  case None
  then show ?thesis using assms by (auto simp: mem_lookup_key_def mem_known_def del_key_same)
next
  case (Some e)
  show ?thesis
  proof (cases "now < me_expires e")
    case True
    then show ?thesis
      using assms(2) Some mem_ok_renew [OF assms(1) Some, of "e\<lparr>me_expires := now + responsesStateTTL\<rparr>"]
      by (auto simp: mem_lookup_key_def mem_known_def fun_eq_iff)
  next
    case False
    then show ?thesis using assms(2) Some mem_ok_drop [OF assms(1), of k]
      by (auto simp: mem_lookup_key_def mem_known_def fun_eq_iff)
  qed
qed

lemma mem_lookup_result:
  assumes "mem_ok s" "mem_lookup now ks s = (s', m)"
  shows "mem_ok s' \<and> mem_known (now, s') = mem_known (now, s) \<and> ms_limit s' = ms_limit s \<and>
    (\<forall>x. m x = (if x \<in> set ks then mem_known (now, s) x else None)) \<and>
    (\<forall>x. m x \<noteq> None \<longrightarrow> (\<exists>e. map_of (ms_entries s') x = Some e \<and> me_expires e = now + responsesStateTTL))"
proof -
  have "fold (mem_lookup_key now) ks (s, m0) = (s', m) \<Longrightarrow> mem_ok s \<Longrightarrow>
    \<forall>x. m0 x \<noteq> None \<longrightarrow> m0 x = mem_known (now, s) x \<and> (\<exists>e. map_of (ms_entries s) x = Some e \<and> me_expires e = now + responsesStateTTL) \<Longrightarrow>
    mem_ok s' \<and> mem_known (now, s') = mem_known (now, s) \<and> ms_limit s' = ms_limit s \<and>
    (\<forall>x. m x = (if x \<in> set ks then mem_known (now, s) x else m0 x)) \<and>
    (\<forall>x. m x \<noteq> None \<longrightarrow> (\<exists>e. map_of (ms_entries s') x = Some e \<and> me_expires e = now + responsesStateTTL))" for m0
  proof (induction ks arbitrary: s m0)
    case (Cons k ks)
    obtain s1 m1 where 1: "mem_lookup_key now k (s, m0) = (s1, m1)" by fastforce
    note r = mem_lookup_key_result [OF Cons.prems(2) 1]
    have "fold (mem_lookup_key now) ks (s1, m1) = (s', m)" using Cons.prems(1) 1 by simp
    moreover have "\<forall>x. m1 x \<noteq> None \<longrightarrow> m1 x = mem_known (now, s1) x \<and>
        (\<exists>e. map_of (ms_entries s1) x = Some e \<and> me_expires e = now + responsesStateTTL)"
    proof (intro allI impI)
      fix x assume x: "m1 x \<noteq> None"
      show "m1 x = mem_known (now, s1) x \<and> (\<exists>e. map_of (ms_entries s1) x = Some e \<and> me_expires e = now + responsesStateTTL)"
      proof (cases "x = k \<and> mem_known (now, s) k \<noteq> None")
        case True
        then show ?thesis using r by auto
      next
        case False
        then have "m0 x = m1 x" using r by (auto split: option.splits)
        then show ?thesis using Cons.prems(3) x r by metis
      qed
    qed
    ultimately have ih: "mem_ok s' \<and> mem_known (now, s') = mem_known (now, s1) \<and> ms_limit s' = ms_limit s1 \<and>
        (\<forall>x. m x = (if x \<in> set ks then mem_known (now, s1) x else m1 x)) \<and>
        (\<forall>x. m x \<noteq> None \<longrightarrow> (\<exists>e. map_of (ms_entries s') x = Some e \<and> me_expires e = now + responsesStateTTL))"
      using Cons.IH r by blast
    have "m1 x = (if x = k then mem_known (now, s) k else m0 x)" for x
      using r Cons.prems(3) by (cases "mem_known (now, s) k") auto
    with ih r show ?case by auto
  qed auto
  from this [of Map.empty] assms show ?thesis by (simp add: mem_lookup_def)
qed

lemma drop_expired_ok:
  assumes "mem_ok s"
  shows "mem_ok (drop_expired k s) \<and> map_of (ms_entries (drop_expired k s)) = (map_of (ms_entries s))(k := None) \<and>
    ms_limit (drop_expired k s) = ms_limit s \<and> length (ms_entries (drop_expired k s)) \<le> length (ms_entries s)"
  using assms mem_ok_drop [OF assms, of k] length_del_le [of k "ms_entries s"]
  by (auto simp: drop_expired_def fun_eq_iff)

lemma make_room_ok:
  assumes "mem_ok s"
  obtains s1 where "make_room s = Inr s1" "mem_ok s1" "ms_limit s1 = ms_limit s" "length (ms_entries s1) < ms_limit s1"
    "\<And>x e. map_of (ms_entries s1) x = Some e \<Longrightarrow> map_of (ms_entries s) x = Some e"
    "length (ms_entries s1) \<le> length (ms_entries s)" "length (ms_entries s) < ms_limit s \<Longrightarrow> s1 = s"
proof (cases "length (ms_entries s) < ms_limit s")
  case True
  then show thesis using that [of s] assms by (simp add: make_room_def)
next
  case False
  with assms have full: "length (ms_entries s) = ms_limit s" "0 < ms_limit s" by (auto simp: mem_ok_def)
  then obtain k0 where "k0 \<in> fst ` set (ms_entries s)" by (cases "ms_entries s") auto
  then obtain k ks where o: "ms_order s = k # ks" using assms by (cases "ms_order s") (auto simp: mem_ok_def)
  let ?s1 = "s\<lparr>ms_entries := del_key k (ms_entries s), ms_order := ks\<rparr>"
  have k: "k \<in> fst ` set (ms_entries s)" using assms o by (auto simp: mem_ok_def)
  have "mem_ok ?s1" using mem_ok_drop [OF assms, of k] o by simp
  moreover have "length (ms_entries ?s1) < ms_limit ?s1" using length_del [OF k] full by simp
  moreover have "make_room s = Inr ?s1" using False o by (simp add: make_room_def)
  moreover have "map_of (ms_entries s) x = Some e" if "map_of (ms_entries ?s1) x = Some e" for x e
    using that by (auto split: if_splits)
  ultimately show thesis using that [of ?s1] False full by simp
qed

lemma mem_remember_key_result:
  assumes "mem_ok s" "ok_origin g"
  obtains s' where "mem_remember_key now k g s = Inr s'" "mem_ok s'" "ms_limit s' = ms_limit s"
    "length (ms_entries s') \<le> Suc (length (ms_entries s))"
    "mem_known (now, s) k \<noteq> None \<Longrightarrow> s' = s"
    "\<And>x h. mem_known (now, s') x = Some h \<Longrightarrow> mem_known (now, s) x = Some h \<or> x = k \<and> h = g \<and> mem_known (now, s) k = None"
    "length (ms_entries s) < ms_limit s \<Longrightarrow> mem_known (now, s) k = None \<Longrightarrow> map_of (ms_entries s') =
       (map_of (ms_entries s))(k \<mapsto> \<lparr>me_origin = g, me_expires = now + responsesStateTTL\<rparr>)"
proof (cases "mem_known (now, s) k")
  case (Some h)
  then have "mem_remember_key now k g s = Inr s"
    by (auto simp: mem_remember_key_def mem_known_def split: option.splits if_splits)
  then show thesis using that [of s] assms(1) Some by simp
next
  case None
  let ?s0 = "drop_expired k s" and ?e = "\<lparr>me_origin = g, me_expires = now + responsesStateTTL\<rparr>"
  note d = drop_expired_ok [OF assms(1), of k]
  have d1: "mem_ok ?s0" using d by simp
  obtain s1 where s1: "make_room ?s0 = Inr s1" "mem_ok s1" "ms_limit s1 = ms_limit ?s0" "length (ms_entries s1) < ms_limit s1"
    "\<And>x e. map_of (ms_entries s1) x = Some e \<Longrightarrow> map_of (ms_entries ?s0) x = Some e"
    "length (ms_entries s1) \<le> length (ms_entries ?s0)" "length (ms_entries ?s0) < ms_limit ?s0 \<Longrightarrow> s1 = ?s0"
    by (rule make_room_ok [OF d1]) (rule that)
  let ?s' = "s1\<lparr>ms_entries := put_key k ?e (ms_entries s1), ms_order := ms_order s1 @ [k]\<rparr>"
  have k1: "map_of (ms_entries s1) k = None" using s1(5) [of k] d by (cases "map_of (ms_entries s1) k") simp_all
  then have kn: "k \<notin> fst ` set (ms_entries s1)" by (simp add: map_of_eq_None_iff)
  have r: "mem_remember_key now k g s = Inr ?s'"
    using None s1(1) by (auto simp: mem_remember_key_def mem_known_def split: option.splits if_splits)
  have len: "length (ms_entries ?s') = Suc (length (ms_entries s1))" using k1 by (simp add: length_put del_key_same)
  have ok: "mem_ok ?s'"
    using s1(2,4) kn len assms(2) by (auto simp: mem_ok_def mem_facts dest: in_put)
  have first: "mem_known (now, s) x = Some h \<or> x = k \<and> h = g \<and> mem_known (now, s) k = None"
    if kn': "mem_known (now, ?s') x = Some h" for x h
  proof (cases "x = k")
    case False
    then obtain e where "map_of (ms_entries s1) x = Some e" "now < me_expires e" "h = me_origin e"
      using kn' by (auto simp: mem_known_def split: option.splits if_splits)
    moreover from this have "map_of (ms_entries s) x = Some e" using s1(5) d False by fastforce
    ultimately show ?thesis by (simp add: mem_known_def)
  next
    case True
    then show ?thesis using kn' None by (simp add: mem_known_def)
  qed
  have all: "map_of (ms_entries ?s') = (map_of (ms_entries s))(k \<mapsto> ?e)" if "length (ms_entries s) < ms_limit s"
  proof -
    have "s1 = ?s0" using that d by (intro s1(7)) simp
    then show ?thesis using d by simp
  qed
  show thesis
    by (rule that [OF r ok]) (use s1(3,6) d len None first all in auto)
qed

text \<open>
  A full store drops its oldest key for a new one, so an origin that was known can be dropped and then
  be set anew by the same call; with room for all keys every known origin stays.
\<close>

lemma mem_remember_result:
  assumes "mem_remember now es s = (r, s')" "mem_ok s" "\<forall>e\<in>set es. ok_origin (snd e)"
  shows "r = Inr () \<and> mem_ok s' \<and> ms_limit s' = ms_limit s \<and>
    (\<forall>x h. mem_known (now, s') x = Some h \<longrightarrow> mem_known (now, s) x = Some h \<or> (x, h) \<in> set es)"
  using assms
proof (induction es arbitrary: s)
  case (Cons e es)
  obtain k g where e: "e = (k, g)" by (cases e)
  have g: "ok_origin g" using Cons.prems(3) e by simp
  obtain s1 where s1: "mem_remember_key now k g s = Inr s1" "mem_ok s1" "ms_limit s1 = ms_limit s"
    "\<And>x h. mem_known (now, s1) x = Some h \<Longrightarrow> mem_known (now, s) x = Some h \<or> x = k \<and> h = g \<and> mem_known (now, s) k = None"
    by (rule mem_remember_key_result [OF Cons.prems(2) g, of now k]) blast
  have "mem_remember now es s1 = (r, s')" using Cons.prems(1) s1(1) e by simp
  from Cons.IH [OF this s1(2)] Cons.prems(3)
  have ih: "r = Inr ()" "mem_ok s'" "ms_limit s' = ms_limit s1"
    "\<And>x h. mem_known (now, s') x = Some h \<Longrightarrow> mem_known (now, s1) x = Some h \<or> (x, h) \<in> set es"
    by auto
  have "mem_known (now, s) x = Some h \<or> (x, h) \<in> set (e # es)" if "mem_known (now, s') x = Some h" for x h
    using ih(4) [OF that] s1(4) [of x h] e by auto
  with ih s1(3) show ?case by auto
qed simp

lemma mem_remember_exact:
  assumes "mem_remember now es s = (Inr (), s')" "mem_ok s" "\<forall>e\<in>set es. ok_origin (snd e)" "distinct (map fst es)"
    "length (ms_entries s) + length es \<le> ms_limit s"
  shows "map_of (ms_entries s') x = (if mem_known (now, s) x \<noteq> None then map_of (ms_entries s) x else
    case map_of es x of None \<Rightarrow> map_of (ms_entries s) x
    | Some g \<Rightarrow> Some \<lparr>me_origin = g, me_expires = now + responsesStateTTL\<rparr>)"
  using assms
proof (induction es arbitrary: s)
  case (Cons e es)
  obtain k g where e: "e = (k, g)" by (cases e)
  let ?e = "\<lparr>me_origin = g, me_expires = now + responsesStateTTL\<rparr>"
  have g: "ok_origin g" using Cons.prems(3) e by simp
  have nk: "map_of es k = None" using Cons.prems(4) e by (simp add: map_of_eq_None_iff)
  obtain s1 where s1: "mem_remember_key now k g s = Inr s1" "mem_ok s1" "ms_limit s1 = ms_limit s"
    "length (ms_entries s1) \<le> Suc (length (ms_entries s))" "mem_known (now, s) k \<noteq> None \<Longrightarrow> s1 = s"
    "\<And>x h. mem_known (now, s1) x = Some h \<Longrightarrow> mem_known (now, s) x = Some h \<or> x = k \<and> h = g \<and> mem_known (now, s) k = None"
    "length (ms_entries s) < ms_limit s \<Longrightarrow> mem_known (now, s) k = None \<Longrightarrow> map_of (ms_entries s1) = (map_of (ms_entries s))(k \<mapsto> ?e)"
    by (rule mem_remember_key_result [OF Cons.prems(2) g, of now k]) (rule that)
  have "mem_remember now es s1 = (Inr (), s')" using Cons.prems(1) s1(1) e by simp
  from Cons.IH [OF this s1(2)] Cons.prems(3,4,5) s1(3,4) e
  have ih: "map_of (ms_entries s') x = (if mem_known (now, s1) x \<noteq> None then map_of (ms_entries s1) x else
    case map_of es x of None \<Rightarrow> map_of (ms_entries s1) x
    | Some g \<Rightarrow> Some \<lparr>me_origin = g, me_expires = now + responsesStateTTL\<rparr>)"
    by simp
  show ?case
  proof (cases "mem_known (now, s) k")
    case None
    have "map_of (ms_entries s1) = (map_of (ms_entries s))(k \<mapsto> ?e)" using s1(7) None Cons.prems(5) by simp
    moreover from this have "mem_known (now, s1) = (mem_known (now, s))(k \<mapsto> g)"
      by (auto simp: mem_known_def fun_eq_iff)
    ultimately show ?thesis using ih nk None e by (auto split: option.splits)
  next
    case (Some h)
    then have "s1 = s" using s1(5) by simp
    then show ?thesis using ih Some e by (auto split: option.splits)
  qed
qed simp

definition memory_lookup :: "string list \<Rightarrow> int \<times> mem_store \<Rightarrow> (gerr + origins) \<times> (int \<times> mem_store)" where
  "memory_lookup ks = (\<lambda>(now, s). case mem_lookup now ks s of (s', m) \<Rightarrow> (Inr m, (now, s')))"

definition memory_remember :: "(string \<times> origin) list \<Rightarrow> int \<times> mem_store \<Rightarrow> (gerr + unit) \<times> (int \<times> mem_store)" where
  "memory_remember es = (\<lambda>(now, s). case mem_remember now es s of (r, s') \<Rightarrow> (r, (now, s')))"

definition memory_wait :: "int \<Rightarrow> int \<times> mem_store \<Rightarrow> int \<times> mem_store" where
  "memory_wait d = (\<lambda>(now, s). (now + d, s))"

lemma memory_lookupD:
  assumes "memory_lookup ks p = (r, p')"
  obtains m where "r = Inr m" "fst p' = fst p" "mem_lookup (fst p) ks (snd p) = (snd p', m)"
  using assms by (auto simp: memory_lookup_def split: prod.splits)

lemma memory_rememberD:
  assumes "memory_remember es p = (r, p')"
  shows "fst p' = fst p" "mem_remember (fst p) es (snd p) = (r, snd p')"
  using assms by (auto simp: memory_remember_def split: prod.splits)

interpretation memory_store: state_store memory_lookup memory_remember mem_known "\<lambda>p. mem_ok (snd p)" "\<lambda>_ _. True" mem_room memory_wait
proof (unfold_locales, goal_cases)
  case (1 s ks r s')
  then show ?case using mem_lookup_result by (auto elim!: memory_lookupD)
next
  case (2 s ks r s')
  obtain m where "fst s' = fst s" "mem_lookup (fst s) ks (snd s) = (snd s', m)" using 2(2) by (rule memory_lookupD)
  then show ?case using mem_lookup_result [OF 2(1)] by (metis prod.collapse)
next
  case (3 s ks m s' k)
  obtain m' where "Inr m = (Inr m' :: gerr + origins)" "mem_lookup (fst s) ks (snd s) = (snd s', m')"
    using 3(2) by (rule memory_lookupD)
  then show ?case using mem_lookup_result [OF 3(1), of "fst s" ks "snd s'" m'] by simp
next
  case (4 s ks)
  then show ?case by (auto simp: memory_lookup_def split: prod.splits)
next
  case (5 s ks m s' k g d)
  obtain m' where l: "Inr m = (Inr m' :: gerr + origins)" "fst s' = fst s" "mem_lookup (fst s) ks (snd s) = (snd s', m')"
    using 5(2) by (rule memory_lookupD)
  note r = mem_lookup_result [OF 5(1) l(3)]
  have "m' k \<noteq> None" using l(1) 5(3) by simp
  with r obtain e where e: "map_of (ms_entries (snd s')) k = Some e" "me_expires e = fst s + responsesStateTTL" by blast
  have "mem_known (fst s, snd s') k = Some g" using r l(1) 5(3) by (auto split: if_splits)
  then have "me_origin e = g" using e by (auto simp: mem_known_def split: if_splits)
  then show ?case using e l(2) 5(5) by (simp add: mem_known_def memory_wait_def case_prod_beta)
next
  case (6 s es q s')
  then show ?case using mem_remember_result [OF memory_rememberD(2) [OF 6(4)]] by simp
next
  case (7 s es q s' k g)
  have k: "mem_known (fst s, snd s') k = Some g" using 7(5) memory_rememberD(1) [OF 7(4)] by (metis prod.collapse)
  have "mem_known (fst s, snd s) k = Some g \<or> (k, g) \<in> set es"
    using mem_remember_result [OF memory_rememberD(2) [OF 7(4)] 7(1,2)] k by blast
  then show ?case using 7(3) by auto
next
  case (8 s k es s')
  have "length (ms_entries (snd s)) + length es \<le> ms_limit (snd s)" using 8(5) by (simp add: mem_room_def case_prod_beta)
  from mem_remember_exact [OF memory_rememberD(2) [OF 8(6)] 8(1,3,4) this, of k] memory_rememberD(1) [OF 8(6)]
  show ?case by (auto simp: mem_known_def case_prod_beta split: option.splits if_splits)
next
  case (9 s k es s' g d)
  have "length (ms_entries (snd s)) + length es \<le> ms_limit (snd s)" using 9(5) by (simp add: mem_room_def case_prod_beta)
  from mem_remember_exact [OF memory_rememberD(2) [OF 9(6)] 9(1,3,4) this, of k] memory_rememberD(1) [OF 9(6)] 9(7-)
  show ?case by (auto simp: mem_known_def memory_wait_def case_prod_beta split: option.splits if_splits)
next
  case (11 s d)
  then show ?case by (simp add: memory_wait_def case_prod_beta)
next
  case (13 s k g)
  then obtain e where "(k, e) \<in> set (ms_entries (snd s))" "g = me_origin e"
    by (auto simp: mem_known_def case_prod_beta split: option.splits if_splits dest: map_of_SomeD)
  then show ?case using 13(1) by (fastforce simp: mem_ok_def)
qed (rule TrueI)+

section \<open>The store in use provides it\<close>

definition current_known :: "state_world \<Rightarrow> origins" where
  "current_known = (\<lambda>(w, s). if cfg_redis (w_cfg w) then redis_known w else mem_known (w_now w, s))"

definition current_usable :: "state_world \<Rightarrow> string \<Rightarrow> bool" where
  "current_usable = (\<lambda>(w, s) k. cfg_redis (w_cfg w) \<longrightarrow> redis_usable w k)"

definition current_room :: "state_world \<Rightarrow> nat \<Rightarrow> bool" where
  "current_room = (\<lambda>(w, s) n. cfg_redis (w_cfg w) \<or> mem_room (w_now w, s) n)"

definition current_wait :: "int \<Rightarrow> state_world \<Rightarrow> state_world" where
  "current_wait d = (\<lambda>(w, s). (wait_world d w, s))"

definition current_wf :: "state_world \<Rightarrow> bool" where
  "current_wf = (\<lambda>(w, s). mem_ok s)"

lemma redis_keeps_cfg:
  "redis_lookup ks w = (r, w') \<Longrightarrow> w_cfg w' = w_cfg w"
  "redis_remember es w = (q, w') \<Longrightarrow> w_cfg w' = w_cfg w"
  by (auto simp: redis_lookup_def redis_remember_def split: prod.splits sum.splits option.splits list.splits if_splits
      elim!: redis_cmd_cases)

lemma current_lookup_cases:
  assumes "current_lookup ks p = (r, p')"
  obtains (in_redis) w s w' where "cfg_redis (w_cfg w)" "p = (w, s)" "p' = (w', s)" "redis_lookup ks w = (r, w')" "w_cfg w' = w_cfg w"
  | (in_memory) w s s' where "\<not> cfg_redis (w_cfg w)" "p = (w, s)" "p' = (w, s')" "memory_lookup ks (w_now w, s) = (r, (w_now w, s'))"
proof -
  obtain w s where p: "p = (w, s)" by (cases p)
  show thesis
  proof (cases "cfg_redis (w_cfg w)")
    case True
    then show thesis using assms p in_redis [of w s] redis_keeps_cfg(1)
      by (auto simp: current_lookup_def split: prod.splits)
  next
    case False
    then show thesis using assms p in_memory [of w s] by (auto simp: current_lookup_def memory_lookup_def split: prod.splits)
  qed
qed

lemma current_remember_cases:
  assumes "current_remember es p = (r, p')"
  obtains (in_redis) w s w' where "cfg_redis (w_cfg w)" "p = (w, s)" "p' = (w', s)" "redis_remember es w = (r, w')" "w_cfg w' = w_cfg w"
  | (in_memory) w s s' where "\<not> cfg_redis (w_cfg w)" "p = (w, s)" "p' = (w, s')" "memory_remember es (w_now w, s) = (r, (w_now w, s'))"
proof -
  obtain w s where p: "p = (w, s)" by (cases p)
  show thesis
  proof (cases "cfg_redis (w_cfg w)")
    case True
    then show thesis using assms p in_redis [of w s] redis_keeps_cfg(2)
      by (auto simp: current_remember_def split: prod.splits)
  next
    case False
    then show thesis using assms p in_memory [of w s] by (auto simp: current_remember_def memory_remember_def split: prod.splits)
  qed
qed

lemmas current_defs = current_known_def current_usable_def current_room_def current_wait_def current_wf_def

lemma wait_cfg [simp]: "w_cfg (wait_world d w) = w_cfg w" "w_now (wait_world d w) = w_now w + d"
  by (simp_all add: wait_world_def)

interpretation current_store: state_store current_lookup current_remember current_known current_wf current_usable current_room current_wait
proof (unfold_locales, goal_cases)
  case (1 s ks r s')
  from 1(2) show ?case
    by (cases rule: current_lookup_cases) (use 1(1) memory_store.lookup_wf in \<open>fastforce simp: current_defs\<close>)+
next
  case (2 s ks r s')
  from 2(2) show ?case
    by (cases rule: current_lookup_cases)
      (use 2(1) redis_store.lookup_known memory_store.lookup_known in \<open>fastforce simp: current_defs\<close>)+
next
  case (3 s ks m s' k)
  from 3(2) show ?case
    by (cases rule: current_lookup_cases)
      (use 3(1) redis_store.lookup_value memory_store.lookup_value in \<open>fastforce simp: current_defs\<close>)+
next
  case (4 s ks)
  obtain w m where s: "s = (w, m)" by (cases s)
  show ?case
  proof (cases "cfg_redis (w_cfg w)")
    case True
    then obtain o' w' where "redis_lookup ks w = (Inr o', w')" using redis_lookup_works [of ks w] 4 s by (auto simp: current_defs)
    then show ?thesis using True s by (simp add: current_lookup_def)
  qed (simp add: s current_lookup_def case_prod_beta)
next
  case (5 s ks m s' k g d)
  from 5(2) show ?case
  proof (cases rule: current_lookup_cases)
    case (in_redis w t w')
    then show ?thesis using redis_lookup_refresh [of ks w m w' k g d] 5 by (simp add: current_defs)
  next
    case (in_memory w t t')
    then show ?thesis using memory_store.lookup_refresh [of "(w_now w, t)" ks m "(w_now w, t')" k g d] 5
      by (simp add: current_defs memory_wait_def)
  qed
next
  case (6 s es q s')
  from 6(4) show ?case
    by (cases rule: current_remember_cases)
      (use 6(1) memory_store.remember_wf [OF _ 6(2,3)] in \<open>fastforce simp: current_defs\<close>)+
next
  case (7 s es q s' k g)
  from 7(4) show ?case
    by (cases rule: current_remember_cases)
      (use 7(1,5) redis_store.remember_first [OF _ 7(2,3), where k = k and g = g] memory_store.remember_first [OF _ 7(2,3), where k = k and g = g]
        in \<open>fastforce simp: current_defs\<close>)+
next
  case (8 s k es s')
  from 8(6) show ?case
    by (cases rule: current_remember_cases)
      (use 8(1,2,5) redis_store.remember_all [OF _ _ 8(3,4), where k = k] memory_store.remember_all [OF _ _ 8(3,4), where k = k]
        in \<open>fastforce simp: current_defs\<close>)+
next
  case (9 s k es s' g d)
  from 9(6) show ?case
  proof (cases rule: current_remember_cases)
    case (in_redis w t w')
    then show ?thesis using redis_known_kept [of es w w' k g d] 9 by (simp add: current_defs)
  next
    case (in_memory w t t')
    then show ?thesis using memory_store.remember_kept [where s = "(w_now w, t)" and es = es and s' = "(w_now w, t')" and k = k and g = g and d = d] 9
      by (simp add: current_defs memory_wait_def)
  qed
next
  case (10 s es k q s')
  from 10(5) show ?case
    by (cases rule: current_remember_cases)
      (use 10(4) redis_remember_usable [OF _ 10(3,2), where k = k] in \<open>fastforce simp: current_defs\<close>)+
next
  case (11 s d)
  then show ?case by (simp add: current_defs case_prod_beta)
next
  case (12 s k d)
  then show ?case using redis_store.wait_usable by (simp add: current_defs case_prod_beta)
next
  case (13 s k g)
  then show ?case using redis_store.known_ok memory_store.known_ok [where s = "(w_now (fst s), snd s)"]
    by (auto simp: current_defs case_prod_beta split: if_splits)
qed

end
