(* ===== verification/ResponsesState.thy ===== *)
theory ResponsesState
  imports StateStore MultiKey
begin

text \<open>
  \<open>service/responses_state.go\<close>: before a channel is selected, the request of a continued conversation
  is bound to the provider, channel and key its history came from, and every answer records its own
  origin. The library \<open>gjson\<close> and the digest of \<open>crypto/sha256\<close> are arguments.
\<close>

section \<open>The libraries\<close>

text \<open>The functions of \<open>gjson\<close> the code calls; \<open>'g\<close> is its \<open>Result\<close>.\<close>

record 'g gjson =
  gj_get_bytes :: "string \<Rightarrow> string \<Rightarrow> 'g"
  gj_parse_bytes :: "string \<Rightarrow> 'g"
  gj_get :: "'g \<Rightarrow> string \<Rightarrow> 'g"
  gj_string :: "'g \<Rightarrow> string"
  gj_is_string :: "'g \<Rightarrow> bool"
  gj_exists :: "'g \<Rightarrow> bool"
  gj_array :: "'g \<Rightarrow> 'g list"

text \<open>What the request context carries for this file; a number that was never set reads as 0.\<close>

record state_ctx =
  sc_path :: string
  sc_body :: "gerr + string"
  sc_header :: string
  sc_retry :: retry_ctx
  sc_id :: int
  sc_channel_id :: int
  sc_key_index :: int
  sc_actual_key :: string
  sc_state_index :: int
  sc_state_print :: string
  sc_cached_index :: "int option"

section \<open>Keys and references\<close>

text \<open>\<open>sha s\<close> is the hexadecimal text of the digest of \<open>s\<close>.\<close>

definition responsesKeyFingerprint :: "(string \<Rightarrow> string) \<Rightarrow> string \<Rightarrow> string" where
  "responsesKeyFingerprint sha key = (if key = [] then [] else sha key)"

definition trim_slashes :: "string \<Rightarrow> string" where
  "trim_slashes p = rev (dropWhile (\<lambda>c. c = CHR ''/'') (rev p))"

definition IsResponsesStatePath :: "string \<Rightarrow> bool" where
  "IsResponsesStatePath path \<longleftrightarrow> trim_slashes path = ''/v1/responses'' \<or> trim_slashes path = ''/v1/responses/compact''"

definition state_key_text :: "int \<Rightarrow> string \<Rightarrow> string \<Rightarrow> string" where
  "state_key_text userID kind v = render (JArr [JNum (itoa userID), JStr kind, JStr v])"

definition responsesStateKey :: "(string \<Rightarrow> string) \<Rightarrow> int \<Rightarrow> string \<Rightarrow> string \<Rightarrow> string" where
  "responsesStateKey sha userID kind v = ''responses_state:v1:'' @ sha (state_key_text userID kind v)"

record state_reference =
  sr_key :: string
  sr_bound :: bool

definition reference :: "(string \<Rightarrow> string) \<Rightarrow> int \<Rightarrow> string \<Rightarrow> string \<Rightarrow> bool \<Rightarrow> state_reference list" where
  "reference sha u kind v bound = (if v = [] then [] else [\<lparr>sr_key = responsesStateKey sha u kind v, sr_bound = bound\<rparr>])"

definition item_references :: "'g gjson \<Rightarrow> (string \<Rightarrow> string) \<Rightarrow> int \<Rightarrow> 'g \<Rightarrow> state_reference list" where
  "item_references G sha u item =
     (let kind = gj_string G (gj_get G item ''type'');
          encrypted = gj_string G (gj_get G item ''encrypted_content'');
          i = gj_string G (gj_get G item ''id'')
      in if kind = ''reasoning'' \<or> kind = ''compaction''
         then (if encrypted \<noteq> [] then reference sha u ''encrypted'' encrypted False else reference sha u ''item'' i True)
         else if kind = ''item_reference'' then reference sha u ''item'' i True
         else [])"

definition conversation_text :: "'g gjson \<Rightarrow> 'g \<Rightarrow> string" where
  "conversation_text G v = (if gj_is_string G v then gj_string G v else gj_string G (gj_get G v ''id''))"

definition inputStateReferences :: "'g gjson \<Rightarrow> (string \<Rightarrow> string) \<Rightarrow> int \<Rightarrow> string \<Rightarrow> state_reference list" where
  "inputStateReferences G sha u body =
     reference sha u ''response'' (gj_string G (gj_get_bytes G body ''previous_response_id'')) True @
     reference sha u ''conversation'' (conversation_text G (gj_get_bytes G body ''conversation'')) True @
     concat (map (item_references G sha u) (gj_array G (gj_get_bytes G body ''input'')))"

section \<open>Binding a request\<close>

definition incompatible_providers :: gerr where
  "incompatible_providers = Msg ''Responses history contains incompatible providers; refusing to discard thinking or compaction''"

definition state_key_changed :: gerr where
  "state_key_changed = Msg ''The original Responses state key has changed''"

text \<open>The provider of the history: every origin that names one names the same.\<close>

fun target_provider :: "origins \<Rightarrow> string \<Rightarrow> state_reference list \<Rightarrow> gerr + string" where
  "target_provider m target [] = Inr target"
| "target_provider m target (r # rs) =
     (case m (sr_key r) of
        None \<Rightarrow> target_provider m target rs
      | Some g \<Rightarrow>
          if og_provider g = [] then target_provider m target rs
          else if target \<noteq> [] \<and> target \<noteq> og_provider g then Inl incompatible_providers
          else target_provider m (og_provider g) rs)"

text \<open>
  An origin without a provider stands for the target when its channel has been given that provider
  since and still has the key. \<open>getChannel\<close> reads a channel, a missing one being an error; channels
  read once are kept in \<open>cache\<close>.
\<close>

definition effective_provider ::
  "(string \<Rightarrow> string) \<Rightarrow> (int \<Rightarrow> 's \<Rightarrow> (gerr + channel) \<times> 's) \<Rightarrow> string \<Rightarrow> origin \<Rightarrow> (int \<rightharpoonup> channel) \<Rightarrow> 's \<Rightarrow>
   (gerr + string) \<times> (int \<rightharpoonup> channel) \<times> 's" where
  "effective_provider sha getChannel target g cache s =
     (if og_provider g = [] \<and> target \<noteq> []
      then if og_print g = [] then (Inl incompatible_providers, cache, s)
           else case (case cache (og_channel g) of Some c \<Rightarrow> (Inr c, s) | None \<Rightarrow> getChannel (og_channel g) s) of
             (Inl _, s1) \<Rightarrow> (Inl (Msg ''The original Responses state channel is unavailable''), cache, s1)
           | (Inr c, s1) \<Rightarrow>
               (if c_id c \<noteq> og_channel g \<or> ChannelProvider c \<noteq> target then Inl incompatible_providers
                else (case GetKeyByIndex c (og_index g) of
                        Inl _ \<Rightarrow> Inl state_key_changed
                      | Inr key \<Rightarrow> if key = [] \<or> responsesKeyFingerprint sha key \<noteq> og_print g
                                   then Inl state_key_changed else Inr target),
                cache(og_channel g \<mapsto> c), s1)
      else (Inr (og_provider g), cache, s))"

record binding =
  bd_provider :: string
  bd_have :: bool
  bd_channel :: int
  bd_index :: int
  bd_print :: string

definition merge_origin :: "state_reference \<Rightarrow> origin \<Rightarrow> string \<Rightarrow> binding \<Rightarrow> gerr + binding" where
  "merge_origin r g effective b =
     (if bd_have b \<and> bd_provider b \<noteq> effective then Inl incompatible_providers
      else let b1 = b\<lparr>bd_provider := effective, bd_have := True\<rparr>
      in if sr_bound r \<or> og_provider g = []
         then if bd_channel b \<noteq> 0 \<and> (bd_channel b \<noteq> og_channel g \<or> bd_index b \<noteq> og_index g \<or> bd_print b \<noteq> og_print g)
              then Inl (Msg ''Responses history references incompatible upstream resources'')
              else Inr (b1\<lparr>bd_channel := og_channel g, bd_index := og_index g, bd_print := og_print g\<rparr>)
         else Inr b1)"

fun bind_references ::
  "(string \<Rightarrow> string) \<Rightarrow> (int \<Rightarrow> 's \<Rightarrow> (gerr + channel) \<times> 's) \<Rightarrow> string \<Rightarrow> string \<Rightarrow> origins \<Rightarrow> (int \<rightharpoonup> channel) \<Rightarrow>
   state_reference list \<Rightarrow> binding \<Rightarrow> 's \<Rightarrow> (gerr + binding) \<times> 's" where
  "bind_references sha getChannel explicit target m cache [] b s = (Inr b, s)"
| "bind_references sha getChannel explicit target m cache (r # rs) b s =
     (case m (sr_key r) of
        None \<Rightarrow>
          if explicit \<noteq> [] \<and> \<not> sr_bound r then bind_references sha getChannel explicit target m cache rs b s
          else (Inl (Msg ''Responses history origin is unknown or expired; resume with its original X-Linkinfra-Provider, resend complete portable history, or start a new conversation''), s)
      | Some g \<Rightarrow>
          (case effective_provider sha getChannel target g cache s of
             (Inl e, _, s1) \<Rightarrow> (Inl e, s1)
           | (Inr effective, cache1, s1) \<Rightarrow>
               (case merge_origin r g effective b of
                  Inl e \<Rightarrow> (Inl e, s1)
                | Inr b1 \<Rightarrow> bind_references sha getChannel explicit target m cache1 rs b1 s1)))"

definition bound_context :: "state_ctx \<Rightarrow> binding \<Rightarrow> state_ctx" where
  "bound_context c b =
     (let ctx = WithRetryProvider (sc_retry c) (bd_provider b)
      in if 0 < bd_channel b
         then c\<lparr>sc_retry := WithResponseStateChannel ctx (bd_channel b), sc_state_index := bd_index b, sc_state_print := bd_print b\<rparr>
         else c\<lparr>sc_retry := ctx\<rparr>)"

definition bindResponsesStateWithChannelLookup ::
  "'g gjson \<Rightarrow> (string \<Rightarrow> string) \<Rightarrow> (string list \<Rightarrow> 's \<Rightarrow> (gerr + origins) \<times> 's) \<Rightarrow>
   (int \<Rightarrow> 's \<Rightarrow> (gerr + channel) \<times> 's) \<Rightarrow> state_ctx \<Rightarrow> 's \<Rightarrow> (gerr + state_ctx) \<times> 's" where
  "bindResponsesStateWithChannelLookup G sha lookup getChannel c s =
     (if \<not> IsResponsesStatePath (sc_path c) then (Inr c, s)
      else case sc_body c of
        Inl e \<Rightarrow> (Inl e, s)
      | Inr body \<Rightarrow>
          (let explicit = to_lower (trim_space (sc_header c));
               refs = inputStateReferences G sha (sc_id c) body
           in if 128 < length explicit then (Inl (Msg ''X-Linkinfra-Provider is too long''), s)
              else if refs = [] then
                (Inr (if explicit \<noteq> [] then c\<lparr>sc_retry := WithRetryProvider (sc_retry c) explicit\<rparr> else c), s)
              else case lookup (map sr_key refs) s of
                (Inl e, s1) \<Rightarrow> (Inl e, s1)
              | (Inr m, s1) \<Rightarrow>
                  (case target_provider m explicit refs of
                     Inl e \<Rightarrow> (Inl e, s1)
                   | Inr target \<Rightarrow>
                       (case bind_references sha getChannel explicit target m Map.empty refs
                               \<lparr>bd_provider = explicit, bd_have = (explicit \<noteq> []), bd_channel = 0, bd_index = - 1, bd_print = []\<rparr> s1 of
                          (Inl e, s2) \<Rightarrow> (Inl e, s2)
                        | (Inr b, s2) \<Rightarrow> (Inr (bound_context c b), s2)))))"

text \<open>\<open>BindResponsesState\<close>: with the store in use and \<open>model.GetChannelById\<close>.\<close>

definition state_channel :: "int \<Rightarrow> state_world \<Rightarrow> (gerr + channel) \<times> state_world" where
  "state_channel i = (\<lambda>(w, s). case GetChannelById i True w of (r, w') \<Rightarrow> (r, (w', s)))"

definition BindResponsesState :: "'g gjson \<Rightarrow> (string \<Rightarrow> string) \<Rightarrow> state_ctx \<Rightarrow> state_world \<Rightarrow> (gerr + state_ctx) \<times> state_world" where
  "BindResponsesState G sha = bindResponsesStateWithChannelLookup G sha current_lookup state_channel"

section \<open>The key of a bound request\<close>

definition RestoreResponsesStateKey :: "(string \<Rightarrow> string) \<Rightarrow> state_ctx \<Rightarrow> channel \<Rightarrow> gerr + state_ctx" where
  "RestoreResponsesStateKey sha c ch =
     (if rx_state_channel (sc_retry c) \<le> 0 then Inr c
      else case GetKeyByIndex ch (sc_state_index c) of
        Inl _ \<Rightarrow> Inl (Msg ''The original Responses state key is unavailable'')
      | Inr key \<Rightarrow>
          if key = [] then Inl (Msg ''The original Responses state key is unavailable'')
          else if sc_state_print c \<noteq> [] \<and> sc_state_print c \<noteq> responsesKeyFingerprint sha key then Inl state_key_changed
          else Inr (c\<lparr>sc_cached_index := Some (sc_state_index c)\<rparr>))"

definition VerifyResponsesStateKey :: "(string \<Rightarrow> string) \<Rightarrow> state_ctx \<Rightarrow> gerr option" where
  "VerifyResponsesStateKey sha c =
     (if rx_state_channel (sc_retry c) \<le> 0 then None
      else if sc_key_index c \<noteq> sc_state_index c then Some (Msg ''Responses state cannot switch upstream keys'')
      else if sc_state_print c \<noteq> [] \<and> sc_state_print c \<noteq> responsesKeyFingerprint sha (sc_actual_key c)
      then Some (Msg ''Responses state cannot switch upstream keys'')
      else None)"

section \<open>Recording an answer\<close>

definition item_marks :: "'g gjson \<Rightarrow> 'g \<Rightarrow> (string \<times> string) list" where
  "item_marks G v =
     (''item'', gj_string G (gj_get G v ''id'')) #
     (if gj_string G (gj_get G v ''type'') \<in> {''reasoning'', ''compaction''}
      then [(''encrypted'', gj_string G (gj_get G v ''encrypted_content''))] else [])"

definition response_marks :: "'g gjson \<Rightarrow> 'g \<Rightarrow> (string \<times> string) list" where
  "response_marks G doc =
     (''response'', gj_string G (gj_get G doc ''id'')) #
     (''conversation'', conversation_text G (gj_get G doc ''conversation'')) #
     concat (map (item_marks G) (gj_array G (gj_get G doc ''output'')))"

definition answer_marks :: "'g gjson \<Rightarrow> string \<Rightarrow> bool \<Rightarrow> (string \<times> string) list" where
  "answer_marks G raw stream =
     (let doc = gj_parse_bytes G raw
      in if stream
         then (if gj_exists G (gj_get G doc ''item'') then item_marks G (gj_get G doc ''item'') else []) @
              response_marks G (gj_get G doc ''response'')
         else response_marks G doc)"

definition answer_origin :: "(string \<Rightarrow> string) \<Rightarrow> state_ctx \<Rightarrow> origin" where
  "answer_origin sha c = \<lparr>og_provider = rx_provider (sc_retry c), og_channel = sc_channel_id c, og_index = sc_key_index c,
     og_print = responsesKeyFingerprint sha (sc_actual_key c)\<rparr>"

definition add_mark :: "(string \<Rightarrow> string) \<Rightarrow> int \<Rightarrow> origin \<Rightarrow> string \<times> string \<Rightarrow> (string \<times> origin) list \<Rightarrow> (string \<times> origin) list" where
  "add_mark sha u g kv es = (if snd kv = [] then es else put_key (responsesStateKey sha u (fst kv) (snd kv)) g es)"

definition answer_entries :: "'g gjson \<Rightarrow> (string \<Rightarrow> string) \<Rightarrow> state_ctx \<Rightarrow> string \<Rightarrow> bool \<Rightarrow> (string \<times> origin) list" where
  "answer_entries G sha c raw stream = fold (add_mark sha (sc_id c) (answer_origin sha c)) (answer_marks G raw stream) []"

text \<open>\<open>order\<close> is the order in which the store ranges over the map of the entries.\<close>

definition rememberResponsesState ::
  "'g gjson \<Rightarrow> (string \<Rightarrow> string) \<Rightarrow> ((string \<times> origin) list \<Rightarrow> (string \<times> origin) list) \<Rightarrow>
   ((string \<times> origin) list \<Rightarrow> 's \<Rightarrow> (gerr + unit) \<times> 's) \<Rightarrow> state_ctx \<Rightarrow> string \<Rightarrow> bool \<Rightarrow> 's \<Rightarrow> (gerr + unit) \<times> 's" where
  "rememberResponsesState G sha order remember c raw stream s =
     (let es = answer_entries G sha c raw stream
      in if sc_channel_id c \<le> 0 then (Inl (Msg ''Missing Responses channel origin''), s)
         else if es = [] then (Inr (), s)
         else remember (order es) s)"

definition RememberResponsesState ::
  "'g gjson \<Rightarrow> (string \<Rightarrow> string) \<Rightarrow> ((string \<times> origin) list \<Rightarrow> (string \<times> origin) list) \<Rightarrow>
   state_ctx \<Rightarrow> string \<Rightarrow> bool \<Rightarrow> state_world \<Rightarrow> (gerr + unit) \<times> state_world" where
  "RememberResponsesState G sha order = rememberResponsesState G sha order current_remember"

section \<open>What a bound request carries\<close>

definition read_from :: "(int \<Rightarrow> 's \<Rightarrow> (gerr + channel) \<times> 's) \<Rightarrow> int \<Rightarrow> channel \<Rightarrow> bool" where
  "read_from getChannel i c \<longleftrightarrow> (\<exists>s s'. getChannel i s = (Inr c, s'))"

text \<open>An origin without a provider is taken over by \<open>target\<close> when its channel and key are still the ones recorded.\<close>

definition adopted :: "(string \<Rightarrow> string) \<Rightarrow> (int \<Rightarrow> 's \<Rightarrow> (gerr + channel) \<times> 's) \<Rightarrow> string \<Rightarrow> origin \<Rightarrow> bool" where
  "adopted sha getChannel target g \<longleftrightarrow>
     (\<exists>c key. read_from getChannel (og_channel g) c \<and> c_id c = og_channel g \<and> ChannelProvider c = target \<and>
        GetKeyByIndex c (og_index g) = Inr key \<and> key \<noteq> [] \<and> sha key = og_print g)"

lemma effective_provider_result:
  assumes "effective_provider sha getChannel target g cache s = (Inr p, cache', s')"
    "\<forall>i c. cache i = Some c \<longrightarrow> read_from getChannel i c"
  shows "(\<forall>i c. cache' i = Some c \<longrightarrow> read_from getChannel i c) \<and>
    (p = og_provider g \<and> (og_provider g \<noteq> [] \<or> target = []) \<or>
     og_provider g = [] \<and> p = target \<and> target \<noteq> [] \<and> adopted sha getChannel target g)"
proof (cases "og_provider g = [] \<and> target \<noteq> []")
  case False
  then show ?thesis using assms by (auto simp: effective_provider_def)
next
  case True
  define q where "q = (case cache (og_channel g) of Some c \<Rightarrow> (Inr c, s) | None \<Rightarrow> getChannel (og_channel g) s)"
  obtain r s1 where q: "q = (r, s1)" by (cases q)
  have eff: "effective_provider sha getChannel target g cache s = (if og_print g = [] then (Inl incompatible_providers, cache, s)
      else case r of Inl _ \<Rightarrow> (Inl (Msg ''The original Responses state channel is unavailable''), cache, s1)
      | Inr c \<Rightarrow> (if c_id c \<noteq> og_channel g \<or> ChannelProvider c \<noteq> target then Inl incompatible_providers
                else (case GetKeyByIndex c (og_index g) of
                        Inl _ \<Rightarrow> Inl state_key_changed
                      | Inr key \<Rightarrow> if key = [] \<or> responsesKeyFingerprint sha key \<noteq> og_print g
                                   then Inl state_key_changed else Inr target),
                cache(og_channel g \<mapsto> c), s1))"
    using True q by (simp add: effective_provider_def q_def)
  obtain c where c: "r = Inr c" using assms(1) eff by (cases r) (auto split: if_splits)
  have rf: "read_from getChannel (og_channel g) c"
    using q c assms(2) by (auto simp: q_def read_from_def split: option.splits)
  obtain key where k: "c_id c = og_channel g" "ChannelProvider c = target" "GetKeyByIndex c (og_index g) = Inr key"
    "key \<noteq> []" "responsesKeyFingerprint sha key = og_print g" "p = target" "cache' = cache(og_channel g \<mapsto> c)"
    using assms(1) eff c by (auto split: if_splits sum.splits)
  then have "adopted sha getChannel target g"
    using rf by (auto simp: adopted_def responsesKeyFingerprint_def)
  with True k rf assms(2) show ?thesis by auto
qed

definition settled :: "(string \<Rightarrow> string) \<Rightarrow> (int \<Rightarrow> 's \<Rightarrow> (gerr + channel) \<times> 's) \<Rightarrow> string \<Rightarrow> string \<Rightarrow> origins \<Rightarrow> binding \<Rightarrow> state_reference \<Rightarrow> bool" where
  "settled sha getChannel explicit target m b r \<longleftrightarrow>
     (case m (sr_key r) of
        None \<Rightarrow> explicit \<noteq> [] \<and> \<not> sr_bound r
      | Some g \<Rightarrow>
          (og_provider g = bd_provider b \<or> og_provider g = [] \<and> bd_provider b = target \<and> adopted sha getChannel target g) \<and>
          (sr_bound r \<or> og_provider g = [] \<longrightarrow>
             bd_channel b = og_channel g \<and> bd_index b = og_index g \<and> bd_print b = og_print g))"

lemma merge_origin_result:
  assumes "merge_origin r g p b = Inr b1"
  shows "bd_provider b1 = p \<and> bd_have b1 \<and> (bd_have b \<longrightarrow> bd_provider b = p) \<and>
    (sr_bound r \<or> og_provider g = [] \<longrightarrow> bd_channel b1 = og_channel g \<and> bd_index b1 = og_index g \<and> bd_print b1 = og_print g) \<and>
    (\<not> (sr_bound r \<or> og_provider g = []) \<longrightarrow> bd_channel b1 = bd_channel b) \<and>
    (bd_channel b \<noteq> 0 \<longrightarrow> bd_channel b1 = bd_channel b \<and> bd_index b1 = bd_index b \<and> bd_print b1 = bd_print b)"
  using assms by (auto simp: merge_origin_def Let_def split: if_splits)

lemma bind_references_result:
  assumes "bind_references sha getChannel explicit target m cache refs b s = (Inr b', s')"
    "\<forall>i c. cache i = Some c \<longrightarrow> read_from getChannel i c" "\<forall>k g. m k = Some g \<longrightarrow> 0 < og_channel g"
  shows "(bd_have b \<longrightarrow> bd_have b' \<and> bd_provider b' = bd_provider b) \<and>
    (bd_channel b \<noteq> 0 \<longrightarrow> bd_channel b' = bd_channel b \<and> bd_index b' = bd_index b \<and> bd_print b' = bd_print b) \<and>
    (\<forall>r\<in>set refs. settled sha getChannel explicit target m b' r) \<and>
    (bd_channel b' = bd_channel b \<or> (\<exists>r\<in>set refs. \<exists>g. m (sr_key r) = Some g \<and> bd_channel b' = og_channel g))"
  using assms(1,2)
proof (induction refs arbitrary: cache b s)
  case Nil
  then show ?case by simp
next
  case (Cons r rs)
  show ?case
  proof (cases "m (sr_key r)")
    case None
    then show ?thesis using Cons by (auto simp: settled_def split: if_splits)
  next
    case (Some g)
    obtain e cache1 s1 where e: "effective_provider sha getChannel target g cache s = (e, cache1, s1)" by (cases "effective_provider sha getChannel target g cache s")
    obtain p where p: "e = Inr p" using Cons.prems(1) Some e by (cases e) auto
    obtain b1 where b1: "merge_origin r g p b = Inr b1" using Cons.prems(1) Some e p by (cases "merge_origin r g p b") auto
    have eff: "effective_provider sha getChannel target g cache s = (Inr p, cache1, s1)" using e p by simp
    note ep = effective_provider_result [OF eff Cons.prems(2)]
    note mo = merge_origin_result [OF b1]
    have "bind_references sha getChannel explicit target m cache1 rs b1 s1 = (Inr b', s')"
      using Cons.prems(1) Some eff b1 by simp
    from Cons.IH [OF this] ep
    have ih: "bd_have b1 \<longrightarrow> bd_have b' \<and> bd_provider b' = bd_provider b1"
      "bd_channel b1 \<noteq> 0 \<longrightarrow> bd_channel b' = bd_channel b1 \<and> bd_index b' = bd_index b1 \<and> bd_print b' = bd_print b1"
      "\<forall>r\<in>set rs. settled sha getChannel explicit target m b' r"
      "bd_channel b' = bd_channel b1 \<or> (\<exists>r\<in>set rs. \<exists>g. m (sr_key r) = Some g \<and> bd_channel b' = og_channel g)"
      by blast+
    have pv: "bd_provider b' = p" using ih(1) mo by simp
    have g0: "0 < og_channel g" using assms(3) Some by blast
    have "settled sha getChannel explicit target m b' r"
      using ep pv mo ih(2) g0 Some by (auto simp: settled_def)
    then show ?thesis using ih mo pv Some by auto
  qed
qed

section \<open>Normal providers\<close>

lemma is_space_lower [simp]: "is_space (lower_char c) = is_space c"
  by (auto simp: is_space_def lower_char_def Let_def)

lemma lower_lower [simp]: "lower_char (lower_char c) = lower_char c"
  by (auto simp: lower_char_def Let_def)

lemma trim_to_lower: "trim_space (to_lower s) = to_lower (trim_space s)"
proof -
  have d: "dropWhile is_space (map lower_char u) = map lower_char (dropWhile is_space u)" for u
    by (simp add: dropWhile_map comp_def)
  show ?thesis by (simp only: trim_space_def to_lower_def d rev_map)
qed

lemma dropWhile_id: "xs = [] \<or> \<not> P (hd xs) \<Longrightarrow> dropWhile P xs = xs"
  by (cases xs) auto

lemma trim_trim [simp]: "trim_space (trim_space s) = trim_space s"
proof -
  let ?u = "dropWhile is_space s"
  let ?t = "rev (dropWhile is_space (rev ?u))"
  have last: "?t = [] \<or> \<not> is_space (hd (rev ?t))"
    using hd_dropWhile [of is_space "rev ?u"] by auto
  have "?t = [] \<or> \<not> is_space (hd ?t)"
  proof (cases "?t = []")
    case False
    have "?u = ?t @ rev (takeWhile is_space (rev ?u))"
      by (metis rev_append rev_rev_ident takeWhile_dropWhile_id)
    then have "hd ?t = hd ?u" "?u \<noteq> []" using False by (metis hd_append2, force)
    then show ?thesis using hd_dropWhile [of is_space s] by simp
  qed simp
  with last have "dropWhile is_space ?t = ?t" "dropWhile is_space (rev ?t) = rev ?t"
    by (intro dropWhile_id; simp)+
  then show ?thesis by (simp add: trim_space_def)
qed

lemma to_lower_idem [simp]: "to_lower (to_lower s) = to_lower s"
  by (simp add: to_lower_def comp_def)

text \<open>\<open>strings.ToLower(strings.TrimSpace(p))\<close> of such a text is the text.\<close>

lemma normal_normal [simp]: "to_lower (trim_space (to_lower (trim_space s))) = to_lower (trim_space s)"
  by (simp add: trim_to_lower)

lemma ChannelProvider_normal: "to_lower (trim_space (ChannelProvider c)) = ChannelProvider c"
proof -
  have "to_lower (trim_space []) = []" by (simp add: trim_space_def to_lower_def)
  then show ?thesis by (cases "LoadConfig c") (simp_all add: ChannelProvider_def)
qed

section \<open>One answer is the whole history\<close>

definition same_source :: "binding \<Rightarrow> origin \<Rightarrow> bool" where
  "same_source b g \<longleftrightarrow> bd_channel b = og_channel g \<and> bd_index b = og_index g \<and> bd_print b = og_print g"

lemma bind_one_origin:
  assumes "\<forall>r\<in>set refs. m (sr_key r) = Some g" "0 < og_channel g"
    "bd_have b \<longrightarrow> bd_provider b = og_provider g" "bd_channel b = 0 \<or> same_source b g"
  shows "\<exists>b'. bind_references sha getChannel explicit (og_provider g) m cache refs b s = (Inr b', s) \<and>
    bd_provider b' = (if refs = [] then bd_provider b else og_provider g) \<and>
    (bd_channel b' = 0 \<or> same_source b' g) \<and> (same_source b g \<or> (\<exists>r\<in>set refs. sr_bound r) \<longrightarrow> same_source b' g)"
  using assms(1,3,4)
proof (induction refs arbitrary: b)
  case (Cons r rs)
  have eff: "effective_provider sha getChannel (og_provider g) g cache s = (Inr (og_provider g), cache, s)"
    by (simp add: effective_provider_def)
  let ?b1 = "b\<lparr>bd_provider := og_provider g, bd_have := True\<rparr>"
  let ?b2 = "if sr_bound r \<or> og_provider g = [] then ?b1\<lparr>bd_channel := og_channel g, bd_index := og_index g, bd_print := og_print g\<rparr> else ?b1"
  have mo: "merge_origin r g (og_provider g) b = Inr ?b2"
    using Cons.prems(2,3) assms(2) by (auto simp: merge_origin_def same_source_def)
  have "bd_channel ?b2 = 0 \<or> same_source ?b2 g" "same_source b g \<or> sr_bound r \<longrightarrow> same_source ?b2 g" "bd_provider ?b2 = og_provider g"
    using Cons.prems(3) by (auto simp: same_source_def)
  moreover obtain b' where "bind_references sha getChannel explicit (og_provider g) m cache rs ?b2 s = (Inr b', s)"
    "bd_provider b' = (if rs = [] then bd_provider ?b2 else og_provider g)"
    "bd_channel b' = 0 \<or> same_source b' g" "same_source ?b2 g \<or> (\<exists>r\<in>set rs. sr_bound r) \<longrightarrow> same_source b' g"
    using Cons.IH [of ?b2] Cons.prems(1) calculation by force
  ultimately show ?case using Cons.prems(1) eff mo by auto
qed auto

lemma target_one_origin:
  "\<forall>r\<in>set refs. m (sr_key r) = Some g \<Longrightarrow> t = og_provider g \<or> t = [] \<Longrightarrow>
   target_provider m t refs = Inr (if refs = [] then t else og_provider g)"
  by (induction refs arbitrary: t) auto

lemma answer_entries_origin:
  "\<forall>e\<in>set (answer_entries G sha c raw stream). snd e = answer_origin sha c"
  "distinct (map fst (answer_entries G sha c raw stream))"
proof -
  have "(\<forall>e\<in>set es. snd e = g) \<and> distinct (map fst es) \<Longrightarrow>
      (\<forall>e\<in>set (fold (add_mark sha u g) ms es). snd e = g) \<and> distinct (map fst (fold (add_mark sha u g) ms es))" for u g ms es
  proof (induction ms arbitrary: es)
    case (Cons kv ms)
    have "(\<forall>e\<in>set (add_mark sha u g kv es). snd e = g) \<and> distinct (map fst (add_mark sha u g kv es))"
      using Cons.prems by (auto simp: add_mark_def distinct_put dest: in_put)
    from Cons.IH [OF this] show ?case by simp
  qed simp
  from this [of "[]"] show "\<forall>e\<in>set (answer_entries G sha c raw stream). snd e = answer_origin sha c"
    "distinct (map fst (answer_entries G sha c raw stream))" by (simp_all add: answer_entries_def)
qed

context state_store
begin

lemma answer_restored:
  assumes "wf s" "\<forall>es. mset (order es) = mset es" "rememberResponsesState G sha order remember c raw stream s = (Inr (), s1)"
    "room s (length (answer_entries G sha c raw stream))"
    "0 \<le> sc_key_index c" "in_int64 (sc_channel_id c)" "in_int64 (sc_key_index c)"
    "rx_provider (sc_retry c) = to_lower (trim_space (rx_provider (sc_retry c)))"
    "IsResponsesStatePath (sc_path q)" "sc_body q = Inr body" "to_lower (trim_space (sc_header q)) = []"
    "inputStateReferences G sha (sc_id q) body = refs" "refs \<noteq> []"
    "\<forall>r\<in>set refs. sr_key r \<in> fst ` set (answer_entries G sha c raw stream) \<and> known s (sr_key r) = None \<and> usable s (sr_key r)"
    "0 \<le> d" "d < responsesStateTTL"
  shows "\<exists>q' s2. bindResponsesStateWithChannelLookup G sha lookup getChannel q (wait d s1) = (Inr q', s2) \<and>
    rx_provider (sc_retry q') = rx_provider (sc_retry c) \<and>
    ((\<exists>r\<in>set refs. sr_bound r) \<longrightarrow> rx_state_channel (sc_retry q') = sc_channel_id c \<and> sc_state_index q' = sc_key_index c \<and>
       sc_state_print q' = responsesKeyFingerprint sha (sc_actual_key c))"
proof -
  let ?es = "order (answer_entries G sha c raw stream)" and ?g = "answer_origin sha c"
  have perm: "mset ?es = mset (answer_entries G sha c raw stream)" using assms(2) by blast
  then have set: "set ?es = set (answer_entries G sha c raw stream)" and len: "length ?es = length (answer_entries G sha c raw stream)"
    by (metis set_mset_mset, metis size_mset)
  have dist: "distinct (map fst ?es)"
    using answer_entries_origin(2) [of G sha c raw stream] perm mset_eq_imp_distinct_iff [of "map fst ?es" "map fst (answer_entries G sha c raw stream)"] by simp
  obtain r0 where "r0 \<in> set refs" using assms(13) by (cases refs) auto
  then have ne: "answer_entries G sha c raw stream \<noteq> []" using assms(14) by auto
  then have ch: "0 < sc_channel_id c" and rem: "remember ?es s = (Inr (), s1)"
    using assms(3) by (auto simp: rememberResponsesState_def Let_def split: if_splits)
  have ok: "\<forall>e\<in>set ?es. ok_origin (snd e)"
    using answer_entries_origin(1) [of G sha c raw stream] ch assms(5-7) by (auto simp: set ok_origin_def answer_origin_def)
  have rm: "room s (length ?es)" using assms(4) len by simp
  have k: "known (wait d s1) (sr_key r) = Some ?g \<and> usable (wait d s1) (sr_key r)" if "r \<in> set refs" for r
  proof -
    have r: "sr_key r \<in> fst ` set ?es" "known s (sr_key r) = None" "usable s (sr_key r)" using assms(14) that set by auto
    then obtain g where g: "(sr_key r, g) \<in> set ?es" by force
    then have "g = ?g" using answer_entries_origin(1) [of G sha c raw stream] set by fastforce
    with g dist have "map_of ?es (sr_key r) = Some ?g" by simp
    from remember_kept [OF assms(1) r(3) ok dist rm rem r(2) this assms(15,16)]
      wait_usable [OF remember_usable [OF assms(1) ok dist r(3) rem] assms(15)] show ?thesis by simp
  qed
  have wf: "wf (wait d s1)" using wait_wf remember_wf [OF assms(1) ok dist rem] by simp
  have "map sr_key refs \<noteq> []" "\<forall>x\<in>set (map sr_key refs). usable (wait d s1) x" using assms(13) k by auto
  from lookup_works [OF wf this] obtain m s2 where m: "lookup (map sr_key refs) (wait d s1) = (Inr m, s2)" by blast
  have mk: "\<forall>r\<in>set refs. m (sr_key r) = Some ?g" using lookup_value [OF wf m] k by simp
  let ?b = "\<lparr>bd_provider = [], bd_have = False, bd_channel = 0, bd_index = - 1, bd_print = []\<rparr> :: binding"
  obtain b where b: "bind_references sha getChannel [] (og_provider ?g) m Map.empty refs ?b s2 = (Inr b, s2)"
    "bd_provider b = og_provider ?g" "bd_channel b = 0 \<or> same_source b ?g" "(\<exists>r\<in>set refs. sr_bound r) \<longrightarrow> same_source b ?g"
    using bind_one_origin [OF mk, of ?b sha getChannel "[]" Map.empty s2] ch assms(13) by (auto simp: answer_origin_def)
  have t: "target_provider m [] refs = Inr (og_provider ?g)"
    using target_one_origin [OF mk, of "[]"] assms(13) by simp
  have "bindResponsesStateWithChannelLookup G sha lookup getChannel q (wait d s1) = (Inr (bound_context q b), s2)"
    using assms(9-13) m t b(1) by (simp add: bindResponsesStateWithChannelLookup_def Let_def)
  moreover have "rx_provider (sc_retry (bound_context q b)) = rx_provider (sc_retry c)"
    using b(2) assms(8) by (simp add: bound_context_def Let_def WithRetryProvider_def WithResponseStateChannel_def answer_origin_def)
  moreover have "rx_state_channel (sc_retry (bound_context q b)) = sc_channel_id c \<and> sc_state_index (bound_context q b) = sc_key_index c \<and>
       sc_state_print (bound_context q b) = responsesKeyFingerprint sha (sc_actual_key c)" if "\<exists>r\<in>set refs. sr_bound r"
    using b(4) that ch by (simp add: bound_context_def Let_def WithResponseStateChannel_def same_source_def answer_origin_def)
  ultimately show ?thesis by blast
qed

lemma bound_to_history:
  assumes "wf s" "bindResponsesStateWithChannelLookup G sha lookup getChannel c s = (Inr c', s')"
    "IsResponsesStatePath (sc_path c)" "sc_body c = Inr body" "r \<in> set (inputStateReferences G sha (sc_id c) body)"
  shows "case known s (sr_key r) of
      None \<Rightarrow> to_lower (trim_space (sc_header c)) \<noteq> [] \<and> \<not> sr_bound r
    | Some g \<Rightarrow>
        (rx_provider (sc_retry c') = to_lower (trim_space (og_provider g)) \<or>
         og_provider g = [] \<and> adopted sha getChannel (rx_provider (sc_retry c')) g) \<and>
        (sr_bound r \<or> og_provider g = [] \<longrightarrow> rx_state_channel (sc_retry c') = og_channel g \<and>
           sc_state_index c' = og_index g \<and> sc_state_print c' = og_print g)"
    and "to_lower (trim_space (sc_header c)) \<noteq> [] \<Longrightarrow> rx_provider (sc_retry c') = to_lower (trim_space (sc_header c))"
proof -
  let ?x = "to_lower (trim_space (sc_header c))" and ?refs = "inputStateReferences G sha (sc_id c) body"
  let ?b = "\<lparr>bd_provider = ?x, bd_have = (?x \<noteq> []), bd_channel = 0, bd_index = - 1, bd_print = []\<rparr> :: binding"
  have ne: "?refs \<noteq> []" using assms(5) by auto
  obtain m s1 where m: "lookup (map sr_key ?refs) s = (Inr m, s1)"
    using assms(2-4) ne by (auto simp: bindResponsesStateWithChannelLookup_def Let_def split: if_splits prod.splits sum.splits)
  obtain t where t: "target_provider m ?x ?refs = Inr t"
    using assms(2-4) ne m by (auto simp: bindResponsesStateWithChannelLookup_def Let_def split: if_splits prod.splits sum.splits)
  obtain b where b: "bind_references sha getChannel ?x t m Map.empty ?refs ?b s1 = (Inr b, s')" "c' = bound_context c b"
    using assms(2-4) ne m t by (auto simp: bindResponsesStateWithChannelLookup_def Let_def split: if_splits prod.splits sum.splits)
  have pos: "\<forall>k g. m k = Some g \<longrightarrow> 0 < og_channel g"
    using found_ok [OF assms(1) m] by (auto simp: ok_origin_def)
  note res = bind_references_result [OF b(1) _ pos]
  have p: "rx_provider (sc_retry c') = to_lower (trim_space (bd_provider b))"
    using b(2) by (simp add: bound_context_def Let_def WithRetryProvider_def WithResponseStateChannel_def)
  have st: "settled sha getChannel ?x t m b r" using res assms(5) by simp
  have mk: "m (sr_key r) = known s (sr_key r)" using lookup_value [OF assms(1) m, of "sr_key r"] assms(5) by auto
  show "to_lower (trim_space (sc_header c)) \<noteq> [] \<Longrightarrow> rx_provider (sc_retry c') = to_lower (trim_space (sc_header c))"
    using res p by simp
  show "case known s (sr_key r) of
      None \<Rightarrow> to_lower (trim_space (sc_header c)) \<noteq> [] \<and> \<not> sr_bound r
    | Some g \<Rightarrow>
        (rx_provider (sc_retry c') = to_lower (trim_space (og_provider g)) \<or>
         og_provider g = [] \<and> adopted sha getChannel (rx_provider (sc_retry c')) g) \<and>
        (sr_bound r \<or> og_provider g = [] \<longrightarrow> rx_state_channel (sc_retry c') = og_channel g \<and>
           sc_state_index c' = og_index g \<and> sc_state_print c' = og_print g)"
  proof (cases "known s (sr_key r)")
    case None
    then show ?thesis using st mk by (simp add: settled_def)
  next
    case (Some g)
    then have g: "og_provider g = bd_provider b \<or> og_provider g = [] \<and> bd_provider b = t \<and> adopted sha getChannel t g"
      "sr_bound r \<or> og_provider g = [] \<longrightarrow> bd_channel b = og_channel g \<and> bd_index b = og_index g \<and> bd_print b = og_print g"
      using st mk by (auto simp: settled_def)
    have "rx_provider (sc_retry c') = to_lower (trim_space (og_provider g)) \<or>
         og_provider g = [] \<and> adopted sha getChannel (rx_provider (sc_retry c')) g"
    proof -
      have "to_lower (trim_space t) = t" if "adopted sha getChannel t g"
        using that ChannelProvider_normal by (auto simp: adopted_def)
      then show ?thesis using g(1) p by auto
    qed
    moreover have "0 < og_channel g" using pos mk Some by simp
    ultimately show ?thesis
      using g(2) b(2) Some by (auto simp: bound_context_def Let_def WithResponseStateChannel_def)
  qed
qed

end

section \<open>Other users\<close>

lemma render_int_inj: "int_json a \<Longrightarrow> int_json b \<Longrightarrow> render a = render b \<Longrightarrow> a = b"
  by (metis option.inject parse_render)

lemma state_key_text_inj:
  assumes "in_int64 u" "in_int64 u'" "state_key_text u k v = state_key_text u' k' v'"
  shows "u = u' \<and> k = k' \<and> v = v'"
proof -
  have "JArr [JNum (itoa u), JStr k, JStr v] = JArr [JNum (itoa u'), JStr k', JStr v']"
    using assms(3) by (intro render_int_inj) (auto simp: state_key_text_def)
  then show ?thesis using assms(1,2) itoa_inj by simp
qed

lemma answer_entries_keys:
  "x \<in> fst ` set (answer_entries G sha c raw stream) \<longleftrightarrow>
   (\<exists>k v. (k, v) \<in> set (answer_marks G raw stream) \<and> v \<noteq> [] \<and> x = responsesStateKey sha (sc_id c) k v)"
proof -
  have "x \<in> fst ` set (fold (add_mark sha u g) ms es) \<longleftrightarrow>
      x \<in> fst ` set es \<or> (\<exists>k v. (k, v) \<in> set ms \<and> v \<noteq> [] \<and> x = responsesStateKey sha u k v)" for u g ms es
  proof (induction ms arbitrary: es)
    case (Cons kv ms)
    have "x \<in> fst ` set (add_mark sha u g kv es) \<longleftrightarrow> x \<in> fst ` set es \<or> snd kv \<noteq> [] \<and> x = responsesStateKey sha u (fst kv) (snd kv)"
      by (auto simp: add_mark_def keys_put)
    then show ?case using Cons.IH [of "add_mark sha u g kv es"] by (cases kv) auto
  qed simp
  from this [of _ _ _ "[]"] show ?thesis by (simp add: answer_entries_def)
qed

section \<open>The properties\<close>

text \<open>
  C23. What an answer recorded is what a continuation gets: when a request refers only to marks of one
  recorded answer, within seven days and while the store has room for them, it is bound to the provider
  of that answer, and, when it refers to a resource of the upstream, to its channel, its key index and
  the fingerprint of its key. This holds for the Redis store and for the memory store.
\<close>

theorem continuation_restored:
  assumes "current_wf s" "\<forall>es. mset (order es) = mset es" "RememberResponsesState G sha order c raw stream s = (Inr (), s1)"
    "current_room s (length (answer_entries G sha c raw stream))"
    "0 \<le> sc_key_index c" "in_int64 (sc_channel_id c)" "in_int64 (sc_key_index c)"
    "rx_provider (sc_retry c) = to_lower (trim_space (rx_provider (sc_retry c)))"
    "IsResponsesStatePath (sc_path q)" "sc_body q = Inr body" "to_lower (trim_space (sc_header q)) = []"
    "inputStateReferences G sha (sc_id q) body = refs" "refs \<noteq> []"
    "\<forall>r\<in>set refs. sr_key r \<in> fst ` set (answer_entries G sha c raw stream) \<and>
       current_known s (sr_key r) = None \<and> current_usable s (sr_key r)"
    "0 \<le> d" "d < 7 * 24 * 60 * 60"
  shows "\<exists>q' s2. BindResponsesState G sha q (current_wait d s1) = (Inr q', s2) \<and>
    rx_provider (sc_retry q') = rx_provider (sc_retry c) \<and>
    ((\<exists>r\<in>set refs. sr_bound r) \<longrightarrow> rx_state_channel (sc_retry q') = sc_channel_id c \<and> sc_state_index q' = sc_key_index c \<and>
       sc_state_print q' = responsesKeyFingerprint sha (sc_actual_key c))"
  unfolding BindResponsesState_def
  by (rule current_store.answer_restored [OF assms(1,2) assms(3) [unfolded RememberResponsesState_def] assms(4-15)])
    (use assms(16) in \<open>simp add: responsesStateTTL_def\<close>)

text \<open>
  C22. A history never changes its provider, channel or key: when binding succeeds, every reference with
  a known origin has the provider of the request (an origin without one is adopted only when its channel
  has that provider now and its key still has the recorded fingerprint), every reference to an upstream
  resource names the channel, key index and fingerprint of the request, an unknown reference is let
  through only with an explicit provider and only when it is portable, and an explicit provider stays.
\<close>

theorem history_never_switches:
  assumes "current_wf s" "BindResponsesState G sha c s = (Inr c', s')"
    "IsResponsesStatePath (sc_path c)" "sc_body c = Inr body" "r \<in> set (inputStateReferences G sha (sc_id c) body)"
  shows "(case current_known s (sr_key r) of
      None \<Rightarrow> to_lower (trim_space (sc_header c)) \<noteq> [] \<and> \<not> sr_bound r
    | Some g \<Rightarrow>
        (rx_provider (sc_retry c') = to_lower (trim_space (og_provider g)) \<or>
         og_provider g = [] \<and> adopted sha state_channel (rx_provider (sc_retry c')) g) \<and>
        (sr_bound r \<or> og_provider g = [] \<longrightarrow> rx_state_channel (sc_retry c') = og_channel g \<and>
           sc_state_index c' = og_index g \<and> sc_state_print c' = og_print g)) \<and>
    (to_lower (trim_space (sc_header c)) \<noteq> [] \<longrightarrow> rx_provider (sc_retry c') = to_lower (trim_space (sc_header c)))"
  using current_store.bound_to_history [OF assms(1) assms(2) [unfolded BindResponsesState_def] assms(3-5)] by blast

text \<open>
  What one user's answers record is never an origin for another user: when the digest of the other
  user's key text differs from those of the texts recorded, whatever the other user knows after the
  recording was known before with the same origin.
\<close>

theorem answers_stay_with_user:
  assumes "inj_on sha (insert (state_key_text u k v) ((\<lambda>(k', v'). state_key_text (sc_id c) k' v') ` set (answer_marks G raw stream)))"
    "in_int64 u" "in_int64 (sc_id c)" "u \<noteq> sc_id c" "current_wf s" "\<forall>es. mset (order es) = mset es"
    "0 \<le> sc_key_index c" "in_int64 (sc_channel_id c)" "in_int64 (sc_key_index c)"
    "RememberResponsesState G sha order c raw stream s = (q, s')"
    "current_known s' (responsesStateKey sha u k v) = Some g"
  shows "current_known s (responsesStateKey sha u k v) = Some g"
proof (cases "sc_channel_id c \<le> 0 \<or> answer_entries G sha c raw stream = []")
  case True
  then show ?thesis using assms(10,11) by (auto simp: RememberResponsesState_def rememberResponsesState_def Let_def split: if_splits)
next
  case False
  let ?es = "order (answer_entries G sha c raw stream)"
  have perm: "mset ?es = mset (answer_entries G sha c raw stream)" using assms(6) by blast
  then have set: "set ?es = set (answer_entries G sha c raw stream)" by (metis set_mset_mset)
  have dist: "distinct (map fst ?es)"
    using answer_entries_origin(2) [of G sha c raw stream] perm mset_eq_imp_distinct_iff [of "map fst ?es" "map fst (answer_entries G sha c raw stream)"] by simp
  have ok: "\<forall>e\<in>set ?es. ok_origin (snd e)"
    using answer_entries_origin(1) [of G sha c raw stream] False assms(7-9) by (auto simp: set ok_origin_def answer_origin_def)
  have rem: "current_remember ?es s = (q, s')"
    using assms(10) False by (auto simp: RememberResponsesState_def rememberResponsesState_def Let_def)
  have "responsesStateKey sha u k v \<noteq> responsesStateKey sha (sc_id c) k' v'" if "(k', v') \<in> set (answer_marks G raw stream)" for k' v'
  proof
    assume "responsesStateKey sha u k v = responsesStateKey sha (sc_id c) k' v'"
    then have "sha (state_key_text u k v) = sha (state_key_text (sc_id c) k' v')" by (simp add: responsesStateKey_def)
    then have "state_key_text u k v = state_key_text (sc_id c) k' v'"
      by (rule inj_onD [OF assms(1)]) (use that in force)+
    then show False using state_key_text_inj [OF assms(2,3)] assms(4) by blast
  qed
  then have "responsesStateKey sha u k v \<notin> fst ` set ?es"
    unfolding set answer_entries_keys by blast
  then have "map_of ?es (responsesStateKey sha u k v) = None" by (simp add: map_of_eq_None_iff)
  with current_store.remember_first [OF assms(5) ok dist rem assms(11)] show ?thesis by simp
qed

text \<open>
  A bound request is answered with its key or not at all: once the key of its channel has been
  restored, the check after the selection of a key passes exactly when the selected index is the
  recorded one and, when a fingerprint was recorded, the selected key is the restored key, as long as
  the digests of these two keys do not collide.
\<close>

theorem bound_key_verified:
  assumes "0 < rx_state_channel (sc_retry c)" "RestoreResponsesStateKey sha c ch = Inr c'"
    "\<forall>key. GetKeyByIndex ch (sc_state_index c) = Inr key \<longrightarrow> inj_on sha {key, selected}" "selected \<noteq> []"
  shows "sc_cached_index c' = Some (sc_state_index c) \<and>
    (\<exists>key. GetKeyByIndex ch (sc_state_index c) = Inr key \<and> key \<noteq> [] \<and>
      (VerifyResponsesStateKey sha (c'\<lparr>sc_key_index := i, sc_actual_key := selected\<rparr>) = None \<longleftrightarrow>
         i = sc_state_index c \<and> (sc_state_print c = [] \<or> selected = key)))"
  using assms
  by (auto simp: RestoreResponsesStateKey_def VerifyResponsesStateKey_def responsesKeyFingerprint_def inj_on_def
      split: if_splits sum.splits)

section \<open>Sequences of calls\<close>

datatype store_call = Lookup "string list" | Remember "(string \<times> origin) list" | Wait int

fun run_calls :: "store_call list \<Rightarrow> state_world \<Rightarrow> state_world" where
  "run_calls [] p = p"
| "run_calls (Lookup ks # cs) p = run_calls cs (snd (current_lookup ks p))"
| "run_calls (Remember es # cs) p = run_calls cs (snd (current_remember es p))"
| "run_calls (Wait d # cs) p = run_calls cs (current_wait d p)"

definition legal_call :: "store_call \<Rightarrow> bool" where
  "legal_call x = (case x of Remember es \<Rightarrow> (\<forall>e\<in>set es. ok_origin (snd e)) \<and> distinct (map fst es) | _ \<Rightarrow> True)"

text \<open>Every value Redis holds under a key of this file is an origin.\<close>

definition typed_store :: "state_world \<Rightarrow> bool" where
  "typed_store p \<longleftrightarrow> (\<forall>k e. has_prefix k ''responses_state:v1:'' \<longrightarrow> w_redis (fst p) k = Some e \<longrightarrow> read_origin (fst e) \<noteq> None)"

lemma set_expiry_value: "map_option fst (fold (\<lambda>e. set_expiry t (fst e)) found r x) = map_option fst (r x)"
  by (induction found arbitrary: r) (auto simp: set_expiry_def split: option.splits)

lemma redis_lookup_value: "redis_lookup ks w = (q, w') \<Longrightarrow> map_option fst (w_redis w' x) = map_option fst (w_redis w x)"
  by (auto simp: redis_lookup_def set_expiry_value split: prod.splits sum.splits option.splits list.splits if_splits
      elim!: redis_cmd_cases simp del: fold_Cons)

lemma set_nx_typed:
  "\<forall>e\<in>set es. ok_origin (snd e) \<Longrightarrow> fold (set_nx now) es r x = Some v \<Longrightarrow> r x = Some v \<or> read_origin (fst v) \<noteq> None"
proof (induction es arbitrary: r)
  case (Cons e es)
  have "set_nx now e r x = r x \<or> set_nx now e r x = Some (encode_origin (snd e), Some (now + responsesStateTTL))"
    by (auto simp: set_nx_def split: option.splits)
  then show ?case using Cons.IH [of "set_nx now e r"] Cons.prems read_encode [of "snd e"] by auto
qed simp

lemma typed_step:
  assumes "typed_store p" "legal_call x"
  shows "typed_store (run_calls [x] p)"
proof (cases x)
  case (Lookup ks)
  obtain q p' where l: "current_lookup ks p = (q, p')" by (metis surj_pair)
  then have v: "map_option fst (w_redis (fst p') k) = map_option fst (w_redis (fst p) k)" for k
    by (cases rule: current_lookup_cases) (auto simp: redis_lookup_value)
  have "\<exists>e. w_redis (fst p) k = Some e \<and> fst e = fst e'" if "w_redis (fst p') k = Some e'" for k e'
    using v [of k] that by (cases "w_redis (fst p) k") auto
  then show ?thesis using assms(1) Lookup l by (fastforce simp: typed_store_def)
next
  case (Remember es)
  obtain q p' where l: "current_remember es p = (q, p')" by (metis surj_pair)
  have ok: "\<forall>e\<in>set es. ok_origin (snd e)" using assms(2) Remember by (simp add: legal_call_def)
  from l have "w_redis (fst p') k = Some e \<Longrightarrow> w_redis (fst p) k = Some e \<or> read_origin (fst e) \<noteq> None" for k e
  proof (cases rule: current_remember_cases)
    case (in_redis w s w')
    assume "w_redis (fst p') k = Some e"
    then show ?thesis using in_redis redis_remember_result [OF in_redis(4)]
        set_nx_typed [OF ok, of "w_now w" "w_redis w" k e] by auto
  qed auto
  then show ?thesis using assms(1) Remember l by (fastforce simp: typed_store_def)
next
  case (Wait d)
  then show ?thesis using assms(1) by (simp add: typed_store_def current_wait_def wait_world_def case_prod_beta)
qed

lemma run_calls_Cons: "run_calls (x # cs) p = run_calls cs (run_calls [x] p)"
  by (cases x) simp_all

lemma typed_run: "typed_store p \<Longrightarrow> \<forall>x\<in>set cs. legal_call x \<Longrightarrow> typed_store (run_calls cs p)"
proof (induction cs arbitrary: p)
  case (Cons x cs)
  then show ?case using typed_step by (simp add: run_calls_Cons [of x cs])
qed simp

lemma read_all_typed:
  "\<forall>k\<in>set ks. \<forall>e. r k = Some e \<longrightarrow> read_origin (fst e) \<noteq> None \<Longrightarrow> read_all now r ks \<noteq> None"
  by (induction ks) (auto simp: live_def split: option.splits if_splits)

lemma memory_step:
  assumes "current_wf p" "legal_call x"
  shows "current_wf (run_calls [x] p) \<and> ms_limit (snd (run_calls [x] p)) = ms_limit (snd p)"
proof (cases x)
  case (Lookup ks)
  obtain q p' where l: "current_lookup ks p = (q, p')" by (metis surj_pair)
  then have "ms_limit (snd p') = ms_limit (snd p)"
    by (cases rule: current_lookup_cases) (use assms(1) mem_lookup_result in \<open>auto simp: current_defs elim!: memory_lookupD\<close>)
  then show ?thesis using current_store.lookup_wf [OF assms(1) l] Lookup l by simp
next
  case (Remember es)
  have ok: "\<forall>e\<in>set es. ok_origin (snd e)" "distinct (map fst es)" using assms(2) Remember by (simp_all add: legal_call_def)
  obtain q p' where l: "current_remember es p = (q, p')" by (metis surj_pair)
  then have "ms_limit (snd p') = ms_limit (snd p)"
    by (cases rule: current_remember_cases)
      (use assms(1) mem_remember_result [OF _ _ ok(1)] in \<open>auto simp: current_defs dest!: memory_rememberD(2)\<close>)
  then show ?thesis using current_store.remember_wf [OF assms(1) ok l] Remember l by simp
next
  case (Wait d)
  then show ?thesis using assms(1) by (simp add: current_defs case_prod_beta)
qed

lemma memory_run: "current_wf p \<Longrightarrow> \<forall>x\<in>set cs. legal_call x \<Longrightarrow>
  current_wf (run_calls cs p) \<and> ms_limit (snd (run_calls cs p)) = ms_limit (snd p)"
proof (induction cs arbitrary: p)
  case (Cons x cs)
  then show ?case using memory_step [of p x] by (simp add: run_calls_Cons [of x cs])
qed simp

text \<open>
  C31. The memory store never outgrows its limit: after any sequence of lookups, recordings and waits the
  entries have distinct keys, the list of use holds exactly these keys once each, and there are at most
  as many as the limit of the new store.
\<close>

theorem memory_store_bounded:
  assumes "0 < limit" "\<forall>x\<in>set cs. legal_call x" "run_calls cs (w, newMemoryResponsesStateStore limit) = (w', s)"
  shows "length (ms_entries s) \<le> limit \<and> distinct (map fst (ms_entries s)) \<and>
    distinct (ms_order s) \<and> set (ms_order s) = fst ` set (ms_entries s)"
proof -
  have "current_wf (w, newMemoryResponsesStateStore limit)"
    using assms(1) by (simp add: current_defs mem_ok_def newMemoryResponsesStateStore_def)
  from memory_run [OF this assms(2)] assms(3) show ?thesis
    by (simp add: current_defs mem_ok_def newMemoryResponsesStateStore_def)
qed

text \<open>
  C37. What Redis holds under the keys of the store is always typed: recordings write only values that
  read back as origins and lookups change no value, so after any sequence of calls a lookup is never
  refused for an invalid entry.
\<close>

theorem stored_origins_typed:
  assumes "typed_store p" "\<forall>x\<in>set cs. legal_call x" "\<forall>k\<in>set ks. has_prefix k ''responses_state:v1:''"
  shows "typed_store (run_calls cs p) \<and>
    fst (current_lookup ks (run_calls cs p)) \<noteq> Inl (Msg ''Invalid Responses state cache entry'')"
proof -
  note t = typed_run [OF assms(1,2)]
  obtain w s where p: "run_calls cs p = (w, s)" by fastforce
  have "fst (redis_lookup ks w) \<noteq> Inl (Msg ''Invalid Responses state cache entry'')"
  proof -
    obtain r1 w1 where 1: "redis_cmd (\<lambda>w. if ks = [] then (Inl (Msg ''redis''), w) else (Inr (), w)) w = (r1, w1)" by fastforce
    then have w1: "w_redis w1 = w_redis w" by (auto elim!: redis_cmd_cases split: if_splits)
    have "\<forall>k\<in>set ks. \<forall>e. w_redis w1 k = Some e \<longrightarrow> read_origin (fst e) \<noteq> None"
      using t assms(3) p w1 by (auto simp: typed_store_def)
    from read_all_typed [OF this, of "w_now w1"] show ?thesis
      using 1 by (auto simp: redis_lookup_def cache_unavailable_def split: sum.splits option.splits list.splits prod.splits)
  qed
  then show ?thesis using t p by (auto simp: current_lookup_def split: prod.splits)
qed

section \<open>Concrete runs\<close>

fun demo_get :: "json \<Rightarrow> string \<Rightarrow> json" where
  "demo_get (JObj m) k = (case map_of m k of None \<Rightarrow> JNull | Some v \<Rightarrow> v)"
| "demo_get _ k = JNull"

fun demo_string :: "json \<Rightarrow> string" where
  "demo_string (JStr s) = s"
| "demo_string (JNum t) = t"
| "demo_string _ = []"

definition demo_doc :: "string \<Rightarrow> json" where
  "demo_doc s = (if s = ''answer'' then JObj [(''id'', JStr ''r1'')] else JObj [(''previous_response_id'', JStr ''r1'')])"

definition demo_gjson :: "json gjson" where
  "demo_gjson = \<lparr>gj_get_bytes = (\<lambda>s. demo_get (demo_doc s)), gj_parse_bytes = demo_doc, gj_get = demo_get, gj_string = demo_string,
     gj_is_string = (\<lambda>v. case v of JStr _ \<Rightarrow> True | _ \<Rightarrow> False), gj_exists = (\<lambda>v. v \<noteq> JNull),
     gj_array = (\<lambda>v. case v of JArr vs \<Rightarrow> vs | _ \<Rightarrow> [])\<rparr>"

definition demo_answer :: state_ctx where
  "demo_answer = \<lparr>sc_path = ''/v1/responses'', sc_body = Inr ''request'', sc_header = [], sc_retry = no_boundary\<lparr>rx_provider := ''acme''\<rparr>,
     sc_id = 7, sc_channel_id = 3, sc_key_index = 0, sc_actual_key = ''k'', sc_state_index = 0, sc_state_print = [], sc_cached_index = None\<rparr>"

definition demo_next :: state_ctx where
  "demo_next = demo_answer\<lparr>sc_retry := no_boundary, sc_channel_id := 0, sc_actual_key := []\<rparr>"

definition demo_store :: state_world where
  "demo_store = (world_with empty_db 50, newMemoryResponsesStateStore 2)"

lemmas demo_defs = demo_gjson_def demo_doc_def demo_answer_def demo_next_def no_boundary_def

lemma demo_entries: "answer_entries demo_gjson id demo_answer ''answer'' False =
  [(responsesStateKey id 7 ''response'' ''r1'', answer_origin id demo_answer)]"
  by (simp add: answer_entries_def answer_marks_def response_marks_def conversation_text_def add_mark_def put_key_def demo_defs)

lemma demo_refs: "inputStateReferences demo_gjson id 7 ''request'' = [\<lparr>sr_key = responsesStateKey id 7 ''response'' ''r1'', sr_bound = True\<rparr>]"
  by (simp add: inputStateReferences_def reference_def conversation_text_def demo_defs)

lemma demo_store_defs: "current_wf demo_store" "current_known demo_store k = None" "current_usable demo_store k"
  "current_room demo_store (Suc 0)"
  by (simp_all add: demo_store_def current_defs mem_ok_def mem_known_def mem_room_def newMemoryResponsesStateStore_def start_defs)

lemma demo_remember: "\<exists>s1. RememberResponsesState demo_gjson id id demo_answer ''answer'' False demo_store = (Inr (), s1)"
  unfolding RememberResponsesState_def rememberResponsesState_def demo_entries
  by (simp add: demo_answer_def demo_store_def current_remember_def newMemoryResponsesStateStore_def mem_remember_key_def
      make_room_def drop_expired_def start_defs)

lemma demo_small: "in_int64 0" "in_int64 3" "in_int64 7" "in_int64 8"
  by (simp_all add: in_int64_def min_int64_def max_int64_def)

lemma demo_normal: "to_lower (trim_space ''acme'') = ''acme''" "to_lower (trim_space []) = []"
  by (simp_all add: to_lower_def trim_space_def is_space_def lower_char_def)

lemma demo_path: "IsResponsesStatePath ''/v1/responses''"
  by (simp add: IsResponsesStatePath_def trim_slashes_def)

theorem continuation_restored_witness:
  "\<exists>s1 q' s2. RememberResponsesState demo_gjson id id demo_answer ''answer'' False demo_store = (Inr (), s1) \<and>
     BindResponsesState demo_gjson id demo_next (current_wait 100 s1) = (Inr q', s2) \<and>
     rx_provider (sc_retry q') = ''acme'' \<and> rx_state_channel (sc_retry q') = 3"
proof -
  obtain s1 where s1: "RememberResponsesState demo_gjson id id demo_answer ''answer'' False demo_store = (Inr (), s1)"
    using demo_remember by blast
  let ?refs = "[\<lparr>sr_key = responsesStateKey id 7 ''response'' ''r1'', sr_bound = True\<rparr>]"
  have "\<exists>q' s2. BindResponsesState demo_gjson id demo_next (current_wait 100 s1) = (Inr q', s2) \<and>
    rx_provider (sc_retry q') = rx_provider (sc_retry demo_answer) \<and>
    ((\<exists>r\<in>set ?refs. sr_bound r) \<longrightarrow> rx_state_channel (sc_retry q') = sc_channel_id demo_answer \<and>
       sc_state_index q' = sc_key_index demo_answer \<and> sc_state_print q' = responsesKeyFingerprint id (sc_actual_key demo_answer))"
    by (rule continuation_restored [OF demo_store_defs(1) _ s1, where body = "''request''"])
      (simp_all add: demo_entries demo_store_defs demo_small demo_next_def demo_entries [unfolded demo_answer_def] demo_answer_def demo_normal demo_path demo_refs)
  then show ?thesis using s1 by (auto simp: demo_answer_def)
qed

theorem history_never_switches_witness:
  "\<exists>p c' p'. BindResponsesState demo_gjson id (demo_next\<lparr>sc_header := ''acme''\<rparr>) p = (Inr c', p') \<and>
     rx_provider (sc_retry c') = ''acme'' \<and> rx_state_channel (sc_retry c') = 3"
proof -
  let ?key = "responsesStateKey id 7 ''response'' ''r1''"
  let ?p = "(world_with empty_db 60, \<lparr>ms_entries = [(?key, \<lparr>me_origin = answer_origin id demo_answer, me_expires = 70\<rparr>)],
      ms_limit = 2, ms_order = [?key]\<rparr>)"
  let ?c = "demo_next\<lparr>sc_header := ''acme''\<rparr>"
  have k: "current_known ?p ?key = Some (answer_origin id demo_answer)"
    by (simp add: current_defs mem_known_def start_defs)
  have wf: "current_wf ?p"
    by (simp add: current_defs mem_ok_def ok_origin_def answer_origin_def demo_answer_def demo_small)
  obtain c' p' where r: "BindResponsesState demo_gjson id ?c ?p = (Inr c', p')"
  proof -
    have "\<exists>c' p'. BindResponsesState demo_gjson id ?c ?p = (Inr c', p')"
      using demo_refs
      by (simp add: BindResponsesState_def bindResponsesStateWithChannelLookup_def Let_def demo_normal demo_path demo_next_def
          demo_answer_def current_lookup_def mem_lookup_def mem_lookup_key_def start_defs answer_origin_def effective_provider_def
          merge_origin_def)
    then show thesis using that by blast
  qed
  have "\<lparr>sr_key = ?key, sr_bound = True\<rparr> \<in> set (inputStateReferences demo_gjson id (sc_id ?c) ''request'')"
    by (simp add: demo_refs demo_next_def demo_answer_def)
  with history_never_switches [OF wf r, of "''request''" "\<lparr>sr_key = ?key, sr_bound = True\<rparr>"] k
  have "rx_provider (sc_retry c') = to_lower (trim_space ''acme'')" "rx_state_channel (sc_retry c') = 3"
    by (simp_all add: demo_next_def demo_answer_def demo_path demo_normal answer_origin_def)
  with r show ?thesis unfolding demo_normal by blast
qed

theorem answers_stay_with_user_witness:
  "\<exists>s1. RememberResponsesState demo_gjson id id demo_answer ''answer'' False demo_store = (Inr (), s1) \<and>
     current_known s1 (responsesStateKey id 8 ''response'' ''r1'') = None"
proof -
  obtain s1 where s1: "RememberResponsesState demo_gjson id id demo_answer ''answer'' False demo_store = (Inr (), s1)"
    using demo_remember by blast
  have "current_known s1 (responsesStateKey id 8 ''response'' ''r1'') \<noteq> Some g" for g
  proof
    assume g: "current_known s1 (responsesStateKey id 8 ''response'' ''r1'') = Some g"
    have "current_known demo_store (responsesStateKey id 8 ''response'' ''r1'') = Some g"
      by (rule answers_stay_with_user [OF _ _ _ _ demo_store_defs(1) _ _ _ _ s1 g]) (simp_all add: demo_small demo_answer_def)
    then show False by (simp add: demo_store_defs)
  qed
  with s1 show ?thesis by (cases "current_known s1 (responsesStateKey id 8 ''response'' ''r1'')") auto
qed

definition demo_channel :: channel where
  "demo_channel = blank_channel\<lparr>c_id := 3, c_key := ''k''\<rparr>"

theorem bound_key_verified_witness:
  "let c = demo_answer\<lparr>sc_retry := \<lparr>rx_provider = ''acme'', rx_state_channel = 3\<rparr>, sc_state_print := ''k''\<rparr> in
   \<exists>c'. RestoreResponsesStateKey id c demo_channel = Inr c' \<and>
     VerifyResponsesStateKey id (c'\<lparr>sc_key_index := 0, sc_actual_key := ''other''\<rparr>) \<noteq> None"
proof -
  let ?c = "demo_answer\<lparr>sc_retry := \<lparr>rx_provider = ''acme'', rx_state_channel = 3\<rparr>, sc_state_print := ''k''\<rparr>"
  have k: "GetKeyByIndex demo_channel (sc_state_index ?c) = Inr ''k''"
    by (simp add: GetKeyByIndex_def demo_channel_def demo_answer_def start_defs)
  then obtain c' where c': "RestoreResponsesStateKey id ?c demo_channel = Inr c'"
    by (simp add: RestoreResponsesStateKey_def responsesKeyFingerprint_def)
  have "0 < rx_state_channel (sc_retry ?c)" "''other'' \<noteq> []" by simp_all
  from bound_key_verified [OF this(1) c' _ this(2), where i = 0] k
  have "VerifyResponsesStateKey id (c'\<lparr>sc_key_index := 0, sc_actual_key := ''other''\<rparr>) \<noteq> None" by (auto simp: demo_answer_def)
  with c' show ?thesis by (simp add: Let_def)
qed

theorem memory_store_bounded_witness:
  "length (ms_entries (snd (run_calls [Remember [(''a'', \<lparr>og_provider = [], og_channel = 1, og_index = 0, og_print = []\<rparr>)],
      Remember [(''b'', \<lparr>og_provider = [], og_channel = 2, og_index = 0, og_print = []\<rparr>)], Lookup [''a'']]
      (world_with empty_db 0, newMemoryResponsesStateStore 1)))) \<le> 1"
proof -
  let ?cs = "[Remember [(''a'', \<lparr>og_provider = [], og_channel = 1, og_index = 0, og_print = []\<rparr>)],
      Remember [(''b'', \<lparr>og_provider = [], og_channel = 2, og_index = 0, og_print = []\<rparr>)], Lookup [''a'']]"
  obtain w' s where r: "run_calls ?cs (world_with empty_db 0, newMemoryResponsesStateStore 1) = (w', s)" by (metis surj_pair)
  have "\<forall>x\<in>set ?cs. legal_call x" by (simp add: legal_call_def ok_origin_def in_int64_def min_int64_def max_int64_def)
  from memory_store_bounded [OF _ this r] r show ?thesis by simp
qed

theorem stored_origins_typed_witness:
  "let w = (world_with empty_db 0)\<lparr>w_cfg := default_config\<lparr>cfg_redis := True\<rparr>\<rparr>; g = answer_origin id demo_answer;
       k = responsesStateKey id 7 ''response'' ''r1''
   in typed_store (run_calls [Remember [(k, g)], Wait 5, Lookup [k]] (w, newMemoryResponsesStateStore 1))"
proof -
  let ?w = "(world_with empty_db 0)\<lparr>w_cfg := default_config\<lparr>cfg_redis := True\<rparr>\<rparr>" and ?g = "answer_origin id demo_answer"
  let ?k = "responsesStateKey id 7 ''response'' ''r1''"
  have "typed_store (?w, newMemoryResponsesStateStore 1)" by (simp add: typed_store_def start_defs)
  moreover have "\<forall>x\<in>set [Remember [(?k, ?g)], Wait 5, Lookup [?k]]. legal_call x"
    by (simp add: legal_call_def ok_origin_def answer_origin_def demo_answer_def demo_small)
  moreover have "\<forall>k\<in>set [?k]. has_prefix k ''responses_state:v1:''" by (simp add: responsesStateKey_def)
  ultimately show ?thesis using stored_origins_typed by (simp only: Let_def)
qed

text \<open>A run that refuses: the header names another provider than the history.\<close>

lemma demo_refused: "fst (BindResponsesState demo_gjson id (demo_next\<lparr>sc_header := ''other''\<rparr>)
    (world_with empty_db 60, \<lparr>ms_entries = [(responsesStateKey id 7 ''response'' ''r1'', \<lparr>me_origin = answer_origin id demo_answer, me_expires = 70\<rparr>)],
      ms_limit = 2, ms_order = [responsesStateKey id 7 ''response'' ''r1'']\<rparr>)) = Inl incompatible_providers"
proof -
  have n: "to_lower (trim_space ''other'') = ''other''"
    by (simp add: to_lower_def trim_space_def is_space_def lower_char_def)
  show ?thesis
    using demo_refs
    by (simp add: BindResponsesState_def bindResponsesStateWithChannelLookup_def Let_def n demo_path demo_next_def demo_answer_def
        current_lookup_def mem_lookup_def mem_lookup_key_def start_defs answer_origin_def)
qed

end
