(* ===== verification/RetryPolicy.thy ===== *)
theory RetryPolicy
  imports ChannelSelect
begin

text \<open>
  What a failed attempt means: \<open>relay/util/common.go\<close> decides whether it disables the channel,
  \<open>controller/relay.go\<close> whether another channel is tried, \<open>controller/retry_policy.go\<close> which one and
  after which wait, \<open>monitor/metric.go\<close> keeps the success rate of a channel.
\<close>

section \<open>Errors and options\<close>

text \<open>
  \<open>model.ErrorWithStatusCode\<close>; the code of an error is any JSON value, and only compared with
  strings: \<open>None\<close> when it is not one.
\<close>

record relay_error =
  re_message :: string
  re_type :: string
  re_code :: "string option"
  re_status :: int

record retry_options =
  ro_auto_disable :: bool
  ro_auto_enable :: bool
  ro_disable_keywords :: string
  ro_retry_keywords :: string
  ro_retry_times :: int

section \<open>Does the error disable the channel?\<close>

definition keyword_lines :: "string \<Rightarrow> string list" where
  "keyword_lines raw = filter (\<lambda>k. k \<noteq> []) (map (\<lambda>l. trim_space (to_lower l)) (split_on (CHR 0x0A) raw))"

definition ShouldDisableChannel :: "retry_options \<Rightarrow> relay_error option \<Rightarrow> int \<Rightarrow> bool" where
  "ShouldDisableChannel opts err status =
     (if \<not> ro_auto_disable opts then False
      else case err of None \<Rightarrow> False
      | Some e \<Rightarrow>
          if status = 401 then True
          else if re_type e \<in> {''insufficient_quota'', ''authentication_error'', ''permission_error'', ''forbidden''} then True
          else if re_code e \<in> {Some ''invalid_api_key'', Some ''account_deactivated'', Some ''Some resource has been exhausted''}
          then True
          else ro_disable_keywords opts \<noteq> [] \<and>
            list_ex (str_contains (to_lower (re_message e))) (keyword_lines (ro_disable_keywords opts)))"

definition ShouldEnableChannel :: "retry_options \<Rightarrow> bool \<Rightarrow> bool \<Rightarrow> bool" where
  "ShouldEnableChannel opts failed openai_failed =
     (if \<not> ro_auto_enable opts then False else if failed then False else if openai_failed then False else True)"

section \<open>Is another channel tried?\<close>

text \<open>\<open>getRetryKeywords\<close> keeps the lines of the last option value it has seen.\<close>

type_synonym keyword_cache = "string \<times> string list option"

definition getRetryKeywords :: "string \<Rightarrow> keyword_cache \<Rightarrow> string list \<times> keyword_cache" where
  "getRetryKeywords raw cache =
     (case cache of
        (seen, Some parsed) \<Rightarrow>
          if raw = seen then (parsed, cache) else (keyword_lines raw, (raw, Some (keyword_lines raw)))
      | (seen, None) \<Rightarrow> (keyword_lines raw, (raw, Some (keyword_lines raw))))"

definition cache_current :: "keyword_cache \<Rightarrow> bool" where
  "cache_current cache \<longleftrightarrow> (\<forall>ks. snd cache = Some ks \<longrightarrow> ks = keyword_lines (fst cache))"

text \<open>However the option changes between calls, the cache never answers with stale lines.\<close>

lemma getRetryKeywords_direct:
  assumes "cache_current cache"
  shows "fst (getRetryKeywords raw cache) = keyword_lines raw" "cache_current (snd (getRetryKeywords raw cache))"
  using assms by (auto simp: getRetryKeywords_def cache_current_def split: prod.splits option.splits)

definition violation_patterns :: "string list" where
  "violation_patterns = [''content violates usage guidelines'', ''violates usage guidelines'', ''safety_check_type'']"

definition shouldRetryBadRequest :: "string list \<Rightarrow> string \<Rightarrow> bool" where
  "shouldRetryBadRequest keywords message =
     (if message = [] then False
      else if str_contains message ''Incorrect API key provided'' \<and> str_contains message ''console.x.ai'' then True
      else list_ex (str_contains (to_lower message)) keywords)"

definition shouldRetryForbidden :: "string list \<Rightarrow> string \<Rightarrow> bool" where
  "shouldRetryForbidden keywords message =
     (if message = [] then True
      else if list_ex (str_contains (to_lower message)) violation_patterns then False
      else if list_ex (str_contains (to_lower message)) keywords then True
      else True)"

definition shouldRetry :: "string list \<Rightarrow> bool \<Rightarrow> bool \<Rightarrow> int \<Rightarrow> string \<Rightarrow> bool" where
  "shouldRetry keywords no_retry specific status message =
     (if no_retry then False
      else if specific then False
      else if go_div status 100 = 2 then False
      else if go_div status 100 = 5 \<or> status = 429 then True
      else if status = 400 then shouldRetryBadRequest keywords message
      else if status = 403 then shouldRetryForbidden keywords message
      else if status = 422 then False
      else if go_div status 100 = 4 then True
      else True)"

definition isXAIContentViolation :: "int \<Rightarrow> string \<Rightarrow> bool" where
  "isXAIContentViolation status message =
     (if status \<noteq> 403 then False else list_ex (str_contains (to_lower message)) violation_patterns)"

text \<open>A content violation, which is charged, is never tried on another channel.\<close>

lemma violation_not_retried: "isXAIContentViolation status message \<Longrightarrow> \<not> shouldRetry ks nr sp status message"
proof -
  assume v: "isXAIContentViolation status message"
  then have "message \<noteq> []" "status = 403"
    by (auto simp: isXAIContentViolation_def violation_patterns_def to_lower_def split: if_splits)
  with v show ?thesis
    by (auto simp: isXAIContentViolation_def shouldRetry_def shouldRetryForbidden_def go_div_def split: if_splits)
qed

section \<open>Which channel?\<close>

definition appendUniqueChannelID :: "int list \<Rightarrow> int \<Rightarrow> int list" where
  "appendUniqueChannelID ids i = (if i \<le> 0 then ids else if i \<in> set ids then ids else ids @ [i])"

text \<open>
  Returns the channel or the error, and the list of failed channels, which is emptied for a new
  round when every channel has failed and the request may leave its provider.
\<close>

definition selectRetryChannel ::
    "nat \<Rightarrow> nat \<Rightarrow> retry_ctx \<Rightarrow> string \<Rightarrow> string \<Rightarrow> int list \<Rightarrow> ((gerr + channel) \<times> int list) op" where
  "selectRetryChannel rnd rnd2 ctx grp model failed =
     on_result (CacheGetRandomSatisfiedChannel rnd ctx grp model 0 [] failed) (\<lambda>r. case r of
       Inr (c, _) \<Rightarrow> ret (Inr c, failed)
     | Inl e \<Rightarrow>
         if HasRetryBoundary ctx then ret (Inl e, failed)
         else on_result (CacheGetRandomSatisfiedChannel rnd2 ctx grp model 0 [] []) (\<lambda>r2. case r2 of
           Inr (c, _) \<Rightarrow> ret (Inr c, [])
         | Inl e2 \<Rightarrow> ret (Inl e2, [])))"

definition getLastRetryFallbackChannel :: "int \<Rightarrow> channel option op" where
  "getLastRetryFallbackChannel i =
     (if i \<le> 0 then ret None
      else on_result (CacheGetChannel i) (\<lambda>r. case r of
        Inr c \<Rightarrow> ret (Some c)
      | Inl _ \<Rightarrow> on_result (GetChannelById i True) (\<lambda>r2. case r2 of
          Inr c \<Rightarrow> ret (Some c) | Inl _ \<Rightarrow> ret None)))"

section \<open>After which wait?\<close>

definition millisecond :: int where "millisecond = 1000000"
definition second :: int where "second = 1000 * millisecond"
definition retry_wait_limit :: int where "retry_wait_limit = 30 * second"

text \<open>
  Durations in nanoseconds. \<open>until\<close> is the time of the header when \<open>http.ParseTime\<close> reads it as a
  date, less the present: that function of the standard library is an argument.
\<close>

definition too_long :: "string \<Rightarrow> gerr + int" where
  "too_long header = Inl (Msg (''upstream '' @ header @ '' exceeds the 30 second retry wait limit''))"

definition after_header :: "(string \<Rightarrow> int option) \<Rightarrow> string \<Rightarrow> int \<Rightarrow> gerr + int" where
  "after_header until retryAfter attempt =
     (let date = (case until retryAfter of Some d \<Rightarrow> d | None \<Rightarrow> 2 ^ nat (min (max attempt 1) 4) * second);
          bounded = (\<lambda>d. if retry_wait_limit < d then too_long ''Retry-After'' else Inr (max millisecond d))
      in case parse_int64 (trim_space retryAfter) of
           Some s \<Rightarrow> if 0 \<le> s then (if retry_wait_limit div second < s then too_long ''Retry-After'' else bounded (s * second))
                     else bounded date
         | None \<Rightarrow> bounded date)"

definition responsesRetryDelay :: "(string \<Rightarrow> int option) \<Rightarrow> string \<Rightarrow> string \<Rightarrow> int \<Rightarrow> gerr + int" where
  "responsesRetryDelay until retryAfter retryAfterMS attempt =
     (case parse_int64 (trim_space retryAfterMS) of
        Some ms \<Rightarrow>
          if 0 \<le> ms
          then (if retry_wait_limit div millisecond < ms then too_long ''retry-after-ms''
                else Inr (max millisecond (ms * millisecond)))
          else after_header until retryAfter attempt
      | None \<Rightarrow> after_header until retryAfter attempt)"

text \<open>
  \<open>gone\<close> tells whether the client has left before the call, \<open>left\<close> whether it leaves during the wait;
  the answer is the channel or the error, the reason to stop, and the failed channels.
\<close>

definition selectResponsesRetryChannel ::
    "nat \<Rightarrow> nat \<Rightarrow> (string \<Rightarrow> int option) \<Rightarrow> bool \<Rightarrow> bool \<Rightarrow> retry_ctx \<Rightarrow> string \<Rightarrow> string \<Rightarrow> string \<Rightarrow> string
       \<Rightarrow> int list \<Rightarrow> int \<Rightarrow> int \<Rightarrow> ((gerr + channel) \<times> string \<times> int list) op" where
  "selectResponsesRetryChannel rnd rnd2 until gone left ctx grp model retryAfter retryAfterMS failed status attempt =
     (if gone then ret (Inl (Msg ''context canceled''), ''client_cancelled'', failed)
      else if rx_state_channel ctx \<le> 0 \<or> status \<noteq> 429
      then on_ok (selectRetryChannel rnd rnd2 ctx grp model failed) (\<lambda>(r, failed'). ret (r, [], failed'))
      else case responsesRetryDelay until retryAfter retryAfterMS attempt of
        Inl e \<Rightarrow> ret (Inl e, ''retry_after_exceeds_limit'', failed)
      | Inr delay \<Rightarrow>
          if left then ret (Inl (Msg ''context canceled''), ''client_cancelled'', failed)
          else on_result (CacheGetRandomSatisfiedChannel rnd ctx grp model 0 [] []) (\<lambda>r. case r of
            Inl e \<Rightarrow> ret (Inl e, [], failed) | Inr (c, _) \<Rightarrow> ret (Inr c, [], failed)))"

definition responsesRetryStopReason :: "string list \<Rightarrow> bool \<Rightarrow> bool \<Rightarrow> bool \<Rightarrow> bool \<Rightarrow> bool \<Rightarrow> relay_error \<Rightarrow> string" where
  "responsesRetryStopReason keywords gone written record_failed specific no_retry err =
     (if gone then ''client_cancelled''
      else if written then ''response_already_started''
      else if record_failed then ''response_state_record_failed''
      else if specific then ''specific_channel_requested''
      else if \<not> shouldRetry keywords no_retry specific (re_status err) (re_message err) then ''non_retryable_error''
      else [])"

section \<open>The success rate of a channel\<close>

record metric_options =
  mo_enabled :: bool
  mo_queue_size :: int
  mo_threshold :: f64

type_synonym metric_store = "int \<Rightarrow> bool list"

text \<open>The window is shortened only once it is longer than the queue size.\<close>

definition push_window :: "metric_options \<Rightarrow> bool \<Rightarrow> bool list \<Rightarrow> bool list" where
  "push_window mo b win = (if mo_queue_size mo < int (length win) then tl win else win) @ [b]"

definition consumeSuccess :: "metric_options \<Rightarrow> int \<Rightarrow> metric_store \<Rightarrow> metric_store" where
  "consumeSuccess mo i st = st(i := push_window mo True (st i))"

definition success_rate :: "bool list \<Rightarrow> f64" where
  "success_rate win = fdiv (f_of_int (int (length (filter id win)))) (f_of_int (int (length win)))"

definition consumeFail :: "metric_options \<Rightarrow> int \<Rightarrow> metric_store \<Rightarrow> (bool \<times> f64) \<times> metric_store" where
  "consumeFail mo i st =
     (let win = push_window mo False (st i); rate = success_rate win; st' = st(i := win)
      in if int (length win) < mo_queue_size mo then ((False, rate), st')
         else if flt rate (mo_threshold mo) then ((True, rate), st'(i := []))
         else ((False, rate), st'))"

section \<open>Bounds\<close>

lemma after_header_bounds:
  "after_header until ra attempt = Inr d \<Longrightarrow> millisecond \<le> d \<and> d \<le> retry_wait_limit \<and>
     (\<forall>s. parse_int64 (trim_space ra) = Some s \<and> 0 \<le> s \<longrightarrow> s * second \<le> d)"
  by (auto simp: after_header_def too_long_def Let_def retry_wait_limit_def second_def millisecond_def
      split: option.splits if_splits)

text \<open>
  A wait lies between a millisecond and half a minute and is never shorter than the upstream asked
  for in milliseconds, or, without that header, in seconds.
\<close>

lemma responsesRetryDelay_bounds:
  assumes "responsesRetryDelay until ra rams attempt = Inr d"
  shows "millisecond \<le> d" "d \<le> retry_wait_limit"
    and "\<And>ms. parse_int64 (trim_space rams) = Some ms \<Longrightarrow> 0 \<le> ms \<Longrightarrow> ms * millisecond \<le> d"
    and "\<And>s. parse_int64 (trim_space rams) = None \<Longrightarrow> parse_int64 (trim_space ra) = Some s \<Longrightarrow> 0 \<le> s \<Longrightarrow> s * second \<le> d"
  using assms after_header_bounds [of until ra attempt d]
  by (auto simp: responsesRetryDelay_def too_long_def retry_wait_limit_def second_def millisecond_def
      split: option.splits if_splits)

text \<open>A window never holds more than one result above the queue size.\<close>

lemma push_window_length:
  "0 \<le> mo_queue_size mo \<Longrightarrow> int (length win) \<le> mo_queue_size mo + 1 \<Longrightarrow> int (length (push_window mo b win)) \<le> mo_queue_size mo + 1"
  by (cases win) (auto simp: push_window_def)

lemma consumeFail_disables:
  assumes "consumeFail mo i st = ((True, rate), st')"
  shows "mo_queue_size mo \<le> int (length (push_window mo False (st i)))" "flt rate (mo_threshold mo)" "st' i = []"
    "\<And>j. j \<noteq> i \<Longrightarrow> st' j = st j"
  using assms by (auto simp: consumeFail_def Let_def split: if_splits)

end
