(* ===== verification/RelayLoop.thy ===== *)
theory RelayLoop
  imports RetryPolicy UserCache
begin

text \<open>
  The request loop of \<open>controller/relay.go\<close>: a first attempt on the channel the distributor chose,
  then up to \<open>RetryTimes\<close> attempts on other channels, the charge of a content violation, the error
  log, and what the errors do to the channels (\<open>monitor/channel.go\<close>).
\<close>

section \<open>The context of a request\<close>

text \<open>
  What the loop keeps in the \<open>gin.Context\<close>. \<open>rq_cached_key\<close> is \<open>-1\<close> when no key is bound;
  \<open>rq_emits\<close> and \<open>rq_spawned\<close> collect the events sent to the monitor and the reports handed to
  goroutines, \<open>rq_metrics\<close> the attempts counted, \<open>rq_charges\<close> the content violations charged and
  \<open>rq_errors\<close> the error rows written, \<open>rq_response\<close> the error sent to the client.
\<close>

record retry_attempt =
  ra_attempt :: int
  ra_channel :: int
  ra_channel_name :: string
  ra_key_index :: int
  ra_error :: string
  ra_status :: int

record channel_report =
  cr_channel :: int
  cr_key_index :: int
  cr_error :: relay_error
  cr_model :: string

record request =
  rq_systemone :: bool
  rq_user :: int
  rq_token :: int
  rq_group :: string
  rq_model :: string
  rq_response_id :: string
  rq_bounds :: retry_ctx
  rq_specific :: bool
  rq_skip_retry :: bool
  rq_no_retry :: bool
  rq_started :: bool
  rq_channel :: int
  rq_channel_name :: string
  rq_multi :: bool
  rq_cached_key :: int
  rq_excluded :: "int list"
  rq_actual_key :: string
  rq_key_index :: int
  rq_history :: "int list"
  rq_failures :: "retry_attempt list"
  rq_affinity_key :: string
  rq_affinity_success :: bool
  rq_metrics :: "(int \<times> string) list"
  rq_emits :: "(int \<times> bool) list"
  rq_spawned :: "channel_report list"
  rq_charges :: "(int \<times> int list \<times> retry_attempt list) list"
  rq_errors :: "(relay_error \<times> int list \<times> retry_attempt list) list"
  rq_response :: "(int \<times> string) option"

section \<open>The channel of an attempt\<close>

definition request_key :: "nat \<Rightarrow> channel \<Rightarrow> request \<Rightarrow> (string \<times> int) op" where
  "request_key rnd c rq =
     (let bound = (if 0 \<le> rq_cached_key rq then case GetKeyByIndex c (rq_cached_key rq) of Inl _ \<Rightarrow> [] | Inr k \<Rightarrow> k else [])
      in if bound \<noteq> [] then ret (bound, rq_cached_key rq)
         else on_result
           (if mk_is_multi (c_mk c) \<and> rq_excluded rq \<noteq> [] then GetNextAvailableKeyWithRetry rnd c (rq_excluded rq)
            else GetNextAvailableKey rnd c)
           (\<lambda>r. case r of Inl _ \<Rightarrow> ret (c_key c, 0) | Inr (k, i) \<Rightarrow> ret (k, int i)))"

definition SetupContextForSelectedChannel :: "nat \<Rightarrow> channel \<Rightarrow> string \<Rightarrow> request \<Rightarrow> request op" where
  "SetupContextForSelectedChannel rnd c model rq =
     on_ok (request_key rnd c rq) (\<lambda>(k, i).
       ret (rq\<lparr>rq_channel := c_id c, rq_channel_name := c_name c, rq_model := model, rq_cached_key := - 1,
               rq_actual_key := k, rq_key_index := i, rq_multi := mk_is_multi (c_mk c)\<rparr>))"

section \<open>What an error does to its channel\<close>

definition disableChannelInternal :: "channel \<Rightarrow> int \<Rightarrow> string \<Rightarrow> string \<Rightarrow> unit op" where
  "disableChannelInternal c i reason model =
     (if \<not> c_auto_disabled c then ret ()
      else on_result (AutoDisableChannelById i reason model) (\<lambda>r. case r of
        Inl _ \<Rightarrow> ret () | Inr disabled \<Rightarrow> if \<not> disabled then ret () else notify i None))"

definition DisableChannelSafely :: "int \<Rightarrow> string \<Rightarrow> string \<Rightarrow> unit op" where
  "DisableChannelSafely i reason model =
     on_result (GetChannelById i True) (\<lambda>r. case r of
       Inl _ \<Rightarrow> ret ()
     | Inr c \<Rightarrow> if mk_is_multi (c_mk c) then ret () else disableChannelInternal c i reason model)"

definition DisableChannel :: "int \<Rightarrow> string \<Rightarrow> string \<Rightarrow> unit op" where
  "DisableChannel i reason model =
     on_result (GetChannelById i True) (\<lambda>r. case r of
       Inl _ \<Rightarrow> ret () | Inr c \<Rightarrow> disableChannelInternal c i reason model)"

definition MetricDisableChannel :: "int \<Rightarrow> string \<Rightarrow> unit op" where
  "MetricDisableChannel i reason =
     on_result (GetChannelById i True) (\<lambda>r. case r of
       Inl _ \<Rightarrow> ret ()
     | Inr c \<Rightarrow>
         if \<not> c_auto_disabled c then ret ()
         else if mk_is_multi (c_mk c) then notify i None
         else disableChannelInternal c i reason ''N/A (Metric)'')"

text \<open>
  Answer with the events for the monitor. \<open>gin.ContextKey\<close> is never a key of the context of the
  request, so the list of excluded keys is never extended.
\<close>

definition processMultiKeyChannelError ::
    "retry_options \<Rightarrow> channel \<Rightarrow> int \<Rightarrow> relay_error \<Rightarrow> string \<Rightarrow> (int \<times> bool) list op" where
  "processMultiKeyChannelError opts c keyIndex err model =
     then_do (if ShouldDisableChannel opts (Some err) (re_status err)
              then ignore_err (HandleKeyError c keyIndex (re_message err) (re_status err) model) else ret ())
       (ret [(c_id c, False)])"

definition processChannelRelayError ::
    "retry_options \<Rightarrow> channel_report \<Rightarrow> (int \<times> bool) list op" where
  "processChannelRelayError opts rep =
     (let i = cr_channel rep; err = cr_error rep
      in on_result (GetChannelById i True) (\<lambda>r. case r of
        Inl _ \<Rightarrow> ret [(i, False)]
      | Inr c \<Rightarrow>
          if mk_is_multi (c_mk c) \<or> 1 < mk_key_count (c_mk c)
          then processMultiKeyChannelError opts c (cr_key_index rep) err (cr_model rep)
          else if ShouldDisableChannel opts (Some err) (re_status err)
          then (if c_auto_disabled c then then_do (DisableChannel i (re_message err) (cr_model rep)) (ret [])
                else ret [(i, False)])
          else ret [(i, False)]))"

section \<open>One attempt\<close>

text \<open>
  The handlers that \<open>relayHelper\<close> dispatches to are the argument \<open>handler\<close>: from the context and the
  state of the program to the error, if any, what they set in the context, and the new state.
\<close>

record attempt_out =
  ao_error :: "relay_error option"
  ao_started :: bool
  ao_no_retry :: bool
  ao_cancelled :: bool

type_synonym handler = "request \<Rightarrow> world \<Rightarrow> attempt_out \<times> world"

definition attempt_outcome :: "attempt_out \<Rightarrow> string" where
  "attempt_outcome out =
     (if ao_cancelled out then ''cancelled'' else if ao_error out = None then ''success'' else ''error'')"

definition measureSourceAttempt :: "handler \<Rightarrow> request \<Rightarrow> world \<Rightarrow> relay_error option \<times> request \<times> world" where
  "measureSourceAttempt h rq w =
     (case h (rq\<lparr>rq_started := False\<rparr>) w of (out, w') \<Rightarrow>
        (ao_error out,
         rq\<lparr>rq_started := ao_started out, rq_no_retry := rq_no_retry rq \<or> ao_no_retry out,
            rq_metrics := rq_metrics rq @ (if ao_started out then [(rq_channel rq, attempt_outcome out)] else [])\<rparr>,
         w'))"

definition recordRelayAffinity :: "(string \<Rightarrow> bool) \<Rightarrow> request \<Rightarrow> unit op" where
  "recordRelayAffinity eligible rq =
     (if rq_response_id rq = [] then ret ()
      else if \<not> eligible (rq_model rq) then ret ()
      else if has_prefix (rq_model rq) ''claude-'' then ret ()
      else CacheResponseIdToChannel (rq_response_id rq) (rq_channel rq) (rq_key_index rq))"

text \<open>The flat charge of a violation, 0.05 dollars.\<close>

definition violation_quota :: int where "violation_quota = 25000"

definition violation_charge :: "request \<Rightarrow> unit op" where
  "violation_charge rq =
     then_do (ignore_err (PostConsumeTokenQuota (rq_token rq) violation_quota))
    (then_do (ignore_err (CacheUpdateUserQuota (rq_user rq)))
    (then_do (ignore_err (UpdateUserUsedQuotaAndRequestCount (rq_user rq) violation_quota))
      (ignore_err (UpdateChannelUsedQuota (rq_channel rq) violation_quota))))"

definition charge_violation :: "int list \<Rightarrow> retry_attempt list \<Rightarrow> request \<Rightarrow> world \<Rightarrow> request \<times> world" where
  "charge_violation history attempts rq w =
     (rq\<lparr>rq_charges := rq_charges rq @ [(rq_channel rq, history, attempts)]\<rparr>, snd (violation_charge rq w))"

text \<open>In SystemOne mode only an error of the upstream is reported, before the answer is sent.\<close>

definition reportChannelError :: "retry_options \<Rightarrow> channel_report \<Rightarrow> request \<Rightarrow> world \<Rightarrow> request \<times> world" where
  "reportChannelError opts rep rq w =
     (if rq_systemone rq
      then (if rq_started rq
            then (case processChannelRelayError opts rep w of
                (Inl _, w') \<Rightarrow> (rq, w')
              | (Inr es, w') \<Rightarrow> (rq\<lparr>rq_emits := rq_emits rq @ es\<rparr>, w'))
            else (rq, w))
      else (rq\<lparr>rq_spawned := rq_spawned rq @ [rep]\<rparr>, w))"

section \<open>The loop\<close>

text \<open>
  What an execution does not decide: the handlers, the random numbers (\<open>le_rnd i k\<close> is the \<open>k\<close>-th of
  the attempt with \<open>i\<close> left), whether the body of the request can still be read, and the models whose
  responses are bound to a channel.
\<close>

record loop_env =
  le_handler :: handler
  le_options :: retry_options
  le_rnd :: "nat \<Rightarrow> nat \<Rightarrow> nat"
  le_body :: "nat \<Rightarrow> bool"
  le_eligible :: "string \<Rightarrow> bool"

record loop_state =
  ls_err :: relay_error
  ls_failed :: "int list"
  ls_history :: "int list"
  ls_attempts :: "retry_attempt list"
  ls_last :: "channel option"

definition retry_keywords :: "loop_env \<Rightarrow> string list" where
  "retry_keywords env = keyword_lines (ro_retry_keywords (le_options env))"

definition may_retry :: "loop_env \<Rightarrow> request \<Rightarrow> relay_error \<Rightarrow> bool" where
  "may_retry env rq e =
     shouldRetry (retry_keywords env) (rq_no_retry rq) (rq_specific rq) (re_status e) (re_message e)"

definition charged_violation :: "request \<Rightarrow> relay_error \<Rightarrow> bool" where
  "charged_violation rq e \<longleftrightarrow> \<not> rq_systemone rq \<and> isXAIContentViolation (re_status e) (re_message e)"

definition next_channel :: "loop_env \<Rightarrow> nat \<Rightarrow> loop_state \<Rightarrow> request \<Rightarrow> (channel option \<times> int list) op" where
  "next_channel env n st rq =
     on_ok (selectRetryChannel (le_rnd env n 0) (le_rnd env n 1) (rq_bounds rq) (rq_group rq) (rq_model rq) (ls_failed st))
       (\<lambda>(r, failed). ret (case r of
            Inr c \<Rightarrow> Some c
          | Inl _ \<Rightarrow> if ls_last st = None \<or> HasRetryBoundary (rq_bounds rq) then None else ls_last st, failed))"

text \<open>
  The key index of the log line is drawn separately from the key of the request, so a polled channel
  advances twice.
\<close>

definition drawn_key :: "nat \<Rightarrow> channel \<Rightarrow> int op" where
  "drawn_key rnd c =
     (if mk_is_multi (c_mk c)
      then on_result (GetNextAvailableKey rnd c) (\<lambda>r. case r of Inl _ \<Rightarrow> ret 0 | Inr (_, i) \<Rightarrow> ret (int i)) else ret 0)"

definition retry_setup ::
    "loop_env \<Rightarrow> nat \<Rightarrow> loop_state \<Rightarrow> request \<Rightarrow> ((channel \<times> int \<times> request) option \<times> int list) op" where
  "retry_setup env n st rq =
     on_ok (next_channel env n st rq) (\<lambda>(co, failed). case co of
       None \<Rightarrow> ret (None, failed)
     | Some c \<Rightarrow> on_ok (drawn_key (le_rnd env n 2) c) (\<lambda>k.
         on_ok (SetupContextForSelectedChannel (le_rnd env n 3) c (rq_model rq) rq) (\<lambda>rq'.
           ret (Some (c, k, rq'), failed))))"

definition failed_attempt :: "int \<Rightarrow> int \<Rightarrow> string \<Rightarrow> int \<Rightarrow> relay_error \<Rightarrow> retry_attempt" where
  "failed_attempt n i name key e =
     \<lparr>ra_attempt = n, ra_channel = i, ra_channel_name = name, ra_key_index = key, ra_error = re_message e,
      ra_status = re_status e\<rparr>"

definition report_of :: "request \<Rightarrow> relay_error \<Rightarrow> channel_report" where
  "report_of rq e =
     \<lparr>cr_channel = rq_channel rq, cr_key_index = rq_key_index rq, cr_error = e, cr_model = rq_model rq\<rparr>"

definition succeeded :: "loop_env \<Rightarrow> request \<Rightarrow> world \<Rightarrow> request \<times> world" where
  "succeeded env rq w =
     (rq\<lparr>rq_affinity_success := True, rq_emits := rq_emits rq @ [(rq_channel rq, True)]\<rparr>,
      snd (recordRelayAffinity (le_eligible env) rq w))"

definition on_channel :: "channel \<Rightarrow> int list \<Rightarrow> loop_state \<Rightarrow> loop_state" where
  "on_channel c failed st = st\<lparr>ls_failed := failed, ls_last := Some c, ls_history := ls_history st @ [c_id c]\<rparr>"

definition add_failure :: "int \<Rightarrow> channel \<Rightarrow> int \<Rightarrow> int \<Rightarrow> relay_error \<Rightarrow> loop_state \<Rightarrow> loop_state" where
  "add_failure n c k i e st =
     st\<lparr>ls_err := e, ls_failed := appendUniqueChannelID (ls_failed st) i,
        ls_attempts := ls_attempts st @ [failed_attempt n (c_id c) (c_name c) k e]\<rparr>"

fun retries :: "loop_env \<Rightarrow> nat \<Rightarrow> loop_state \<Rightarrow> request \<Rightarrow> world \<Rightarrow> (loop_state option) \<times> request \<times> world" where
  "retries env 0 st rq w = (Some st, rq, w)"
| "retries env (Suc n) st rq w =
     (case retry_setup env n st rq w of
        (Inl _, w1) \<Rightarrow> (Some st, rq, w1)
      | (Inr (None, failed), w1) \<Rightarrow> (Some (st\<lparr>ls_failed := failed\<rparr>), rq, w1)
      | (Inr (Some (c, k, rq1), failed), w1) \<Rightarrow>
          let st1 = on_channel c failed st
          in if \<not> le_body env n then (Some st1, rq1, w1)
             else case measureSourceAttempt (le_handler env)
                    (rq1\<lparr>rq_history := ls_history st1, rq_failures := ls_attempts st1\<rparr>) w1 of
               (None, rq2, w2) \<Rightarrow> (None, succeeded env rq2 w2)
             | (Some e, rq2, w2) \<Rightarrow>
                 let st2 = add_failure (ro_retry_times (le_options env) - int n + 1) c k (rq_channel rq2) e st1;
                     rq3 = rq2\<lparr>rq_failures := ls_attempts st2\<rparr>
                 in if charged_violation rq3 e
                    then (case charge_violation (ls_history st2) (ls_attempts st2) rq3 w2 of (rq4, w3) \<Rightarrow>
                            (Some st2, reportChannelError (le_options env) (report_of rq4 e) rq4 w3))
                    else (case reportChannelError (le_options env) (report_of rq3 e) rq3 w2 of (rq4, w3) \<Rightarrow>
                            if \<not> may_retry env rq3 e then (Some st2, rq4, w3)
                            else retries env n st2 rq4 w3))"

definition saturated_message :: string where
  "saturated_message = ''The current group upstream load is saturated, please try again later.''"

definition relabel_last :: "string \<Rightarrow> retry_attempt list \<Rightarrow> retry_attempt list" where
  "relabel_last msg att = (if att = [] then [] else butlast att @ [(last att)\<lparr>ra_error := msg\<rparr>])"

definition finish_failed :: "loop_state \<Rightarrow> request \<Rightarrow> request" where
  "finish_failed st rq =
     (let saturated = (\<not> rq_systemone rq \<and> re_status (ls_err st) = 429);
          e = (if saturated then (ls_err st)\<lparr>re_message := saturated_message\<rparr> else ls_err st);
          att = (if saturated then relabel_last saturated_message (ls_attempts st) else ls_attempts st)
      in rq\<lparr>rq_history := ls_history st,
            rq_errors := rq_errors rq @ (if charged_violation rq e then [] else [(e, ls_history st, att)]),
            rq_response := Some (re_status e, re_message e)\<rparr>)"

text \<open>An affinity rule forbids the retry: the error is recorded, and answered in SystemOne mode only.\<close>

definition finish_without_retry :: "loop_state \<Rightarrow> request \<Rightarrow> request" where
  "finish_without_retry st rq =
     (let e = ls_err st
      in rq\<lparr>rq_affinity_key := [],
            rq_errors := rq_errors rq @ (if charged_violation rq e then [] else [(e, ls_history st, ls_attempts st)]),
            rq_response := (if rq_systemone rq then Some (re_status e, re_message e) else rq_response rq)\<rparr>)"

definition first_failure :: "request \<Rightarrow> relay_error \<Rightarrow> loop_state" where
  "first_failure rq e =
     \<lparr>ls_err = e, ls_failed = [rq_channel rq], ls_history = [rq_channel rq],
      ls_attempts = [failed_attempt 1 (rq_channel rq) (rq_channel_name rq) (rq_key_index rq) e], ls_last = None\<rparr>"

definition after_failure :: "loop_env \<Rightarrow> relay_error \<Rightarrow> request \<Rightarrow> world \<Rightarrow> request \<times> world" where
  "after_failure env e rq w =
     (let st = first_failure rq e; rq1 = rq\<lparr>rq_failures := ls_attempts st\<rparr>;
          times = (if may_retry env rq e then nat (ro_retry_times (le_options env)) else 0);
          (rq2, w2) = (if charged_violation rq1 e then charge_violation (ls_history st) (ls_attempts st) rq1 w else (rq1, w));
          (rq3, w3) = reportChannelError (le_options env) (report_of rq2 e) rq2 w2;
          (fallback, w4) = getLastRetryFallbackChannel (rq_channel rq) w3;
          st' = st\<lparr>ls_last := (case fallback of Inl _ \<Rightarrow> None | Inr c \<Rightarrow> c)\<rparr>
      in if rq_skip_retry rq3 then (finish_without_retry st' rq3, w4)
         else (case retries env times st' rq3 w4 of
             (None, r) \<Rightarrow> r
           | (Some st2, rq4, w5) \<Rightarrow> (finish_failed st2 rq4, w5)))"

definition Relay :: "loop_env \<Rightarrow> request \<Rightarrow> world \<Rightarrow> request \<times> world" where
  "Relay env rq w =
     (case measureSourceAttempt (le_handler env) (rq\<lparr>rq_history := [rq_channel rq]\<rparr>) w of
        (None, rq1, w1) \<Rightarrow> succeeded env rq1 w1
      | (Some e, rq1, w1) \<Rightarrow> after_failure env e rq1 w1)"

section \<open>Frames\<close>

lemma select_retry_bounded:
  assumes "selectRetryChannel rnd rnd2 ctx grp model failed w = (Inr (Inr c, failed'), w')" "HasRetryBoundary ctx"
  shows "failed' = failed \<and> c_id c \<notin> set failed \<and> RetryProviderAllows ctx c"
proof -
  from assms obtain k where sel: "CacheGetRandomSatisfiedChannel rnd ctx grp model 0 [] failed w = (Inr (c, k), w')"
    and f: "failed' = failed"
    by (auto simp: selectRetryChannel_def split: sum.splits if_splits)
  from sel show ?thesis
  proof (rule select_Inr)
    fix w1 assume "bound_channel ctx grp model 0 [] failed w = (Inr (Some (c, k)), w1)"
    then show ?thesis by (simp add: bound_channel_def)
  next
    fix p assume "c \<in> set (filterRetryProviderChannels ctx (level_channels grp model failed p (w_db w)))"
    then have "c \<in> set (level_channels grp model failed p (w_db w))" "RetryProviderAllows ctx c" by simp_all
    with level_channels_member [OF this(1)] f show ?thesis by blast
  qed
qed

text \<open>What the steps of an attempt leave alone.\<close>

definition same_books :: "request \<Rightarrow> request \<Rightarrow> bool" where
  "same_books rq rq' \<longleftrightarrow> rq_charges rq' = rq_charges rq \<and> rq_errors rq' = rq_errors rq \<and>
     rq_affinity_success rq' = rq_affinity_success rq \<and> rq_response rq' = rq_response rq \<and>
     rq_systemone rq' = rq_systemone rq \<and> rq_bounds rq' = rq_bounds rq \<and> rq_skip_retry rq' = rq_skip_retry rq"

text \<open>A retry changes the channel and the key of the context, nothing else.\<close>

lemma retry_setup_Some:
  assumes "retry_setup env n st rq w = (Inr (Some (c, k, rq1), failed), w1)"
  shows "same_books rq rq1" "rq_channel rq1 = c_id c"
    and "HasRetryBoundary (rq_bounds rq) \<Longrightarrow>
       failed = ls_failed st \<and> c_id c \<notin> set (ls_failed st) \<and> RetryProviderAllows (rq_bounds rq) c"
proof -
  from assms obtain w2 w3 w4 where n: "next_channel env n st rq w = (Inr (Some c, failed), w2)"
    and s: "SetupContextForSelectedChannel (le_rnd env n 3) c (rq_model rq) rq w3 = (Inr rq1, w4)"
    by (auto simp: retry_setup_def split: option.splits prod.splits)
  from s show "same_books rq rq1" "rq_channel rq1 = c_id c"
    by (auto simp: SetupContextForSelectedChannel_def same_books_def)
  show "failed = ls_failed st \<and> c_id c \<notin> set (ls_failed st) \<and> RetryProviderAllows (rq_bounds rq) c"
    if b: "HasRetryBoundary (rq_bounds rq)"
  proof -
    from n obtain r where sel: "selectRetryChannel (le_rnd env n 0) (le_rnd env n 1) (rq_bounds rq) (rq_group rq) (rq_model rq) (ls_failed st) w
        = (Inr (r, failed), w2)" and c: "r = Inr c"
      using b by (auto simp: next_channel_def split: sum.splits)
    from select_retry_bounded [OF sel [unfolded c] b] show ?thesis .
  qed
qed

lemma measure_frame:
  assumes "measureSourceAttempt h rq w = (r, rq', w')"
  shows "same_books rq rq'" "rq_channel rq' = rq_channel rq" "rq_history rq' = rq_history rq"
  using assms by (auto simp: measureSourceAttempt_def same_books_def split: prod.splits)

lemma report_frame:
  assumes "reportChannelError opts rep rq w = (rq', w')"
  shows "same_books rq rq'" "rq_channel rq' = rq_channel rq" "rq_history rq' = rq_history rq"
  using assms by (auto simp: reportChannelError_def same_books_def split: prod.splits sum.splits if_splits)

lemma charged_violation_cong: "rq_systemone rq' = rq_systemone rq \<Longrightarrow> charged_violation rq' e = charged_violation rq e"
  by (simp add: charged_violation_def)

lemma charged_not_retried: "charged_violation rq e \<Longrightarrow> \<not> may_retry env rq' e"
  using violation_not_retried by (simp add: charged_violation_def may_retry_def)


section \<open>A failed request is settled once\<close>

text \<open>The channel of a retry: within the boundaries of the request a new one.\<close>

definition fresh_channel :: "loop_state \<Rightarrow> request \<Rightarrow> channel \<Rightarrow> bool" where
  "fresh_channel st rq c \<longleftrightarrow> (HasRetryBoundary (rq_bounds rq) \<longrightarrow>
     c_id c \<notin> set (ls_failed st) \<and> RetryProviderAllows (rq_bounds rq) c)"

definition noted :: "loop_state \<Rightarrow> request \<Rightarrow> channel \<Rightarrow> loop_state \<Rightarrow> bool" where
  "noted st rq c st' \<longleftrightarrow> ls_history st' = ls_history st @ [c_id c] \<and>
     (HasRetryBoundary (rq_bounds rq) \<longrightarrow> ls_failed st' = appendUniqueChannelID (ls_failed st) (c_id c))"

text \<open>The ways one round of the loop ends.\<close>

lemma retries_round:
  assumes "retries env (Suc n) st rq w = (o1, rq', w')"
  obtains (stopped) st' where "o1 = Some st'" "ls_err st' = ls_err st" "ls_history st' = ls_history st" "rq' = rq"
  | (unreadable) c st' where "o1 = Some st'" "fresh_channel st rq c" "ls_err st' = ls_err st"
      "ls_history st' = ls_history st @ [c_id c]" "same_books rq rq'"
  | (success) c rq2 w2 where "o1 = None" "fresh_channel st rq c" "same_books rq rq2"
      "rq_history rq2 = ls_history st @ [c_id c]" "(rq', w') = succeeded env rq2 w2"
  | (violation) c st' x where "o1 = Some st'" "fresh_channel st rq c" "noted st rq c st'" "charged_violation rq (ls_err st')"
      "same_books (rq\<lparr>rq_charges := rq_charges rq @ [x]\<rparr>) rq'"
  | (final) c st' where "o1 = Some st'" "fresh_channel st rq c" "noted st rq c st'" "\<not> charged_violation rq (ls_err st')"
      "same_books rq rq'"
  | (again) c st' rq4 w4 where "retries env n st' rq4 w4 = (o1, rq', w')" "fresh_channel st rq c" "noted st rq c st'"
      "\<not> charged_violation rq (ls_err st')" "same_books rq rq4"
proof -
  obtain r w1 where su: "retry_setup env n st rq w = (r, w1)" by fastforce
  show thesis
  proof (cases r)
    case (Inl e)
    with assms su show thesis by (intro stopped [of st]) auto
  next
    case (Inr p)
    obtain x failed where p: "p = (x, failed)" by (cases p)
    show thesis
    proof (cases x)
      case None
      with assms su Inr p show thesis by (intro stopped [of "st\<lparr>ls_failed := failed\<rparr>"]) auto
    next
      case (Some y)
      obtain c k rq1 where y: "y = (c, k, rq1)" by (cases y)
      note su = su [unfolded Inr p Some y]
      note b1 = retry_setup_Some(1,2) [OF su]
      have fresh: "fresh_channel st rq c" and keep: "HasRetryBoundary (rq_bounds rq) \<Longrightarrow> failed = ls_failed st"
        using retry_setup_Some(3) [OF su] by (auto simp: fresh_channel_def)
      define st1 where "st1 = on_channel c failed st"
      define rq1' where "rq1' = rq1\<lparr>rq_history := ls_history st1, rq_failures := ls_attempts st1\<rparr>"
      have b1': "same_books rq rq1'" using b1(1) by (simp add: rq1'_def same_books_def)
      show thesis
      proof (cases "le_body env n")
        case False
        with assms su b1(1) fresh show thesis by (intro unreadable [of st1 c]) (auto simp: st1_def on_channel_def)
      next
        case True
        obtain m rq2 w2 where m: "measureSourceAttempt (le_handler env) rq1' w1 = (m, rq2, w2)" by (metis prod_cases3)
        note b2 = measure_frame [OF m]
        note m' = m [unfolded rq1'_def st1_def]
        have b12: "same_books rq rq2" using b1' b2(1) by (simp add: same_books_def)
        have hist: "rq_history rq2 = ls_history st @ [c_id c]" using b2(3) by (simp add: rq1'_def st1_def on_channel_def)
        show thesis
        proof (cases m)
          case None
          have "(o1, rq', w') = (None, succeeded env rq2 w2)" using assms su True m' None by simp
          with b12 hist fresh show thesis by (intro success [of c rq2 w2]) simp_all
        next
          case (Some e)
          define st2 where "st2 = add_failure (ro_retry_times (le_options env) - int n + 1) c k (rq_channel rq2) e st1"
          define att where "att = ls_attempts st2"
          define rq3 where "rq3 = rq2\<lparr>rq_failures := att\<rparr>"
          have b13: "same_books rq rq3" using b12 by (simp add: rq3_def same_books_def)
          have ch: "rq_channel rq2 = c_id c" using b2(2) b1(2) by (simp add: rq1'_def)
          have st2: "noted st rq c st2" "ls_err st2 = e" "ls_history st2 = ls_history st1"
            using keep ch by (auto simp: noted_def st2_def st1_def on_channel_def add_failure_def)
          have cv: "charged_violation rq3 e = charged_violation rq e" using b13 by (simp add: charged_violation_def same_books_def)
          have run: "(if charged_violation rq3 e
               then (case charge_violation (ls_history st2) att rq3 w2 of (rq4, w3) \<Rightarrow>
                            (Some st2, reportChannelError (le_options env) (report_of rq4 e) rq4 w3))
               else (case reportChannelError (le_options env) (report_of rq3 e) rq3 w2 of (rq4, w3) \<Rightarrow>
                            if \<not> may_retry env rq3 e then (Some st2, rq4, w3)
                            else retries env n st2 rq4 w3)) = (o1, rq', w')"
            using assms True unfolding st2_def att_def rq3_def st1_def
            by (simp only: retries.simps su prod.case sum.case option.case Let_def if_False m' Some simp_thms not_True_eq_False)
          show thesis
          proof (cases "charged_violation rq3 e")
            case True
            define rq4 where "rq4 = rq3\<lparr>rq_charges := rq_charges rq3 @ [(rq_channel rq3, ls_history st2, att)]\<rparr>"
            obtain rq5 w5 where rp: "reportChannelError (le_options env) (report_of rq4 e) rq4 (snd (violation_charge rq3 w2)) = (rq5, w5)"
              by fastforce
            have "o1 = Some st2" "rq' = rq5" using run True rp by (simp_all add: charge_violation_def rq4_def)
            moreover have "same_books (rq\<lparr>rq_charges := rq_charges rq @ [(rq_channel rq3, ls_history st2, att)]\<rparr>) rq5"
              using report_frame(1) [OF rp] b13 by (simp add: same_books_def rq4_def)
            moreover have "charged_violation rq (ls_err st2)" using True cv st2(2) by simp
            ultimately show thesis by (intro violation [OF _ fresh st2(1), where x = "(rq_channel rq3, ls_history st2, att)"]) simp_all
          next
            case False
            obtain rq4 w4 where rp: "reportChannelError (le_options env) (report_of rq3 e) rq3 w2 = (rq4, w4)" by fastforce
            have b14: "same_books rq rq4" using report_frame(1) [OF rp] b13 by (simp add: same_books_def)
            show thesis
            proof (cases "may_retry env rq3 e")
              case True
              with run False rp st2 cv fresh b14 show thesis by (intro again [of st2 rq4 w4 c]) simp_all
            next
              case no: False
              with run False rp st2 cv fresh b14 show thesis by (intro final [of st2 c]) simp_all
            qed
          qed
        qed
      qed
    qed
  qed
qed

section \<open>A failed request is settled once\<close>

lemma retries_books:
  assumes "retries env n st rq w = (o1, rq', w')" "\<not> charged_violation rq (ls_err st)"
  shows "case o1 of
      None \<Rightarrow> rq_affinity_success rq' \<and> rq_charges rq' = rq_charges rq \<and> rq_errors rq' = rq_errors rq \<and> rq_response rq' = rq_response rq
    | Some st' \<Rightarrow> rq_affinity_success rq' = rq_affinity_success rq \<and> rq_errors rq' = rq_errors rq \<and>
        rq_systemone rq' = rq_systemone rq \<and>
        (if charged_violation rq (ls_err st') then \<exists>x. rq_charges rq' = rq_charges rq @ [x] else rq_charges rq' = rq_charges rq)"
  using assms
proof (induction n arbitrary: st rq w)
  case 0
  then show ?case by auto
next
  case (Suc n)
  from Suc.prems(1) show ?case
  proof (cases rule: retries_round)
    case (success c rq2 w2)
    then show ?thesis by (simp add: succeeded_def same_books_def)
  next
    case (again c st' rq4 w4)
    have cv: "charged_violation rq4 e = charged_violation rq e" for e
      using again(5) by (simp add: charged_violation_def same_books_def)
    from Suc.IH [OF again(1)] again(4,5) show ?thesis by (auto simp: cv same_books_def split: option.splits)
  qed (use Suc.prems(2) in \<open>auto simp: same_books_def\<close>)
qed

lemma retries_history:
  assumes "retries env n st rq w = (o1, rq', w')"
    and "HasRetryBoundary (rq_bounds rq) \<longrightarrow> (\<forall>i\<in>set (ls_history st). 0 < i \<longrightarrow> i \<in> set (ls_failed st)) \<and>
      distinct (filter (\<lambda>i. 0 < i) (ls_history st))"
  shows "\<exists>h. (case o1 of None \<Rightarrow> rq_history rq' | Some st' \<Rightarrow> ls_history st') = ls_history st @ h \<and> length h \<le> n \<and>
    (HasRetryBoundary (rq_bounds rq) \<longrightarrow> distinct (filter (\<lambda>i. 0 < i) (ls_history st @ h)) \<and>
       (0 < rx_state_channel (rq_bounds rq) \<longrightarrow> set h \<subseteq> {rx_state_channel (rq_bounds rq)}))"
  using assms
proof (induction n arbitrary: st rq w)
  case 0
  then show ?case by auto
next
  case (Suc n)
  have new: "HasRetryBoundary (rq_bounds rq) \<longrightarrow> distinct (filter (\<lambda>i. 0 < i) (ls_history st @ [c_id c])) \<and>
       (0 < rx_state_channel (rq_bounds rq) \<longrightarrow> set [c_id c] \<subseteq> {rx_state_channel (rq_bounds rq)})"
    if "fresh_channel st rq c" for c
    using that Suc.prems(2) by (auto simp: fresh_channel_def RetryProviderAllows_def)
  from Suc.prems(1) show ?case
  proof (cases rule: retries_round)
    case (stopped st')
    with Suc.prems(2) show ?thesis by (intro exI [of _ "[]"]) simp
  next
    case (unreadable c st')
    with new [of c] show ?thesis by (intro exI [of _ "[c_id c]"]) simp
  next
    case (success c rq2 w2)
    with new [of c] show ?thesis by (intro exI [of _ "[c_id c]"]) (simp add: succeeded_def)
  next
    case (violation c st' x)
    with new [of c] show ?thesis by (intro exI [of _ "[c_id c]"]) (simp add: noted_def)
  next
    case (final c st')
    with new [of c] show ?thesis by (intro exI [of _ "[c_id c]"]) (simp add: noted_def)
  next
    case (again c st' rq4 w4)
    have b: "rq_bounds rq4 = rq_bounds rq" using again(5) by (simp add: same_books_def)
    have h: "ls_history st' = ls_history st @ [c_id c]" using again(3) by (simp add: noted_def)
    have "HasRetryBoundary (rq_bounds rq4) \<longrightarrow> (\<forall>i\<in>set (ls_history st'). 0 < i \<longrightarrow> i \<in> set (ls_failed st')) \<and>
        distinct (filter (\<lambda>i. 0 < i) (ls_history st'))"
      using new [OF again(2)] Suc.prems(2) again(3) by (auto simp: b noted_def appendUniqueChannelID_def)
    from Suc.IH [OF again(1) this] obtain h' where
      "(case o1 of None \<Rightarrow> rq_history rq' | Some st' \<Rightarrow> ls_history st') = ls_history st' @ h'" "length h' \<le> n"
      "HasRetryBoundary (rq_bounds rq) \<longrightarrow> distinct (filter (\<lambda>i. 0 < i) (ls_history st' @ h')) \<and>
         (0 < rx_state_channel (rq_bounds rq) \<longrightarrow> set h' \<subseteq> {rx_state_channel (rq_bounds rq)})"
      unfolding b by blast
    with new [OF again(2)] show ?thesis by (intro exI [of _ "c_id c # h'"]) (auto simp: h)
  qed
qed

text \<open>What a first failure hands to the loop.\<close>

lemma after_failure_run:
  assumes "after_failure env e rq w = (rq', w')"
  obtains rq3 st w4 where "ls_err st = e" "ls_history st = [rq_channel rq]" "ls_failed st = [rq_channel rq]"
    "rq_history rq3 = rq_history rq"
    "if charged_violation rq e then \<exists>x. same_books (rq\<lparr>rq_charges := rq_charges rq @ [x]\<rparr>) rq3 else same_books rq rq3"
    "if rq_skip_retry rq then rq' = finish_without_retry st rq3
     else (case retries env (if may_retry env rq e then nat (ro_retry_times (le_options env)) else 0) st rq3 w4 of
             (None, r) \<Rightarrow> r | (Some st2, rq4, w5) \<Rightarrow> (finish_failed st2 rq4, w5)) = (rq', w')"
proof -
  let ?st = "first_failure rq e"
  define rq1 where "rq1 = rq\<lparr>rq_failures := ls_attempts ?st\<rparr>"
  obtain rq2 w2 where c: "(if charged_violation rq1 e then charge_violation (ls_history ?st) (ls_attempts ?st) rq1 w else (rq1, w)) = (rq2, w2)"
    by fastforce
  obtain rq3 w3 where rp: "reportChannelError (le_options env) (report_of rq2 e) rq2 w2 = (rq3, w3)" by fastforce
  obtain fb w4 where fb: "getLastRetryFallbackChannel (rq_channel rq) w3 = (fb, w4)" by fastforce
  define st where "st = ?st\<lparr>ls_last := (case fb of Inl _ \<Rightarrow> None | Inr c \<Rightarrow> c)\<rparr>"
  have cv: "charged_violation rq1 e = charged_violation rq e" by (simp add: rq1_def charged_violation_def)
  have b: "if charged_violation rq e then \<exists>x. same_books (rq\<lparr>rq_charges := rq_charges rq @ [x]\<rparr>) rq3 else same_books rq rq3"
    and h: "rq_history rq3 = rq_history rq"
  proof -
    have rq2: "rq2 = (if charged_violation rq e
        then rq1\<lparr>rq_charges := rq_charges rq @ [(rq_channel rq1, ls_history ?st, ls_attempts ?st)]\<rparr> else rq1)"
      using c [unfolded cv charge_violation_def] by (simp add: rq1_def split: if_splits)
    show "rq_history rq3 = rq_history rq" using report_frame(3) [OF rp] by (simp add: rq2 rq1_def)
    show "if charged_violation rq e then \<exists>x. same_books (rq\<lparr>rq_charges := rq_charges rq @ [x]\<rparr>) rq3 else same_books rq rq3"
    proof (cases "charged_violation rq e")
      case True
      then have "same_books (rq\<lparr>rq_charges := rq_charges rq @ [(rq_channel rq1, ls_history ?st, ls_attempts ?st)]\<rparr>) rq3"
        using report_frame(1) [OF rp] by (simp add: rq2 rq1_def same_books_def)
      with True show ?thesis by auto
    next
      case False
      then show ?thesis using report_frame(1) [OF rp] by (simp add: rq2 rq1_def same_books_def)
    qed
  qed
  have sk: "rq_skip_retry rq3 = rq_skip_retry rq" using b by (auto simp: same_books_def split: if_splits)
  have s: "ls_err st = e" "ls_history st = [rq_channel rq]" "ls_failed st = [rq_channel rq]"
    by (simp_all add: st_def first_failure_def)
  have run: "(if rq_skip_retry rq then (finish_without_retry st rq3, w4)
     else (case retries env (if may_retry env rq e then nat (ro_retry_times (le_options env)) else 0) st rq3 w4 of
             (None, r) \<Rightarrow> r | (Some st2, rq4, w5) \<Rightarrow> (finish_failed st2 rq4, w5))) = (rq', w')"
    using assms unfolding after_failure_def Let_def rq1_def [symmetric] c prod.case rp fb st_def [symmetric] sk .
  show thesis by (rule that [OF s h b, of w4]) (use run in \<open>simp split: if_splits\<close>)
qed

text \<open>
  C3. A request is settled once: when an attempt succeeds nothing is charged or recorded as an
  error, whatever failed before; when the request fails, either the content violation that ended
  it is charged or one error row is written, never both and never two, and the row or the charge is
  that of the last error. The client is answered, except when an affinity rule forbade the retry of
  a request outside the SystemOne mode.
\<close>

theorem relay_failure_settled_once:
  assumes "Relay env rq w = (rq', w')" "rq_charges rq = []" "rq_errors rq = []" "\<not> rq_affinity_success rq" "rq_response rq = None"
  shows "if rq_affinity_success rq' then rq_charges rq' = [] \<and> rq_errors rq' = [] \<and> rq_response rq' = None
    else length (rq_charges rq') + length (rq_errors rq') = 1 \<and>
      (rq_systemone rq \<longrightarrow> rq_charges rq' = []) \<and> (rq_response rq' = None \<longleftrightarrow> \<not> rq_systemone rq \<and> rq_skip_retry rq)"
proof -
  obtain m rq1 w1 where m: "measureSourceAttempt (le_handler env) (rq\<lparr>rq_history := [rq_channel rq]\<rparr>) w = (m, rq1, w1)"
    by (metis prod_cases3)
  note b1 = measure_frame(1) [OF m, unfolded same_books_def]
  show ?thesis
  proof (cases m)
    case None
    with assms m b1 show ?thesis by (auto simp: Relay_def succeeded_def)
  next
    case (Some e)
    with assms(1) m have run: "after_failure env e rq1 w1 = (rq', w')" by (simp add: Relay_def)
    from run obtain rq3 st w4 where st: "ls_err st = e"
      and b3: "if charged_violation rq1 e then \<exists>x. same_books (rq1\<lparr>rq_charges := rq_charges rq1 @ [x]\<rparr>) rq3 else same_books rq1 rq3"
      and fin: "if rq_skip_retry rq1 then rq' = finish_without_retry st rq3
        else (case retries env (if may_retry env rq1 e then nat (ro_retry_times (le_options env)) else 0) st rq3 w4 of
             (None, r) \<Rightarrow> r | (Some st2, rq4, w5) \<Rightarrow> (finish_failed st2 rq4, w5)) = (rq', w')"
      by (rule after_failure_run)
    have cv: "charged_violation rq3 x = charged_violation rq x" "charged_violation rq1 x = charged_violation rq x" for x
      using b1 b3 by (auto simp: charged_violation_def same_books_def split: if_splits)
    have start: "length (rq_charges rq3) = (if charged_violation rq e then 1 else 0)" "rq_errors rq3 = []"
      "\<not> rq_affinity_success rq3" "rq_response rq3 = None" "rq_systemone rq3 = rq_systemone rq" "rq_skip_retry rq1 = rq_skip_retry rq"
      "rq_systemone rq \<Longrightarrow> rq_charges rq3 = []"
      using b1 b3 assms(2-5) unfolding cv(2)
      by (auto simp: same_books_def charged_violation_def split: if_splits)
    show ?thesis
    proof (cases "rq_skip_retry rq")
      case True
      with fin start st show ?thesis by (auto simp: finish_without_retry_def Let_def cv)
    next
      case False
      obtain o1 rq4 w5 where rt: "retries env (if may_retry env rq1 e then nat (ro_retry_times (le_options env)) else 0) st rq3 w4 = (o1, rq4, w5)"
        by (metis prod_cases3)
      show ?thesis
      proof (cases "charged_violation rq e")
        case True
        then have "\<not> may_retry env rq1 e" using charged_not_retried by blast
        with rt fin False start(6) have "rq' = finish_failed st rq3" by auto
        with True start st False show ?thesis
          by (auto simp: finish_failed_def Let_def cv charged_violation_def isXAIContentViolation_def)
      next
        case no: False
        with st have "\<not> charged_violation rq3 (ls_err st)" by (simp add: cv)
        note rb = retries_books [OF rt this]
        show ?thesis
        proof (cases o1)
          case None
          with rb rt fin False start no show ?thesis by auto
        next
          case (Some st2)
          have "rq' = finish_failed st2 rq4" using Some rt fin False start(6) by simp
          with rb Some start no False show ?thesis
            by (auto simp: finish_failed_def Let_def cv charged_violation_def isXAIContentViolation_def split: if_splits)
        qed
      qed
    qed
  qed
qed


section \<open>A run\<close>

definition a_request :: request where
  "a_request = \<lparr>rq_systemone = False, rq_user = 1, rq_token = 5, rq_group = ''g'', rq_model = ''m'', rq_response_id = [],
     rq_bounds = no_boundary, rq_specific = False, rq_skip_retry = False, rq_no_retry = False, rq_started = False,
     rq_channel = 1, rq_channel_name = ''one'', rq_multi = False, rq_cached_key = - 1, rq_excluded = [], rq_actual_key = ''k'',
     rq_key_index = 0, rq_history = [], rq_failures = [], rq_affinity_key = [], rq_affinity_success = False, rq_metrics = [],
     rq_emits = [], rq_spawned = [], rq_charges = [], rq_errors = [], rq_response = None\<rparr>"

text \<open>Channel 1 answers 429, any other channel is served.\<close>

definition busy_first :: handler where
  "busy_first rq w =
     (\<lparr>ao_error = (if rq_channel rq = 1
          then Some \<lparr>re_message = ''busy'', re_type = [], re_code = None, re_status = 429\<rparr> else None),
        ao_started = True, ao_no_retry = False, ao_cancelled = False\<rparr>, w)"

definition an_env :: loop_env where
  "an_env = \<lparr>le_handler = busy_first,
     le_options = \<lparr>ro_auto_disable = True, ro_auto_enable = False, ro_disable_keywords = [], ro_retry_keywords = [],
        ro_retry_times = 2\<rparr>,
     le_rnd = (\<lambda>_ _. 5), le_body = (\<lambda>_. True), le_eligible = (\<lambda>_. False)\<rparr>"

theorem relay_failure_settled_once_witness:
  "length (rq_charges (fst (Relay an_env a_request select_demo))) + length (rq_errors (fst (Relay an_env a_request select_demo))) \<le> 1"
proof -
  obtain rq' w' where r: "Relay an_env a_request select_demo = (rq', w')" by fastforce
  have "rq_charges a_request = []" "rq_errors a_request = []" "\<not> rq_affinity_success a_request" "rq_response a_request = None"
    by (simp_all add: a_request_def)
  from relay_failure_settled_once [OF r this] r show ?thesis by (auto split: if_splits)
qed


end
