(* ===== verification/Affinity.thy ===== *)
theory Affinity
  imports RelayLoop
begin

text \<open>
  \<open>service/channel_affinity.go\<close>: rules that send requests with the same key back to the channel that
  last served the key. The compilation of a regular expression, \<open>gjson\<close> and the digest are arguments.
\<close>

section \<open>Rules\<close>

record affinity_source =
  as_type :: string
  as_key :: string
  as_path :: string

record affinity_rule =
  ar_name :: string
  ar_model_regex :: "string list"
  ar_path_regex :: "string list"
  ar_user_agent :: "string list"
  ar_sources :: "affinity_source list"
  ar_value_regex :: string
  ar_ttl :: int
  ar_skip_retry :: bool
  ar_with_name :: bool
  ar_with_model :: bool
  ar_with_group :: bool

record affinity_setting =
  at_enabled :: bool
  at_default_ttl :: int
  at_rules :: "affinity_rule list"

text \<open>
  The libraries: \<open>al_regex p\<close> is the matcher of the expression \<open>p\<close>, if it compiles, \<open>al_gjson body path\<close>
  the text at a path of a body, if there is one, \<open>al_sha1\<close> the hexadecimal text of the first four bytes
  of a digest. The compiled expressions the code keeps are what compiling again gives.
\<close>

record affinity_lib =
  al_regex :: "string \<Rightarrow> (string \<Rightarrow> bool) option"
  al_gjson :: "string \<Rightarrow> string \<Rightarrow> string option"
  al_sha1 :: "string \<Rightarrow> string"

definition matchAnyRegex :: "affinity_lib \<Rightarrow> string list \<Rightarrow> string \<Rightarrow> bool" where
  "matchAnyRegex L patterns s = list_ex (\<lambda>p. p \<noteq> [] \<and> (case al_regex L p of None \<Rightarrow> False | Some m \<Rightarrow> m s)) patterns"

definition matchAnyInclude :: "string list \<Rightarrow> string \<Rightarrow> bool" where
  "matchAnyInclude patterns s = list_ex (\<lambda>p. str_contains (to_lower s) (to_lower p)) patterns"

section \<open>The request\<close>

text \<open>
  What a request carries for the rules: numbers and texts of the context by key, path, user agent and
  body, and what earlier steps set, \<open>None\<close> where the context has no value.
\<close>

record affinity_log =
  lg_rule :: string
  lg_model :: string
  lg_group :: string
  lg_path :: string
  lg_hint :: string
  lg_print :: string

record affinity_ctx =
  ax_int :: "string \<Rightarrow> int"
  ax_string :: "string \<Rightarrow> string"
  ax_path :: string
  ax_user_agent :: string
  ax_body :: "gerr + string"
  ax_cache_key :: "string option"
  ax_ttl :: "int option"
  ax_skip_retry :: "bool option"
  ax_log :: "affinity_log option"
  ax_cached_index :: "int option"
  ax_multi :: bool
  ax_success :: bool

definition extractAffinityValue :: "affinity_lib \<Rightarrow> affinity_ctx \<Rightarrow> affinity_source \<Rightarrow> string" where
  "extractAffinityValue L c src =
     (if as_type src = ''context_int'' then (if ax_int c (as_key src) \<le> 0 then [] else itoa (ax_int c (as_key src)))
      else if as_type src = ''context_string'' then trim_space (ax_string c (as_key src))
      else if as_type src = ''gjson'' then
        (if as_path src = [] then []
         else case ax_body c of
           Inl _ \<Rightarrow> []
         | Inr body \<Rightarrow>
             if body = [] then []
             else case al_gjson L body (as_path src) of None \<Rightarrow> [] | Some s \<Rightarrow> trim_space s)
      else [])"

definition buildAffinityCacheKey :: "affinity_rule \<Rightarrow> string \<Rightarrow> string \<Rightarrow> string \<Rightarrow> string" where
  "buildAffinityCacheKey rule model grp v =
     join_with '':'' ([''channel_affinity:v1''] @
       (if ar_with_name rule \<and> ar_name rule \<noteq> [] then [ar_name rule] else []) @
       (if ar_with_model rule \<and> model \<noteq> [] then [model] else []) @
       (if ar_with_group rule \<and> grp \<noteq> [] then [grp] else []) @ [v])"

section \<open>Redis\<close>

definition deleteAffinityRedis :: "string \<Rightarrow> unit op" where
  "deleteAffinityRedis key = reading (\<lambda>w. if \<not> cfg_redis (w_cfg w) then ret () else ignore_err (RedisDel key))"

definition setAffinityRedis :: "string \<Rightarrow> int \<Rightarrow> int \<Rightarrow> int \<Rightarrow> unit op" where
  "setAffinityRedis key channelID keyIndex ttl = reading (\<lambda>w.
     if \<not> cfg_redis (w_cfg w) then ret ()
     else ignore_err (RedisSet key (if 0 \<le> keyIndex then itoa channelID @ '':'' @ itoa keyIndex else itoa channelID) ttl))"

definition getAffinityRedis :: "string \<Rightarrow> (int \<times> int) option op" where
  "getAffinityRedis key = reading (\<lambda>w.
     if \<not> cfg_redis (w_cfg w) then ret None
     else on_result (RedisGet key) (\<lambda>r. case r of
       Inl _ \<Rightarrow> ret None
     | Inr v \<Rightarrow>
         (case split_colon (trim_space v) of (a, b) \<Rightarrow>
            (case parse_int64 a of
               None \<Rightarrow> ret None
             | Some i \<Rightarrow>
                 if i \<le> 0 then ret None
                 else ret (Some (i, case b of None \<Rightarrow> - 1
                   | Some t \<Rightarrow> (case parse_int64 t of None \<Rightarrow> - 1 | Some k \<Rightarrow> if 0 \<le> k then k else - 1)))))))"

definition affinityKeyHint :: "string \<Rightarrow> string" where
  "affinityKeyHint s = (let t = trim_space s
     in if length t \<le> 12 then t else take 4 t @ ''...'' @ drop (length t - 4) t)"

section \<open>The preferred channel\<close>

text \<open>The value of the first source that has one.\<close>

fun rule_value :: "affinity_lib \<Rightarrow> affinity_ctx \<Rightarrow> affinity_source list \<Rightarrow> string" where
  "rule_value L c [] = []"
| "rule_value L c (src # srcs) =
     (let v = extractAffinityValue L c src in if v \<noteq> [] then v else rule_value L c srcs)"

text \<open>The value a rule takes from a request it applies to.\<close>

definition rule_applies :: "affinity_lib \<Rightarrow> affinity_ctx \<Rightarrow> string \<Rightarrow> affinity_rule \<Rightarrow> string option" where
  "rule_applies L c model rule =
     (if \<not> matchAnyRegex L (ar_model_regex rule) model then None
      else if ar_path_regex rule \<noteq> [] \<and> \<not> matchAnyRegex L (ar_path_regex rule) (ax_path c) then None
      else if ar_user_agent rule \<noteq> [] \<and> \<not> matchAnyInclude (ar_user_agent rule) (ax_user_agent c) then None
      else let v = rule_value L c (ar_sources rule)
      in if v = [] then None
         else if ar_value_regex rule \<noteq> [] \<and> \<not> matchAnyRegex L [ar_value_regex rule] v then None
         else Some v)"

record affinity_match =
  am_key :: string
  am_ttl :: int
  am_log :: affinity_log

definition match_of :: "affinity_lib \<Rightarrow> affinity_setting \<Rightarrow> affinity_ctx \<Rightarrow> string \<Rightarrow> string \<Rightarrow> affinity_rule \<Rightarrow> string \<Rightarrow> affinity_match" where
  "match_of L setting c model grp rule v =
     \<lparr>am_key = buildAffinityCacheKey rule model grp v,
      am_ttl = (if ar_ttl rule \<le> 0 then at_default_ttl setting else ar_ttl rule),
      am_log = \<lparr>lg_rule = ar_name rule, lg_model = model, lg_group = grp, lg_path = ax_path c,
                lg_hint = affinityKeyHint v, lg_print = al_sha1 L v\<rparr>\<rparr>"

definition set_match :: "affinity_match \<Rightarrow> bool \<Rightarrow> affinity_ctx \<Rightarrow> affinity_ctx" where
  "set_match m skip c = c\<lparr>ax_cache_key := Some (am_key m), ax_ttl := Some (am_ttl m), ax_skip_retry := Some skip, ax_log := Some (am_log m)\<rparr>"

fun try_rules ::
  "affinity_lib \<Rightarrow> affinity_setting \<Rightarrow> string \<Rightarrow> string \<Rightarrow> affinity_rule list \<Rightarrow> affinity_match option \<Rightarrow> affinity_ctx \<Rightarrow>
   world \<Rightarrow> (int option \<times> affinity_ctx) \<times> world" where
  "try_rules L setting model grp [] firstMatch c w =
     ((None, case firstMatch of None \<Rightarrow> c | Some m \<Rightarrow> set_match m False c), w)"
| "try_rules L setting model grp (rule # rules) firstMatch c w =
     (case rule_applies L c model rule of
        None \<Rightarrow> try_rules L setting model grp rules firstMatch c w
      | Some v \<Rightarrow>
          (let m = match_of L setting c model grp rule v
           in case getAffinityRedis (am_key m) w of
             (Inr (Some (channelID, keyIndex)), w1) \<Rightarrow>
               (let c1 = set_match m (ar_skip_retry rule) c
                in ((Some channelID, if 0 \<le> keyIndex then c1\<lparr>ax_cached_index := Some keyIndex\<rparr> else c1), w1))
           | (_, w1) \<Rightarrow>
               try_rules L setting model grp rules (case firstMatch of None \<Rightarrow> Some m | Some f \<Rightarrow> Some f) c w1))"

definition GetPreferredChannelByAffinity ::
  "affinity_lib \<Rightarrow> affinity_setting \<Rightarrow> affinity_ctx \<Rightarrow> string \<Rightarrow> string \<Rightarrow> world \<Rightarrow> (int option \<times> affinity_ctx) \<times> world" where
  "GetPreferredChannelByAffinity L setting c model grp w =
     (if \<not> at_enabled setting then ((None, c), w) else try_rules L setting model grp (at_rules setting) None c w)"

definition InvalidateChannelAffinity :: "affinity_ctx \<Rightarrow> world \<Rightarrow> affinity_ctx \<times> world" where
  "InvalidateChannelAffinity c w =
     (let c1 = c\<lparr>ax_cached_index := Some (- 1), ax_skip_retry := Some False\<rparr>
      in case ax_cache_key c of
           None \<Rightarrow> (c1, w)
         | Some key \<Rightarrow> if key = [] then (c1, w) else (c1\<lparr>ax_cache_key := Some []\<rparr>, snd (deleteAffinityRedis key w)))"

definition RecordChannelAffinity :: "affinity_setting \<Rightarrow> affinity_ctx \<Rightarrow> int \<Rightarrow> world \<Rightarrow> world" where
  "RecordChannelAffinity setting c channelID w =
     (if channelID \<le> 0 then w
      else if \<not> at_enabled setting then w
      else case ax_cache_key c of
        None \<Rightarrow> w
      | Some key \<Rightarrow>
          if key = [] then w
          else (let t = (case ax_ttl c of None \<Rightarrow> 0 | Some t \<Rightarrow> t);
                    t1 = (if t \<le> 0 then at_default_ttl setting else t);
                    ttl = (if t1 \<le> 0 then 3600 else t1)
                in snd (setAffinityRedis key channelID (if ax_multi c then ax_int c ''key_index'' else - 1) ttl w)))"

definition ShouldSkipRetryAfterChannelAffinityFailure :: "affinity_ctx \<Rightarrow> bool" where
  "ShouldSkipRetryAfterChannelAffinityFailure c = (case ax_skip_retry c of None \<Rightarrow> False | Some b \<Rightarrow> b)"

definition ClearChannelAffinityContext :: "affinity_ctx \<Rightarrow> affinity_ctx" where
  "ClearChannelAffinityContext c = c\<lparr>ax_cache_key := Some []\<rparr>"

definition MarkAffinityRelaySuccess :: "affinity_ctx \<Rightarrow> affinity_ctx" where
  "MarkAffinityRelaySuccess c = c\<lparr>ax_success := True\<rparr>"

definition IsAffinityRelaySuccess :: "affinity_ctx \<Rightarrow> bool" where
  "IsAffinityRelaySuccess c = ax_success c"

definition GetAffinityLogTag :: "affinity_ctx \<Rightarrow> string" where
  "GetAffinityLogTag c =
     (case ax_log c of
        None \<Rightarrow> []
      | Some l \<Rightarrow> if lg_rule l = [] then [] else ''affinity_rule:'' @ lg_rule l @ '';affinity_key_fp:'' @ lg_print l)"

definition IsAffinityEligibleModel :: "string \<Rightarrow> bool" where
  "IsAffinityEligibleModel model = list_ex (has_prefix model) [''gpt-'', ''o1'', ''o3'', ''o4'', ''claude-'', ''gemini-'']"

section \<open>What a rule remembers\<close>

lemma trim_no_space: "\<forall>c\<in>set s. \<not> is_space c \<Longrightarrow> trim_space s = s"
proof -
  have d: "\<forall>c\<in>set u. \<not> is_space c \<Longrightarrow> dropWhile is_space u = u" for u by (cases u) auto
  assume "\<forall>c\<in>set s. \<not> is_space c"
  then show "trim_space s = s" using d [of s] d [of "rev s"] by (simp add: trim_space_def)
qed

lemma digits_no_space: "\<forall>c\<in>set (nat_digits n). \<not> is_space c"
proof (induction n rule: nat_digits.induct)
  case (1 n)
  have "\<not> is_space (digit_char k)" if "k < 10" for k using that by (simp add: is_space_def digit_char_def Let_def)
  with 1 show ?case by (simp add: nat_digits.simps [of n])
qed

lemma itoa_no_space: "0 \<le> i \<Longrightarrow> \<forall>c\<in>set (itoa i). \<not> is_space c"
  using digits_no_space by (simp add: itoa_def)

lemma affinity_get_set:
  assumes "setAffinityRedis key ch k ttl w = (r, w1)" "cfg_redis (w_cfg w)" "w_faults w = []" "0 < ch" "in_int64 ch" "in_int64 k" "0 < ttl"
    "w_redis v key = w_redis w1 key" "cfg_redis (w_cfg v)" "w_faults v = []" "w_now v < w_now w + ttl"
  shows "getAffinityRedis key v = (Inr (Some (ch, if 0 \<le> k then k else - 1)), v)"
proof -
  let ?v = "if 0 \<le> k then itoa ch @ '':'' @ itoa k else itoa ch"
  have e: "w_redis v key = Some (?v, Some (w_now w + ttl))"
    using assms(1-3,7,8) by (auto simp: setAffinityRedis_def reading_def ignore_err_def on_result_def RedisSet_def redis_cmd_def take_fault_def)
  have nc: "CHR '':'' \<notin> set (itoa ch)" using assms(4) nat_digits_no_colon by (simp add: itoa_def)
  have sp: "\<not> is_space (CHR '':'')" by (simp add: is_space_def)
  have t: "trim_space ?v = ?v"
    by (rule trim_no_space) (use assms(4) sp itoa_no_space [of ch] itoa_no_space [of k] in auto)
  have s: "split_colon ?v = (itoa ch, if 0 \<le> k then Some (itoa k) else None)"
    using split_colon_plain [OF nc] split_colon_pair [OF nc] by simp
  have g: "RedisGet key v = (Inr ?v, v)"
    using e assms(9-11) by (simp add: RedisGet_def redis_cmd_def take_fault_def live_def)
  show ?thesis
    using assms(4-6,9) g t s by (simp add: getAffinityRedis_def reading_def on_result_def parse_itoa ret_def)
qed

text \<open>The match of the first rule that applies.\<close>

fun first_match :: "affinity_lib \<Rightarrow> affinity_setting \<Rightarrow> affinity_ctx \<Rightarrow> string \<Rightarrow> string \<Rightarrow> affinity_rule list \<Rightarrow> affinity_match option" where
  "first_match L setting c model grp [] = None"
| "first_match L setting c model grp (rule # rules) =
     (case rule_applies L c model rule of
        None \<Rightarrow> first_match L setting c model grp rules
      | Some v \<Rightarrow> Some (match_of L setting c model grp rule v))"

lemma try_rules_miss:
  "try_rules L setting model grp rules f c w = ((None, c1), w1) \<Longrightarrow>
   c1 = (case (case f of Some m \<Rightarrow> Some m | None \<Rightarrow> first_match L setting c model grp rules) of None \<Rightarrow> c | Some m \<Rightarrow> set_match m False c)"
proof (induction rules arbitrary: f w)
  case Nil
  then show ?case by (auto split: option.splits)
next
  case (Cons rule rules)
  show ?case
  proof (cases "rule_applies L c model rule")
    case None
    then have "try_rules L setting model grp rules f c w = ((None, c1), w1)" using Cons.prems by simp
    from Cons.IH [OF this] None show ?thesis by (cases f) simp_all
  next
    case (Some v)
    let ?m = "match_of L setting c model grp rule v"
    obtain g w' where g: "getAffinityRedis (am_key ?m) w = (g, w')" by fastforce
    have "try_rules L setting model grp rules (case f of None \<Rightarrow> Some ?m | Some f \<Rightarrow> Some f) c w' = ((None, c1), w1)"
      using Cons.prems Some g by (auto simp: Let_def split: sum.splits option.splits prod.splits)
    from Cons.IH [OF this] show ?thesis using Some by (cases f) auto
  qed
qed

lemma try_rules_hit:
  assumes "first_match L setting c model grp rules = Some m" "getAffinityRedis (am_key m) w = (Inr (Some (ch, k)), w)"
  shows "\<exists>c'. try_rules L setting model grp rules None c w = ((Some ch, c'), w) \<and>
    ax_cache_key c' = Some (am_key m) \<and> ax_cached_index c' = (if 0 \<le> k then Some k else ax_cached_index c)"
  using assms
proof (induction rules)
  case Nil
  then show ?case by simp
next
  case (Cons rule rules)
  then show ?case by (cases "rule_applies L c model rule") (auto simp: set_match_def Let_def)
qed


text \<open>
  A key that lost its channel starts anew: after the entry of a request has been invalidated, with
  Redis answering, the entry is gone, no key index and no ban on retries is left for the channel chosen
  instead, and the success of the request is not recorded under the old key.
\<close>

theorem invalidated_affinity_forgotten:
  assumes "InvalidateChannelAffinity c w = (c1, w1)" "ax_cache_key c = Some key" "key \<noteq> []" "cfg_redis (w_cfg w)" "w_faults w = []"
  shows "getAffinityRedis key w1 = (Inr None, w1) \<and> \<not> ShouldSkipRetryAfterChannelAffinityFailure c1 \<and>
    ax_cached_index c1 = Some (- 1) \<and> RecordChannelAffinity setting c1 ch v = v"
  using assms
  by (auto simp: InvalidateChannelAffinity_def deleteAffinityRedis_def getAffinityRedis_def ShouldSkipRetryAfterChannelAffinityFailure_def
      RecordChannelAffinity_def reading_def ignore_err_def on_result_def RedisDel_def RedisGet_def redis_cmd_def take_fault_def live_def ret_def Let_def)

section \<open>Concrete runs\<close>

definition demo_lib :: affinity_lib where
  "demo_lib = \<lparr>al_regex = (\<lambda>p. Some (\<lambda>s. str_contains s p)), al_gjson = (\<lambda>_ _. None), al_sha1 = (\<lambda>_. ''00000000'')\<rparr>"

definition demo_rule :: affinity_rule where
  "demo_rule = \<lparr>ar_name = ''r'', ar_model_regex = [''gpt''], ar_path_regex = [], ar_user_agent = [],
     ar_sources = [\<lparr>as_type = ''context_int'', as_key = ''id'', as_path = []\<rparr>], ar_value_regex = [], ar_ttl = 60, ar_skip_retry = True,
     ar_with_name = True, ar_with_model = False, ar_with_group = False\<rparr>"

definition demo_request :: affinity_ctx where
  "demo_request = \<lparr>ax_int = (\<lambda>k. if k = ''id'' then 7 else 2), ax_string = (\<lambda>_. []), ax_path = ''/v1/chat/completions'',
     ax_user_agent = [], ax_body = Inr [], ax_cache_key = None, ax_ttl = None, ax_skip_retry = None, ax_log = None,
     ax_cached_index = None, ax_multi = True, ax_success = False\<rparr>"

definition demo_affinity :: affinity_setting where
  "demo_affinity = \<lparr>at_enabled = True, at_default_ttl = 3600, at_rules = [demo_rule]\<rparr>"

definition affinity_world :: world where
  "affinity_world = (world_with empty_db 100)\<lparr>w_cfg := default_config\<lparr>cfg_redis := True\<rparr>\<rparr>"

lemma affinity_world_facts: "cfg_redis (w_cfg affinity_world)" "w_faults affinity_world = []" "w_now affinity_world = 100" "w_redis affinity_world k = None"
  by (simp_all add: affinity_world_def start_defs)

lemma demo_match: "rule_applies demo_lib demo_request ''gpt-5'' demo_rule = Some (itoa 7)"
proof -
  have "itoa 7 \<noteq> []" using nat_digits_hd [of 7] by (auto simp: itoa_def)
  then show ?thesis by (simp add: rule_applies_def demo_lib_def demo_request_def demo_rule_def matchAnyRegex_def extractAffinityValue_def)
qed


theorem invalidated_affinity_forgotten_witness:
  "\<exists>c1 w1. InvalidateChannelAffinity (demo_request\<lparr>ax_cache_key := Some ''k'', ax_skip_retry := Some True\<rparr>) affinity_world = (c1, w1) \<and>
     getAffinityRedis ''k'' w1 = (Inr None, w1) \<and> \<not> ShouldSkipRetryAfterChannelAffinityFailure c1"
proof -
  let ?c = "demo_request\<lparr>ax_cache_key := Some ''k'', ax_skip_retry := Some True\<rparr>"
  obtain c1 w1 where r: "InvalidateChannelAffinity ?c affinity_world = (c1, w1)" by fastforce
  have "ax_cache_key ?c = Some ''k''" "''k'' \<noteq> []" by simp_all
  from invalidated_affinity_forgotten [OF r this affinity_world_facts(1,2)] r show ?thesis by blast
qed

end
