(* ===== verification/Distributor.thy ===== *)
theory Distributor
  imports ResponsesState Affinity Tokens
begin

text \<open>
  The way of a request to its channel: \<open>middleware/auth.go\<close> finds the user of a session, access token or
  API key, and \<open>middleware/distributor.go\<close> reads the model, binds the history, chooses the channel and
  its key and hands the request on. The context of the relay loop is \<open>dx_rq\<close>; the rest is what only the
  middleware reads.
\<close>

section \<open>Users\<close>

record session_user =
  su_username :: string
  su_role :: int
  su_id :: int
  su_status :: int

text \<open>What a console request is answered: the HTTP status of the abort, or the user to go on with.\<close>

datatype 'a admitted = Aborted int string | Admitted 'a

definition authHelper :: "(int \<Rightarrow> bool) \<Rightarrow> session_user option \<Rightarrow> string \<Rightarrow> int \<Rightarrow> session_user admitted op" where
  "authHelper banned session accessToken minRole =
     on_ok
       (case session of
          Some u \<Rightarrow> ret (Admitted u)
        | None \<Rightarrow>
            if accessToken = [] then ret (Aborted 401 ''Not authorized for this operation, not logged in and no access token provided'')
            else on_ok (ValidateAccessToken accessToken) (\<lambda>r. ret (case r of
              Some u \<Rightarrow>
                if u_username u \<noteq> []
                then Admitted \<lparr>su_username = u_username u, su_role = u_role u, su_id = u_id u, su_status = u_status u\<rparr>
                else Aborted 401 ''Not authorized to perform this operation, access token is invalid''
            | None \<Rightarrow> Aborted 401 ''Not authorized to perform this operation, access token is invalid'')))
       (\<lambda>a. ret (case a of
          Aborted s m \<Rightarrow> Aborted s m
        | Admitted u \<Rightarrow>
            if su_status u = UserStatusDisabled \<or> banned (su_id u) then Aborted 200 ''User has been banned''
            else if su_role u < minRole then Aborted 401 ''You do not have permission to perform this operation. Insufficient permissions.''
            else Admitted u))"

section \<open>API keys\<close>

record auth_request =
  au_path :: string
  au_authorization :: string
  au_x_api_key :: string
  au_query_key :: string
  au_x_goog_key :: string
  au_x_key :: string

definition trim_prefix :: "string \<Rightarrow> string \<Rightarrow> string" where
  "trim_prefix s p = (if has_prefix s p then drop (length p) s else s)"

text \<open>The header the vendors' own headers end up in; later ones overwrite earlier ones.\<close>

definition authorization_header :: "auth_request \<Rightarrow> string" where
  "authorization_header r =
     (let h0 = au_authorization r;
          h1 = (if has_prefix (au_path r) ''/v1/messages'' \<and> au_x_api_key r \<noteq> [] then ''Bearer '' @ au_x_api_key r else h0);
          gemini = (has_prefix (au_path r) ''/v1beta/models'' \<or> has_prefix (au_path r) ''/v1beta/openai/models'' \<or>
                    has_prefix (au_path r) ''/v1alpha/models'' \<or> has_prefix (au_path r) ''/v1/models/'');
          h2 = (if gemini \<and> au_query_key r \<noteq> [] then ''Bearer '' @ au_query_key r else h1);
          h3 = (if gemini \<and> au_x_goog_key r \<noteq> [] then ''Bearer '' @ au_x_goog_key r else h2)
      in if has_prefix (au_path r) ''/flux/'' \<and> au_x_key r \<noteq> [] then ''Bearer '' @ au_x_key r else h3)"

definition key_parts :: "auth_request \<Rightarrow> string list" where
  "key_parts r = split_on (CHR ''-'') (trim_prefix (trim_prefix (authorization_header r) ''Bearer '') ''sk-'')"

record token_user =
  tu_id :: int
  tu_token :: int
  tu_token_name :: string
  tu_specific :: "string option"

definition error_text :: "gerr \<Rightarrow> string" where
  "error_text e = (case e of Msg m \<Rightarrow> m | DbErr \<Rightarrow> ''database error'' | DupKey \<Rightarrow> ''duplicated key not allowed''
     | NotFound \<Rightarrow> ''record not found'' | Panic \<Rightarrow> ''panic'')"

definition TokenAuth :: "auth_request \<Rightarrow> token_user admitted op" where
  "TokenAuth r =
     (let parts = key_parts r
      in on_result (ValidateUserToken (hd parts)) (\<lambda>v. case v of
           Inl e \<Rightarrow> ret (Aborted 401 (error_text e))
         | Inr tok \<Rightarrow>
             on_result (CacheIsUserEnabled (t_user_id tok)) (\<lambda>b. case b of
               Inl e \<Rightarrow> ret (Aborted 500 (error_text e))
             | Inr enabled \<Rightarrow>
                 if \<not> enabled then ret (Aborted 403 ''User has been banned'')
                 else let u = \<lparr>tu_id = t_user_id tok, tu_token = t_id tok, tu_token_name = t_name tok, tu_specific = None\<rparr>
                 in if length parts \<le> 1 then ret (Admitted u)
                    else on_ok (IsAdmin (t_user_id tok)) (\<lambda>admin.
                      ret (if admin then Admitted (u\<lparr>tu_specific := Some (parts ! 1)\<rparr>)
                           else Aborted 403 ''Ordinary users do not support designated channels'')))))"

section \<open>The model of a request\<close>

record model_request =
  mr_model :: string
  mr_model_name :: string
  mr_previous_response :: string

text \<open>\<open>strings.Index\<close> of a text.\<close>

fun index_of :: "string \<Rightarrow> string \<Rightarrow> nat option" where
  "index_of [] p = (if p = [] then Some 0 else None)"
| "index_of (c # s) p = (if has_prefix (c # s) p then Some 0 else map_option Suc (index_of s p))"

definition extractModelNameFromGeminiPath :: "string \<Rightarrow> string" where
  "extractModelNameFromGeminiPath path =
     (let p0 = trim_prefix path ''/'';
          p1 = (case index_of p0 ''/models/'' of None \<Rightarrow> p0 | Some i \<Rightarrow> drop (i + 8) p0)
      in case index_of p1 '':'' of None \<Rightarrow> p1 | Some i \<Rightarrow> take i p1)"

definition Path2RelayModeGemini :: "string \<Rightarrow> int" where
  "Path2RelayModeGemini path =
     (if str_contains path '':generateContent'' then 10 else if str_contains path '':streamGenerateContent'' then 11 else 0)"

text \<open>
  \<open>bind m\<close> is \<open>m\<close> with the fields \<open>common.UnmarshalBodyReusable\<close> finds in the body: JSON, or the form
  binding of the web framework.
\<close>

record route =
  rt_path :: string
  rt_full_path :: string
  rt_method :: string
  rt_param_model :: string
  rt_bind :: "model_request \<Rightarrow> model_request"

definition read_model :: "route \<Rightarrow> model_request \<times> int option" where
  "read_model rt =
     (let path = rt_path rt; zero = \<lparr>mr_model = [], mr_model_name = [], mr_previous_response = []\<rparr>
      in if has_prefix path ''/v1beta/models/'' \<or> has_prefix path ''/v1/models/'' \<or> has_prefix path ''/v1alpha/models/'' then
           (if Path2RelayModeGemini path \<noteq> 0
            then (zero\<lparr>mr_model := extractModelNameFromGeminiPath path\<rparr>, Some (Path2RelayModeGemini path))
            else (zero, None))
         else if has_prefix path ''/kling/v1/'' then
           (let m = zero\<lparr>mr_model := ''kling-v1''\<rparr>
            in if rt_method rt = ''POST''
               then let m1 = rt_bind rt m in (if mr_model_name m1 \<noteq> [] then m1\<lparr>mr_model := mr_model_name m1\<rparr> else m1, None)
               else (m, None))
         else if has_prefix path ''/ali/api/v1/'' then
           (if rt_method rt = ''GET'' then (zero\<lparr>mr_model := ''wan2.6-i2v''\<rparr>, None)
            else let m = rt_bind rt zero in (if mr_model m = [] then m\<lparr>mr_model := ''wan2.6-i2v''\<rparr> else m, None))
         else if has_prefix path ''/flux/v1/'' then
           (let name = trim_prefix (rt_param_model rt) ''/''
            in (if name \<noteq> [] then zero\<lparr>mr_model := name\<rparr> else rt_bind rt zero, None))
         else (rt_bind rt zero, None))"

definition default_model :: "route \<Rightarrow> model_request \<Rightarrow> model_request \<times> bool" where
  "default_model rt m =
     (let path = rt_path rt;
          m1 = (if has_prefix path ''/v1/moderations'' \<and> mr_model m = [] then m\<lparr>mr_model := ''text-moderation-stable''\<rparr> else m);
          m2 = (if has_suffix path ''embeddings'' \<and> mr_model m1 = [] then m1\<lparr>mr_model := rt_param_model rt\<rparr> else m1);
          m3 = (if has_prefix path ''/v1/images/generations'' \<and> mr_model m2 = [] then m2\<lparr>mr_model := ''dall-e-2''\<rparr> else m2);
          m4 = (if (has_prefix path ''/v1/audio/transcriptions'' \<or> has_prefix path ''/v1/audio/translations'') \<and> mr_model m3 = []
                then m3\<lparr>mr_model := ''whisper-1''\<rparr> else m3)
      in if has_prefix path ''/v1/videos/characters'' \<and> mr_model m4 = []
         then (m4\<lparr>mr_model := ''sora-2''\<rparr>, False) else (m4, True))"

definition getModelRequest :: "route \<Rightarrow> model_request \<times> bool \<times> int option" where
  "getModelRequest rt =
     (case read_model rt of (m, mode) \<Rightarrow> (case default_model rt m of (m1, select) \<Rightarrow> (m1, select, mode)))"

section \<open>The context of the middleware\<close>

text \<open>
  \<open>dx_specific\<close> is the channel an administrator designated; \<open>dx_channel\<close> the channel chosen, \<open>dx_int\<close> and
  \<open>dx_string\<close> the values other middleware stored. A cached key index of -1 is none.
\<close>

record dist_ctx =
  dx_rq :: request
  dx_route :: route
  dx_body :: "gerr + string"
  dx_provider :: string
  dx_user_agent :: string
  dx_int :: "string \<Rightarrow> int"
  dx_string :: "string \<Rightarrow> string"
  dx_specific :: "string option"
  dx_state_index :: int
  dx_state_print :: string
  dx_ttl :: "int option"
  dx_log :: "affinity_log option"
  dx_relay_mode :: "int option"
  dx_channel :: "channel option"
  dx_abort :: "(int \<times> string) option"

record 'g dist_env =
  de_gjson :: "'g gjson"
  de_sha :: "string \<Rightarrow> string"
  de_lib :: affinity_lib
  de_setting :: affinity_setting
  de_pick :: nat
  de_key :: nat

definition state_view :: "dist_ctx \<Rightarrow> state_ctx" where
  "state_view d = \<lparr>sc_path = rt_path (dx_route d), sc_body = dx_body d, sc_header = dx_provider d, sc_retry = rq_bounds (dx_rq d),
     sc_id = rq_user (dx_rq d), sc_channel_id = rq_channel (dx_rq d), sc_key_index = rq_key_index (dx_rq d),
     sc_actual_key = rq_actual_key (dx_rq d), sc_state_index = dx_state_index d, sc_state_print = dx_state_print d,
     sc_cached_index = Some (rq_cached_key (dx_rq d))\<rparr>"

definition put_state :: "state_ctx \<Rightarrow> dist_ctx \<Rightarrow> dist_ctx" where
  "put_state c d = d\<lparr>
     dx_rq := (dx_rq d)\<lparr>rq_bounds := sc_retry c, rq_cached_key := (case sc_cached_index c of None \<Rightarrow> - 1 | Some i \<Rightarrow> i)\<rparr>,
     dx_state_index := sc_state_index c, dx_state_print := sc_state_print c\<rparr>"

definition affinity_view :: "dist_ctx \<Rightarrow> affinity_ctx" where
  "affinity_view d = \<lparr>
     ax_int = (\<lambda>k. if k = ''id'' then rq_user (dx_rq d) else if k = ''token_id'' then rq_token (dx_rq d)
       else if k = ''channel_id'' then rq_channel (dx_rq d) else if k = ''key_index'' then rq_key_index (dx_rq d) else dx_int d k),
     ax_string = (\<lambda>k. if k = ''group'' then rq_group (dx_rq d) else if k = ''actual_key'' then rq_actual_key (dx_rq d) else dx_string d k),
     ax_path = rt_path (dx_route d), ax_user_agent = dx_user_agent d, ax_body = dx_body d,
     ax_cache_key = Some (rq_affinity_key (dx_rq d)), ax_ttl = dx_ttl d, ax_skip_retry = Some (rq_skip_retry (dx_rq d)),
     ax_log = dx_log d, ax_cached_index = Some (rq_cached_key (dx_rq d)), ax_multi = rq_multi (dx_rq d),
     ax_success = rq_affinity_success (dx_rq d)\<rparr>"

definition put_affinity :: "affinity_ctx \<Rightarrow> dist_ctx \<Rightarrow> dist_ctx" where
  "put_affinity c d = d\<lparr>
     dx_rq := (dx_rq d)\<lparr>rq_affinity_key := (case ax_cache_key c of None \<Rightarrow> [] | Some k \<Rightarrow> k),
       rq_skip_retry := (case ax_skip_retry c of None \<Rightarrow> False | Some b \<Rightarrow> b),
       rq_cached_key := (case ax_cached_index c of None \<Rightarrow> - 1 | Some i \<Rightarrow> i)\<rparr>,
     dx_ttl := ax_ttl c, dx_log := ax_log c\<rparr>"

section \<open>The choice of the channel\<close>

definition specific_channel :: "string \<Rightarrow> channel admitted op" where
  "specific_channel text =
     (case parse_int64 text of
        None \<Rightarrow> ret (Aborted 400 ''Invalid channel Id'')
      | Some i \<Rightarrow> on_result (GetChannelById i True) (\<lambda>r. ret (case r of
          Inl _ \<Rightarrow> Aborted 400 ''Invalid channel Id''
        | Inr c \<Rightarrow> if c_status c \<noteq> ChannelStatusEnabled then Aborted 403 ''The channel has been disabled'' else Admitted c)))"

text \<open>The channel the affinity rules prefer, if it still fits; otherwise its entry is invalidated.\<close>

definition preferred_channel :: "'g dist_env \<Rightarrow> string \<Rightarrow> dist_ctx \<Rightarrow> world \<Rightarrow> (channel option \<times> dist_ctx) \<times> world" where
  "preferred_channel env model d w =
     (let grp = rq_group (dx_rq d)
      in case GetPreferredChannelByAffinity (de_lib env) (de_setting env) (affinity_view d) model grp w of
        ((None, c1), w1) \<Rightarrow> ((None, put_affinity c1 d), w1)
      | ((Some i, c1), w1) \<Rightarrow>
          (case GetChannelById i True w1 of
             (Inr c, w2) \<Rightarrow>
               if c_status c = ChannelStatusEnabled \<and> lists_entry (c_group c) grp \<and> lists_entry (c_models c) model \<and>
                  RetryProviderAllows (rq_bounds (dx_rq d)) c
               then ((Some c, put_affinity c1 d), w2)
               else (case InvalidateChannelAffinity c1 w2 of (c2, w3) \<Rightarrow> ((None, put_affinity c2 d), w3))
           | (Inl _, w2) \<Rightarrow> (case InvalidateChannelAffinity c1 w2 of (c2, w3) \<Rightarrow> ((None, put_affinity c2 d), w3))))"

definition random_channel :: "'g dist_env \<Rightarrow> string \<Rightarrow> string \<Rightarrow> dist_ctx \<Rightarrow> world \<Rightarrow> (channel \<times> dist_ctx) admitted \<times> world" where
  "random_channel env model responseID d w =
     (case CacheGetRandomSatisfiedChannel (de_pick env) (rq_bounds (dx_rq d)) (rq_group (dx_rq d)) model 0 responseID [] w of
        (Inl _, w1) \<Rightarrow>
          (Aborted 503 (''There are no channels available for model '' @ model @ '' under the current group '' @ rq_group (dx_rq d)), w1)
      | (Inr (c, k), w1) \<Rightarrow>
          (Admitted (c, if 0 \<le> k then d\<lparr>dx_rq := (dx_rq d)\<lparr>rq_cached_key := k\<rparr>\<rparr> else d), w1))"

definition response_id :: "dist_ctx \<Rightarrow> model_request \<Rightarrow> string" where
  "response_id d m =
     (if rq_response_id (dx_rq d) = [] \<and> has_suffix (rt_full_path (dx_route d)) ''/responses'' then mr_previous_response m
      else rq_response_id (dx_rq d))"

definition select_channel :: "'g dist_env \<Rightarrow> model_request \<Rightarrow> dist_ctx \<Rightarrow> world \<Rightarrow> (channel \<times> dist_ctx) admitted \<times> world" where
  "select_channel env m d w =
     (if mr_model m = [] then (Aborted 400 ''Model name is required'', w)
      else if response_id d m \<noteq> [] then random_channel env (mr_model m) (response_id d m) d w
      else case preferred_channel env (mr_model m) d w of
        ((Some c, d1), w1) \<Rightarrow> (Admitted (c, d1), w1)
      | ((None, d1), w1) \<Rightarrow> random_channel env (mr_model m) [] d1 w1)"

definition pick_channel :: "'g dist_env \<Rightarrow> model_request \<Rightarrow> bool \<Rightarrow> dist_ctx \<Rightarrow> world \<Rightarrow> (channel option \<times> dist_ctx) admitted \<times> world" where
  "pick_channel env m select d w =
     (case dx_specific d of
        Some text \<Rightarrow>
          (case specific_channel text w of
             (Inl e, w1) \<Rightarrow> (Aborted 400 ''Invalid channel Id'', w1)
           | (Inr (Aborted st msg), w1) \<Rightarrow> (Aborted st msg, w1)
           | (Inr (Admitted c), w1) \<Rightarrow> (Admitted (Some c, d), w1))
      | None \<Rightarrow>
          if \<not> select then (Admitted (None, d), w)
          else (case select_channel env m d w of
             (Aborted st msg, w1) \<Rightarrow> (Aborted st msg, w1)
           | (Admitted (c, d1), w1) \<Rightarrow> (Admitted (Some c, d1), w1)))"

section \<open>Handing on\<close>

text \<open>The checks of a bound request around the choice of its key.\<close>

definition use_channel :: "'g dist_env \<Rightarrow> string \<Rightarrow> channel \<Rightarrow> dist_ctx \<Rightarrow> world \<Rightarrow> dist_ctx admitted \<times> world" where
  "use_channel env model c d w =
     (if \<not> RetryProviderAllows (rq_bounds (dx_rq d)) c
      then (Aborted 409 ''Selected channel conflicts with the Responses history provider'', w)
      else case RestoreResponsesStateKey (de_sha env) (state_view d) c of
        Inl e \<Rightarrow> (Aborted 409 (error_text e), w)
      | Inr sc \<Rightarrow>
          (let d1 = put_state sc d
           in case SetupContextForSelectedChannel (de_key env) c model (dx_rq d1) w of
                (Inl e, w1) \<Rightarrow> (Aborted 500 (error_text e), w1)
              | (Inr rq, w1) \<Rightarrow>
                  (let d2 = d1\<lparr>dx_rq := rq, dx_channel := Some c\<rparr>
                   in case VerifyResponsesStateKey (de_sha env) (state_view d2) of
                        Some e \<Rightarrow> (Aborted 409 (error_text e), w1)
                      | None \<Rightarrow> (Admitted (d2\<lparr>dx_rq := rq\<lparr>rq_bounds := WithRetryProvider (rq_bounds rq) (ChannelProvider c)\<rparr>\<rparr>), w1))))"

text \<open>Everything before \<open>c.Next()\<close>.\<close>

definition route_request :: "'g dist_env \<Rightarrow> dist_ctx \<Rightarrow> state_world \<Rightarrow> dist_ctx admitted \<times> state_world" where
  "route_request env d = (\<lambda>(w, s).
     (case CacheGetUserGroup (rq_user (dx_rq d)) w of
        (g, w1) \<Rightarrow>
          (let d0 = d\<lparr>dx_rq := (dx_rq d)\<lparr>rq_group := (case g of Inl _ \<Rightarrow> [] | Inr x \<Rightarrow> x)\<rparr>, dx_channel := None\<rparr>
           in case BindResponsesState (de_gjson env) (de_sha env) (state_view d0) (w1, s) of
                (Inl e, p2) \<Rightarrow> (Aborted 409 (error_text e), p2)
              | (Inr sc, (w2, s2)) \<Rightarrow>
                  (case getModelRequest (dx_route d) of
                     (m, select, mode) \<Rightarrow>
                       (let d1 = (put_state sc d0)\<lparr>dx_relay_mode := mode\<rparr>
                        in case pick_channel env m select d1 w2 of
                             (Aborted st msg, w3) \<Rightarrow> (Aborted st msg, (w3, s2))
                           | (Admitted (co, d2), w3) \<Rightarrow>
                               (let model = (if mr_model m = [] then mr_model_name m else mr_model m);
                                    d3 = d2\<lparr>dx_rq := (dx_rq d2)\<lparr>rq_model := model\<rparr>\<rparr>
                                in case co of
                                     None \<Rightarrow> (Admitted d3, (w3, s2))
                                   | Some c \<Rightarrow> (case use_channel env model c d3 w3 of (r, w4) \<Rightarrow> (r, (w4, s2)))))))))"

text \<open>The middleware around the handler \<open>next\<close>.\<close>

definition Distribute ::
  "'g dist_env \<Rightarrow> (dist_ctx \<Rightarrow> state_world \<Rightarrow> dist_ctx \<times> state_world) \<Rightarrow> dist_ctx \<Rightarrow> state_world \<Rightarrow> dist_ctx \<times> state_world" where
  "Distribute env next d p =
     (case route_request env d p of
        (Aborted st msg, p1) \<Rightarrow> (d\<lparr>dx_abort := Some (st, msg)\<rparr>, p1)
      | (Admitted d1, p1) \<Rightarrow>
          (case next d1 p1 of
             (d2, (w2, s2)) \<Rightarrow>
               if IsAffinityRelaySuccess (affinity_view d2)
               then (d2, (RecordChannelAffinity (de_setting env) (affinity_view d2) (rq_channel (dx_rq d2)) w2, s2))
               else (d2, (w2, s2))))"

section \<open>Reading does not change tables\<close>

lemma keeps_GetChannelById [keeps_intros]: "keeps V (GetChannelById i b)"
  unfolding GetChannelById_def by (intro keeps_intros)

lemma keeps_user_group: "keeps V (CacheGetUserGroup i)"
  unfolding CacheGetUserGroup_def GetUserGroup_def by (intro keeps_intros)

lemma keeps_affinity:
  "keeps V (getAffinityRedis key)" "keeps V (deleteAffinityRedis key)"
proof -
  show "keeps V (deleteAffinityRedis key)" unfolding deleteAffinityRedis_def by (intro keeps_intros)
  have "keeps V (case split_colon (trim_space v) of (a, b) \<Rightarrow>
            (case parse_int64 a of
               None \<Rightarrow> ret None
             | Some i \<Rightarrow>
                 if i \<le> 0 then ret None
                 else ret (Some (i, case b of None \<Rightarrow> - 1
                   | Some t \<Rightarrow> (case parse_int64 t of None \<Rightarrow> - 1 | Some k \<Rightarrow> if 0 \<le> k then k else - 1)))))" for v
    by (cases "split_colon (trim_space v)") (simp, intro keeps_intros)
  then show "keeps V (getAffinityRedis key)" unfolding getAffinityRedis_def by (intro keeps_intros)
qed

lemma GetChannelById_Inr:
  assumes "GetChannelById i True w = (Inr c, w')"
  shows "c \<in> set (d_channels (w_db w)) \<and> c_id c = i"
proof -
  have "List.find (\<lambda>c. c_id c = i) (d_channels (w_db w)) = Some c"
    using assms by (auto simp: GetChannelById_def elim!: first_Inr)
  then show ?thesis by (auto simp: find_Some_iff)
qed

lemma try_rules_db: "try_rules L setting model grp rules f c w = (r, w') \<Longrightarrow> w_db w' = w_db w"
proof (induction rules arbitrary: f w)
  case Nil
  then show ?case by (auto split: option.splits)
next
  case (Cons rule rules)
  show ?case
  proof (cases "rule_applies L c model rule")
    case None
    then show ?thesis using Cons by simp
  next
    case (Some v)
    let ?m = "match_of L setting c model grp rule v"
    obtain g w1 where g: "getAffinityRedis (am_key ?m) w = (g, w1)" by fastforce
    have "w_db w1 = w_db w" using keepsD [OF keeps_affinity(1) [of "\<lambda>d. d"] g] .
    then show ?thesis using Cons Some g by (auto simp: Let_def split: sum.splits option.splits prod.splits)
  qed
qed

lemma invalidate_db: "InvalidateChannelAffinity c w = (c', w') \<Longrightarrow> w_db w' = w_db w"
proof -
  have "w_db (snd (deleteAffinityRedis key w)) = w_db w" for key
    using keepsD [OF keeps_affinity(2) [of "\<lambda>d. d" key], of w] by (cases "deleteAffinityRedis key w") auto
  then show "InvalidateChannelAffinity c w = (c', w') \<Longrightarrow> w_db w' = w_db w"
    by (auto simp: InvalidateChannelAffinity_def Let_def split: option.splits if_splits)
qed

lemma redis_lookup_db: "redis_lookup ks w = (r, w') \<Longrightarrow> w_db w' = w_db w"
proof -
  have k: "redis_cmd f w = (r, w') \<Longrightarrow> (\<And>x. w_db (snd (f x)) = w_db x) \<Longrightarrow> w_db w' = w_db w" for f :: "world \<Rightarrow> (gerr + unit) \<times> world" and r w w'
    using keepsD [OF keeps_redis_cmd [of f "\<lambda>d. d"]] by blast
  show "redis_lookup ks w = (r, w') \<Longrightarrow> w_db w' = w_db w"
    by (auto simp: redis_lookup_def split: prod.splits sum.splits option.splits list.splits if_splits dest!: k)
qed

lemma effective_provider_db:
  "effective_provider sha state_channel target g cache p = (r, cache', p') \<Longrightarrow> w_db (fst p') = w_db (fst p)"
proof -
  have "state_channel i p = (q, p1) \<Longrightarrow> w_db (fst p1) = w_db (fst p)" for i q p1
    using keepsD [OF keeps_GetChannelById [of "\<lambda>d. d" i True], of "fst p"]
    by (auto simp: state_channel_def split: prod.splits)
  then show "effective_provider sha state_channel target g cache p = (r, cache', p') \<Longrightarrow> w_db (fst p') = w_db (fst p)"
    by (auto simp: effective_provider_def split: if_splits option.splits prod.splits sum.splits)
qed

lemma bind_references_db:
  "bind_references sha state_channel explicit target m cache refs b p = (r, p') \<Longrightarrow> w_db (fst p') = w_db (fst p)"
proof (induction refs arbitrary: cache b p)
  case (Cons x refs)
  show ?case
  proof (cases "m (sr_key x)")
    case None
    then show ?thesis using Cons by (auto split: if_splits)
  next
    case (Some g)
    obtain e cache1 p1 where e: "effective_provider sha state_channel target g cache p = (e, cache1, p1)"
      by (cases "effective_provider sha state_channel target g cache p")
    have "w_db (fst p1) = w_db (fst p)" using effective_provider_db [OF e] .
    then show ?thesis using Cons Some e by (auto split: sum.splits)
  qed
qed simp

lemma BindResponsesState_db: "BindResponsesState G sha c p = (r, p') \<Longrightarrow> w_db (fst p') = w_db (fst p)"
proof -
  have l: "current_lookup ks p = (q, p1) \<Longrightarrow> w_db (fst p1) = w_db (fst p)" for ks q p1
    using redis_lookup_db [of ks "fst p"] by (auto simp: current_lookup_def split: if_splits prod.splits)
  show "BindResponsesState G sha c p = (r, p') \<Longrightarrow> w_db (fst p') = w_db (fst p)"
    by (auto simp: BindResponsesState_def bindResponsesStateWithChannelLookup_def Let_def
        split: if_splits sum.splits prod.splits dest!: bind_references_db l)
qed

section \<open>What the chosen channel is\<close>

definition fits :: "db \<Rightarrow> string \<Rightarrow> string \<Rightarrow> channel \<Rightarrow> bool" where
  "fits d grp model c \<longleftrightarrow> c_status c = ChannelStatusEnabled \<and>
     ((\<exists>a\<in>set (d_abilities d). ab_channel_id a = c_id c \<and> ab_group a = grp \<and> ab_model a = model \<and> ab_enabled a) \<or>
      (lists_entry (c_group c) grp \<and> lists_entry (c_models c) model))"

text \<open>What the steps before the hand-over leave alone.\<close>

definition same_route :: "dist_ctx \<Rightarrow> dist_ctx \<Rightarrow> bool" where
  "same_route d d' \<longleftrightarrow> rq_group (dx_rq d') = rq_group (dx_rq d) \<and> rq_bounds (dx_rq d') = rq_bounds (dx_rq d) \<and>
     dx_specific d' = dx_specific d \<and> dx_state_index d' = dx_state_index d \<and> dx_state_print d' = dx_state_print d \<and>
     dx_channel d' = dx_channel d"

lemma same_route_refl [simp]: "same_route d d" "same_route d (put_affinity c d)"
  by (simp_all add: same_route_def put_affinity_def)

lemma same_route_trans: "same_route a b \<Longrightarrow> same_route b c \<Longrightarrow> same_route a c"
  by (simp add: same_route_def)

lemma preferred_channel_result:
  assumes "preferred_channel env model d w = ((co, d'), w')"
  shows "w_db w' = w_db w \<and> same_route d d' \<and>
    (\<forall>c. co = Some c \<longrightarrow> c \<in> set (d_channels (w_db w)) \<and> fits (w_db w) (rq_group (dx_rq d)) model c)"
proof -
  obtain x c1 w1 where g: "GetPreferredChannelByAffinity (de_lib env) (de_setting env) (affinity_view d) model (rq_group (dx_rq d)) w = ((x, c1), w1)"
    by (metis surj_pair)
  have w1: "w_db w1 = w_db w" using g by (auto simp: GetPreferredChannelByAffinity_def split: if_splits dest!: try_rules_db)
  show ?thesis
  proof (cases x)
    case None
    then show ?thesis using assms g w1 by (auto simp: preferred_channel_def)
  next
    case (Some i)
    obtain q w2 where q: "GetChannelById i True w1 = (q, w2)" by fastforce
    have w2: "w_db w2 = w_db w" using keepsD [OF keeps_GetChannelById [of "\<lambda>d. d"] q] w1 by simp
    obtain c2 w3 where v: "InvalidateChannelAffinity c1 w2 = (c2, w3)" by fastforce
    have w3: "w_db w3 = w_db w" using invalidate_db [OF v] w2 by simp
    show ?thesis
    proof (cases q)
      case (Inl e)
      then show ?thesis using assms g Some q v w3 by (auto simp: preferred_channel_def)
    next
      case (Inr c)
      have "c \<in> set (d_channels (w_db w))" using GetChannelById_Inr [OF q [unfolded Inr]] w1 by simp
      then show ?thesis using assms g Some q Inr v w2 w3 by (auto simp: preferred_channel_def fits_def split: if_splits)
    qed
  qed
qed

lemma random_channel_result:
  assumes "random_channel env model responseID d w = (Admitted (c, d'), w')"
  shows "same_route d d' \<and> c \<in> set (d_channels (w_db w)) \<and> fits (w_db w) (rq_group (dx_rq d)) model c"
proof -
  obtain k where k: "CacheGetRandomSatisfiedChannel (de_pick env) (rq_bounds (dx_rq d)) (rq_group (dx_rq d)) model 0 responseID [] w = (Inr (c, k), w')"
    "d' = (if 0 \<le> k then d\<lparr>dx_rq := (dx_rq d)\<lparr>rq_cached_key := k\<rparr>\<rparr> else d)"
    using assms by (auto simp: random_channel_def split: prod.splits sum.splits)
  from k(1) have "c \<in> set (d_channels (w_db w)) \<and> fits (w_db w) (rq_group (dx_rq d)) model c"
  proof (rule select_Inr)
    fix w1 assume "bound_channel (rq_bounds (dx_rq d)) (rq_group (dx_rq d)) model 0 responseID [] w = (Inr (Some (c, k)), w1)"
    from bound_channel_result [OF this] show ?thesis by (simp add: fits_def)
  next
    fix p assume "c \<in> set (filterRetryProviderChannels (rq_bounds (dx_rq d)) (level_channels (rq_group (dx_rq d)) model [] p (w_db w)))"
    then have "c \<in> set (level_channels (rq_group (dx_rq d)) model [] p (w_db w))" by simp
    from level_channels_member [OF this] show ?thesis by (auto simp: fits_def)
  qed
  then show ?thesis using k(2) by (auto simp: same_route_def)
qed

lemma pick_channel_result:
  assumes "pick_channel env m select d w = (Admitted (Some c, d'), w')"
  shows "same_route d d' \<and> c \<in> set (d_channels (w_db w)) \<and> c_status c = ChannelStatusEnabled \<and>
    (dx_specific d = None \<longrightarrow> mr_model m \<noteq> [] \<and> fits (w_db w) (rq_group (dx_rq d)) (mr_model m) c)"
proof (cases "dx_specific d")
  case (Some t)
  then obtain w1 where sc: "specific_channel t w = (Inr (Admitted c), w1)" "d' = d"
    using assms by (auto simp: pick_channel_def split: prod.splits sum.splits admitted.splits)
  then obtain i w2 where i: "GetChannelById i True w = (Inr c, w2)" "c_status c = ChannelStatusEnabled"
    by (auto simp: specific_channel_def on_result_def split: option.splits prod.splits sum.splits if_splits)
  then show ?thesis using GetChannelById_Inr [OF i(1)] Some sc(2) by simp
next
  case None
  then have s: "select_channel env m d w = (Admitted (c, d'), w')"
    using assms by (auto simp: pick_channel_def split: if_splits prod.splits admitted.splits)
  then have ne: "mr_model m \<noteq> []" by (auto simp: select_channel_def)
  have "same_route d d' \<and> c \<in> set (d_channels (w_db w)) \<and> fits (w_db w) (rq_group (dx_rq d)) (mr_model m) c"
  proof (cases "response_id d m = []")
    case False
    then show ?thesis using s ne random_channel_result [of env "mr_model m" "response_id d m" d w c d' w'] by (simp add: select_channel_def)
  next
    case True
    obtain co d1 w1 where p: "preferred_channel env (mr_model m) d w = ((co, d1), w1)" by (metis surj_pair)
    note r = preferred_channel_result [OF p]
    show ?thesis
    proof (cases co)
      case (Some c0)
      then show ?thesis using s ne True p r by (simp add: select_channel_def)
    next
      case co: None
      then have "random_channel env (mr_model m) [] d1 w1 = (Admitted (c, d'), w')" using s ne True p by (simp add: select_channel_def)
      from random_channel_result [OF this] r show ?thesis by (auto simp: same_route_def)
    qed
  qed
  then show ?thesis using None ne by (simp add: fits_def)
qed

lemma use_channel_result:
  assumes "use_channel env model c d w = (Admitted d', w')"
  shows "RetryProviderAllows (rq_bounds (dx_rq d)) c \<and> dx_channel d' = Some c \<and> rq_channel (dx_rq d') = c_id c \<and>
    rq_model (dx_rq d') = model \<and> rq_group (dx_rq d') = rq_group (dx_rq d) \<and>
    rx_provider (rq_bounds (dx_rq d')) = ChannelProvider c \<and>
    rx_state_channel (rq_bounds (dx_rq d')) = rx_state_channel (rq_bounds (dx_rq d)) \<and>
    dx_state_index d' = dx_state_index d \<and> dx_state_print d' = dx_state_print d \<and>
    (0 < rx_state_channel (rq_bounds (dx_rq d)) \<longrightarrow> rq_key_index (dx_rq d') = dx_state_index d \<and>
      (dx_state_print d = [] \<or> responsesKeyFingerprint (de_sha env) (rq_actual_key (dx_rq d')) = dx_state_print d))"
proof -
  have ok: "RetryProviderAllows (rq_bounds (dx_rq d)) c" using assms by (auto simp: use_channel_def split: if_splits)
  obtain sc where sc: "RestoreResponsesStateKey (de_sha env) (state_view d) c = Inr sc"
    using assms ok by (auto simp: use_channel_def split: sum.splits)
  have same: "sc_retry sc = rq_bounds (dx_rq d)" "sc_state_index sc = dx_state_index d" "sc_state_print sc = dx_state_print d"
    using sc by (auto simp: RestoreResponsesStateKey_def state_view_def split: if_splits sum.splits)
  obtain rq w1 where rq: "SetupContextForSelectedChannel (de_key env) c model (dx_rq (put_state sc d)) w = (Inr rq, w1)"
    using assms ok sc by (auto simp: use_channel_def Let_def split: sum.splits prod.splits)
  let ?d2 = "(put_state sc d)\<lparr>dx_rq := rq, dx_channel := Some c\<rparr>"
  have v: "VerifyResponsesStateKey (de_sha env) (state_view ?d2) = None"
    "d' = ?d2\<lparr>dx_rq := rq\<lparr>rq_bounds := WithRetryProvider (rq_bounds rq) (ChannelProvider c)\<rparr>\<rparr>"
    using assms ok sc rq by (auto simp: use_channel_def Let_def split: option.splits)
  have r: "rq_channel rq = c_id c" "rq_model rq = model" "rq_group rq = rq_group (dx_rq d)" "rq_bounds rq = rq_bounds (dx_rq d)"
    using rq same by (auto simp: SetupContextForSelectedChannel_def put_state_def)
  have "rx_provider (rq_bounds (dx_rq d')) = ChannelProvider c"
    using v(2) by (simp add: WithRetryProvider_def ChannelProvider_normal)
  moreover have "rx_state_channel (rq_bounds (dx_rq d')) = rx_state_channel (rq_bounds (dx_rq d))"
    using v(2) r(4) by (simp add: WithRetryProvider_def)
  moreover have "rq_key_index rq = dx_state_index d \<and>
      (dx_state_print d = [] \<or> responsesKeyFingerprint (de_sha env) (rq_actual_key rq) = dx_state_print d)"
    if "0 < rx_state_channel (rq_bounds (dx_rq d))"
    using v(1) that r(4) same by (auto simp: VerifyResponsesStateKey_def state_view_def put_state_def split: if_splits)
  ultimately show ?thesis using ok r v(2) same by (simp add: put_state_def)
qed

lemma route_request_steps:
  assumes "route_request env d (w, s) = (Admitted d', p')" "dx_channel d' = Some c"
  obtains d1 m select mode w2 d2 w3 w4 where "getModelRequest (dx_route d) = (m, select, mode)" "w_db w2 = w_db w"
    "dx_specific d1 = dx_specific d" "pick_channel env m select d1 w2 = (Admitted (Some c, d2), w3)"
    "use_channel env (if mr_model m = [] then mr_model_name m else mr_model m) c
       (d2\<lparr>dx_rq := (dx_rq d2)\<lparr>rq_model := if mr_model m = [] then mr_model_name m else mr_model m\<rparr>\<rparr>) w3 = (Admitted d', w4)"
proof -
  obtain g w1 where g: "CacheGetUserGroup (rq_user (dx_rq d)) w = (g, w1)" by fastforce
  have w1: "w_db w1 = w_db w" using keepsD [OF keeps_user_group [of "\<lambda>d. d"] g] .
  define d0 where "d0 = d\<lparr>dx_rq := (dx_rq d)\<lparr>rq_group := (case g of Inl _ \<Rightarrow> [] | Inr x \<Rightarrow> x)\<rparr>, dx_channel := None\<rparr>"
  obtain b p2 where b: "BindResponsesState (de_gjson env) (de_sha env) (state_view d0) (w1, s) = (b, p2)" by (metis surj_pair)
  obtain w2 s2 where p2: "p2 = (w2, s2)" by fastforce
  have w2: "w_db w2 = w_db w" using BindResponsesState_db [OF b] p2 w1 by simp
  obtain m select mode where m: "getModelRequest (dx_route d) = (m, select, mode)" by (metis surj_pair)
  obtain sc where sc: "b = Inr sc"
    using assms(1) g b by (cases b) (auto simp: route_request_def Let_def d0_def [symmetric])
  define d1 where "d1 = (put_state sc d0)\<lparr>dx_relay_mode := mode\<rparr>"
  have route: "route_request env d (w, s) =
      (case pick_channel env m select d1 w2 of
         (Aborted st msg, w3) \<Rightarrow> (Aborted st msg, (w3, s2))
       | (Admitted (co, d2), w3) \<Rightarrow>
           (let model = (if mr_model m = [] then mr_model_name m else mr_model m);
                d3 = d2\<lparr>dx_rq := (dx_rq d2)\<lparr>rq_model := model\<rparr>\<rparr>
            in case co of
                 None \<Rightarrow> (Admitted d3, (w3, s2))
               | Some c \<Rightarrow> (case use_channel env model c d3 w3 of (r, w4) \<Rightarrow> (r, (w4, s2)))))"
    using g b sc p2 m by (simp add: route_request_def Let_def d0_def [symmetric] d1_def [symmetric])
  obtain co d2 w3 where pk: "pick_channel env m select d1 w2 = (Admitted (co, d2), w3)"
    using assms(1) route by (cases "pick_channel env m select d1 w2") (auto split: admitted.splits)
  have n: "dx_channel d1 = None" by (simp add: d1_def d0_def put_state_def)
  show thesis
  proof (cases co)
    case None
    then have "dx_specific d1 = None" "d2 = d1" if "\<not> select" using pk that
      by (auto simp: pick_channel_def split: option.splits prod.splits sum.splits admitted.splits)
    moreover have "\<not> select" using pk None by (auto simp: pick_channel_def split: option.splits prod.splits sum.splits admitted.splits if_splits)
    ultimately have "dx_channel d' = None" using assms(1) route pk None n by (auto simp: Let_def)
    then show thesis using assms(2) by simp
  next
    case (Some c1)
    let ?model = "if mr_model m = [] then mr_model_name m else mr_model m"
    obtain r w4 where u: "use_channel env ?model c1 (d2\<lparr>dx_rq := (dx_rq d2)\<lparr>rq_model := ?model\<rparr>\<rparr>) w3 = (r, w4)" by fastforce
    have "r = Admitted d'" using assms(1) route pk Some u by (simp add: Let_def)
    with u use_channel_result assms(2) have "c1 = c" by fastforce
    moreover have "dx_specific d1 = dx_specific d" by (simp add: d1_def d0_def put_state_def)
    ultimately show thesis using that [OF m w2 _ _ ] pk Some u \<open>r = Admitted d'\<close> by blast
  qed
qed


section \<open>API keys and models\<close>

lemma index_of_first:
  assumes "\<forall>i<length a. \<not> has_prefix (drop i (a @ p @ b)) p" "p \<noteq> []"
  shows "index_of (a @ p @ b) p = Some (length a)"
  using assms(1)
proof (induction a)
  case Nil
  have "has_prefix (p @ b) p" by (auto simp: has_prefix_iff)
  then show ?case using assms(2) by (cases "p @ b") simp_all
next
  case (Cons c a)
  have "\<not> has_prefix (c # (a @ p @ b)) p" using Cons.prems by (auto dest: spec [of _ 0])
  moreover have "\<forall>i<length a. \<not> has_prefix (drop i (a @ p @ b)) p" using Cons.prems by (auto dest: spec [of _ "Suc _"])
  ultimately show ?case using Cons.IH by simp
qed

lemma index_of_char: "c \<notin> set a \<Longrightarrow> index_of (a @ c # b) [c] = Some (length a)"
proof -
  assume c: "c \<notin> set a"
  have "\<not> has_prefix (drop i (a @ [c] @ b)) [c]" if i: "i < length a" for i
  proof -
    have "drop i (a @ [c] @ b) = a ! i # drop (Suc i) (a @ [c] @ b)"
      using i Cons_nth_drop_Suc [of i "a @ [c] @ b"] by (simp add: nth_append)
    then show ?thesis using c i by auto
  qed
  then show ?thesis using index_of_first [of a "[c]" b] by simp
qed

lemma index_of_none: "c \<notin> set a \<Longrightarrow> index_of a [c] = None"
  by (induction a) auto

text \<open>
  The model of a Gemini request is what stands between \<open>/models/\<close> and the action, in every version
  of the path, whatever slashes the name has; without an action it is the rest of the path.
\<close>

theorem gemini_model_name:
  assumes "version \<in> {''v1'', ''v1beta'', ''v1alpha''}" "CHR '':'' \<notin> set name"
  shows "extractModelNameFromGeminiPath (''/'' @ version @ ''/models/'' @ name @ '':'' @ action) = name \<and>
    extractModelNameFromGeminiPath (''/'' @ version @ ''/models/'' @ name) = name"
proof -
  have i: "index_of (version @ ''/models/'' @ x) ''/models/'' = Some (length version)" for x
    by (rule index_of_first) (use assms(1) in \<open>auto simp: less_Suc_eq numeral_eq_Suc\<close>)
  have d: "drop (length version + 8) (version @ ''/models/'' @ x) = x" for x by simp
  have t: "trim_prefix (''/'' @ x) ''/'' = x" for x by (simp add: trim_prefix_def)
  have e: "extractModelNameFromGeminiPath (''/'' @ version @ ''/models/'' @ x) =
      (case index_of x '':'' of None \<Rightarrow> x | Some i \<Rightarrow> take i x)" for x
    unfolding extractModelNameFromGeminiPath_def t i Let_def by (simp only: option.case d)
  show ?thesis
    unfolding e using index_of_char [OF assms(2), of action] index_of_none [OF assms(2)] by simp
qed

text \<open>
  A request with an API key goes on only for a valid token of an enabled user, and designates a
  channel only when that user is an administrator: the token was accepted for the first part of the
  key, the user is enabled as far as the cache knows, and a second part is passed on for administrators
  and refused otherwise.
\<close>

theorem api_key_admits:
  assumes "TokenAuth r w = (Inr (Admitted u), w')"
  shows "\<exists>tok w1 w2 w3. ValidateUserToken (hd (key_parts r)) w = (Inr tok, w1) \<and> tu_id u = t_user_id tok \<and> tu_token u = t_id tok \<and>
    CacheIsUserEnabled (t_user_id tok) w1 = (Inr True, w2) \<and>
    (case tu_specific u of
       None \<Rightarrow> length (key_parts r) = 1
     | Some ch \<Rightarrow> 1 < length (key_parts r) \<and> ch = key_parts r ! 1 \<and> IsAdmin (t_user_id tok) w2 = (Inr True, w3))"
proof -
  obtain v w1 where v: "ValidateUserToken (hd (key_parts r)) w = (v, w1)" by fastforce
  obtain tok where tok: "v = Inr tok" using assms v by (cases v) (auto simp: TokenAuth_def Let_def on_result_def)
  obtain b w2 where b: "CacheIsUserEnabled (t_user_id tok) w1 = (b, w2)" by fastforce
  have en: "b = Inr True" using assms v tok b by (cases b) (auto simp: TokenAuth_def Let_def on_result_def split: if_splits)
  have ne: "key_parts r \<noteq> []" by (simp add: key_parts_def)
  show ?thesis
  proof (cases "length (key_parts r) \<le> 1")
    case True
    then have "length (key_parts r) = 1" using ne by (cases "key_parts r") auto
    then show ?thesis using assms v tok b en by (auto simp: TokenAuth_def Let_def on_result_def)
  next
    case False
    obtain a w3 where a: "IsAdmin (t_user_id tok) w2 = (a, w3)" by fastforce
    then have "a = Inr True" using assms v tok b en False
      by (cases a) (auto simp: TokenAuth_def Let_def on_result_def on_ok_def split: if_splits)
    then show ?thesis using assms v tok b en False a by (auto simp: TokenAuth_def Let_def on_result_def on_ok_def)
  qed
qed

section \<open>Concrete runs\<close>

definition dist_world :: world where
  "dist_world = world_with (empty_db\<lparr>d_channels := [blank_channel\<lparr>c_id := 3, c_key := ''k'', c_group := ''g'', c_models := ''m''\<rparr>],
     d_users := [blank_user\<lparr>u_id := 7, u_group := ''g''\<rparr>],
     d_abilities := [\<lparr>ab_group = ''g'', ab_model = ''m'', ab_channel_id = 3, ab_enabled = True, ab_priority = Some 0\<rparr>]\<rparr>) 50"

definition dist_request :: request where
  "dist_request = \<lparr>rq_systemone = False, rq_user = 7, rq_token = 1, rq_group = [], rq_model = [], rq_response_id = [],
     rq_bounds = no_boundary, rq_specific = False, rq_skip_retry = False, rq_no_retry = False, rq_started = False,
     rq_channel = 0, rq_channel_name = [], rq_multi = False, rq_cached_key = - 1, rq_excluded = [], rq_actual_key = [],
     rq_key_index = 0, rq_history = [], rq_failures = [], rq_affinity_key = [], rq_affinity_success = False, rq_metrics = [],
     rq_emits = [], rq_spawned = [], rq_charges = [], rq_errors = [], rq_response = None\<rparr>"

definition dist_start :: dist_ctx where
  "dist_start = \<lparr>dx_rq = dist_request,
     dx_route = \<lparr>rt_path = ''/p'', rt_full_path = ''/p'', rt_method = ''POST'', rt_param_model = [],
       rt_bind = (\<lambda>m. m\<lparr>mr_model := ''m''\<rparr>)\<rparr>,
     dx_body = Inr [], dx_provider = [], dx_user_agent = [], dx_int = (\<lambda>_. 0), dx_string = (\<lambda>_. []), dx_specific = None,
     dx_state_index = 0, dx_state_print = [], dx_ttl = None, dx_log = None, dx_relay_mode = None, dx_channel = None, dx_abort = None\<rparr>"

definition demo_env :: "json dist_env" where
  "demo_env = \<lparr>de_gjson = demo_gjson, de_sha = id, de_lib = demo_lib, de_setting = demo_affinity\<lparr>at_enabled := False\<rparr>, de_pick = 0, de_key = 0\<rparr>"

lemma dist_select:
  "CacheGetRandomSatisfiedChannel 0 no_boundary ''g'' ''m'' 0 [] [] dist_world =
     (Inr (blank_channel\<lparr>c_id := 3, c_key := ''k'', c_group := ''g'', c_models := ''m''\<rparr>, - 1), dist_world)"
  by (simp add: dist_world_def select_run run_simps)

lemma dist_group: "CacheGetUserGroup 7 dist_world = (Inr ''g'', dist_world)"
  by (simp add: CacheGetUserGroup_def GetUserGroup_def dist_world_def run_simps)

lemma dist_model: "getModelRequest (dx_route dist_start) = (\<lparr>mr_model = ''m'', mr_model_name = [], mr_previous_response = []\<rparr>, True, None)"
  by (simp add: getModelRequest_def read_model_def default_model_def dist_start_def Let_def has_suffix_def)

lemma dist_use:
  assumes "rq_bounds (dx_rq d) = no_boundary" "rq_cached_key (dx_rq d) = - 1" "rq_excluded (dx_rq d) = []"
  shows "\<exists>d'. use_channel demo_env ''m'' (blank_channel\<lparr>c_id := 3, c_key := ''k'', c_group := ''g'', c_models := ''m''\<rparr>) d dist_world =
      (Admitted d', dist_world) \<and> dx_channel d' = Some (blank_channel\<lparr>c_id := 3, c_key := ''k'', c_group := ''g'', c_models := ''m''\<rparr>)"
proof -
  let ?c = "blank_channel\<lparr>c_id := 3, c_key := ''k'', c_group := ''g'', c_models := ''m''\<rparr>"
  have key: "GetNextAvailableKey n ?c dist_world = (Inr (''k'', 0), dist_world)" for n
    by (simp add: GetNextAvailableKey_def start_defs)
  have allow: "RetryProviderAllows no_boundary ?c" by (simp add: RetryProviderAllows_def no_boundary_def)
  have bound: "rx_state_channel no_boundary = 0" by (simp add: no_boundary_def)
  define c where "c = ?c"
  have "GetNextAvailableKey n c dist_world = (Inr (''k'', 0), dist_world)" for n using key by (simp add: c_def)
  moreover have "RetryProviderAllows no_boundary c" using allow by (simp add: c_def)
  ultimately have "\<exists>d'. use_channel demo_env ''m'' c d dist_world = (Admitted d', dist_world) \<and> dx_channel d' = Some c"
    by (simp add: use_channel_def assms RestoreResponsesStateKey_def VerifyResponsesStateKey_def state_view_def put_state_def bound
        SetupContextForSelectedChannel_def request_key_def on_ok_def on_result_def ret_def Let_def)
  then show ?thesis by (simp add: c_def)
qed

lemma dist_run: "\<exists>d' p'. route_request demo_env dist_start (dist_world, newMemoryResponsesStateStore 1) = (Admitted d', p') \<and>
    dx_channel d' = Some (blank_channel\<lparr>c_id := 3, c_key := ''k'', c_group := ''g'', c_models := ''m''\<rparr>)"
proof -
  have env: "de_pick demo_env = 0" "at_enabled (de_setting demo_env) = False" by (simp_all add: demo_env_def)
  have st: "rq_user (dx_rq dist_start) = 7" "dx_specific dist_start = None" "rt_path (dx_route dist_start) = ''/p''"
    "rt_full_path (dx_route dist_start) = ''/p''" "rq_bounds (dx_rq dist_start) = no_boundary" "rq_response_id (dx_rq dist_start) = []"
    "rq_cached_key (dx_rq dist_start) = - 1" "rq_excluded (dx_rq dist_start) = []"
    by (simp_all add: dist_start_def dist_request_def)
  have path: "\<not> IsResponsesStatePath ''/p''" by (simp add: IsResponsesStatePath_def trim_slashes_def)
  define c where "c = blank_channel\<lparr>c_id := 3, c_key := ''k'', c_group := ''g'', c_models := ''m''\<rparr>"
  have sel: "CacheGetRandomSatisfiedChannel 0 no_boundary ''g'' ''m'' 0 [] [] dist_world = (Inr (c, - 1), dist_world)"
    by (simp add: dist_select c_def)
  have u: "\<exists>d'. use_channel demo_env ''m'' c d dist_world = (Admitted d', dist_world) \<and> dx_channel d' = Some c"
    if "rq_bounds (dx_rq d) = no_boundary" "rq_cached_key (dx_rq d) = - 1" "rq_excluded (dx_rq d) = []" for d
    using dist_use [OF that] by (simp add: c_def)
  define d where "d = dist_start\<lparr>dx_channel := None, dx_relay_mode := None, dx_rq := (dx_rq dist_start)\<lparr>rq_group := ''g'', rq_bounds := no_boundary, rq_cached_key := - 1, rq_model := ''m''\<rparr>\<rparr>"
  have fin: "rq_bounds (dx_rq d) = no_boundary" "rq_cached_key (dx_rq d) = - 1" "rq_excluded (dx_rq d) = []"
    by (simp_all add: d_def st)
  have "route_request demo_env dist_start (dist_world, newMemoryResponsesStateStore 1) =
      (case use_channel demo_env ''m'' c d dist_world of (r, w) \<Rightarrow> (r, (w, newMemoryResponsesStateStore 1)))"
    by (simp add: route_request_def st dist_group BindResponsesState_def bindResponsesStateWithChannelLookup_def state_view_def path dist_model
        pick_channel_def put_state_def select_channel_def response_id_def has_suffix_def preferred_channel_def GetPreferredChannelByAffinity_def env
        put_affinity_def affinity_view_def random_channel_def sel Let_def d_def)
  then show ?thesis using u [OF fin] by (auto simp: c_def)
qed


theorem gemini_model_name_witness:
  "extractModelNameFromGeminiPath ''/v1beta/models/gemini-2.0-flash:generateContent'' = ''gemini-2.0-flash''"
proof -
  have "''v1beta'' \<in> {''v1'', ''v1beta'', ''v1alpha''}" "CHR '':'' \<notin> set ''gemini-2.0-flash''" by simp_all
  from gemini_model_name [OF this, of "''generateContent''"] show ?thesis by simp
qed

definition key_world :: world where
  "key_world = world_with (empty_db\<lparr>d_users := [blank_user\<lparr>u_id := 7\<rparr>], d_tokens := [blank_token\<lparr>t_id := 4, t_user_id := 7, t_key := ''abc'', t_unlimited := True\<rparr>]\<rparr>) 50"

definition key_request :: auth_request where
  "key_request = \<lparr>au_path = ''/v1/messages'', au_authorization = [], au_x_api_key = ''sk-abc'', au_query_key = [], au_x_goog_key = [], au_x_key = []\<rparr>"

lemma key_run: "\<exists>u w'. TokenAuth key_request key_world = (Inr (Admitted u), w')"
proof -
  have k: "key_parts key_request = [''abc'']"
    by (simp add: key_parts_def authorization_header_def key_request_def trim_prefix_def)
  define tok where "tok = blank_token\<lparr>t_id := 4, t_user_id := 7, t_key := ''abc'', t_unlimited := True\<rparr>"
  have v: "ValidateUserToken ''abc'' key_world = (Inr tok, key_world)"
    by (simp add: ValidateUserToken_def CacheGetTokenByKey_def key_world_def tok_def run_simps status_defs)
  have e: "CacheIsUserEnabled 7 key_world = (Inr True, key_world)"
    by (simp add: CacheIsUserEnabled_def IsUserEnabled_def key_world_def run_simps status_defs)
  have i: "t_user_id tok = 7" by (simp add: tok_def)
  show ?thesis by (simp add: TokenAuth_def k Let_def on_result_def v e i ret_def)
qed

theorem api_key_admits_witness:
  "\<exists>u w' tok w1. TokenAuth key_request key_world = (Inr (Admitted u), w') \<and> ValidateUserToken (hd (key_parts key_request)) key_world = (Inr tok, w1) \<and>
     tu_id u = t_user_id tok"
proof -
  obtain u w' where r: "TokenAuth key_request key_world = (Inr (Admitted u), w')" using key_run by blast
  from api_key_admits [OF r] r show ?thesis by blast
qed

end
