(* ===== verification/TextBilling.thy ===== *)
theory TextBilling
  imports Pricing Distributor
begin

text \<open>
  A text request from its reservation to its price, \<open>relay/controller/text.go\<close> and \<open>helper.go\<close>: the
  estimate taken before the call, returned when the upstream answers with an error, and the difference to
  the price taken when it answers. Parsing, counting tokens and the adaptor of the channel are arguments;
  the goroutines a request leaves behind are operations it returns.
\<close>

section \<open>The request\<close>

record relay_meta =
  rm_mode :: int
  rm_channel_type :: int
  rm_channel_id :: int
  rm_token_id :: int
  rm_token_name :: string
  rm_user_id :: int
  rm_group :: string
  rm_mapping :: "(string \<times> string) list"
  rm_api_type :: int
  rm_stream :: bool
  rm_origin :: string
  rm_actual :: string
  rm_prompt_tokens :: int
  rm_key_index :: "int option"
  rm_multi :: bool
  rm_channel_discount :: f64
  rm_user_ratio :: f64

definition BillingModelName :: "relay_meta \<Rightarrow> string" where
  "BillingModelName m = (if rm_actual m \<noteq> [] then rm_actual m else rm_origin m)"

definition CombinedGroupRatio :: "pricing \<Rightarrow> relay_meta \<Rightarrow> f64" where
  "CombinedGroupRatio P m =
     (let one = (\<lambda>v. if fle v fzero then fone else v)
      in combined (GetGroupRatio P (rm_group m)) (one (rm_channel_discount m)) (one (rm_user_ratio m))
           (GetModelDiscount P (BillingModelName m)))"

definition GetMappedModelName :: "string \<Rightarrow> (string \<times> string) list \<Rightarrow> string \<times> bool" where
  "GetMappedModelName name mapping =
     (case map_of mapping name of None \<Rightarrow> (name, False) | Some n \<Rightarrow> if n \<noteq> [] then (n, True) else (name, False))"

text \<open>A JSON field of any type; only a text is compared with the empty text.\<close>

datatype any_field = NoField | TextField string | OtherField

record text_request =
  tr_model :: string
  tr_max_tokens :: int
  tr_max_completion :: int
  tr_messages :: nat
  tr_prompt :: any_field
  tr_input :: any_field
  tr_instruction :: string
  tr_stream :: bool

definition RelayModeChatCompletions :: int where "RelayModeChatCompletions = 1"
definition RelayModeCompletions :: int where "RelayModeCompletions = 2"
definition RelayModeEmbeddings :: int where "RelayModeEmbeddings = 3"
definition RelayModeModerations :: int where "RelayModeModerations = 4"
definition RelayModeEdits :: int where "RelayModeEdits = 6"

definition ValidateTextRequest :: "text_request \<Rightarrow> int \<Rightarrow> gerr option" where
  "ValidateTextRequest r mode =
     (if tr_max_tokens r < 0 \<or> (2 ^ 31 - 1) div 2 < tr_max_tokens r then Some (Msg ''max_tokens is invalid'')
      else if tr_model r = [] then Some (Msg ''model is required'')
      else if mode = RelayModeCompletions \<and> tr_prompt r = TextField [] then Some (Msg ''field prompt is required'')
      else if mode = RelayModeChatCompletions \<and> tr_messages r = 0 then Some (Msg ''field messages is required'')
      else if mode = RelayModeModerations \<and> tr_input r = TextField [] then Some (Msg ''field input is required'')
      else if mode = RelayModeEdits \<and> tr_instruction r = [] then Some (Msg ''field instruction is required'')
      else None)"

definition getAndValidateTextRequest :: "gerr + text_request \<Rightarrow> string \<Rightarrow> int \<Rightarrow> gerr + text_request" where
  "getAndValidateTextRequest parsed param_model mode =
     (case parsed of
        Inl e \<Rightarrow> Inl e
      | Inr r0 \<Rightarrow>
          (let r1 = (if mode = RelayModeModerations \<and> tr_model r0 = [] then r0\<lparr>tr_model := ''text-moderation-latest''\<rparr> else r0);
               r2 = (if mode = RelayModeEmbeddings \<and> tr_model r1 = [] then r1\<lparr>tr_model := param_model\<rparr> else r1)
           in case ValidateTextRequest r2 mode of Some e \<Rightarrow> Inl e | None \<Rightarrow> Inr r2))"

section \<open>The upstream\<close>

text \<open>
  What an adaptor does with a request: \<open>ad_do\<close> is an error, no response object, or a status, its content
  type, and the error a bad response is turned into; \<open>ad_response\<close> is an error or the usage, if it has one.
\<close>

record upstream =
  up_status :: int
  up_content_type :: string
  up_error :: relay_error

record adaptor =
  ad_convert :: "gerr option"
  ad_marshal :: "gerr option"
  ad_do :: "gerr + upstream option"
  ad_response :: "relay_error + usage option"

record text_env =
  te_pricing :: pricing
  te_parsed :: "gerr + text_request"
  te_param_model :: string
  te_count_messages :: "text_request \<Rightarrow> int"
  te_count_prompt :: "text_request \<Rightarrow> int"
  te_count_input :: "text_request \<Rightarrow> int"
  te_adaptor :: "int \<Rightarrow> adaptor option"
  te_history :: string
  te_details :: string
  te_retries :: "string \<Rightarrow> string"

definition getPromptTokens :: "text_env \<Rightarrow> text_request \<Rightarrow> int \<Rightarrow> int" where
  "getPromptTokens env r mode =
     (if mode = RelayModeChatCompletions then te_count_messages env r
      else if mode = RelayModeCompletions then te_count_prompt env r
      else if mode = RelayModeModerations then te_count_input env r else 0)"

definition ErrorWrapper :: "gerr \<Rightarrow> string \<Rightarrow> int \<Rightarrow> relay_error" where
  "ErrorWrapper e code status = \<lparr>re_message = error_text e, re_type = ''api_error'', re_code = Some code, re_status = status\<rparr>"

section \<open>The reservation\<close>

definition billed_model :: "relay_meta \<Rightarrow> text_request \<Rightarrow> string" where
  "billed_model m r = (if BillingModelName m = [] then tr_model r else BillingModelName m)"

definition estimate_quota :: "pricing \<Rightarrow> int \<Rightarrow> relay_meta \<Rightarrow> text_request \<Rightarrow> int \<Rightarrow> f64 \<Rightarrow> int" where
  "estimate_quota P pre m r prompt_tokens ratio =
     (if has_price P (billed_model m r) then fixed_quota (GetModelPrice P (billed_model m r)) (CombinedGroupRatio P m)
      else getPreConsumedQuota pre (tr_max_tokens r) prompt_tokens ratio)"

definition reserve_quota :: "int \<Rightarrow> relay_meta \<Rightarrow> world \<Rightarrow> (relay_error + int) \<times> world" where
  "reserve_quota q m w =
     (case CacheGetUserQuota (rm_user_id m) w of
        (Inl e, w1) \<Rightarrow> (Inl (ErrorWrapper e ''get_user_quota_failed'' 500), w1)
      | (Inr uq, w1) \<Rightarrow>
          if wrap64 (uq - q) < 0 then (Inl (ErrorWrapper (Msg ''user quota is not enough'') ''insufficient_user_quota'' 403), w1)
          else (case CacheDecreaseUserQuota (rm_user_id m) q w1 of
             (Inl e, w2) \<Rightarrow> (Inl (ErrorWrapper e ''decrease_user_quota_failed'' 500), w2)
           | (Inr _, w2) \<Rightarrow>
               (let q1 = (if wrap64 (100 * q) < uq then 0 else q)
                in if 0 < q1
                   then (case PreConsumeTokenQuota (rm_token_id m) q1 w2 of
                      (Inl e, w3) \<Rightarrow> (Inl (ErrorWrapper e ''pre_consume_token_quota_failed'' 403), w3)
                    | (Inr _, w3) \<Rightarrow> (Inr q1, w3))
                   else (Inr q1, w2))))"

definition preConsumeQuota :: "pricing \<Rightarrow> text_request \<Rightarrow> int \<Rightarrow> f64 \<Rightarrow> relay_meta \<Rightarrow> world \<Rightarrow> (relay_error + int) \<times> world" where
  "preConsumeQuota P r prompt_tokens ratio m w =
     reserve_quota (estimate_quota P (cfg_pre_consumed (w_cfg w)) m r prompt_tokens ratio) m w"

text \<open>The reservation of an image request, which estimates by itself.\<close>

definition preConsumeImageQuota :: "int \<Rightarrow> relay_meta \<Rightarrow> world \<Rightarrow> (relay_error + int) \<times> world" where
  "preConsumeImageQuota q m w = reserve_quota q m w"

section \<open>The settlement\<close>

text \<open>The goroutine that returns a reservation.\<close>

definition ReturnPreConsumedQuota :: "int \<Rightarrow> int \<Rightarrow> unit op list" where
  "ReturnPreConsumedQuota q token = (if q \<noteq> 0 then [PostConsumeTokenQuota token (wrap64 (- q))] else [])"

definition updateMultiKeyUsage :: "relay_meta \<Rightarrow> bool \<Rightarrow> unit op list" where
  "updateMultiKeyUsage m success =
     (if \<not> rm_multi m then []
      else [on_ok (GetChannelById (rm_channel_id m) True) (\<lambda>c.
              then_do (HandleKeyUsed c (case rm_key_index m of None \<Rightarrow> 0 | Some i \<Rightarrow> i) success) (ret ()))])"

definition appendModelMappingInfo :: "string \<Rightarrow> string \<Rightarrow> string \<Rightarrow> string" where
  "appendModelMappingInfo other origin actual =
     (if origin = [] \<or> actual = [] \<or> origin = actual then other
      else let info = ''is_model_mapped:true;origin_model_name:'' @ origin
           in if other \<noteq> [] then other @ '';'' @ info else info)"

definition appendBillingDetails :: "string \<Rightarrow> string \<Rightarrow> string" where
  "appendBillingDetails other details =
     (let info = ''billingDetails:'' @ details in if other \<noteq> [] then other @ '';'' @ info else info)"

text \<open>The model a consumption is logged under: the one the user asked for.\<close>

definition logged_model :: "string \<Rightarrow> string \<Rightarrow> string" where
  "logged_model other name =
     (if other = [] then name
      else foldl (\<lambda>n part. if has_prefix part ''origin_model_name:'' then trim_prefix part ''origin_model_name:'' else n)
             name (split_on (CHR '';'') other))"

definition RecordConsumeLogWithOtherAndRequestID ::
  "int \<Rightarrow> int \<Rightarrow> int \<Rightarrow> int \<Rightarrow> string \<Rightarrow> string \<Rightarrow> int \<Rightarrow> string \<Rightarrow> int \<Rightarrow> unit op" where
  "RecordConsumeLogWithOtherAndRequestID uid channel prompt completion name token_name quota other cached =
     RecordLog uid LogTypeConsume (LogConsume prompt completion cached (logged_model other name) token_name quota channel)"

definition postConsumeQuota :: "text_env \<Rightarrow> usage \<Rightarrow> relay_meta \<Rightarrow> text_request \<Rightarrow> f64 \<Rightarrow> int \<Rightarrow> f64 \<Rightarrow> f64 \<Rightarrow> unit op" where
  "postConsumeQuota env u m r ratio pre model_ratio group_ratio =
     (let P = te_pricing env;
          quota = used_quota P (billed_model m r) u model_ratio group_ratio ratio;
          other = te_retries env (appendBillingDetails (appendModelMappingInfo (te_history env) (rm_origin m) (rm_actual m)) (te_details env));
          log_model = (if BillingModelName m \<noteq> [] then BillingModelName m else tr_model r)
      in on_result (PostConsumeTokenQuota (rm_token_id m) (wrap64 (quota - pre))) (\<lambda>x.
         if x = Inl Panic then fail Panic
         else then_do (ignore_err (CacheUpdateUserQuota (rm_user_id m)))
           (if quota \<noteq> 0 \<or> 0 < us_prompt u \<or> 0 < us_completion u
            then then_do (RecordConsumeLogWithOtherAndRequestID (rm_user_id m) (rm_channel_id m) (us_prompt u) (us_completion u)
                    log_model (rm_token_name m) quota other (us_cached u))
                (then_do (UpdateUserUsedQuotaAndRequestCount (rm_user_id m) quota)
                         (UpdateChannelUsedQuota (rm_channel_id m) quota))
            else ret ())))"

section \<open>The whole request\<close>

record text_outcome =
  to_error :: "relay_error option"
  to_spawned :: "unit op list"

definition failed :: "relay_error \<Rightarrow> unit op list \<Rightarrow> text_outcome" where
  "failed e ops = \<lparr>to_error = Some e, to_spawned = ops\<rparr>"

definition answered :: "text_env \<Rightarrow> relay_meta \<Rightarrow> text_request \<Rightarrow> f64 \<Rightarrow> int \<Rightarrow> f64 \<Rightarrow> f64 \<Rightarrow> usage option \<Rightarrow> text_outcome" where
  "answered env m r ratio pre model_ratio group_ratio usage =
     \<lparr>to_error = None,
      to_spawned = (case usage of None \<Rightarrow> [] | Some u \<Rightarrow> [postConsumeQuota env u m r ratio pre model_ratio group_ratio]) @
        updateMultiKeyUsage m (usage \<noteq> None)\<rparr>"

text \<open>Whether an OpenAI request is marshalled again instead of being passed on.\<close>

definition shouldResetRequestBody :: "relay_meta \<Rightarrow> text_request \<Rightarrow> bool \<Rightarrow> bool" where
  "shouldResetRequestBody m r mapped \<longleftrightarrow> mapped \<or> rm_channel_type m = 26 \<or>
     (str_contains (to_lower (tr_model r)) ''audio'' \<and> tr_stream r) \<or> 0 < tr_max_completion r"

text \<open>The part between the reservation and the answer.\<close>

definition call_upstream :: "text_env \<Rightarrow> relay_meta \<Rightarrow> text_request \<Rightarrow> bool \<Rightarrow> f64 \<Rightarrow> int \<Rightarrow> f64 \<Rightarrow> f64 \<Rightarrow> text_outcome" where
  "call_upstream env m r mapped ratio pre model_ratio group_ratio =
     (case te_adaptor env (rm_api_type m) of
        None \<Rightarrow> failed (ErrorWrapper (Msg (''invalid api type: '' @ itoa (rm_api_type m))) ''invalid_api_type'' 400) []
      | Some a \<Rightarrow>
     (case ad_convert a of
        Some e \<Rightarrow> failed (ErrorWrapper e ''convert_request_failed'' 500) []
      | None \<Rightarrow>
     (case (if rm_api_type m \<noteq> 0 \<or> shouldResetRequestBody m r mapped then ad_marshal a else None) of
        Some e \<Rightarrow> failed (ErrorWrapper e ''json_marshal_failed'' 500) []
      | None \<Rightarrow>
          (let respond = (case ad_response a of
                 Inl e \<Rightarrow> failed e (ReturnPreConsumedQuota pre (rm_token_id m))
               | Inr usage \<Rightarrow> answered env m r ratio pre model_ratio group_ratio usage)
           in case ad_do a of
             Inl e \<Rightarrow> failed (ErrorWrapper e ''do_request_failed'' 500) []
           | Inr None \<Rightarrow> respond
           | Inr (Some resp) \<Rightarrow>
               if up_status resp \<noteq> 200 \<or> (rm_stream m \<and> up_content_type resp = ''application/json'')
               then failed (up_error resp) (ReturnPreConsumedQuota pre (rm_token_id m))
               else respond))))"

definition RelayTextHelper :: "text_env \<Rightarrow> relay_meta \<Rightarrow> world \<Rightarrow> text_outcome \<times> world" where
  "RelayTextHelper env m0 w =
     (case getAndValidateTextRequest (te_parsed env) (te_param_model env) (rm_mode m0) of
        Inl e \<Rightarrow> (failed (ErrorWrapper e ''invalid_text_request'' 400) [], w)
      | Inr r0 \<Rightarrow>
          (case GetMappedModelName (tr_model r0) (rm_mapping m0) of
             (name, mapped) \<Rightarrow>
               (let P = te_pricing env;
                    r = r0\<lparr>tr_model := name\<rparr>;
                    m1 = m0\<lparr>rm_stream := tr_stream r0, rm_origin := tr_model r0, rm_actual := name\<rparr>;
                    model_ratio = GetModelRatio P (BillingModelName m1);
                    group_ratio = CombinedGroupRatio P m1;
                    ratio = fmul model_ratio group_ratio;
                    prompt_tokens = getPromptTokens env r (rm_mode m1);
                    m = m1\<lparr>rm_prompt_tokens := prompt_tokens\<rparr>
                in case preConsumeQuota P r prompt_tokens ratio m w of
                     (Inl e, w1) \<Rightarrow> (failed e [], w1)
                   | (Inr pre, w1) \<Rightarrow> (call_upstream env m r mapped ratio pre model_ratio group_ratio, w1))))"

text \<open>The goroutines of a request, one after the other.\<close>

definition run_all :: "unit op list \<Rightarrow> world \<Rightarrow> world" where
  "run_all ops w = fold (\<lambda>f w. snd (f w)) ops w"

section \<open>Where the balances move\<close>

definition balances :: "db \<Rightarrow> (int \<Rightarrow> int option) \<times> (int \<Rightarrow> int option)" where
  "balances d = (quota_at d, remain_at d)"

lemma keeps_balances_users:
  "(\<And>u. u_id (f u) = u_id u) \<Longrightarrow> (\<And>u. u_quota (f u) = u_quota u) \<Longrightarrow> keeps balances (update_users p f)"
  by (rule keeps_update)
    (simp add: balances_def quota_at_def remain_at_def user_of_def token_of_def fun_eq_iff update_rows_same_key)

lemma keeps_balances_channels: "keeps balances (update_channels p f)"
  by (rule keeps_update) (simp add: balances_def quota_at_def remain_at_def user_of_def token_of_def fun_eq_iff)

lemma keeps_stmt [keeps_intros]: "keeps V f \<Longrightarrow> keeps V (stmt f)"
  unfolding stmt_def by (intro keeps_intros)

lemma keeps_addNewRecord [keeps_intros]: "keeps V (addNewRecord t i v)"
  by (auto simp: keeps_def addNewRecord_def)

lemma keeps_updateMultiKeyUsage: "f \<in> set (updateMultiKeyUsage m b) \<Longrightarrow> keeps balances f"
proof -
  have "keeps balances (HandleKeyUsed c i b)" for c i
    unfolding HandleKeyUsed_def saveMultiKeyInfo_def set_channel_def Let_def
    by (intro keeps_intros keeps_balances_channels)
  then show "f \<in> set (updateMultiKeyUsage m b) \<Longrightarrow> keeps balances f"
    by (auto simp: updateMultiKeyUsage_def split: if_splits intro!: keeps_intros)
qed

lemma keeps_statistics:
  "keeps balances (RecordConsumeLogWithOtherAndRequestID i ch p c n t q other k)"
  "keeps balances (UpdateUserUsedQuotaAndRequestCount i q)" "keeps balances (UpdateChannelUsedQuota i q)"
  "keeps balances (CacheUpdateUserQuota i)" "keeps balances (CacheGetUserQuota i)" "keeps balances (CacheDecreaseUserQuota i q)"
proof -
  show "keeps balances (RecordConsumeLogWithOtherAndRequestID i ch p c n t q other k)"
    unfolding RecordConsumeLogWithOtherAndRequestID_def by (rule keeps_RecordLog)
  show "keeps balances (UpdateUserUsedQuotaAndRequestCount i q)"
    unfolding UpdateUserUsedQuotaAndRequestCount_def updateUserUsedQuotaAndRequestCount0_def
    by (intro keeps_intros keeps_balances_users) (simp_all add: add_requests_def add_used_def)
  show "keeps balances (UpdateChannelUsedQuota i q)"
    unfolding UpdateChannelUsedQuota_def updateChannelUsedQuota_def by (intro keeps_intros keeps_balances_channels)
  have g: "keeps balances (GetUserQuota i)" unfolding GetUserQuota_def by (intro keeps_intros)
  show c: "keeps balances (CacheGetUserQuota i)"
    unfolding CacheGetUserQuota_def fetchAndUpdateUserQuota_def by (intro keeps_intros g)
  show "keeps balances (CacheUpdateUserQuota i)" unfolding CacheUpdateUserQuota_def by (intro keeps_intros c)
  show "keeps balances (CacheDecreaseUserQuota i q)" unfolding CacheDecreaseUserQuota_def by (intro keeps_intros)
qed

lemma run_all_keeps: "(\<And>f. f \<in> set ops \<Longrightarrow> keeps V f) \<Longrightarrow> V (w_db (run_all ops w)) = V (w_db w)"
proof (induction ops arbitrary: w)
  case (Cons f ops)
  have "V (w_db (snd (f w))) = V (w_db w)" using Cons.prems [of f] by (cases "f w") (auto dest: keepsD)
  then show ?case using Cons by (simp add: run_all_def)
qed (simp add: run_all_def)

text \<open>Reading and lowering the cached balance leaves tables and options alone.\<close>

lemma redis_cmd_cfg:
  assumes "redis_cmd f w = (r, w')" "\<And>x. w_cfg (snd (f x)) = w_cfg x"
  shows "w_cfg w' = w_cfg w"
proof -
  have "w_cfg w' = w_cfg x" if "f x = (r, w')" for x using assms(2) [of x] that by simp
  then show ?thesis
    using assms(1) by (cases "take_fault w") (fastforce simp: redis_cmd_def take_fault_def split: if_splits list.splits)
qed

lemma redis_cfg:
  "RedisGet k w = (r, w') \<Longrightarrow> w_cfg w' = w_cfg w" "RedisSet k v ttl w = (r2, w') \<Longrightarrow> w_cfg w' = w_cfg w"
  "RedisDecrease k x w = (r3, w') \<Longrightarrow> w_cfg w' = w_cfg w"
  unfolding RedisGet_def RedisSet_def RedisDecrease_def by (erule redis_cmd_cfg; auto split: option.splits)+

lemma cached_quota_same:
  "CacheGetUserQuota i w = (r, w') \<Longrightarrow> same_money w w'" "CacheDecreaseUserQuota i q w = (r2, w') \<Longrightarrow> same_money w w'"
proof -
  have q: "GetUserQuota i w = (x, w') \<Longrightarrow> w_cfg w' = w_cfg w" for x w w'
    unfolding GetUserQuota_def by (auto dest!: query_touched simp: touched_def)
  have f: "fetchAndUpdateUserQuota i w = (x, w') \<Longrightarrow> w_cfg w' = w_cfg w" for x w w'
    by (auto simp: fetchAndUpdateUserQuota_def on_ok_def on_result_def reading_def ret_def fail_def
        split: prod.splits sum.splits dest!: q redis_cfg)
  have V: "V (w_db w') = V (w_db w)" if "CacheGetUserQuota i w = (r, w')" for V :: "db \<Rightarrow> bool"
  proof -
    have "keeps V (CacheGetUserQuota i)"
      unfolding CacheGetUserQuota_def fetchAndUpdateUserQuota_def GetUserQuota_def by (intro keeps_intros)
    then show ?thesis using that by (rule keepsD)
  qed
  show "CacheGetUserQuota i w = (r, w') \<Longrightarrow> same_money w w'"
  proof -
    assume c: "CacheGetUserQuota i w = (r, w')"
    have "w_db w' = w_db w" using V [OF c, of "\<lambda>d. d = w_db w"] by simp
    moreover have "w_cfg w' = w_cfg w"
      using c by (auto simp: CacheGetUserQuota_def on_result_def reading_def ret_def split: if_splits prod.splits sum.splits option.splits
          dest!: q f redis_cfg)
    ultimately show "same_money w w'" by (simp add: same_money_def)
  qed
  show "CacheDecreaseUserQuota i q w = (r2, w') \<Longrightarrow> same_money w w'"
  proof -
    assume c: "CacheDecreaseUserQuota i q w = (r2, w')"
    have "keeps (\<lambda>d. d) (CacheDecreaseUserQuota i q)" unfolding CacheDecreaseUserQuota_def by (intro keeps_intros)
    then have "w_db w' = w_db w" using c keepsD by blast
    moreover have "w_cfg w' = w_cfg w"
      using c by (auto simp: CacheDecreaseUserQuota_def reading_def ret_def split: if_splits dest: redis_cfg)
    ultimately show "same_money w w'" by (simp add: same_money_def)
  qed
qed

lemma reserve_moves:
  assumes "reserve_quota q m w = (Inr pre, w1)" "\<not> cfg_batch_update (w_cfg w)" "keys_ok (w_db w)"
  shows "(pre = q \<or> pre = 0) \<and> (if 0 < pre
    then \<exists>t. token_of (w_db w) (rm_token_id m) = Some t \<and> both_moved (t_user_id t) (rm_token_id m) (- pre) w w1
    else same_money w w1)"
proof -
  obtain uq wa where a: "CacheGetUserQuota (rm_user_id m) w = (Inr uq, wa)"
    using assms(1) by (auto simp: reserve_quota_def split: prod.splits sum.splits)
  obtain wb where b: "CacheDecreaseUserQuota (rm_user_id m) q wa = (Inr (), wb)"
    using assms(1) a by (auto simp: reserve_quota_def split: prod.splits sum.splits if_splits)
  have s: "same_money w wb" using cached_quota_same(1) [OF a] cached_quota_same(2) [OF b] same_money_trans by blast
  show ?thesis
  proof (cases "0 < pre")
    case True
    then have p: "pre = q" "PreConsumeTokenQuota (rm_token_id m) q wb = (Inr (), w1)"
      using assms(1) a b by (auto simp: reserve_quota_def Let_def split: prod.splits sum.splits if_splits)
    have "\<not> cfg_batch_update (w_cfg wb)" "keys_ok (w_db wb)" using s assms(2,3) by (simp_all add: same_money_def)
    from PreConsume_moves [OF p(2) this] obtain t where
      t: "token_of (w_db wb) (rm_token_id m) = Some t" "both_moved (t_user_id t) (rm_token_id m) (- q) wb w1" by blast
    have "owner_at (w_db wb) = owner_at (w_db w)" using s by (simp add: same_money_def)
    then obtain t' where "token_of (w_db w) (rm_token_id m) = Some t'" "t_user_id t' = t_user_id t"
      using t(1) by (metis map_option_eq_Some owner_at_def)
    moreover have "both_moved (t_user_id t) (rm_token_id m) (- q) w w1"
      using t(2) s by (simp add: both_moved_def same_money_def)
    ultimately show ?thesis using True p(1) by auto
  next
    case False
    then have "w1 = wb \<and> (pre = q \<or> pre = 0)"
      using assms(1) a b by (auto simp: reserve_quota_def Let_def split: prod.splits sum.splits if_splits)
    then show ?thesis using s False by simp
  qed
qed

lemma PostConsume_runs:
  assumes "w_faults w = []" "\<not> w_aborted w" "\<not> cfg_batch_update (w_cfg w)" "token_of (w_db w) i = Some t" "i \<noteq> 0"
    and "in_int64 q" "q \<noteq> min_int64"
  shows "\<exists>w'. PostConsumeTokenQuota i q w = (Inr (), w')"
proof -
  have "GetTokenById i w = (Inr t, w)"
    using assms(1,2,4,5) by (simp add: GetTokenById_def first_reliable token_of_def)
  moreover have "wrap64 (- q) = - q" using assms(6,7) by (simp add: in_int64_def min_int64_def max_int64_def)
  ultimately show ?thesis
    using assms(1-3,5)
    by (simp add: PostConsumeTokenQuota_def on_result_def then_do_def on_ok_def DecreaseUserQuota_def IncreaseUserQuota_def
        DecreaseTokenQuota_def IncreaseTokenQuota_def reading_def decreaseUserQuota0_def increaseUserQuota0_def
        decreaseTokenQuota0_def increaseTokenQuota0_def stmt_def update_where_reliable ret_def Let_def)
qed

text \<open>Taking or returning a quota from a reserved request, when no statement fails.\<close>

lemma settle_moves:
  assumes "reserve_quota q m w = (Inr pre, w1)" "\<not> cfg_batch_update (w_cfg w)" "keys_ok (w_db w)"
    and "token_of (w_db w) (rm_token_id m) = Some t" "rm_token_id m \<noteq> 0"
    and "w_faults w1 = []" "\<not> w_aborted w1" "0 \<le> pre" "in_int64 d" "d \<noteq> min_int64"
  obtains w2 where "PostConsumeTokenQuota (rm_token_id m) d w1 = (Inr (), w2)"
    "balances (w_db w2) =
       ((quota_at (w_db w))(t_user_id t := map_option (\<lambda>x. x - (pre + d)) (quota_at (w_db w) (t_user_id t))),
        (remain_at (w_db w))(rm_token_id m := map_option (\<lambda>x. x - (pre + d)) (remain_at (w_db w) (rm_token_id m))))"
proof -
  note r = reserve_moves [OF assms(1-3)]
  have w1: "both_moved (t_user_id t) (rm_token_id m) (- pre) w w1"
  proof (cases "0 < pre")
    case True
    then show ?thesis using r assms(4) by auto
  next
    case False
    then have "same_money w w1" "pre = 0" using r assms(8) by auto
    then show ?thesis using assms(3) by (simp add: same_money_def both_moved_def option.map_ident)
  qed
  have own: "owner_at (w_db w1) (rm_token_id m) = Some (t_user_id t)" "\<not> cfg_batch_update (w_cfg w1)" "keys_ok (w_db w1)"
    using w1 assms(2,4) by (simp_all add: both_moved_def owner_at_def)
  then obtain t1 where t1: "token_of (w_db w1) (rm_token_id m) = Some t1" "t_user_id t1 = t_user_id t" by (auto simp: owner_at_def)
  obtain w2 where w2: "PostConsumeTokenQuota (rm_token_id m) d w1 = (Inr (), w2)"
    using PostConsume_runs [OF assms(6,7) own(2) t1(1) assms(5,9,10)] by blast
  have "GetTokenById (rm_token_id m) w1 = (Inr t1, w1)"
    using t1(1) assms(5-7) by (simp add: GetTokenById_def first_reliable token_of_def)
  from PostConsume_moves [OF w2 own(2,3) this assms(9,10)] t1(2)
  have "both_moved (t_user_id t) (rm_token_id m) (- d) w1 w2" by simp
  with w1 have "balances (w_db w2) =
       ((quota_at (w_db w))(t_user_id t := map_option (\<lambda>x. x - (pre + d)) (quota_at (w_db w) (t_user_id t))),
        (remain_at (w_db w))(rm_token_id m := map_option (\<lambda>x. x - (pre + d)) (remain_at (w_db w) (rm_token_id m))))"
    by (simp add: both_moved_def balances_def option.map_comp comp_def algebra_simps)
  with w2 show thesis by (rule that)
qed

section \<open>What a request costs\<close>

text \<open>The price of a request with a usage, and what it reserves.\<close>

definition mapped_meta :: "relay_meta \<Rightarrow> text_request \<Rightarrow> relay_meta" where
  "mapped_meta m0 r0 = m0\<lparr>rm_stream := tr_stream r0, rm_origin := tr_model r0,
     rm_actual := fst (GetMappedModelName (tr_model r0) (rm_mapping m0))\<rparr>"

definition request_price :: "text_env \<Rightarrow> relay_meta \<Rightarrow> text_request \<Rightarrow> usage \<Rightarrow> int" where
  "request_price env m0 r0 u =
     (let P = te_pricing env; m = mapped_meta m0 r0; r = r0\<lparr>tr_model := rm_actual m\<rparr>;
          model_ratio = GetModelRatio P (BillingModelName m); group_ratio = CombinedGroupRatio P m
      in used_quota P (billed_model m r) u model_ratio group_ratio (fmul model_ratio group_ratio))"

definition request_estimate :: "text_env \<Rightarrow> world \<Rightarrow> relay_meta \<Rightarrow> text_request \<Rightarrow> int" where
  "request_estimate env w m0 r0 =
     (let P = te_pricing env; m = mapped_meta m0 r0; r = r0\<lparr>tr_model := rm_actual m\<rparr>;
          model_ratio = GetModelRatio P (BillingModelName m); group_ratio = CombinedGroupRatio P m;
          tokens = getPromptTokens env r (rm_mode m)
      in estimate_quota P (cfg_pre_consumed (w_cfg w)) (m\<lparr>rm_prompt_tokens := tokens\<rparr>) r tokens (fmul model_ratio group_ratio))"

lemma meta_names [simp]:
  "BillingModelName (m\<lparr>rm_prompt_tokens := n\<rparr>) = BillingModelName m"
  "billed_model (m\<lparr>rm_prompt_tokens := n\<rparr>) r = billed_model m r"
  "CombinedGroupRatio P (m\<lparr>rm_prompt_tokens := n\<rparr>) = CombinedGroupRatio P m"
  by (simp_all add: BillingModelName_def billed_model_def CombinedGroupRatio_def)

lemma reserve_meta [simp]: "reserve_quota q (m\<lparr>rm_prompt_tokens := n\<rparr>) w = reserve_quota q m w"
  by (simp add: reserve_quota_def cong: sum.case_cong prod.case_cong if_cong)

text \<open>A valid request, with the abbreviations of the source folded.\<close>

lemma request_run:
  assumes "getAndValidateTextRequest (te_parsed env) (te_param_model env) (rm_mode m0) = Inr r0"
  obtains r m mapped mr gr where
    "RelayTextHelper env m0 w =
      (case reserve_quota (request_estimate env w m0 r0) (mapped_meta m0 r0) w of
         (Inl e, w1) \<Rightarrow> (failed e [], w1)
       | (Inr pre, w1) \<Rightarrow> (call_upstream env m r mapped (fmul mr gr) pre mr gr, w1))"
    "rm_token_id m = rm_token_id m0" "rm_api_type m = rm_api_type m0"
    "\<And>u. used_quota (te_pricing env) (billed_model m r) u mr gr (fmul mr gr) = request_price env m0 r0 u"
proof -
  let ?m = "mapped_meta m0 r0"
  let ?r = "r0\<lparr>tr_model := rm_actual ?m\<rparr>"
  define tokens where "tokens = getPromptTokens env ?r (rm_mode ?m)"
  define mr where "mr = GetModelRatio (te_pricing env) (BillingModelName ?m)"
  define gr where "gr = CombinedGroupRatio (te_pricing env) ?m"
  obtain name mapped where n: "GetMappedModelName (tr_model r0) (rm_mapping m0) = (name, mapped)" by fastforce
  have "RelayTextHelper env m0 w =
      (case reserve_quota (request_estimate env w m0 r0) (?m\<lparr>rm_prompt_tokens := tokens\<rparr>) w of
         (Inl e, w1) \<Rightarrow> (failed e [], w1)
       | (Inr pre, w1) \<Rightarrow> (call_upstream env (?m\<lparr>rm_prompt_tokens := tokens\<rparr>) ?r mapped (fmul mr gr) pre mr gr, w1))"
    using assms n by (simp add: RelayTextHelper_def preConsumeQuota_def request_estimate_def mapped_meta_def Let_def mr_def gr_def tokens_def
        del: reserve_meta split: prod.splits sum.splits)
  then show thesis
    by (intro that [of "?m\<lparr>rm_prompt_tokens := tokens\<rparr>" ?r mapped mr gr])
      (simp_all add: mapped_meta_def request_price_def Let_def mr_def gr_def)
qed

lemma used_quota_in_int64: "in_int64 (used_quota P name u mr gr r)"
proof -
  have m: "in_int64 min_int64" "in_int64 0" "in_int64 1" by (simp_all add: in_int64_def min_int64_def max_int64_def)
  have "in_int64 (f_to_int64 x)" for x by (cases x) (simp_all add: Let_def m)
  then show ?thesis using m by (simp add: used_quota_def fixed_quota_def Let_def)
qed

lemma estimate_in_int64: "in_int64 (request_estimate env w m0 r0)"
proof -
  have m: "in_int64 min_int64" by (simp add: in_int64_def min_int64_def max_int64_def)
  have "in_int64 (f_to_int64 x)" for x by (cases x) (simp_all add: Let_def m)
  then show ?thesis by (simp add: request_estimate_def estimate_quota_def getPreConsumedQuota_def fixed_quota_def Let_def)
qed

lemma reserved_bounds:
  "reserve_quota q m w = (Inr pre, w1) \<Longrightarrow> \<not> cfg_batch_update (w_cfg w) \<Longrightarrow> keys_ok (w_db w) \<Longrightarrow> 0 \<le> q \<Longrightarrow> in_int64 q \<Longrightarrow>
   0 \<le> pre \<and> in_int64 pre"
  using reserve_moves(1) [of q m w pre w1] by (auto simp: in_int64_def min_int64_def max_int64_def)

lemma postConsume_balances:
  assumes "PostConsumeTokenQuota (rm_token_id m) (wrap64 (used_quota (te_pricing env) (billed_model m r) u mr gr ratio - pre)) w = (Inr (), w1)"
  shows "balances (w_db (snd (postConsumeQuota env u m r ratio pre mr gr w))) = balances (w_db w1)"
proof -
  let ?rest = "\<lambda>quota other name. then_do (ignore_err (CacheUpdateUserQuota (rm_user_id m)))
           (if quota \<noteq> 0 \<or> 0 < us_prompt u \<or> 0 < us_completion u
            then then_do (RecordConsumeLogWithOtherAndRequestID (rm_user_id m) (rm_channel_id m) (us_prompt u) (us_completion u)
                    name (rm_token_name m) quota other (us_cached u))
                (then_do (UpdateUserUsedQuotaAndRequestCount (rm_user_id m) quota)
                         (UpdateChannelUsedQuota (rm_channel_id m) quota))
            else ret ())"
  have k: "keeps balances (?rest quota other name)" for quota other name
    by (intro keeps_intros keeps_statistics)
  have "balances (w_db (snd (?rest quota other name w1))) = balances (w_db w1)" for quota other name
    using keepsD [OF k [where quota = quota and other = other and name = name], of w1] by (cases "?rest quota other name w1") auto
  then show ?thesis using assms by (simp add: postConsumeQuota_def on_result_def Let_def)
qed

lemma call_upstream_spawned:
  assumes "out = call_upstream env m r mapped ratio pre mr gr"
  shows "to_error out = Some e \<Longrightarrow> to_spawned out = [] \<or> to_spawned out = ReturnPreConsumedQuota pre (rm_token_id m)"
    and "to_error out = None \<Longrightarrow> te_adaptor env (rm_api_type m) = Some a \<Longrightarrow> ad_response a = Inr (Some u) \<Longrightarrow>
      to_spawned out = postConsumeQuota env u m r ratio pre mr gr # updateMultiKeyUsage m True"
proof -
  define refund where "refund = ReturnPreConsumedQuota pre (rm_token_id m)"
  define charge where "charge = (\<lambda>usage. (case usage of None \<Rightarrow> [] | Some u \<Rightarrow> [postConsumeQuota env u m r ratio pre mr gr]) @ updateMultiKeyUsage m (usage \<noteq> None))"
  consider "(\<exists>e ops. out = \<lparr>to_error = Some e, to_spawned = ops\<rparr> \<and> (ops = [] \<or> ops = refund))"
    | a usage where "te_adaptor env (rm_api_type m) = Some a" "ad_response a = Inr usage" "out = \<lparr>to_error = None, to_spawned = charge usage\<rparr>"
  proof (cases "te_adaptor env (rm_api_type m)")
    case None
    then show thesis using assms that(1) by (simp add: call_upstream_def failed_def)
  next
    case (Some a)
    define respond where "respond = (case ad_response a of Inl e \<Rightarrow> failed e refund | Inr usage \<Rightarrow> answered env m r ratio pre mr gr usage)"
    define marshal where "marshal = (if rm_api_type m \<noteq> 0 \<or> shouldResetRequestBody m r mapped then ad_marshal a else None)"
    have o: "out = (case ad_convert a of Some e \<Rightarrow> failed (ErrorWrapper e ''convert_request_failed'' 500) []
      | None \<Rightarrow> (case marshal of Some e \<Rightarrow> failed (ErrorWrapper e ''json_marshal_failed'' 500) []
      | None \<Rightarrow> (case ad_do a of Inl e \<Rightarrow> failed (ErrorWrapper e ''do_request_failed'' 500) []
      | Inr None \<Rightarrow> respond
      | Inr (Some resp) \<Rightarrow> if up_status resp \<noteq> 200 \<or> (rm_stream m \<and> up_content_type resp = ''application/json'')
          then failed (up_error resp) refund else respond)))"
      unfolding assms call_upstream_def Some respond_def marshal_def refund_def Let_def option.case ..
    then have "out = respond \<or> (\<exists>e ops. out = \<lparr>to_error = Some e, to_spawned = ops\<rparr> \<and> (ops = [] \<or> ops = refund))"
      by (auto simp: failed_def split: option.splits sum.splits if_splits)
    then show thesis
    proof
      assume "out = respond"
      then show thesis using that Some by (cases "ad_response a") (auto simp: respond_def failed_def answered_def charge_def)
    qed (rule that(1))
  qed
  then have cases: "(\<exists>e ops. out = \<lparr>to_error = Some e, to_spawned = ops\<rparr> \<and> (ops = [] \<or> ops = refund)) \<or>
      (\<exists>a usage. te_adaptor env (rm_api_type m) = Some a \<and> ad_response a = Inr usage \<and> out = \<lparr>to_error = None, to_spawned = charge usage\<rparr>)"
    by cases auto
  show "to_error out = Some e \<Longrightarrow> to_spawned out = [] \<or> to_spawned out = ReturnPreConsumedQuota pre (rm_token_id m)"
    using cases by (auto simp: refund_def)
  show "to_error out = None \<Longrightarrow> te_adaptor env (rm_api_type m) = Some a \<Longrightarrow> ad_response a = Inr (Some u) \<Longrightarrow>
      to_spawned out = postConsumeQuota env u m r ratio pre mr gr # updateMultiKeyUsage m True"
    using cases by (auto simp: charge_def)
qed

text \<open>A request whose reservation stood, by the outcome it ends with.\<close>

lemma request_reserved:
  assumes "RelayTextHelper env m0 w = (out, w1)" "to_error out = None \<or> to_spawned out \<noteq> []"
    and "getAndValidateTextRequest (te_parsed env) (te_param_model env) (rm_mode m0) = Inr r0"
    and "\<not> cfg_batch_update (w_cfg w)" "keys_ok (w_db w)" "0 \<le> request_estimate env w m0 r0"
  obtains pre r m mapped mr gr where
    "reserve_quota (request_estimate env w m0 r0) (mapped_meta m0 r0) w = (Inr pre, w1)" "0 \<le> pre" "in_int64 pre"
    "out = call_upstream env m r mapped (fmul mr gr) pre mr gr" "rm_token_id m = rm_token_id m0" "rm_api_type m = rm_api_type m0"
    "\<And>u. used_quota (te_pricing env) (billed_model m r) u mr gr (fmul mr gr) = request_price env m0 r0 u"
proof -
  obtain r m mapped mr gr where
    s: "RelayTextHelper env m0 w =
      (case reserve_quota (request_estimate env w m0 r0) (mapped_meta m0 r0) w of
         (Inl e, w1) \<Rightarrow> (failed e [], w1)
       | (Inr pre, w1) \<Rightarrow> (call_upstream env m r mapped (fmul mr gr) pre mr gr, w1))"
    "rm_token_id m = rm_token_id m0" "rm_api_type m = rm_api_type m0"
    "\<And>u. used_quota (te_pricing env) (billed_model m r) u mr gr (fmul mr gr) = request_price env m0 r0 u"
    by (rule request_run [where w = w, OF assms(3)], rule that, assumption+)
  obtain x wx where x: "reserve_quota (request_estimate env w m0 r0) (mapped_meta m0 r0) w = (x, wx)" by fastforce
  obtain pre where pre: "x = Inr pre" using assms(1,2) s(1) x by (cases x) (auto simp: failed_def)
  have o: "wx = w1" "out = call_upstream env m r mapped (fmul mr gr) pre mr gr" using assms(1) s(1) x pre by simp_all
  have "0 \<le> pre \<and> in_int64 pre"
    using reserved_bounds [OF _ assms(4,5,6) estimate_in_int64] x pre o(1) by blast
  then show thesis using that [of pre m r mapped mr gr] x pre o s(2-4) by blast
qed

text \<open>
  C2. A request that is answered costs its price, no more and no less, whatever was reserved for it and
  whether its user was trusted: when the statements after the answer do not fail, the balance of the
  owner of the token and of the token are lower by exactly the price of the usage.
\<close>

theorem text_request_charges_price:
  assumes "RelayTextHelper env m0 w = (out, w1)" "to_error out = None"
    and "getAndValidateTextRequest (te_parsed env) (te_param_model env) (rm_mode m0) = Inr r0"
    and "te_adaptor env (rm_api_type m0) = Some a" "ad_response a = Inr (Some u)"
    and "\<not> cfg_batch_update (w_cfg w)" "keys_ok (w_db w)" "token_of (w_db w) (rm_token_id m0) = Some t" "rm_token_id m0 \<noteq> 0"
    and "w_faults w1 = []" "\<not> w_aborted w1" "0 \<le> request_estimate env w m0 r0" "0 \<le> request_price env m0 r0 u"
  shows "balances (w_db (run_all (to_spawned out) w1)) =
    ((quota_at (w_db w))(t_user_id t := map_option (\<lambda>x. x - request_price env m0 r0 u) (quota_at (w_db w) (t_user_id t))),
     (remain_at (w_db w))(rm_token_id m0 := map_option (\<lambda>x. x - request_price env m0 r0 u) (remain_at (w_db w) (rm_token_id m0))))"
proof -
  obtain pre r m mapped mr gr where
    s: "reserve_quota (request_estimate env w m0 r0) (mapped_meta m0 r0) w = (Inr pre, w1)" "0 \<le> pre" "in_int64 pre"
    "out = call_upstream env m r mapped (fmul mr gr) pre mr gr" "rm_token_id m = rm_token_id m0" "rm_api_type m = rm_api_type m0"
    "\<And>u. used_quota (te_pricing env) (billed_model m r) u mr gr (fmul mr gr) = request_price env m0 r0 u"
    by (rule request_reserved [OF assms(1) _ assms(3,6,7,12)]) (use assms(2) in auto)
  define q where "q = request_price env m0 r0 u"
  have q: "in_int64 q" "0 \<le> q" using used_quota_in_int64 s(7) assms(13) unfolding q_def by metis+
  have d: "wrap64 (q - pre) = q - pre" "in_int64 (q - pre)" "q - pre \<noteq> min_int64"
    using s(2,3) q by (auto simp: in_int64_def min_int64_def max_int64_def intro!: wrap64_id)
  have out: "to_spawned out = postConsumeQuota env u m r (fmul mr gr) pre mr gr # updateMultiKeyUsage m True"
    by (rule call_upstream_spawned(2) [OF s(4) assms(2) _ assms(5)]) (simp add: s(6) assms(4))
  have t: "token_of (w_db w) (rm_token_id (mapped_meta m0 r0)) = Some t" "rm_token_id (mapped_meta m0 r0) \<noteq> 0"
    "rm_token_id (mapped_meta m0 r0) = rm_token_id m"
    using assms(8,9) s(5) by (simp_all add: mapped_meta_def)
  obtain w2 where w2: "PostConsumeTokenQuota (rm_token_id (mapped_meta m0 r0)) (q - pre) w1 = (Inr (), w2)"
    "balances (w_db w2) =
       ((quota_at (w_db w))(t_user_id t := map_option (\<lambda>x. x - (pre + (q - pre))) (quota_at (w_db w) (t_user_id t))),
        (remain_at (w_db w))(rm_token_id (mapped_meta m0 r0) :=
           map_option (\<lambda>x. x - (pre + (q - pre))) (remain_at (w_db w) (rm_token_id (mapped_meta m0 r0)))))"
    by (rule settle_moves [OF s(1) assms(6,7) t(1,2) assms(10,11) s(2) d(2,3)])
  have "balances (w_db (snd (postConsumeQuota env u m r (fmul mr gr) pre mr gr w1))) = balances (w_db w2)"
    by (rule postConsume_balances) (use w2(1) d(1) s(7) t(3) in \<open>simp add: q_def\<close>)
  moreover have "balances (w_db (run_all (to_spawned out) w1)) =
      balances (w_db (snd (postConsumeQuota env u m r (fmul mr gr) pre mr gr w1)))"
    using run_all_keeps [of "updateMultiKeyUsage m True" balances] keeps_updateMultiKeyUsage by (simp add: out run_all_def)
  ultimately show ?thesis using w2(2) s(5) t(3) by (simp add: q_def)
qed


text \<open>
  C39. A request whose call fails keeps what it reserved: when the adaptor cannot convert the request or
  the connection to the upstream fails, the request ends with an error and leaves no goroutine behind,
  and both balances stay lower by the reservation.
\<close>

theorem failed_call_keeps_reservation:
  assumes "getAndValidateTextRequest (te_parsed env) (te_param_model env) (rm_mode m0) = Inr r0"
    and "te_adaptor env (rm_api_type m0) = Some a"
    and "ad_convert a = Some x \<or> (ad_convert a = None \<and> ad_marshal a = None \<and> ad_do a = Inl x)"
    and "reserve_quota (request_estimate env w m0 r0) (mapped_meta m0 r0) w = (Inr pre, w1)" "0 < pre"
    and "\<not> cfg_batch_update (w_cfg w)" "keys_ok (w_db w)"
  shows "\<exists>e t. RelayTextHelper env m0 w = (\<lparr>to_error = Some e, to_spawned = []\<rparr>, w1) \<and>
    token_of (w_db w) (rm_token_id m0) = Some t \<and> both_moved (t_user_id t) (rm_token_id m0) (- pre) w w1"
proof -
  obtain r m mapped mr gr where
    s: "RelayTextHelper env m0 w =
      (case reserve_quota (request_estimate env w m0 r0) (mapped_meta m0 r0) w of
         (Inl e, w1) \<Rightarrow> (failed e [], w1)
       | (Inr pre, w1) \<Rightarrow> (call_upstream env m r mapped (fmul mr gr) pre mr gr, w1))" "rm_api_type m = rm_api_type m0"
    by (rule request_run [where w = w, OF assms(1)])
  have "\<exists>e. call_upstream env m r mapped (fmul mr gr) pre mr gr = \<lparr>to_error = Some e, to_spawned = []\<rparr>"
    using assms(2,3) s(2) by (auto simp: call_upstream_def failed_def Let_def)
  then show ?thesis
    using s(1) assms(4,5) reserve_moves [OF assms(4,6,7)] by (auto simp: mapped_meta_def)
qed

section \<open>Concrete requests\<close>

definition demo_text :: text_request where
  "demo_text = \<lparr>tr_model = ''gpt-4'', tr_max_tokens = 0, tr_max_completion = 0, tr_messages = 1, tr_prompt = NoField, tr_input = NoField,
     tr_instruction = [], tr_stream = False\<rparr>"

definition demo_meta :: relay_meta where
  "demo_meta = \<lparr>rm_mode = 1, rm_channel_type = 1, rm_channel_id = 3, rm_token_id = 4, rm_token_name = ''t'', rm_user_id = 7, rm_group = ''Lv1'',
     rm_mapping = [], rm_api_type = 0, rm_stream = False, rm_origin = ''gpt-4'', rm_actual = ''gpt-4'', rm_prompt_tokens = 0,
     rm_key_index = Some 0, rm_multi = False, rm_channel_discount = fone, rm_user_ratio = fone\<rparr>"

definition demo_usage :: usage where
  "demo_usage = \<lparr>us_prompt = 100, us_completion = 50, us_cached = 0, us_cache_write = 0\<rparr>"

definition demo_text_env :: "adaptor \<Rightarrow> text_env" where
  "demo_text_env a = \<lparr>te_pricing = initial_pricing, te_parsed = Inr demo_text, te_param_model = [], te_count_messages = (\<lambda>_. 10),
     te_count_prompt = (\<lambda>_. 0), te_count_input = (\<lambda>_. 0), te_adaptor = (\<lambda>_. Some a), te_history = [], te_details = [], te_retries = id\<rparr>"

definition demo_adaptor :: adaptor where
  "demo_adaptor = \<lparr>ad_convert = None, ad_marshal = None, ad_do = Inr None, ad_response = Inr (Some demo_usage)\<rparr>"

definition text_world :: "int \<Rightarrow> world" where
  "text_world q = world_with (empty_db\<lparr>d_users := [blank_user\<lparr>u_id := 7, u_quota := 100000 - q\<rparr>],
     d_tokens := [blank_token\<lparr>t_id := 4, t_user_id := 7, t_remain_quota := 50000 - q, t_used_quota := q, t_accessed_time := if q = 0 then 0 else 50\<rparr>]\<rparr>) 50"

lemma demo_valid: "getAndValidateTextRequest (te_parsed (demo_text_env a)) (te_param_model (demo_text_env a)) (rm_mode demo_meta) = Inr demo_text"
  by (simp add: getAndValidateTextRequest_def ValidateTextRequest_def demo_text_env_def demo_text_def demo_meta_def
      RelayModeModerations_def RelayModeEmbeddings_def RelayModeCompletions_def RelayModeChatCompletions_def RelayModeEdits_def)

lemma demo_names: "GetMappedModelName ''gpt-4'' [] = (''gpt-4'', False)"
  by (simp add: GetMappedModelName_def)

lemma demo_names_kept [simp]:
  "BillingModelName (mapped_meta demo_meta demo_text) = ''gpt-4''"
  "billed_model (mapped_meta demo_meta demo_text) r = ''gpt-4''"
  "rm_actual (mapped_meta demo_meta demo_text) = ''gpt-4''"
  by (simp_all add: BillingModelName_def billed_model_def mapped_meta_def demo_meta_def demo_text_def demo_names)

lemma one_mult: "fmul (f_of_int 1) fone = f_of_int 1" "\<not> fle fone fzero"
  by (simp_all add: float_eval)

lemma demo_ratios:
  "CombinedGroupRatio initial_pricing (mapped_meta demo_meta demo_text) = f_of_int 1"
  "GetModelRatio initial_pricing (BillingModelName (mapped_meta demo_meta demo_text)) = f_of_int 15"
proof -
  have "GetGroupRatio initial_pricing ''Lv1'' = f_of_int 1" "GetModelDiscount initial_pricing ''gpt-4'' = fone"
    by (simp_all add: GetGroupRatio_def GetModelDiscount_def initial_pricing_def or_else_def GroupRatio_def f_of_int_def flit_def)
  then show "CombinedGroupRatio initial_pricing (mapped_meta demo_meta demo_text) = f_of_int 1"
    using one_mult by (simp add: CombinedGroupRatio_def combined_def mapped_meta_def demo_meta_def demo_text_def demo_names BillingModelName_def)
  show "GetModelRatio initial_pricing (BillingModelName (mapped_meta demo_meta demo_text)) = f_of_int 15"
    by (simp add: gpt4_prices)
qed

lemma demo_product: "fmul (f_of_int 15) (f_of_int 1) = f_of_int 15"
  by (simp add: float_eval)

lemma demo_price: "request_price (demo_text_env a) demo_meta demo_text demo_usage = 3000"
proof -
  have "f_to_int64 (math_ceil (fmul (fadd (f_of_int 100) (fmul (f_of_int 50) (f_of_int 2))) (f_of_int 15))) = 3000"
    by (simp add: float_eval)
  moreover have "\<not> feq (f_of_int 15) fzero"
    by (simp add: float_eval)
  ultimately have "used_quota initial_pricing ''gpt-4'' demo_usage (f_of_int 15) (f_of_int 1) (f_of_int 15) = 3000"
    using gpt4_prices by (simp add: used_quota_def token_sum_def demo_usage_def Let_def wrap64_id in_int64_def min_int64_def max_int64_def)
  then show ?thesis
    using demo_ratios by (simp add: request_price_def demo_text_env_def Let_def demo_product)
qed

lemma demo_mode: "rm_mode (mapped_meta demo_meta demo_text) = RelayModeChatCompletions" "tr_max_tokens demo_text = 0"
  by (simp_all add: mapped_meta_def demo_meta_def demo_text_def RelayModeChatCompletions_def)

lemma demo_estimate: "request_estimate (demo_text_env a) (text_world 0) demo_meta demo_text = 7650"
proof -
  have "f_to_int64 (fmul (f_of_int 510) (f_of_int 15)) = 7650"
    by (simp add: float_eval)
  moreover have "wrap64 510 = 510" by (simp add: wrap64_id in_int64_def min_int64_def max_int64_def)
  ultimately show ?thesis
    using demo_ratios gpt4_prices
    by (simp add: request_estimate_def estimate_quota_def getPreConsumedQuota_def demo_text_env_def Let_def demo_product
        getPromptTokens_def demo_mode text_world_def run_simps)
qed

lemma demo_reserved: "reserve_quota 7650 (mapped_meta demo_meta demo_text) (text_world 0) = (Inr 7650, text_world 7650)"
  by (simp add: reserve_quota_def CacheGetUserQuota_def CacheDecreaseUserQuota_def GetUserQuota_def PreConsumeTokenQuota_def
      GetTokenById_def GetUserById_def DecreaseTokenQuota_def DecreaseUserQuota_def decreaseTokenQuota0_def decreaseUserQuota0_def
      add_quota_def add_remain_def mapped_meta_def demo_meta_def text_world_def run_simps
      wrap64_id in_int64_def min_int64_def max_int64_def)

lemma demo_token: "rm_token_id demo_meta = 4"
  by (simp add: demo_meta_def)

lemma demo_run:
  obtains m r mapped mr gr where
    "RelayTextHelper (demo_text_env a) demo_meta (text_world 0) =
       (call_upstream (demo_text_env a) m r mapped (fmul mr gr) 7650 mr gr, text_world 7650)"
    "rm_token_id m = 4"
  by (rule request_run [where w = "text_world 0", OF demo_valid]) (auto simp: demo_estimate demo_reserved demo_token)

lemma text_world_facts:
  "\<not> cfg_batch_update (w_cfg (text_world 0))" "keys_ok (w_db (text_world 0))" "rm_token_id demo_meta = 4"
  "w_faults (text_world q) = []" "\<not> w_aborted (text_world q)"
  "token_of (w_db (text_world 0)) 4 = Some (blank_token\<lparr>t_id := 4, t_user_id := 7, t_remain_quota := 50000\<rparr>)"
  "quota_at (w_db (text_world 0)) 7 = Some 100000" "remain_at (w_db (text_world 0)) 4 = Some 50000"
  by (simp_all add: text_world_def demo_meta_def quota_at_def remain_at_def run_simps)

theorem text_request_charges_price_witness:
  "\<exists>out w1. RelayTextHelper (demo_text_env demo_adaptor) demo_meta (text_world 0) = (out, w1) \<and>
     fst (balances (w_db (run_all (to_spawned out) w1))) 7 = Some 97000 \<and>
     snd (balances (w_db (run_all (to_spawned out) w1))) 4 = Some 47000"
proof -
  obtain m r mapped mr gr where
    e: "RelayTextHelper (demo_text_env demo_adaptor) demo_meta (text_world 0) =
       (call_upstream (demo_text_env demo_adaptor) m r mapped (fmul mr gr) 7650 mr gr, text_world 7650)"
    by (rule demo_run)
  let ?out = "call_upstream (demo_text_env demo_adaptor) m r mapped (fmul mr gr) 7650 mr gr"
  have ok: "to_error ?out = None"
    by (simp add: call_upstream_def demo_text_env_def demo_adaptor_def answered_def Let_def)
  have ad: "te_adaptor (demo_text_env demo_adaptor) (rm_api_type demo_meta) = Some demo_adaptor" "ad_response demo_adaptor = Inr (Some demo_usage)"
    by (simp_all add: demo_text_env_def demo_adaptor_def)
  have "balances (w_db (run_all (to_spawned ?out) (text_world 7650))) =
    ((quota_at (w_db (text_world 0)))(7 := Some 97000), (remain_at (w_db (text_world 0)))(4 := Some 47000))"
    using text_request_charges_price [OF e ok demo_valid ad text_world_facts(1,2)] text_world_facts
    by (simp add: demo_price demo_estimate)
  then show ?thesis using e by simp
qed


theorem failed_call_keeps_reservation_witness:
  "\<exists>e w1. RelayTextHelper (demo_text_env (demo_adaptor\<lparr>ad_do := Inl (Msg ''no route'')\<rparr>)) demo_meta (text_world 0) =
       (\<lparr>to_error = Some e, to_spawned = []\<rparr>, w1) \<and>
     both_moved 7 4 (- 7650) (text_world 0) w1"
proof -
  let ?a = "demo_adaptor\<lparr>ad_do := Inl (Msg ''no route'')\<rparr>"
  have a: "te_adaptor (demo_text_env ?a) (rm_api_type demo_meta) = Some ?a"
    "ad_convert ?a = Some (Msg ''no route'') \<or> (ad_convert ?a = None \<and> ad_marshal ?a = None \<and> ad_do ?a = Inl (Msg ''no route''))"
    by (simp_all add: demo_text_env_def demo_adaptor_def)
  have r: "reserve_quota (request_estimate (demo_text_env ?a) (text_world 0) demo_meta demo_text) (mapped_meta demo_meta demo_text) (text_world 0) =
      (Inr 7650, text_world 7650)"
    by (simp add: demo_estimate demo_reserved)
  show ?thesis
    using failed_call_keeps_reservation [OF demo_valid a r _ text_world_facts(1,2)] text_world_facts by auto
qed

end
