(* ===== verification/FluxTasks.thy ===== *)
theory FluxTasks
  imports MediaTables VideoPrice JsonWrite TextBilling Distributor
begin

text \<open>
  Flux images (\<open>relay/channel/flux\<close>, \<open>controller/flux.go\<close>, \<open>controller/flux_reconciler.go\<close>): a request
  leaves a row that the answer, the webhooks of the two providers, a client's poll and the reconciler
  move towards \<open>success\<close> or \<open>failed\<close>, and the path that wins the conditional update charges the user.
  Answers of the providers are arguments, already decoded; \<open>fe_mirror\<close> is the copy of a result to R2,
  \<open>fe_ratios\<close> the ratios of a user per channel type, \<open>fe_base\<close> the column \<open>base_url\<close> of a channel.
\<close>

section \<open>Status texts\<close>

definition TaskStatusPending :: string where "TaskStatusPending = ''pending''"
definition TaskStatusSubmitted :: string where "TaskStatusSubmitted = ''submitted''"
definition TaskStatusProcessing :: string where "TaskStatusProcessing = ''processing''"
definition TaskStatusSucceed :: string where "TaskStatusSucceed = ''success''"
definition TaskStatusFailed :: string where "TaskStatusFailed = ''failed''"

lemmas task_status_defs = TaskStatusPending_def TaskStatusSubmitted_def TaskStatusProcessing_def TaskStatusSucceed_def
  TaskStatusFailed_def

definition IsUpstreamReady :: "string \<Rightarrow> bool" where
  "IsUpstreamReady status \<longleftrightarrow>
     (let s = to_lower (trim_space status) in s = ''ready'' \<or> s = ''success'' \<or> s = ''succeed'')"

definition IsUpstreamFailed :: "string \<Rightarrow> bool" where
  "IsUpstreamFailed status \<longleftrightarrow>
     (let s = to_lower (trim_space status)
      in s = ''error'' \<or> s = ''failed'' \<or> str_contains s ''moderated'' \<or> str_contains s ''not found'')"

section \<open>Messages of the providers\<close>

text \<open>A decoded notification; \<open>fn_text\<close> is its JSON with the given sample in place of the one received.\<close>

record flux_notification =
  fn_task_id :: string
  fn_task_id_alt :: string
  fn_status :: string
  fn_sample :: "string option"
  fn_error :: string
  fn_text :: "string option \<Rightarrow> string"

record replicate_response =
  rr_id :: string
  rr_status :: string
  rr_output :: string
  rr_error :: "string option"
  rr_output_mp :: f64
  rr_input_mp :: f64

record flux_poll =
  fp_status :: string
  fp_sample :: "string option"
  fp_text :: "string \<Rightarrow> string"

record flux_env =
  fe_pricing :: pricing
  fe_ratios :: "int \<Rightarrow> gerr + (int \<times> f64) list"
  fe_mirror :: "string \<Rightarrow> string \<Rightarrow> string"
  fe_base :: "int \<Rightarrow> string"
  fe_pick :: nat
  fe_bfl :: "string \<Rightarrow> string \<Rightarrow> string \<Rightarrow> flux_poll option"
  fe_replicate :: "string \<Rightarrow> string \<Rightarrow> string \<Rightarrow> replicate_response option"

definition isReplicate :: "string \<Rightarrow> bool" where
  "isReplicate base_url = str_contains base_url ''replicate.com''"

text \<open>A missing result is left alone, and so is an empty address.\<close>

definition MirrorResultURL :: "flux_env \<Rightarrow> string \<Rightarrow> string \<Rightarrow> string" where
  "MirrorResultURL env task url = (if url = [] then url else fe_mirror env task url)"

definition BuildReadyResultJSON :: "string \<Rightarrow> string \<Rightarrow> string" where
  "BuildReadyResultJSON task url =
     render (JObj [(''id'', JStr task), (''result'', JObj [(''sample'', JStr url)]), (''status'', JStr ''Ready'')])"

text \<open>The message of an error answer, from its text and status.\<close>

definition json_field :: "string \<Rightarrow> json \<Rightarrow> json option" where
  "json_field k v = (case v of JObj m \<Rightarrow> map_of (rev m) k | _ \<Rightarrow> None)"

definition string_field :: "string \<Rightarrow> json \<Rightarrow> string" where
  "string_field k v = (case json_field k v of Some (JStr s) \<Rightarrow> s | _ \<Rightarrow> [])"

definition detail_message :: "json \<Rightarrow> string" where
  "detail_message item =
     (let msg = string_field ''msg'' item;
          loc = (case json_field ''loc'' item of
                   Some (JArr ls) \<Rightarrow> join_with ''.'' [s. JStr s \<leftarrow> ls] | _ \<Rightarrow> [])
      in if msg \<noteq> [] \<and> loc \<noteq> [] then msg @ '' (loc: '' @ loc @ '')'' else msg)"

definition extractFluxErrorMessage :: "string \<Rightarrow> int \<Rightarrow> string" where
  "extractFluxErrorMessage body status =
     (let doc = (case json_parse body of Some (JObj m) \<Rightarrow> JObj m | _ \<Rightarrow> JObj []);
          validation = (case json_field ''detail'' doc of
                          Some (JArr (JObj m # _)) \<Rightarrow> detail_message (JObj m) | _ \<Rightarrow> [])
      in if validation \<noteq> [] then validation
         else if string_field ''detail'' doc \<noteq> [] then string_field ''detail'' doc
         else if string_field ''error'' doc \<noteq> [] then string_field ''error'' doc
         else if string_field ''message'' doc \<noteq> [] then string_field ''message'' doc
         else ''HTTP '' @ itoa status @ '': '' @ take 500 body)"

section \<open>The price ratio outside a request\<close>

text \<open>\<open>CacheGetUserGroup\<close> with its error beside the group: a failing write to Redis is reported together
  with the group that was read.\<close>

definition user_group_and_error :: "int \<Rightarrow> (string \<times> bool) op" where
  "user_group_and_error i =
     reading (\<lambda>w.
       let from_db = (\<lambda>k. on_result (GetUserGroup i) (\<lambda>r. case r of Inl _ \<Rightarrow> ret ([], True) | Inr g \<Rightarrow> k g))
       in if \<not> cfg_redis (w_cfg w) then from_db (\<lambda>g. ret (g, False))
          else on_result (RedisGet (group_key i)) (\<lambda>r.
            case r of
              Inr g \<Rightarrow> ret (g, False)
            | Inl _ \<Rightarrow> from_db (\<lambda>g. on_result (RedisSet (group_key i) g (cfg_sync_frequency (w_cfg w))) (\<lambda>s.
                case s of Inl _ \<Rightarrow> ret (g, True) | Inr _ \<Rightarrow> ret (g, False)))))"

definition GetAsyncBillingGroupRatio :: "flux_env \<Rightarrow> string \<Rightarrow> int \<Rightarrow> int \<Rightarrow> int \<Rightarrow> string \<Rightarrow> f64 op" where
  "GetAsyncBillingGroupRatio env grp uid cid ctype name =
     (let user = (if 0 < uid \<and> 0 < ctype then
                    (case fe_ratios env uid of
                       Inl _ \<Rightarrow> fone
                     | Inr rs \<Rightarrow> (case map_of rs ctype of Some r \<Rightarrow> positive_or_one r | None \<Rightarrow> fone))
                  else fone);
          whole = (\<lambda>channel. combined (GetGroupRatio (fe_pricing env) grp) channel user (GetModelDiscount (fe_pricing env) name))
      in if 0 < cid then on_result (GetChannelById cid False) (\<lambda>r. case r of
           Inl _ \<Rightarrow> ret (whole fone)
         | Inr c \<Rightarrow> ret (whole (case c_discount c of None \<Rightarrow> fone | Some x \<Rightarrow> positive_or_one x)))
         else ret (whole fone))"

definition ChannelTypeFlux :: int where "ChannelTypeFlux = 46"

text \<open>An empty group counts as \<open>Lv1\<close>.\<close>

definition image_ratio :: "flux_env \<Rightarrow> image \<Rightarrow> f64 op" where
  "image_ratio env im =
     on_ok (user_group_and_error (i_user_id im)) (\<lambda>g.
       GetAsyncBillingGroupRatio env (if fst g = [] then ''Lv1'' else fst g) (i_user_id im) (i_channel_id im)
         ChannelTypeFlux (i_model im))"

section \<open>Charging\<close>

definition ChargeOnSuccess :: "image \<Rightarrow> int \<Rightarrow> unit op" where
  "ChargeOnSuccess im quota =
     (if quota \<le> 0 then fail (Msg (''invalid quota: '' @ itoa quota))
      else on_result (DecreaseUserQuota (i_user_id im) quota) (\<lambda>r. case r of
        Inl e \<Rightarrow> fail (Msg (''billing deduction failed: '' @ error_text e))
      | Inr _ \<Rightarrow>
          then_do (ignore_err (UpdateUserUsedQuotaAndRequestCount (i_user_id im) quota))
         (then_do (ignore_err (UpdateChannelUsedQuota (i_channel_id im) quota))
         (ignore_err (RecordConsumeLogWithOtherAndRequestID (i_user_id im) (i_channel_id im) 0 0 (i_model im) [] quota [] 0)))))"

text \<open>What a handler answers: whether it worked, the status, the text.\<close>

type_synonym reply = "bool \<times> int \<times> string"

definition finish_image :: "image \<Rightarrow> reply op \<Rightarrow> reply op" where
  "finish_image im won =
     on_result (UpdateIfNotTerminal im) (\<lambda>r. case r of
       Inl _ \<Rightarrow> ret (False, 500, ''update failed'')
     | Inr applied \<Rightarrow> if applied then won else ret (True, 200, ''already processed''))"

definition charge_and_reply :: "image \<Rightarrow> reply op" where
  "charge_and_reply im = then_do (ignore_err (ChargeOnSuccess im (i_quota im))) (ret (True, 200, ''success''))"

section \<open>The webhook of BFL\<close>

primrec image_attempts :: "nat \<Rightarrow> string \<Rightarrow> image option op" where
  "image_attempts 0 task = ret None"
| "image_attempts (Suc n) task = on_result (GetImageByTaskId task) (\<lambda>r. case r of
     Inl _ \<Rightarrow> image_attempts n task
   | Inr im \<Rightarrow> if i_task_id im \<noteq> [] then ret (Some im) else image_attempts n task)"

definition getImageByTaskIdWithRetry :: "string \<Rightarrow> image option op" where
  "getImageByTaskIdWithRetry = image_attempts 3"

definition handleSuccessCallback :: "flux_env \<Rightarrow> image \<Rightarrow> flux_notification \<Rightarrow> string \<Rightarrow> reply op" where
  "handleSuccessCallback env im n task =
     (let sample = (case fn_sample n of Some s \<Rightarrow> Some (MirrorResultURL env task s) | None \<Rightarrow> None);
          im1 = im\<lparr>i_status := TaskStatusSucceed,
                   i_store_url := (case sample of Some s \<Rightarrow> if s \<noteq> [] then s else i_store_url im | None \<Rightarrow> i_store_url im),
                   i_result := fn_text n sample\<rparr>
      in if i_quota im \<le> 0 then on_ok (image_ratio env im) (\<lambda>ratio.
           let im2 = im1\<lparr>i_quota := flux_fixed_quota (i_model im) ratio\<rparr> in finish_image im2 (charge_and_reply im2))
         else finish_image im1 (charge_and_reply im1))"

definition first_text :: "string list \<Rightarrow> string" where
  "first_text ts = (case dropWhile (\<lambda>t. t = []) ts of [] \<Rightarrow> [] | t # _ \<Rightarrow> t)"

definition handleFailedCallback :: "image \<Rightarrow> flux_notification \<Rightarrow> reply op" where
  "handleFailedCallback im n =
     finish_image
       (im\<lparr>i_status := TaskStatusFailed,
           i_fail_reason := first_text [i_fail_reason im, fn_error n, fn_status n, ''Flux API task failed'']\<rparr>)
       (ret (True, 200, ''success''))"

definition processing_update :: "image \<Rightarrow> reply op" where
  "processing_update im =
     on_result (UpdateProcessingIfNotTerminal (im\<lparr>i_status := TaskStatusProcessing\<rparr>)) (\<lambda>r. case r of
       Inl _ \<Rightarrow> ret (False, 500, ''update failed'')
     | Inr applied \<Rightarrow> ret (True, 200, if applied then ''success'' else ''already processed''))"

definition handleProcessingCallback :: "image \<Rightarrow> reply op" where
  "handleProcessingCallback im = processing_update im"

text \<open>What a notification does with the row it found.\<close>

definition notify_image :: "flux_env \<Rightarrow> flux_notification \<Rightarrow> string \<Rightarrow> string \<Rightarrow> image \<Rightarrow> reply op" where
  "notify_image env n raw task im =
     (if i_status im = TaskStatusSucceed then ret (True, 200, ''already processed'')
      else if IsUpstreamReady (fn_status n) then handleSuccessCallback env im n task
      else if IsUpstreamFailed (fn_status n) then
        handleFailedCallback (if raw \<noteq> [] then im\<lparr>i_fail_reason := raw\<rparr> else im) n
      else handleProcessingCallback im)"

definition HandleCallback :: "flux_env \<Rightarrow> flux_notification \<Rightarrow> string \<Rightarrow> reply op" where
  "HandleCallback env n raw =
     (let task = (if fn_task_id n = [] then fn_task_id_alt n else fn_task_id n)
      in if task = [] then ret (False, 400, ''missing task_id'')
         else on_ok (getImageByTaskIdWithRetry task) (\<lambda>found. case found of
           None \<Rightarrow> ret (False, 404, ''task not found'')
         | Some im \<Rightarrow> notify_image env n raw task im))"

section \<open>The webhook of Replicate\<close>

definition replicate_reason :: "replicate_response \<Rightarrow> string" where
  "replicate_reason r =
     (case rr_error r of
        None \<Rightarrow> ''Replicate task '' @ rr_status r
      | Some e \<Rightarrow> if e = ''<nil>'' \<or> e = [] then ''Replicate task '' @ rr_status r else e)"

definition replicate_success :: "flux_env \<Rightarrow> replicate_response \<Rightarrow> image \<Rightarrow> reply op" where
  "replicate_success env r im =
     (if rr_output r = [] then
        on_result (UpdateIfNotTerminal (im\<lparr>i_status := TaskStatusFailed, i_fail_reason := ''Replicate returned empty image URL''\<rparr>))
          (\<lambda>u. case u of Inl _ \<Rightarrow> ret (False, 500, ''update failed'') | Inr _ \<Rightarrow> ret (True, 200, ''success''))
      else
        (let url = MirrorResultURL env (rr_id r) (rr_output r);
             im1 = im\<lparr>i_status := TaskStatusSucceed, i_store_url := url, i_result := BuildReadyResultJSON (rr_id r) url\<rparr>
         in if i_quota im \<le> 0 then on_ok (image_ratio env im) (\<lambda>ratio.
              let im2 = im1\<lparr>i_quota := CalculateReplicateQuota (i_model im) (rr_output_mp r) (rr_input_mp r) ratio\<rparr>
              in finish_image im2 (charge_and_reply im2))
            else finish_image im1 (charge_and_reply im1)))"

definition replicate_image :: "flux_env \<Rightarrow> replicate_response \<Rightarrow> image \<Rightarrow> reply op" where
  "replicate_image env r im =
     (if final_image im then ret (True, 200, ''already processed'')
      else if rr_status r = ''succeeded'' then replicate_success env r im
      else if rr_status r = ''failed'' \<or> rr_status r = ''canceled'' then
        finish_image (im\<lparr>i_status := TaskStatusFailed, i_fail_reason := replicate_reason r\<rparr>) (ret (True, 200, ''success''))
      else processing_update im)"

definition HandleReplicateCallback :: "flux_env \<Rightarrow> replicate_response \<Rightarrow> reply op" where
  "HandleReplicateCallback env r =
     on_ok (getImageByTaskIdWithRetry (rr_id r)) (\<lambda>found. case found of
       None \<Rightarrow> ret (False, 404, ''task not found'')
     | Some im \<Rightarrow> replicate_image env r im)"

section \<open>The reconciler\<close>

definition applyFluxBFLSuccess :: "flux_env \<Rightarrow> image \<Rightarrow> flux_poll \<Rightarrow> string \<Rightarrow> unit op" where
  "applyFluxBFLSuccess env im p sample =
     (let url = MirrorResultURL env (i_task_id im) sample
      in ignore_err (UpdateIfNotTerminal (im\<lparr>i_status := TaskStatusSucceed, i_store_url := url, i_result := fp_text p url\<rparr>)))"

definition reconcileBFLImage :: "flux_env \<Rightarrow> image \<Rightarrow> flux_poll option \<Rightarrow> unit op" where
  "reconcileBFLImage env im answer =
     (case answer of
        None \<Rightarrow> ret ()
      | Some p \<Rightarrow>
          if \<not> IsUpstreamReady (fp_status p) then ret ()
          else (case fp_sample p of
              None \<Rightarrow> ret ()
            | Some sample \<Rightarrow> if sample = [] then ret () else applyFluxBFLSuccess env im p sample))"

definition applyFluxReplicateSuccess :: "flux_env \<Rightarrow> image \<Rightarrow> replicate_response \<Rightarrow> unit op" where
  "applyFluxReplicateSuccess env im r =
     (let url = MirrorResultURL env (i_task_id im) (rr_output r)
      in ignore_err (UpdateIfNotTerminal
           (im\<lparr>i_status := TaskStatusSucceed, i_store_url := url, i_result := BuildReadyResultJSON (rr_id r) url\<rparr>)))"

definition applyFluxReplicateFailed :: "image \<Rightarrow> replicate_response \<Rightarrow> unit op" where
  "applyFluxReplicateFailed im r =
     ignore_err (UpdateIfNotTerminal (im\<lparr>i_status := TaskStatusFailed, i_fail_reason := replicate_reason r\<rparr>))"

definition reconcileReplicateImage :: "flux_env \<Rightarrow> image \<Rightarrow> replicate_response option \<Rightarrow> unit op" where
  "reconcileReplicateImage env im answer =
     (case answer of
        None \<Rightarrow> ret ()
      | Some r \<Rightarrow>
          if rr_status r = ''succeeded'' then
            if rr_output r = [] then ret () else applyFluxReplicateSuccess env im r
          else if rr_status r = ''failed'' \<or> rr_status r = ''canceled'' then applyFluxReplicateFailed im r
          else ret ())"

definition reconcileFluxImage :: "flux_env \<Rightarrow> image \<Rightarrow> unit op" where
  "reconcileFluxImage env im =
     (if i_task_id im = [] then ret ()
      else on_result (GetChannelById (i_channel_id im) True) (\<lambda>r. case r of
        Inl _ \<Rightarrow> ret ()
      | Inr c \<Rightarrow>
          let base = fe_base env (i_channel_id im)
          in if base = [] then ret ()
             else on_ok (ResolveKeyByIndex (fe_pick env) c (i_key_index im)) (\<lambda>key.
               if isReplicate base then reconcileReplicateImage env im (fe_replicate env base key (i_task_id im))
               else reconcileBFLImage env im (fe_bfl env base key (i_task_id im)))))"

primrec reconcile_all :: "flux_env \<Rightarrow> image list \<Rightarrow> unit op" where
  "reconcile_all env [] = ret ()"
| "reconcile_all env (im # ims) = then_do (reconcileFluxImage env im) (reconcile_all env ims)"

definition fluxReconcileExpireSecs :: int where "fluxReconcileExpireSecs = 15 * 60"
definition fluxReconcileBatch :: nat where "fluxReconcileBatch = 50"

definition runFluxReconcile :: "flux_env \<Rightarrow> unit op" where
  "runFluxReconcile env =
     reading (\<lambda>w.
       let statuses = [TaskStatusProcessing, TaskStatusSubmitted]; before = w_now w - fluxReconcileExpireSecs
       in then_do (ignore_err (ExpireStuckFluxImages statuses before ''task timed out''))
         (on_result (GetStuckFluxImages statuses (w_now w) before fluxReconcileBatch) (\<lambda>r. case r of
            Inl _ \<Rightarrow> ret () | Inr ims \<Rightarrow> reconcile_all env ims)))"

section \<open>The request\<close>

record flux_meta =
  fm_user_id :: int
  fm_channel_id :: int
  fm_token_name :: string
  fm_model :: string
  fm_base_url :: string
  fm_request_id :: string
  fm_key_index :: int

text \<open>The answer of BFL to a new task, and what came back from a provider: the status, the body or the error
  of reading it, the body decoded for either provider, and the body the client is sent.\<close>

record bfl_created =
  bc_id :: string
  bc_cost :: f64
  bc_output_mp :: f64
  bc_input_mp :: f64
  bc_error :: string

record flux_answer =
  fa_status :: int
  fa_body :: "gerr + string"
  fa_bfl :: "gerr + bfl_created"
  fa_replicate :: "gerr + replicate_response"
  fa_client_body :: string

record flux_request =
  fr_body :: "gerr + string"
  fr_converted :: "gerr + string"
  fr_answer :: "gerr + flux_answer"
  fr_dollars :: "f64 \<Rightarrow> string"

definition flux_error :: "string \<Rightarrow> int \<Rightarrow> relay_error" where
  "flux_error msg status = \<lparr>re_message = msg, re_type = [], re_code = None, re_status = status\<rparr>"

definition ValidateRequest :: "flux_meta \<Rightarrow> string option" where
  "ValidateRequest m =
     (if isReplicate (fm_base_url m) \<and> map_of ReplicateModelMap (fm_model m) = None
      then Some (''model '' @ fm_model m @ '' is not supported on the Replicate channel'') else None)"

definition CreatePendingRecord :: "flux_meta \<Rightarrow> image op" where
  "CreatePendingRecord m =
     reading (\<lambda>w. on_result (Image_Insert
       \<lparr>i_id = 0, i_task_id = [], i_username = fm_token_name m, i_channel_id = fm_channel_id m, i_key_index = fm_key_index m,
        i_user_id = fm_user_id m, i_model = fm_model m, i_status = TaskStatusPending, i_fail_reason = [], i_image_id = [],
        i_store_url = [], i_provider = ''flux'', i_request_id = fm_request_id m, i_created_at = w_now w,
        i_updated_at = w_now w, i_mode = [], i_n = 0, i_quota = 0, i_detail = [], i_total_duration = 0, i_result = []\<rparr>)
       (\<lambda>r. case r of Inl e \<Rightarrow> fail (Msg (''failed to create database record: '' @ error_text e)) | Inr im \<Rightarrow> ret im))"

definition MarkFailed :: "image \<Rightarrow> string \<Rightarrow> unit op" where
  "MarkFailed im reason =
     reading (\<lambda>w. ignore_err (Image_Update
       (im\<lparr>i_status := TaskStatusFailed, i_fail_reason := reason, i_total_duration := w_now w - i_created_at im\<rparr>)))"

definition refuse :: "image \<Rightarrow> string \<Rightarrow> string \<Rightarrow> int \<Rightarrow> relay_error option op" where
  "refuse im reason msg status = then_do (MarkFailed im reason) (ret (Some (flux_error msg status)))"

text \<open>The reserve of BFL: the cost it reports, else by megapixels, else the fixed price.\<close>

definition bfl_quota :: "image \<Rightarrow> bfl_created \<Rightarrow> f64 \<Rightarrow> int" where
  "bfl_quota im b ratio =
     (let q1 = CalculateQuota (bc_cost b) ratio;
          q2 = (if q1 \<le> 0 \<and> flt fzero (bc_output_mp b)
                then usdToQuota (ComputeCostUSD (i_model im) (bc_output_mp b) (bc_input_mp b)) ratio else q1)
      in if q2 \<le> 0 then flux_fixed_quota (i_model im) ratio else q2)"

definition bflSubmitted :: "flux_env \<Rightarrow> image \<Rightarrow> bfl_created \<Rightarrow> string \<Rightarrow> relay_error option op" where
  "bflSubmitted env im b client_body =
     reading (\<lambda>w. on_ok (image_ratio env im) (\<lambda>ratio.
       then_do (ignore_err (Image_Update
         (im\<lparr>i_task_id := bc_id b, i_status := TaskStatusSubmitted, i_total_duration := w_now w - i_created_at im,
             i_detail := client_body, i_result := client_body, i_quota := bfl_quota im b ratio\<rparr>)))
       (ret None)))"

definition handleReplicateSuccess :: "flux_env \<Rightarrow> image \<Rightarrow> replicate_response \<Rightarrow> string \<Rightarrow> relay_error option op" where
  "handleReplicateSuccess env im r raw =
     (if rr_output r = [] then refuse im ''Replicate returned empty image URL'' ''Replicate returned empty image URL'' 500
      else reading (\<lambda>w.
        let url = MirrorResultURL env (rr_id r) (rr_output r)
        in on_ok (user_group_and_error (i_user_id im)) (\<lambda>g.
           on_ok (GetAsyncBillingGroupRatio env (if snd g then ''Lv1'' else fst g) (i_user_id im) (i_channel_id im)
              ChannelTypeFlux (i_model im)) (\<lambda>ratio.
           let im1 = im\<lparr>i_task_id := rr_id r, i_status := TaskStatusSucceed, i_total_duration := w_now w - i_created_at im,
                 i_store_url := url, i_result := BuildReadyResultJSON (rr_id r) url, i_detail := raw,
                 i_quota := CalculateReplicateQuota (i_model im) (rr_output_mp r) (rr_input_mp r) ratio\<rparr>
           in then_do (ignore_err (finish_image im1 (charge_and_reply im1))) (ret None)))))"

definition handleReplicatePending :: "flux_env \<Rightarrow> image \<Rightarrow> replicate_response \<Rightarrow> string \<Rightarrow> relay_error option op" where
  "handleReplicatePending env im r raw =
     reading (\<lambda>w. on_ok (user_group_and_error (i_user_id im)) (\<lambda>g.
       on_ok (GetAsyncBillingGroupRatio env (if snd g \<or> fst g = [] then ''Lv1'' else fst g) (i_user_id im) (i_channel_id im)
          ChannelTypeFlux (i_model im)) (\<lambda>ratio.
       then_do (ignore_err (Image_Update
         (im\<lparr>i_task_id := rr_id r, i_status := TaskStatusSubmitted, i_total_duration := w_now w - i_created_at im,
             i_detail := raw, i_quota := CalculateReplicateQuota (i_model im) (rr_output_mp r) (rr_input_mp r) ratio\<rparr>)))
       (ret None))))"

definition replicate_created :: "flux_env \<Rightarrow> image \<Rightarrow> replicate_response \<Rightarrow> string \<Rightarrow> relay_error option op" where
  "replicate_created env im r raw =
     (case rr_error r of
        Some e \<Rightarrow> refuse (if rr_id r \<noteq> [] then im\<lparr>i_task_id := rr_id r\<rparr> else im) e e 400
      | None \<Rightarrow> if rr_status r = ''succeeded'' then handleReplicateSuccess env im r raw
                else handleReplicatePending env im r raw)"

text \<open>\<open>DoResponse\<close>: Replicate also answers 201.\<close>

definition DoResponse :: "flux_env \<Rightarrow> flux_meta \<Rightarrow> image \<Rightarrow> flux_answer \<Rightarrow> relay_error option op" where
  "DoResponse env m im a =
     (let good = (if isReplicate (fm_base_url m) then {200, 201, 202} else {200, 202})
      in case fa_body a of
           Inl e \<Rightarrow> refuse im (''failed to read response: '' @ error_text e) (''failed to read response: '' @ error_text e) 500
         | Inr body \<Rightarrow>
             if fa_status a \<notin> good then
               (let msg = extractFluxErrorMessage body (fa_status a)
                in refuse im (''HTTP '' @ itoa (fa_status a) @ '': '' @ msg) msg (fa_status a))
             else if isReplicate (fm_base_url m) then
               (case fa_replicate a of
                  Inl e \<Rightarrow> refuse im (''failed to parse response: '' @ error_text e) (''failed to parse response: '' @ error_text e) 500
                | Inr r \<Rightarrow> replicate_created env im r body)
             else
               (case fa_bfl a of
                  Inl e \<Rightarrow> refuse im (''failed to parse response: '' @ error_text e) (''failed to parse response: '' @ error_text e) 500
                | Inr b \<Rightarrow> if bc_error b \<noteq> [] then refuse im (bc_error b) (bc_error b) 400
                          else bflSubmitted env im b (fa_client_body a)))"

definition minBalanceQuota :: int where "minBalanceQuota = 50000"

definition relayFluxHelper :: "flux_env \<Rightarrow> flux_meta \<Rightarrow> flux_request \<Rightarrow> relay_error option op" where
  "relayFluxHelper env m q =
     (case fr_body q of
        Inl e \<Rightarrow> ret (Some (flux_error (''failed to read request body: '' @ error_text e) 400))
      | Inr _ \<Rightarrow> on_result (CreatePendingRecord m) (\<lambda>c. case c of
          Inl e \<Rightarrow> ret (Some (flux_error (''create pending record failed: '' @ error_text e) 500))
        | Inr im \<Rightarrow>
          (case ValidateRequest m of
             Some msg \<Rightarrow> refuse im msg msg 400
           | None \<Rightarrow>
           (case fr_converted q of
              Inl e \<Rightarrow> refuse im (''convert request failed: '' @ error_text e) (''convert request failed: '' @ error_text e) 400
            | Inr _ \<Rightarrow> on_result (CacheGetUserQuota (i_user_id im)) (\<lambda>b. case b of
                Inl e \<Rightarrow> refuse im ''balance query failed'' (''balance query failed: '' @ error_text e) 500
              | Inr quota \<Rightarrow>
                  if quota < minBalanceQuota then
                    (let msg = ''Insufficient balance ($'' @ fr_dollars q (fdiv (f_of_int quota) (f_of_int 500000)) @
                               ''). Please top up and try again (minimum required: $0.10).''
                     in refuse im msg msg 402)
                  else (case fr_answer q of
                      Inl e \<Rightarrow> refuse im (''request failed: '' @ error_text e) (''request failed: '' @ error_text e) 500
                    | Inr a \<Rightarrow> DoResponse env m im a))))))"

section \<open>The handlers in front\<close>

definition HandleFluxCallback ::
    "flux_env \<Rightarrow> string \<Rightarrow> string \<Rightarrow> gerr + string \<Rightarrow> (string \<Rightarrow> flux_notification option) \<Rightarrow> reply op" where
  "HandleFluxCallback env secret key body parse =
     (if secret \<noteq> [] \<and> key \<noteq> secret then ret (False, 401, ''invalid signature'')
      else case body of
        Inl _ \<Rightarrow> ret (False, 400, ''invalid request'')
      | Inr raw \<Rightarrow> (case parse raw of
          None \<Rightarrow> ret (False, 400, ''invalid payload'') | Some n \<Rightarrow> HandleCallback env n raw))"

text \<open>The signature check of Replicate, with base64 decoding and the base64 text of the HMAC as arguments. A
  signature \<open>v1,...\<close> of several separated by spaces is enough.\<close>

definition VerifyReplicateWebhook ::
    "(string \<Rightarrow> string option) \<Rightarrow> (string \<Rightarrow> string \<Rightarrow> string) \<Rightarrow> string \<Rightarrow> string \<Rightarrow> string \<Rightarrow> string \<Rightarrow> string \<Rightarrow> bool" where
  "VerifyReplicateWebhook decode mac signing_key hook_id stamp signature body \<longleftrightarrow>
     (if signing_key = [] then True
      else case decode (if has_prefix signing_key ''whsec_'' then drop 6 signing_key else signing_key) of
          None \<Rightarrow> False
        | Some key \<Rightarrow>
            (let computed = mac key (hook_id @ ''.'' @ stamp @ ''.'' @ body)
             in list_ex (\<lambda>s. has_prefix s ''v1,'' \<and> drop 3 s = computed) [s \<leftarrow> split_on (CHR '' '') (map (\<lambda>c. if is_space c then CHR '' '' else c) signature). s \<noteq> []]))"

definition HandleReplicateWebhook ::
    "flux_env \<Rightarrow> gerr + string \<Rightarrow> (string \<Rightarrow> bool) \<Rightarrow> (string \<Rightarrow> replicate_response option) \<Rightarrow> reply op" where
  "HandleReplicateWebhook env body verified parse =
     (case body of
        Inl _ \<Rightarrow> ret (False, 400, ''invalid request'')
      | Inr raw \<Rightarrow>
          if \<not> verified raw then ret (False, 401, ''invalid signature'')
          else (case parse raw of
              None \<Rightarrow> ret (False, 400, ''invalid payload'') | Some r \<Rightarrow> HandleReplicateCallback env r))"

text \<open>What a client's query at the provider does with the row: a final answer is handled like a webhook.\<close>

definition queryBFL :: "flux_env \<Rightarrow> string \<Rightarrow> flux_poll option \<Rightarrow> flux_notification \<Rightarrow> string \<Rightarrow> unit op" where
  "queryBFL env task answer n body =
     (case answer of
        None \<Rightarrow> ret ()
      | Some p \<Rightarrow>
          if IsUpstreamReady (fp_status p) \<or> IsUpstreamFailed (fp_status p) then
            on_result (GetImageByTaskId task) (\<lambda>r. case r of
              Inl _ \<Rightarrow> ret ()
            | Inr im \<Rightarrow> if final_image im then ret ()
                else ignore_err (HandleCallback env
                  (n\<lparr>fn_task_id := task, fn_status := (if IsUpstreamReady (fp_status p) then ''Ready'' else ''Error'')\<rparr>) body))
          else ret ())"

definition queryReplicateResult :: "flux_env \<Rightarrow> string \<Rightarrow> replicate_response option \<Rightarrow> unit op" where
  "queryReplicateResult env task answer =
     (case answer of
        None \<Rightarrow> ret ()
      | Some r \<Rightarrow>
          if rr_status r \<in> {''succeeded'', ''failed'', ''canceled''} then
            on_result (GetImageByTaskId task) (\<lambda>x. case x of
              Inl _ \<Rightarrow> ret ()
            | Inr im \<Rightarrow> if final_image im then ret () else ignore_err (HandleReplicateCallback env r))
          else ret ())"

section \<open>One charge at most\<close>

definition image_of :: "db \<Rightarrow> int \<Rightarrow> image option" where
  "image_of d k = List.find (\<lambda>im. i_id im = k) (d_images d)"

definition images_ok :: "db \<Rightarrow> bool" where
  "images_ok d \<longleftrightarrow> distinct (map i_id (d_images d)) \<and> 0 \<notin> set (map i_id (d_images d))"

text \<open>Rows keep their identifier and user, and a final row does not change.\<close>

definition rows_kept :: "db \<Rightarrow> db \<Rightarrow> bool" where
  "rows_kept d d' \<longleftrightarrow> map i_id (d_images d') = map i_id (d_images d) \<and>
     (\<forall>k. case image_of d k of
            None \<Rightarrow> image_of d' k = None
          | Some a \<Rightarrow> (\<exists>b. image_of d' k = Some b \<and> i_user_id b = i_user_id a \<and> (final_image a \<longrightarrow> b = a)))"

definition still :: "world \<Rightarrow> world \<Rightarrow> bool" where
  "still w w' \<longleftrightarrow> w_cfg w' = w_cfg w \<and> rows_kept (w_db w) (w_db w') \<and> quota_at (w_db w') = quota_at (w_db w)"

definition charged :: "image \<Rightarrow> world \<Rightarrow> world \<Rightarrow> bool" where
  "charged im w w' \<longleftrightarrow> w_cfg w' = w_cfg w \<and> rows_kept (w_db w) (w_db w') \<and> 0 < i_quota im \<and>
     (\<exists>a b. image_of (w_db w) (i_id im) = Some a \<and> \<not> final_image a \<and> image_of (w_db w') (i_id im) = Some b \<and>
        i_status b = TaskStatusSucceed \<and> i_user_id b = i_user_id im \<and> i_quota b = i_quota im) \<and>
     quota_at (w_db w') = (\<lambda>uid. if uid = i_user_id im
        then map_option (\<lambda>x. x - i_quota im) (quota_at (w_db w) uid) else quota_at (w_db w) uid)"

definition pays :: "int \<Rightarrow> world \<Rightarrow> world \<Rightarrow> bool" where
  "pays k w w' \<longleftrightarrow> still w w' \<or> (\<exists>im. i_id im = k \<and> charged im w w')"

text \<open>A copy of a row, however old: its identifier and its user are those of the row.\<close>

definition copy_of_row :: "db \<Rightarrow> image \<Rightarrow> bool" where
  "copy_of_row d im \<longleftrightarrow> (\<exists>a. image_of d (i_id im) = Some a \<and> i_user_id a = i_user_id im)"

lemma rows_kept_refl [simp]: "rows_kept d d"
  by (auto simp: rows_kept_def split: option.splits)

lemma rows_kept_trans: "rows_kept a b \<Longrightarrow> rows_kept b c \<Longrightarrow> rows_kept a c"
  unfolding rows_kept_def by (simp split: option.splits) (metis option.inject option.distinct(1))

lemma rows_keptD:
  assumes "rows_kept d d'"
  shows "image_of d k = None \<Longrightarrow> image_of d' k = None"
    and "image_of d k = Some a \<Longrightarrow> \<exists>b. image_of d' k = Some b \<and> i_user_id b = i_user_id a \<and> (final_image a \<longrightarrow> b = a)"
  using assms unfolding rows_kept_def by (auto split: option.splits dest: spec [of _ k])

lemma still_refl [simp]: "still w w"
  by (simp add: still_def)

lemma still_trans: "still a b \<Longrightarrow> still b c \<Longrightarrow> still a c"
  unfolding still_def using rows_kept_trans by auto

lemma still_pays: "still a b \<Longrightarrow> pays k b c \<Longrightarrow> pays k a c"
proof -
  assume s: "still a b" and p: "pays k b c"
  have h: "charged im a c" if c: "charged im b c" for im
  proof -
    obtain x y where xy: "image_of (w_db b) (i_id im) = Some x" "\<not> final_image x" "image_of (w_db c) (i_id im) = Some y"
      "i_status y = TaskStatusSucceed" "i_user_id y = i_user_id im" "i_quota y = i_quota im"
      using c by (auto simp: charged_def)
    obtain z where "image_of (w_db a) (i_id im) = Some z" "\<not> final_image z"
    proof (cases "image_of (w_db a) (i_id im)")
      case None
      then show ?thesis using s xy(1) rows_keptD(1) unfolding still_def by fastforce
    next
      case (Some z)
      then show ?thesis using s xy(1,2) rows_keptD(2) [of "w_db a" "w_db b" "i_id im" z] that by (auto simp: still_def)
    qed
    then show ?thesis using s c xy rows_kept_trans [of "w_db a" "w_db b" "w_db c"] by (auto simp: charged_def still_def)
  qed
  show "pays k a c" unfolding pays_def using s p [unfolded pays_def] h still_trans by metis
qed

lemma copy_kept: "rows_kept d d' \<Longrightarrow> copy_of_row d im \<Longrightarrow> copy_of_row d' im"
  unfolding copy_of_row_def using rows_keptD(2) by fastforce

lemma ok_kept: "rows_kept d d' \<Longrightarrow> images_ok d' = images_ok d"
  by (simp add: rows_kept_def images_ok_def)

lemma copy_id: "images_ok d \<Longrightarrow> copy_of_row d im \<Longrightarrow> i_id im \<noteq> 0"
  using find_SomeD [of "\<lambda>r. i_id r = i_id im" "d_images d"] by (force simp: images_ok_def copy_of_row_def image_of_def)

text \<open>An operation that leaves the database alone, and one that leaves images and balances alone.\<close>

lemma still_keeps:
  assumes "keeps (\<lambda>d. d) f" "keeps_cfg f" "f w = (r, w')"
  shows "still w w'" "w_db w' = w_db w"
  using keepsD [OF assms(1,3)] keeps_cfgD [OF assms(2,3)] by (simp_all add: still_def)

text \<open>The conditional update: it changes one row, and reports success only where the row was not final.\<close>

lemma update_images_still:
  assumes "update_images p u w = (r, w')"
    and "\<And>x. i_id (u x) = i_id x" "\<And>x. i_user_id (u x) = i_user_id x" "\<And>x. p x \<Longrightarrow> \<not> final_image x"
  shows "still w w'"
proof -
  have c: "w_cfg w' = w_cfg w" using cfg_update keeps_cfgD assms(1) by blast
  show ?thesis
  proof (cases r)
    case (Inl e)
    then have "w_db w' = w_db w" using update_where_touched(2) [OF assms(1)] by simp
    with c show ?thesis by (simp add: still_def)
  next
    case (Inr n)
    then have d: "w_db w' = d_images_update (update_rows p u) (w_db w)" using update_where_touched(3) [OF assms(1)] by simp
    have f: "image_of (w_db w') k = map_option (\<lambda>x. if p x then u x else x) (image_of (w_db w) k)" for k
      using assms(2) by (simp add: d image_of_def find_update_rows)
    have "map i_id (d_images (w_db w')) = map i_id (d_images (w_db w))"
      using assms(2) by (simp add: d)
    then have "rows_kept (w_db w) (w_db w')"
      unfolding rows_kept_def f using assms(3,4) by (auto split: option.splits)
    with c d show ?thesis by (simp add: still_def quota_at_def user_of_def fun_eq_iff)
  qed
qed

lemma terminal_update_still:
  assumes "UpdateIfNotTerminal im w = (r, w')"
  shows "still w w'"
proof -
  obtain r1 where "update_images (\<lambda>r. (i_id im = 0 \<or> i_id r = i_id im) \<and> \<not> final_image r)
      (\<lambda>r. r\<lparr>i_task_id := i_task_id im, i_status := i_status im, i_store_url := i_store_url im, i_result := i_result im,
         i_detail := i_detail im, i_quota := i_quota im, i_fail_reason := i_fail_reason im, i_updated_at := w_now w\<rparr>) w = (r1, w')"
    using assms by (auto simp: UpdateIfNotTerminal_def go_simps split: prod.splits sum.splits)
  then show ?thesis by (rule update_images_still) simp_all
qed

lemma processing_update_still:
  assumes "UpdateProcessingIfNotTerminal im w = (r, w')"
  shows "still w w'"
proof -
  obtain r1 where "update_images (\<lambda>r. (i_id im = 0 \<or> i_id r = i_id im) \<and> \<not> final_image r)
      (\<lambda>r. r\<lparr>i_status := i_status im, i_updated_at := w_now w\<rparr>) w = (r1, w')"
    using assms by (auto simp: UpdateProcessingIfNotTerminal_def go_simps split: prod.splits sum.splits)
  then show ?thesis by (rule update_images_still) simp_all
qed

lemma terminal_update_won:
  assumes "UpdateIfNotTerminal im w = (Inr True, w')" "images_ok (w_db w)" "copy_of_row (w_db w) im"
  obtains a b where "image_of (w_db w) (i_id im) = Some a" "\<not> final_image a" "image_of (w_db w') (i_id im) = Some b"
    "i_status b = i_status im" "i_user_id b = i_user_id im" "i_quota b = i_quota im"
proof -
  define u :: "image \<Rightarrow> image" where "u = (\<lambda>r. r\<lparr>i_task_id := i_task_id im, i_status := i_status im, i_store_url := i_store_url im,
    i_result := i_result im, i_detail := i_detail im, i_quota := i_quota im, i_fail_reason := i_fail_reason im,
    i_updated_at := w_now w\<rparr>)"
  have z: "i_id im \<noteq> 0" using copy_id assms(2,3) .
  obtain n where n: "update_images (\<lambda>r. i_id r = i_id im \<and> \<not> final_image r) u w = (Inr n, w')" "0 < n"
    using assms(1) z by (auto simp: UpdateIfNotTerminal_def go_simps u_def split: prod.splits sum.splits)
  obtain fs where aff: "n = affected (w_dialect w) (\<lambda>r. i_id r = i_id im \<and> \<not> final_image r) u (d_images (w_db w))"
    and w': "w' = w\<lparr>w_faults := fs, w_db := d_images_update (update_rows (\<lambda>r. i_id r = i_id im \<and> \<not> final_image r) u) (w_db w)\<rparr>"
    using n(1) by (rule update_where_Inr)
  have dk: "distinct (map i_id (d_images (w_db w)))" using assms(2) by (simp add: images_ok_def)
  obtain a where a: "image_of (w_db w) (i_id im) = Some a" "i_user_id a = i_user_id im"
    using assms(3) by (auto simp: copy_of_row_def)
  have na: "\<not> final_image a"
    using n(2) a(1) aff affected_find [OF dk, of "w_dialect w" "i_id im" "\<lambda>r. \<not> final_image r" u]
    by (auto simp: image_of_def split: if_splits)
  have id: "i_id a = i_id im" using find_SomeD a(1) unfolding image_of_def by fastforce
  have "image_of (w_db w') (i_id im) = Some (u a)"
    using a(1) na id by (simp add: w' image_of_def find_update_rows u_def)
  with a na show thesis by (intro that [of a "u a"]) (simp_all add: u_def)
qed

text \<open>The charge itself moves one balance and leaves the images alone.\<close>

lemma keeps_images_users: "keeps d_images (update_users p f)" "keeps d_images (update_channels q g)"
  by (rule keeps_update; simp)+

lemma keeps_images_statistics:
  "keeps d_images (RecordConsumeLogWithOtherAndRequestID i ch p c n t q other k)"
  "keeps d_images (UpdateUserUsedQuotaAndRequestCount i q)" "keeps d_images (UpdateChannelUsedQuota i q)"
  unfolding RecordConsumeLogWithOtherAndRequestID_def UpdateUserUsedQuotaAndRequestCount_def
    updateUserUsedQuotaAndRequestCount0_def UpdateChannelUsedQuota_def updateChannelUsedQuota_def
  by (intro keeps_intros keeps_images_users)+

lemma decrease_moves:
  assumes "DecreaseUserQuota uid q w = (r, w')" "0 < q" "\<not> cfg_batch_update (w_cfg w)"
  shows "d_images (w_db w') = d_images (w_db w)"
    and "quota_at (w_db w') = (if r = Inr () then (\<lambda>i. if i = uid then map_option (\<lambda>x. x - q) (quota_at (w_db w) i)
           else quota_at (w_db w) i) else quota_at (w_db w))"
proof -
  obtain r1 where u: "update_users (\<lambda>u. u_id u = uid) (add_quota (- q)) w = (r1, w')"
    and r: "r = (case r1 of Inl e \<Rightarrow> Inl e | Inr _ \<Rightarrow> Inr ())"
    using assms by (auto simp: DecreaseUserQuota_def decreaseUserQuota0_def stmt_def go_simps split: prod.splits sum.splits)
  show "d_images (w_db w') = d_images (w_db w)" using keepsD [OF keeps_images_users(1) u] .
  have k: "u_id (add_quota x v) = u_id v" for x v by (simp add: add_quota_def)
  show "quota_at (w_db w') = (if r = Inr () then (\<lambda>i. if i = uid then map_option (\<lambda>x. x - q) (quota_at (w_db w) i)
           else quota_at (w_db w) i) else quota_at (w_db w))"
  proof (cases r1)
    case (Inl e)
    then show ?thesis using update_where_touched(2) [OF u] r by simp
  next
    case (Inr n)
    then have d: "w_db w' = d_users_update (update_rows (\<lambda>u. u_id u = uid) (add_quota (- q))) (w_db w)"
      using update_where_touched(3) [OF u] by simp
    have "user_of (w_db w') i = map_option (\<lambda>u. if u_id u = uid then add_quota (- q) u else u) (user_of (w_db w) i)" for i
      by (simp add: d user_of_def find_update_rows k)
    moreover have "u_id u = i" if "user_of (w_db w) i = Some u" for i u
      using that find_SomeD unfolding user_of_def by fastforce
    ultimately show ?thesis using r Inr
      by (auto simp: quota_at_def fun_eq_iff add_quota_def split: option.splits intro!: ext
          simp del: option.map_comp) (auto simp: option.map_comp o_def map_option_case split: option.splits)
  qed
qed

lemma charge_moves:
  assumes "ChargeOnSuccess im q w = (r, w')" "\<not> cfg_batch_update (w_cfg w)"
  shows "d_images (w_db w') = d_images (w_db w)"
    and "quota_at (w_db w') = quota_at (w_db w) \<or> 0 < q \<and>
      quota_at (w_db w') = (\<lambda>i. if i = i_user_id im then map_option (\<lambda>x. x - q) (quota_at (w_db w) i) else quota_at (w_db w) i)"
proof -
  let ?after = "then_do (ignore_err (UpdateUserUsedQuotaAndRequestCount (i_user_id im) q))
    (then_do (ignore_err (UpdateChannelUsedQuota (i_channel_id im) q))
      (ignore_err (RecordConsumeLogWithOtherAndRequestID (i_user_id im) (i_channel_id im) 0 0 (i_model im) [] q [] 0)))"
  have ki: "keeps d_images ?after" by (intro keeps_intros keeps_images_statistics)
  have kb: "keeps balances ?after" by (intro keeps_intros keeps_statistics)
  have "d_images (w_db w') = d_images (w_db w) \<and> (quota_at (w_db w') = quota_at (w_db w) \<or> 0 < q \<and>
      quota_at (w_db w') = (\<lambda>i. if i = i_user_id im then map_option (\<lambda>x. x - q) (quota_at (w_db w) i) else quota_at (w_db w) i))"
  proof (cases "q \<le> 0")
    case True
    then show ?thesis using assms(1) by (simp add: ChargeOnSuccess_def)
  next
    case False
    then obtain r1 w1 where d: "DecreaseUserQuota (i_user_id im) q w = (r1, w1)"
      and rest: "(case r1 of Inl e \<Rightarrow> fail (Msg (''billing deduction failed: '' @ error_text e)) | Inr _ \<Rightarrow> ?after) w1 = (r, w')"
      using assms(1) False unfolding ChargeOnSuccess_def if_not_P [OF False] by (elim on_result_eq)
    note m = decrease_moves [OF d _ assms(2)]
    show ?thesis
    proof (cases r1)
      case (Inl e)
      then show ?thesis using rest m False by simp
    next
      case (Inr u)
      then have a: "?after w1 = (r, w')" using rest by simp
      from keepsD [OF kb a] have "quota_at (w_db w') = quota_at (w_db w1)" by (simp add: balances_def)
      moreover from keepsD [OF ki a] have "d_images (w_db w') = d_images (w_db w1)" .
      ultimately show ?thesis using m Inr False by simp
    qed
  qed
  then show "d_images (w_db w') = d_images (w_db w)"
    and "quota_at (w_db w') = quota_at (w_db w) \<or> 0 < q \<and>
      quota_at (w_db w') = (\<lambda>i. if i = i_user_id im then map_option (\<lambda>x. x - q) (quota_at (w_db w) i) else quota_at (w_db w) i)"
    by auto
qed

lemma cfg_charge [cfg_intros]: "keeps_cfg (ChargeOnSuccess im q)"
  unfolding ChargeOnSuccess_def RecordConsumeLogWithOtherAndRequestID_def by (intro cfg_intros)

lemma finish_still:
  assumes "finish_image im won w = (r, w')" "\<And>w r w'. won w = (r, w') \<Longrightarrow> w' = w"
  shows "still w w'"
proof -
  obtain r1 w1 where u: "UpdateIfNotTerminal im w = (r1, w1)"
    and k: "(case r1 of Inl _ \<Rightarrow> ret (False, 500, ''update failed'')
       | Inr applied \<Rightarrow> if applied then won else ret (True, 200, ''already processed'')) w1 = (r, w')"
    using assms(1) unfolding finish_image_def by auto
  have "w' = w1" using k assms(2) by (auto split: sum.splits if_splits)
  with terminal_update_still [OF u] show ?thesis by simp
qed

lemma finish_pays:
  assumes "finish_image im (charge_and_reply im) w = (r, w')" "images_ok (w_db w)" "copy_of_row (w_db w) im"
    and "i_status im = TaskStatusSucceed" "\<not> cfg_batch_update (w_cfg w)"
  shows "pays (i_id im) w w'"
proof -
  obtain r1 w1 where u: "UpdateIfNotTerminal im w = (r1, w1)"
    and k: "(case r1 of Inl _ \<Rightarrow> ret (False, 500, ''update failed'')
       | Inr applied \<Rightarrow> if applied then charge_and_reply im else ret (True, 200, ''already processed'')) w1 = (r, w')"
    using assms(1) unfolding finish_image_def by auto
  have s: "still w w1" using u by (rule terminal_update_still)
  show ?thesis
  proof (cases "r1 = Inr True")
    case False
    then have "w' = w1" using k by (auto split: sum.splits if_splits)
    with s show ?thesis by (simp add: pays_def)
  next
    case True
    obtain a b where ab: "image_of (w_db w) (i_id im) = Some a" "\<not> final_image a" "image_of (w_db w1) (i_id im) = Some b"
      "i_status b = i_status im" "i_user_id b = i_user_id im" "i_quota b = i_quota im"
      using terminal_update_won [OF u [unfolded True] assms(2,3)] .
    obtain r2 where c: "ChargeOnSuccess im (i_quota im) w1 = (r2, w')"
      using k True by (auto simp: charge_and_reply_def go_simps split: prod.splits)
    have cfg: "w_cfg w1 = w_cfg w" "w_cfg w' = w_cfg w1" using s keeps_cfgD [OF cfg_charge c] by (auto simp: still_def)
    have nb: "\<not> cfg_batch_update (w_cfg w1)" using cfg(1) assms(5) by simp
    note m = charge_moves [OF c nb]
    have im: "image_of (w_db w') k = image_of (w_db w1) k" for k using m(1) by (simp add: image_of_def)
    have rk: "rows_kept (w_db w) (w_db w')"
      using s m(1) unfolding still_def rows_kept_def image_of_def by (simp cong: option.case_cong)
    from m(2) show ?thesis
    proof
      assume "quota_at (w_db w') = quota_at (w_db w1)"
      then show ?thesis using s rk cfg by (simp add: pays_def still_def)
    next
      assume "0 < i_quota im \<and> quota_at (w_db w') = (\<lambda>i. if i = i_user_id im then map_option (\<lambda>x. x - i_quota im) (quota_at (w_db w1) i)
        else quota_at (w_db w1) i)"
      then have "charged im w w'"
        using s rk cfg ab assms(4) im unfolding charged_def still_def by (simp cong: if_cong)
      then show ?thesis by (auto simp: pays_def)
    qed
  qed
qed

lemma finish_pays_row:
  assumes "finish_image x (charge_and_reply x) w = (r, w')" "i_id x = i_id im" "i_user_id x = i_user_id im"
    and "i_status x = TaskStatusSucceed" "images_ok (w_db w)" "copy_of_row (w_db w) im" "\<not> cfg_batch_update (w_cfg w)"
  shows "pays (i_id im) w w'"
  using finish_pays [OF assms(1)] assms(2-) by (simp add: copy_of_row_def)

section \<open>What every path does\<close>

lemma keeps_all_async [keeps_intros]: "keeps V (user_group_and_error i)" "keeps V (GetAsyncBillingGroupRatio env g u c t n)"
  "keeps V (image_ratio env im)"
proof -
  show g: "keeps V (user_group_and_error i)" for i
    unfolding user_group_and_error_def Let_def GetUserGroup_def by (intro keeps_intros)
  show a: "keeps V (GetAsyncBillingGroupRatio env g u c t n)" for g u c t n
    unfolding GetAsyncBillingGroupRatio_def Let_def by (intro keeps_intros)
  show "keeps V (image_ratio env im)" unfolding image_ratio_def by (intro keeps_intros g a)
qed

lemma cfg_async [cfg_intros]: "keeps_cfg (user_group_and_error i)" "keeps_cfg (GetAsyncBillingGroupRatio env g u c t n)"
  "keeps_cfg (image_ratio env im)"
proof -
  show g: "keeps_cfg (user_group_and_error i)" for i
    unfolding user_group_and_error_def Let_def GetUserGroup_def by (intro cfg_intros)
  show a: "keeps_cfg (GetAsyncBillingGroupRatio env g u c t n)" for g u c t n
    unfolding GetAsyncBillingGroupRatio_def Let_def by (intro cfg_intros)
  show "keeps_cfg (image_ratio env im)" unfolding image_ratio_def by (intro cfg_intros g a)
qed

lemma processing_reply_still: "processing_update im w = (r, w') \<Longrightarrow> still w w'"
  unfolding processing_update_def by (auto dest!: processing_update_still split: sum.splits)

lemma copy_same: "i_id b = i_id a \<Longrightarrow> i_user_id b = i_user_id a \<Longrightarrow> copy_of_row d b = copy_of_row d a"
  by (simp add: copy_of_row_def)

text \<open>A step that gets a row from a reading prefix.\<close>

lemma after_reading:
  assumes "on_ok f k w = (r, w')" "keeps (\<lambda>d. d) f" "keeps_cfg f"
    and "\<And>a w1. f w = (Inr a, w1) \<Longrightarrow> w_db w1 = w_db w \<Longrightarrow> w_cfg w1 = w_cfg w \<Longrightarrow> k a w1 = (r, w') \<Longrightarrow> pays j w1 w'"
  shows "pays j w w'"
proof -
  obtain r1 w1 where f: "f w = (r1, w1)" by fastforce
  have s: "still w w1" and d: "w_db w1 = w_db w" using still_keeps [OF assms(2,3) f] .
  have c: "w_cfg w1 = w_cfg w" using keeps_cfgD [OF assms(3) f] .
  show ?thesis
  proof (cases r1)
    case (Inl e)
    then have "w' = w1" using assms(1) f by (auto simp: on_ok_def)
    with s show ?thesis by (simp add: pays_def)
  next
    case (Inr a)
    then have "k a w1 = (r, w')" using assms(1) f by (simp add: on_ok_def)
    from still_pays [OF s assms(4) [OF f [unfolded Inr] d c this]] show ?thesis .
  qed
qed

lemma success_pays:
  assumes "handleSuccessCallback env im n task w = (r, w')" "images_ok (w_db w)" "copy_of_row (w_db w) im"
    and "\<not> cfg_batch_update (w_cfg w)"
  shows "pays (i_id im) w w'"
proof (cases "i_quota im \<le> 0")
  case False
  then show ?thesis using assms unfolding handleSuccessCallback_def Let_def
    by (simp, elim finish_pays_row) simp_all
next
  case True
  show ?thesis
    using assms(1) unfolding handleSuccessCallback_def Let_def if_P [OF True]
    by (rule after_reading, intro keeps_intros, intro cfg_intros)
      (elim finish_pays_row, use assms in simp_all)
qed

lemma notify_pays:
  assumes "notify_image env n raw task im w = (r, w')" "images_ok (w_db w)" "copy_of_row (w_db w) im"
    and "\<not> cfg_batch_update (w_cfg w)"
  shows "pays (i_id im) w w'"
proof -
  have "still w w'" if "handleFailedCallback x n w = (r, w')" for x
    using that unfolding handleFailedCallback_def by (rule finish_still) auto
  moreover have "pays (i_id im) w w'" if "handleSuccessCallback env im n task w = (r, w')"
    using success_pays [OF that assms(2-4)] .
  moreover have "still w w'" if "handleProcessingCallback im w = (r, w')"
    using that unfolding handleProcessingCallback_def by (rule processing_reply_still)
  ultimately show ?thesis using assms(1) unfolding notify_image_def
    by (auto simp: pays_def split: if_splits)
qed

lemma replicate_pays:
  assumes "replicate_image env rr im w = (r, w')" "images_ok (w_db w)" "copy_of_row (w_db w) im"
    and "\<not> cfg_batch_update (w_cfg w)"
  shows "pays (i_id im) w w'"
proof -
  have empty: "still w w'" if "on_result (UpdateIfNotTerminal x) (\<lambda>u. case u of Inl _ \<Rightarrow> ret a | Inr _ \<Rightarrow> ret b) w = (r, w')" for x a b
    using that by (auto dest!: terminal_update_still split: sum.splits)
  have failed: "still w w'" if "finish_image x (ret a) w = (r, w')" for x a
    using that by (rule finish_still) auto
  have ok: "pays (i_id im) w w'" if s: "replicate_success env rr im w = (r, w')"
  proof -
    consider "rr_output rr = []" | "rr_output rr \<noteq> []" "\<not> i_quota im \<le> 0" | "rr_output rr \<noteq> []" "i_quota im \<le> 0" by blast
    then show ?thesis
    proof cases
      case 1
      then show ?thesis using s empty unfolding replicate_success_def pays_def by auto
    next
      case 2
      then show ?thesis using s assms unfolding replicate_success_def Let_def
        by (simp, elim finish_pays_row) simp_all
    next
      case 3
      show ?thesis
        using s unfolding replicate_success_def Let_def if_not_P [OF 3(1)] if_P [OF 3(2)]
        by (rule after_reading, intro keeps_intros, intro cfg_intros)
          (elim finish_pays_row, use assms in simp_all)
    qed
  qed
  show ?thesis using assms(1) ok failed processing_reply_still unfolding replicate_image_def
    by (auto simp: pays_def split: if_splits)
qed

lemma sync_pays:
  assumes "handleReplicateSuccess env im rr raw w = (r, w')" "rr_output rr \<noteq> []" "images_ok (w_db w)" "copy_of_row (w_db w) im"
    and "\<not> cfg_batch_update (w_cfg w)"
  shows "pays (i_id im) w w'"
proof -
  have fin: "pays (i_id im) v w'" if run: "then_do (ignore_err (finish_image x (charge_and_reply x))) (ret (None :: relay_error option)) v = (r, w')"
    and x: "w_db v = w_db w" "w_cfg v = w_cfg w" "i_status x = TaskStatusSucceed" "i_id x = i_id im" "i_user_id x = i_user_id im" for x v
  proof -
    obtain r1 where "finish_image x (charge_and_reply x) v = (r1, w')"
      using run by (auto simp: go_simps split: prod.splits)
    then show ?thesis using finish_pays [of x v r1 w'] x assms(3-5) by (simp add: copy_of_row_def)
  qed
  define price where "price g = GetAsyncBillingGroupRatio env (if snd g then ''Lv1'' else fst g) (i_user_id im) (i_channel_id im)
    ChannelTypeFlux (i_model im)" for g :: "string \<times> bool"
  define row where "row ratio = im\<lparr>i_task_id := rr_id rr, i_status := TaskStatusSucceed, i_total_duration := w_now w - i_created_at im,
    i_store_url := MirrorResultURL env (rr_id rr) (rr_output rr), i_result := BuildReadyResultJSON (rr_id rr) (MirrorResultURL env (rr_id rr) (rr_output rr)),
    i_detail := raw, i_quota := CalculateReplicateQuota (i_model im) (rr_output_mp rr) (rr_input_mp rr) ratio\<rparr>" for ratio
  have k: "keeps (\<lambda>d. d) (price g)" "keeps_cfg (price g)" for g unfolding price_def by (intro keeps_intros cfg_intros)+
  have "on_ok (user_group_and_error (i_user_id im)) (\<lambda>g. on_ok (price g) (\<lambda>ratio.
      then_do (ignore_err (finish_image (row ratio) (charge_and_reply (row ratio)))) (ret None))) w = (r, w')"
    using assms(1) unfolding handleReplicateSuccess_def if_not_P [OF assms(2)] reading_def Let_def price_def row_def .
  then show ?thesis
  proof (rule after_reading)
    fix g w1
    assume "w_db w1 = w_db w" "w_cfg w1 = w_cfg w" and on: "on_ok (price g) (\<lambda>ratio.
      then_do (ignore_err (finish_image (row ratio) (charge_and_reply (row ratio)))) (ret None)) w1 = (r, w')"
    from on k show "pays (i_id im) w1 w'"
      by (rule after_reading) (erule fin, simp_all add: row_def \<open>w_db w1 = w_db w\<close> \<open>w_cfg w1 = w_cfg w\<close>)
  qed (intro keeps_intros cfg_intros)+
qed

lemma ignored_update_still: "ignore_err (UpdateIfNotTerminal im) w = (r, w') \<Longrightarrow> still w w'"
  unfolding ignore_err_def by (auto dest!: terminal_update_still)

lemma bfl_reconcile_still: "reconcileBFLImage env im p w = (r, w') \<Longrightarrow> still w w'"
  unfolding reconcileBFLImage_def applyFluxBFLSuccess_def Let_def
  by (auto dest!: ignored_update_still split: option.splits if_splits)

lemma replicate_reconcile_still: "reconcileReplicateImage env im p w = (r, w') \<Longrightarrow> still w w'"
  unfolding reconcileReplicateImage_def applyFluxReplicateSuccess_def applyFluxReplicateFailed_def Let_def
  by (auto dest!: ignored_update_still split: option.splits if_splits)

section \<open>Runs of the system\<close>

lemma keeps_IncrMod [keeps_intros]: "keeps V (RedisIncrMod key n ttl)"
  unfolding RedisIncrMod_def Let_def
  by (intro keeps_intros keeps_redis_cmd) (auto split: option.splits)

lemma cfg_IncrMod [cfg_intros]: "keeps_cfg (RedisIncrMod key n ttl)"
  unfolding RedisIncrMod_def Let_def
  by (intro cfg_intros cfg_redis_cmd) (auto split: option.splits)

lemma keeps_polling [keeps_intros]: "keeps V (incrChannelPollingIndex i n)"
  by (simp add: keeps_def incrChannelPollingIndex_def)

lemma cfg_polling [cfg_intros]: "keeps_cfg (incrChannelPollingIndex i n)"
  by (simp add: keeps_cfg_def incrChannelPollingIndex_def)

lemma resolve_key_still: "keeps V (ResolveKeyByIndex rnd c i)" "keeps_cfg (ResolveKeyByIndex rnd c i)"
proof -
  have "keeps V (select_key rnd c ks)" for ks
    unfolding select_key_def polling_start_def Let_def
    by (cases "mk_mode (c_mk c)") (simp_all only: key_mode.case, (intro keeps_intros)+)
  then have "keeps V (GetNextAvailableKey rnd c)"
    unfolding GetNextAvailableKey_def by (intro keeps_intros)
  then show "keeps V (ResolveKeyByIndex rnd c i)"
    unfolding ResolveKeyByIndex_def
    by (auto split: sum.splits list.splits prod.splits intro!: keeps_intros)
  have "keeps_cfg (select_key rnd c ks)" for ks
    unfolding select_key_def polling_start_def Let_def
    by (cases "mk_mode (c_mk c)") (simp_all only: key_mode.case, (intro cfg_intros)+)
  then have "keeps_cfg (GetNextAvailableKey rnd c)"
    unfolding GetNextAvailableKey_def by (intro cfg_intros)
  then show "keeps_cfg (ResolveKeyByIndex rnd c i)"
    unfolding ResolveKeyByIndex_def
    by (auto split: sum.splits list.splits prod.splits intro!: cfg_intros)
qed

lemma reconcile_still:
  assumes "reconcileFluxImage env im w = (r, w')"
  shows "still w w'"
proof (cases "i_task_id im = []")
  case True
  with assms show ?thesis by (simp add: reconcileFluxImage_def)
next
  case False
  obtain r1 w1 where g: "GetChannelById (i_channel_id im) True w = (r1, w1)" by fastforce
  have s1: "still w w1" using g by (rule still_keeps(1) [rotated 2]) (intro keeps_intros, intro cfg_intros)
  show ?thesis
  proof (cases "\<exists>c. r1 = Inr c \<and> fe_base env (i_channel_id im) \<noteq> []")
    case False
    then have "w' = w1" using assms g \<open>i_task_id im \<noteq> []\<close>
      by (auto simp: reconcileFluxImage_def on_result_def Let_def split: sum.splits)
    with s1 show ?thesis by simp
  next
    case True
    then obtain c where c: "r1 = Inr c" "fe_base env (i_channel_id im) \<noteq> []" by blast
    obtain r2 w2 where k: "ResolveKeyByIndex (fe_pick env) c (i_key_index im) w1 = (r2, w2)" by fastforce
    have s2: "still w1 w2" using still_keeps(1) [OF resolve_key_still k] .
    have "still w2 w'"
    proof (cases r2)
      case (Inl e)
      then have "w' = w2" using assms g c k \<open>i_task_id im \<noteq> []\<close>
        by (auto simp: reconcileFluxImage_def on_result_def on_ok_def Let_def)
      then show ?thesis by simp
    next
      case (Inr key)
      then show ?thesis using assms g c k \<open>i_task_id im \<noteq> []\<close> bfl_reconcile_still replicate_reconcile_still
        by (simp add: reconcileFluxImage_def on_result_def on_ok_def Let_def split: if_splits)
    qed
    with s1 s2 show ?thesis using still_trans by blast
  qed
qed

lemma reconcile_all_still: "reconcile_all env ims w = (r, w') \<Longrightarrow> still w w'"
proof (induction ims arbitrary: w)
  case Nil
  then show ?case by simp
next
  case (Cons im ims)
  obtain r1 w1 where f: "reconcileFluxImage env im w = (r1, w1)" by fastforce
  have s: "still w w1" using reconcile_still [OF f] .
  show ?case
  proof (cases r1)
    case (Inl e)
    with Cons.prems f s show ?thesis by (auto simp: then_do_def on_ok_def)
  next
    case (Inr u)
    then have "reconcile_all env ims w1 = (r, w')" using Cons.prems f by (simp add: then_do_def on_ok_def)
    from still_trans [OF s Cons.IH [OF this]] show ?thesis .
  qed
qed

lemma run_reconcile_still:
  assumes "runFluxReconcile env w = (r, w')"
  shows "still w w'"
proof -
  define ss where "ss = [TaskStatusProcessing, TaskStatusSubmitted]"
  define before where "before = w_now w - fluxReconcileExpireSecs"
  obtain r1 w1 where x: "ExpireStuckFluxImages ss before ''task timed out'' w = (r1, w1)" by fastforce
  obtain r2 w2 where q: "GetStuckFluxImages ss (w_now w) before fluxReconcileBatch w1 = (r2, w2)" by fastforce
  have k: "(case r2 of Inl _ \<Rightarrow> ret () | Inr ims \<Rightarrow> reconcile_all env ims) w2 = (r, w')"
    using assms x q by (simp add: runFluxReconcile_def reading_def Let_def ignore_err_def then_do_def on_ok_def on_result_def
        ret_def ss_def before_def)
  have "still w w1"
    using x unfolding ExpireStuckFluxImages_def reading_def
    by (rule update_images_still) (auto simp: ss_def final_image_def task_status_defs)
  moreover have "still w1 w2"
    using q by (rule still_keeps(1) [rotated 2]) (unfold GetStuckFluxImages_def, intro keeps_intros, intro cfg_intros)
  moreover have "still w2 w'" using k by (auto dest: reconcile_all_still split: sum.splits)
  ultimately show ?thesis using still_trans by blast
qed

lemma attempts_row:
  "image_attempts n task w = (r, w') \<Longrightarrow> w_db w' = w_db w \<and> w_cfg w' = w_cfg w \<and> (\<forall>im. r = Inr (Some im) \<longrightarrow> im \<in> set (d_images (w_db w)))"
proof (induction n arbitrary: w)
  case 0
  then show ?case by simp
next
  case (Suc n)
  obtain r1 w1 where g: "GetImageByTaskId task w = (r1, w1)" by fastforce
  have t: "touched w w1 (w_db w)" using g unfolding GetImageByTaskId_def by (rule first_touched)
  show ?case
  proof (cases "\<exists>im. r1 = Inr im \<and> i_task_id im \<noteq> []")
    case True
    then obtain im where im: "r1 = Inr im" "i_task_id im \<noteq> []" by blast
    then have "List.find (\<lambda>im. i_task_id im = task) (d_images (w_db w)) = Some im"
      using g unfolding GetImageByTaskId_def by (auto elim: first_Inr)
    then have "im \<in> set (d_images (w_db w))" using find_SomeD by fastforce
    then show ?thesis using Suc.prems g im touchedD(1,2) [OF t] by (simp add: on_result_def)
  next
    case False
    then have "image_attempts n task w1 = (r, w')"
      using Suc.prems g by (auto simp: on_result_def split: sum.splits if_splits)
    from Suc.IH [OF this] show ?thesis using touchedD(1,2) [OF t] by simp
  qed
qed

lemma row_is_copy: "images_ok d \<Longrightarrow> im \<in> set (d_images d) \<Longrightarrow> copy_of_row d im"
  by (auto simp: images_ok_def copy_of_row_def image_of_def find_key_iff)

lemma lookup_pays:
  assumes "on_ok (getImageByTaskIdWithRetry task) (\<lambda>found. case found of None \<Rightarrow> ret a | Some im \<Rightarrow> k im) w = (r, w')"
    and "images_ok (w_db w)"
    and "\<And>im w1. w_db w1 = w_db w \<Longrightarrow> w_cfg w1 = w_cfg w \<Longrightarrow> copy_of_row (w_db w) im \<Longrightarrow> k im w1 = (r, w') \<Longrightarrow> pays (i_id im) w1 w'"
  shows "\<exists>i. pays i w w'"
proof -
  obtain r1 w1 where l: "getImageByTaskIdWithRetry task w = (r1, w1)" by fastforce
  note row = attempts_row [OF l [unfolded getImageByTaskIdWithRetry_def]]
  then have s: "still w w1" by (simp add: still_def)
  show ?thesis
  proof (cases "\<exists>im. r1 = Inr (Some im)")
    case True
    then obtain im where im: "r1 = Inr (Some im)" by blast
    then have "k im w1 = (r, w')" using assms(1) l by (simp add: on_ok_def)
    with assms(3) row im row_is_copy [OF assms(2)] have "pays (i_id im) w1 w'" by blast
    with still_pays [OF s] show ?thesis by blast
  next
    case False
    then have "w' = w1" using assms(1) l by (auto simp: on_ok_def split: sum.splits option.splits)
    with s show ?thesis by (auto simp: pays_def)
  qed
qed

text \<open>
  The events of a run: a webhook of either provider, the second half of one that works on an older copy
  of its row, the answer of a synchronous request, a round of the reconciler.
\<close>

datatype flux_event =
    Webhook flux_notification string
  | LateWebhook flux_notification string string image
  | ReplicateHook replicate_response
  | LateReplicateHook replicate_response image
  | SyncAnswer image replicate_response string
  | ReconcileRound

definition flux_step :: "flux_env \<Rightarrow> flux_event \<Rightarrow> world \<Rightarrow> world" where
  "flux_step env e w =
     (case e of
        Webhook n raw \<Rightarrow> snd (HandleCallback env n raw w)
      | LateWebhook n raw task im \<Rightarrow> snd (notify_image env n raw task im w)
      | ReplicateHook r \<Rightarrow> snd (HandleReplicateCallback env r w)
      | LateReplicateHook r im \<Rightarrow> snd (replicate_image env r im w)
      | SyncAnswer im r raw \<Rightarrow> snd (handleReplicateSuccess env im r raw w)
      | ReconcileRound \<Rightarrow> snd (runFluxReconcile env w))"

definition run_flux :: "flux_env \<Rightarrow> flux_event list \<Rightarrow> world \<Rightarrow> world" where
  "run_flux env es w = fold (flux_step env) es w"

definition real_event :: "db \<Rightarrow> flux_event \<Rightarrow> bool" where
  "real_event d e =
     (case e of
        LateWebhook n raw task im \<Rightarrow> copy_of_row d im
      | LateReplicateHook r im \<Rightarrow> copy_of_row d im
      | SyncAnswer im r raw \<Rightarrow> copy_of_row d im \<and> rr_output r \<noteq> []
      | _ \<Rightarrow> True)"

lemma step_pays:
  assumes "images_ok (w_db w)" "\<not> cfg_batch_update (w_cfg w)" "real_event (w_db w) e"
  shows "\<exists>k. pays k w (flux_step env e w)"
proof (cases e)
  case (Webhook n raw)
  obtain r w' where h: "HandleCallback env n raw w = (r, w')" by fastforce
  define task where "task = (if fn_task_id n = [] then fn_task_id_alt n else fn_task_id n)"
  show ?thesis
  proof (cases "task = []")
    case True
    then have "w' = w" using h by (simp add: HandleCallback_def Let_def task_def split: if_splits)
    then show ?thesis using h Webhook by (auto simp: flux_step_def pays_def)
  next
    case False
    then have "on_ok (getImageByTaskIdWithRetry task) (\<lambda>found. case found of
        None \<Rightarrow> ret (False, 404, ''task not found'') | Some im \<Rightarrow> notify_image env n raw task im) w = (r, w')"
      using h unfolding HandleCallback_def Let_def task_def [symmetric] by simp
    from lookup_pays [OF this assms(1)] have "\<exists>i. pays i w w'" using notify_pays assms(1,2) by metis
    then show ?thesis using h Webhook by (simp add: flux_step_def)
  qed
next
  case (ReplicateHook rr)
  obtain r w' where h: "HandleReplicateCallback env rr w = (r, w')" by fastforce
  from lookup_pays [OF h [unfolded HandleReplicateCallback_def] assms(1)] have "\<exists>i. pays i w w'"
    using replicate_pays assms(1,2) by metis
  then show ?thesis using h ReplicateHook by (simp add: flux_step_def)
next
  case (LateWebhook n raw task im)
  then have "pays (i_id im) w (flux_step env e w)"
    using notify_pays [of env n raw task im w] assms by (cases "notify_image env n raw task im w") (simp add: flux_step_def real_event_def)
  then show ?thesis ..
next
  case (LateReplicateHook rr im)
  then have "pays (i_id im) w (flux_step env e w)"
    using replicate_pays [of env rr im w] assms by (cases "replicate_image env rr im w") (simp add: flux_step_def real_event_def)
  then show ?thesis ..
next
  case (SyncAnswer im rr raw)
  then have "pays (i_id im) w (flux_step env e w)"
    using sync_pays [of env im rr raw w] assms by (cases "handleReplicateSuccess env im rr raw w") (simp add: flux_step_def real_event_def)
  then show ?thesis ..
next
  case ReconcileRound
  then show ?thesis
    using run_reconcile_still [of env w] by (cases "runFluxReconcile env w") (auto simp: flux_step_def pays_def)
qed

section \<open>The accounts\<close>

text \<open>What a user owes for the images of a set, by the rows of the database.\<close>

definition owed :: "db \<Rightarrow> int set \<Rightarrow> int \<Rightarrow> int" where
  "owed d S uid = (\<Sum>k\<in>S. case image_of d k of None \<Rightarrow> 0 | Some im \<Rightarrow> if i_user_id im = uid then i_quota im else 0)"

text \<open>\<open>S\<close> accounts for the balances between two states.\<close>

definition accounts :: "db \<Rightarrow> db \<Rightarrow> int set \<Rightarrow> bool" where
  "accounts d0 d S \<longleftrightarrow> finite S \<and>
     (\<forall>k\<in>S. \<exists>a b. image_of d0 k = Some a \<and> \<not> final_image a \<and> image_of d k = Some b \<and>
        i_status b = TaskStatusSucceed \<and> 0 < i_quota b) \<and>
     (\<forall>uid. quota_at d uid = map_option (\<lambda>x. x - owed d S uid) (quota_at d0 uid))"

lemma owed_kept:
  assumes "rows_kept d d'" "\<And>k. k \<in> S \<Longrightarrow> \<exists>b. image_of d k = Some b \<and> final_image b"
  shows "owed d' S uid = owed d S uid"
  unfolding owed_def
proof (rule sum.cong [OF refl])
  fix k assume "k \<in> S"
  then obtain b where b: "image_of d k = Some b" "final_image b" using assms(2) by blast
  then have "image_of d' k = Some b" using rows_keptD(2) [OF assms(1) b(1)] by auto
  with b show "(case image_of d' k of None \<Rightarrow> 0 | Some im \<Rightarrow> if i_user_id im = uid then i_quota im else 0) =
    (case image_of d k of None \<Rightarrow> 0 | Some im \<Rightarrow> if i_user_id im = uid then i_quota im else 0)" by simp
qed

lemma accounts_final: "accounts d0 d S \<Longrightarrow> k \<in> S \<Longrightarrow> \<exists>b. image_of d k = Some b \<and> final_image b"
  by (fastforce simp: accounts_def final_image_def task_status_defs)

lemma accounts_step:
  assumes "accounts d0 (w_db w) S" "rows_kept d0 (w_db w)" "pays k w w'"
  shows "\<exists>S'. accounts d0 (w_db w') S'"
proof -
  let ?d = "w_db w" and ?d' = "w_db w'"
  have rk: "rows_kept ?d ?d'" using assms(3) by (auto simp: pays_def still_def charged_def)
  have fin: "\<exists>b. image_of ?d j = Some b \<and> final_image b" if "j \<in> S" for j using accounts_final [OF assms(1) that] .
  note ow = owed_kept [OF rk fin]
  have rows: "\<exists>a b. image_of d0 j = Some a \<and> \<not> final_image a \<and> image_of ?d' j = Some b \<and>
      i_status b = TaskStatusSucceed \<and> 0 < i_quota b" if j: "j \<in> S" for j
  proof -
    obtain a b where ab: "image_of d0 j = Some a" "\<not> final_image a" "image_of ?d j = Some b"
      "i_status b = TaskStatusSucceed" "0 < i_quota b" using assms(1) j unfolding accounts_def by blast
    then have "image_of ?d' j = Some b" using rows_keptD(2) [OF rk ab(3)] fin [OF j] by auto
    with ab show ?thesis by blast
  qed
  from assms(3) consider "still w w'" | im where "charged im w w'" by (auto simp: pays_def)
  then show ?thesis
  proof cases
    case 1
    then have "accounts d0 ?d' S" using assms(1) rows ow by (simp add: accounts_def still_def)
    then show ?thesis ..
  next
    case 2
    let ?k = "i_id im"
    obtain a b where ab: "image_of ?d ?k = Some a" "\<not> final_image a" "image_of ?d' ?k = Some b"
        "i_status b = TaskStatusSucceed" "i_user_id b = i_user_id im" "i_quota b = i_quota im" and pos: "0 < i_quota im"
      and q: "quota_at ?d' = (\<lambda>uid. if uid = i_user_id im then map_option (\<lambda>x. x - i_quota im) (quota_at ?d uid) else quota_at ?d uid)"
      using 2 by (auto simp: charged_def)
    have new: "?k \<notin> S" using fin [of ?k] ab(1,2) by auto
    have old: "\<exists>c. image_of d0 ?k = Some c \<and> \<not> final_image c"
    proof (cases "image_of d0 ?k")
      case None
      then show ?thesis using rows_keptD(1) [OF assms(2) None] ab(1) by simp
    next
      case (Some c)
      then show ?thesis using rows_keptD(2) [OF assms(2) Some] ab(1,2) by auto
    qed
    have f: "finite S" and qS: "quota_at ?d uid = map_option (\<lambda>x. x - owed ?d S uid) (quota_at d0 uid)" for uid
      using assms(1) by (auto simp: accounts_def)
    have "owed ?d' (insert ?k S) uid = owed ?d S uid + (if uid = i_user_id im then i_quota im else 0)" for uid
    proof -
      have "owed ?d' (insert ?k S) uid = (if i_user_id im = uid then i_quota im else 0) + owed ?d' S uid"
        unfolding owed_def using f new ab by simp
      then show ?thesis using ow by simp
    qed
    then have "quota_at ?d' uid = map_option (\<lambda>x. x - owed ?d' (insert ?k S) uid) (quota_at d0 uid)" for uid
      unfolding q qS by (cases "quota_at d0 uid") auto
    with f rows old ab pos have "accounts d0 ?d' (insert ?k S)" by (auto simp: accounts_def)
    then show ?thesis ..
  qed
qed

lemma run_accounts:
  assumes "images_ok d0" "accounts d0 (w_db w) S" "rows_kept d0 (w_db w)" "\<not> cfg_batch_update (w_cfg w)"
    and "list_all (real_event d0) es"
  shows "\<exists>S'. accounts d0 (w_db (run_flux env es w)) S'"
  using assms(2-5)
proof (induction es arbitrary: w S)
  case Nil
  then show ?case by (auto simp: run_flux_def)
next
  case (Cons e es)
  have real: "real_event (w_db w) e"
    using Cons.prems(2,4) copy_kept by (auto simp: real_event_def split: flux_event.splits)
  have ok: "images_ok (w_db w)" using ok_kept [OF Cons.prems(2)] assms(1) by simp
  obtain k where p: "pays k w (flux_step env e w)" using step_pays [OF ok Cons.prems(3) real] by blast
  obtain S' where "accounts d0 (w_db (flux_step env e w)) S'" using accounts_step [OF Cons.prems(1,2) p] by blast
  moreover have "rows_kept d0 (w_db (flux_step env e w))" "w_cfg (flux_step env e w) = w_cfg w"
    using p Cons.prems(2) rows_kept_trans by (auto simp: pays_def still_def charged_def)
  ultimately show ?case using Cons.IH Cons.prems(3,4) by (simp add: run_flux_def)
qed

text \<open>
  C9. Whatever webhooks, synchronous answers and rounds of the reconciler arrive, in whatever order,
  however old the copies of the rows they work on and whichever statements fail: there is one set of
  images, none of them final before and all of them \<open>success\<close> after, such that each user has paid exactly
  the quotas of the user's images in it. No image is paid for twice.
\<close>

theorem flux_charged_once:
  assumes "images_ok (w_db w)" "\<not> cfg_batch_update (w_cfg w)" "list_all (real_event (w_db w)) es"
  shows "\<exists>S. finite S \<and>
    (\<forall>k\<in>S. \<exists>a b. image_of (w_db w) k = Some a \<and> \<not> final_image a \<and>
       image_of (w_db (run_flux env es w)) k = Some b \<and> i_status b = TaskStatusSucceed \<and> 0 < i_quota b) \<and>
    (\<forall>uid. quota_at (w_db (run_flux env es w)) uid =
       map_option (\<lambda>x. x - owed (w_db (run_flux env es w)) S uid) (quota_at (w_db w) uid))"
proof -
  have "accounts (w_db w) (w_db w) {}" by (simp add: accounts_def owed_def option.map_ident)
  from run_accounts [OF assms(1) this _ assms(2,3), of env] show ?thesis unfolding accounts_def by auto
qed

text \<open>What an image that the reconciler finished costs.\<close>

definition late_about :: "int \<Rightarrow> flux_event \<Rightarrow> bool" where
  "late_about k e =
     (case e of
        LateWebhook n raw task im \<Rightarrow> i_id im = k
      | LateReplicateHook r im \<Rightarrow> i_id im = k
      | ReconcileRound \<Rightarrow> True
      | _ \<Rightarrow> False)"

lemma pays_final: "pays k w w' \<Longrightarrow> image_of (w_db w) k = Some a \<Longrightarrow> final_image a \<Longrightarrow> still w w'"
  by (auto simp: pays_def charged_def)

lemma late_step:
  assumes "images_ok (w_db w)" "\<not> cfg_batch_update (w_cfg w)" "real_event (w_db w) e" "late_about k e"
    and "image_of (w_db w) k = Some a" "final_image a"
  shows "still w (flux_step env e w)"
proof (cases e)
  case (LateWebhook n raw task im)
  then have "pays k w (flux_step env e w)"
    using notify_pays [of env n raw task im w] assms
    by (cases "notify_image env n raw task im w") (simp add: flux_step_def real_event_def late_about_def)
  then show ?thesis by (rule pays_final [OF _ assms(5,6)])
next
  case (LateReplicateHook rr im)
  then have "pays k w (flux_step env e w)"
    using replicate_pays [of env rr im w] assms
    by (cases "replicate_image env rr im w") (simp add: flux_step_def real_event_def late_about_def)
  then show ?thesis by (rule pays_final [OF _ assms(5,6)])
next
  case ReconcileRound
  then show ?thesis
    using run_reconcile_still [of env w] by (cases "runFluxReconcile env w") (auto simp: flux_step_def)
qed (use assms(4) in \<open>auto simp: late_about_def\<close>)

lemma late_run:
  assumes "images_ok (w_db w)" "\<not> cfg_batch_update (w_cfg w)" "list_all (real_event (w_db w)) es" "list_all (late_about k) es"
    and "image_of (w_db w) k = Some a" "final_image a"
  shows "still w (run_flux env es w)"
  using assms
proof (induction es arbitrary: w)
  case Nil
  then show ?case by (simp add: run_flux_def)
next
  case (Cons e es)
  let ?w = "flux_step env e w"
  have s: "still w ?w" using late_step [of w e k a env] Cons.prems by simp
  then have rk: "rows_kept (w_db w) (w_db ?w)" and cfg: "w_cfg ?w = w_cfg w" by (simp_all add: still_def)
  have "list_all (real_event (w_db ?w)) es"
    using Cons.prems(3) copy_kept [OF rk] by (auto simp: list_all_iff real_event_def split: flux_event.splits)
  moreover have "image_of (w_db ?w) k = Some a" using rows_keptD(2) [OF rk Cons.prems(5)] Cons.prems(6) by auto
  ultimately have "still ?w (run_flux env es ?w)"
    using Cons.IH [of ?w] Cons.prems(1,2,4,6) ok_kept [OF rk] cfg by simp
  with s show ?case using still_trans by (simp add: run_flux_def)
qed

text \<open>
  C40. An image that the reconciler finds finished at BFL becomes \<open>success\<close> with its quota recorded and
  nothing charged, and no later webhook or round charges it.
\<close>

theorem reconciled_image_never_charged:
  assumes "images_ok (w_db w)" "\<not> cfg_batch_update (w_cfg w)" "w_faults w = []" "\<not> w_aborted w"
    and row: "image_of (w_db w) k = Some im" "\<not> final_image im"
    and "IsUpstreamReady (fp_status p)" "fp_sample p = Some url" "url \<noteq> []"
    and "reconcileBFLImage env im (Some p) w = (r, w1)"
    and es: "list_all (real_event (w_db w)) es" "list_all (late_about k) es"
  shows "(\<exists>b. image_of (w_db w1) k = Some b \<and> i_status b = TaskStatusSucceed \<and> i_quota b = i_quota im) \<and>
    quota_at (w_db (run_flux env es w1)) = quota_at (w_db w)"
proof -
  define new where "new = im\<lparr>i_status := TaskStatusSucceed, i_store_url := MirrorResultURL env (i_task_id im) url,
    i_result := fp_text p (MirrorResultURL env (i_task_id im) url)\<rparr>"
  have k: "i_id im = k" using find_SomeD row(1) unfolding image_of_def by fastforce
  have copy: "copy_of_row (w_db w) im" using row(1) k by (auto simp: copy_of_row_def)
  have z: "i_id new \<noteq> 0" using copy_id [OF assms(1) copy] by (simp add: new_def)
  obtain r1 where u: "UpdateIfNotTerminal new w = (r1, w1)"
    using assms(7-10) by (auto simp: reconcileBFLImage_def applyFluxBFLSuccess_def new_def Let_def ignore_err_def)
  have s: "still w w1" using u by (rule terminal_update_still)
  have "w_db w1 = d_images_update (update_rows (\<lambda>r. i_id r = k \<and> \<not> final_image r)
      (\<lambda>r. r\<lparr>i_task_id := i_task_id new, i_status := i_status new, i_store_url := i_store_url new, i_result := i_result new,
             i_detail := i_detail new, i_quota := i_quota new, i_fail_reason := i_fail_reason new, i_updated_at := w_now w\<rparr>)) (w_db w)"
    using u z k assms(3,4) by (auto simp: UpdateIfNotTerminal_def go_simps update_where_reliable new_def)
  then have b: "\<exists>b. image_of (w_db w1) k = Some b \<and> i_status b = TaskStatusSucceed \<and> i_quota b = i_quota im"
    using row k by (simp add: image_of_def find_update_rows new_def)
  then obtain b where b': "image_of (w_db w1) k = Some b" "final_image b"
    by (auto simp: final_image_def TaskStatusSucceed_def)
  have rk: "rows_kept (w_db w) (w_db w1)" using s by (simp add: still_def)
  have "list_all (real_event (w_db w1)) es"
    using es(1) copy_kept [OF rk] by (auto simp: list_all_iff real_event_def split: flux_event.splits)
  with late_run [of w1 es k b env] have "still w1 (run_flux env es w1)"
    using ok_kept [OF rk] assms(1,2) s b' es(2) by (simp add: still_def)
  with b s show ?thesis by (simp add: still_def)
qed

section \<open>Witnesses\<close>

definition flux_demo_image :: image where
  "flux_demo_image = \<lparr>i_id = 7, i_task_id = ''t1'', i_username = ''tok'', i_channel_id = 3, i_key_index = 0, i_user_id = 1,
     i_model = ''flux-dev'', i_status = ''submitted'', i_fail_reason = [], i_image_id = [], i_store_url = [], i_provider = ''flux'',
     i_request_id = ''r1'', i_created_at = 70, i_updated_at = 70, i_mode = [], i_n = 0, i_quota = 300, i_detail = [],
     i_total_duration = 2, i_result = []\<rparr>"

definition flux_demo_world :: world where
  "flux_demo_world = world_with (demo_db\<lparr>d_images := [flux_demo_image]\<rparr>) 77"

definition flux_demo_env :: flux_env where
  "flux_demo_env = \<lparr>fe_pricing = initial_pricing, fe_ratios = (\<lambda>_. Inr []), fe_mirror = (\<lambda>_ u. u), fe_base = (\<lambda>_. ''https://api.bfl.ai''),
     fe_pick = 0, fe_bfl = (\<lambda>_ _ _. None), fe_replicate = (\<lambda>_ _ _. None)\<rparr>"

definition flux_demo_ready :: flux_notification where
  "flux_demo_ready = \<lparr>fn_task_id = ''t1'', fn_task_id_alt = [], fn_status = ''Ready'', fn_sample = Some ''u'', fn_error = [],
     fn_text = (\<lambda>_. ''json'')\<rparr>"

definition flux_demo_events :: "flux_event list" where
  "flux_demo_events = [Webhook flux_demo_ready ''raw'', LateWebhook flux_demo_ready ''raw'' ''t1'' flux_demo_image, ReconcileRound]"

lemma flux_demo_facts:
  "images_ok (w_db flux_demo_world)" "\<not> cfg_batch_update (w_cfg flux_demo_world)"
  "list_all (real_event (w_db flux_demo_world)) flux_demo_events"
  "w_faults flux_demo_world = []" "\<not> w_aborted flux_demo_world" "image_of (w_db flux_demo_world) 7 = Some flux_demo_image"
  "\<not> final_image flux_demo_image"
  by (simp_all add: flux_demo_world_def flux_demo_events_def flux_demo_image_def images_ok_def run_simps real_event_def copy_of_row_def
      image_of_def final_image_def)

lemma upstream_ready: "IsUpstreamReady ''Ready''"
proof -
  have "char_of (114::nat) = CHR ''r''" using char_of_char [where ?'a = nat, of "CHR ''r''"] by simp
  then show ?thesis by (simp add: IsUpstreamReady_def to_lower_def lower_char_def trim_space_def is_space_def Let_def)
qed

lemmas flux_run_simps = run_simps flux_demo_world_def flux_demo_image_def flux_step_def run_flux_def image_of_def quota_at_def
  GetImageByTaskId_def getImageByTaskIdWithRetry_def finish_image_def charge_and_reply_def UpdateIfNotTerminal_def final_image_def
  ChargeOnSuccess_def DecreaseUserQuota_def decreaseUserQuota0_def add_quota_def UpdateUserUsedQuotaAndRequestCount_def
  updateUserUsedQuotaAndRequestCount0_def add_used_def add_requests_def UpdateChannelUsedQuota_def updateChannelUsedQuota_def
  RecordConsumeLogWithOtherAndRequestID_def RecordLog_def exec_global_def LogTypeConsume_def task_status_defs numeral_3_eq_3

lemma flux_demo_run: "quota_at (w_db (run_flux flux_demo_env flux_demo_events flux_demo_world)) 1 = Some 700"
  by (simp add: flux_run_simps flux_demo_events_def HandleCallback_def flux_demo_ready_def notify_image_def upstream_ready
     handleSuccessCallback_def MirrorResultURL_def flux_demo_env_def Let_def runFluxReconcile_def ExpireStuckFluxImages_def
     GetStuckFluxImages_def fluxReconcileExpireSecs_def)

text \<open>Two webhooks of which the second works on the row as it was before the first, and a round: one charge.\<close>

theorem flux_charged_once_witness:
  "(\<exists>S. finite S \<and>
    (\<forall>k\<in>S. \<exists>a b. image_of (w_db flux_demo_world) k = Some a \<and> \<not> final_image a \<and>
       image_of (w_db (run_flux flux_demo_env flux_demo_events flux_demo_world)) k = Some b \<and>
       i_status b = TaskStatusSucceed \<and> 0 < i_quota b) \<and>
    (\<forall>uid. quota_at (w_db (run_flux flux_demo_env flux_demo_events flux_demo_world)) uid =
       map_option (\<lambda>x. x - owed (w_db (run_flux flux_demo_env flux_demo_events flux_demo_world)) S uid)
         (quota_at (w_db flux_demo_world) uid))) \<and>
   quota_at (w_db flux_demo_world) 1 = Some 1000 \<and>
   quota_at (w_db (run_flux flux_demo_env flux_demo_events flux_demo_world)) 1 = Some 700"
  using flux_charged_once [OF flux_demo_facts(1-3), of flux_demo_env] flux_demo_run
  by (simp add: flux_demo_world_def run_simps quota_at_def)

definition flux_demo_poll :: flux_poll where
  "flux_demo_poll = \<lparr>fp_status = ''Ready'', fp_sample = Some ''u'', fp_text = (\<lambda>_. ''json'')\<rparr>"

theorem reconciled_image_never_charged_witness:
  "(\<exists>b. image_of (w_db (snd (reconcileBFLImage flux_demo_env flux_demo_image (Some flux_demo_poll) flux_demo_world))) 7 = Some b \<and>
      i_status b = TaskStatusSucceed \<and> i_quota b = i_quota flux_demo_image) \<and>
   quota_at (w_db (run_flux flux_demo_env [LateWebhook flux_demo_ready ''raw'' ''t1'' flux_demo_image]
     (snd (reconcileBFLImage flux_demo_env flux_demo_image (Some flux_demo_poll) flux_demo_world)))) = quota_at (w_db flux_demo_world)"
proof (rule reconciled_image_never_charged [where url = "''u''"])
  show "reconcileBFLImage flux_demo_env flux_demo_image (Some flux_demo_poll) flux_demo_world =
    (fst (reconcileBFLImage flux_demo_env flux_demo_image (Some flux_demo_poll) flux_demo_world),
     snd (reconcileBFLImage flux_demo_env flux_demo_image (Some flux_demo_poll) flux_demo_world))" by simp
  show "list_all (real_event (w_db flux_demo_world)) [LateWebhook flux_demo_ready ''raw'' ''t1'' flux_demo_image]"
    using flux_demo_facts(3) by (simp add: flux_demo_events_def)
qed (use flux_demo_facts in \<open>simp_all add: flux_demo_poll_def upstream_ready late_about_def flux_demo_image_def\<close>)

end
