(* ===== verification/QuotaConvert.thy ===== *)
theory QuotaConvert
  imports Quota
begin

text \<open>
  \<open>AmountToQuota\<close> of \<open>model/quota_convert.go\<close> is exact on the amounts that payments carry: whole
  cents, converted to the main unit by a floating-point division, give the quota that exact
  arithmetic gives. The truncation it replaced would lose one unit on such amounts.
\<close>

lemma f_lo_small: "f_lo \<le> 1 / 1000"
proof -
  have "(2 :: real) ^ 10 \<le> 2 ^ 1000" by (rule power_increasing) auto
  then have "1 / (2 :: real) ^ 1000 \<le> 1 / 2 ^ 10" by (intro divide_left_mono) auto
  then show ?thesis by (simp add: f_lo_def powi_neg)
qed

lemma f_hi_big: "2 ^ 60 < f_hi"
proof -
  have "(2 :: real) ^ 60 < 2 ^ 1000" by (rule power_strict_increasing) auto
  then show ?thesis by (simp add: f_hi_def powi_nat)
qed

lemma cents_quotient:
  assumes "0 < c" "c < 2 ^ 53"
  shows "\<exists>q. fpos (fdiv (f_of_int (int c)) (f_of_int 100)) q \<and>
    \<bar>q - real c / 100\<bar> \<le> real c / 100 * 2 powi (- 53)"
proof -
  have "real c < real (2 ^ 53)" using assms(2) by (simp only: of_nat_less_iff)
  then have "real c / 100 < 2 ^ 60" by simp
  then have hi: "real c / 100 < f_hi" using f_hi_big by linarith
  have "1 / 1000 \<le> real c / 100" using assms(1) by simp
  then have lo: "f_lo \<le> real c / 100" using f_lo_small by linarith
  from fdiv_pos_error [OF fpos_int [OF assms] fpos_int [of 100]] hi lo show ?thesis by simp
qed

lemma cents_product:
  assumes "0 < c" "c < 2 ^ 53" "0 < U" "U < 2 ^ 53" "real c / 100 * real U < 2 ^ 50"
  shows "\<exists>p. fpos (fmul (fdiv (f_of_int (int c)) (f_of_int 100)) (f_of_int (int U))) p \<and>
    \<bar>p - real c / 100 * real U\<bar> < 1 / 2"
proof -
  obtain q where q: "fpos (fdiv (f_of_int (int c)) (f_of_int 100)) q"
      "\<bar>q - real c / 100\<bar> \<le> real c / 100 * 2 powi (- 53)"
    using cents_quotient [OF assms(1,2)] by blast
  define v where "v = real c / 100"
  have v: "0 < v" "1 / 100 \<le> v" using assms(1) by (auto simp: v_def)
  have "v * 2 powi (- 53) \<le> v * (1 / 2)"
    using v(1) by (intro mult_left_mono) (auto simp: powi_neg)
  then have "\<bar>q - v\<bar> \<le> v * (1 / 2)" using q(2) unfolding v_def by (rule order_trans [rotated])
  then have qb: "v / 2 \<le> q" "q \<le> 2 * v" by linarith+
  have u: "1 \<le> real U" using assms(3) by simp
  have "q * real U \<le> 2 * v * real U" using qb u by (intro mult_right_mono) auto
  then have hi: "q * real U < f_hi" using assms(5) f_hi_big by (simp add: v_def)
  have "q * 1 \<le> q * real U" using u qb v by (intro mult_left_mono) auto
  then have lo: "f_lo \<le> q * real U" using qb v f_lo_small by linarith
  obtain p where p: "fpos (fmul (fdiv (f_of_int (int c)) (f_of_int 100)) (f_of_int (int U))) p"
      "\<bar>p - q * real U\<bar> \<le> q * real U * 2 powi (- 53)"
    using fmul_pos_error [OF q(1) fpos_int [OF assms(3,4)] hi lo] by blast
  have "\<bar>p - v * real U\<bar> \<le> v * real U * (3 * 2 powi (- 53))"
    using two_roundings [of v q "real U" p] v q(2) p(2) u by (simp add: v_def)
  also have "\<dots> \<le> 2 ^ 50 * (3 * 2 powi (- 53))"
    using assms(5) unfolding v_def by (intro mult_right_mono) auto
  also have "\<dots> < 1 / 2" by (simp add: powi_neg)
  finally show ?thesis using p(1) by (auto simp: v_def)
qed

text \<open>
  An amount of \<open>c\<close> cents, turned into the main unit by \<open>float64(c) / 100\<close>, converts to
  exactly \<open>c * QuotaPerUnit / 100\<close> quota whenever that is a whole number below \<open>2 ^ 50\<close>, for
  every integral \<open>QuotaPerUnit\<close>.
\<close>

theorem AmountToQuota_cents:
  assumes "cfg_quota_per_unit cfg = f_of_int (int U)"
    and "0 < c" "c < 2 ^ 53" "0 < U" "U < 2 ^ 53" "c * U = 100 * N" "N < 2 ^ 50"
  shows "AmountToQuota cfg (fdiv (f_of_int (int c)) (f_of_int 100)) = int N"
proof -
  have r: "real c / 100 * real U = real N"
  proof -
    have "real c * real U = real (c * U)" by simp
    also have "\<dots> = 100 * real N" unfolding assms(6) by simp
    finally show ?thesis by simp
  qed
  have N: "real N < 2 ^ 50" using assms(7) by simp
  obtain q where q: "fpos (fdiv (f_of_int (int c)) (f_of_int 100)) q"
    using cents_quotient [OF assms(2,3)] by blast
  obtain p where p: "fpos (fmul (fdiv (f_of_int (int c)) (f_of_int 100)) (f_of_int (int U))) p"
      "\<bar>p - real N\<bar> < 1 / 2"
    using cents_product [OF assms(2-5)] N unfolding r by blast
  have "in_int64 (int N)" using assms(7) by (simp add: in_int64_def min_int64_def max_int64_def)
  from fpos_round [OF p(1) this] p(2)
  have "f_to_int64 (math_round (fmul (fdiv (f_of_int (int c)) (f_of_int 100)) (f_of_int (int U)))) = int N"
    by simp
  then show ?thesis
    using fpos_not_le_zero [OF q] fpos_not_le_zero [OF fpos_int [OF assms(4,5)]]
    by (simp add: AmountToQuota_def assms(1))
qed

theorem AmountToQuota_cents_witness:
  "AmountToQuota default_config (fdiv (f_of_int 820) (f_of_int 100)) = 4100000"
  using AmountToQuota_cents [of default_config 500000 820 4100000]
  by (simp add: default_config_def)

end
