(* ===== verification/VideoTasks.thy ===== *)
theory VideoTasks
  imports MediaTables VideoPrice Json TextBilling
begin

text \<open>
  Videos of three providers: Wan of Ali (\<open>controller/ali_video.go\<close>), Doubao (\<open>controller/doubao_video.go\<close>)
  and Grok (\<open>relay/controller/directvideo_xai.go\<close>, \<open>relay/channel/xai/video_native.go\<close>,
  \<open>controller/xai_video_poller.go\<close>). A creation is paid in advance and leaves a row; client queries, the
  poller and, for Doubao, a callback move the row to its final status and refund what a failed video
  cost. Answers of the providers are arguments, already decoded; a refund that the code starts in a
  goroutine is part of the step that starts it. Loops of a poller run one task after the other.
\<close>

section \<open>What is shared\<close>

text \<open>What a client gets: an error with its type and status, or the answer of the provider.\<close>

datatype video_reply = Refused string string int | Forwarded int string | Stored video | Quiet

definition GetUsernameById :: "int \<Rightarrow> string op" where
  "GetUsernameById i =
     on_result (query (\<lambda>d. case user_of d i of None \<Rightarrow> [] | Some u \<Rightarrow> u_username u))
       (\<lambda>r. ret (case r of Inl _ \<Rightarrow> [] | Inr s \<Rightarrow> s))"

definition blank_video :: video where
  "blank_video = \<lparr>v_id = 0, v_task_id = [], v_prompt = [], v_created_at = 0, v_updated_at = 0, v_total_duration = 0, v_type = [],
     v_provider = [], v_mode = [], v_duration = [], v_resolution = [], v_username = [], v_channel_id = 0, v_user_id = 0,
     v_model = [], v_status = [], v_fail_reason = [], v_video_id = [], v_store_url = [], v_quota = 0, v_n = 0,
     v_credentials = [], v_result = [], v_callback_url = [], v_callback_status = [], v_callback_time = 0, v_callback_error = [],
     v_sound = [], v_voice_list = []\<rparr>"

text \<open>\<open>if err := PostConsumeTokenQuota(...); err != nil { log }\<close> and the refresh of the cached balance.\<close>

definition pay_in_advance :: "int \<Rightarrow> int \<Rightarrow> int \<Rightarrow> unit op" where
  "pay_in_advance tid uid quota =
     on_result (PostConsumeTokenQuota tid quota) (\<lambda>r.
       if r = Inl Panic then fail Panic else ignore_err (CacheUpdateUserQuota uid))"

section \<open>Wan\<close>

record ali_output =
  ao_task_id :: string
  ao_status :: string
  ao_url :: string
  ao_code :: string
  ao_message :: string

record ali_query =
  aq_output :: "ali_output option"
  aq_message :: string

record ali_created =
  ac_code :: string
  ac_task_id :: "string option"

record ali_billing =
  ab_name :: string
  ab_type :: string
  ab_seconds :: string
  ab_size :: string
  ab_prompt :: string

definition mapAliWanStatus :: "string \<Rightarrow> string" where
  "mapAliWanStatus s =
     (if s = ''SUCCEEDED'' then ''succeed''
      else if s = ''FAILED'' \<or> s = ''UNKNOWN'' \<or> s = ''CANCELED'' then ''failed'' else ''processing'')"

definition obj_field :: "string \<Rightarrow> json \<Rightarrow> json option" where
  "obj_field k v = (case v of JObj m \<Rightarrow> map_of (rev m) k | _ \<Rightarrow> None)"

definition text_or :: "string \<Rightarrow> json option \<Rightarrow> string" where
  "text_or dflt v = (case v of Some (JStr s) \<Rightarrow> if s \<noteq> [] then s else dflt | _ \<Rightarrow> dflt)"

text \<open>\<open>trunc\<close> is the integer part of the number a JSON text denotes.\<close>

definition parseAliWanBillingInfo :: "(string \<Rightarrow> int) \<Rightarrow> string \<Rightarrow> string \<Rightarrow> ali_billing" where
  "parseAliWanBillingInfo trunc body meta_model =
     (let info = \<lparr>ab_name = meta_model, ab_type = ''text-to-video'', ab_seconds = ''5'', ab_size = ''1080P'', ab_prompt = []\<rparr>
      in case json_parse body of
           Some (JObj m) \<Rightarrow>
             (let req = JObj m;
                  input = (case obj_field ''input'' req of Some (JObj i) \<Rightarrow> JObj i | _ \<Rightarrow> JObj []);
                  info1 = info\<lparr>ab_name := text_or meta_model (obj_field ''model'' req),
                    ab_type := (if text_or [] (obj_field ''img_url'' input) \<noteq> [] then ''image-to-video'' else ''text-to-video''),
                    ab_prompt := text_or [] (obj_field ''prompt'' input)\<rparr>
              in case obj_field ''parameters'' req of
                   Some (JObj ps) \<Rightarrow>
                     (let p = JObj ps;
                          seconds = (case obj_field ''duration'' p of
                             Some (JNum t) \<Rightarrow> itoa (trunc t) | v \<Rightarrow> text_or ''5'' v);
                          resolution = text_or [] (obj_field ''resolution'' p);
                          sz = text_or [] (obj_field ''size'' p)
                      in info1\<lparr>ab_seconds := seconds,
                           ab_size := (if resolution \<noteq> [] then to_upper resolution
                                       else if sz \<noteq> [] then inferResolutionFromSize sz else ''1080P'')\<rparr>)
                 | _ \<Rightarrow> info1)
         | _ \<Rightarrow> info)"

record video_env =
  ve_rules :: "video_rule list"
  ve_rate :: f64
  ve_trunc :: "string \<Rightarrow> int"
  ve_pricing :: pricing

definition parseAliWanRequest :: "video_env \<Rightarrow> relay_meta \<Rightarrow> gerr + string \<Rightarrow> (ali_billing \<times> int) op" where
  "parseAliWanRequest env m body =
     (case body of
        Inl e \<Rightarrow> fail (Msg (''read_body_failed: '' @ error_text e))
      | Inr b \<Rightarrow> reading (\<lambda>w.
          let info = parseAliWanBillingInfo (ve_trunc env) b (rm_actual m);
              quota = CalculateVideoQuota (ve_rules env) (ve_rate env) (cfg_quota_per_unit (w_cfg w))
                \<lparr>vs_model = ab_name info, vs_type = ab_type info, vs_mode = [], vs_duration = ab_seconds info,
                 vs_resolution = ab_size info, vs_sound = []\<rparr>
          in on_result (CacheGetUserQuota (rm_user_id m)) (\<lambda>r. case r of
               Inl e \<Rightarrow> fail (Msg (''get_quota_failed: '' @ error_text e))
             | Inr user_quota \<Rightarrow>
                 if user_quota < quota then fail (Msg ''insufficient_quota'')
                 else on_result (GetChannelById (rm_channel_id m) True) (\<lambda>c. case c of
                     Inl e \<Rightarrow> fail (Msg (''get_channel_failed: '' @ error_text e))
                   | Inr _ \<Rightarrow> ret (info, quota)))))"

definition classifyAliWanError :: "gerr \<Rightarrow> string \<times> int" where
  "classifyAliWanError e =
     (let msg = error_text e
      in if str_contains msg ''insufficient_quota'' then (''insufficient_quota'', 402)
         else if str_contains msg ''get_quota'' \<or> str_contains msg ''get_channel'' then (''server_error'', 500)
         else (''invalid_request'', 400))"

text \<open>The answer to a creation: its status, the body or the error of reading it, the body decoded.\<close>

record 'c created =
  cr_status :: int
  cr_body :: "gerr + string"
  cr_parsed :: "'c option"

definition RelayAliVideoCreate ::
    "video_env \<Rightarrow> relay_meta \<Rightarrow> gerr + string \<Rightarrow> gerr + ali_created created \<Rightarrow> video_reply op" where
  "RelayAliVideoCreate env m body answer =
     on_result (parseAliWanRequest env m body) (\<lambda>r. case r of
       Inl e \<Rightarrow> (case classifyAliWanError e of (ty, code) \<Rightarrow> ret (Refused (error_text e) ty code))
     | Inr (info, quota) \<Rightarrow>
         (case answer of
            Inl e \<Rightarrow> ret (Refused (error_text e) ''upstream_request_failed'' 502)
          | Inr a \<Rightarrow>
              (case cr_body a of
                 Inl e \<Rightarrow> ret (Refused (error_text e) ''read_upstream_response_failed'' 500)
               | Inr b \<Rightarrow>
                   (case cr_parsed a of
                      None \<Rightarrow> ret (Forwarded (cr_status a) b)
                    | Some c \<Rightarrow>
                        if ac_code c \<noteq> [] then ret (Forwarded (cr_status a) b)
                        else then_do (pay_in_advance (rm_token_id m) (rm_user_id m) quota)
                          (on_ok (GetUsernameById (rm_user_id m)) (\<lambda>name.
                             then_do (ignore_err (Video_Insert (blank_video\<lparr>
                               v_task_id := (case ac_task_id c of None \<Rightarrow> [] | Some t \<Rightarrow> t), v_provider := ''ali-wan'',
                               v_model := ab_name info, v_type := ab_type info, v_duration := ab_seconds info,
                               v_resolution := ab_size info, v_prompt := ab_prompt info, v_status := ''processing'', v_quota := quota,
                               v_user_id := rm_user_id m, v_username := name, v_channel_id := rm_channel_id m\<rparr>)))
                             (ret (Forwarded (cr_status a) b))))))))"

definition buildAliWanFailMessage :: "ali_query \<Rightarrow> string" where
  "buildAliWanFailMessage q =
     (let rest = (if aq_message q \<noteq> [] then aq_message q else ''task failed'')
      in case aq_output q of
           None \<Rightarrow> rest
         | Some out \<Rightarrow>
             if ao_code out \<noteq> [] \<and> ao_message out \<noteq> [] then ''['' @ ao_code out @ ''] '' @ ao_message out
             else if ao_message out \<noteq> [] then ao_message out else rest)"

definition compensateAliWanTask :: "video \<Rightarrow> unit op" where
  "compensateAliWanTask v = (if v_quota v \<le> 0 then ret () else ignore_err (IncreaseUserQuota (v_user_id v) (v_quota v)))"

definition ali_columns :: "ali_query \<Rightarrow> ali_output \<Rightarrow> int \<Rightarrow> video \<Rightarrow> video" where
  "ali_columns q out now r =
     (let db = mapAliWanStatus (ao_status out); r1 = r\<lparr>v_status := db, v_updated_at := now\<rparr>;
          r2 = (if ao_status out = ''SUCCEEDED'' \<and> ao_url out \<noteq> [] then r1\<lparr>v_store_url := ao_url out\<rparr> else r1)
      in if db = ''failed'' then r2\<lparr>v_fail_reason := buildAliWanFailMessage q\<rparr> else r2)"

definition updateAliWanTaskStatus :: "string \<Rightarrow> video \<Rightarrow> ali_query \<Rightarrow> ali_output \<Rightarrow> unit op" where
  "updateAliWanTaskStatus task v q out =
     (let db = mapAliWanStatus (ao_status out)
      in if db = v_status v then ret ()
         else reading (\<lambda>w. on_result (update_videos (\<lambda>r. v_task_id r = task) (ali_columns q out (w_now w))) (\<lambda>u. case u of
             Inl _ \<Rightarrow> ret ()
           | Inr _ \<Rightarrow> if db = ''failed'' \<and> v_status v = ''processing'' then compensateAliWanTask v else ret ())))"

definition pollSingleAliWanTask :: "video \<Rightarrow> (channel \<Rightarrow> ali_query option) \<Rightarrow> unit op" where
  "pollSingleAliWanTask v answer =
     on_result (GetChannelById (v_channel_id v) True) (\<lambda>c. case c of
       Inl _ \<Rightarrow> ret ()
     | Inr ch \<Rightarrow> (case answer ch of
         None \<Rightarrow> ret ()
       | Some q \<Rightarrow> (case aq_output q of None \<Rightarrow> ret () | Some out \<Rightarrow> updateAliWanTaskStatus (v_task_id v) v q out)))"

primrec do_all :: "unit op list \<Rightarrow> unit op" where
  "do_all [] = ret ()"
| "do_all (f # fs) = then_do (ignore_err f) (do_all fs)"

definition pollAliWanTasks :: "(video \<Rightarrow> channel \<Rightarrow> ali_query option) \<Rightarrow> unit op" where
  "pollAliWanTasks answer =
     on_result (query (\<lambda>d. filter (\<lambda>v. v_provider v = ''ali-wan'' \<and> v_status v = ''processing'') (d_videos d))) (\<lambda>r. case r of
       Inl _ \<Rightarrow> ret () | Inr vs \<Rightarrow> do_all (map (\<lambda>v. pollSingleAliWanTask v (answer v)) vs))"

text \<open>The channel a query goes to: that of the user's own task with the identifier at the end of the path.\<close>

definition bound_channel_of :: "int option \<Rightarrow> channel option op" where
  "bound_channel_of i =
     (case i of
        None \<Rightarrow> ret None
      | Some j \<Rightarrow> if j = 0 then ret None
          else on_result (GetChannelById j True) (\<lambda>c. ret (case c of Inl _ \<Rightarrow> None | Inr ch \<Rightarrow> Some ch)))"

definition resolveChannelForTaskQuery :: "string \<Rightarrow> int \<Rightarrow> channel option op" where
  "resolveChannelForTaskQuery path uid =
     (let task = last (split_on (CHR ''/'') (rev (dropWhile (\<lambda>c. c = CHR ''/'') (rev path))))
      in if task = [] \<or> \<not> looksLikeTaskID task then ret None
         else on_result (GetVideoTaskByIdAndUserId task uid) (\<lambda>r.
           on_ok (bound_channel_of (case r of Inl _ \<Rightarrow> None | Inr v \<Rightarrow> Some (v_channel_id v))) (\<lambda>c. case c of
             Some ch \<Rightarrow> ret (Some ch)
           | None \<Rightarrow> on_result (GetImageByTaskIdAndUserId task uid) (\<lambda>r2.
               bound_channel_of (case r2 of Inl _ \<Rightarrow> None | Inr im \<Rightarrow> Some (i_channel_id im))))))"

text \<open>A client's query; \<open>answer\<close> is what the provider sends for the channel asked.\<close>

definition RelayAliVideoResult ::
    "relay_meta \<Rightarrow> string \<Rightarrow> string \<Rightarrow> (channel \<Rightarrow> gerr + int \<times> string \<times> ali_query option) \<Rightarrow> video_reply op" where
  "RelayAliVideoResult m path task answer =
     on_result (GetVideoTaskById task) (\<lambda>r. case r of
       Inl _ \<Rightarrow> ret (Refused (''task not found: '' @ task) ''task_not_found'' 404)
     | Inr v \<Rightarrow>
         if v_status v = ''succeed'' \<and> v_store_url v \<noteq> [] then ret (Stored v)
         else on_result (GetChannelById (rm_channel_id m) True) (\<lambda>c. case c of
             Inl e \<Rightarrow> ret (Refused (error_text e) ''get_channel_failed'' 500)
           | Inr ch \<Rightarrow> on_ok (resolveChannelForTaskQuery path (rm_user_id m)) (\<lambda>b.
               let asked = (case b of Some ch' \<Rightarrow> ch' | None \<Rightarrow> ch)
               in case answer asked of
                    Inl e \<Rightarrow> ret (Refused (error_text e) ''upstream_request_failed'' 502)
                  | Inr (status, body, parsed) \<Rightarrow>
                      then_do (case parsed of
                          None \<Rightarrow> ret ()
                        | Some q \<Rightarrow> (case aq_output q of None \<Rightarrow> ret () | Some out \<Rightarrow> updateAliWanTaskStatus task v q out))
                        (ret (Forwarded status body)))))"

section \<open>Doubao\<close>

record doubao_result =
  dr_id :: string
  dr_status :: string
  dr_error :: "(string \<times> string) option"
  dr_url :: "string option"
  dr_text :: string

record doubao_created =
  dc_id :: string
  dc_failed :: bool

definition mapDoubaoStatus :: "string \<Rightarrow> string" where
  "mapDoubaoStatus s =
     (if s = ''succeeded'' then ''succeed''
      else if s = ''failed'' \<or> s = ''cancelled'' \<or> s = ''expired'' then ''failed'' else ''processing'')"

text \<open>The kind and the text of the parts of a request; one field of a wrong type spoils the whole.\<close>

definition decode_part :: "json \<Rightarrow> (string \<times> string) option" where
  "decode_part v =
     (case v of
        JNull \<Rightarrow> Some ([], [])
      | JObj m \<Rightarrow>
          (case decode_field decode_string ''type'' [] m of
             None \<Rightarrow> None
           | Some ty \<Rightarrow> map_option (\<lambda>t. (ty, t)) (decode_field decode_string ''text'' [] m))
      | _ \<Rightarrow> None)"

definition decode_parts :: "(string \<times> string) list \<Rightarrow> json \<Rightarrow> (string \<times> string) list option" where
  "decode_parts old v = (case v of JNull \<Rightarrow> Some [] | JArr vs \<Rightarrow> all_some (map decode_part vs) | _ \<Rightarrow> None)"

definition parseDoubaoRequestMeta :: "string \<Rightarrow> string \<times> string" where
  "parseDoubaoRequestMeta body =
     (case json_parse body of
        Some (JObj m) \<Rightarrow>
          (case (decode_field decode_string ''model'' [] m, decode_field decode_parts ''content'' [] m) of
             (Some model, Some parts) \<Rightarrow>
               (if model = [] then ''doubao-unknown'' else model,
                case List.find (\<lambda>p. fst p = ''text'' \<and> snd p \<noteq> []) parts of None \<Rightarrow> [] | Some p \<Rightarrow> snd p)
           | _ \<Rightarrow> (''doubao-unknown'', []))
      | _ \<Rightarrow> (''doubao-unknown'', []))"

text \<open>The body goes to the provider with the callback address in it; the row is written from that body.\<close>

definition RelayDoubaoVideoCreate ::
    "video_env \<Rightarrow> relay_meta \<Rightarrow> gerr + string \<Rightarrow> (string \<Rightarrow> string) \<Rightarrow> gerr + doubao_created created \<Rightarrow> video_reply op" where
  "RelayDoubaoVideoCreate env m body inject answer =
     (case body of
        Inl e \<Rightarrow> ret (Refused (error_text e) ''read_body_failed'' 400)
      | Inr b \<Rightarrow> reading (\<lambda>w.
          let quota = CalcPrePayQuota (ve_rate env) (cfg_quota_per_unit (w_cfg w))
          in on_result (CacheGetUserQuota (rm_user_id m)) (\<lambda>r. case r of
             Inl e \<Rightarrow> ret (Refused (error_text e) ''get_quota_failed'' 500)
           | Inr user_quota \<Rightarrow>
             if user_quota < quota then ret (Refused ''insufficient quota'' ''insufficient_quota'' 402)
             else on_result (GetChannelById (rm_channel_id m) True) (\<lambda>c. case c of
               Inl e \<Rightarrow> ret (Refused (error_text e) ''get_channel_failed'' 500)
             | Inr _ \<Rightarrow>
               (case answer of
                  Inl e \<Rightarrow> ret (Refused (error_text e) ''upstream_request_failed'' 502)
                | Inr a \<Rightarrow>
                  (case cr_body a of
                     Inl e \<Rightarrow> ret (Refused (error_text e) ''read_upstream_response_failed'' 500)
                   | Inr back_body \<Rightarrow>
                     (case cr_parsed a of
                        None \<Rightarrow> ret (Forwarded (cr_status a) back_body)
                      | Some d \<Rightarrow>
                        if dc_failed d then ret (Forwarded (cr_status a) back_body)
                        else then_do (pay_in_advance (rm_token_id m) (rm_user_id m) quota)
                          (on_ok (GetUsernameById (rm_user_id m)) (\<lambda>name.
                            (case parseDoubaoRequestMeta (inject b) of (model, prompt) \<Rightarrow>
                             then_do (ignore_err (Video_Insert (blank_video\<lparr>
                               v_task_id := dc_id d, v_provider := ''doubao'', v_model := model, v_type := ''text-to-video'',
                               v_prompt := prompt, v_status := ''processing'', v_quota := quota, v_user_id := rm_user_id m,
                               v_username := name, v_channel_id := rm_channel_id m\<rparr>)))
                             (ret (Forwarded (cr_status a) back_body))))))))))))"

definition buildDoubaoFailMessage :: "doubao_result \<Rightarrow> string" where
  "buildDoubaoFailMessage r =
     (case dr_error r of
        None \<Rightarrow> ''task failed''
      | Some (code, msg) \<Rightarrow>
          if msg = [] then ''task failed'' else if code \<noteq> [] then ''['' @ code @ ''] '' @ msg else msg)"

definition compensateDoubaoTask :: "video \<Rightarrow> unit op" where
  "compensateDoubaoTask v = (if v_quota v \<le> 0 then ret () else ignore_err (IncreaseUserQuota (v_user_id v) (v_quota v)))"

definition doubao_columns :: "doubao_result \<Rightarrow> int \<Rightarrow> video \<Rightarrow> video" where
  "doubao_columns d now r =
     (let db = mapDoubaoStatus (dr_status d); r1 = r\<lparr>v_status := db, v_updated_at := now\<rparr>;
          r2 = (case dr_url d of
                  Some url \<Rightarrow> if dr_status d = ''succeeded'' \<and> url \<noteq> [] then r1\<lparr>v_store_url := url\<rparr> else r1
                | None \<Rightarrow> r1);
          r3 = (if db = ''failed'' then r2\<lparr>v_fail_reason := buildDoubaoFailMessage d\<rparr> else r2)
      in r3\<lparr>v_result := dr_text d\<rparr>)"

definition updateDoubaoTaskStatus :: "string \<Rightarrow> video \<Rightarrow> doubao_result \<Rightarrow> unit op" where
  "updateDoubaoTaskStatus task v d =
     (let db = mapDoubaoStatus (dr_status d)
      in if db = v_status v then ret ()
         else reading (\<lambda>w. on_result (update_videos (\<lambda>r. v_task_id r = task) (doubao_columns d (w_now w))) (\<lambda>u. case u of
             Inl _ \<Rightarrow> ret ()
           | Inr _ \<Rightarrow> if db = ''failed'' \<and> v_status v = ''processing'' then compensateDoubaoTask v else ret ())))"

definition RelayDoubaoVideoResult ::
    "string \<Rightarrow> (channel \<Rightarrow> gerr + int \<times> string \<times> doubao_result option) \<Rightarrow> video_reply op" where
  "RelayDoubaoVideoResult task answer =
     on_result (GetVideoTaskById task) (\<lambda>r. case r of
       Inl _ \<Rightarrow> ret (Refused (''task not found: '' @ task) ''task_not_found'' 404)
     | Inr v \<Rightarrow>
         if v_status v = ''succeed'' \<and> v_store_url v \<noteq> [] then ret (Stored v)
         else on_result (GetChannelById (v_channel_id v) True) (\<lambda>c. case c of
             Inl e \<Rightarrow> ret (Refused (error_text e) ''get_channel_failed'' 500)
           | Inr ch \<Rightarrow> (case answer ch of
               Inl e \<Rightarrow> ret (Refused (error_text e) ''upstream_request_failed'' 502)
             | Inr (status, body, parsed) \<Rightarrow>
                 then_do (case parsed of None \<Rightarrow> ret () | Some d \<Rightarrow> updateDoubaoTaskStatus task v d)
                   (ret (Forwarded status body)))))"

text \<open>The callback: anybody's body, decoded by \<open>parse\<close>.\<close>

definition HandleDoubaoCallback :: "(string \<Rightarrow> doubao_result option) \<Rightarrow> gerr + string \<Rightarrow> (int \<times> string) op" where
  "HandleDoubaoCallback parse body =
     (case body of
        Inl _ \<Rightarrow> ret (400, ''invalid request'')
      | Inr raw \<Rightarrow>
          (case parse raw of
             None \<Rightarrow> ret (400, ''invalid payload'')
           | Some d \<Rightarrow>
               if dr_id d = [] then ret (400, ''missing task id'')
               else on_result (GetVideoTaskById (dr_id d)) (\<lambda>r. case r of
                   Inl _ \<Rightarrow> ret (200, ''ok'')
                 | Inr v \<Rightarrow> then_do (updateDoubaoTaskStatus (dr_id d) v d) (ret (200, ''ok'')))))"

definition pollSingleDoubaoVideoTask :: "video \<Rightarrow> (channel \<Rightarrow> doubao_result option) \<Rightarrow> unit op" where
  "pollSingleDoubaoVideoTask v answer =
     on_result (GetChannelById (v_channel_id v) True) (\<lambda>c. case c of
       Inl _ \<Rightarrow> ret ()
     | Inr ch \<Rightarrow> (case answer ch of None \<Rightarrow> ret () | Some d \<Rightarrow> updateDoubaoTaskStatus (v_task_id v) v d))"

definition pollDoubaoVideoTasks :: "(video \<Rightarrow> channel \<Rightarrow> doubao_result option) \<Rightarrow> unit op" where
  "pollDoubaoVideoTasks answer =
     on_result (query (\<lambda>d. take 50 (sort_key v_id
       (filter (\<lambda>v. v_provider v = ''doubao'' \<and> v_status v = ''processing'') (d_videos d))))) (\<lambda>r. case r of
       Inl _ \<Rightarrow> ret () | Inr vs \<Rightarrow> do_all (map (\<lambda>v. pollSingleDoubaoVideoTask v (answer v)) vs))"

section \<open>Grok\<close>

record grok_result =
  gr_status :: string
  gr_url :: "string option"
  gr_seconds :: int
  gr_ticks :: "int option"
  gr_error :: string

definition mapXaiVideoStatus :: "string \<Rightarrow> string" where
  "mapXaiVideoStatus s =
     (if s = ''done'' then ''succeed'' else if s = ''failed'' then ''failed'' else if s = ''expired'' then ''expired''
      else ''processing'')"

definition xai_final :: "string \<Rightarrow> bool" where
  "xai_final s \<longleftrightarrow> s = ''succeed'' \<or> s = ''failed'' \<or> s = ''expired''"

text \<open>The message in a raw \<open>error\<close> field, a text or an object with a message.\<close>

definition extractErrorMessage :: "string \<Rightarrow> string" where
  "extractErrorMessage raw =
     (if raw = [] then []
      else case json_parse raw of
        Some JNull \<Rightarrow> []
      | Some (JStr s) \<Rightarrow> s
      | Some (JObj m) \<Rightarrow>
          (case decode_field decode_string ''message'' [] m of Some msg \<Rightarrow> if msg \<noteq> [] then msg else raw | None \<Rightarrow> raw)
      | _ \<Rightarrow> raw)"

definition ResolveAPIKey :: "video \<Rightarrow> channel \<Rightarrow> string" where
  "ResolveAPIKey v c =
     (if v_credentials v \<noteq> [] then v_credentials v
      else case List.find (\<lambda>k. k \<noteq> []) (map trim_space (split_on (CHR 0x0A) (c_key c))) of None \<Rightarrow> [] | Some k \<Rightarrow> k)"

text \<open>The lock of \<open>common/redis.go\<close>: without Redis it is free, with Redis the first holder has it for a while.\<close>

definition RedisLockAcquire :: "string \<Rightarrow> int \<Rightarrow> string \<Rightarrow> string op" where
  "RedisLockAcquire key ttl tok =
     reading (\<lambda>w.
       if \<not> cfg_redis (w_cfg w) then ret ''local''
       else on_result (redis_cmd (\<lambda>w. case live (w_now w) (w_redis w key) of
           Some _ \<Rightarrow> (Inr [], w)
         | None \<Rightarrow> (Inr tok, w\<lparr>w_redis := (w_redis w)(key \<mapsto> (tok, Some (w_now w + ttl)))\<rparr>)))
         (\<lambda>r. ret (case r of Inl _ \<Rightarrow> [] | Inr t \<Rightarrow> t)))"

definition RedisLockRelease :: "string \<Rightarrow> string \<Rightarrow> unit op" where
  "RedisLockRelease key tok =
     reading (\<lambda>w.
       if \<not> cfg_redis (w_cfg w) \<or> tok = [] \<or> tok = ''local'' then ret ()
       else ignore_err (redis_cmd (\<lambda>w. (Inr (),
         if live (w_now w) (w_redis w key) = Some tok then w\<lparr>w_redis := (w_redis w)(key := None)\<rparr> else w))))"

definition calculateActualXaiVideoQuota :: "f64 \<Rightarrow> video \<Rightarrow> grok_result \<Rightarrow> int" where
  "calculateActualXaiVideoQuota quota_per_unit v r =
     (case gr_ticks r of
        None \<Rightarrow> v_quota v
      | Some ticks \<Rightarrow>
          if ticks \<le> 0 then v_quota v
          else (let actual = f_to_int64 (fmul (fdiv (f_of_int ticks) (f_of_int 10000000000)) quota_per_unit)
                in if actual \<le> 0 then v_quota v else actual))"

definition adjustNativeVideoQuota :: "video \<Rightarrow> grok_result \<Rightarrow> video op" where
  "adjustNativeVideoQuota v r =
     reading (\<lambda>w.
       let actual = calculateActualXaiVideoQuota (cfg_quota_per_unit (w_cfg w)) v r; diff = v_quota v - actual
       in if actual \<le> 0 \<or> diff = 0 then ret v
          else if 0 < diff then
            on_result (IncreaseUserQuota (v_user_id v) diff) (\<lambda>u. case u of
              Inl _ \<Rightarrow> ret v
            | Inr _ \<Rightarrow> then_do (ignore_err (CompensateChannelQuota (v_channel_id v) diff)) (ret (v\<lparr>v_quota := actual\<rparr>)))
          else
            on_result (DecreaseUserQuota (v_user_id v) (- diff)) (\<lambda>u. case u of
              Inl _ \<Rightarrow> ret v
            | Inr _ \<Rightarrow> then_do (UpdateChannelUsedQuota (v_channel_id v) (- diff)) (ret (v\<lparr>v_quota := actual\<rparr>))))"

definition CompensateNativeVideoTask :: "string \<Rightarrow> unit op" where
  "CompensateNativeVideoTask task =
     on_result (GetVideoTaskById task) (\<lambda>r. case r of
       Inl _ \<Rightarrow> ret ()
     | Inr v \<Rightarrow>
         if v_quota v \<le> 0 then ret ()
         else on_result (CompensateVideoTaskQuota (v_user_id v) (v_quota v)) (\<lambda>u. case u of
             Inl _ \<Rightarrow> ret () | Inr _ \<Rightarrow> ignore_err (CompensateChannelQuota (v_channel_id v) (v_quota v))))"

text \<open>The row as an answer leaves it.\<close>

definition xai_row :: "string \<Rightarrow> grok_result \<Rightarrow> int \<Rightarrow> video \<Rightarrow> video" where
  "xai_row body r now v =
     (let v1 = v\<lparr>v_status := mapXaiVideoStatus (gr_status r)\<rparr>;
          v2 = (if gr_status r = ''done'' then
                  (case gr_url r of
                     None \<Rightarrow> v1
                   | Some url \<Rightarrow> if url = [] then v1
                       else if 0 < gr_seconds r then v1\<lparr>v_store_url := url, v_duration := itoa (gr_seconds r)\<rparr>
                       else v1\<lparr>v_store_url := url\<rparr>)
                else if gr_status r = ''failed'' \<and> gr_error r \<noteq> [] then v1\<lparr>v_fail_reason := gr_error r\<rparr>
                else v1)
      in v2\<lparr>v_result := body, v_total_duration := now - v_created_at v\<rparr>)"

definition xai_settle :: "string \<Rightarrow> string \<Rightarrow> grok_result \<Rightarrow> video \<Rightarrow> bool \<Rightarrow> unit op" where
  "xai_settle task body r v finishing =
     reading (\<lambda>w.
       let row = xai_row body r (w_now w) v
       in on_ok (if finishing \<and> v_status row = ''succeed'' \<and> 0 < v_quota row then adjustNativeVideoQuota row r else ret row) (\<lambda>row1.
          then_do (ignore_err (Video_Update row1))
            (if finishing \<and> v_status row1 = ''failed'' \<and> 0 < v_quota row1 then CompensateNativeVideoTask task else ret ())))"

definition UpdateNativeVideoTaskStatus :: "string \<Rightarrow> string \<Rightarrow> string \<Rightarrow> grok_result option \<Rightarrow> video \<Rightarrow> unit op" where
  "UpdateNativeVideoTaskStatus tok task body parsed v =
     (case parsed of
        None \<Rightarrow> ret ()
      | Some r \<Rightarrow>
          if xai_final (v_status v) then ret ()
          else if \<not> xai_final (mapXaiVideoStatus (gr_status r)) then xai_settle task body r v False
          else on_ok (RedisLockAcquire (''lock:xai_video_task:'' @ task) 60 tok) (\<lambda>t.
            if t = [] then ret ()
            else then_do
              (on_result (GetVideoTaskById task) (\<lambda>f. case f of
                 Inl _ \<Rightarrow> ret ()
               | Inr fresh \<Rightarrow> if xai_final (v_status fresh) then ret () else xai_settle task body r fresh True))
              (RedisLockRelease (''lock:xai_video_task:'' @ task) t)))"

text \<open>The answer of the provider to a query: status, body, the body decoded.\<close>

type_synonym grok_answer = "gerr + int \<times> string \<times> grok_result option"

definition GetXaiVideoResult :: "string \<Rightarrow> string \<Rightarrow> (string \<Rightarrow> grok_answer) \<Rightarrow> video_reply op" where
  "GetXaiVideoResult tok task answer =
     on_result (GetVideoTaskById task) (\<lambda>r. case r of
       Inl e \<Rightarrow> ret (Refused (''video task not found: '' @ error_text e) [] 404)
     | Inr v \<Rightarrow>
         if v_result v \<noteq> [] \<and> xai_final (v_status v) then ret (Forwarded 200 (v_result v))
         else on_result (GetChannelById (v_channel_id v) True) (\<lambda>c. case c of
             Inl e \<Rightarrow> ret (Refused (''failed to get channel info: '' @ error_text e) [] 500)
           | Inr ch \<Rightarrow> (case answer (ResolveAPIKey v ch) of
               Inl e \<Rightarrow> ret (Refused (error_text e) [] 500)
             | Inr (status, body, parsed) \<Rightarrow>
                 then_do (if status = 200 \<or> status = 202 then UpdateNativeVideoTaskStatus tok task body parsed v else ret ())
                   (ret (Forwarded status body)))))"

definition pollSingleXaiVideoTask :: "string \<Rightarrow> video \<Rightarrow> (string \<Rightarrow> grok_answer) \<Rightarrow> unit op" where
  "pollSingleXaiVideoTask tok v answer =
     (if v_result v \<noteq> [] \<and> xai_final (v_status v) then ret ()
      else on_result (GetChannelById (v_channel_id v) True) (\<lambda>c. case c of
        Inl _ \<Rightarrow> ret ()
      | Inr ch \<Rightarrow> (case answer (ResolveAPIKey v ch) of
          Inl _ \<Rightarrow> ret ()
        | Inr (status, body, parsed) \<Rightarrow>
            if status = 200 \<or> status = 202 then UpdateNativeVideoTaskStatus tok (v_task_id v) body parsed v else ret ())))"

definition pollXaiVideoTasks :: "string \<Rightarrow> (video \<Rightarrow> string \<Rightarrow> grok_answer) \<Rightarrow> unit op" where
  "pollXaiVideoTasks tok answer =
     on_result (query (\<lambda>d. take 20 (sort_key v_id
       (filter (\<lambda>v. v_provider v = ''xai'' \<and> (v_status v = ''processing'' \<or> v_status v = ''pending'')) (d_videos d))))) (\<lambda>r. case r of
       Inl _ \<Rightarrow> ret () | Inr vs \<Rightarrow> do_all (map (\<lambda>v. pollSingleXaiVideoTask tok v (answer v)) vs))"

definition RecordVideoConsumeLog :: "int \<Rightarrow> int \<Rightarrow> string \<Rightarrow> string \<Rightarrow> int \<Rightarrow> string \<Rightarrow> unit op" where
  "RecordVideoConsumeLog uid cid name token_name quota task =
     RecordLog uid LogTypeConsume (LogVideo name token_name quota cid task)"

text \<open>The payment of a new task; a failing one is only logged by the caller's callee.\<close>

definition handleXaiVideoBilling :: "relay_meta \<Rightarrow> int \<Rightarrow> string \<Rightarrow> unit op" where
  "handleXaiVideoBilling m quota task =
     on_result (PostConsumeTokenQuota (rm_token_id m) quota) (\<lambda>r.
       if r = Inl Panic then fail Panic
       else if r \<noteq> Inr () then ret ()
       else then_do (ignore_err (CacheUpdateUserQuota (rm_user_id m)))
         (if quota \<noteq> 0 then
            then_do (RecordVideoConsumeLog (rm_user_id m) (rm_channel_id m) (rm_origin m) (rm_token_name m) quota task)
           (then_do (UpdateUserUsedQuotaAndRequestCount (rm_user_id m) quota)
                    (UpdateChannelUsedQuota (rm_channel_id m) quota))
          else ret ()))"

text \<open>The row of a new Grok video; \<open>key\<close> is the key that was used.\<close>

definition CreateXaiVideoLog :: "relay_meta \<Rightarrow> string \<Rightarrow> string \<Rightarrow> string \<Rightarrow> string \<Rightarrow> string \<Rightarrow> int \<Rightarrow> video op" where
  "CreateXaiVideoLog m key task endpoint duration resolution quota =
     on_ok (GetUsernameById (rm_user_id m)) (\<lambda>name. Video_Insert (blank_video\<lparr>v_prompt := ''prompt'', v_task_id := task,
       v_provider := ''xai'', v_username := name, v_channel_id := rm_channel_id m, v_user_id := rm_user_id m, v_mode := endpoint,
       v_type := ''grok-video'', v_model := rm_origin m, v_duration := duration, v_resolution := resolution, v_video_id := task,
       v_quota := quota, v_credentials := key, v_status := ''processing''\<rparr>))"

record grok_params =
  gp_duration :: int
  gp_resolution :: string
  gp_image :: bool

text \<open>The answer to a new task: status, body, the identifier in it.\<close>

definition directRelayXaiVideo ::
    "pricing \<Rightarrow> relay_meta \<Rightarrow> string \<Rightarrow> string \<Rightarrow> gerr + grok_params \<Rightarrow> gerr + int \<times> string \<times> string \<Rightarrow> video_reply op" where
  "directRelayXaiVideo P m key endpoint params answer =
     (case params of
        Inl e \<Rightarrow> ret (Refused (''failed to read request body: '' @ error_text e) [] 400)
      | Inr p \<Rightarrow> reading (\<lambda>w.
          let price = CalculateNativeVideoQuota (cfg_quota_per_unit (w_cfg w)) endpoint (gp_duration p) (gp_resolution p) (gp_image p);
              quota = f_to_int64 (fmul (f_of_int price) (GetModelDiscount P (BillingModelName m)))
          in on_result (CacheGetUserQuota (rm_user_id m)) (\<lambda>r. case r of
             Inl e \<Rightarrow> ret (Refused (''failed to get user quota: '' @ error_text e) [] 500)
           | Inr user_quota \<Rightarrow>
             if wrap64 (user_quota - quota) < 0 then ret (Refused ''insufficient user balance'' [] 403)
             else (case answer of
               Inl e \<Rightarrow> ret (Refused (error_text e) [] 500)
             | Inr (status, body, task) \<Rightarrow>
                 then_do
                   (if (status = 200 \<or> status = 202) \<and> task \<noteq> [] then
                      then_do (handleXaiVideoBilling m quota task)
                        (ignore_err (CreateXaiVideoLog m key task endpoint (NativeDurationStr endpoint (gp_duration p))
                           (if gp_resolution p = [] then ''480p'' else gp_resolution p) quota))
                    else ret ())
                   (ret (Forwarded status body))))))"

section \<open>Runs without failing statements\<close>

definition calm :: "world \<Rightarrow> bool" where
  "calm w \<longleftrightarrow> w_faults w = [] \<and> \<not> w_aborted w \<and> \<not> cfg_batch_update (w_cfg w)"

definition task_at :: "db \<Rightarrow> string \<Rightarrow> video option" where
  "task_at d task = List.find (\<lambda>v. v_task_id v = task) (d_videos d)"

definition credit :: "int \<Rightarrow> int \<Rightarrow> (int \<Rightarrow> int option) \<Rightarrow> int \<Rightarrow> int option" where
  "credit uid q f = (\<lambda>i. if i = uid then map_option (\<lambda>x. x + q) (f i) else f i)"

lemma credit_zero [simp]: "credit uid 0 f = f"
  by (simp add: credit_def fun_eq_iff option.map_ident)

lemma credit_credit [simp]: "credit uid a (credit uid b f) = credit uid (b + a) f"
  by (auto simp: credit_def fun_eq_iff option.map_comp o_def add.assoc)

lemma calm_statements:
  assumes "calm w"
  shows "update_where tbl upd p u w = (Inr (affected (w_dialect w) p u (tbl (w_db w))), w\<lparr>w_db := upd (update_rows p u) (w_db w)\<rparr>)"
    and "query f w = (Inr (f (w_db w)), w)"
    and "first tb p' w = (case List.find p' (tb (w_db w)) of None \<Rightarrow> (Inl NotFound, w) | Some x \<Rightarrow> (Inr x, w))"
  using assms by (simp_all add: calm_def update_where_reliable query_reliable first_reliable)

lemma calm_db [simp]: "calm (w\<lparr>w_db := d\<rparr>) = calm w"
  by (simp add: calm_def)

lemma calm_lookup:
  "calm w \<Longrightarrow> task_at (w_db w) task = Some v \<Longrightarrow> GetVideoTaskById task w = (Inr v, w)"
  by (simp add: GetVideoTaskById_def not_found_as_def go_simps calm_statements task_at_def)

definition add_quotas :: "int \<Rightarrow> int \<Rightarrow> db \<Rightarrow> db" where
  "add_quotas uid q d = d_users_update (update_rows (\<lambda>u. u_id u = uid) (add_quota q)) d"

lemma add_quotas_view [simp]:
  "quota_at (add_quotas uid q d) = credit uid q (quota_at d)" "d_videos (add_quotas uid q d) = d_videos d"
proof -
  have k: "u_id (add_quota x v) = u_id v" for x v by (simp add: add_quota_def)
  have "user_of (add_quotas uid q d) i = map_option (\<lambda>u. if u_id u = uid then add_quota q u else u) (user_of d i)" for i
    by (simp add: add_quotas_def user_of_def find_update_rows k)
  moreover have "u_id u = i" if "user_of d i = Some u" for i u
    using that find_SomeD unfolding user_of_def by fastforce
  ultimately show "quota_at (add_quotas uid q d) = credit uid q (quota_at d)"
    unfolding quota_at_def credit_def fun_eq_iff
    by (auto simp: add_quota_def option.map_comp o_def map_option_case split: option.splits)
qed (simp add: add_quotas_def)

lemma calm_user_quota:
  assumes "calm w" "0 \<le> q"
  shows "IncreaseUserQuota uid q w = (Inr (), w\<lparr>w_db := add_quotas uid q (w_db w)\<rparr>)"
    and "DecreaseUserQuota uid q w = (Inr (), w\<lparr>w_db := add_quotas uid (- q) (w_db w)\<rparr>)"
  using assms
  by (simp_all add: IncreaseUserQuota_def DecreaseUserQuota_def increaseUserQuota0_def decreaseUserQuota0_def stmt_def go_simps
      calm_statements add_quotas_def calm_def update_where_reliable)

section \<open>The contract of a status update\<close>

text \<open>
  What the polls of Wan and Doubao share: the status of the provider becomes that of the row, and a task
  that was being processed and has failed is refunded, by the copy of the row the poll works on.
\<close>

locale status_updates =
  fixes update :: "string \<Rightarrow> video \<Rightarrow> 'a \<Rightarrow> unit op"
    and status :: "'a \<Rightarrow> string"
  assumes same: "status a = v_status v \<Longrightarrow> update task v a w = (Inr (), w)"
    and change: "calm w \<Longrightarrow> status a \<noteq> v_status v \<Longrightarrow> task_at (w_db w) task = Some row \<Longrightarrow>
      \<exists>w' row'. update task v a w = (Inr (), w') \<and> calm w' \<and> task_at (w_db w') task = Some row' \<and>
        v_status row' = status a \<and> v_quota row' = v_quota row \<and> v_user_id row' = v_user_id row \<and>
        quota_at (w_db w') =
          (if status a = ''failed'' \<and> v_status v = ''processing''
           then credit (v_user_id v) (max 0 (v_quota v)) (quota_at (w_db w)) else quota_at (w_db w))"

text \<open>A poll: the row as it is, then the update. Several polls one after the other.\<close>

definition poll_with :: "(string \<Rightarrow> video \<Rightarrow> 'a \<Rightarrow> unit op) \<Rightarrow> string \<Rightarrow> 'a \<Rightarrow> unit op" where
  "poll_with update task a =
     on_result (GetVideoTaskById task) (\<lambda>r. case r of Inl _ \<Rightarrow> ret () | Inr v \<Rightarrow> update task v a)"

definition poll_all :: "(string \<Rightarrow> video \<Rightarrow> 'a \<Rightarrow> unit op) \<Rightarrow> string \<Rightarrow> 'a list \<Rightarrow> world \<Rightarrow> world" where
  "poll_all update task as w = fold (\<lambda>a w. snd (poll_with update task a w)) as w"

text \<open>How often a sequence of statuses goes from \<open>processing\<close> to \<open>failed\<close>.\<close>

fun failures :: "string \<Rightarrow> string list \<Rightarrow> int" where
  "failures s [] = 0"
| "failures s (t # ts) = (if s = ''processing'' \<and> t = ''failed'' then 1 else 0) + failures t ts"

context status_updates
begin

lemma status_step:
  assumes "calm w" "task_at (w_db w) task = Some row" "0 \<le> v_quota row"
  shows "\<exists>row'. calm (snd (poll_with update task a w)) \<and> task_at (w_db (snd (poll_with update task a w))) task = Some row' \<and>
    v_status row' = status a \<and> v_quota row' = v_quota row \<and> v_user_id row' = v_user_id row \<and>
    quota_at (w_db (snd (poll_with update task a w))) =
      credit (v_user_id row) (v_quota row * failures (v_status row) [status a]) (quota_at (w_db w))"
proof -
  have run: "poll_with update task a w = update task row a w"
    using assms by (simp add: poll_with_def on_result_def calm_lookup)
  show ?thesis
  proof (cases "status a = v_status row")
    case True
    with same [OF True] assms show ?thesis unfolding run by auto
  next
    case False
    from change [OF assms(1) False assms(2)] assms(3) show ?thesis unfolding run by fastforce
  qed
qed

lemma polls:
  assumes "calm w" "task_at (w_db w) task = Some row" "0 \<le> v_quota row"
  shows "\<exists>row'. calm (poll_all update task as w) \<and> task_at (w_db (poll_all update task as w)) task = Some row' \<and>
    v_status row' = last (v_status row # map status as) \<and> v_quota row' = v_quota row \<and> v_user_id row' = v_user_id row \<and>
    quota_at (w_db (poll_all update task as w)) =
      credit (v_user_id row) (v_quota row * failures (v_status row) (map status as)) (quota_at (w_db w))"
  using assms
proof (induction "as" arbitrary: w row)
  case Nil
  then show ?case by (simp add: poll_all_def)
next
  case (Cons a "as")
  let ?w = "snd (poll_with update task a w)"
  obtain row1 where r: "calm ?w" "task_at (w_db ?w) task = Some row1" "v_status row1 = status a" "v_quota row1 = v_quota row"
    "v_user_id row1 = v_user_id row"
    "quota_at (w_db ?w) = credit (v_user_id row) (v_quota row * failures (v_status row) [status a]) (quota_at (w_db w))"
    using status_step [OF Cons.prems, of a] by blast
  from Cons.IH [OF r(1,2)] r(3-6) Cons.prems(3) show ?case
    by (simp add: poll_all_def distrib_left)
qed

text \<open>Two updates that work on the same copy of the row both refund it.\<close>

lemma same_copy_twice:
  assumes "calm w" "task_at (w_db w) task = Some row" "v_status row = ''processing''" "status a = ''failed''" "0 \<le> v_quota row"
  shows "quota_at (w_db (snd (update task row a (snd (update task row a w))))) =
    credit (v_user_id row) (2 * v_quota row) (quota_at (w_db w))"
proof -
  have ne: "status a \<noteq> v_status row" using assms(3,4) by simp
  obtain w1 row1 where 1: "update task row a w = (Inr (), w1)" "calm w1" "task_at (w_db w1) task = Some row1"
    "quota_at (w_db w1) = credit (v_user_id row) (v_quota row) (quota_at (w_db w))"
    using change [OF assms(1) ne assms(2)] assms(3-5) by auto
  obtain w2 where "update task row a w1 = (Inr (), w2)"
    "quota_at (w_db w2) = credit (v_user_id row) (v_quota row) (quota_at (w_db w1))"
    using change [OF 1(2) ne 1(3)] assms(3-5) by auto
  with 1 show ?thesis by simp
qed

end

lemma failures_same: "failures s [s] = 0"
  by simp

lemma failures_run:
  assumes "s = ''succeed'' \<or> s = ''failed''" "0 < m"
  shows "failures ''processing'' (replicate n ''processing'' @ replicate m s) = (if s = ''failed'' then 1 else 0)"
    and "last (''processing'' # replicate n ''processing'' @ replicate m s) = s"
proof -
  have stay: "failures s (replicate k s) = 0" for k using assms(1) by (induction k) auto
  obtain k where m: "m = Suc k" using assms(2) by (cases m) auto
  show "failures ''processing'' (replicate n ''processing'' @ replicate m s) = (if s = ''failed'' then 1 else 0)"
    using stay [of k] assms(1) by (induction n) (auto simp: m)
  show "last (''processing'' # replicate n ''processing'' @ replicate m s) = s" using assms(2) by simp
qed

section \<open>The providers\<close>

lemma refund_runs:
  assumes "calm w"
  shows "(if q \<le> 0 then ret () else ignore_err (IncreaseUserQuota uid q)) w =
    (Inr (), w\<lparr>w_db := (if q \<le> 0 then w_db w else add_quotas uid q (w_db w))\<rparr>)"
  using assms by (cases w) (simp add: go_simps calm_user_quota)

lemma update_videos_view:
  assumes "calm w" "task_at (w_db w) task = Some row" "\<And>r. v_task_id (u r) = v_task_id r"
  shows "task_at (d_videos_update (update_rows (\<lambda>r. v_task_id r = task) u) (w_db w)) task = Some (u row)"
    and "quota_at (d_videos_update f d) = quota_at d"
proof -
  have "v_task_id row = task" using assms(2) find_SomeD unfolding task_at_def by fastforce
  then show "task_at (d_videos_update (update_rows (\<lambda>r. v_task_id r = task) u) (w_db w)) task = Some (u row)"
    using assms(2,3) by (simp add: task_at_def find_update_rows)
  show "quota_at (d_videos_update f d) = quota_at d" by (simp add: quota_at_def user_of_def fun_eq_iff)
qed

text \<open>What both updates do once the status has changed, with the columns they write.\<close>

lemma status_change:
  assumes "calm w" "task_at (w_db w) task = Some row"
    and u: "\<And>r. v_task_id (u r) = v_task_id r" "v_status (u row) = s" "v_quota (u row) = v_quota row" "v_user_id (u row) = v_user_id row"
  shows "\<exists>w' row'. (on_result (update_videos (\<lambda>r. v_task_id r = task) u) (\<lambda>x. case x of
       Inl _ \<Rightarrow> ret ()
     | Inr _ \<Rightarrow> if s = ''failed'' \<and> v_status v = ''processing''
         then (if v_quota v \<le> 0 then ret () else ignore_err (IncreaseUserQuota (v_user_id v) (v_quota v))) else ret ())) w = (Inr (), w') \<and>
     calm w' \<and> task_at (w_db w') task = Some row' \<and> v_status row' = s \<and> v_quota row' = v_quota row \<and> v_user_id row' = v_user_id row \<and>
     quota_at (w_db w') = (if s = ''failed'' \<and> v_status v = ''processing''
       then credit (v_user_id v) (max 0 (v_quota v)) (quota_at (w_db w)) else quota_at (w_db w))"
proof -
  let ?d = "d_videos_update (update_rows (\<lambda>r. v_task_id r = task) u) (w_db w)"
  note view = update_videos_view [OF assms(1,2), where u = u, OF u(1)]
  have t: "task_at (add_quotas i q d) task = task_at d task" for i q d by (simp add: task_at_def)
  show ?thesis
  proof (cases "s = ''failed'' \<and> v_status v = ''processing''")
    case True
    then show ?thesis using assms(1) u view t
      by (auto simp: on_result_def calm_statements refund_runs max_def)
  next
    case False
    then show ?thesis using assms(1) u view by (auto simp: on_result_def calm_statements)
  qed
qed

interpretation ali: status_updates "\<lambda>task v (q, out). updateAliWanTaskStatus task v q out" "\<lambda>(q, out). mapAliWanStatus (ao_status out)"
proof
  fix a :: "ali_query \<times> ali_output" and v :: video and task w
  assume "(case a of (q, out) \<Rightarrow> mapAliWanStatus (ao_status out)) = v_status v"
  then show "(case a of (q, out) \<Rightarrow> updateAliWanTaskStatus task v q out) w = (Inr (), w)"
    by (cases a) (simp add: updateAliWanTaskStatus_def)
next
  fix w task and v row :: video and a :: "ali_query \<times> ali_output"
  assume c: "calm w" "(case a of (q, out) \<Rightarrow> mapAliWanStatus (ao_status out)) \<noteq> v_status v" "task_at (w_db w) task = Some row"
  obtain q out where a: "a = (q, out)" by (cases a)
  have u: "v_task_id (ali_columns q out n r) = v_task_id r" "v_status (ali_columns q out n r) = mapAliWanStatus (ao_status out)"
    "v_quota (ali_columns q out n r) = v_quota r" "v_user_id (ali_columns q out n r) = v_user_id r" for n r
    by (simp_all add: ali_columns_def Let_def)
  have run: "updateAliWanTaskStatus task v q out w = on_result (update_videos (\<lambda>r. v_task_id r = task) (ali_columns q out (w_now w))) (\<lambda>x. case x of
       Inl _ \<Rightarrow> ret ()
     | Inr _ \<Rightarrow> if mapAliWanStatus (ao_status out) = ''failed'' \<and> v_status v = ''processing''
         then (if v_quota v \<le> 0 then ret () else ignore_err (IncreaseUserQuota (v_user_id v) (v_quota v))) else ret ()) w"
    if "mapAliWanStatus (ao_status out) \<noteq> v_status v"
    using that unfolding updateAliWanTaskStatus_def compensateAliWanTask_def reading_def Let_def by simp
  show "\<exists>w' row'. (case a of (q, out) \<Rightarrow> updateAliWanTaskStatus task v q out) w = (Inr (), w') \<and> calm w' \<and>
      task_at (w_db w') task = Some row' \<and> v_status row' = (case a of (q, out) \<Rightarrow> mapAliWanStatus (ao_status out)) \<and>
      v_quota row' = v_quota row \<and> v_user_id row' = v_user_id row \<and>
      quota_at (w_db w') = (if (case a of (q, out) \<Rightarrow> mapAliWanStatus (ao_status out)) = ''failed'' \<and> v_status v = ''processing''
        then credit (v_user_id v) (max 0 (v_quota v)) (quota_at (w_db w)) else quota_at (w_db w))"
    unfolding a prod.case run [OF c(2) [unfolded a prod.case]]
    by (rule status_change [OF c(1,3)]) (simp_all add: u)
qed

interpretation doubao: status_updates updateDoubaoTaskStatus "\<lambda>d. mapDoubaoStatus (dr_status d)"
proof
  fix a :: doubao_result and task w and v :: video
  assume "mapDoubaoStatus (dr_status a) = v_status v"
  then show "updateDoubaoTaskStatus task v a w = (Inr (), w)" by (simp add: updateDoubaoTaskStatus_def)
next
  fix w task and a :: doubao_result and v row :: video
  assume c: "calm w" "mapDoubaoStatus (dr_status a) \<noteq> v_status v" "task_at (w_db w) task = Some row"
  have u: "v_task_id (doubao_columns a n r) = v_task_id r" "v_status (doubao_columns a n r) = mapDoubaoStatus (dr_status a)"
    "v_quota (doubao_columns a n r) = v_quota r" "v_user_id (doubao_columns a n r) = v_user_id r" for n r
    by (simp_all add: doubao_columns_def Let_def split: option.split)
  have run: "updateDoubaoTaskStatus task v a w = on_result (update_videos (\<lambda>r. v_task_id r = task) (doubao_columns a (w_now w))) (\<lambda>x. case x of
       Inl _ \<Rightarrow> ret ()
     | Inr _ \<Rightarrow> if mapDoubaoStatus (dr_status a) = ''failed'' \<and> v_status v = ''processing''
         then (if v_quota v \<le> 0 then ret () else ignore_err (IncreaseUserQuota (v_user_id v) (v_quota v))) else ret ()) w"
    if "mapDoubaoStatus (dr_status a) \<noteq> v_status v"
    using that unfolding updateDoubaoTaskStatus_def compensateDoubaoTask_def reading_def Let_def by simp
  show "\<exists>w' row'. updateDoubaoTaskStatus task v a w = (Inr (), w') \<and> calm w' \<and>
      task_at (w_db w') task = Some row' \<and> v_status row' = mapDoubaoStatus (dr_status a) \<and>
      v_quota row' = v_quota row \<and> v_user_id row' = v_user_id row \<and>
      quota_at (w_db w') = (if mapDoubaoStatus (dr_status a) = ''failed'' \<and> v_status v = ''processing''
        then credit (v_user_id v) (max 0 (v_quota v)) (quota_at (w_db w)) else quota_at (w_db w))"
    unfolding run [OF c(2)] by (rule status_change [OF c(1,3)]) (simp_all add: u)
qed

section \<open>Wan: what a run of queries and polls refunds\<close>

lemma ignore_err_world: "snd (ignore_err f w) = snd (f w)"
  by (simp add: op_defs split: prod.split sum.split)

lemma calm_channel: "calm w \<Longrightarrow> snd (GetChannelById i sel w) = w"
  by (simp add: GetChannelById_def on_ok_def calm_statements ret_def split: option.split)

lemma calm_bound: "calm w \<Longrightarrow> \<exists>c. bound_channel_of i w = (Inr c, w)"
  using calm_channel [of w "the i" True]
  by (cases "GetChannelById (the i) True w") (auto simp: bound_channel_of_def on_result_def ret_def split: option.splits)

lemma calm_resolve: "calm w \<Longrightarrow> \<exists>c. resolveChannelForTaskQuery path uid w = (Inr c, w)"
proof -
  assume w: "calm w"
  have look: "\<exists>r. GetVideoTaskByIdAndUserId t uid w = (r, w)" "\<exists>r. GetImageByTaskIdAndUserId t uid w = (r, w)" for t
    using w by (auto simp: GetVideoTaskByIdAndUserId_def GetImageByTaskIdAndUserId_def not_found_as_def go_simps calm_statements
        split: option.splits)
  have bound: "\<exists>c. bound_channel_of i w = (Inr c, w)" for i using calm_bound [OF w] .
  show ?thesis
    unfolding resolveChannelForTaskQuery_def Let_def
  proof (split if_split, intro conjI impI)
    let ?t = "last (split_on CHR ''/'' (rev (dropWhile (\<lambda>c. c = CHR ''/'') (rev path))))"
    obtain r r2 where r: "GetVideoTaskByIdAndUserId ?t uid w = (r, w)" "GetImageByTaskIdAndUserId ?t uid w = (r2, w)"
      using look by blast
    obtain c where c: "bound_channel_of (case r of Inl _ \<Rightarrow> None | Inr v \<Rightarrow> Some (v_channel_id v)) w = (Inr c, w)" using bound by blast
    obtain c2 where c2: "bound_channel_of (case r2 of Inl _ \<Rightarrow> None | Inr im \<Rightarrow> Some (i_channel_id im)) w = (Inr c2, w)" using bound by blast
    show "\<exists>c. on_result (GetVideoTaskByIdAndUserId ?t uid) (\<lambda>r.
           on_ok (bound_channel_of (case r of Inl _ \<Rightarrow> None | Inr v \<Rightarrow> Some (v_channel_id v))) (\<lambda>c. case c of
             Some ch \<Rightarrow> ret (Some ch)
           | None \<Rightarrow> on_result (GetImageByTaskIdAndUserId ?t uid) (\<lambda>r2.
               bound_channel_of (case r2 of Inl _ \<Rightarrow> None | Inr im \<Rightarrow> Some (i_channel_id im))))) w = (Inr c, w)"
      by (cases c) (simp_all add: on_result_def on_ok_def r c c2 ret_def)
  qed (simp add: ret_def)
qed

text \<open>The status an answer carries, if it can be read.\<close>

definition ali_report :: "ali_query option \<Rightarrow> string option" where
  "ali_report q = (case q of None \<Rightarrow> None | Some q' \<Rightarrow> map_option (\<lambda>out. mapAliWanStatus (ao_status out)) (aq_output q'))"

text \<open>
  What can happen to a task: a client asks for it, or a round of the poller reaches it. Both read the row
  when they start.
\<close>

datatype ali_event =
    Ask relay_meta string "channel \<Rightarrow> gerr + int \<times> string \<times> ali_query option"
  | Round "channel \<Rightarrow> ali_query option"

fun ali_event_op :: "string \<Rightarrow> ali_event \<Rightarrow> unit op" where
  "ali_event_op task (Ask m path answer) = ignore_err (RelayAliVideoResult m path task answer)"
| "ali_event_op task (Round answer) =
     on_result (query (\<lambda>d. List.find (\<lambda>v. v_task_id v = task) (d_videos d))) (\<lambda>r. case r of
       Inr (Some v) \<Rightarrow> if v_status v = ''processing'' then pollSingleAliWanTask v answer else ret ()
     | _ \<Rightarrow> ret ())"

fun ali_reports :: "ali_event \<Rightarrow> string set" where
  "ali_reports (Ask m path answer) = {s. \<exists>ch status body q. answer ch = Inr (status, body, q) \<and> ali_report q = Some s}"
| "ali_reports (Round answer) = {s. \<exists>ch. ali_report (answer ch) = Some s}"

definition run_ali :: "string \<Rightarrow> ali_event list \<Rightarrow> world \<Rightarrow> world" where
  "run_ali task es w = fold (\<lambda>e w. snd (ali_event_op task e w)) es w"

text \<open>An event either leaves the world alone or applies one reported status to the row.\<close>

lemma ali_poll_effect:
  assumes "calm w"
  shows "snd (pollSingleAliWanTask v answer w) = w \<or>
    (\<exists>ch q out. answer ch = Some q \<and> aq_output q = Some out \<and>
       snd (pollSingleAliWanTask v answer w) = snd (updateAliWanTaskStatus (v_task_id v) v q out w))"
  using calm_channel [OF assms, of "v_channel_id v" True]
  by (cases "GetChannelById (v_channel_id v) True w")
     (auto simp: pollSingleAliWanTask_def on_result_def ret_def split: sum.splits option.splits)

lemma ali_ask_effect:
  assumes "calm w" "task_at (w_db w) task = Some row"
  shows "snd (RelayAliVideoResult m path task answer w) = w \<or>
    (\<exists>ch status body q out. answer ch = Inr (status, body, Some q) \<and> aq_output q = Some out \<and>
       snd (RelayAliVideoResult m path task answer w) = snd (updateAliWanTaskStatus task row q out w))"
proof -
  obtain c where c: "GetChannelById (rm_channel_id m) True w = (c, w)"
    using calm_channel [OF assms(1), of "rm_channel_id m" True] by (cases "GetChannelById (rm_channel_id m) True w") auto
  obtain b where b: "resolveChannelForTaskQuery path (rm_user_id m) w = (Inr b, w)" using calm_resolve [OF assms(1)] by blast
  obtain u where u: "updateAliWanTaskStatus task row q out w = (Inr (), u q out)" for q out
  proof -
    have "\<exists>u. updateAliWanTaskStatus task row q out w = (Inr (), u)" for q out
      using ali.same [of "(q, out)" row task w] ali.change [OF assms(1) _ assms(2), of "(q, out)" row] by auto
    then show ?thesis using that by metis
  qed
  show ?thesis
    by (auto simp: RelayAliVideoResult_def on_result_def calm_lookup [OF assms] c b on_ok_def Let_def then_do_def ret_def u
        split: sum.split option.split) blast+
qed

lemma ali_step:
  assumes "calm w" "task_at (w_db w) task = Some row" "0 \<le> v_quota row"
  shows "\<exists>row'. calm (snd (ali_event_op task e w)) \<and> task_at (w_db (snd (ali_event_op task e w))) task = Some row' \<and>
    v_quota row' = v_quota row \<and> v_user_id row' = v_user_id row \<and>
    (v_status row' = v_status row \<or> v_status row' \<in> ali_reports e) \<and>
    quota_at (w_db (snd (ali_event_op task e w))) =
      credit (v_user_id row) (v_quota row * failures (v_status row) [v_status row']) (quota_at (w_db w))"
proof -
  let ?w = "snd (ali_event_op task e w)"
  have "?w = w \<or> (\<exists>q out s. s \<in> ali_reports e \<and> s = mapAliWanStatus (ao_status out) \<and>
      ?w = snd (updateAliWanTaskStatus task row q out w))"
  proof (cases e)
    case (Ask m path answer)
    then show ?thesis using ali_ask_effect [OF assms(1,2), of m path answer]
      by (fastforce simp: ignore_err_world ali_report_def)
  next
    case (Round answer)
    have "v_task_id row = task" using assms(2) find_SomeD unfolding task_at_def by fastforce
    have "query (\<lambda>d. List.find (\<lambda>v. v_task_id v = task) (d_videos d)) w = (Inr (Some row), w)"
      using assms by (simp add: calm_statements task_at_def)
    then have run: "?w = (if v_status row = ''processing'' then snd (pollSingleAliWanTask row answer w) else w)"
      by (simp add: Round on_result_def ret_def)
    show ?thesis
      using ali_poll_effect [OF assms(1), of row answer]
    proof (elim disjE exE conjE)
      fix ch q out
      assume a: "answer ch = Some q" "aq_output q = Some out"
        "snd (pollSingleAliWanTask row answer w) = snd (updateAliWanTaskStatus (v_task_id row) row q out w)"
      then have "mapAliWanStatus (ao_status out) \<in> ali_reports e" by (auto simp: Round ali_report_def intro!: exI [of _ ch])
      then show ?thesis using a(3) run \<open>v_task_id row = task\<close> by auto
    qed (simp add: run)
  qed
  then show ?thesis
  proof (elim disjE exE conjE)
    assume "?w = w"
    then show ?thesis using assms by (auto simp: failures_same)
  next
    fix q out s
    assume s: "s \<in> ali_reports e" "s = mapAliWanStatus (ao_status out)" "?w = snd (updateAliWanTaskStatus task row q out w)"
    have "snd (poll_with (\<lambda>task v (q, out). updateAliWanTaskStatus task v q out) task (q, out) w) =
        snd (updateAliWanTaskStatus task row q out w)"
      using assms by (simp add: poll_with_def on_result_def calm_lookup)
    with ali.status_step [OF assms, of "(q, out)"] s show ?thesis by auto
  qed
qed

lemma ali_phase:
  assumes "\<And>e. e \<in> set es \<Longrightarrow> ali_reports e \<subseteq> {s}" "s = ''succeed'' \<or> s = ''failed'' \<or> s = ''processing''"
    "calm w" "task_at (w_db w) task = Some row" "0 \<le> v_quota row" "v_status row = ''processing'' \<or> v_status row = s"
  shows "\<exists>row'. calm (run_ali task es w) \<and> task_at (w_db (run_ali task es w)) task = Some row' \<and>
    v_quota row' = v_quota row \<and> v_user_id row' = v_user_id row \<and> (v_status row' = v_status row \<or> v_status row' = s) \<and>
    quota_at (w_db (run_ali task es w)) =
      credit (v_user_id row) (v_quota row * failures (v_status row) [v_status row']) (quota_at (w_db w))"
  using assms(1,3-)
proof (induction es arbitrary: w row)
  case Nil
  then show ?case by (auto simp: run_ali_def failures_same)
next
  case (Cons e es)
  let ?w = "snd (ali_event_op task e w)"
  obtain row1 where r: "calm ?w" "task_at (w_db ?w) task = Some row1" "v_quota row1 = v_quota row" "v_user_id row1 = v_user_id row"
    "v_status row1 = v_status row \<or> v_status row1 \<in> ali_reports e"
    "quota_at (w_db ?w) = credit (v_user_id row) (v_quota row * failures (v_status row) [v_status row1]) (quota_at (w_db w))"
    using ali_step [OF Cons.prems(2-4), of e] by blast
  have s1: "v_status row1 = v_status row \<or> v_status row1 = s" using r(5) Cons.prems(1) [of e] by auto
  have all: "ali_reports e' \<subseteq> {s}" if "e' \<in> set es" for e' using Cons.prems(1) that by simp
  have pos: "0 \<le> v_quota row1" and from_s: "v_status row1 = ''processing'' \<or> v_status row1 = s"
    using Cons.prems(4,5) r(3) s1 by auto
  obtain row2 where r2: "calm (run_ali task es ?w)" "task_at (w_db (run_ali task es ?w)) task = Some row2"
    "v_quota row2 = v_quota row1" "v_user_id row2 = v_user_id row1" "v_status row2 = v_status row1 \<or> v_status row2 = s"
    "quota_at (w_db (run_ali task es ?w)) =
      credit (v_user_id row1) (v_quota row1 * failures (v_status row1) [v_status row2]) (quota_at (w_db ?w))"
    using Cons.IH [OF all r(1,2) pos from_s] by blast
  have "failures (v_status row) [v_status row1] + failures (v_status row1) [v_status row2] = failures (v_status row) [v_status row2]"
    using s1 r2(5) assms(2) Cons.prems(5) by auto
  then have "quota_at (w_db (run_ali task es ?w)) =
      credit (v_user_id row) (v_quota row * failures (v_status row) [v_status row2]) (quota_at (w_db w))"
    using r2(6) r(3,4,6) by (simp add: distrib_left [symmetric] del: failures.simps)
  moreover have "run_ali task (e # es) w = run_ali task es ?w" by (simp add: run_ali_def)
  moreover have "v_status row2 = v_status row \<or> v_status row2 = s" using s1 r2(5) by auto
  ultimately show ?case using r2(1-4) r(3,4) by auto
qed

lemma run_ali_append: "run_ali task (es @ fs) w = run_ali task fs (run_ali task es w)"
  by (simp add: run_ali_def)


text \<open>
  The update of a Wan task trusts the copy of the row its caller has read: two of them, a client's query and
  a round of the poller say, that both read the row while the task was being processed and both learn
  that it has failed give its price back twice.
\<close>

theorem ali_stale_copies_refund_twice:
  assumes "calm w" "task_at (w_db w) task = Some row" "v_status row = ''processing''" "0 < v_quota row"
    and "mapAliWanStatus (ao_status out) = ''failed''"
  shows "quota_at (w_db (snd (updateAliWanTaskStatus task row q out (snd (updateAliWanTaskStatus task row q out w))))) (v_user_id row) =
      map_option (\<lambda>x. x + 2 * v_quota row) (quota_at (w_db w) (v_user_id row))"
  using ali.same_copy_twice [OF assms(1-3), of "(q, out)"] assms(4,5) by (simp add: credit_def)

section \<open>Doubao: what callbacks refund\<close>

definition callbacks :: "(string \<Rightarrow> doubao_result option) \<Rightarrow> string list \<Rightarrow> world \<Rightarrow> world" where
  "callbacks parse bodies w = fold (\<lambda>raw w. snd (HandleDoubaoCallback parse (Inr raw) w)) bodies w"

text \<open>A body about the task, and the status it claims.\<close>

definition about_task :: "(string \<Rightarrow> doubao_result option) \<Rightarrow> string \<Rightarrow> string \<Rightarrow> bool" where
  "about_task parse task raw \<longleftrightarrow> (case parse raw of None \<Rightarrow> False | Some d \<Rightarrow> dr_id d = task)"

definition claimed :: "(string \<Rightarrow> doubao_result option) \<Rightarrow> string \<Rightarrow> string" where
  "claimed parse raw = (case parse raw of None \<Rightarrow> [] | Some d \<Rightarrow> mapDoubaoStatus (dr_status d))"

lemma callback_is_poll:
  assumes "about_task parse task raw" "task \<noteq> []"
  shows "snd (HandleDoubaoCallback parse (Inr raw) w) = snd (poll_with updateDoubaoTaskStatus task (the (parse raw)) w)"
  using assms
  by (auto simp: about_task_def HandleDoubaoCallback_def poll_with_def op_defs split: option.splits prod.split sum.split)

lemma callbacks_are_polls:
  assumes "\<forall>raw\<in>set bodies. about_task parse task raw" "task \<noteq> []"
  shows "callbacks parse bodies w = poll_all updateDoubaoTaskStatus task (map (\<lambda>raw. the (parse raw)) bodies) w"
  using assms by (induction bodies arbitrary: w) (simp_all add: callbacks_def poll_all_def callback_is_poll [where task = task])

lemma claimed_is:
  "about_task parse task raw \<Longrightarrow> mapDoubaoStatus (dr_status (the (parse raw))) = claimed parse raw"
  by (auto simp: about_task_def claimed_def split: option.splits)

lemma callbacks_view:
  assumes "calm w" "task_at (w_db w) task = Some row" "0 \<le> v_quota row" "task \<noteq> []"
    and "\<forall>raw\<in>set bodies. about_task parse task raw"
  shows "(\<exists>row'. task_at (w_db (callbacks parse bodies w)) task = Some row' \<and>
      v_status row' = last (v_status row # map (claimed parse) bodies)) \<and>
    quota_at (w_db (callbacks parse bodies w)) =
      credit (v_user_id row) (v_quota row * failures (v_status row) (map (claimed parse) bodies)) (quota_at (w_db w))"
proof -
  have "map (\<lambda>raw. mapDoubaoStatus (dr_status (the (parse raw)))) bodies = map (claimed parse) bodies"
    using assms(5) by (simp add: claimed_is [where task = task])
  with doubao.polls [OF assms(1-3), of "map (\<lambda>raw. the (parse raw)) bodies"] show ?thesis
    unfolding callbacks_are_polls [OF assms(5,4)] by (auto simp: o_def)
qed

lemma failures_rounds:
  "failures ''processing'' (concat (replicate n [''failed'', ''processing''])) = int n"
  by (induction n) simp_all

text \<open>
  Callbacks about a paid Doubao task, whoever sends them: the row takes the status of the last one, and the
  price of the task is given back as often as the status goes from being processed to failed.
\<close>

theorem doubao_callbacks_refund:
  assumes "calm w" "task_at (w_db w) task = Some row" "0 \<le> v_quota row" "task \<noteq> []"
    and "\<forall>raw\<in>set bodies. about_task parse task raw"
  shows "(\<exists>row'. task_at (w_db (callbacks parse bodies w)) task = Some row' \<and>
      v_status row' = last (v_status row # map (claimed parse) bodies)) \<and>
    (\<forall>uid. quota_at (w_db (callbacks parse bodies w)) uid =
      (if uid = v_user_id row
       then map_option (\<lambda>x. x + v_quota row * failures (v_status row) (map (claimed parse) bodies)) (quota_at (w_db w) uid)
       else quota_at (w_db w) uid))"
  using callbacks_view [OF assms] by (simp add: credit_def)

text \<open>
  C15. No callback is signed and no status is final: a user who sends, about a task of their own, \<open>n\<close> times
  a failure and then that the task is running gets its price back \<open>n\<close> times.
\<close>

theorem forged_callbacks_mint_quota:
  assumes "calm w" "task_at (w_db w) task = Some row" "v_status row = ''processing''" "0 < v_quota row" "task \<noteq> []"
    and "about_task parse task bad" "claimed parse bad = ''failed''"
    and "about_task parse task running" "claimed parse running = ''processing''"
  shows "quota_at (w_db (callbacks parse (concat (replicate n [bad, running])) w)) (v_user_id row) =
    map_option (\<lambda>x. x + int n * v_quota row) (quota_at (w_db w) (v_user_id row))"
proof -
  have about: "\<forall>raw\<in>set (concat (replicate n [bad, running])). about_task parse task raw" using assms(6,8) by auto
  have "map (claimed parse) (concat (replicate n [bad, running])) = concat (replicate n [''failed'', ''processing''])"
    using assms(7,9) by (simp add: map_concat)
  with callbacks_view [OF assms(1,2) _ assms(5) about] assms(3,4) show ?thesis
    by (simp add: credit_def failures_rounds mult.commute)
qed

section \<open>Grok: a task is settled once\<close>

text \<open>A world in which only balances and channels have changed, the balance of one user by \<open>q\<close>.\<close>

definition moves :: "world \<Rightarrow> world \<Rightarrow> int \<Rightarrow> int \<Rightarrow> bool" where
  "moves w w' uid q \<longleftrightarrow> calm w' \<and> w_cfg w' = w_cfg w \<and> d_videos (w_db w') = d_videos (w_db w) \<and>
     quota_at (w_db w') = credit uid q (quota_at (w_db w))"

lemma moves_refl: "calm w \<Longrightarrow> moves w w uid 0"
  by (simp add: moves_def)

lemma moves_quota:
  assumes "calm w" "0 \<le> q"
  shows "\<exists>w'. IncreaseUserQuota uid q w = (Inr (), w') \<and> moves w w' uid q"
    and "\<exists>w'. DecreaseUserQuota uid q w = (Inr (), w') \<and> moves w w' uid (- q)"
  using assms by (simp_all add: calm_user_quota moves_def)

lemma channels_quota: "quota_at (d_channels_update f d) = quota_at d"
  by (simp add: quota_at_def user_of_def fun_eq_iff)

lemma moves_channel:
  assumes "calm w"
  shows "\<exists>w'. CompensateChannelQuota i q w = (Inr (), w') \<and> moves w w' uid 0"
    and "\<exists>w'. UpdateChannelUsedQuota i q w = (Inr (), w') \<and> moves w w' uid 0"
proof -
  show "\<exists>w'. CompensateChannelQuota i q w = (Inr (), w') \<and> moves w w' uid 0"
    using assms by (simp add: CompensateChannelQuota_def set_channel_def stmt_def go_simps calm_statements moves_def channels_quota)
  have "\<not> cfg_batch_update (w_cfg w)" using assms by (simp add: calm_def)
  then show "\<exists>w'. UpdateChannelUsedQuota i q w = (Inr (), w') \<and> moves w w' uid 0"
    using assms by (simp add: UpdateChannelUsedQuota_def updateChannelUsedQuota_def reading_def go_simps calm_statements moves_def
      channels_quota)
qed

lemma moves_task_refund:
  assumes "calm w"
  shows "\<exists>w'. CompensateVideoTaskQuota uid q w = (Inr (), w') \<and> moves w w' uid q"
proof -
  let ?u = "\<lambda>u. add_requests (- 1) (add_used (- q) (add_quota q u))"
  have k: "u_id (?u v) = u_id v" for v by (simp add: add_quota_def add_used_def add_requests_def)
  have "quota_at (d_users_update (update_rows (\<lambda>u. u_id u = uid) ?u) d) i = credit uid q (quota_at d) i" for d i
  proof (cases "List.find (\<lambda>u. u_id u = i) (d_users d)")
    case (Some u)
    then have "u_id u = i" using find_SomeD by fastforce
    with Some show ?thesis
      by (auto simp: quota_at_def user_of_def credit_def find_update_rows k add_quota_def add_used_def add_requests_def)
  qed (auto simp: quota_at_def user_of_def credit_def find_update_rows k)
  then have "quota_at (d_users_update (update_rows (\<lambda>u. u_id u = uid) ?u) d) = credit uid q (quota_at d)" for d
    by (simp add: fun_eq_iff)
  then show ?thesis
    using assms by (simp add: CompensateVideoTaskQuota_def stmt_def go_simps calm_statements moves_def)
qed

lemma moves_trans: "moves w w1 uid a \<Longrightarrow> moves w1 w2 uid b \<Longrightarrow> moves w w2 uid (a + b)"
  by (simp add: moves_def)

lemma moves_calm: "moves w w' uid q \<Longrightarrow> calm w'"
  by (simp add: moves_def)

lemma actual_pos: "0 < v_quota v \<Longrightarrow> 0 < calculateActualXaiVideoQuota qpu v r"
  by (simp add: calculateActualXaiVideoQuota_def Let_def split: option.split)

lemma adjust_effect:
  fixes r :: grok_result
  assumes w: "calm w" and q: "0 < v_quota v"
  defines "actual \<equiv> calculateActualXaiVideoQuota (cfg_quota_per_unit (w_cfg w)) v r"
  shows "\<exists>w'. adjustNativeVideoQuota v r w = (Inr (v\<lparr>v_quota := actual\<rparr>), w') \<and> moves w w' (v_user_id v) (v_quota v - actual)"
proof -
  have pos: "0 < actual" using actual_pos [OF q] by (simp add: actual_def)
  have run: "adjustNativeVideoQuota v r w =
     (if v_quota v = actual then ret v
      else if actual < v_quota v then
        on_result (IncreaseUserQuota (v_user_id v) (v_quota v - actual)) (\<lambda>u. case u of
          Inl _ \<Rightarrow> ret v
        | Inr _ \<Rightarrow> then_do (ignore_err (CompensateChannelQuota (v_channel_id v) (v_quota v - actual))) (ret (v\<lparr>v_quota := actual\<rparr>)))
      else
        on_result (DecreaseUserQuota (v_user_id v) (actual - v_quota v)) (\<lambda>u. case u of
          Inl _ \<Rightarrow> ret v
        | Inr _ \<Rightarrow> then_do (UpdateChannelUsedQuota (v_channel_id v) (actual - v_quota v)) (ret (v\<lparr>v_quota := actual\<rparr>)))) w"
    using pos unfolding adjustNativeVideoQuota_def reading_def Let_def actual_def [symmetric] by simp
  consider "v_quota v = actual" | "actual < v_quota v" | "v_quota v < actual" by linarith
  then show ?thesis
  proof cases
    case 1
    then have "v\<lparr>v_quota := actual\<rparr> = v" by simp
    with 1 show ?thesis using run moves_refl [OF w] by (simp add: ret_def)
  next
    case 2
    obtain w1 where 1: "IncreaseUserQuota (v_user_id v) (v_quota v - actual) w = (Inr (), w1)" "moves w w1 (v_user_id v) (v_quota v - actual)"
      using moves_quota(1) [OF w, of "v_quota v - actual" "v_user_id v"] 2 by auto
    obtain w2 where "CompensateChannelQuota (v_channel_id v) (v_quota v - actual) w1 = (Inr (), w2)" "moves w1 w2 (v_user_id v) 0"
      using moves_channel(1) [OF moves_calm [OF 1(2)]] by blast
    with 1 2 moves_trans [OF 1(2), of w2 0] show ?thesis unfolding run by (simp add: op_defs)
  next
    case 3
    obtain w1 where 1: "DecreaseUserQuota (v_user_id v) (actual - v_quota v) w = (Inr (), w1)" "moves w w1 (v_user_id v) (- (actual - v_quota v))"
      using moves_quota(2) [OF w, of "actual - v_quota v" "v_user_id v"] 3 by auto
    obtain w2 where "UpdateChannelUsedQuota (v_channel_id v) (actual - v_quota v) w1 = (Inr (), w2)" "moves w1 w2 (v_user_id v) 0"
      using moves_channel(2) [OF moves_calm [OF 1(2)]] by blast
    with 1 3 moves_trans [OF 1(2), of w2 0] show ?thesis unfolding run by (simp add: op_defs)
  qed
qed

lemma compensate_effect:
  assumes "calm w" "task_at (w_db w) task = Some row"
  shows "\<exists>w'. CompensateNativeVideoTask task w = (Inr (), w') \<and> moves w w' (v_user_id row) (max 0 (v_quota row))"
proof (cases "v_quota row \<le> 0")
  case True
  then show ?thesis using assms moves_refl [OF assms(1)]
    by (auto simp: CompensateNativeVideoTask_def on_result_def calm_lookup ret_def max_def)
next
  case False
  obtain w1 where 1: "CompensateVideoTaskQuota (v_user_id row) (v_quota row) w = (Inr (), w1)" "moves w w1 (v_user_id row) (v_quota row)"
    using moves_task_refund [OF assms(1)] by blast
  obtain w2 where "CompensateChannelQuota (v_channel_id row) (v_quota row) w1 = (Inr (), w2)" "moves w1 w2 (v_user_id row) 0"
    using moves_channel(1) [OF moves_calm [OF 1(2)]] by blast
  with False 1 assms moves_trans [OF 1(2), of w2 0] show ?thesis
    by (simp add: CompensateNativeVideoTask_def op_defs calm_lookup)
qed

definition ids_distinct :: "db \<Rightarrow> bool" where
  "ids_distinct d \<longleftrightarrow> distinct (map v_id (d_videos d))"

lemma find_updated_row:
  assumes "distinct (map v_id vs)" "List.find (\<lambda>r. v_task_id r = task) vs = Some row" "v_id v = v_id row" "v_task_id v = task" "task \<noteq> []"
  shows "List.find (\<lambda>r. v_task_id r = task) (update_rows (\<lambda>r. v_id r = v_id v) (set_columns v) vs) = Some (set_columns v row)"
  using assms(1,2)
proof (induction vs)
  case (Cons x vs)
  show ?case
  proof (cases "v_task_id x = task")
    case True
    then show ?thesis using Cons.prems assms(3-5) by (simp add: update_rows_def set_columns_def ne_def)
  next
    case False
    then have f: "List.find (\<lambda>r. v_task_id r = task) vs = Some row" using Cons.prems by simp
    then have "row \<in> set vs" using find_SomeD by metis
    then have "v_id x \<noteq> v_id v" using Cons.prems(1) assms(3) by auto
    then show ?thesis using Cons f False by (simp add: update_rows_def)
  qed
qed simp

lemma row_update_effect:
  assumes "calm w" "task_at (w_db w) task = Some row" "ids_distinct (w_db w)" "v_id v = v_id row" "v_task_id v = task" "task \<noteq> []"
  shows "\<exists>w'. Video_Update v w = (Inr (), w') \<and> calm w' \<and> w_cfg w' = w_cfg w \<and> ids_distinct (w_db w') \<and>
    task_at (w_db w') task = Some (set_columns (v\<lparr>v_updated_at := w_now w\<rparr>) row) \<and> quota_at (w_db w') = quota_at (w_db w)"
proof -
  let ?u = "set_columns (v\<lparr>v_updated_at := w_now w\<rparr>)"
  let ?d = "d_videos_update (update_rows (\<lambda>r. v_id r = v_id v) ?u) (w_db w)"
  have "map v_id (update_rows (\<lambda>r. v_id r = v_id v) ?u vs) = map v_id vs" for vs
    by (induction vs) (auto simp: update_rows_def set_columns_def)
  then have "ids_distinct ?d" using assms(3) by (simp add: ids_distinct_def)
  moreover have "task_at ?d task = Some (?u row)"
    using find_updated_row [of "d_videos (w_db w)" task row "v\<lparr>v_updated_at := w_now w\<rparr>"] assms(2-6)
    by (simp add: task_at_def ids_distinct_def)
  moreover have "quota_at ?d = quota_at (w_db w)" by (simp add: quota_at_def user_of_def fun_eq_iff)
  ultimately show ?thesis
    using assms(1) by (simp add: Video_Update_def reading_def stmt_def op_defs calm_statements)
qed

text \<open>What an answer gives back (or, when negative, takes) once it settles the row.\<close>

definition xai_due :: "f64 \<Rightarrow> video \<Rightarrow> grok_result \<Rightarrow> int" where
  "xai_due qpu v r =
     (let s = mapXaiVideoStatus (gr_status r)
      in if v_quota v \<le> 0 then 0
         else if s = ''failed'' then v_quota v
         else if s = ''succeed'' then v_quota v - calculateActualXaiVideoQuota qpu v r else 0)"

lemma xai_row_keeps [simp]:
  "v_id (xai_row body r now v) = v_id v" "v_task_id (xai_row body r now v) = v_task_id v"
  "v_quota (xai_row body r now v) = v_quota v" "v_user_id (xai_row body r now v) = v_user_id v"
  "v_channel_id (xai_row body r now v) = v_channel_id v"
  "v_status (xai_row body r now v) = mapXaiVideoStatus (gr_status r)"
  by (simp_all add: xai_row_def Let_def split: option.split)

lemma actual_of_row: "calculateActualXaiVideoQuota qpu (xai_row body r now v) r = calculateActualXaiVideoQuota qpu v r"
  by (simp add: calculateActualXaiVideoQuota_def cong: if_cong option.case_cong)

lemma status_written: "v_status v \<noteq> [] \<Longrightarrow> v_status (set_columns v row) = v_status v"
  by (simp add: set_columns_def ne_def)

lemma status_nonempty: "mapXaiVideoStatus s \<noteq> []"
  by (simp add: mapXaiVideoStatus_def)

lemma columns_of_copy:
  "v_quota v = v_quota row \<Longrightarrow> v_quota (set_columns v row) = v_quota row"
  "v_user_id v = v_user_id row \<Longrightarrow> v_user_id (set_columns v row) = v_user_id row"
  by (simp_all add: set_columns_def nz_def)

lemma settle_effect:
  assumes w: "calm w" "task_at (w_db w) task = Some row" "ids_distinct (w_db w)" "task \<noteq> []"
  shows "\<exists>w' row'. xai_settle task body r row True w = (Inr (), w') \<and> calm w' \<and> w_cfg w' = w_cfg w \<and> ids_distinct (w_db w') \<and>
    task_at (w_db w') task = Some row' \<and> v_status row' = mapXaiVideoStatus (gr_status r) \<and>
    v_id row' = v_id row \<and> v_user_id row' = v_user_id row \<and> (v_status row' = ''failed'' \<longrightarrow> v_quota row' = v_quota row) \<and>
    quota_at (w_db w') = credit (v_user_id row) (xai_due (cfg_quota_per_unit (w_cfg w)) row r) (quota_at (w_db w))"
proof -
  let ?row = "xai_row body r (w_now w) row" and ?s = "mapXaiVideoStatus (gr_status r)"
  let ?actual = "calculateActualXaiVideoQuota (cfg_quota_per_unit (w_cfg w)) row r"
  have task: "v_task_id row = task" using w(2) find_SomeD unfolding task_at_def by fastforce
  define first where "first = (if ?s = ''succeed'' \<and> 0 < v_quota row then adjustNativeVideoQuota ?row r else ret ?row)"
  define paid where "paid = (if ?s = ''succeed'' \<and> 0 < v_quota row then v_quota row - ?actual else 0)"
  obtain v1 w1 where 1: "first w = (Inr v1, w1)" "moves w w1 (v_user_id row) paid" "v_id v1 = v_id row" "v_task_id v1 = task"
    "v_status v1 = ?s" "v_user_id v1 = v_user_id row" "?s = ''failed'' \<Longrightarrow> v_quota v1 = v_quota row"
  proof (cases "?s = ''succeed'' \<and> 0 < v_quota row")
    case True
    obtain w1 where "adjustNativeVideoQuota ?row r w = (Inr (?row\<lparr>v_quota := ?actual\<rparr>), w1)" "moves w w1 (v_user_id row) (v_quota row - ?actual)"
      using adjust_effect [OF w(1), of ?row r] True by (auto simp: actual_of_row)
    with True task that show ?thesis by (simp add: first_def paid_def)
  next
    case False
    then have "first w = (Inr ?row, w)" "paid = 0" by (auto simp: first_def paid_def ret_def)
    then show ?thesis using that [of ?row w] moves_refl [OF w(1)] task by simp
  qed
  have w1: "calm w1" "task_at (w_db w1) task = Some row" "ids_distinct (w_db w1)"
    using 1(2) w(2,3) by (simp_all add: moves_def task_at_def ids_distinct_def)
  obtain w2 where 2: "Video_Update v1 w1 = (Inr (), w2)" "calm w2" "w_cfg w2 = w_cfg w1" "ids_distinct (w_db w2)"
    "task_at (w_db w2) task = Some (set_columns (v1\<lparr>v_updated_at := w_now w1\<rparr>) row)" "quota_at (w_db w2) = quota_at (w_db w1)"
    using row_update_effect [OF w1 1(3,4) w(4)] by blast
  let ?row2 = "set_columns (v1\<lparr>v_updated_at := w_now w1\<rparr>) row"
  have s2: "v_status ?row2 = ?s" using 1(5) status_nonempty by (simp add: status_written)
  have kept: "v_id ?row2 = v_id row" "v_user_id ?row2 = v_user_id row" "?s = ''failed'' \<Longrightarrow> v_quota ?row2 = v_quota row"
    using 1(6,7) by (simp_all add: columns_of_copy) (simp_all add: set_columns_def)
  have run: "xai_settle task body r row True w =
      (if ?s = ''failed'' \<and> 0 < v_quota v1 then CompensateNativeVideoTask task else ret ()) w2"
    using 1(1,5) 2(1) unfolding first_def by (simp add: xai_settle_def reading_def Let_def op_defs)
  show ?thesis
  proof (cases "?s = ''failed'' \<and> 0 < v_quota v1")
    case True
    then have q: "v_quota ?row2 = v_quota row" "0 < v_quota row" using 1(7) kept(3) by simp_all
    obtain w3 where 3: "CompensateNativeVideoTask task w2 = (Inr (), w3)" "moves w2 w3 (v_user_id row) (v_quota row)"
      using compensate_effect [OF 2(2,5)] q kept(2) by auto
    then show ?thesis using True run 1(2) 2(3-6) s2 q kept
      by (auto simp: moves_def xai_due_def Let_def paid_def task_at_def ids_distinct_def)
  next
    case False
    then have "xai_due (cfg_quota_per_unit (w_cfg w)) row r = paid" using 1(7) by (auto simp: xai_due_def Let_def paid_def)
    with False show ?thesis using run 1(2) 2 s2 kept by (auto simp: moves_def ret_def)
  qed
qed

lemma local_lock:
  assumes "\<not> cfg_redis (w_cfg w)"
  shows "RedisLockAcquire key ttl tok w = (Inr ''local'', w)" and "RedisLockRelease key ''local'' w' = (Inr (), w')"
  using assms by (simp_all add: RedisLockAcquire_def RedisLockRelease_def reading_def ret_def)

lemma final_answer_ignored:
  assumes "calm w" "\<not> cfg_redis (w_cfg w)" "task_at (w_db w) task = Some row"
    and "xai_final (mapXaiVideoStatus (gr_status r))" "xai_final (v_status v) \<or> xai_final (v_status row)"
  shows "snd (UpdateNativeVideoTaskStatus tok task body (Some r) v w) = w"
  using assms by (auto simp: UpdateNativeVideoTaskStatus_def op_defs local_lock calm_lookup)

lemma final_answer_settles:
  assumes "calm w" "\<not> cfg_redis (w_cfg w)" "task_at (w_db w) task = Some row"
    and "xai_final (mapXaiVideoStatus (gr_status r))" "\<not> xai_final (v_status v)" "\<not> xai_final (v_status row)"
  shows "snd (UpdateNativeVideoTaskStatus tok task body (Some r) v w) = snd (xai_settle task body r row True w)"
  using assms
  by (simp add: UpdateNativeVideoTaskStatus_def op_defs local_lock calm_lookup split: prod.split sum.split)

text \<open>Answers to queries of a task, each with the copy of the row its query has read.\<close>

definition run_grok :: "string \<Rightarrow> (string \<times> string \<times> grok_result \<times> video) list \<Rightarrow> world \<Rightarrow> world" where
  "run_grok task es w = fold (\<lambda>(tok, body, r, v) w. snd (UpdateNativeVideoTaskStatus tok task body (Some r) v w)) es w"

definition final_answer :: "string \<times> string \<times> grok_result \<times> video \<Rightarrow> bool" where
  "final_answer e = (case e of (tok, body, r, v) \<Rightarrow> xai_final (mapXaiVideoStatus (gr_status r)))"

lemma run_grok_final:
  assumes "calm w" "\<not> cfg_redis (w_cfg w)" "task_at (w_db w) task = Some row" "xai_final (v_status row)" "\<forall>e\<in>set es. final_answer e"
  shows "run_grok task es w = w"
  using assms(5)
proof (induction es)
  case (Cons e es)
  obtain tok body r v where e: "e = (tok, body, r, v)" by (cases e) auto
  have "snd (UpdateNativeVideoTaskStatus tok task body (Some r) v w) = w"
    using final_answer_ignored [OF assms(1-3)] Cons.prems assms(4) by (simp add: e final_answer_def)
  with Cons show ?case by (simp add: run_grok_def e)
qed (simp add: run_grok_def)

lemma run_grok_first:
  assumes "calm w" "\<not> cfg_redis (w_cfg w)" "task_at (w_db w) task = Some row" "ids_distinct (w_db w)" "task \<noteq> []"
    and "\<not> xai_final (v_status row)" "\<not> xai_final (v_status v)" "xai_final (mapXaiVideoStatus (gr_status r))"
  shows "\<exists>row'. calm (run_grok task [(tok, body, r, v)] w) \<and> w_cfg (run_grok task [(tok, body, r, v)] w) = w_cfg w \<and>
    ids_distinct (w_db (run_grok task [(tok, body, r, v)] w)) \<and>
    task_at (w_db (run_grok task [(tok, body, r, v)] w)) task = Some row' \<and> v_status row' = mapXaiVideoStatus (gr_status r) \<and>
    v_id row' = v_id row \<and> v_user_id row' = v_user_id row \<and> (v_status row' = ''failed'' \<longrightarrow> v_quota row' = v_quota row) \<and>
    quota_at (w_db (run_grok task [(tok, body, r, v)] w)) =
      credit (v_user_id row) (xai_due (cfg_quota_per_unit (w_cfg w)) row r) (quota_at (w_db w))"
  using settle_effect [OF assms(1,3-5), of body r] final_answer_settles [OF assms(1-3,8,7,6), of tok body]
  by (auto simp: run_grok_def)

lemma run_grok_Cons: "run_grok task (e # es) w = run_grok task es (run_grok task [e] w)"
  by (simp add: run_grok_def)

text \<open>
  C11. A Grok task that is not settled, and any number of final answers for it, each with a copy of the row
  however old: the first one decides. The row takes its status, a failed task is given back whole, a
  finished one is corrected to the price the provider reports, an expired one costs what was paid, and
  the answers after it change no balance.
\<close>

theorem xai_settled_once:
  assumes "calm w" "\<not> cfg_redis (w_cfg w)" "task_at (w_db w) task = Some row" "ids_distinct (w_db w)" "task \<noteq> []"
    and "\<not> xai_final (v_status row)" "\<not> xai_final (v_status v)"
    and "xai_final (mapXaiVideoStatus (gr_status r))" "\<forall>e\<in>set es. final_answer e"
  shows "(\<exists>row'. task_at (w_db (run_grok task ((tok, body, r, v) # es) w)) task = Some row' \<and>
      v_status row' = mapXaiVideoStatus (gr_status r)) \<and>
    (\<forall>uid. quota_at (w_db (run_grok task ((tok, body, r, v) # es) w)) uid =
      (if uid = v_user_id row then map_option (\<lambda>x. x + xai_due (cfg_quota_per_unit (w_cfg w)) row r) (quota_at (w_db w) uid)
       else quota_at (w_db w) uid))"
proof -
  let ?w = "run_grok task [(tok, body, r, v)] w"
  obtain row' where 1: "calm ?w" "w_cfg ?w = w_cfg w" "task_at (w_db ?w) task = Some row'" "v_status row' = mapXaiVideoStatus (gr_status r)"
    "quota_at (w_db ?w) = credit (v_user_id row) (xai_due (cfg_quota_per_unit (w_cfg w)) row r) (quota_at (w_db w))"
    using run_grok_first [OF assms(1-8), of tok body] by blast
  have "run_grok task ((tok, body, r, v) # es) w = ?w"
    using run_grok_final [OF 1(1) _ 1(3) _ assms(9)] 1(2,4) assms(2,8) by (subst run_grok_Cons) simp
  with 1 show ?thesis by (simp add: credit_def)
qed

text \<open>An answer that the task is still being processed, with a copy of the row from before it was settled.\<close>

lemma processing_reopens:
  assumes "calm w" "task_at (w_db w) task = Some row1" "ids_distinct (w_db w)" "task \<noteq> []"
    and "v_id row1 = v_id row" "v_task_id row = task" "v_quota row1 = v_quota row" "v_user_id row1 = v_user_id row"
    and "\<not> xai_final (v_status row)" "\<not> xai_final (mapXaiVideoStatus (gr_status r))"
  shows "\<exists>row'. calm (run_grok task [(tok, body, r, row)] w) \<and> w_cfg (run_grok task [(tok, body, r, row)] w) = w_cfg w \<and>
    ids_distinct (w_db (run_grok task [(tok, body, r, row)] w)) \<and>
    task_at (w_db (run_grok task [(tok, body, r, row)] w)) task = Some row' \<and> \<not> xai_final (v_status row') \<and>
    v_quota row' = v_quota row \<and> v_user_id row' = v_user_id row \<and>
    quota_at (w_db (run_grok task [(tok, body, r, row)] w)) = quota_at (w_db w)"
proof -
  let ?row = "xai_row body r (w_now w) row"
  obtain w2 where 2: "Video_Update ?row w = (Inr (), w2)" "calm w2" "w_cfg w2 = w_cfg w" "ids_distinct (w_db w2)"
    "task_at (w_db w2) task = Some (set_columns (?row\<lparr>v_updated_at := w_now w\<rparr>) row1)" "quota_at (w_db w2) = quota_at (w_db w)"
    using row_update_effect [OF assms(1-3), of ?row] assms(4-6) by auto
  have "run_grok task [(tok, body, r, row)] w = w2"
    using 2(1) assms(9,10)
    by (simp add: run_grok_def UpdateNativeVideoTaskStatus_def xai_settle_def reading_def Let_def op_defs)
  then show ?thesis using 2(2-6) assms(7,8,10) status_nonempty by (simp add: status_written columns_of_copy)
qed

text \<open>
  An answer that a task is still being processed is written whatever the row has become since the query
  read it. Between two reports of a failure it opens the task again, and the second gives the price back
  a second time.
\<close>

theorem late_processing_reopens:
  assumes "calm w" "\<not> cfg_redis (w_cfg w)" "task_at (w_db w) task = Some row" "ids_distinct (w_db w)" "task \<noteq> []"
    and "\<not> xai_final (v_status row)" "0 < v_quota row"
    and "mapXaiVideoStatus (gr_status bad) = ''failed''" "\<not> xai_final (mapXaiVideoStatus (gr_status running))"
  shows "quota_at (w_db (run_grok task [(t1, b1, bad, row), (t2, b2, running, row), (t3, b3, bad, row)] w)) (v_user_id row) =
    map_option (\<lambda>x. x + 2 * v_quota row) (quota_at (w_db w) (v_user_id row))"
proof -
  let ?w1 = "run_grok task [(t1, b1, bad, row)] w"
  let ?w2 = "run_grok task [(t2, b2, running, row)] ?w1"
  have final: "xai_final (mapXaiVideoStatus (gr_status bad))" using assms(8) by (simp add: xai_final_def)
  have due: "xai_due qpu v bad = v_quota v" if "0 < v_quota v" for qpu v using that assms(8) by (simp add: xai_due_def Let_def)
  have task: "v_task_id row = task" using assms(3) find_SomeD unfolding task_at_def by fastforce
  obtain r1 where 1: "calm ?w1" "w_cfg ?w1 = w_cfg w" "ids_distinct (w_db ?w1)" "task_at (w_db ?w1) task = Some r1"
    "v_id r1 = v_id row" "v_user_id r1 = v_user_id row" "v_quota r1 = v_quota row"
    "quota_at (w_db ?w1) = credit (v_user_id row) (v_quota row) (quota_at (w_db w))"
    using run_grok_first [OF assms(1-6) assms(6) final, of t1 b1] due [OF assms(7)] assms(8) by auto
  obtain r2 where 2: "calm ?w2" "w_cfg ?w2 = w_cfg w" "ids_distinct (w_db ?w2)" "task_at (w_db ?w2) task = Some r2"
    "\<not> xai_final (v_status r2)" "v_quota r2 = v_quota row" "v_user_id r2 = v_user_id row"
    "quota_at (w_db ?w2) = quota_at (w_db ?w1)"
    using processing_reopens [OF 1(1,4,3) assms(5) 1(5) task 1(7,6) assms(6,9), of t2 b2] 1(2) by auto
  have "quota_at (w_db (run_grok task [(t3, b3, bad, row)] ?w2)) = credit (v_user_id row) (v_quota row) (quota_at (w_db ?w2))"
    using run_grok_first [OF 2(1) _ 2(4,3) assms(5) 2(5) assms(6) final, of t3 b3] due [of r2] 2(2,6,7) assms(2,7) by auto
  moreover have "run_grok task [(t1, b1, bad, row), (t2, b2, running, row), (t3, b3, bad, row)] w =
      run_grok task [(t3, b3, bad, row)] ?w2"
    by (simp add: run_grok_def)
  ultimately have "quota_at (w_db (run_grok task [(t1, b1, bad, row), (t2, b2, running, row), (t3, b3, bad, row)] w)) =
      credit (v_user_id row) (v_quota row + v_quota row) (quota_at (w_db w))"
    using 1(8) 2(8) by simp
  then show ?thesis by (simp add: credit_def)
qed

section \<open>Witnesses\<close>

definition vt_row :: video where
  "vt_row = blank_video\<lparr>v_id := 4, v_task_id := ''t'', v_status := ''processing'', v_quota := 300, v_user_id := 1, v_channel_id := 9\<rparr>"

definition vt_world :: world where
  "vt_world = world_with (demo_db\<lparr>d_videos := [vt_row]\<rparr>) 77"

lemma vt_facts:
  "calm vt_world" "\<not> cfg_redis (w_cfg vt_world)" "task_at (w_db vt_world) ''t'' = Some vt_row" "ids_distinct (w_db vt_world)"
  "quota_at (w_db vt_world) 1 = Some 1000" "quota_at (w_db vt_world) 2 = Some 50"
  "v_status vt_row = ''processing''" "v_quota vt_row = 300" "v_user_id vt_row = 1" "v_task_id vt_row = ''t''" "v_id vt_row = 4"
  "\<not> xai_final (v_status vt_row)"
  by (simp_all add: vt_world_def vt_row_def calm_def run_simps default_config_def task_at_def ids_distinct_def quota_at_def
    blank_video_def xai_final_def)

definition vt_failed :: ali_query where
  "vt_failed = \<lparr>aq_output = Some \<lparr>ao_task_id = ''t'', ao_status = ''FAILED'', ao_url = [], ao_code = [], ao_message = ''no''\<rparr>, aq_message = []\<rparr>"


theorem ali_stale_copies_refund_twice_witness:
  "quota_at (w_db (snd (updateAliWanTaskStatus ''t'' vt_row vt_failed (the (aq_output vt_failed))
     (snd (updateAliWanTaskStatus ''t'' vt_row vt_failed (the (aq_output vt_failed)) vt_world))))) 1 = Some 1600"
  using ali_stale_copies_refund_twice [OF vt_facts(1,3,7), of "the (aq_output vt_failed)" vt_failed]
  by (simp add: vt_facts vt_failed_def mapAliWanStatus_def)

definition vt_parse :: "string \<Rightarrow> doubao_result option" where
  "vt_parse raw = Some \<lparr>dr_id = ''t'', dr_status = raw, dr_error = None, dr_url = None, dr_text = raw\<rparr>"

lemma vt_parse_facts: "about_task vt_parse ''t'' raw" "claimed vt_parse raw = mapDoubaoStatus raw"
  by (simp_all add: about_task_def claimed_def vt_parse_def)

theorem doubao_callbacks_refund_witness:
  "quota_at (w_db (callbacks vt_parse [''queued'', ''failed'', ''failed''] vt_world)) 1 = Some 1300"
  using doubao_callbacks_refund [OF vt_facts(1,3), of "[''queued'', ''failed'', ''failed'']" vt_parse]
  by (simp add: vt_facts vt_parse_facts mapDoubaoStatus_def)

theorem forged_callbacks_mint_quota_witness:
  "quota_at (w_db (callbacks vt_parse (concat (replicate 5 [''failed'', ''running''])) vt_world)) 1 = Some 2500"
  using forged_callbacks_mint_quota [OF vt_facts(1,3,7), of vt_parse "''failed''" "''running''" 5]
  by (simp add: vt_facts vt_parse_facts mapDoubaoStatus_def del: concat.simps replicate.simps)

definition vt_answer :: "string \<Rightarrow> grok_result" where
  "vt_answer s = \<lparr>gr_status = s, gr_url = None, gr_seconds = 0, gr_ticks = None, gr_error = []\<rparr>"

theorem xai_settled_once_witness:
  "quota_at (w_db (run_grok ''t'' [(''a'', ''b1'', vt_answer ''failed'', vt_row), (''c'', ''b2'', vt_answer ''failed'', vt_row),
     (''d'', ''b3'', vt_answer ''done'', vt_row)] vt_world)) 1 = Some 1300"
proof -
  have "xai_due qpu vt_row (vt_answer ''failed'') = 300" for qpu
    by (simp add: xai_due_def Let_def vt_answer_def mapXaiVideoStatus_def vt_facts)
  with xai_settled_once [OF vt_facts(1-4), of vt_row "vt_answer ''failed''"
      "[(''c'', ''b2'', vt_answer ''failed'', vt_row), (''d'', ''b3'', vt_answer ''done'', vt_row)]" "''a''" "''b1''"]
  show ?thesis
    by (simp add: vt_facts final_answer_def vt_answer_def mapXaiVideoStatus_def xai_final_def)
qed

theorem late_processing_reopens_witness:
  "quota_at (w_db (run_grok ''t'' [(''a'', ''b1'', vt_answer ''failed'', vt_row), (''c'', ''b2'', vt_answer ''pending'', vt_row),
     (''d'', ''b3'', vt_answer ''failed'', vt_row)] vt_world)) 1 = Some 1600"
  using late_processing_reopens [OF vt_facts(1-4), of "vt_answer ''failed''" "vt_answer ''pending''" "''a''" "''b1''" "''c''" "''b2''" "''d''" "''b3''"]
  by (simp add: vt_facts vt_answer_def mapXaiVideoStatus_def xai_final_def)

end
