(* ===== verification/KlingTasks.thy ===== *)
theory KlingTasks
  imports VideoTasks "HOL-Library.Word"
begin

text \<open>
  The tasks of Kling (\<open>controller/kling_video.go\<close>, \<open>relay/controller/kling_video.go\<close>,
  \<open>relay/channel/kling/task_manager.go\<close>, \<open>callback.go\<close>). Nothing is paid when a task is created: a
  synchronous task is charged when it is answered, an asynchronous one by the callback that reports its
  videos. The answers of the provider are arguments, already decoded; a notification to the user that the
  code starts in a goroutine is the last part of the step that starts it.
\<close>

section \<open>Addresses a user may be notified at\<close>

text \<open>An address as \<open>net.IPNet.Contains\<close> sees it: what has four bytes is compared as four bytes.\<close>

datatype ip_addr = IP4 "32 word" | IP6 "128 word"

definition in_net :: "'a::len word \<Rightarrow> nat \<Rightarrow> 'a word \<Rightarrow> bool" where
  "in_net net bits a \<longleftrightarrow> drop_bit (LENGTH('a) - bits) a = drop_bit (LENGTH('a) - bits) net"

definition private4 :: "(32 word \<times> nat) list" where
  "private4 = [(0x0A000000, 8), (0xAC100000, 12), (0xC0A80000, 16), (0xA9FE0000, 16), (0x7F000000, 8)]"

definition private6 :: "(128 word \<times> nat) list" where
  "private6 = [(push_bit 112 0xFC00, 7), (push_bit 112 0xFE80, 10), (1, 128)]"

definition isPrivateIP :: "ip_addr \<Rightarrow> bool" where
  "isPrivateIP a =
     (case a of IP4 x \<Rightarrow> list_ex (\<lambda>(net, bits). in_net net bits x) private4
              | IP6 x \<Rightarrow> list_ex (\<lambda>(net, bits). in_net net bits x) private6)"

text \<open>
  What comes from outside: the settings of \<open>video_env\<close>, a JSON number and a decimal text as floats, a
  value as JSON text, the server's own address, and the URL, address and name services.
\<close>

record kling_env = video_env +
  ke_num :: "string \<Rightarrow> f64"
  ke_parse_float :: "string \<Rightarrow> f64 option"
  ke_text :: "json \<Rightarrow> string"
  ke_server :: string
  ke_url :: "string \<Rightarrow> gerr + string \<times> string"
  ke_ip :: "string \<Rightarrow> ip_addr option"
  ke_lookup :: "string \<Rightarrow> ip_addr list option"

definition isPrivateHost :: "kling_env \<Rightarrow> string \<Rightarrow> bool" where
  "isPrivateHost env host \<longleftrightarrow>
     to_lower host \<in> set [''localhost'', ''127.0.0.1'', ''::1''] \<or>
     (case ke_ip env host of
        Some a \<Rightarrow> isPrivateIP a
      | None \<Rightarrow> (case ke_lookup env host of None \<Rightarrow> True | Some ips \<Rightarrow> list_ex isPrivateIP ips))"

text \<open>The reason against an address, if there is one.\<close>

definition IsValidCallbackURL :: "kling_env \<Rightarrow> string \<Rightarrow> string option" where
  "IsValidCallbackURL env url =
     (if url = [] then None
      else case ke_url env url of
        Inl e \<Rightarrow> Some (''invalid URL format: '' @ error_text e)
      | Inr (scheme, host) \<Rightarrow>
          if scheme \<noteq> ''http'' \<and> scheme \<noteq> ''https'' then Some ''only http/https protocols are allowed''
          else if host = [] then Some ''missing host in URL''
          else if isPrivateHost env host then Some ''callback to private network addresses is not allowed''
          else None)"

text \<open>\<open>delivery\<close> is how the POST to the user ends: it cannot be made, it fails, or there is an answer.\<close>

type_synonym delivery = "gerr + gerr + int \<times> string"

definition notified_row :: "kling_env \<Rightarrow> delivery \<Rightarrow> int \<Rightarrow> video \<Rightarrow> video" where
  "notified_row env delivery now v =
     (let failed = (\<lambda>why. v\<lparr>v_callback_status := ''failed'', v_callback_error := why, v_callback_time := now\<rparr>)
      in case IsValidCallbackURL env (v_callback_url v) of
           Some why \<Rightarrow> failed (''invalid URL: '' @ why)
         | None \<Rightarrow>
             (case delivery of
                Inl e \<Rightarrow> failed (''create request failed: '' @ error_text e)
              | Inr (Inl e) \<Rightarrow> failed (''request failed: '' @ error_text e)
              | Inr (Inr (status, body)) \<Rightarrow>
                  if 200 \<le> status \<and> status < 300 then v\<lparr>v_callback_status := ''success'', v_callback_time := now\<rparr>
                  else failed (''status_code='' @ itoa status @ '', response='' @ body)))"

definition NotifyUserCallback :: "kling_env \<Rightarrow> delivery \<Rightarrow> video \<Rightarrow> unit op" where
  "NotifyUserCallback env delivery v =
     (if v_callback_url v = [] then ret ()
      else reading (\<lambda>w. ignore_err (Video_Update (notified_row env delivery (w_now w) v))))"

section \<open>Tasks of two tables\<close>

datatype kling_task = KVideo video | KImage image

fun SetTaskID :: "string \<Rightarrow> kling_task \<Rightarrow> kling_task" where
  "SetTaskID t (KVideo v) = KVideo (v\<lparr>v_task_id := t\<rparr>)"
| "SetTaskID t (KImage i) = KImage (i\<lparr>i_task_id := t\<rparr>)"

fun SetStatus :: "string \<Rightarrow> kling_task \<Rightarrow> kling_task" where
  "SetStatus s (KVideo v) = KVideo (v\<lparr>v_status := s\<rparr>)"
| "SetStatus s (KImage i) = KImage (i\<lparr>i_status := s\<rparr>)"

fun SetFailReason :: "string \<Rightarrow> kling_task \<Rightarrow> kling_task" where
  "SetFailReason s (KVideo v) = KVideo (v\<lparr>v_fail_reason := s\<rparr>)"
| "SetFailReason s (KImage i) = KImage (i\<lparr>i_fail_reason := s\<rparr>)"

fun SetResult :: "string \<Rightarrow> kling_task \<Rightarrow> kling_task" where
  "SetResult s (KVideo v) = KVideo (v\<lparr>v_result := s\<rparr>)"
| "SetResult s (KImage i) = KImage (i\<lparr>i_result := s\<rparr>)"

fun task_status :: "kling_task \<Rightarrow> string" where
  "task_status (KVideo v) = v_status v"
| "task_status (KImage i) = i_status i"

fun task_timed :: "int \<Rightarrow> kling_task \<Rightarrow> kling_task" where
  "task_timed now (KVideo v) = KVideo (v\<lparr>v_total_duration := now - v_created_at v\<rparr>)"
| "task_timed now (KImage i) = KImage (i\<lparr>i_total_duration := now - i_created_at i\<rparr>)"

fun task_update :: "kling_task \<Rightarrow> unit op" where
  "task_update (KVideo v) = Video_Update v"
| "task_update (KImage i) = Image_Update i"

definition MarkTaskFailed :: "string \<Rightarrow> kling_task \<Rightarrow> unit op" where
  "MarkTaskFailed reason t = task_update (SetFailReason reason (SetStatus ''failed'' t))"

text \<open>A decoded answer of the provider; \<open>kr_text\<close> is its JSON text.\<close>

record kling_response =
  kr_code :: int
  kr_message :: string
  kr_data :: json
  kr_text :: string

definition GetString :: "string \<Rightarrow> kling_response \<Rightarrow> string" where
  "GetString key r = (case obj_field key (kr_data r) of Some (JStr s) \<Rightarrow> s | _ \<Rightarrow> [])"

definition UpdateWithKlingResponse :: "kling_response \<Rightarrow> kling_task \<Rightarrow> unit op" where
  "UpdateWithKlingResponse r t =
     task_update (SetResult (kr_text r) (SetStatus ''submitted'' (SetTaskID (GetString ''task_id'' r) t)))"

text \<open>\<open>fmt.Sscanf(s, "%d", &id)\<close>: blanks, a sign, digits, and whatever follows.\<close>

definition scan_int :: "string \<Rightarrow> int option" where
  "scan_int s =
     (let t = dropWhile (\<lambda>c. is_space c \<and> c \<noteq> CHR 0x0A) s;
          sign = takeWhile (\<lambda>c. c = CHR ''-'' \<or> c = CHR ''+'') (take 1 t);
          digits = takeWhile is_digit (drop (length sign) t)
      in if digits = [] then None else parse_int64 (sign @ digits))"

definition FindTaskByExternalID :: "string \<Rightarrow> string \<Rightarrow> kling_task op" where
  "FindTaskByExternalID ext ty =
     (case scan_int ext of
        None \<Rightarrow> fail (Msg (''invalid external_task_id format: '' @ ext))
      | Some i \<Rightarrow>
          if IsImageRequestType ty then on_ok (GetImageById i) (\<lambda>im. ret (KImage im))
          else on_ok (GetVideoTaskByInternalId i) (\<lambda>v. ret (KVideo v)))"

definition FindTaskByTaskID :: "string \<Rightarrow> kling_task op" where
  "FindTaskByTaskID task =
     on_result (GetVideoTaskById task) (\<lambda>r. case r of
       Inr v \<Rightarrow> ret (KVideo v)
     | Inl _ \<Rightarrow> on_result (GetImageByTaskId task) (\<lambda>r. case r of
         Inr im \<Rightarrow> ret (KImage im)
       | Inl _ \<Rightarrow> fail (Msg (''task not found: task_id='' @ task))))"

section \<open>Requests\<close>

definition text_param :: "string \<Rightarrow> json \<Rightarrow> string option" where
  "text_param key p = (case obj_field key p of Some (JStr s) \<Rightarrow> Some s | _ \<Rightarrow> None)"

definition GetModelNameFromRequest :: "json \<Rightarrow> string" where
  "GetModelNameFromRequest p = (case text_param ''model_name'' p of None \<Rightarrow> [] | Some s \<Rightarrow> s)"

definition GetPromptFromRequest :: "json \<Rightarrow> string" where
  "GetPromptFromRequest p = (case text_param ''prompt'' p of None \<Rightarrow> [] | Some s \<Rightarrow> s)"

definition number_param :: "kling_env \<Rightarrow> string \<Rightarrow> json \<Rightarrow> f64 option" where
  "number_param env key p = (case obj_field key p of Some (JNum n) \<Rightarrow> Some (ke_num env n) | _ \<Rightarrow> None)"

definition sound_param :: "json \<Rightarrow> string" where
  "sound_param p =
     (case obj_field ''sound'' p of
        Some (JStr s) \<Rightarrow> s
      | Some (JBool b) \<Rightarrow> (if b then ''on'' else ''off'')
      | _ \<Rightarrow> [])"

definition voices_param :: "kling_env \<Rightarrow> json \<Rightarrow> string" where
  "voices_param env p =
     (case obj_field ''voice_list'' p of None \<Rightarrow> [] | Some JNull \<Rightarrow> [] | Some v \<Rightarrow> ke_text env v)"

definition extractResourceID :: "kling_env \<Rightarrow> json \<Rightarrow> string \<Rightarrow> string" where
  "extractResourceID env p key =
     (case obj_field key p of
        Some (JStr s) \<Rightarrow> s
      | Some (JNum n) \<Rightarrow> itoa (f_to_int64 (ke_num env n))
      | _ \<Rightarrow> [])"

definition resolveChannelForBoundResource :: "kling_env \<Rightarrow> json \<Rightarrow> int \<Rightarrow> channel option op" where
  "resolveChannelForBoundResource env p uid =
     (let vid = extractResourceID env p ''video_id'';
          ids = filter (\<lambda>t. t \<noteq> []) (map (extractResourceID env p) [''session_id'', ''element_id'', ''voice_id''])
      in on_ok (if vid = [] then ret None
                else on_result (GetVideoTaskByVideoIdAndUserId vid uid) (\<lambda>r.
                  bound_channel_of (case r of Inl _ \<Rightarrow> None | Inr v \<Rightarrow> Some (v_channel_id v)))) (\<lambda>c. case c of
           Some ch \<Rightarrow> ret (Some ch)
         | None \<Rightarrow>
             (case ids of
                [] \<Rightarrow> ret None
              | task # _ \<Rightarrow> on_result (GetVideoTaskByIdAndUserId task uid) (\<lambda>r.
                  bound_channel_of (case r of Inl _ \<Rightarrow> None | Inr v \<Rightarrow> Some (v_channel_id v))))))"

record kling_request =
  kq_type :: string
  kq_params :: json
  kq_model :: string
  kq_mode :: string
  kq_duration :: string
  kq_sound :: string
  kq_voices :: string
  kq_quota :: int
  kq_callback :: string
  kq_channel :: int
  kq_username :: string

definition username_of :: "int \<Rightarrow> string op" where
  "username_of uid = on_result (GetUserById uid) (\<lambda>r. ret (case r of Inl _ \<Rightarrow> [] | Inr u \<Rightarrow> u_username u))"

definition parseKlingRequest :: "kling_env \<Rightarrow> relay_meta \<Rightarrow> string \<Rightarrow> gerr + string \<Rightarrow> kling_request op" where
  "parseKlingRequest env m ty body =
     (case body of
        Inl e \<Rightarrow> fail (Msg (''invalid request body: '' @ error_text e))
      | Inr b \<Rightarrow>
        (case (case json_parse b of Some JNull \<Rightarrow> Some JNull | Some (JObj f) \<Rightarrow> Some (JObj f) | _ \<Rightarrow> None) of
           None \<Rightarrow> fail (Msg ''invalid request json: '')
         | Some p \<Rightarrow> reading (\<lambda>w.
             let model = GetModelNameByRequestType ty (GetModelNameFromRequest p);
                 mode = GetModeFromRequest (text_param ''mode'' p);
                 duration = itoa (GetDurationFromRequest (number_param env ''duration'' p));
                 quota = CalculateVideoQuota (ve_rules env) (ve_rate env) (cfg_quota_per_unit (w_cfg w))
                   \<lparr>vs_model = model, vs_type = ty, vs_mode = mode, vs_duration = duration, vs_resolution = [], vs_sound = []\<rparr>
             in on_result (CacheGetUserQuota (rm_user_id m)) (\<lambda>r. case r of
                  Inl e \<Rightarrow> fail (Msg (''get user quota error: '' @ error_text e))
                | Inr user_quota \<Rightarrow>
                    if user_quota < quota then fail (Msg ''insufficient quota'')
                    else on_result (GetChannelById (rm_channel_id m) True) (\<lambda>c. case c of
                        Inl e \<Rightarrow> fail (Msg (''get channel error: '' @ error_text e))
                      | Inr ch \<Rightarrow> on_ok (resolveChannelForBoundResource env p (rm_user_id m)) (\<lambda>bound.
                          on_ok (username_of (rm_user_id m)) (\<lambda>name.
                            ret \<lparr>kq_type = ty, kq_params = p, kq_model = model, kq_mode = mode, kq_duration = duration,
                              kq_sound = sound_param p, kq_voices = voices_param env p, kq_quota = quota,
                              kq_callback = (case text_param ''callback_url'' p of None \<Rightarrow> [] | Some u \<Rightarrow> u),
                              kq_channel = (case bound of Some bc \<Rightarrow> if c_id bc \<noteq> c_id ch then c_id bc else rm_channel_id m
                                | None \<Rightarrow> rm_channel_id m),
                              kq_username = name\<rparr>)))))))"

definition createVideoTask :: "int \<Rightarrow> string \<Rightarrow> kling_request \<Rightarrow> video op" where
  "createVideoTask uid duration q =
     reading (\<lambda>w. Video_Insert (blank_video\<lparr>v_user_id := uid, v_username := kq_username q, v_channel_id := kq_channel q,
       v_model := kq_model q, v_provider := ''kling'', v_type := kq_type q, v_status := ''pending'', v_quota := kq_quota q,
       v_mode := kq_mode q, v_prompt := GetPromptFromRequest (kq_params q), v_duration := duration, v_sound := kq_sound q,
       v_voice_list := kq_voices q, v_callback_url := kq_callback q,
       v_callback_status := (if kq_callback q = [] then ''none'' else ''pending''), v_created_at := w_now w\<rparr>))"

definition createImageTask :: "int \<Rightarrow> string \<Rightarrow> kling_request \<Rightarrow> image op" where
  "createImageTask uid detail q =
     reading (\<lambda>w. Image_Insert \<lparr>i_id = 0, i_task_id = [], i_username = kq_username q, i_channel_id = kq_channel q,
       i_key_index = 0, i_user_id = uid, i_model = kq_model q, i_status = ''pending'', i_fail_reason = [], i_image_id = [],
       i_store_url = [], i_provider = ''kling'', i_request_id = [], i_created_at = w_now w, i_updated_at = 0,
       i_mode = kq_mode q, i_n = 0, i_quota = kq_quota q, i_detail = detail, i_total_duration = 0, i_result = []\<rparr>)"

definition CreateTask :: "int \<Rightarrow> string \<Rightarrow> string \<Rightarrow> kling_request \<Rightarrow> kling_task op" where
  "CreateTask uid duration detail q =
     (if IsImageRequestType (kq_type q)
      then on_result (createImageTask uid detail q) (\<lambda>r. case r of
          Inl e \<Rightarrow> fail (Msg (''failed to create image task: '' @ error_text e)) | Inr im \<Rightarrow> ret (KImage im))
      else on_result (createVideoTask uid duration q) (\<lambda>r. case r of
          Inl e \<Rightarrow> fail (Msg (''failed to create video task: '' @ error_text e)) | Inr v \<Rightarrow> ret (KVideo v)))"

text \<open>
  The body for the provider; \<open>None\<close> is the panic of a write to the nil map that the body \<open>null\<close> decodes
  to. \<open>model\<close> is the model of the context.
\<close>

definition put_field :: "string \<Rightarrow> json \<Rightarrow> json \<Rightarrow> json option" where
  "put_field key v p = (case p of JObj m \<Rightarrow> Some (JObj (filter (\<lambda>(k, _). k \<noteq> key) m @ [(key, v)])) | _ \<Rightarrow> None)"

definition del_field :: "string \<Rightarrow> json \<Rightarrow> json" where
  "del_field key p = (case p of JObj m \<Rightarrow> JObj (filter (\<lambda>(k, _). k \<noteq> key) m) | _ \<Rightarrow> p)"

definition ConvertKlingRequest :: "string \<Rightarrow> json \<Rightarrow> string \<Rightarrow> json option" where
  "ConvertKlingRequest model p callback_url =
     (case (if obj_field ''model_name'' p = None \<and> model \<noteq> [] then put_field ''model_name'' (JStr model) p else Some p) of
        None \<Rightarrow> None
      | Some p1 \<Rightarrow>
          (let p2 = del_field ''model'' p1
           in if callback_url = [] then Some p2 else put_field ''callback_url'' (JStr callback_url) p2))"

text \<open>How the call ends: the request fails, the answer cannot be read (status, message), or it is decoded.\<close>

type_synonym kling_call = "json \<Rightarrow> gerr + (int \<times> string) + kling_response"

definition call_kling :: "kling_call \<Rightarrow> string \<Rightarrow> kling_request \<Rightarrow> string \<Rightarrow> kling_task \<Rightarrow>
    (kling_response \<Rightarrow> video_reply op) \<Rightarrow> video_reply op" where
  "call_kling call model q callback_url t k =
     (case ConvertKlingRequest model (kq_params q) callback_url of
        None \<Rightarrow> fail Panic
      | Some body \<Rightarrow>
          (case call body of
             Inl e \<Rightarrow> then_do (ignore_err (MarkTaskFailed (error_text e) t)) (ret (Refused (error_text e) ''request_failed'' 500))
           | Inr (Inl (code, msg)) \<Rightarrow> then_do (ignore_err (MarkTaskFailed msg t)) (ret (Refused msg [] code))
           | Inr (Inr r) \<Rightarrow> k r))"

definition processAsyncTask :: "kling_env \<Rightarrow> relay_meta \<Rightarrow> string \<Rightarrow> kling_call \<Rightarrow> kling_request \<Rightarrow> video_reply op" where
  "processAsyncTask env m model call q =
     on_result (CreateTask (rm_user_id m) (kq_duration q) (GetPromptFromRequest (kq_params q)) q) (\<lambda>r. case r of
       Inl e \<Rightarrow> ret (Refused (error_text e) ''database_error'' 500)
     | Inr t \<Rightarrow>
         if ke_server env = [] then
           then_do (ignore_err (MarkTaskFailed ''invalid server address'' t))
             (ret (Refused ''invalid server address'' ''invalid_server_address'' 500))
         else call_kling call model q (ke_server env @ ''/kling/internal/callback'') t (\<lambda>r.
           if kr_code r \<noteq> 0 then then_do (ignore_err (MarkTaskFailed (kr_message r) t)) (ret (Forwarded 200 (kr_text r)))
           else then_do (ignore_err (UpdateWithKlingResponse r t)) (ret (Forwarded 200 (kr_text r)))))"

definition processSyncTask :: "relay_meta \<Rightarrow> string \<Rightarrow> kling_call \<Rightarrow> kling_request \<Rightarrow> video_reply op" where
  "processSyncTask m model call q =
     on_result (CreateTask (rm_user_id m) [] [] q) (\<lambda>r. case r of
       Inl e \<Rightarrow> ret (Refused (error_text e) ''database_error'' 500)
     | Inr t \<Rightarrow> call_kling call model q [] t (\<lambda>r.
         let t1 = SetTaskID (GetString ''task_id'' r) t
         in if kr_code r \<noteq> 0 \<or> \<not> IsSuccessMessage (kr_message r) then
              then_do (ignore_err (MarkTaskFailed
                (''API returned error: code='' @ itoa (kr_code r) @ '', message='' @ kr_message r) t1)) (ret (Forwarded 200 (kr_text r)))
            else
              then_do (ignore_err (DecreaseUserQuota (rm_user_id m) (kq_quota q)))
             (then_do (reading (\<lambda>w. ignore_err (task_update
                (case SetResult (kr_text r) (SetStatus ''succeed'' t1) of
                   KVideo v \<Rightarrow> task_timed (w_now w) (KVideo v) | KImage i \<Rightarrow> KImage i))))
              (ret (Forwarded 200 (kr_text r))))))"

definition classifyKlingError :: "gerr \<Rightarrow> string \<times> int" where
  "classifyKlingError e =
     (let msg = error_text e
      in if str_contains msg ''quota'' then (''insufficient_quota'', 402)
         else if str_contains msg ''channel'' \<or> str_contains msg ''user'' then (''server_error'', 500)
         else (''invalid_request'', 400))"

definition RelayKlingVideo ::
    "kling_env \<Rightarrow> relay_meta \<Rightarrow> string \<Rightarrow> string \<Rightarrow> gerr + string \<Rightarrow> kling_call \<Rightarrow> video_reply op" where
  "RelayKlingVideo env m path model body call =
     (let ty = DetermineRequestType path
      in if ty = [] then ret (Refused ''unsupported endpoint'' ''invalid_endpoint'' 400)
         else on_result (parseKlingRequest env m ty body) (\<lambda>r. case r of
             Inl e \<Rightarrow> (case classifyKlingError e of (t, code) \<Rightarrow> ret (Refused (error_text e) t code))
           | Inr q \<Rightarrow> if IsSyncRequestType ty then processSyncTask m model call q else processAsyncTask env m model call q))"

section \<open>The callback\<close>

record kling_video =
  kv_id :: string
  kv_url :: string
  kv_duration :: string

record kling_notification =
  kn_task_id :: string
  kn_status :: string
  kn_msg :: string
  kn_videos :: "kling_video list"
  kn_external :: string
  kn_deduction :: string
  kn_text :: string

text \<open>The price of a finished task: what Kling says it deducted, or else the price rules (a video) or the
  quota of the row (an image).\<close>

definition system_price :: "kling_env \<Rightarrow> f64 \<Rightarrow> string \<Rightarrow> video \<Rightarrow> int" where
  "system_price env qpu duration v =
     CalculateVideoQuota (ve_rules env) (ve_rate env) qpu
       \<lparr>vs_model = v_model v, vs_type = v_type v, vs_mode = v_mode v, vs_duration = duration,
        vs_resolution = v_resolution v, vs_sound = v_sound v\<rparr>"

definition deducted_price :: "kling_env \<Rightarrow> string \<Rightarrow> int \<Rightarrow> int" where
  "deducted_price env deduction otherwise =
     (if deduction = [] then otherwise
      else case ke_parse_float env deduction of
        None \<Rightarrow> otherwise
      | Some cny \<Rightarrow>
          if flt fzero cny then f_to_int64 (fmul (ConvertCNYToUSD (ve_rate env) cny) (f_of_int 500000)) else otherwise)"

text \<open>The row of a finished task with its price.\<close>

fun priced :: "kling_env \<Rightarrow> f64 \<Rightarrow> int \<Rightarrow> string \<Rightarrow> kling_video \<Rightarrow> kling_task \<Rightarrow> kling_task" where
  "priced env qpu now deduction out (KVideo v) =
     KVideo (v\<lparr>v_store_url := kv_url out, v_video_id := kv_id out, v_duration := kv_duration out,
       v_quota := deducted_price env deduction (system_price env qpu (kv_duration out) v),
       v_total_duration := now - v_created_at v\<rparr>)"
| "priced env qpu now deduction out (KImage i) =
     KImage (i\<lparr>i_store_url := kv_url out, i_image_id := kv_id out, i_quota := deducted_price env deduction (i_quota i),
       i_total_duration := now - i_created_at i\<rparr>)"

fun task_user :: "kling_task \<Rightarrow> int" where
  "task_user (KVideo v) = v_user_id v"
| "task_user (KImage i) = i_user_id i"

fun task_quota :: "kling_task \<Rightarrow> int" where
  "task_quota (KVideo v) = v_quota v"
| "task_quota (KImage i) = i_quota i"

definition final_kling :: "string \<Rightarrow> bool" where
  "final_kling s \<longleftrightarrow> s = ''succeed'' \<or> s = ''failed''"

definition notify_user :: "kling_env \<Rightarrow> delivery \<Rightarrow> kling_task \<Rightarrow> unit op" where
  "notify_user env delivery t = (case t of KVideo v \<Rightarrow> NotifyUserCallback env delivery v | KImage _ \<Rightarrow> ret ())"

definition handleKlingCallback ::
    "kling_env \<Rightarrow> delivery \<Rightarrow> kling_task \<Rightarrow> kling_notification \<Rightarrow> (int \<times> string) op" where
  "handleKlingCallback env delivery t n =
     (if final_kling (task_status t) then ret (200, ''already processed'')
      else reading (\<lambda>w.
        let t1 = SetStatus (kn_status n) (SetResult (kn_text n) t);
            saved = (\<lambda>t'. then_do (ignore_err (task_update t'))
              (then_do (notify_user env delivery t') (ret (200, ''success''))))
        in if kn_status n = ''succeed'' then
             (case kn_videos n of
                [] \<Rightarrow> saved t1
              | out # _ \<Rightarrow>
                  (let t2 = priced env (cfg_quota_per_unit (w_cfg w)) (w_now w) (kn_deduction n) out t1
                   in then_do (ignore_err (DecreaseUserQuota (task_user t2) (task_quota t2))) (saved t2)))
           else if kn_status n = ''failed'' then saved (task_timed (w_now w) (SetFailReason (kn_msg n) t1))
           else saved (task_timed (w_now w) t1)))"

definition find_notified :: "kling_notification \<Rightarrow> kling_task option op" where
  "find_notified n =
     on_ok (if kn_external n = [] then ret None
            else on_result (FindTaskByExternalID (kn_external n) []) (\<lambda>r. ret (case r of Inl _ \<Rightarrow> None | Inr t \<Rightarrow> Some t))) (\<lambda>f.
       if f = None \<and> kn_task_id n \<noteq> []
       then on_result (FindTaskByTaskID (kn_task_id n)) (\<lambda>r. ret (case r of Inl _ \<Rightarrow> None | Inr t \<Rightarrow> Some t))
       else ret f)"

definition HandleKlingCallback ::
    "kling_env \<Rightarrow> delivery \<Rightarrow> (string \<Rightarrow> kling_notification option) \<Rightarrow> gerr + string \<Rightarrow> (int \<times> string) op" where
  "HandleKlingCallback env delivery parse body =
     (case body of
        Inl _ \<Rightarrow> ret (400, ''invalid request'')
      | Inr raw \<Rightarrow>
          (case parse raw of
             None \<Rightarrow> ret (400, ''invalid payload'')
           | Some n \<Rightarrow> on_ok (find_notified n) (\<lambda>f. case f of
               None \<Rightarrow> ret (404, ''task not found'')
             | Some t \<Rightarrow> handleKlingCallback env delivery t n)))"

section \<open>Faces and lips\<close>

text \<open>The decoded answer of \<open>identify-face\<close>.\<close>

record face_response =
  fr_code :: int
  fr_session :: string
  fr_text :: string

definition DoIdentifyFace ::
    "kling_env \<Rightarrow> relay_meta \<Rightarrow> gerr + string \<Rightarrow> (json \<Rightarrow> gerr + gerr + face_response option) \<Rightarrow> video_reply op" where
  "DoIdentifyFace env m body call =
     (case body of
        Inl e \<Rightarrow> ret (Refused (error_text e) ''invalid_request_body'' 400)
      | Inr b \<Rightarrow>
        (case (case json_parse b of Some JNull \<Rightarrow> Some JNull | Some (JObj f) \<Rightarrow> Some (JObj f) | _ \<Rightarrow> None) of
           None \<Rightarrow> ret (Refused [] ''invalid_request_json'' 400)
         | Some p \<Rightarrow>
           if (obj_field ''video_id'' p = None) = (obj_field ''video_url'' p = None)
           then ret (Refused ''exactly one of video_id or video_url must be provided'' ''invalid_parameters'' 400)
           else on_result (GetChannelById (rm_channel_id m) True) (\<lambda>c. case c of
               Inl e \<Rightarrow> ret (Refused (error_text e) ''get_channel_error'' 500)
             | Inr _ \<Rightarrow>
               (case call p of
                  Inl e \<Rightarrow> ret (Refused (error_text e) ''request_failed'' 500)
                | Inr (Inl e) \<Rightarrow> ret (Refused (error_text e) ''read_response_failed'' 500)
                | Inr (Inr None) \<Rightarrow> ret (Refused [] ''parse_response_failed'' 500)
                | Inr (Inr (Some r)) \<Rightarrow>
                    if fr_code r \<noteq> 0 then ret (Forwarded 200 (fr_text r))
                    else reading (\<lambda>w.
                      let model = GetModelNameByRequestType RequestTypeIdentifyFace (GetModelNameFromRequest p);
                          price = CalculateVideoQuota (ve_rules env) (ve_rate env) (cfg_quota_per_unit (w_cfg w))
                            \<lparr>vs_model = model, vs_type = RequestTypeIdentifyFace, vs_mode = ''std'', vs_duration = ''0'',
                             vs_resolution = [], vs_sound = []\<rparr>;
                          quota = f_to_int64 (fmul (f_of_int price) (GetModelDiscount (ve_pricing env) model))
                      in on_ok (username_of (rm_user_id m)) (\<lambda>name.
                           then_do (ignore_err (Video_Insert (blank_video\<lparr>v_task_id := fr_session r, v_user_id := rm_user_id m,
                             v_username := name, v_channel_id := rm_channel_id m, v_model := model, v_provider := ''kling'',
                             v_type := RequestTypeIdentifyFace, v_status := ''succeed'', v_quota := quota, v_mode := ''std'',
                             v_video_id := fr_session r, v_result := fr_text r\<rparr>)))
                          (then_do (if 0 < quota then ignore_err (DecreaseUserQuota (rm_user_id m) quota) else ret ())
                             (ret (Forwarded 200 (fr_text r))))))))))"

definition DoAdvancedLipSync ::
    "kling_env \<Rightarrow> relay_meta \<Rightarrow> string \<Rightarrow> gerr + string \<Rightarrow> kling_call \<Rightarrow> video_reply op" where
  "DoAdvancedLipSync env m ctx body call =
     (case body of
        Inl e \<Rightarrow> ret (Refused (error_text e) ''invalid_request_body'' 400)
      | Inr b \<Rightarrow>
        (case (case json_parse b of Some JNull \<Rightarrow> Some JNull | Some (JObj f) \<Rightarrow> Some (JObj f) | _ \<Rightarrow> None) of
           None \<Rightarrow> ret (Refused [] ''invalid_request_json'' 400)
         | Some p \<Rightarrow> reading (\<lambda>w.
           let named = GetModelNameFromRequest p;
               model = (if named = [] then ''kling-v1'' else named);
               price = CalculateVideoQuota (ve_rules env) (ve_rate env) (cfg_quota_per_unit (w_cfg w))
                 \<lparr>vs_model = model, vs_type = RequestTypeAdvancedLipSync, vs_mode = [], vs_duration = [], vs_resolution = [], vs_sound = []\<rparr>;
               quota = f_to_int64 (fmul (f_of_int price) (GetModelDiscount (ve_pricing env) model));
               callback_url = (if ke_server env = [] then [] else ke_server env @ ''/kling/internal/callback'')
           in on_result (CacheGetUserQuota (rm_user_id m)) (\<lambda>r. case r of
                Inl e \<Rightarrow> ret (Refused (error_text e) ''get_user_quota_error'' 500)
              | Inr user_quota \<Rightarrow>
                if user_quota < quota then ret (Refused ''insufficient balance'' ''insufficient_quota'' 402)
                else on_result (GetChannelById (rm_channel_id m) True) (\<lambda>c. case c of
                    Inl e \<Rightarrow> ret (Refused (error_text e) ''get_channel_error'' 500)
                  | Inr _ \<Rightarrow> on_ok (username_of (rm_user_id m)) (\<lambda>name.
                    on_result (Video_Insert (blank_video\<lparr>v_user_id := rm_user_id m, v_username := name,
                        v_channel_id := rm_channel_id m, v_model := model, v_provider := ''kling'',
                        v_type := RequestTypeAdvancedLipSync, v_quota := quota\<rparr>)) (\<lambda>i. case i of
                      Inl e \<Rightarrow> ret (Refused (error_text e) ''database_error'' 500)
                    | Inr v \<Rightarrow>
                      (let failed = (\<lambda>why. ignore_err (Video_Update (v\<lparr>v_status := ''failed'', v_fail_reason := why\<rparr>)))
                       in case ConvertKlingRequest ctx p callback_url of
                            None \<Rightarrow> fail Panic
                          | Some sent \<Rightarrow>
                            (case call sent of
                               Inl e \<Rightarrow> then_do (failed (error_text e)) (ret (Refused (error_text e) ''request_failed'' 500))
                             | Inr (Inl (code, msg)) \<Rightarrow> then_do (failed msg) (ret (Refused msg [] code))
                             | Inr (Inr k) \<Rightarrow>
                               if kr_code k \<noteq> 0 then then_do (failed (kr_message k)) (ret (Forwarded 200 (kr_text k)))
                               else then_do (ignore_err (Video_Update
                                   (v\<lparr>v_task_id := GetString ''task_id'' k, v_status := GetString ''task_status'' k\<rparr>)))
                                 (ret (Forwarded 200 (kr_text k))))))))))))"

section \<open>Queries\<close>

text \<open>What a client is shown: the state of the row, or what its result text can be read as.\<close>

datatype task_view = BadTask int string | TaskState string string string int int | TaskAnswer string string | RawAnswer string

text \<open>\<open>readers\<close>: the notification, the creation and the query formats of a result, each with its task.\<close>

definition GetKlingVideoResult :: "(string \<Rightarrow> (string \<times> string) option) list \<Rightarrow> string \<Rightarrow> task_view op" where
  "GetKlingVideoResult readers task =
     (if task = [] then ret (BadTask 400 ''task_id parameter is missing'')
      else on_result (FindTaskByTaskID task) (\<lambda>r. ret (case r of
          Inl e \<Rightarrow> BadTask 404 (error_text e)
        | Inr t \<Rightarrow>
            (let (res, st, why, created, updated) =
               (case t of KVideo v \<Rightarrow> (v_result v, v_status v, v_fail_reason v, v_created_at v, v_updated_at v)
                        | KImage i \<Rightarrow> (i_result i, i_status i, i_fail_reason i, i_created_at i, i_updated_at i))
             in if res = [] then TaskState task st why (wrap64 (created * 1000)) (wrap64 (updated * 1000))
                else case List.find (\<lambda>(tid, _). tid \<noteq> []) (List.map_filter (\<lambda>rd. rd res) readers) of
                       Some (tid, shown) \<Rightarrow> TaskAnswer tid shown
                     | None \<Rightarrow> RawAnswer res))))"

datatype http_method = GET | POST | PUT | DELETE

text \<open>The pass-through: the channel of the task or of the resources of the request, and the call on it.\<close>

definition RelayKlingTransparent ::
    "kling_env \<Rightarrow> relay_meta \<Rightarrow> http_method \<Rightarrow> string \<Rightarrow> gerr + string \<Rightarrow> (channel \<Rightarrow> string \<Rightarrow> gerr + (gerr + int \<times> string)) \<Rightarrow> video_reply op" where
  "RelayKlingTransparent env m method path body call =
     on_result (GetChannelById (rm_channel_id m) True) (\<lambda>c. case c of
       Inl e \<Rightarrow> ret (Refused (error_text e) ''get_channel_error'' 500)
     | Inr ch \<Rightarrow>
         on_ok (case method of
             GET \<Rightarrow> resolveChannelForTaskQuery path (rm_user_id m)
           | POST \<Rightarrow> (case body of Inl _ \<Rightarrow> ret None
               | Inr b \<Rightarrow> (case json_parse b of
                   Some (JObj f) \<Rightarrow> resolveChannelForBoundResource env (JObj f) (rm_user_id m)
                 | _ \<Rightarrow> ret None))
           | _ \<Rightarrow> ret None) (\<lambda>bound.
           let asked = (case bound of Some b \<Rightarrow> b | None \<Rightarrow> ch)
           in if DetermineRequestType path = [] then ret (Refused ''unsupported endpoint'' ''invalid_endpoint'' 400)
              else case (if method = POST \<or> method = PUT then body else Inr []) of
                Inl e \<Rightarrow> ret (Refused (error_text e) ''invalid_request_body'' 400)
              | Inr sent \<Rightarrow> (case call asked sent of
                Inl e \<Rightarrow> ret (Refused (error_text e) ''request_failed'' 500)
              | Inr (Inl e) \<Rightarrow> ret (Refused (error_text e) ''read_response_failed'' 500)
              | Inr (Inr (status, text)) \<Rightarrow> ret (Forwarded status text))))"

section \<open>What callbacks charge\<close>

text \<open>The parts of a row that its price depends on; no callback changes them.\<close>

definition same_task :: "video \<Rightarrow> video \<Rightarrow> bool" where
  "same_task r v \<longleftrightarrow> v_user_id v = v_user_id r \<and> v_model v = v_model r \<and> v_type v = v_type r \<and> v_mode v = v_mode r \<and>
     v_resolution v = v_resolution r \<and> v_sound v = v_sound r"

lemma same_task_refl: "same_task r r"
  by (simp add: same_task_def)

lemma same_task_columns: "same_task r v \<Longrightarrow> same_task r (set_columns v r)"
  by (simp add: same_task_def set_columns_def nz_def ne_def)

lemma same_task_trans: "same_task a b \<Longrightarrow> same_task b c \<Longrightarrow> same_task a c"
  by (simp add: same_task_def)

text \<open>The effect of writing a copy of the row and notifying the user.\<close>

lemma row_saved:
  assumes "calm w" "task_at (w_db w) task = Some row" "ids_distinct (w_db w)" "task \<noteq> []"
    and v: "v_id v = v_id row" "v_task_id v = task" "same_task row v"
  shows "\<exists>w' row'. Video_Update v w = (Inr (), w') \<and> calm w' \<and> w_cfg w' = w_cfg w \<and> ids_distinct (w_db w') \<and>
    task_at (w_db w') task = Some row' \<and> same_task row row' \<and> v_id row' = v_id row \<and>
    v_status row' = ne (v_status v) (v_status row) \<and> quota_at (w_db w') = quota_at (w_db w)"
proof -
  let ?row = "set_columns (v\<lparr>v_updated_at := w_now w\<rparr>) row"
  have "same_task row (v\<lparr>v_updated_at := w_now w\<rparr>)" using v(3) by (simp add: same_task_def)
  then have "same_task row ?row" by (rule same_task_columns)
  moreover have "v_id ?row = v_id row" "v_status ?row = ne (v_status v) (v_status row)" by (simp_all add: set_columns_def)
  ultimately show ?thesis using row_update_effect [OF assms(1-3) v(1,2) assms(4)] by metis
qed

definition callback_columns :: "video \<Rightarrow> video \<Rightarrow> bool" where
  "callback_columns v u \<longleftrightarrow> v_id u = v_id v \<and> v_task_id u = v_task_id v \<and> v_status u = v_status v \<and> same_task v u"

lemma notified_columns: "callback_columns v (notified_row env delivery now v)"
  by (simp add: callback_columns_def same_task_def notified_row_def Let_def split: option.split sum.split prod.split)

lemma notify_updates:
  "snd (NotifyUserCallback env delivery v w) = w \<or>
   (\<exists>u. callback_columns v u \<and> snd (NotifyUserCallback env delivery v w) = snd (Video_Update u w))"
  using notified_columns [of v env delivery "w_now w"]
  by (auto simp: NotifyUserCallback_def reading_def ignore_err_world ret_def)

lemma task_saved:
  assumes w: "calm w" "task_at (w_db w) task = Some row" "ids_distinct (w_db w)" "task \<noteq> []"
    and v: "v_id v = v_id row" "v_task_id v = task" "same_task row v"
    and w': "w' = snd (NotifyUserCallback env delivery v (snd (Video_Update v w)))"
  shows "\<exists>row'. calm w' \<and> w_cfg w' = w_cfg w \<and> ids_distinct (w_db w') \<and> task_at (w_db w') task = Some row' \<and>
    same_task row row' \<and> v_status row' = ne (v_status v) (v_status row) \<and> quota_at (w_db w') = quota_at (w_db w)"
proof -
  obtain w1 row1 where 1: "Video_Update v w = (Inr (), w1)" "calm w1" "w_cfg w1 = w_cfg w" "ids_distinct (w_db w1)"
    "task_at (w_db w1) task = Some row1" "same_task row row1" "v_id row1 = v_id row"
    "v_status row1 = ne (v_status v) (v_status row)" "quota_at (w_db w1) = quota_at (w_db w)"
    using row_saved [OF w v] by blast
  consider "w' = w1" | u where "callback_columns v u" "w' = snd (Video_Update u w1)"
    using notify_updates [of env delivery v w1] w' 1(1) by auto
  then show ?thesis
  proof cases
    case 2
    then have u: "v_id u = v_id row1" "v_task_id u = task" "same_task row1 u" "v_status u = v_status v"
      using v 1(6,7) by (auto simp: callback_columns_def same_task_def)
    from row_saved [OF 1(2,5,4) w(4) u(1-3)] 2(2) 1 u(4) show ?thesis
      by (auto simp: ne_def intro: same_task_trans)
  qed (use 1 in auto)
qed

definition kling_due :: "kling_env \<Rightarrow> f64 \<Rightarrow> video \<Rightarrow> kling_notification \<Rightarrow> int" where
  "kling_due env qpu row n =
     (if kn_status n = ''succeed'' then
        (case kn_videos n of [] \<Rightarrow> 0
         | out # _ \<Rightarrow> max 0 (deducted_price env (kn_deduction n) (system_price env qpu (kv_duration out) row)))
      else 0)"

lemma same_price: "same_task r v \<Longrightarrow> system_price env qpu d v = system_price env qpu d r"
  by (simp add: same_task_def system_price_def)

lemma decrease_effect:
  assumes "calm w"
  shows "moves w (snd (DecreaseUserQuota uid q w)) uid (- max 0 q)"
proof (cases "q < 0")
  case True
  then show ?thesis using moves_refl [OF assms] by (simp add: DecreaseUserQuota_def fail_def)
next
  case False
  then show ?thesis using moves_quota(2) [OF assms, of q uid] by auto
qed

lemma then_ignored: "snd (then_do (ignore_err f) g w) = snd (g (snd (f w)))"
  by (simp add: op_defs split: prod.split sum.split)

lemma notify_world:
  "snd (then_do (notify_user env delivery (KVideo v)) (ret r) w) = snd (NotifyUserCallback env delivery v w)"
  by (simp add: notify_user_def op_defs split: prod.split sum.split)

lemma callback_effect:
  assumes w: "calm w" "task_at (w_db w) task = Some row" "ids_distinct (w_db w)" "task \<noteq> []"
    and open_row: "\<not> final_kling (v_status row)"
    and w': "w' = snd (handleKlingCallback env delivery (KVideo row) n w)"
  shows "\<exists>row'. calm w' \<and> w_cfg w' = w_cfg w \<and> ids_distinct (w_db w') \<and> task_at (w_db w') task = Some row' \<and>
    same_task row row' \<and> v_status row' = ne (kn_status n) (v_status row) \<and>
    quota_at (w_db w') = credit (v_user_id row) (- kling_due env (cfg_quota_per_unit (w_cfg w)) row n) (quota_at (w_db w))"
proof -
  let ?v = "row\<lparr>v_result := kn_text n, v_status := kn_status n\<rparr>"
  have task: "v_task_id row = task" using w(2) find_SomeD unfolding task_at_def by fastforce
  have free: ?thesis if "same_task row u" "v_id u = v_id row" "v_task_id u = task" "v_status u = kn_status n"
    "w' = snd (NotifyUserCallback env delivery u (snd (Video_Update u w)))" "kling_due env (cfg_quota_per_unit (w_cfg w)) row n = 0" for u
    using task_saved [OF w that(2,3,1,5)] that(4,6) by auto
  consider (charged) out outs where "kn_status n = ''succeed''" "kn_videos n = out # outs"
    | (empty) "kn_status n = ''succeed''" "kn_videos n = []" | (other) "kn_status n \<noteq> ''succeed''"
    by (cases "kn_videos n") auto
  then show ?thesis
  proof cases
    case charged
    let ?q = "deducted_price env (kn_deduction n) (system_price env (cfg_quota_per_unit (w_cfg w)) (kv_duration out) ?v)"
    let ?u = "?v\<lparr>v_store_url := kv_url out, v_video_id := kv_id out, v_duration := kv_duration out, v_quota := ?q,
        v_total_duration := w_now w - v_created_at row\<rparr>"
    let ?w1 = "snd (DecreaseUserQuota (v_user_id row) ?q w)"
    have due: "max 0 ?q = kling_due env (cfg_quota_per_unit (w_cfg w)) row n"
      using charged same_price [of row ?v] by (simp add: kling_due_def same_task_def)
    have m: "moves w ?w1 (v_user_id row) (- max 0 ?q)" by (rule decrease_effect [OF w(1)])
    then have w1: "calm ?w1" "task_at (w_db ?w1) task = Some row" "ids_distinct (w_db ?w1)"
      using w(2,3) by (simp_all add: moves_def task_at_def ids_distinct_def)
    have u: "v_id ?u = v_id row" "v_task_id ?u = task" "same_task row ?u" using task by (simp_all add: same_task_def)
    have "w' = snd (NotifyUserCallback env delivery ?u (snd (Video_Update ?u ?w1)))"
      using charged open_row unfolding w' handleKlingCallback_def reading_def Let_def
      by (simp add: then_ignored notify_world)
    from task_saved [OF w1 w(4) u this] m due charged show ?thesis by (auto simp: moves_def)
  next
    case empty
    have "w' = snd (NotifyUserCallback env delivery ?v (snd (Video_Update ?v w)))"
      using empty open_row unfolding w' handleKlingCallback_def reading_def Let_def
      by (simp add: then_ignored notify_world)
    then show ?thesis using free [of ?v] empty task by (simp add: kling_due_def same_task_def)
  next
    case other
    let ?u = "(if kn_status n = ''failed'' then ?v\<lparr>v_fail_reason := kn_msg n\<rparr> else ?v)\<lparr>v_total_duration := w_now w - v_created_at row\<rparr>"
    have "w' = snd (NotifyUserCallback env delivery ?u (snd (Video_Update ?u w)))"
      using other open_row unfolding w' handleKlingCallback_def reading_def Let_def
      by (simp add: then_ignored notify_world)
    then show ?thesis using free [of ?u] other task by (simp add: kling_due_def same_task_def)
  qed
qed

definition run_kling ::
    "kling_env \<Rightarrow> delivery \<Rightarrow> (string \<Rightarrow> kling_notification option) \<Rightarrow> string list \<Rightarrow> world \<Rightarrow> world" where
  "run_kling env delivery parse bodies w = fold (\<lambda>raw w. snd (HandleKlingCallback env delivery parse (Inr raw) w)) bodies w"

lemma run_kling_simps [simp]:
  "run_kling env delivery parse [] w = w"
  "run_kling env delivery parse (raw # bodies) w =
     run_kling env delivery parse bodies (snd (HandleKlingCallback env delivery parse (Inr raw) w))"
  by (simp_all add: run_kling_def)

text \<open>The notification in a body about a task that is named by its \<open>task_id\<close> alone.\<close>

definition notifies :: "(string \<Rightarrow> kling_notification option) \<Rightarrow> string \<Rightarrow> string \<Rightarrow> bool" where
  "notifies parse task raw \<longleftrightarrow> (case parse raw of None \<Rightarrow> False | Some n \<Rightarrow> kn_task_id n = task \<and> kn_external n = [])"

definition first_final :: "(string \<Rightarrow> kling_notification option) \<Rightarrow> string list \<Rightarrow> kling_notification option" where
  "first_final parse bodies = List.find (\<lambda>n. final_kling (kn_status n)) (map (\<lambda>raw. the (parse raw)) bodies)"

lemma callback_runs:
  assumes "calm w" "task_at (w_db w) task = Some row" "task \<noteq> []" "notifies parse task raw"
  shows "snd (HandleKlingCallback env delivery parse (Inr raw) w) =
    snd (handleKlingCallback env delivery (KVideo row) (the (parse raw)) w)"
proof -
  obtain n where n: "parse raw = Some n" "kn_task_id n = task" "kn_external n = []"
    using assms(4) by (auto simp: notifies_def split: option.splits)
  have "find_notified n w = (Inr (Some (KVideo row)), w)"
    using n assms(1-3) by (simp add: find_notified_def FindTaskByTaskID_def op_defs calm_lookup)
  then show ?thesis by (simp add: HandleKlingCallback_def n(1) on_ok_def)
qed

lemma final_row_kept:
  assumes "calm w" "task_at (w_db w) task = Some row" "task \<noteq> []" "final_kling (v_status row)"
    and "\<forall>raw\<in>set bodies. notifies parse task raw"
  shows "run_kling env delivery parse bodies w = w"
  using assms(5)
proof (induction bodies)
  case (Cons raw bodies)
  have "snd (HandleKlingCallback env delivery parse (Inr raw) w) = w"
    using callback_runs [OF assms(1-3)] Cons.prems assms(4) by (simp add: handleKlingCallback_def ret_def)
  with Cons show ?case by simp
qed simp

lemma due_same: "same_task r v \<Longrightarrow> kling_due env qpu v n = kling_due env qpu r n"
  by (simp add: kling_due_def same_price split: list.split)

lemma status_ne: "\<not> final_kling t \<Longrightarrow> final_kling (ne s t) = final_kling s"
  by (auto simp: ne_def final_kling_def)

lemma kling_run:
  assumes "calm w" "task_at (w_db w) task = Some row" "ids_distinct (w_db w)" "task \<noteq> []" "\<not> final_kling (v_status row)"
    and "\<forall>raw\<in>set bodies. notifies parse task raw"
  shows "\<exists>row'. task_at (w_db (run_kling env delivery parse bodies w)) task = Some row' \<and>
    (final_kling (v_status row') \<longleftrightarrow> first_final parse bodies \<noteq> None) \<and>
    quota_at (w_db (run_kling env delivery parse bodies w)) =
      credit (v_user_id row)
        (- (case first_final parse bodies of None \<Rightarrow> 0 | Some n \<Rightarrow> kling_due env (cfg_quota_per_unit (w_cfg w)) row n))
        (quota_at (w_db w))"
  using assms
proof (induction bodies arbitrary: w row)
  case Nil
  then show ?case by (simp add: first_final_def)
next
  case (Cons raw bodies)
  let ?n = "the (parse raw)" and ?w = "snd (HandleKlingCallback env delivery parse (Inr raw) w)"
  have about: "notifies parse task raw" "\<forall>raw\<in>set bodies. notifies parse task raw" using Cons.prems(6) by simp_all
  obtain r where r: "calm ?w" "w_cfg ?w = w_cfg w" "ids_distinct (w_db ?w)" "task_at (w_db ?w) task = Some r" "same_task row r"
    "v_status r = ne (kn_status ?n) (v_status row)"
    "quota_at (w_db ?w) = credit (v_user_id row) (- kling_due env (cfg_quota_per_unit (w_cfg w)) row ?n) (quota_at (w_db w))"
    using callback_effect [OF Cons.prems(1-5) callback_runs [OF Cons.prems(1,2,4) about(1)]] by blast
  show ?case
  proof (cases "final_kling (kn_status ?n)")
    case True
    then have f: "final_kling (v_status r)" using r(6) by (auto simp: ne_def final_kling_def)
    have "run_kling env delivery parse bodies ?w = ?w" by (rule final_row_kept [OF r(1,4) Cons.prems(4) f about(2)])
    with True f r show ?thesis by (simp add: first_final_def)
  next
    case False
    then have "\<not> final_kling (v_status r)" using r(6) Cons.prems(5) status_ne by simp
    from Cons.IH [OF r(1,4,3) Cons.prems(4) this about(2)] obtain row' where
      "task_at (w_db (run_kling env delivery parse bodies ?w)) task = Some row'"
      "final_kling (v_status row') \<longleftrightarrow> first_final parse bodies \<noteq> None"
      "quota_at (w_db (run_kling env delivery parse bodies ?w)) =
        credit (v_user_id r) (- (case first_final parse bodies of None \<Rightarrow> 0 | Some n \<Rightarrow> kling_due env (cfg_quota_per_unit (w_cfg ?w)) r n))
          (quota_at (w_db ?w))" by blast
    moreover have "first_final parse (raw # bodies) = first_final parse bodies" using False by (simp add: first_final_def)
    moreover have "kling_due env (cfg_quota_per_unit (w_cfg w)) row ?n = 0" using False by (auto simp: kling_due_def final_kling_def)
    moreover have "v_user_id r = v_user_id row" using r(5) by (simp add: same_task_def)
    ultimately show ?thesis using r(2,5,7) by (simp add: due_same [OF r(5)] split: option.split)
  qed
qed


section \<open>Callbacks that name another task\<close>

lemma digit_is_no_sign: "is_digit c \<Longrightarrow> \<not> is_space c \<and> c \<noteq> CHR ''-'' \<and> c \<noteq> CHR ''+''"
  by (auto simp: is_digit_def digit_val_def is_space_def Let_def split: if_splits)

lemma digits_are_digits: "\<forall>c\<in>set (nat_digits n). is_digit c \<and> \<not> is_space c \<and> c \<noteq> CHR ''-'' \<and> c \<noteq> CHR ''+''"
proof (induction n rule: nat_digits.induct)
  case (1 n)
  have d: "is_digit (digit_char k)" if "k < 10" for k using that by (simp only: is_digit_def digit_val_char) simp
  have "\<forall>c\<in>set (nat_digits n). is_digit c"
    using 1 d by (simp add: nat_digits.simps [of n])
  then show ?case using digit_is_no_sign by blast
qed

lemma scan_itoa:
  assumes "0 \<le> i" "in_int64 i"
  shows "scan_int (itoa i) = Some i"
proof -
  let ?t = "nat_digits (nat i)"
  obtain k s where k: "k < 10" "?t = digit_char k # s" using nat_digits_hd by blast
  have d: "\<forall>c\<in>set ?t. is_digit c \<and> \<not> is_space c \<and> c \<noteq> CHR ''-'' \<and> c \<noteq> CHR ''+''" by (rule digits_are_digits)
  have "dropWhile (\<lambda>c. is_space c \<and> c \<noteq> CHR 0x0A) ?t = ?t" using d k(2) by simp
  moreover have "takeWhile (\<lambda>c. c = CHR ''-'' \<or> c = CHR ''+'') (take 1 ?t) = []" using d k(2) by simp
  moreover have "takeWhile is_digit ?t = ?t" using d by (simp add: takeWhile_eq_all_conv)
  ultimately show ?thesis using assms k(2) parse_itoa [OF assms(2)] by (simp add: scan_int_def itoa_def)
qed

definition other_rows :: "int \<Rightarrow> db \<Rightarrow> video list" where
  "other_rows i d = filter (\<lambda>r. v_id r \<noteq> i) (d_videos d)"

lemma update_quiet:
  assumes "calm w" "v_id v = i"
  shows "calm (snd (Video_Update v w)) \<and> quota_at (w_db (snd (Video_Update v w))) = quota_at (w_db w) \<and>
    other_rows i (w_db (snd (Video_Update v w))) = other_rows i (w_db w)"
proof -
  let ?u = "set_columns (v\<lparr>v_updated_at := w_now w\<rparr>)"
  let ?d = "d_videos_update (update_rows (\<lambda>r. v_id r = i) ?u) (w_db w)"
  have "filter (\<lambda>r. v_id r \<noteq> i) (update_rows (\<lambda>r. v_id r = i) ?u vs) = filter (\<lambda>r. v_id r \<noteq> i) vs" for vs
    by (induction vs) (auto simp: update_rows_def set_columns_def)
  then have "other_rows i ?d = other_rows i (w_db w)" by (simp add: other_rows_def)
  moreover have "quota_at ?d = quota_at (w_db w)" by (simp add: quota_at_def user_of_def fun_eq_iff)
  moreover have "snd (Video_Update v w) = w\<lparr>w_db := ?d\<rparr>"
    using assms by (simp add: Video_Update_def reading_def stmt_def op_defs calm_statements)
  ultimately show ?thesis using assms(1) by simp
qed

lemma notify_quiet:
  assumes "calm w" "v_id v = i"
  shows "quota_at (w_db (snd (NotifyUserCallback env delivery v w))) = quota_at (w_db w) \<and>
    other_rows i (w_db (snd (NotifyUserCallback env delivery v w))) = other_rows i (w_db w)"
  using notify_updates [of env delivery v w]
proof (elim disjE exE conjE)
  fix u
  assume "callback_columns v u" "snd (NotifyUserCallback env delivery v w) = snd (Video_Update u w)"
  with update_quiet [OF assms(1), of u i] assms(2) show ?thesis by (simp add: callback_columns_def)
qed simp

lemma charge_by_copy:
  assumes "calm w" "\<not> final_kling (v_status v)" "kn_status n = ''succeed''" "kn_videos n \<noteq> []"
    and "w' = snd (handleKlingCallback env delivery (KVideo v) n w)"
  shows "quota_at (w_db w') = credit (v_user_id v) (- kling_due env (cfg_quota_per_unit (w_cfg w)) v n) (quota_at (w_db w)) \<and>
    other_rows (v_id v) (w_db w') = other_rows (v_id v) (w_db w)"
proof -
  obtain out outs where o: "kn_videos n = out # outs" using assms(4) by (cases "kn_videos n") auto
  let ?v = "v\<lparr>v_result := kn_text n, v_status := ''succeed''\<rparr>"
  let ?q = "deducted_price env (kn_deduction n) (system_price env (cfg_quota_per_unit (w_cfg w)) (kv_duration out) ?v)"
  let ?u = "?v\<lparr>v_store_url := kv_url out, v_video_id := kv_id out, v_duration := kv_duration out, v_quota := ?q,
        v_total_duration := w_now w - v_created_at v\<rparr>"
  let ?w1 = "snd (DecreaseUserQuota (v_user_id v) ?q w)"
  have run: "w' = snd (NotifyUserCallback env delivery ?u (snd (Video_Update ?u ?w1)))"
    using assms(2,3) o unfolding assms(5) handleKlingCallback_def reading_def Let_def
    by (simp add: then_ignored notify_world)
  have m: "moves w ?w1 (v_user_id v) (- max 0 ?q)" by (rule decrease_effect [OF assms(1)])
  have due: "max 0 ?q = kling_due env (cfg_quota_per_unit (w_cfg w)) v n"
    using assms(3) o same_price [of v ?v] by (simp add: kling_due_def same_task_def)
  have id: "v_id ?u = v_id v" by simp
  note u = update_quiet [OF moves_calm [OF m] id]
  from notify_quiet [OF conjunct1 [OF u] id, of env delivery] u m show ?thesis
    unfolding run due [symmetric] by (simp add: moves_def other_rows_def)
qed

text \<open>
  C16. Nothing sets \<open>external_task_id\<close> any more, so a client may. A success that names, as the external
  identifier, the key of an unfinished row charges the owner of that row, whatever its provider and
  its task, and leaves every other row as it is, that of the task itself among them.
\<close>

theorem callback_charges_other_task:
  assumes "calm w" "List.find (\<lambda>r. v_id r = i) (d_videos (w_db w)) = Some victim" "\<not> final_kling (v_status victim)"
    and "parse raw = Some n" "kn_external n = itoa i" "0 \<le> i" "in_int64 i"
    and "kn_status n = ''succeed''" "kn_videos n \<noteq> []"
  shows "(\<forall>uid. quota_at (w_db (snd (HandleKlingCallback env delivery parse (Inr raw) w))) uid =
      (if uid = v_user_id victim
       then map_option (\<lambda>x. x - kling_due env (cfg_quota_per_unit (w_cfg w)) victim n) (quota_at (w_db w) uid)
       else quota_at (w_db w) uid)) \<and>
    filter (\<lambda>r. v_id r \<noteq> i) (d_videos (w_db (snd (HandleKlingCallback env delivery parse (Inr raw) w)))) =
      filter (\<lambda>r. v_id r \<noteq> i) (d_videos (w_db w))"
proof -
  have id: "v_id victim = i" using assms(2) find_SomeD by fastforce
  have "itoa i \<noteq> []" using nat_digits_hd [of "nat i"] assms(6) by (auto simp: itoa_def)
  then have "find_notified n w = (Inr (Some (KVideo victim)), w)"
    using assms(1,2,5) scan_itoa [OF assms(6,7)]
    by (simp add: find_notified_def FindTaskByExternalID_def IsImageRequestType_def GetVideoTaskByInternalId_def not_found_as_def
      op_defs calm_statements kling_types)
  then have "snd (HandleKlingCallback env delivery parse (Inr raw) w) = snd (handleKlingCallback env delivery (KVideo victim) n w)"
    by (simp add: HandleKlingCallback_def assms(4) on_ok_def)
  with charge_by_copy [OF assms(1,3,8,9), of _ env delivery] id show ?thesis
    by (simp add: other_rows_def credit_def)
qed

text \<open>
  A success without videos is saved and costs nothing: so are the results of the image and audio tasks of
  Kling, which the code does not decode.
\<close>

lemma image_update_quiet:
  assumes "calm w" "i_id im \<noteq> 0"
  shows "quota_at (w_db (snd (Image_Update im w))) = quota_at (w_db w)"
proof -
  have q: "quota_at (d_images_update f d) = quota_at d" for f d by (simp add: quota_at_def user_of_def fun_eq_iff)
  from assms show ?thesis
    by (simp add: Image_Update_def reading_def Let_def op_defs calm_statements exec_reliable calm_def q split: prod.split)
qed

lemma image_results_free:
  assumes "calm w" "i_id im \<noteq> 0" "kn_status n = ''succeed''" "kn_videos n = []"
  shows "quota_at (w_db (snd (handleKlingCallback env delivery (KImage im) n w))) = quota_at (w_db w)"
proof -
  have n: "snd (then_do (notify_user env delivery (KImage x)) (ret r) w') = w'" for x r w'
    by (simp add: notify_user_def op_defs)
  show ?thesis
    using assms image_update_quiet [OF assms(1), of "im\<lparr>i_result := kn_text n, i_status := ''succeed''\<rparr>"]
    by (simp add: handleKlingCallback_def reading_def Let_def then_ignored n) (simp add: ret_def)
qed

section \<open>Witnesses\<close>

definition kt_env :: kling_env where
  "kt_env = \<lparr>ve_rules = [], ve_rate = flit 1 16384, ve_trunc = (\<lambda>_. 0), ve_pricing = initial_pricing, ke_num = (\<lambda>_. fzero),
     ke_parse_float = (\<lambda>_. Some (f_of_int 1)), ke_text = (\<lambda>_. []), ke_server = ''https://gw'', ke_url = (\<lambda>_. Inr (''https'', ''h'')),
     ke_ip = (\<lambda>_. Some (IP4 0x08080808)), ke_lookup = (\<lambda>_. None)\<rparr>"

definition kt_row :: "int \<Rightarrow> string \<Rightarrow> int \<Rightarrow> video" where
  "kt_row i task uid = blank_video\<lparr>v_id := i, v_task_id := task, v_status := ''submitted'', v_user_id := uid, v_quota := 40,
     v_model := ''kling-v1'', v_type := ''text2video'', v_mode := ''std'', v_provider := ''kling''\<rparr>"

definition kt_world :: world where
  "kt_world = world_with (demo_db\<lparr>d_videos := [kt_row 4 ''mine'' 1, kt_row 5 ''other'' 2]\<rparr>) 77"

text \<open>The body \<open>x\<close> reports a success of \<open>mine\<close>, \<open>f\<close> its failure, \<open>p\<close> progress, \<open>e\<close> a success that names row 5.\<close>

definition kt_parse :: "string \<Rightarrow> kling_notification option" where
  "kt_parse raw = Some \<lparr>kn_task_id = ''mine'',
     kn_status = (if raw = ''f'' then ''failed'' else if raw = ''p'' then ''processing'' else ''succeed''), kn_msg = [],
     kn_videos = [\<lparr>kv_id = ''v'', kv_url = ''u'', kv_duration = ''5''\<rparr>],
     kn_external = (if raw = ''e'' then itoa 5 else []), kn_deduction = ''1'', kn_text = raw\<rparr>"

lemma kt_facts:
  "calm kt_world" "task_at (w_db kt_world) ''mine'' = Some (kt_row 4 ''mine'' 1)" "ids_distinct (w_db kt_world)"
  "List.find (\<lambda>r. v_id r = 5) (d_videos (w_db kt_world)) = Some (kt_row 5 ''other'' 2)"
  "\<not> final_kling (v_status (kt_row i t u))" "v_user_id (kt_row i t u) = u"
  "quota_at (w_db kt_world) 1 = Some 1000" "quota_at (w_db kt_world) 2 = Some 50"
  by (simp_all add: kt_world_def kt_row_def calm_def run_simps default_config_def task_at_def ids_distinct_def quota_at_def
    blank_video_def final_kling_def)

lemma kt_notifies: "raw \<noteq> ''e'' \<Longrightarrow> notifies kt_parse ''mine'' raw"
  by (simp add: notifies_def kt_parse_def)

text \<open>A deduction of one yuan, at a rate that makes it 30 units of quota.\<close>

lemma kt_product: "f_to_int64 (fmul (fmul (f_of_int 1) (flit 1 16384)) (f_of_int 500000)) = 30" "flt fzero (f_of_int 1)"
  by (simp_all add: float_eval)

lemma kt_due: "kling_due kt_env qpu row (the (kt_parse raw)) = (if raw = ''f'' \<or> raw = ''p'' then 0 else 30)"
  by (simp add: kling_due_def kt_parse_def deducted_price_def kt_env_def ConvertCNYToUSD_def kt_product)


theorem callback_charges_other_task_witness:
  "quota_at (w_db (snd (HandleKlingCallback kt_env (Inr (Inr (200, []))) kt_parse (Inr ''e'') kt_world))) 2 = Some 20 \<and>
   quota_at (w_db (snd (HandleKlingCallback kt_env (Inr (Inr (200, []))) kt_parse (Inr ''e'') kt_world))) 1 = Some 1000"
proof -
  have "kt_parse ''e'' = Some (the (kt_parse ''e''))" "kn_external (the (kt_parse ''e'')) = itoa 5"
    "kn_status (the (kt_parse ''e'')) = ''succeed''" "kn_videos (the (kt_parse ''e'')) \<noteq> []"
    by (simp_all add: kt_parse_def)
  with callback_charges_other_task [OF kt_facts(1,4,5), of kt_parse "''e''" "the (kt_parse ''e'')" kt_env "Inr (Inr (200, []))"]
  show ?thesis by (simp add: kt_facts kt_due in_int64_def min_int64_def max_int64_def)
qed

end
