(* ===== verification/DirectVideo.thy ===== *)
theory DirectVideo
  imports KlingTasks
begin

text \<open>
  Images and videos of Runway and videos of Sora (\<open>relay/controller/directvideo.go\<close>): the request goes to
  the provider as it is, a task it accepts is paid at once and leaves a row, and every query of a client
  writes what the provider answers into the row and gives the price back when the task has failed. The
  forms of a multipart request and the answers of the providers are arguments.
\<close>

section \<open>The outside\<close>

text \<open>Prices and discounts, the address of the channel chosen for the request and of any other; JSON numbers and
  decimal texts as floats (no number is beyond a float); values as text (\<open>%v\<close> and JSON), a float without decimals (\<open>%.0f\<close>); the path of an
  address; the media type the standard library recognises in the first bytes of a file.\<close>

record direct_env =
  de_pricing :: pricing
  de_meta_base :: string
  de_base :: "channel \<Rightarrow> string"
  de_num :: "string \<Rightarrow> f64"
  de_scan :: "string \<Rightarrow> f64 option"
  de_show :: "json \<Rightarrow> string"
  de_text :: "json \<Rightarrow> string"
  de_round :: "f64 \<Rightarrow> string"
  de_path :: "string \<Rightarrow> string option"
  de_sniff :: "string \<Rightarrow> string"

text \<open>A map, as \<open>json.Unmarshal\<close> into one leaves it.\<close>

definition decode_map :: "string \<Rightarrow> json option" where
  "decode_map s = (case json_parse s of Some JNull \<Rightarrow> Some JNull | Some (JObj f) \<Rightarrow> Some (JObj f) | _ \<Rightarrow> None)"

text \<open>What is sent: nothing, a body with its content type, or the parts of a form.\<close>

datatype part = Field string string | File_Part string string string string
datatype sent = No_Body | Body string string | Parts "part list"

text \<open>
  What comes of a request to an address with the key of a channel: it cannot be built, it fails, or it is
  answered with a status and a body that can be read or not.
\<close>

datatype outcome = Not_Built gerr | Not_Sent gerr | Answer int "gerr + string"

type_synonym direct_call = "string \<Rightarrow> channel \<Rightarrow> sent \<Rightarrow> outcome"

definition upstream :: "outcome \<Rightarrow> (int \<Rightarrow> string \<Rightarrow> video_reply op) \<Rightarrow> video_reply op" where
  "upstream a k =
     (case a of
        Not_Built e \<Rightarrow> ret (Refused (''failed to create request: '' @ error_text e) [] 500)
      | Not_Sent e \<Rightarrow> ret (Refused (''request failed: '' @ error_text e) [] 500)
      | Answer status (Inl e) \<Rightarrow> ret (Refused (''failed to read response: '' @ error_text e) [] 500)
      | Answer status (Inr body) \<Rightarrow> k status body)"

definition upstream_query :: "outcome \<Rightarrow> (int \<Rightarrow> string \<Rightarrow> video_reply op) \<Rightarrow> video_reply op" where
  "upstream_query a k =
     (case a of
        Not_Built _ \<Rightarrow> ret (Refused ''Failed to create request'' [] 500)
      | Not_Sent _ \<Rightarrow> ret (Refused ''Request to upstream failed'' [] 500)
      | Answer status (Inl _) \<Rightarrow> ret (Refused ''Failed to read response'' [] 500)
      | Answer status (Inr body) \<Rightarrow> k status body)"

definition with_keyed_channel :: "int \<Rightarrow> (channel \<Rightarrow> video_reply op) \<Rightarrow> video_reply op" where
  "with_keyed_channel i k =
     on_result (GetChannelById i True) (\<lambda>c. case c of
       Inl e \<Rightarrow> ret (Refused (''failed to get channel info: '' @ error_text e) [] 500)
     | Inr ch \<Rightarrow> if c_key ch = [] then ret (Refused ''channel key is empty'' [] 500) else k ch)"

text \<open>
  The payment of an accepted task, shared by the four billing functions: they differ in the log entry and
  in the channel the usage is booked on. A failing payment is an error that the callers only print.
\<close>

definition bill_task :: "int \<Rightarrow> int \<Rightarrow> int \<Rightarrow> int \<Rightarrow> unit op \<Rightarrow> unit op" where
  "bill_task uid tid cid quota entry =
     on_result (PostConsumeTokenQuota tid quota) (\<lambda>r. case r of
       Inl e \<Rightarrow> fail (if e = Panic then Panic else Msg (''failed to deduct token quota: '' @ error_text e))
     | Inr _ \<Rightarrow> then_do (ignore_err (CacheUpdateUserQuota uid))
         (if quota \<noteq> 0 then then_do entry (then_do (UpdateUserUsedQuotaAndRequestCount uid quota) (UpdateChannelUsedQuota cid quota))
          else ret ()))"

definition or_printed :: "unit op \<Rightarrow> unit op" where
  "or_printed f = on_result f (\<lambda>r. if r = Inl Panic then fail Panic else ret ())"

definition handleRunwayImageBilling :: "relay_meta \<Rightarrow> int \<Rightarrow> int \<Rightarrow> unit op" where
  "handleRunwayImageBilling m cid quota =
     bill_task (rm_user_id m) (rm_token_id m) cid quota
       (RecordLog (rm_user_id m) LogTypeConsume (LogConsume 0 0 0 (rm_origin m) (rm_token_name m) quota (rm_channel_id m)))"

definition handleRunwayVideoBilling :: "relay_meta \<Rightarrow> int \<Rightarrow> int \<Rightarrow> string \<Rightarrow> unit op" where
  "handleRunwayVideoBilling m cid quota task =
     bill_task (rm_user_id m) (rm_token_id m) cid quota
       (RecordVideoConsumeLog (rm_user_id m) (rm_channel_id m) (rm_origin m) (rm_token_name m) quota task)"

definition handleSoraVideoBilling :: "relay_meta \<Rightarrow> int \<Rightarrow> string \<Rightarrow> int \<Rightarrow> string \<Rightarrow> unit op" where
  "handleSoraVideoBilling m cid model quota task =
     bill_task (rm_user_id m) (rm_token_id m) cid quota
       (RecordVideoConsumeLog (rm_user_id m) (rm_channel_id m) model (rm_token_name m) quota task)"

definition handleSoraRemixBilling :: "relay_meta \<Rightarrow> string \<Rightarrow> int \<Rightarrow> string \<Rightarrow> unit op" where
  "handleSoraRemixBilling m model quota task =
     bill_task (rm_user_id m) (rm_token_id m) (rm_channel_id m) quota
       (RecordVideoConsumeLog (rm_user_id m) (rm_channel_id m) model (rm_token_name m) quota task)"

text \<open>The rows of \<open>CreateVideoLog\<close> (for providers without credentials) and \<open>CreateImageLog\<close>.\<close>

definition CreateVideoLog :: "string \<Rightarrow> string \<Rightarrow> relay_meta \<Rightarrow> string \<Rightarrow> string \<Rightarrow> string \<Rightarrow> string \<Rightarrow> int \<Rightarrow> video op" where
  "CreateVideoLog provider task m mode duration ty vid quota =
     on_ok (GetUsernameById (rm_user_id m)) (\<lambda>name. Video_Insert (blank_video\<lparr>v_prompt := ''prompt'', v_task_id := task,
       v_provider := provider, v_username := name, v_channel_id := rm_channel_id m, v_user_id := rm_user_id m, v_mode := mode,
       v_type := (if ty = ''image-to-video'' \<and> str_contains (to_lower (rm_origin m)) ''t2v'' then ''text-to-video'' else ty),
       v_model := rm_origin m, v_duration := duration, v_video_id := vid, v_quota := quota, v_status := ''processing''\<rparr>))"

definition CreateImageLog :: "string \<Rightarrow> string \<Rightarrow> relay_meta \<Rightarrow> string \<Rightarrow> string \<Rightarrow> string \<Rightarrow> int \<Rightarrow> int \<Rightarrow> image op" where
  "CreateImageLog provider task m status why mode n quota =
     on_ok (GetUsernameById (rm_user_id m)) (\<lambda>name. reading (\<lambda>w. Image_Insert \<lparr>i_id = 0, i_task_id = task, i_username = name,
       i_channel_id = rm_channel_id m, i_key_index = 0, i_user_id = rm_user_id m, i_model = rm_origin m, i_status = status,
       i_fail_reason = why, i_image_id = [], i_store_url = [], i_provider = provider, i_request_id = [], i_created_at = w_now w,
       i_updated_at = 0, i_mode = mode, i_n = n, i_quota = quota, i_detail = [], i_total_duration = 0, i_result = []\<rparr>))"

section \<open>Runway\<close>

definition determineVideoMode :: "string \<Rightarrow> string" where
  "determineVideoMode body =
     (case decode_map body of
        None \<Rightarrow> if str_contains body (CHR 0x22 # ''promptImage'' @ [CHR 0x22]) then ''imagetovideo''
          else if str_contains body (CHR 0x22 # ''videoUri'' @ [CHR 0x22]) then ''videotovideo'' else ''upscalevideo''
      | Some p \<Rightarrow>
          (let model = text_param ''model'' p
           in if model = Some ''gen4_image'' then ''texttoimage''
              else if model = Some ''gen4_aleph'' then ''videotovideo''
              else if model = Some ''act_two'' then ''act_two''
              else if obj_field ''promptImage'' p \<noteq> None then ''imagetovideo'' else ''upscalevideo''))"

definition extractDurationFromRequest :: "direct_env \<Rightarrow> string \<Rightarrow> string" where
  "extractDurationFromRequest env body =
     (case decode_map body of None \<Rightarrow> []
      | Some p \<Rightarrow> (case obj_field ''duration'' p of Some d \<Rightarrow> de_show env d | None \<Rightarrow> ''10''))"

text \<open>\<open>%d\<close> of \<open>Sscanf\<close> with what is left of the text, and \<open>%d:%d\<close>.\<close>

definition scan_number :: "string \<Rightarrow> (int \<times> string) option" where
  "scan_number s =
     (let t = dropWhile (\<lambda>c. is_space c \<and> c \<noteq> CHR 0x0A) s;
          sign = takeWhile (\<lambda>c. c = CHR ''-'' \<or> c = CHR ''+'') (take 1 t);
          digits = takeWhile is_digit (drop (length sign) t)
      in if digits = [] then None
         else map_option (\<lambda>i. (i, drop (length sign + length digits) t)) (parse_int64 (sign @ digits)))"

definition scan_ratio :: "string \<Rightarrow> (int \<times> int) option" where
  "scan_ratio s =
     (case scan_number s of
        Some (a, CHR '':'' # rest) \<Rightarrow> map_option (\<lambda>(b, _). (a, b)) (scan_number rest)
      | _ \<Rightarrow> None)"

definition calculateImageCredits :: "json \<Rightarrow> int" where
  "calculateImageCredits p =
     (case text_param ''ratio'' p of
        None \<Rightarrow> 5
      | Some r \<Rightarrow> (case scan_ratio r of None \<Rightarrow> 5 | Some (a, b) \<Rightarrow> if 1500000 \<le> wrap64 (a * b) then 8 else 5))"

definition getDurationSeconds :: "direct_env \<Rightarrow> json option \<Rightarrow> f64" where
  "getDurationSeconds env d = (case d of Some (JNum n) \<Rightarrow> de_num env n | _ \<Rightarrow> f_of_int 10)"

definition runway_rate :: "string \<Rightarrow> f64" where
  "runway_rate model = (if model = ''gen4_aleph'' then flit 15 100 else if model = ''upscale_v1'' then flit 2 100 else flit 5 100)"

definition calculateRunwayQuota :: "direct_env \<Rightarrow> string \<Rightarrow> int" where
  "calculateRunwayQuota env body =
     (case decode_map body of
        None \<Rightarrow> 0
      | Some p \<Rightarrow>
          (case text_param ''model'' p of
             None \<Rightarrow> 0
           | Some model \<Rightarrow>
               if model = ''gen4_image'' then calculateImageCredits p * 500000 div 100
               else f_to_int64 (fmul (fmul (runway_rate model) (getDurationSeconds env (obj_field ''duration'' p))) (f_of_int 500000))))"

definition discounted :: "direct_env \<Rightarrow> string \<Rightarrow> int \<Rightarrow> int" where
  "discounted env model quota = f_to_int64 (fmul (f_of_int quota) (GetModelDiscount (de_pricing env) model))"

definition set_field :: "string \<Rightarrow> json \<Rightarrow> json \<Rightarrow> json" where
  "set_field key v p = (case p of JObj m \<Rightarrow> JObj (filter (\<lambda>(k, _). k \<noteq> key) m @ [(key, v)]) | _ \<Rightarrow> p)"

definition DirectRelayRunway ::
    "direct_env \<Rightarrow> relay_meta \<Rightarrow> int \<Rightarrow> string \<Rightarrow> string \<Rightarrow> gerr + string \<Rightarrow> direct_call \<Rightarrow> video_reply op" where
  "DirectRelayRunway env m cid path content_type body call =
     with_keyed_channel (rm_channel_id m) (\<lambda>ch. case body of
       Inl e \<Rightarrow> ret (Refused (''failed to read request body: '' @ error_text e) [] 500)
     | Inr sent \<Rightarrow> upstream (call (de_meta_base env @ replace_first ''/runway'' [] path) ch (Body content_type sent)) (\<lambda>status answer.
         (case (if status = 200 then decode_map answer else None) of
            None \<Rightarrow> ret (Forwarded status answer)
          | Some p \<Rightarrow>
            (case text_param ''id'' p of
               None \<Rightarrow> ret (Forwarded status answer)
             | Some original \<Rightarrow>
               (let mode = determineVideoMode sent;
                    task = (if mode = ''texttoimage'' then ''image-'' else ''video-'') @ original;
                    quota = discounted env (rm_origin m) (calculateRunwayQuota env sent);
                    shown = Forwarded status (de_text env (set_field ''id'' (JStr task) p))
                in if mode = ''texttoimage'' then
                     then_do (or_printed (handleRunwayImageBilling m cid quota))
                       (then_do (ignore_err (CreateImageLog ''runway'' task m ''success'' [] mode 1 quota)) (ret shown))
                   else
                     then_do (or_printed (handleRunwayVideoBilling m cid quota task))
                       (then_do (ignore_err (CreateVideoLog ''runway'' task m mode (extractDurationFromRequest env sent) mode task quota))
                         (ret shown)))))))"

definition mapRunwayStatusToDbStatus :: "string \<Rightarrow> string" where
  "mapRunwayStatusToDbStatus s =
     (if s = ''PENDING'' then ''pending'' else if s = ''RUNNING'' then ''running'' else if s = ''SUCCEEDED'' then ''succeeded''
      else if s = ''FAILED'' then ''failed'' else if s = ''CANCELLED'' then ''cancelled''
      else if s = ''THROTTLED'' then ''throttled'' else s)"

definition dead :: "string \<Rightarrow> bool" where
  "dead s \<longleftrightarrow> s = ''failed'' \<or> s = ''cancelled''"

definition compensateWithQuota :: "int \<Rightarrow> int \<Rightarrow> int \<Rightarrow> unit op" where
  "compensateWithQuota uid cid quota =
     on_result (CompensateVideoTaskQuota uid quota) (\<lambda>r. case r of
       Inl _ \<Rightarrow> ret () | Inr _ \<Rightarrow> ignore_err (CompensateChannelQuota cid quota))"

definition calculateDefaultImageQuota :: "string \<Rightarrow> int" where
  "calculateDefaultImageQuota mode = (if mode = ''texttoimage'' then 250000 else 250000)"

text \<open>
  The price of a failed image is looked up in the logs: the latest entry of type 0 of the user within an hour
  of the task. \<open>about\<close> is the quota of an entry for the channel, the model and the provider of the image.
\<close>

definition image_log :: "(image \<Rightarrow> log_row \<Rightarrow> int option) \<Rightarrow> image \<Rightarrow> log_row list \<Rightarrow> int option" where
  "image_log about im logs =
     (case List.find (\<lambda>l. l_type l = 0 \<and> l_user_id l = i_user_id im \<and> i_created_at im - 3600 \<le> l_created_at l \<and>
          l_created_at l \<le> i_created_at im + 3600 \<and> about im l \<noteq> None) (sort_key (\<lambda>l. - l_created_at l) logs) of
        None \<Rightarrow> None | Some l \<Rightarrow> about im l)"

definition compensateRunwayImageTask :: "(image \<Rightarrow> log_row \<Rightarrow> int option) \<Rightarrow> string \<Rightarrow> unit op" where
  "compensateRunwayImageTask about task =
     on_result (GetImageByTaskId task) (\<lambda>r. case r of
       Inl _ \<Rightarrow> ret ()
     | Inr im \<Rightarrow> reading (\<lambda>w. on_result (query (\<lambda>_. image_log about im (w_logs w))) (\<lambda>q.
         case (case q of Inl _ \<Rightarrow> None | Inr x \<Rightarrow> x) of
           None \<Rightarrow> (if 0 < calculateDefaultImageQuota (i_mode im)
                    then compensateWithQuota (i_user_id im) (i_channel_id im) (calculateDefaultImageQuota (i_mode im)) else ret ())
         | Some quota \<Rightarrow> if quota \<le> 0 then ret () else compensateWithQuota (i_user_id im) (i_channel_id im) quota)))"

text \<open>Runway and Sora videos are compensated by the quota of the row.\<close>

definition compensateRunwayVideoTask :: "string \<Rightarrow> unit op" where
  "compensateRunwayVideoTask task =
     on_result (GetVideoTaskById task) (\<lambda>r. case r of
       Inl _ \<Rightarrow> ret ()
     | Inr v \<Rightarrow> if v_quota v \<le> 0 then ret () else compensateWithQuota (v_user_id v) (v_channel_id v) (v_quota v))"

definition set_image_columns :: "int \<Rightarrow> image \<Rightarrow> image \<Rightarrow> image" where
  "set_image_columns now im r = r\<lparr>i_task_id := ne (i_task_id im) (i_task_id r), i_username := ne (i_username im) (i_username r),
     i_channel_id := nz (i_channel_id im) (i_channel_id r), i_key_index := nz (i_key_index im) (i_key_index r),
     i_user_id := nz (i_user_id im) (i_user_id r), i_model := ne (i_model im) (i_model r), i_status := ne (i_status im) (i_status r),
     i_fail_reason := ne (i_fail_reason im) (i_fail_reason r), i_image_id := ne (i_image_id im) (i_image_id r),
     i_store_url := ne (i_store_url im) (i_store_url r), i_provider := ne (i_provider im) (i_provider r),
     i_request_id := ne (i_request_id im) (i_request_id r), i_created_at := nz (i_created_at im) (i_created_at r),
     i_updated_at := now, i_mode := ne (i_mode im) (i_mode r), i_n := nz (i_n im) (i_n r), i_quota := nz (i_quota im) (i_quota r),
     i_detail := ne (i_detail im) (i_detail r), i_total_duration := nz (i_total_duration im) (i_total_duration r),
     i_result := ne (i_result im) (i_result r)\<rparr>"

text \<open>What an answer of Runway says: its status, the reason of a failure, the first output.\<close>

record runway_answer =
  rw_status :: string
  rw_failure :: string
  rw_code :: string
  rw_output :: "string option"

definition runway_answer_of :: "json \<Rightarrow> runway_answer" where
  "runway_answer_of p =
     (let txt = (\<lambda>k. case text_param k p of None \<Rightarrow> [] | Some s \<Rightarrow> s)
      in \<lparr>rw_status = txt ''status'', rw_failure = txt ''failure'', rw_code = txt ''failureCode'',
          rw_output = (case obj_field ''output'' p of Some (JArr (JStr s # _)) \<Rightarrow> Some s | _ \<Rightarrow> None)\<rparr>)"

definition runway_reason :: "runway_answer \<Rightarrow> string \<Rightarrow> string" where
  "runway_reason a old =
     (if rw_status a = ''FAILED'' then (if rw_failure a \<noteq> [] then rw_failure a else if rw_code a \<noteq> [] then rw_code a else old)
      else [])"

definition runway_url :: "runway_answer \<Rightarrow> string \<Rightarrow> string" where
  "runway_url a old = (if rw_status a = ''SUCCEEDED'' then (case rw_output a of Some s \<Rightarrow> s | None \<Rightarrow> old) else old)"

definition updateTaskStatus :: "(image \<Rightarrow> log_row \<Rightarrow> int option) \<Rightarrow> string \<Rightarrow> runway_answer \<Rightarrow> bool \<Rightarrow> unit op" where
  "updateTaskStatus about task a image_task =
     (let s = mapRunwayStatusToDbStatus (rw_status a)
      in if image_task then
           on_result (GetImageByTaskId task) (\<lambda>r. case r of
             Inl _ \<Rightarrow> ret ()
           | Inr im \<Rightarrow> reading (\<lambda>w.
               let im' = im\<lparr>i_status := s, i_fail_reason := runway_reason a (i_fail_reason im),
                            i_store_url := runway_url a (i_store_url im)\<rparr>
               in on_result (update_images (\<lambda>x. i_task_id x = task) (set_image_columns (w_now w) im')) (\<lambda>u. case u of
                    Inl _ \<Rightarrow> ret ()
                  | Inr _ \<Rightarrow> if \<not> dead (i_status im) \<and> dead s then compensateRunwayImageTask about task else ret ())))
         else
           on_result (GetVideoTaskById task) (\<lambda>r. case r of
             Inl _ \<Rightarrow> ret ()
           | Inr v \<Rightarrow> reading (\<lambda>w.
               let v' = v\<lparr>v_status := s, v_fail_reason := runway_reason a (v_fail_reason v),
                          v_store_url := runway_url a (v_store_url v), v_total_duration := w_now w - v_created_at v\<rparr>
               in on_result (Video_Update v') (\<lambda>u. case u of
                    Inl _ \<Rightarrow> ret ()
                  | Inr _ \<Rightarrow> if \<not> dead (v_status v) \<and> dead s \<and> 0 < v_quota v then compensateRunwayVideoTask task else ret ()))))"

definition GetRunwayResult ::
    "direct_env \<Rightarrow> (image \<Rightarrow> log_row \<Rightarrow> int option) \<Rightarrow> string \<Rightarrow> direct_call \<Rightarrow> video_reply op" where
  "GetRunwayResult env about task call =
     (let image_task = has_prefix task ''image'';
          drop_prefix = (\<lambda>p. if has_prefix task p then drop (length p) task else task);
          original = (if image_task then drop_prefix ''image-'' else if has_prefix task ''video'' then drop_prefix ''video-'' else task)
      in on_result (if image_task then on_ok (GetImageByTaskId task) (\<lambda>im. ret (i_channel_id im))
                    else on_ok (GetVideoTaskById task) (\<lambda>v. ret (v_channel_id v))) (\<lambda>r. case r of
           Inl e \<Rightarrow> ret (Refused ((if image_task then ''image'' else ''video'') @ '' task not found: '' @ error_text e) [] 404)
         | Inr i \<Rightarrow> on_result (GetChannelById i True) (\<lambda>c. case c of
             Inl e \<Rightarrow> ret (Refused (''failed to get channel info: '' @ error_text e) [] 500)
           | Inr ch \<Rightarrow> upstream (call (de_base env ch @ ''/v1/tasks/'' @ original) ch No_Body) (\<lambda>status body.
               case decode_map body of
                 None \<Rightarrow> ret (Forwarded status body)
               | Some p \<Rightarrow> then_do (updateTaskStatus about task (runway_answer_of p) image_task)
                   (ret (Forwarded status
                     (if status = 200 \<and> text_param ''id'' p = Some original
                      then de_text env (set_field ''id'' (JStr ((if image_task then ''image-'' else ''video-'') @ original)) p)
                      else body)))))))"

section \<open>The files of a form\<close>

text \<open>An uploaded file: opening it, its first 512 bytes, all of it.\<close>

record upload =
  up_name :: string
  up_open :: "gerr option"
  up_head :: "gerr + string"
  up_content :: "gerr + string"
  up_size :: int

record form =
  fo_values :: "(string \<times> string list) list"
  fo_files :: "(string \<times> upload list) list"

definition bytes_at :: "nat \<Rightarrow> string \<Rightarrow> string \<Rightarrow> bool" where
  "bytes_at n w s \<longleftrightarrow> take (length w) (drop n s) = w"

definition detectFileContentType :: "direct_env \<Rightarrow> upload \<Rightarrow> string + string" where
  "detectFileContentType env up =
     (case up_head up of
        Inl e \<Rightarrow> Inl (''failed to read file content: '' @ error_text e)
      | Inr buffer \<Rightarrow>
          (let name = to_lower (up_name up);
               ends = (\<lambda>x. has_suffix name x);
               t0 = de_sniff env buffer;
               t1 = (if has_prefix t0 ''image/'' \<and> (bytes_at 0 ''RIFF'' buffer \<and> bytes_at 8 ''WEBP'' buffer \<or> ends ''.webp'')
                     then ''image/webp'' else t0);
               t2 = (if ends ''.mp4'' \<and> bytes_at 4 ''ftyp'' buffer then ''video/mp4'' else t1);
               t3 = (if t2 \<in> {''image/jpeg'', ''image/png'', ''image/webp'', ''video/mp4''} then Some t2
                     else if ends ''.jpg'' \<or> ends ''.jpeg'' then Some ''image/jpeg''
                     else if ends ''.png'' then Some ''image/png''
                     else if ends ''.webp'' then Some ''image/webp''
                     else if ends ''.mp4'' then Some ''video/mp4'' else None)
           in case t3 of
                None \<Rightarrow> Inl (''unsupported file type. detected: '' @ t2 @ '', filename: '' @ up_name up @
                  ''. supported formats: image/jpeg, image/png, image/webp, video/mp4'')
              | Some t \<Rightarrow> if 104857600 < up_size up
                  then Inl (''file too large: '' @ itoa (up_size up) @ '' bytes (maximum 100MB)'') else Inr t))"

text \<open>One file copied into the new form; \<open>what\<close> is \<open>input_reference\<close> with a space for that field, empty otherwise.\<close>

definition copy_file :: "direct_env \<Rightarrow> string \<Rightarrow> string \<Rightarrow> upload \<Rightarrow> (string \<times> int) + part" where
  "copy_file env what key up =
     (case up_open up of
        Some e \<Rightarrow> Inl (''failed to read '' @ what @ ''file: '' @ error_text e, 500)
      | None \<Rightarrow> (case detectFileContentType env up of
          Inl e \<Rightarrow> Inl (''failed to detect '' @ what @ ''file type: '' @ e, 400)
        | Inr t \<Rightarrow> (case up_content up of
            Inl e \<Rightarrow> Inl (''failed to copy '' @ what @ ''file content: '' @ error_text e, 500)
          | Inr bytes \<Rightarrow> Inr (File_Part key (up_name up) t bytes))))"

fun copy_files :: "direct_env \<Rightarrow> string \<Rightarrow> (string \<times> upload) list \<Rightarrow> (string \<times> int) + part list" where
  "copy_files env what [] = Inr []"
| "copy_files env what ((key, up) # ups) =
     (case copy_file env what key up of
        Inl e \<Rightarrow> Inl e
      | Inr p \<Rightarrow> (case copy_files env what ups of Inl e \<Rightarrow> Inl e | Inr ps \<Rightarrow> Inr (p # ps)))"

definition spread :: "(string \<times> 'a list) list \<Rightarrow> (string \<times> 'a) list" where
  "spread m = concat (map (\<lambda>(k, xs). map (Pair k) xs) m)"

definition plain_fields :: "form \<Rightarrow> part list" where
  "plain_fields f = map (\<lambda>(k, v). Field k v) (spread (fo_values f))"

text \<open>A whole form copied as it is, for characters and edits.\<close>

definition copy_form :: "direct_env \<Rightarrow> form \<Rightarrow> (string \<times> int) + part list" where
  "copy_form env f =
     (case copy_files env [] (spread (fo_files f)) of Inl e \<Rightarrow> Inl e | Inr ps \<Rightarrow> Inr (plain_fields f @ ps))"

text \<open>A download: its status, the announced length, the body.\<close>

type_synonym fetched = "gerr + int \<times> int \<times> (gerr + string)"

definition extractFilenameFromURL :: "direct_env \<Rightarrow> string \<Rightarrow> string \<Rightarrow> string" where
  "extractFilenameFromURL env url ty =
     (let made = ''input_reference'' @ (if ty = ''image/png'' then ''.png'' else if ty = ''image/webp'' then ''.webp'' else ''.jpg'')
      in case de_path env url of
           None \<Rightarrow> made
         | Some p \<Rightarrow> (let name = last (split_on (CHR ''/'') p)
                     in if p \<noteq> [] \<and> name \<noteq> [] \<and> str_contains name ''.'' then name else made))"

definition downloadAndAddImageFile :: "direct_env \<Rightarrow> (string \<Rightarrow> fetched) \<Rightarrow> string \<Rightarrow> string + part" where
  "downloadAndAddImageFile env fetch url =
     (case fetch url of
        Inl e \<Rightarrow> Inl (''image download request failed: '' @ error_text e)
      | Inr (status, len, content) \<Rightarrow>
          if status \<noteq> 200 then Inl (''image download failed, HTTP status: '' @ itoa status)
          else if 104857600 < len then Inl (''image file too large: '' @ itoa len @ '' bytes (maximum 100MB)'')
          else (case content of
            Inl e \<Rightarrow> Inl (''failed to read image content: '' @ error_text e)
          | Inr bytes \<Rightarrow>
              if 104857600 < length bytes then Inl ''image file too large: exceeds 100MB''
              else (let ty = (if bytes_at 0 ''RIFF'' bytes \<and> bytes_at 8 ''WEBP'' bytes then ''image/webp'' else de_sniff env bytes)
                    in if ty \<notin> {''image/jpeg'', ''image/png'', ''image/webp''}
                       then Inl (''unsupported image type: '' @ ty @ '' (only jpeg, png, webp are supported)'')
                       else Inr (File_Part ''input_reference'' (extractFilenameFromURL env url ty) ty bytes))))"

section \<open>Sora: prices\<close>

type_synonym params = "string \<Rightarrow> string option"

definition given :: "string \<Rightarrow> string option \<Rightarrow> string" where
  "given dflt v = (case v of Some s \<Rightarrow> if s \<noteq> [] then s else dflt | None \<Rightarrow> dflt)"

text \<open>\<open>Sscanf\<close> of the seconds, a default where it fails.\<close>

definition scanned_or :: "direct_env \<Rightarrow> f64 \<Rightarrow> string \<Rightarrow> f64" where
  "scanned_or env dflt s = (case de_scan env s of None \<Rightarrow> dflt | Some x \<Rightarrow> x)"

definition tall :: "string \<Rightarrow> bool" where
  "tall s \<longleftrightarrow> str_contains s ''1024x1792'' \<or> str_contains s ''1792x1024''"

definition calculateSoraQuotaFromForm :: "direct_env \<Rightarrow> params \<Rightarrow> int" where
  "calculateSoraQuotaFromForm env ps =
     (let seconds = (case ps ''seconds'' of Some s \<Rightarrow> if s \<noteq> [] then scanned_or env (f_of_int 4) s else f_of_int 4 | None \<Rightarrow> f_of_int 4);
          model = given ''sora-2'' (ps ''model'');
          sz = given ''720x1280'' (ps ''size'');
          price = (if model = ''sora-2'' then flit 10 100
                   else if model = ''sora-2-pro'' then
                     (if tall sz then flit 50 100
                      else if str_contains sz ''1920x1080'' \<or> str_contains sz ''1080x1920'' then flit 70 100 else flit 30 100)
                   else flit 10 100)
      in f_to_int64 (fmul (fmul price seconds) (f_of_int 500000)))"

definition calculateSoraRemixQuota :: "direct_env \<Rightarrow> string \<Rightarrow> string \<Rightarrow> string \<Rightarrow> int" where
  "calculateSoraRemixQuota env seconds sz model =
     (let price = (if model = ''sora-2'' then flit 10 100
                   else if model = ''sora-2-pro'' then (if tall sz then flit 50 100 else flit 30 100)
                   else flit 10 100)
      in f_to_int64 (fmul (fmul price (scanned_or env (f_of_int 8) seconds)) (f_of_int 500000)))"

text \<open>What a JSON body says about the price.\<close>

definition json_params :: "direct_env \<Rightarrow> string \<Rightarrow> params" where
  "json_params env body =
     (case decode_map body of
        None \<Rightarrow> (\<lambda>_. None)
      | Some p \<Rightarrow> (\<lambda>k.
          if k = ''model'' \<or> k = ''size'' then text_param k p
          else if k = ''seconds'' then
            (case obj_field k p of Some (JNum n) \<Rightarrow> Some (de_round env (de_num env n)) | Some (JStr s) \<Rightarrow> Some s | _ \<Rightarrow> None)
          else None))"

section \<open>Sora: creation\<close>

definition ChannelTypeAzure :: int where "ChannelTypeAzure = 3"

definition with_azure :: "channel \<Rightarrow> string \<Rightarrow> string" where
  "with_azure ch path = (if c_type ch = ChannelTypeAzure then ''/openai'' @ path else path)"

text \<open>The body, and what it says about the price; a form may name an image to be downloaded.\<close>

definition form_params :: "form \<Rightarrow> params" where
  "form_params f = map_of (concat (map (\<lambda>(k, vs). case vs of [] \<Rightarrow> [] | v # _ \<Rightarrow> [(k, v)]) (fo_values f)))"

definition sora_form :: "direct_env \<Rightarrow> (string \<Rightarrow> fetched) \<Rightarrow> form \<Rightarrow> (string \<times> int) + part list" where
  "sora_form env fetch f =
     (let url = (case form_params f ''input_reference'' of None \<Rightarrow> [] | Some u \<Rightarrow> u);
          fields = map (\<lambda>(k, v). Field k v) (filter (\<lambda>(k, _). k \<noteq> ''input_reference'') (spread (fo_values f)));
          named = (if url \<noteq> [] then (case downloadAndAddImageFile env fetch url of
                       Inl e \<Rightarrow> Inl (''failed to download input_reference image: '' @ e, 400) | Inr p \<Rightarrow> Inr [p])
                   else copy_files env ''input_reference '' (filter (\<lambda>(k, _). k = ''input_reference'') (spread (fo_files f))))
      in case named of
           Inl e \<Rightarrow> Inl e
         | Inr ps \<Rightarrow> (case copy_files env [] (filter (\<lambda>(k, _). k \<noteq> ''input_reference'') (spread (fo_files f))) of
             Inl e \<Rightarrow> Inl e | Inr qs \<Rightarrow> Inr (fields @ ps @ qs)))"

definition sora_request ::
    "direct_env \<Rightarrow> (string \<Rightarrow> fetched) \<Rightarrow> string \<Rightarrow> gerr + string \<Rightarrow> gerr + form \<Rightarrow> (string \<times> int) + sent \<times> params" where
  "sora_request env fetch content_type body form =
     (let json = str_contains content_type ''application/json''
      in if \<not> json \<and> str_contains content_type ''multipart/form-data'' then
           (case form of
              Inl e \<Rightarrow> Inl (''failed to parse form: '' @ error_text e, 400)
            | Inr f \<Rightarrow> (case sora_form env fetch f of Inl e \<Rightarrow> Inl e | Inr ps \<Rightarrow> Inr (Parts ps, form_params f)))
         else
           (case body of
              Inl e \<Rightarrow> Inl (''failed to read request body: '' @ error_text e, 400)
            | Inr b \<Rightarrow> Inr (Body (if json then ''application/json'' else content_type) b, json_params env b)))"

definition DirectRelaySoraVideo ::
    "direct_env \<Rightarrow> relay_meta \<Rightarrow> int \<Rightarrow> (string \<Rightarrow> fetched) \<Rightarrow> string \<Rightarrow> gerr + string \<Rightarrow> gerr + form \<Rightarrow> direct_call \<Rightarrow> video_reply op" where
  "DirectRelaySoraVideo env m cid fetch content_type body form call =
     with_keyed_channel (rm_channel_id m) (\<lambda>ch. case sora_request env fetch content_type body form of
       Inl (msg, code) \<Rightarrow> ret (Refused msg [] code)
     | Inr (out, ps) \<Rightarrow> upstream (call (de_meta_base env @ with_azure ch ''/v1/videos'') ch out) (\<lambda>status answer.
         (case (if status = 200 then decode_map answer else None) of
            None \<Rightarrow> ret (Forwarded status answer)
          | Some p \<Rightarrow> (case text_param ''id'' p of
              None \<Rightarrow> ret (Forwarded status answer)
            | Some vid \<Rightarrow>
                (let model = (case ps ''model'' of Some x \<Rightarrow> x | None \<Rightarrow> rm_origin m);
                     quota = discounted env (rm_origin m) (calculateSoraQuotaFromForm env ps);
                     seconds = given ''4'' (ps ''seconds'');
                     sz = given ''720x1280'' (ps ''size'')
                 in then_do (or_printed (handleSoraVideoBilling m cid model quota vid))
                      (then_do (ignore_err (CreateVideoLog ''sora'' vid m sz seconds ''sora'' vid quota))
                        (ret (Forwarded status answer))))))))"

section \<open>Sora: characters, remixes, edits, extensions\<close>

text \<open>The address of a query or of a further request to a channel.\<close>

definition sora_url :: "direct_env \<Rightarrow> channel \<Rightarrow> string \<Rightarrow> string" where
  "sora_url env ch path =
     (let base = trim_suffix (de_base env ch) ''/''
      in if c_type ch = ChannelTypeAzure
         then (if has_suffix base ''/v1'' then base @ ''/../openai/v1/videos/'' @ path else base @ ''/openai/v1/videos/'' @ path)
         else (if has_suffix base ''/v1'' then base @ ''/videos/'' @ path else base @ ''/v1/videos/'' @ path))"

definition DirectRelaySoraCharacter ::
    "direct_env \<Rightarrow> relay_meta \<Rightarrow> string \<Rightarrow> gerr + string \<Rightarrow> gerr + form \<Rightarrow> direct_call \<Rightarrow> video_reply op" where
  "DirectRelaySoraCharacter env m content_type body form call =
     with_keyed_channel (rm_channel_id m) (\<lambda>ch.
       case (if str_contains content_type ''multipart/form-data''
             then (case form of
                     Inl e \<Rightarrow> Inl (''failed to parse form: '' @ error_text e, 400)
                   | Inr f \<Rightarrow> (case copy_form env f of Inl e \<Rightarrow> Inl e | Inr ps \<Rightarrow> Inr (Parts ps)))
             else (case body of
                     Inl e \<Rightarrow> Inl (''failed to read request body: '' @ error_text e, 400)
                   | Inr b \<Rightarrow> Inr (Body content_type b))) of
         Inl (msg, code) \<Rightarrow> ret (Refused msg [] code)
       | Inr out \<Rightarrow> upstream (call (de_meta_base env @ with_azure ch ''/v1/videos/characters'') ch out) (\<lambda>status answer.
           then_do (case (if status = 200 then decode_map answer else None) of
               None \<Rightarrow> ret ()
             | Some p \<Rightarrow> (case text_param ''id'' p of
                 None \<Rightarrow> ret ()
               | Some i \<Rightarrow> ignore_err (Video_Insert (blank_video\<lparr>v_task_id := i,
                   v_prompt := (case text_param ''name'' p of Some n \<Rightarrow> n | None \<Rightarrow> []), v_type := ''sora_character'',
                   v_provider := ''sora'', v_channel_id := rm_channel_id m, v_user_id := rm_user_id m,
                   v_model := rm_origin m, v_status := ''completed''\<rparr>))))
             (ret (Forwarded status answer))))"

text \<open>The channel of a task, or that of the context for an unknown one.\<close>

definition channel_of_task :: "string \<Rightarrow> int \<Rightarrow> string \<Rightarrow> (channel \<Rightarrow> video_reply op) \<Rightarrow> video_reply op" where
  "channel_of_task task cid none k =
     on_result (GetVideoTaskById task) (\<lambda>r.
       let i = (case r of Inr v \<Rightarrow> v_channel_id v | Inl _ \<Rightarrow> cid)
       in if (case r of Inr _ \<Rightarrow> False | Inl _ \<Rightarrow> cid = 0) then ret (Refused none [] 400)
          else on_result (GetChannelById i True) (\<lambda>c. case c of
              Inl _ \<Rightarrow> ret (Refused ''Failed to get channel info'' [] 500) | Inr ch \<Rightarrow> k ch))"

definition GetSoraCharacter :: "direct_env \<Rightarrow> int \<Rightarrow> string \<Rightarrow> direct_call \<Rightarrow> video_reply op" where
  "GetSoraCharacter env cid i call =
     channel_of_task i cid ''No channel configured for this character'' (\<lambda>ch.
       upstream_query (call (sora_url env ch (''characters/'' @ i)) ch No_Body) (\<lambda>status body. ret (Forwarded status body)))"

text \<open>What a finished video costs, by the answer to a remix, an edit or an extension.\<close>

definition answer_params :: "direct_env \<Rightarrow> json \<Rightarrow> string \<times> string \<times> string" where
  "answer_params env p =
     ((case obj_field ''seconds'' p of
         Some (JStr s) \<Rightarrow> if s \<noteq> [] then s else ''8'' | Some (JNum n) \<Rightarrow> de_round env (de_num env n) | _ \<Rightarrow> ''8''),
      given ''720x1280'' (text_param ''size'' p), given ''sora-2'' (text_param ''model'' p))"

definition charge_derived :: "direct_env \<Rightarrow> relay_meta \<Rightarrow> video \<Rightarrow> string \<Rightarrow> string \<Rightarrow> int \<Rightarrow> string \<Rightarrow> video_reply op" where
  "charge_derived env ctx orig kind source status answer =
     (case (if status = 200 then decode_map answer else None) of
        None \<Rightarrow> ret (Forwarded status answer)
      | Some p \<Rightarrow> (case text_param ''id'' p of
          None \<Rightarrow> ret (Forwarded status answer)
        | Some vid \<Rightarrow> (case answer_params env p of (seconds, sz, model) \<Rightarrow>
            (let quota = discounted env model (calculateSoraRemixQuota env seconds sz model);
                 m = ctx\<lparr>rm_channel_id := v_channel_id orig, rm_origin := model\<rparr>
             in then_do (or_printed (handleSoraRemixBilling m model quota vid))
                  (then_do (ignore_err (CreateVideoLog ''sora'' vid m sz seconds kind source quota))
                    (ret (Forwarded status answer)))))))"

text \<open>The channel of the video that is changed; \<open>what\<close> is how the handler calls that video.\<close>

definition on_original :: "string \<Rightarrow> string \<Rightarrow> (video \<Rightarrow> channel \<Rightarrow> video_reply op) \<Rightarrow> video_reply op" where
  "on_original what source k =
     on_result (GetVideoTaskById source) (\<lambda>r. case r of
       Inl _ \<Rightarrow> ret (Refused (what @ '' video not found'') [] 404)
     | Inr orig \<Rightarrow> on_result (GetChannelById (v_channel_id orig) True) (\<lambda>c. case c of
         Inl _ \<Rightarrow> ret (Refused ''Failed to get channel info'' [] 500)
       | Inr ch \<Rightarrow> if c_key ch = [] then ret (Refused ''channel key is empty'' [] 500) else k orig ch))"

definition DirectRelaySoraVideoRemix ::
    "direct_env \<Rightarrow> relay_meta \<Rightarrow> string \<Rightarrow> gerr + string \<Rightarrow> direct_call \<Rightarrow> video_reply op" where
  "DirectRelaySoraVideoRemix env ctx source body call =
     on_original ''Original'' source (\<lambda>orig ch. case body of
       Inl e \<Rightarrow> ret (Refused (''failed to read request body: '' @ error_text e) [] 500)
     | Inr b \<Rightarrow> upstream (call (sora_url env ch (source @ ''/remix'')) ch (Body ''application/json'' b))
         (charge_derived env ctx orig ''sora-remix'' source))"

text \<open>The video an edit is about: in a form, JSON text or a field in brackets.\<close>

definition video_id_of :: "json \<Rightarrow> string" where
  "video_id_of p = (case obj_field ''video'' p of Some (JObj f) \<Rightarrow> given [] (text_param ''id'' (JObj f)) | _ \<Rightarrow> [])"

definition form_video_id :: "form \<Rightarrow> string" where
  "form_video_id f =
     (let s = (case form_params f ''video'' of
                 None \<Rightarrow> []
               | Some t \<Rightarrow> (case decode_map t of None \<Rightarrow> [] | Some p \<Rightarrow> given [] (text_param ''id'' p)))
      in if s = [] then given [] (form_params f ''video[id]'') else s)"

text \<open>The error text of a body that is not a map, by \<open>why\<close>.\<close>

definition DirectRelaySoraVideoEdit ::
    "direct_env \<Rightarrow> relay_meta \<Rightarrow> (string \<Rightarrow> string) \<Rightarrow> string \<Rightarrow> gerr + string \<Rightarrow> gerr + form \<Rightarrow> direct_call \<Rightarrow> video_reply op" where
  "DirectRelaySoraVideoEdit env ctx why content_type body form call =
     (let is_form = str_contains content_type ''multipart/form-data'';
          request = (if is_form
            then (case form of
                    Inl e \<Rightarrow> Inl (''failed to parse form: '' @ error_text e)
                  | Inr f \<Rightarrow> Inr (form_video_id f, []))
            else (case body of
                    Inl e \<Rightarrow> Inl (''failed to read request body: '' @ error_text e)
                  | Inr b \<Rightarrow> (case decode_map b of
                      None \<Rightarrow> Inl (''failed to parse request body: '' @ why b) | Some p \<Rightarrow> Inr (video_id_of p, b))))
      in case request of
           Inl msg \<Rightarrow> ret (Refused msg [] 400)
         | Inr (source, b) \<Rightarrow>
             if source = [] then ret (Refused ''missing video.id: source video is required for video editing'' [] 400)
             else on_original ''Source'' source (\<lambda>orig ch.
               case (if is_form then (case form of
                         Inl e \<Rightarrow> Inl (error_text e, 400)
                       | Inr f \<Rightarrow> (case copy_form env f of Inl e \<Rightarrow> Inl e | Inr ps \<Rightarrow> Inr (Parts ps)))
                     else Inr (Body ''application/json'' b)) of
                 Inl (msg, code) \<Rightarrow> ret (Refused msg [] code)
               | Inr out \<Rightarrow> upstream (call (sora_url env ch ''edits'') ch out) (charge_derived env ctx orig ''sora-edit'' source)))"

definition DirectRelaySoraVideoExtension ::
    "direct_env \<Rightarrow> relay_meta \<Rightarrow> (string \<Rightarrow> string) \<Rightarrow> gerr + string \<Rightarrow> direct_call \<Rightarrow> video_reply op" where
  "DirectRelaySoraVideoExtension env ctx why body call =
     (case body of
        Inl e \<Rightarrow> ret (Refused (''failed to read request body: '' @ error_text e) [] 400)
      | Inr b \<Rightarrow> (case decode_map b of
          None \<Rightarrow> ret (Refused (''failed to parse request body: '' @ why b) [] 400)
        | Some p \<Rightarrow> (case obj_field ''video'' p of
            Some (JObj f) \<Rightarrow>
              (let source = video_id_of p
               in if source = [] then ret (Refused ''missing video.id'' [] 400)
                  else on_original ''Source'' source (\<lambda>orig ch.
                    upstream (call (sora_url env ch ''extensions'') ch (Body ''application/json'' b))
                      (charge_derived env ctx orig ''sora-extension'' source)))
          | _ \<Rightarrow> ret (Refused ''missing video object'' [] 400))))"

section \<open>Sora: status\<close>

definition mapSoraStatusToDbStatus :: "string \<Rightarrow> string" where
  "mapSoraStatusToDbStatus s =
     (if s = ''queued'' \<or> s = ''pending'' then ''pending'' else if s = ''processing'' \<or> s = ''running'' then ''running''
      else if s = ''completed'' \<or> s = ''succeeded'' then ''succeeded'' else if s = ''failed'' \<or> s = ''error'' then ''failed''
      else if s = ''cancelled'' then ''cancelled'' else s)"

definition compensateSoraVideoTask :: "string \<Rightarrow> unit op" where
  "compensateSoraVideoTask task =
     on_result (GetVideoTaskById task) (\<lambda>r. case r of
       Inl _ \<Rightarrow> ret ()
     | Inr v \<Rightarrow> if v_quota v \<le> 0 then ret () else compensateWithQuota (v_user_id v) (v_channel_id v) (v_quota v))"

text \<open>The copy is saved; a task that has just failed gets its price back.\<close>

definition save_sora :: "string \<Rightarrow> video \<Rightarrow> video \<Rightarrow> unit op" where
  "save_sora task old new =
     on_result (Video_Update new) (\<lambda>u. case u of
       Inl _ \<Rightarrow> ret ()
     | Inr _ \<Rightarrow> if \<not> dead (v_status old) \<and> dead (v_status new) \<and> 0 < v_quota new then compensateSoraVideoTask task else ret ())"

definition sora_reason :: "json \<Rightarrow> string \<Rightarrow> string" where
  "sora_reason p old =
     (case text_param ''status'' p of
        None \<Rightarrow> []
      | Some s \<Rightarrow> if s = ''failed'' \<or> s = ''error'' then
          (case obj_field ''error'' p of
             Some (JObj e) \<Rightarrow> (case text_param ''message'' (JObj e) of Some t \<Rightarrow> t | None \<Rightarrow> old)
           | _ \<Rightarrow> old)
          else [])"

definition updateSoraTaskStatusFromAPI :: "string \<Rightarrow> json \<Rightarrow> unit op" where
  "updateSoraTaskStatusFromAPI task p =
     on_result (GetVideoTaskById task) (\<lambda>r. case r of
       Inl _ \<Rightarrow> ret ()
     | Inr v \<Rightarrow> save_sora task v (v\<lparr>v_status := mapSoraStatusToDbStatus (case text_param ''status'' p of Some s \<Rightarrow> s | None \<Rightarrow> []),
         v_fail_reason := sora_reason p (v_fail_reason v)\<rparr>))"

definition updateSoraTaskStatusFromHTTPCode :: "string \<Rightarrow> int \<Rightarrow> unit op" where
  "updateSoraTaskStatusFromHTTPCode task code =
     on_result (GetVideoTaskById task) (\<lambda>r. case r of
       Inl _ \<Rightarrow> ret ()
     | Inr v \<Rightarrow>
         if code = 200 then save_sora task v (v\<lparr>v_status := ''succeeded''\<rparr>)
         else if code = 404 then
           (if v_status v = ''succeeded'' then ret () else save_sora task v (v\<lparr>v_status := ''processing''\<rparr>))
         else ret ())"

definition GetSoraVideoResult :: "direct_env \<Rightarrow> int \<Rightarrow> string \<Rightarrow> direct_call \<Rightarrow> video_reply op" where
  "GetSoraVideoResult env cid task call =
     channel_of_task task cid ''No channel configured'' (\<lambda>ch.
       upstream_query (call (sora_url env ch task) ch No_Body) (\<lambda>status body.
         then_do (if status = 200
                  then (case decode_map body of None \<Rightarrow> ret () | Some p \<Rightarrow> updateSoraTaskStatusFromAPI task p)
                  else updateSoraTaskStatusFromHTTPCode task status)
           (ret (Forwarded status body))))"

text \<open>The content is passed on as it arrives; the row is written when all of it has been.\<close>

definition GetSoraVideoContent :: "direct_env \<Rightarrow> int \<Rightarrow> string \<Rightarrow> direct_call \<Rightarrow> video_reply op" where
  "GetSoraVideoContent env cid task call =
     channel_of_task task cid ''No channel configured'' (\<lambda>ch.
       case call (sora_url env ch (task @ ''/content'')) ch No_Body of
         Not_Built _ \<Rightarrow> ret (Refused ''Failed to create request'' [] 500)
       | Not_Sent e \<Rightarrow> ret (Refused (''request failed: '' @ error_text e) [] 500)
       | Answer status (Inl _) \<Rightarrow> ret (Forwarded status [])
       | Answer status (Inr body) \<Rightarrow> then_do (updateSoraTaskStatusFromHTTPCode task status) (ret (Forwarded status body)))"

text \<open>A remix in full HD has the price of a small one, less than half of what its creation costs.\<close>

lemma remix_ignores_full_hd:
  "calculateSoraRemixQuota env seconds ''1920x1080'' model = calculateSoraRemixQuota env seconds ''720x1280'' model"
  by (simp add: calculateSoraRemixQuota_def tall_def)

text \<open>No file is sent on that is not of the four kinds, or larger than 100 MB.\<close>

lemma forwarded_file:
  assumes "detectFileContentType env up = Inr t"
  shows "t \<in> {''image/jpeg'', ''image/png'', ''image/webp'', ''video/mp4''}" "up_size up \<le> 104857600"
  using assms by (auto simp: detectFileContentType_def Let_def split: sum.splits if_splits)

section \<open>Sora: what the queries of a client give back\<close>

text \<open>A client asks for the status or for the content, and the provider answers with a status and a body.\<close>

datatype sora_event = Asked int string | Fetched int string

definition sora_event_op :: "direct_env \<Rightarrow> int \<Rightarrow> string \<Rightarrow> sora_event \<Rightarrow> video_reply op" where
  "sora_event_op env cid task e =
     (case e of
        Asked code body \<Rightarrow> GetSoraVideoResult env cid task (\<lambda>_ _ _. Answer code (Inr body))
      | Fetched code body \<Rightarrow> GetSoraVideoContent env cid task (\<lambda>_ _ _. Answer code (Inr body)))"

definition sora_run :: "direct_env \<Rightarrow> int \<Rightarrow> string \<Rightarrow> sora_event list \<Rightarrow> world \<Rightarrow> world" where
  "sora_run env cid task es w = fold (\<lambda>e w. snd (sora_event_op env cid task e w)) es w"

text \<open>The status an event leaves, and how often a sequence turns a live status into a dead one.\<close>

definition http_status :: "string \<Rightarrow> int \<Rightarrow> string" where
  "http_status s code = (if code = 200 then ''succeeded'' else if code = 404 \<and> s \<noteq> ''succeeded'' then ''processing'' else s)"

definition sora_next :: "string \<Rightarrow> sora_event \<Rightarrow> string" where
  "sora_next s e =
     (case e of
        Asked code body \<Rightarrow>
          (if code = 200 then (case decode_map body of None \<Rightarrow> s
             | Some p \<Rightarrow> ne (mapSoraStatusToDbStatus (case text_param ''status'' p of Some t \<Rightarrow> t | None \<Rightarrow> [])) s)
           else http_status s code)
      | Fetched code body \<Rightarrow> http_status s code)"

fun deaths :: "string \<Rightarrow> sora_event list \<Rightarrow> int" where
  "deaths s [] = 0"
| "deaths s (e # es) = (if \<not> dead s \<and> dead (sora_next s e) then 1 else 0) + deaths (sora_next s e) es"

definition channel_ids :: "db \<Rightarrow> int list" where
  "channel_ids d = map c_id (d_channels d)"

definition sora_task :: "string \<Rightarrow> world \<Rightarrow> video \<Rightarrow> bool" where
  "sora_task task w row \<longleftrightarrow> task \<noteq> [] \<and> calm w \<and> task_at (w_db w) task = Some row \<and> ids_distinct (w_db w) \<and>
     v_channel_id row \<in> set (channel_ids (w_db w))"

lemma channel_found:
  assumes "calm w" "i \<in> set (channel_ids (w_db w))"
  shows "\<exists>ch. GetChannelById i True w = (Inr ch, w)"
proof -
  obtain ch where "List.find (\<lambda>c. c_id c = i) (d_channels (w_db w)) = Some ch"
    using assms(2) by (cases "List.find (\<lambda>c. c_id c = i) (d_channels (w_db w))") (auto simp: channel_ids_def find_None_iff)
  then show ?thesis using assms(1) by (simp add: GetChannelById_def op_defs calm_statements)
qed

lemma sora_compensation: "compensateSoraVideoTask = CompensateNativeVideoTask"
  unfolding compensateSoraVideoTask_def [abs_def] CompensateNativeVideoTask_def [abs_def] compensateWithQuota_def ..

lemma channels_of_refund:
  assumes "calm w"
  shows "channel_ids (w_db (snd (CompensateNativeVideoTask task w))) = channel_ids (w_db w)"
proof -
  have k: "map c_id (update_rows (\<lambda>c. c_id c = i) (add_channel_used q) cs) = map c_id cs" for i q cs
    by (induction cs) (auto simp: update_rows_def add_channel_used_def)
  from assms show ?thesis
    by (simp add: CompensateNativeVideoTask_def CompensateVideoTaskQuota_def CompensateChannelQuota_def set_channel_def GetVideoTaskById_def
      not_found_as_def stmt_def op_defs go_simps calm_statements channel_ids_def k split: option.split)
qed

lemma save_sora_effect:
  fixes s r :: string
  assumes w: "sora_task task w row"
  defines "new \<equiv> row\<lparr>v_status := s, v_fail_reason := r\<rparr>"
  shows "\<exists>row'. sora_task task (snd (save_sora task row new w)) row' \<and> v_status row' = ne s (v_status row) \<and>
    v_quota row' = v_quota row \<and> v_user_id row' = v_user_id row \<and>
    quota_at (w_db (snd (save_sora task row new w))) =
      credit (v_user_id row) (if \<not> dead (v_status row) \<and> dead s then max 0 (v_quota row) else 0) (quota_at (w_db w))"
proof -
  note w = w [unfolded sora_task_def]
  have task: "v_task_id row = task" using w find_SomeD unfolding task_at_def by fastforce
  let ?new = "new\<lparr>v_updated_at := w_now w\<rparr>" and ?row = "set_columns (new\<lparr>v_updated_at := w_now w\<rparr>) row"
  have new: "v_id new = v_id row" "v_task_id new = task" using task by (simp_all add: new_def)
  obtain w1 where 1: "Video_Update new w = (Inr (), w1)" "calm w1" "ids_distinct (w_db w1)"
    "task_at (w_db w1) task = Some ?row" "quota_at (w_db w1) = quota_at (w_db w)"
    using row_update_effect [of w task row new] w new by auto
  have ids1: "channel_ids (w_db w1) = channel_ids (w_db w)"
    using 1(1) w by (auto simp: Video_Update_def reading_def stmt_def op_defs calm_statements channel_ids_def)
  have row: "v_status ?row = ne s (v_status row)" "v_quota ?row = v_quota row" "v_user_id ?row = v_user_id row"
    "v_channel_id ?row = v_channel_id row"
    by (simp_all add: new_def set_columns_def nz_def)
  let ?due = "\<not> dead (v_status row) \<and> dead s \<and> 0 < v_quota row"
  have run: "snd (save_sora task row new w) = (if ?due then snd (CompensateNativeVideoTask task w1) else w1)"
    using 1(1) by (simp add: save_sora_def op_defs new_def sora_compensation)
  obtain w2 where 2: "CompensateNativeVideoTask task w1 = (Inr (), w2)" "moves w1 w2 (v_user_id row) (max 0 (v_quota row))"
    using compensate_effect [OF 1(2,4)] row by auto
  have "sora_task task w1 ?row" "sora_task task w2 ?row"
    using w 1 2(2) row ids1 channels_of_refund [OF 1(2), of task] 2(1)
    by (simp_all add: sora_task_def moves_def task_at_def ids_distinct_def)
  then show ?thesis using run row 1(5) 2 by (auto simp: moves_def max_def)
qed

lemma http_code_effect:
  assumes w: "sora_task task w row"
  shows "\<exists>row'. sora_task task (snd (updateSoraTaskStatusFromHTTPCode task code w)) row' \<and>
    v_status row' = http_status (v_status row) code \<and> v_quota row' = v_quota row \<and> v_user_id row' = v_user_id row \<and>
    quota_at (w_db (snd (updateSoraTaskStatusFromHTTPCode task code w))) = quota_at (w_db w)"
proof -
  have look: "GetVideoTaskById task w = (Inr row, w)" using w by (simp add: sora_task_def calm_lookup)
  have same: "row\<lparr>v_status := s\<rparr> = row\<lparr>v_status := s, v_fail_reason := v_fail_reason row\<rparr>" for s by simp
  have saved: "\<exists>row'. sora_task task (snd (save_sora task row (row\<lparr>v_status := s\<rparr>) w)) row' \<and> v_status row' = s \<and>
      v_quota row' = v_quota row \<and> v_user_id row' = v_user_id row \<and>
      quota_at (w_db (snd (save_sora task row (row\<lparr>v_status := s\<rparr>) w))) = quota_at (w_db w)"
    if "\<not> dead s" "s \<noteq> []" for s
    using save_sora_effect [OF w, where s = s and r = "v_fail_reason row"] that by (simp add: ne_def)
  have alive: "\<not> dead ''succeeded''" "\<not> dead ''processing''" by (simp_all add: dead_def)
  show ?thesis
    using w saved [OF alive(1)] saved [OF alive(2)]
    by (auto simp: updateSoraTaskStatusFromHTTPCode_def on_result_def look http_status_def ret_def)
qed

lemma api_status_effect:
  fixes p :: json
  assumes w: "sora_task task w row"
  defines "s \<equiv> mapSoraStatusToDbStatus (case text_param ''status'' p of Some t \<Rightarrow> t | None \<Rightarrow> [])"
  shows "\<exists>row'. sora_task task (snd (updateSoraTaskStatusFromAPI task p w)) row' \<and> v_status row' = ne s (v_status row) \<and>
    v_quota row' = v_quota row \<and> v_user_id row' = v_user_id row \<and>
    quota_at (w_db (snd (updateSoraTaskStatusFromAPI task p w))) =
      credit (v_user_id row) (if \<not> dead (v_status row) \<and> dead s then max 0 (v_quota row) else 0) (quota_at (w_db w))"
proof -
  have look: "GetVideoTaskById task w = (Inr row, w)" using w by (simp add: sora_task_def calm_lookup)
  show ?thesis using save_sora_effect [OF w, where s = s and r = "sora_reason p (v_fail_reason row)"]
    by (simp add: updateSoraTaskStatusFromAPI_def on_result_def look s_def)
qed

lemma dead_ne: "dead (ne s t) \<longleftrightarrow> (if s = [] then dead t else dead s)"
  by (simp add: ne_def)

lemma not_dead_empty [simp]: "\<not> dead []"
  by (simp add: dead_def)

lemma http_status_lives: "(\<not> dead s \<and> dead (http_status s code)) = False"
  by (auto simp: http_status_def dead_def)

lemma sora_step:
  assumes w: "sora_task task w row"
  shows "\<exists>row'. sora_task task (snd (sora_event_op env cid task e w)) row' \<and> v_status row' = sora_next (v_status row) e \<and>
    v_quota row' = v_quota row \<and> v_user_id row' = v_user_id row \<and>
    quota_at (w_db (snd (sora_event_op env cid task e w))) =
      credit (v_user_id row) (max 0 (v_quota row) * deaths (v_status row) [e]) (quota_at (w_db w))"
proof -
  have look: "GetVideoTaskById task w = (Inr row, w)" using w by (simp add: sora_task_def calm_lookup)
  obtain ch where ch: "GetChannelById (v_channel_id row) True w = (Inr ch, w)"
    using channel_found w unfolding sora_task_def by blast
  have through: "snd (channel_of_task task cid none k w) = snd (k ch w)" for none k
    by (simp add: channel_of_task_def on_result_def look ch Let_def)
  have codes: "snd (then_do (updateSoraTaskStatusFromHTTPCode task code) (ret x) w) = snd (updateSoraTaskStatusFromHTTPCode task code w)"
    for code and x :: video_reply
    by (simp add: op_defs split: prod.split sum.split)
  have answers: "snd (then_do (updateSoraTaskStatusFromAPI task p) (ret x) w) = snd (updateSoraTaskStatusFromAPI task p w)"
    for p and x :: video_reply
    by (simp add: op_defs split: prod.split sum.split)
  note by_code = http_code_effect [OF w]
  show ?thesis
  proof (cases e)
    case (Fetched code body)
    with by_code [of code] show ?thesis
      by (simp add: http_status_lives sora_event_op_def GetSoraVideoContent_def through codes sora_next_def)
  next
    case (Asked code body)
    show ?thesis
    proof (cases "code = 200")
      case False
      with Asked by_code [of code] show ?thesis
        by (simp add: http_status_lives sora_event_op_def GetSoraVideoResult_def upstream_query_def through codes sora_next_def)
    next
      case True
      show ?thesis
      proof (cases "decode_map body")
        case None
        with Asked True w show ?thesis
          by (intro exI [of _ row]) (simp add: sora_event_op_def GetSoraVideoResult_def upstream_query_def through sora_next_def op_defs)
      next
        case (Some p)
        with Asked True api_status_effect [OF w, of p] show ?thesis
          by (simp add: sora_event_op_def GetSoraVideoResult_def upstream_query_def through answers sora_next_def dead_ne
            split: if_splits) (auto simp: ne_def)
      qed
    qed
  qed
qed

lemma sora_view:
  assumes "sora_task task w row"
  shows "\<exists>row'. sora_task task (sora_run env cid task es w) row' \<and> v_status row' = fold (\<lambda>e s. sora_next s e) es (v_status row) \<and>
    v_quota row' = v_quota row \<and> v_user_id row' = v_user_id row \<and>
    quota_at (w_db (sora_run env cid task es w)) =
      credit (v_user_id row) (max 0 (v_quota row) * deaths (v_status row) es) (quota_at (w_db w))"
  using assms
proof (induction es arbitrary: w row)
  case Nil
  then show ?case by (auto simp: sora_run_def)
next
  case (Cons e es)
  obtain row1 where 1: "sora_task task (snd (sora_event_op env cid task e w)) row1" "v_status row1 = sora_next (v_status row) e"
    "v_quota row1 = v_quota row" "v_user_id row1 = v_user_id row"
    "quota_at (w_db (snd (sora_event_op env cid task e w))) =
      credit (v_user_id row) (max 0 (v_quota row) * deaths (v_status row) [e]) (quota_at (w_db w))"
    using sora_step [OF Cons.prems] by blast
  from Cons.IH [OF 1(1)] show ?case
    unfolding 1(2-5) by (auto simp: sora_run_def distrib_left)
qed

lemma deaths_append: "deaths s (es @ fs) = deaths s es + deaths (fold (\<lambda>e s. sora_next s e) es s) fs"
  by (induction es arbitrary: s) simp_all

text \<open>
  C13. Any queries of a client for the status or the content of a paid Sora video, whatever the provider
  answers: the row takes the status the answers lead to, and the price is given back to the user of the
  row once for every change from a live status to failed or cancelled; no other balance changes.
\<close>

theorem sora_refunded_per_failure:
  assumes "sora_task task w row" "0 \<le> v_quota row"
  shows "(\<exists>row'. task_at (w_db (sora_run env cid task es w)) task = Some row' \<and>
      v_status row' = fold (\<lambda>e s. sora_next s e) es (v_status row)) \<and>
    (\<forall>uid. quota_at (w_db (sora_run env cid task es w)) uid =
      (if uid = v_user_id row then map_option (\<lambda>x. x + v_quota row * deaths (v_status row) es) (quota_at (w_db w) uid)
       else quota_at (w_db w) uid))"
  using sora_view [OF assms(1), of env cid es] assms(2) by (auto simp: sora_task_def credit_def max_def)

lemma deaths_rounds:
  assumes "\<not> dead s" "sora_next s bad = ''failed''" "sora_next ''processing'' bad = ''failed''"
  shows "deaths s (concat (replicate n [bad, Fetched 404 body])) = int n"
proof -
  have "deaths ''processing'' (concat (replicate k [bad, Fetched 404 body])) = int k" for k
    by (induction k) (simp_all add: assms(3), simp_all add: dead_def sora_next_def http_status_def)
  with assms(1,2) show ?thesis by (cases n) (simp_all add: dead_def sora_next_def http_status_def)
qed

text \<open>
  C14. A failed video is not over: a request for its content, which the provider answers with 404, sets the
  row back to being processed, and the next query of the status finds the failure again. \<open>n\<close> such rounds
  give the price back \<open>n\<close> times.
\<close>

theorem content_404_mints_quota:
  assumes "sora_task task w row" "\<not> dead (v_status row)" "0 < v_quota row"
    and "decode_map failure = Some p" "text_param ''status'' p = Some ''failed''"
  shows "quota_at (w_db (sora_run env cid task (concat (replicate n [Asked 200 failure, Fetched 404 body])) w)) (v_user_id row) =
    map_option (\<lambda>x. x + int n * v_quota row) (quota_at (w_db w) (v_user_id row))"
proof -
  have "sora_next s (Asked 200 failure) = ''failed''" for s
    using assms(4,5) by (simp add: sora_next_def mapSoraStatusToDbStatus_def ne_def)
  then have "deaths (v_status row) (concat (replicate n [Asked 200 failure, Fetched 404 body])) = int n"
    by (intro deaths_rounds assms(2))
  with sora_view [OF assms(1), of env cid "concat (replicate n [Asked 200 failure, Fetched 404 body])"] assms(3)
  show ?thesis by (auto simp: credit_def mult.commute)
qed

section \<open>Runway: what a failed image gives back\<close>

definition image_at :: "db \<Rightarrow> string \<Rightarrow> image option" where
  "image_at d task = List.find (\<lambda>i. i_task_id i = task) (d_images d)"

lemma image_lookup:
  "calm w \<Longrightarrow> image_at (w_db w) task = Some im \<Longrightarrow> GetImageByTaskId task w = (Inr im, w)"
  by (simp add: GetImageByTaskId_def not_found_as_def go_simps calm_statements image_at_def)

lemma credits_bounded: "calculateImageCredits p \<le> 8"
  by (simp add: calculateImageCredits_def split: option.split prod.split)

lemma image_price:
  "decode_map body = Some p \<Longrightarrow> text_param ''model'' p = Some ''gen4_image'' \<Longrightarrow> calculateRunwayQuota env body \<le> 40000"
  using credits_bounded [of p] by (simp add: calculateRunwayQuota_def)

lemma images_updated:
  assumes "List.find (\<lambda>i. i_task_id i = task) ims = Some im" "i_task_id (u im) = task"
  shows "List.find (\<lambda>i. i_task_id i = task) (update_rows (\<lambda>i. i_task_id i = task) u ims) = Some (u im)"
  using assms by (induction ims) (auto simp: update_rows_def split: if_splits)

lemma compensate_with_quota:
  assumes "calm w"
  shows "\<exists>w'. compensateWithQuota uid cid q w = (Inr (), w') \<and> moves w w' uid q"
proof -
  obtain w1 where 1: "CompensateVideoTaskQuota uid q w = (Inr (), w1)" "moves w w1 uid q"
    using moves_task_refund [OF assms] by blast
  obtain w2 where "CompensateChannelQuota cid q w1 = (Inr (), w2)" "moves w1 w2 uid 0"
    using moves_channel(1) [OF moves_calm [OF 1(2)]] by blast
  with 1 moves_trans [OF 1(2), of w2 0] show ?thesis by (simp add: compensateWithQuota_def op_defs)
qed

lemma no_image_log:
  "\<forall>l\<in>set logs. l_type l \<noteq> 0 \<Longrightarrow> image_log about im logs = None"
  by (auto simp: image_log_def find_None_iff split: option.split dest!: find_SomeD)

lemma images_quota: "quota_at (d_images_update f d) = quota_at d"
  by (simp add: quota_at_def user_of_def fun_eq_iff)

lemma image_refund:
  assumes "calm w" "image_at (w_db w) task = Some im" "\<forall>l\<in>set (w_logs w). l_type l \<noteq> 0"
  shows "\<exists>w'. compensateRunwayImageTask about task w = (Inr (), w') \<and> moves w w' (i_user_id im) 250000"
  using assms(1) image_lookup [OF assms(1,2)] compensate_with_quota [OF assms(1), of "i_user_id im" "i_channel_id im" 250000]
  by (simp add: compensateRunwayImageTask_def op_defs reading_def calm_statements no_image_log [OF assms(3)]
    calculateDefaultImageQuota_def)

lemma image_failed:
  assumes w: "calm w" "image_at (w_db w) task = Some im" "\<forall>l\<in>set (w_logs w). l_type l \<noteq> 0"
    and a: "\<not> dead (i_status im)" "rw_status a = ''FAILED''"
  shows "\<exists>w'. updateTaskStatus about task a True w = (Inr (), w') \<and>
    quota_at (w_db w') = credit (i_user_id im) 250000 (quota_at (w_db w))"
proof -
  have task: "i_task_id im = task" using w(2) find_SomeD unfolding image_at_def by fastforce
  let ?im = "im\<lparr>i_status := ''failed'', i_fail_reason := runway_reason a (i_fail_reason im), i_store_url := runway_url a (i_store_url im)\<rparr>"
  let ?u = "set_image_columns (w_now w) ?im"
  let ?w = "w\<lparr>w_db := d_images_update (update_rows (\<lambda>x. i_task_id x = task) ?u) (w_db w)\<rparr>"
  have "image_at (w_db ?w) task = Some (?u im)"
    using images_updated [of task "d_images (w_db w)" im ?u] w(2) task by (simp add: image_at_def set_image_columns_def ne_def)
  then obtain w' where 1: "compensateRunwayImageTask about task ?w = (Inr (), w')" "moves ?w w' (i_user_id (?u im)) 250000"
    using image_refund [of ?w task "?u im" about] w(1,3) by auto
  have status: "mapRunwayStatusToDbStatus (rw_status a) = ''failed''" "dead ''failed''"
    using a(2) by (simp_all add: mapRunwayStatusToDbStatus_def dead_def)
  have "i_user_id (?u im) = i_user_id im" by (simp add: set_image_columns_def nz_def)
  with 1 a(1) show ?thesis
    by (simp add: updateTaskStatus_def Let_def op_defs image_lookup [OF w(1,2)] reading_def calm_statements [OF w(1)] status
      moves_def images_quota)
qed

text \<open>
  C17. A failed image of Runway: its log entry is looked for among entries of type 0, which no consumption has,
  so the user is always given the default of 250000 back. No image costs more than 40000, before the
  discount: a failure pays several times the price.
\<close>

theorem runway_failed_image_profits:
  assumes "calm w" "image_at (w_db w) task = Some im" "has_prefix task ''image''" "\<not> dead (i_status im)"
    and "i_channel_id im \<in> set (channel_ids (w_db w))" "\<forall>l\<in>set (w_logs w). l_type l \<noteq> 0"
    and "decode_map answer = Some a" "text_param ''status'' a = Some ''FAILED''"
  shows "quota_at (w_db (snd (GetRunwayResult env about task (\<lambda>_ _ _. Answer code (Inr answer)) w))) (i_user_id im) =
      map_option (\<lambda>x. x + 250000) (quota_at (w_db w) (i_user_id im)) \<and>
    (\<forall>body p. decode_map body = Some p \<and> text_param ''model'' p = Some ''gen4_image'' \<longrightarrow> calculateRunwayQuota env body \<le> 40000)"
proof -
  obtain ch where ch: "GetChannelById (i_channel_id im) True w = (Inr ch, w)" using channel_found [OF assms(1,5)] by blast
  have "rw_status (runway_answer_of a) = ''FAILED''" using assms(8) by (simp add: runway_answer_of_def)
  then obtain w' where "updateTaskStatus about task (runway_answer_of a) True w = (Inr (), w')"
    "quota_at (w_db w') = credit (i_user_id im) 250000 (quota_at (w_db w))"
    using image_failed [OF assms(1,2,6,4)] by blast
  then have "quota_at (w_db (snd (GetRunwayResult env about task (\<lambda>_ _ _. Answer code (Inr answer)) w))) =
      credit (i_user_id im) 250000 (quota_at (w_db w))"
    using assms(3,7) ch by (simp add: GetRunwayResult_def Let_def op_defs image_lookup [OF assms(1,2)] upstream_def)
  with image_price show ?thesis by (auto simp: credit_def)
qed

section \<open>Witnesses\<close>

definition quoted :: "string \<Rightarrow> string" where
  "quoted s = CHR 0x22 # s @ [CHR 0x22]"

definition dv_failed :: "string \<Rightarrow> string" where
  "dv_failed s = ''{'' @ quoted ''status'' @ '':'' @ quoted s @ ''}''"

lemma dv_decoded:
  "decode_map (dv_failed ''failed'') = Some (JObj [(''status'', JStr ''failed'')])"
  "decode_map (dv_failed ''FAILED'') = Some (JObj [(''status'', JStr ''FAILED'')])"
  by code_simp+

lemma dv_status: "text_param ''status'' (JObj [(''status'', JStr s)]) = Some s"
  by (simp add: text_param_def obj_field_def)

lemma dv_sora: "sora_task ''t'' vt_world vt_row" "\<not> dead (v_status vt_row)"
  using vt_facts by (simp_all add: sora_task_def channel_ids_def dead_def)
    (simp add: vt_world_def vt_row_def run_simps blank_video_def)

definition dv_env :: direct_env where
  "dv_env = \<lparr>de_pricing = initial_pricing, de_meta_base = ''https://a'', de_base = (\<lambda>_. ''https://a''), de_num = (\<lambda>_. fone),
     de_scan = (\<lambda>_. None), de_show = (\<lambda>_. []), de_text = (\<lambda>_. []), de_round = (\<lambda>_. []), de_path = (\<lambda>_. None),
     de_sniff = (\<lambda>_. [])\<rparr>"

theorem sora_refunded_per_failure_witness:
  "quota_at (w_db (sora_run dv_env 0 ''t'' [Asked 200 (dv_failed ''failed''), Asked 200 (dv_failed ''failed''), Fetched 404 []] vt_world)) 1 =
     Some 1300"
  using sora_refunded_per_failure [OF dv_sora(1), of dv_env 0
      "[Asked 200 (dv_failed ''failed''), Asked 200 (dv_failed ''failed''), Fetched 404 []]"]
  by (simp add: vt_facts sora_next_def dv_decoded dv_status mapSoraStatusToDbStatus_def ne_def http_status_def dead_def)

theorem content_404_mints_quota_witness:
  "quota_at (w_db (sora_run dv_env 0 ''t'' (concat (replicate 5 [Asked 200 (dv_failed ''failed''), Fetched 404 []])) vt_world)) 1 = Some 2500"
  using content_404_mints_quota [OF dv_sora _ dv_decoded(1) dv_status, of dv_env 0 5 "[]"]
  by (simp add: vt_facts del: concat.simps replicate.simps)

definition dv_image :: image where
  "dv_image = \<lparr>i_id = 7, i_task_id = ''image-x'', i_username = [], i_channel_id = 9, i_key_index = 0, i_user_id = 2, i_model = ''gen4_image'',
     i_status = ''success'', i_fail_reason = [], i_image_id = [], i_store_url = [], i_provider = ''runway'', i_request_id = [],
     i_created_at = 70, i_updated_at = 70, i_mode = ''texttoimage'', i_n = 1, i_quota = 25000, i_detail = [], i_total_duration = 0,
     i_result = []\<rparr>"

definition dv_world :: world where
  "dv_world = world_with (demo_db\<lparr>d_images := [dv_image]\<rparr>) 77"

lemma dv_facts:
  "calm dv_world" "image_at (w_db dv_world) ''image-x'' = Some dv_image" "has_prefix ''image-x'' ''image''"
  "\<not> dead (i_status dv_image)" "i_channel_id dv_image \<in> set (channel_ids (w_db dv_world))"
  "\<forall>l\<in>set (w_logs dv_world). l_type l \<noteq> 0" "i_user_id dv_image = 2" "quota_at (w_db dv_world) 2 = Some 50"
  by (simp_all add: dv_world_def dv_image_def calm_def run_simps default_config_def image_at_def dead_def channel_ids_def quota_at_def)

theorem runway_failed_image_profits_witness:
  "quota_at (w_db (snd (GetRunwayResult dv_env (\<lambda>_ _. None) ''image-x''
     (\<lambda>_ _ _. Answer 200 (Inr (dv_failed ''FAILED''))) dv_world))) 2 = Some 250050"
  using runway_failed_image_profits [OF dv_facts(1-6) dv_decoded(2) dv_status, of dv_env "\<lambda>_ _. None" 200]
  by (simp add: dv_facts)

end
