(* ===== verification/BatchUpdater.thy ===== *)
theory BatchUpdater
  imports Quota "HOL-Library.Multiset"
begin

text \<open>
  The contract of the batch updater of \<open>model/utils.go\<close>: recording increments and flushing
  them later changes the database exactly as applying every increment at once would, whatever
  the order in which Go iterates over its maps.
\<close>

section \<open>The columns the updater bumps\<close>

interpretation user_quota: counter d_users d_users_update u_id add_quota
  by unfold_locales (auto simp: add_quota_def)

interpretation user_used: counter d_users d_users_update u_id add_used
  by unfold_locales (auto simp: add_used_def)

interpretation user_requests: counter d_users d_users_update u_id add_requests
  by unfold_locales (auto simp: add_requests_def)

interpretation token_remain: counter d_tokens d_tokens_update t_id "add_remain now"
  for now by unfold_locales (auto simp: add_remain_def)

interpretation channel_used: counter d_channels d_channels_update c_id add_channel_used
  by unfold_locales (auto simp: add_channel_used_def)

text \<open>The specification of one increment.\<close>

fun batch_apply :: "int \<Rightarrow> batch_type \<times> int \<times> int \<Rightarrow> db \<Rightarrow> db" where
  "batch_apply now (BatchUpdateTypeUserQuota, i, v) d =
     d_users_update (update_rows (\<lambda>u. u_id u = i) (add_quota v)) d"
| "batch_apply now (BatchUpdateTypeTokenQuota, i, v) d =
     d_tokens_update (update_rows (\<lambda>t. t_id t = i) (add_remain now v)) d"
| "batch_apply now (BatchUpdateTypeUsedQuota, i, v) d =
     d_users_update (update_rows (\<lambda>u. u_id u = i) (add_used v)) d"
| "batch_apply now (BatchUpdateTypeRequestCount, i, v) d =
     d_users_update (update_rows (\<lambda>u. u_id u = i) (add_requests v)) d"
| "batch_apply now (BatchUpdateTypeChannelUsedQuota, i, v) d =
     d_channels_update (update_rows (\<lambda>c. c_id c = i) (add_channel_used v)) d"

lemma update_rows_commute:
  assumes "\<And>r. key (u r) = key r" "\<And>r. key (v r) = key r" "\<And>r. u (v r) = v (u r)"
  shows "update_rows (\<lambda>r. key r = i) u (update_rows (\<lambda>r. key r = j) v rs)
    = update_rows (\<lambda>r. key r = j) v (update_rows (\<lambda>r. key r = i) u rs)"
  using assms by (simp add: update_rows_def)

lemma user_bumps_commute:
  "update_rows (\<lambda>u. u_id u = i) (add_quota a) (update_rows (\<lambda>u. u_id u = j) (add_used b) us)
    = update_rows (\<lambda>u. u_id u = j) (add_used b) (update_rows (\<lambda>u. u_id u = i) (add_quota a) us)"
  "update_rows (\<lambda>u. u_id u = i) (add_quota a) (update_rows (\<lambda>u. u_id u = j) (add_requests b) us)
    = update_rows (\<lambda>u. u_id u = j) (add_requests b) (update_rows (\<lambda>u. u_id u = i) (add_quota a) us)"
  "update_rows (\<lambda>u. u_id u = i) (add_used a) (update_rows (\<lambda>u. u_id u = j) (add_requests b) us)
    = update_rows (\<lambda>u. u_id u = j) (add_requests b) (update_rows (\<lambda>u. u_id u = i) (add_used a) us)"
  by (rule update_rows_commute; simp add: add_quota_def add_used_def add_requests_def)+

lemma batch_apply_commute:
  "batch_apply now x (batch_apply now y d) = batch_apply now y (batch_apply now x d)"
proof -
  obtain tx i a ty j b where x: "x = (tx, i, a)" "y = (ty, j, b)" by (cases x, cases y) auto
  show ?thesis
  proof (cases "tx = ty")
    case True
    then show ?thesis unfolding x
      by (cases ty)
        (simp_all only: batch_apply.simps,
          (rule user_quota.bump_commute user_used.bump_commute user_requests.bump_commute
            token_remain.bump_commute channel_used.bump_commute)+)
  next
    case False
    then show ?thesis unfolding x
      by (cases tx; cases ty) (simp_all add: users.upd_upd user_bumps_commute)
  qed
qed

lemma batch_apply_add:
  "batch_apply now (ty, i, a) (batch_apply now (ty, i, b) d) = batch_apply now (ty, i, a + b) d"
  by (cases ty) (simp_all add: user_quota.bump_twice user_used.bump_twice user_requests.bump_twice
      token_remain.bump_twice channel_used.bump_twice)

section \<open>Flushing\<close>

lemma flush_one_reliable:
  "w_faults w = [] \<Longrightarrow> \<not> w_aborted w \<Longrightarrow>
   flush_one ty i v w = (Inr (), w\<lparr>w_db := batch_apply (w_now w) (ty, i, v) (w_db w)\<rparr>)"
  by (cases ty) (simp_all add: flush_one_def go_simps increaseUserQuota0_def increaseTokenQuota0_def
      updateUserUsedQuota_def updateUserRequestCount_def updateChannelUsedQuota_def stmt_def
      update_where_reliable)

definition applies :: "int \<Rightarrow> (batch_type \<times> int \<times> int) list \<Rightarrow> db \<Rightarrow> db" where
  "applies now xs d = fold (batch_apply now) xs d"

lemma applies_append: "applies now (xs @ ys) d = applies now ys (applies now xs d)"
  by (simp add: applies_def)

lemma applies_perm: "mset xs = mset ys \<Longrightarrow> applies now xs = applies now ys"
  unfolding applies_def
  by (rule ext, rule fun_cong [OF fold_multiset_equiv]) (auto simp: batch_apply_commute)

lemma flush_list_reliable:
  "w_faults w = [] \<Longrightarrow> \<not> w_aborted w \<Longrightarrow>
   flush_list ty xs w = (Inr (), w\<lparr>w_db := applies (w_now w) (map (\<lambda>(i, v). (ty, i, v)) xs) (w_db w)\<rparr>)"
proof (induction xs arbitrary: w)
  case Nil
  then show ?case by (simp add: go_simps applies_def)
next
  case (Cons x xs)
  then show ?case
    by (cases x) (simp add: then_do_def on_ok_def flush_one_reliable applies_def)
qed

definition store_records :: "batch_type \<Rightarrow> (int \<times> int) list \<Rightarrow> (batch_type \<times> int \<times> int) list" where
  "store_records ty xs = map (\<lambda>(i, v). (ty, i, v)) xs"

definition all_records :: "(batch_type \<Rightarrow> (int \<times> int) list) \<Rightarrow> (batch_type \<times> int \<times> int) list" where
  "all_records b =
     store_records BatchUpdateTypeUserQuota (b BatchUpdateTypeUserQuota) @
     store_records BatchUpdateTypeTokenQuota (b BatchUpdateTypeTokenQuota) @
     store_records BatchUpdateTypeUsedQuota (b BatchUpdateTypeUsedQuota) @
     store_records BatchUpdateTypeChannelUsedQuota (b BatchUpdateTypeChannelUsedQuota) @
     store_records BatchUpdateTypeRequestCount (b BatchUpdateTypeRequestCount)"

lemma batchUpdate_reliable:
  assumes "w_faults w = []" "\<not> w_aborted w"
  shows "batchUpdate w =
    (Inr (), w\<lparr>w_db := applies (w_now w) (all_records (w_batch w)) (w_db w), w_batch := \<lambda>_. []\<rparr>)"
proof -
  have e: "(\<lambda>_. []) = (w_batch w)(BatchUpdateTypeUserQuota := [], BatchUpdateTypeTokenQuota := [],
      BatchUpdateTypeUsedQuota := [], BatchUpdateTypeChannelUsedQuota := [], BatchUpdateTypeRequestCount := [])"
  proof
    fix ty
    show "[] = ((w_batch w)(BatchUpdateTypeUserQuota := [], BatchUpdateTypeTokenQuota := [],
      BatchUpdateTypeUsedQuota := [], BatchUpdateTypeChannelUsedQuota := [], BatchUpdateTypeRequestCount := [])) ty"
      by (cases ty) simp_all
  qed
  show ?thesis using assms
    by (simp add: batchUpdate_def flush_type_def then_do_def on_ok_def flush_list_reliable
        all_records_def store_records_def applies_append e)
qed

section \<open>Accumulating\<close>

lemma applies_push: "applies now ys (batch_apply now z d) = batch_apply now z (applies now ys d)"
  unfolding applies_def
  by (induction ys arbitrary: d) (simp, metis batch_apply_commute fold_simps(2))

lemma applies_add_record:
  assumes "\<forall>(j, x)\<in>set xs. in_int64 (x + v)"
  shows "applies now (store_records ty (add_record i v xs)) d
    = batch_apply now (ty, i, v) (applies now (store_records ty xs) d)"
  using assms
proof (induction i v xs arbitrary: d rule: add_record.induct)
  case (1 i v)
  then show ?case by (simp add: applies_def store_records_def)
next
  case (2 i v j x xs)
  have cons: "applies now (store_records ty ((k, y) # ys)) e
      = batch_apply now (ty, k, y) (applies now (store_records ty ys) e)" for k y ys e
    using applies_push by (simp add: applies_def store_records_def)
  show ?case
  proof (cases "i = j")
    case True
    with "2.prems" show ?thesis by (simp add: cons batch_apply_add add.commute)
  next
    case False
    with 2 show ?thesis by (simp add: cons batch_apply_commute)
  qed
qed

lemma applies_of_add:
  assumes "\<forall>(j, x)\<in>set (b ty). in_int64 (x + v)"
  shows "applies now (all_records (b(ty := add_record i v (b ty)))) d
    = batch_apply now (ty, i, v) (applies now (all_records b) d)"
  using assms
  by (cases ty) (simp_all del: batch_apply.simps
      add: all_records_def applies_append applies_add_record applies_push)

text \<open>
  The values of a store stay below the sum of the absolute values recorded so far, so no
  accumulation wraps while that sum fits an \<open>int64\<close>.
\<close>

fun record_all :: "(batch_type \<times> int \<times> int) list \<Rightarrow> unit op" where
  "record_all [] = ret ()"
| "record_all ((ty, i, v) # xs) = then_do (addNewRecord ty i v) (record_all xs)"

definition stores_below :: "int \<Rightarrow> (batch_type \<Rightarrow> (int \<times> int) list) \<Rightarrow> bool" where
  "stores_below m b \<longleftrightarrow> (\<forall>ty. \<forall>(j, x)\<in>set (b ty). \<bar>x\<bar> \<le> m)"

lemma add_record_below:
  "\<forall>(j, x)\<in>set xs. \<bar>x\<bar> \<le> m \<Longrightarrow> 0 \<le> m \<Longrightarrow> m + \<bar>v\<bar> \<le> max_int64 \<Longrightarrow>
   \<forall>(j, x)\<in>set (add_record i v xs). \<bar>x\<bar> \<le> m + \<bar>v\<bar>"
proof (induction i v xs rule: add_record.induct)
  case (1 i v)
  then show ?case by simp
next
  case (2 i v j x xs)
  then have "in_int64 (x + v)" by (auto simp: in_int64_def min_int64_def max_int64_def)
  with 2 show ?case by (auto split: prod.splits)
qed

lemma record_all_batch:
  assumes "stores_below m (w_batch w)" "0 \<le> m" "m + sum_list (map (\<lambda>(ty, i, v). \<bar>v\<bar>) xs) \<le> max_int64"
  shows "\<exists>b. record_all xs w = (Inr (), w\<lparr>w_batch := b\<rparr>) \<and>
    applies now (all_records b) d = applies now xs (applies now (all_records (w_batch w)) d)"
  using assms
proof (induction xs arbitrary: w m)
  case Nil
  then show ?case by (intro exI [of _ "w_batch w"]) (simp add: go_simps applies_def)
next
  case (Cons r xs)
  obtain ty i v where r: "r = (ty, i, v)" by (cases r) auto
  have nn: "0 \<le> sum_list (map (\<lambda>(ty, i, v). \<bar>v\<bar>) xs)" by (rule sum_list_nonneg) auto
  have le: "m + \<bar>v\<bar> \<le> max_int64" using Cons.prems(3) nn unfolding r by simp
  let ?b = "(w_batch w)(ty := add_record i v (w_batch w ty))"
  let ?w = "w\<lparr>w_batch := ?b\<rparr>"
  have old: "\<bar>x\<bar> \<le> m" if "(j, x) \<in> set (w_batch w ty')" for ty' j x
    using Cons.prems(1) that unfolding stores_below_def by blast
  have "\<forall>(j, x)\<in>set (add_record i v (w_batch w ty)). \<bar>x\<bar> \<le> m + \<bar>v\<bar>"
    using add_record_below [OF _ Cons.prems(2) le, of "w_batch w ty" i] old by blast
  moreover have "\<forall>(j, x)\<in>set (w_batch w ty'). \<bar>x\<bar> \<le> m + \<bar>v\<bar>" for ty'
    using old by fastforce
  ultimately have below: "stores_below (m + \<bar>v\<bar>) (w_batch ?w)" by (simp add: stores_below_def)
  have sum: "m + \<bar>v\<bar> + sum_list (map (\<lambda>(ty, i, v). \<bar>v\<bar>) xs) \<le> max_int64" "0 \<le> m + \<bar>v\<bar>"
    using Cons.prems(2,3) unfolding r by simp_all
  obtain b where b: "record_all xs ?w = (Inr (), ?w\<lparr>w_batch := b\<rparr>)"
      "applies now (all_records b) d = applies now xs (applies now (all_records (w_batch ?w)) d)"
    using Cons.IH [OF below sum(2,1)] by blast
  have "\<forall>(j, x)\<in>set (w_batch w ty). in_int64 (x + v)"
    using old le unfolding in_int64_def min_int64_def max_int64_def by fastforce
  note add = applies_of_add [of "w_batch w" ty v now i d, OF this]
  have "applies now (r # xs) e = applies now xs (batch_apply now (ty, i, v) e)" for e
    unfolding r by (simp add: applies_def)
  then show ?case
    using b add unfolding r
    by (intro exI [of _ b]) (simp add: then_do_def on_ok_def addNewRecord_def)
qed

section \<open>The contract\<close>

text \<open>Applying every increment at once, as the code does when batching is off.\<close>

fun direct_all :: "(batch_type \<times> int \<times> int) list \<Rightarrow> unit op" where
  "direct_all [] = ret ()"
| "direct_all ((ty, i, v) # xs) = then_do (flush_one ty i v) (direct_all xs)"

lemma direct_all_reliable:
  "w_faults w = [] \<Longrightarrow> \<not> w_aborted w \<Longrightarrow>
   direct_all xs w = (Inr (), w\<lparr>w_db := applies (w_now w) xs (w_db w)\<rparr>)"
proof (induction xs arbitrary: w)
  case Nil
  then show ?case by (simp add: go_simps applies_def)
next
  case (Cons x xs)
  then show ?case
    by (cases x) (simp add: then_do_def on_ok_def flush_one_reliable applies_def)
qed

lemma all_records_perm:
  assumes "\<And>ty. mset (b ty) = mset (b' ty)"
  shows "mset (all_records b) = mset (all_records b')"
  using assms by (simp add: all_records_def store_records_def)

text \<open>
  C6. Recording a list of increments in empty stores and flushing once, in whatever order the
  maps are visited, leaves the same database as applying each increment with its own
  statement, provided the recorded amounts cannot overflow an \<open>int64\<close>.
\<close>

theorem batch_update_refines_direct:
  assumes "w_faults w = []" "\<not> w_aborted w" "w_batch w = (\<lambda>_. [])"
    and "sum_list (map (\<lambda>(ty, i, v). \<bar>v\<bar>) xs) \<le> max_int64"
    and "record_all xs w = (r, w1)"
    and "\<And>ty. mset (b ty) = mset (w_batch w1 ty)"
  shows "batchUpdate (w1\<lparr>w_batch := b\<rparr>) = direct_all xs w"
proof -
  have e: "all_records (w_batch w) = []"
    by (simp add: assms(3) all_records_def store_records_def)
  have "stores_below 0 (w_batch w)" by (simp add: assms(3) stores_below_def)
  then obtain b1 where b1: "record_all xs w = (Inr (), w\<lparr>w_batch := b1\<rparr>)"
    "applies (w_now w) (all_records b1) (w_db w)
       = applies (w_now w) xs (applies (w_now w) (all_records (w_batch w)) (w_db w))"
    using record_all_batch [of 0 w xs "w_now w" "w_db w"] assms(4) by auto
  have w1: "w1 = w\<lparr>w_batch := b1\<rparr>" using b1(1) assms(5) by simp
  have "mset (all_records b) = mset (all_records b1)"
    using assms(6) w1 by (intro all_records_perm) simp
  then have "applies (w_now w) (all_records b) (w_db w) = applies (w_now w) xs (w_db w)"
    using b1(2) e applies_perm [of "all_records b" "all_records b1"] by (simp add: applies_def)
  moreover have "w\<lparr>w_batch := \<lambda>_. []\<rparr> = w" by (cases w) (use assms(3) in simp)
  ultimately show ?thesis using assms(1-2)
    by (simp add: w1 batchUpdate_reliable direct_all_reliable)
      (metis (no_types) world.surjective world.update_convs)
qed

text \<open>Two charges on one user and a token refund, recorded, then flushed in another map order.\<close>

definition batch_demo :: world where
  "batch_demo = world_with (empty_db\<lparr>d_users := [blank_user\<lparr>u_id := 1, u_quota := 1000\<rparr>],
     d_tokens := [blank_token\<lparr>t_id := 5, t_user_id := 1\<rparr>]\<rparr>) 7"

theorem batch_update_refines_direct_witness:
  "map_option u_quota (user_of (w_db (snd (batchUpdate (snd (record_all
     [(BatchUpdateTypeUserQuota, 1, - 30), (BatchUpdateTypeTokenQuota, 5, 8), (BatchUpdateTypeUserQuota, 1, - 12)]
     batch_demo))))) 1) = Some 958"
proof -
  let ?xs = "[(BatchUpdateTypeUserQuota, 1, - 30), (BatchUpdateTypeTokenQuota, 5, 8),
    (BatchUpdateTypeUserQuota, 1, - 12)] :: (batch_type \<times> int \<times> int) list"
  have h: "w_faults batch_demo = []" "\<not> w_aborted batch_demo" "w_batch batch_demo = (\<lambda>_. [])"
    "sum_list (map (\<lambda>(ty, i, v). \<bar>v\<bar>) ?xs) \<le> max_int64"
    by (simp_all add: batch_demo_def start_defs max_int64_def)
  have e: "batchUpdate (snd (record_all ?xs batch_demo)) = direct_all ?xs batch_demo"
    using batch_update_refines_direct [OF h, of "fst (record_all ?xs batch_demo)"
        "snd (record_all ?xs batch_demo)" "w_batch (snd (record_all ?xs batch_demo))"]
    by (simp del: record_all.simps direct_all.simps)
  show ?thesis
    unfolding e direct_all_reliable [OF h(1,2)]
    by (simp add: applies_def user_of_def update_rows_def add_quota_def batch_demo_def start_defs)
qed

end
