(* ===== verification/ChargeOrder.thy ===== *)
theory ChargeOrder
  imports TopUp
begin

text \<open>
  Charges by Stripe webhook and by crypto callback, \<open>model/charge_order.go\<close>, \<open>model/order.go\<close> and
  \<open>model/bill.go\<close>: a successful charge settles its order, credits the buyer and pays the
  commission in one transaction, a refund takes both back, a crypto payment is credited by the
  callback that creates its order. Identifiers of users in Stripe metadata are decimal strings.
\<close>

section \<open>Orders\<close>

definition StatusCreate :: int where "StatusCreate = 1"
definition StatusSuccess :: int where "StatusSuccess = 3"
definition StatusRefund :: int where "StatusRefund = 5"

lemmas charge_status = StatusCreate_def StatusSuccess_def StatusRefund_def

text \<open>\<open>stripe.Charge\<close> as the handlers read it: the metadata names the order and its user.\<close>

record stripe_charge =
  ch_id :: string
  ch_status :: string
  ch_amount :: int
  ch_fee :: int
  ch_order :: string
  ch_user :: string

definition order_of :: "string \<Rightarrow> string \<Rightarrow> charge_order \<Rightarrow> bool" where
  "order_of oid uid o1 \<longleftrightarrow> co_app_order_id o1 = oid \<and> parse_int64 uid = Some (co_user_id o1)"

abbreviation update_charges :: "(charge_order \<Rightarrow> bool) \<Rightarrow> (charge_order \<Rightarrow> charge_order) \<Rightarrow> nat op" where
  "update_charges \<equiv> update_where d_charge_orders d_charge_orders_update"

definition UpdateChargeOrderStatusWithConditionTx :: "string \<Rightarrow> string \<Rightarrow> int \<Rightarrow> int \<Rightarrow> bool op" where
  "UpdateChargeOrderStatusWithConditionTx oid uid expected new =
     on_result (update_charges (\<lambda>o1. order_of oid uid o1 \<and> co_status o1 = expected) (\<lambda>o1. o1\<lparr>co_status := new\<rparr>))
       (\<lambda>r. case r of Inl _ \<Rightarrow> ret False | Inr n \<Rightarrow> ret (n = 1))"

definition UpdateChargeOrderStatusWithCondition :: "string \<Rightarrow> string \<Rightarrow> int \<Rightarrow> int \<Rightarrow> bool op" where
  "UpdateChargeOrderStatusWithCondition = UpdateChargeOrderStatusWithConditionTx"

section \<open>Refunds\<close>

text \<open>The two amounts are computed from the row read before; returns the users to refresh.\<close>

definition refund_user :: "stripe_charge \<Rightarrow> charge_order \<Rightarrow> user \<Rightarrow> (int \<times> int) op" where
  "refund_user c o1 u = reading (\<lambda>w.
     let q = AmountToQuota (w_cfg w) (co_amount o1)
     in then_do (stmt (update_users (\<lambda>v. u_id v = co_user_id o1)
          (\<lambda>v. add_topup (- actual_reverse q (u_topup_quota u)) (add_quota (- actual_reverse q (u_quota u)) v))))
        (on_ok (ReverseCommission (ch_order c)) (\<lambda>(i, rv).
           if 0 < i \<and> 0 < rv
           then then_do (RecordLog i LogTypeAffCommission (LogCommissionReversed rv (ch_order c)))
                  (ret (co_user_id o1, i))
           else ret (co_user_id o1, 0))))"

definition refund_body :: "stripe_charge \<Rightarrow> (int \<times> int) op" where
  "refund_body c =
     on_ok (UpdateChargeOrderStatusWithConditionTx (ch_order c) (ch_user c) StatusSuccess StatusRefund) (\<lambda>ok.
       if \<not> ok then ret (0, 0)
       else on_ok (first d_charge_orders (order_of (ch_order c) (ch_user c))) (\<lambda>o1.
         on_ok (first d_users (\<lambda>u. u_id u = co_user_id o1)) (refund_user c o1)))"

definition stripeChargeRefund :: "stripe_charge \<Rightarrow> unit op" where
  "stripeChargeRefund c =
     (if ch_status c \<noteq> ''succeeded'' then ret ()
      else on_ok (transaction (refund_body c)) (\<lambda>(refunded, inviter).
        then_do (if 0 < refunded then ignore_err (CacheUpdateUserQuota2 refunded) else ret ())
          (if 0 < inviter then ignore_err (CacheUpdateUserQuota2 inviter) else ret ())))"

section \<open>Successful charges\<close>

text \<open>\<open>float64(charge.Amount / 100)\<close>: whole dollars, the cents are divided away.\<close>

definition charge_major :: "stripe_charge \<Rightarrow> f64" where
  "charge_major c = f_of_int (go_div (ch_amount c) 100)"

definition charge_cost :: "f64 \<Rightarrow> f64" where
  "charge_cost amount = fadd (fmul amount (flit 29 1000)) (flit 3 10)"

definition keep_zero :: "f64 \<Rightarrow> f64 \<Rightarrow> f64" where
  "keep_zero new old = (if feq new fzero then old else new)"

text \<open>\<open>Updates\<close> with a struct leaves the columns of zero fields alone.\<close>

definition settled_order :: "stripe_charge \<Rightarrow> charge_order \<Rightarrow> charge_order" where
  "settled_order c o1 =
     (let amount = charge_major c; cost = charge_cost amount
      in o1\<lparr>co_status := StatusSuccess,
           co_real_amount := keep_zero (fadd amount (fneg cost)) (co_real_amount o1),
           co_order_cost := keep_zero cost (co_order_cost o1),
           co_order_no := (if ch_id c = [] then co_order_no o1 else ch_id c),
           co_amount := keep_zero amount (co_amount o1)\<rparr>)"

definition settle_bill :: "string \<Rightarrow> unit op" where
  "settle_bill oid =
     on_ok (first d_bills (\<lambda>b. b_source_id b = oid)) (\<lambda>b. reading (\<lambda>w.
       stmt (update_where d_bills d_bills_update (\<lambda>r. b_id r = b_id b)
         (\<lambda>r. r\<lparr>b_status := StatusSuccess, b_updated_at := w_now w\<rparr>))))"

definition success_body :: "stripe_charge \<Rightarrow> charge_order \<Rightarrow> (int \<times> int) op" where
  "success_body c o1 =
     on_ok (UpdateChargeOrderStatusWithConditionTx (ch_order c) (ch_user c) StatusCreate StatusSuccess) (\<lambda>ok.
       if \<not> ok then fail (Msg ''order has already been processed or has an unexpected status'')
       else then_do (stmt (update_charges (\<lambda>r. co_id r = co_id o1) (settled_order c)))
         (reading (\<lambda>w. let q = AmountToQuota (w_cfg w) (charge_major c)
            in then_do (stmt (update_users (\<lambda>u. u_id u = co_user_id o1) (credited True q)))
              (on_ok (GrantCommission (co_user_id o1) (charge_major c) q SourceTypeStripeCharge (co_app_order_id o1)) (\<lambda>icq.
                 then_do (settle_bill (ch_order c)) (ret icq))))))"

definition AfterChargeSuccess :: "int \<Rightarrow> f64 \<Rightarrow> unit op" where
  "AfterChargeSuccess uid amount =
     on_result (GetUserEmail uid) (\<lambda>r. case r of Inl _ \<Rightarrow> ret () | Inr email \<Rightarrow> ignore_err (send_email email))"

definition success_after :: "int \<Rightarrow> f64 \<Rightarrow> int \<times> int \<Rightarrow> unit op" where
  "success_after uid paid = (\<lambda>(inviter, cq).
     then_do (ignore_err (CacheUpdateUserQuota2 uid))
    (then_do (if 0 < inviter \<and> 0 < cq
              then then_do (ignore_err (CacheUpdateUserQuota2 inviter))
                     (RecordLog inviter LogTypeAffCommission (LogCommission cq uid))
              else ret ())
    (then_do (RecalcUserLevelAndRefreshCache uid)
       (AfterChargeSuccess uid paid))))"

definition stripeChargeSuccess :: "stripe_charge \<Rightarrow> unit op" where
  "stripeChargeSuccess c =
     (if ch_status c \<noteq> ''succeeded'' then ret ()
      else on_ok (first d_charge_orders (order_of (ch_order c) (ch_user c))) (\<lambda>o1.
        on_ok (transaction (success_body c o1))
          (success_after (co_user_id o1) (f_of_int (wrap64 (go_div (ch_amount c) 100 - go_div (ch_fee c) 100))))))"

text \<open>
  The webhook. Parsing and signature check (\<open>verify\<close>) and the decoding of the event's object
  (\<open>decode\<close>) belong to the Stripe library.
\<close>

definition HandleStripeCallback ::
    "(string \<Rightarrow> string \<Rightarrow> gerr + (string \<times> string)) \<Rightarrow> (string \<Rightarrow> gerr + stripe_charge) \<Rightarrow> string \<Rightarrow> string \<Rightarrow> unit op" where
  "HandleStripeCallback verify decode payload signature =
     (case verify payload signature of
        Inl e \<Rightarrow> fail e
      | Inr (kind, raw) \<Rightarrow>
          if kind = ''payment_intent.succeeded''
          then (case decode raw of Inl e \<Rightarrow> fail e | Inr c \<Rightarrow> stripeChargeSuccess c)
          else if kind = ''charge.refunded''
          then (case decode raw of Inl e \<Rightarrow> fail e | Inr c \<Rightarrow> stripeChargeRefund c)
          else if kind = ''charge.failed''
          then (case decode raw of Inl e \<Rightarrow> fail e | Inr c \<Rightarrow> ret ())
          else ret ())"

section \<open>Crypto payments\<close>

record crypt_callback =
  cb_user_id :: int
  cb_uuid :: string
  cb_result :: string
  cb_coin :: string
  cb_address_in :: string
  cb_address_out :: string
  cb_fee_coin :: f64
  cb_value_coin :: f64
  cb_forwarded :: f64

definition CryptResponseResult :: "string \<Rightarrow> int" where
  "CryptResponseResult r =
     (if r = ''pending'' then 1 else if r = ''received'' then 2 else if r = ''sent'' then 3
      else if r = ''done'' then 4 else 0)"

definition new_order :: "crypt_callback \<Rightarrow> string \<Rightarrow> int \<Rightarrow> int \<Rightarrow> crypto_order" where
  "new_order cb username status now =
     \<lparr>or_id = 0, or_username = username, or_user_id = cb_user_id cb, or_type = ''Crypto'', or_uuid = cb_uuid cb,
      or_status = status, or_ticker = cb_coin cb, or_address_out = cb_address_out cb, or_address_in = cb_address_in cb,
      or_created_time = now, or_updated_time = now, or_fee_coin = cb_fee_coin cb, or_value_coin = cb_value_coin cb,
      or_value_forwarded_coin = cb_forwarded cb\<rparr>"

definition new_bill :: "crypt_callback \<Rightarrow> string \<Rightarrow> int \<Rightarrow> int \<Rightarrow> bill" where
  "new_bill cb username status now =
     \<lparr>b_id = 0, b_username = username, b_user_id = cb_user_id cb, b_type = ''Crypto'', b_created_at = now,
      b_updated_at = now, b_amount = cb_value_coin cb, b_status = status, b_source_id = cb_uuid cb\<rparr>"

text \<open>\<open>Create\<close> on the global handle, although a transaction is open.\<close>

definition create_order_global :: "crypto_order \<Rightarrow> unit op" where
  "create_order_global o1 = exec_global (\<lambda>d. Inr ((),
     d_orders_update (\<lambda>rs. rs @ [o1\<lparr>or_id := next_id (map or_id rs)\<rparr>]) d))"

definition create_bill_global :: "bill \<Rightarrow> unit op" where
  "create_bill_global b = exec_global (\<lambda>d. Inr ((),
     d_bills_update (\<lambda>rs. rs @ [b\<lparr>b_id := next_id (map b_id rs)\<rparr>]) d))"

definition crypto_body :: "crypt_callback \<Rightarrow> string \<Rightarrow> int \<Rightarrow> unit op" where
  "crypto_body cb username status = reading (\<lambda>w.
     then_do (create_order_global (new_order cb username status (w_now w)))
    (then_do (create_bill_global (new_bill cb username status (w_now w)))
      (stmt (update_users (\<lambda>u. u_id u = cb_user_id cb)
         (credited True (AmountToQuota (w_cfg w) (cb_forwarded cb)))))))"

definition UpdateOrder :: "string \<Rightarrow> int \<Rightarrow> unit op" where
  "UpdateOrder uuid status = reading (\<lambda>w.
     stmt (update_where d_orders d_orders_update (\<lambda>o1. or_uuid o1 = uuid)
       (\<lambda>o1. o1\<lparr>or_status := (if status = 0 then or_status o1 else status), or_updated_time := w_now w\<rparr>)))"

definition UpdateBill :: "string \<Rightarrow> int \<Rightarrow> unit op" where
  "UpdateBill source status = reading (\<lambda>w.
     stmt (update_where d_bills d_bills_update (\<lambda>b. b_source_id b = source)
       (\<lambda>b. b\<lparr>b_status := (if status = 0 then b_status b else status), b_updated_at := w_now w\<rparr>)))"

definition CreateOrUpdateOrder :: "crypt_callback \<Rightarrow> string \<Rightarrow> unit op" where
  "CreateOrUpdateOrder cb username =
     (let status = CryptResponseResult (cb_result cb)
      in on_result (first d_orders (\<lambda>o1. or_uuid o1 = cb_uuid cb)) (\<lambda>r. case r of
        Inl e \<Rightarrow>
          if e = NotFound
          then (if status = 3
                then on_ok (transaction (crypto_body cb username status)) (\<lambda>_.
                  then_do (ignore_err (CacheUpdateUserQuota2 (cb_user_id cb)))
                 (then_do (RecalcUserLevelAndRefreshCache (cb_user_id cb))
                   (AfterChargeSuccess (cb_user_id cb) (cb_forwarded cb))))
                else ret ())
          else fail e
      | Inr o1 \<Rightarrow>
          if or_status o1 < status
          then then_do (UpdateOrder (or_uuid o1) status) (UpdateBill (or_uuid o1) status)
          else ret ()))"

section \<open>What the handlers leave alone\<close>

text \<open>The money of the users and every other table: a view of the database.\<close>

definition charge_view :: "db \<Rightarrow> (int \<times> int \<times> int \<times> int) list \<times> db" where
  "charge_view d = (map (\<lambda>u. (u_id u, balance u)) (d_users d), d\<lparr>d_users := []\<rparr>)"

lemma charge_viewD:
  assumes "charge_view d' = charge_view d"
  shows "balance_of d' = balance_of d" "d_charge_orders d' = d_charge_orders d" "d_commissions d' = d_commissions d"
    "keys_ok d' = keys_ok d"
proof -
  from assms have e: "map (\<lambda>u. (u_id u, balance u)) (d_users d') = map (\<lambda>u. (u_id u, balance u)) (d_users d)"
    and o: "d'\<lparr>d_users := []\<rparr> = d\<lparr>d_users := []\<rparr>"
    by (simp_all add: charge_view_def)
  from arg_cong [OF e, of "map fst"] have u: "map u_id (d_users d') = map u_id (d_users d)" by (simp add: o_def)
  show "balance_of d' = balance_of d" by (rule ext) (simp add: balance_of_view money_view_def e)
  show "d_charge_orders d' = d_charge_orders d" "d_commissions d' = d_commissions d"
    using arg_cong [OF o, of d_charge_orders] arg_cong [OF o, of d_commissions] by simp_all
  show "keys_ok d' = keys_ok d"
    using u arg_cong [OF o, of d_tokens] arg_cong [OF o, of d_channels] arg_cong [OF o, of d_topups]
      arg_cong [OF o, of d_redemptions] arg_cong [OF o, of d_commissions] arg_cong [OF o, of d_charge_orders]
    by (simp add: keys_ok_def)
qed

lemma keeps_level_view:
  assumes "\<And>p k d. V (d_users_update (update_rows p (\<lambda>u. u\<lparr>u_group := k\<rparr>)) d) = V d"
  shows "keeps V (RecalcUserLevelAndRefreshCache uid)"
  unfolding RecalcUserLevelAndRefreshCache_def RecalcUserLevel_def raise_level_def
    GetGroupConfigsByThresholdDesc_def InvalidateUserGroupCache_def Let_def stmt_def
  by (intro keeps_intros keeps_update assms)

lemma keeps_send: "keeps V (send_email to)"
  by (auto simp: keeps_def send_email_def dest!: take_fault_db split: prod.splits if_splits)

lemma keeps_after_charge: "keeps V (AfterChargeSuccess uid amount)"
  unfolding AfterChargeSuccess_def GetUserEmail_def by (intro keeps_intros keeps_send)

lemma keeps_success_after: "keeps charge_view (success_after uid paid icq)"
proof -
  have "keeps charge_view (RecalcUserLevelAndRefreshCache uid)"
    by (rule keeps_level_view) (simp add: charge_view_def update_rows_def o_def balance_def if_distrib cong: if_cong)
  then show ?thesis
    unfolding success_after_def CacheUpdateUserQuota2_def GetUserQuota_def
    by (cases icq) (simp, intro conjI impI keeps_intros keeps_after_charge)
qed

lemma success_after_result:
  assumes "success_after uid paid icq w = (r, w')"
  shows "r = Inr ()" "charge_view (w_db w') = charge_view (w_db w)"
proof -
  have "succeeds (AfterChargeSuccess uid paid)"
    unfolding AfterChargeSuccess_def by (intro succeeds_rules succeeds_sum)
  then have "succeeds (success_after uid paid icq)"
    unfolding success_after_def RecalcUserLevelAndRefreshCache_def InvalidateUserGroupCache_def
    by (cases icq) (simp, intro conjI impI succeeds_rules succeeds_sum)
  with assms show "r = Inr ()" unfolding succeeds_def by (cases r) auto
  show "charge_view (w_db w') = charge_view (w_db w)" using keepsD [OF keeps_success_after assms] .
qed

section \<open>The conditional status change\<close>

definition orders_distinct :: "db \<Rightarrow> bool" where
  "orders_distinct d \<longleftrightarrow> distinct (map co_id (d_charge_orders d)) \<and> distinct (map co_app_order_id (d_charge_orders d))"

definition orders_ok :: "db \<Rightarrow> bool" where
  "orders_ok d \<longleftrightarrow> keys_ok d \<and> orders_distinct d"

lemma only_row:
  assumes "distinct (map key rs)" "x \<in> set rs" "\<And>r. r \<in> set rs \<Longrightarrow> p r \<longleftrightarrow> r = x"
  shows "update_rows p f rs = update_rows (\<lambda>r. key r = key x) f rs"
proof -
  have "p r \<longleftrightarrow> key r = key x" if "r \<in> set rs" for r
    using assms that by (auto simp: distinct_map dest: inj_onD)
  then show ?thesis by (simp add: update_rows_def)
qed

lemma unique_order:
  assumes "orders_distinct d" "List.find (order_of oid uid) (d_charge_orders d) = Some o1" "r \<in> set (d_charge_orders d)"
  shows "order_of oid uid r \<longleftrightarrow> r = o1"
  using assms find_SomeD [OF assms(2)] by (auto simp: orders_distinct_def order_of_def distinct_map dest: inj_onD)

lemma condition_result:
  assumes "UpdateChargeOrderStatusWithConditionTx oid uid a b w = (r, w')" "orders_distinct (w_db w)" "a \<noteq> b"
    and "List.find (order_of oid uid) (d_charge_orders (w_db w)) = Some o1"
  shows "touched w w' (w_db w') \<and> (r = Inr False \<and> w_db w' = w_db w \<or>
    r = Inr True \<and> co_status o1 = a \<and>
      w_db w' = d_charge_orders_update (update_rows (\<lambda>x. co_id x = co_id o1) (\<lambda>x. x\<lparr>co_status := b\<rparr>)) (w_db w))"
proof -
  let ?p = "\<lambda>x. order_of oid uid x \<and> co_status x = a" and ?f = "\<lambda>x. x\<lparr>co_status := b\<rparr>"
  obtain r1 where u: "update_charges ?p ?f w = (r1, w')" and r: "r = Inr (\<exists>n. r1 = Inr n \<and> n = 1)"
    using assms(1) by (auto simp: UpdateChargeOrderStatusWithConditionTx_def split: sum.splits)
  note t = update_where_touched [OF u]
  have mem: "o1 \<in> set (d_charge_orders (w_db w))" "order_of oid uid o1" using find_SomeD [OF assms(4)] by auto
  have dc: "distinct (map co_id (d_charge_orders (w_db w)))" "distinct (d_charge_orders (w_db w))"
    using assms(2) by (auto simp: orders_distinct_def distinct_map)
  have only: "?p x \<longleftrightarrow> x = o1 \<and> co_status o1 = a" if "x \<in> set (d_charge_orders (w_db w))" for x
    using unique_order [OF assms(2,4) that] by auto
  show ?thesis
  proof (cases r1)
    case (Inl e)
    with t r show ?thesis by auto
  next
    case (Inr n)
    have n: "n = affected (w_dialect w) ?p ?f (d_charge_orders (w_db w))"
      and db: "w_db w' = d_charge_orders_update (update_rows ?p ?f) (w_db w)"
      using t(3) [OF Inr] u Inr by (auto elim!: update_where_Inr)
    show ?thesis
    proof (cases "co_status o1 = a")
      case True
      have "?f x \<noteq> x" if "?p x" for x using that assms(3) by (cases x) auto
      then have "filter (\<lambda>x. ?p x \<and> (w_dialect w = MySQL \<longrightarrow> ?f x \<noteq> x)) (d_charge_orders (w_db w)) =
          filter (\<lambda>x. x = o1) (d_charge_orders (w_db w))"
        by (intro filter_cong refl) (use only True in blast)
      also have "length \<dots> = 1"
        using distinct_length_filter [OF dc(2), of "\<lambda>x. x = o1"] mem(1) by (simp add: Int_absorb1)
      finally have "n = 1" by (simp add: n affected_def)
      moreover have "update_rows ?p ?f (d_charge_orders (w_db w)) =
          update_rows (\<lambda>x. co_id x = co_id o1) ?f (d_charge_orders (w_db w))"
        by (rule only_row [OF dc(1) mem(1)]) (use only True in blast)
      then have "d_charge_orders_update (update_rows ?p ?f) (w_db w) =
          d_charge_orders_update (update_rows (\<lambda>x. co_id x = co_id o1) ?f) (w_db w)"
        by (cases "w_db w") simp
      ultimately show ?thesis using r Inr db True t(1) by simp
    next
      case False
      then have none: "\<not> ?p x" if "x \<in> set (d_charge_orders (w_db w))" for x using only [OF that] by blast
      then have "filter (\<lambda>x. ?p x \<and> (w_dialect w = MySQL \<longrightarrow> ?f x \<noteq> x)) (d_charge_orders (w_db w)) = []"
        by (intro filter_False) blast
      then have "n = 0" by (simp add: n affected_def)
      moreover have "update_rows ?p ?f (d_charge_orders (w_db w)) = d_charge_orders (w_db w)"
        unfolding update_rows_def by (rule map_idI) (rule if_not_P [OF none])
      ultimately show ?thesis using r Inr db t(1) by simp
    qed
  qed
qed

section \<open>A charge settles once\<close>

text \<open>The writes of a settlement before the commission.\<close>

definition success_db :: "stripe_charge \<Rightarrow> charge_order \<Rightarrow> int \<Rightarrow> db \<Rightarrow> db" where
  "success_db c o1 q d =
     d_users_update (update_rows (\<lambda>u. u_id u = co_user_id o1) (credited True q))
       (d_charge_orders_update (update_rows (\<lambda>x. co_id x = co_id o1) (settled_order c)) d)"

lemma settle_bill_Inr:
  assumes "settle_bill oid w = (Inr (), w')"
  obtains f where "w_db w' = d_bills_update f (w_db w)"
proof -
  from assms obtain b w1 where f: "first d_bills (\<lambda>b. b_source_id b = oid) w = (Inr b, w1)"
    and k: "stmt (update_where d_bills d_bills_update (\<lambda>r. b_id r = b_id b)
         (\<lambda>r. r\<lparr>b_status := StatusSuccess, b_updated_at := w_now w1\<rparr>)) w1 = (Inr (), w')"
    by (auto simp: settle_bill_def reading_def)
  have "w_db w1 = w_db w" using first_touched [OF f] touchedD(1) by blast
  with stmt_result(2) [OF k] that show thesis by simp
qed

lemma success_body_Inr:
  assumes "success_body c o1 w = (Inr (i, cq), w')" "orders_distinct (w_db w)"
    and "List.find (order_of (ch_order c) (ch_user c)) (d_charge_orders (w_db w)) = Some o1"
  obtains d1 f where "co_status o1 = StatusCreate"
    "commission_step (ch_order c) (success_db c o1 (AmountToQuota (w_cfg w) (charge_major c)) (w_db w)) d1 i cq"
    "w_db w' = d_bills_update f d1" "i = 0 \<or> i \<noteq> co_user_id o1"
proof -
  let ?q = "AmountToQuota (w_cfg w) (charge_major c)"
  have oid: "co_app_order_id o1 = ch_order c" using find_SomeD [OF assms(3)] by (simp add: order_of_def)
  from assms(1) obtain ok w1 where c1: "UpdateChargeOrderStatusWithConditionTx (ch_order c) (ch_user c) StatusCreate StatusSuccess w = (Inr ok, w1)"
    and k1: "ok" "then_do (stmt (update_charges (\<lambda>r. co_id r = co_id o1) (settled_order c)))
         (reading (\<lambda>w. let q = AmountToQuota (w_cfg w) (charge_major c)
            in then_do (stmt (update_users (\<lambda>u. u_id u = co_user_id o1) (credited True q)))
              (on_ok (GrantCommission (co_user_id o1) (charge_major c) q SourceTypeStripeCharge (co_app_order_id o1)) (\<lambda>icq.
                 then_do (settle_bill (ch_order c)) (ret icq))))) w1 = (Inr (i, cq), w')"
    unfolding success_body_def by (elim on_ok_Inr) (simp split: if_splits)
  have st: "co_status o1 = StatusCreate" "touched w w1 (w_db w1)"
    "w_db w1 = d_charge_orders_update (update_rows (\<lambda>x. co_id x = co_id o1) (\<lambda>x. x\<lparr>co_status := StatusSuccess\<rparr>)) (w_db w)"
  proof -
    have "StatusCreate \<noteq> StatusSuccess" by (simp add: charge_status)
    from condition_result [OF c1 assms(2) this assms(3)] k1(1)
    show "co_status o1 = StatusCreate" "touched w w1 (w_db w1)"
      "w_db w1 = d_charge_orders_update (update_rows (\<lambda>x. co_id x = co_id o1) (\<lambda>x. x\<lparr>co_status := StatusSuccess\<rparr>)) (w_db w)"
      by (elim conjE disjE; blast)+
  qed
  from k1(2) obtain w2 where c2: "stmt (update_charges (\<lambda>r. co_id r = co_id o1) (settled_order c)) w1 = (Inr (), w2)"
    and k2: "then_do (stmt (update_users (\<lambda>u. u_id u = co_user_id o1) (credited True (AmountToQuota (w_cfg w2) (charge_major c)))))
              (on_ok (GrantCommission (co_user_id o1) (charge_major c) (AmountToQuota (w_cfg w2) (charge_major c)) SourceTypeStripeCharge (co_app_order_id o1)) (\<lambda>icq.
                 then_do (settle_bill (ch_order c)) (ret icq))) w2 = (Inr (i, cq), w')"
    by (elim then_do_Inr) (simp add: reading_def Let_def)
  have cfg: "w_cfg w2 = w_cfg w"
    using touchedD(2) [OF st(2)] touchedD(2) [OF stmt_result(1) [OF c2]] by simp
  from k2 obtain w3 w4 where c3: "stmt (update_users (\<lambda>u. u_id u = co_user_id o1) (credited True ?q)) w2 = (Inr (), w3)"
    and g: "GrantCommission (co_user_id o1) (charge_major c) ?q SourceTypeStripeCharge (ch_order c) w3 = (Inr (i, cq), w4)"
    and b: "settle_bill (ch_order c) w4 = (Inr (), w')"
    unfolding cfg oid by (elim then_do_Inr on_ok_Inr) auto
  have "update_rows (\<lambda>x. co_id x = co_id o1) (settled_order c) (update_rows (\<lambda>x. co_id x = co_id o1) (\<lambda>x. x\<lparr>co_status := StatusSuccess\<rparr>) rs) =
      update_rows (\<lambda>x. co_id x = co_id o1) (settled_order c) rs" for rs
    by (induction rs) (auto simp: update_rows_def settled_order_def Let_def)
  then have "d_charge_orders_update (update_rows (\<lambda>x. co_id x = co_id o1) (settled_order c)) (w_db w1) =
      d_charge_orders_update (update_rows (\<lambda>x. co_id x = co_id o1) (settled_order c)) (w_db w)"
    unfolding st(3) by (cases "w_db w") simp
  then have db: "w_db w3 = success_db c o1 ?q (w_db w)"
    using stmt_result(2) [OF c3] stmt_result(2) [OF c2] by (simp add: success_db_def)
  from b obtain f where "w_db w' = d_bills_update f (w_db w4)" by (rule settle_bill_Inr)
  moreover have "commission_step (ch_order c) (w_db w3) (w_db w4) i cq" "i = 0 \<or> i \<noteq> co_user_id o1"
    using GrantCommission_outcome [OF g] yieldsD [OF GrantCommission_other g] by (auto simp: grant_outcome_def commission_step_def)
  ultimately show thesis using that [OF st(1)] db by simp
qed

lemma keeps_base_success: "keeps_base (success_body c o1)"
  unfolding success_body_def UpdateChargeOrderStatusWithConditionTx_def settle_bill_def stmt_def Let_def
  by (intro base_intros keeps_base_grant)

lemma success_db_effect:
  assumes "orders_ok d" "List.find (order_of oid uid) (d_charge_orders d) = Some o1"
  shows "orders_ok (success_db c o1 q d)"
    and "List.find (order_of oid uid) (d_charge_orders (success_db c o1 q d)) = Some (settled_order c o1)"
    and "balance_of (success_db c o1 q d) j =
      (if j = co_user_id o1 then map_option (\<lambda>(a, b, g). (a + q, b + q, g)) (balance_of d j) else balance_of d j)"
proof -
  have dk: "distinct (map co_id (d_charge_orders d))" "distinct (map u_id (d_users d))"
    using assms(1) by (simp_all add: orders_ok_def orders_distinct_def keys_ok_def)
  have cr: "u_id (credited True q u) = u_id u" for u by (simp add: credited_def add_quota_def add_topup_def)
  have so: "co_id (settled_order c x) = co_id x" "co_app_order_id (settled_order c x) = co_app_order_id x"
    "co_user_id (settled_order c x) = co_user_id x" for x by (simp_all add: settled_order_def Let_def)
  have "map co_id (update_rows (\<lambda>x. co_id x = co_id o1) (settled_order c) rs) = map co_id rs"
    "map co_app_order_id (update_rows (\<lambda>x. co_id x = co_id o1) (settled_order c) rs) = map co_app_order_id rs" for rs
    by (simp_all add: update_rows_def so)
  then show "orders_ok (success_db c o1 q d)"
    using assms(1) cr by (simp add: orders_ok_def orders_distinct_def keys_ok_def success_db_def)
  have "order_of oid uid (if co_id x = co_id o1 then settled_order c x else x) = order_of oid uid x" for x
    by (simp add: order_of_def so)
  then have "List.find (order_of oid uid) (update_rows (\<lambda>x. co_id x = co_id o1) (settled_order c) (d_charge_orders d)) =
      map_option (\<lambda>x. if co_id x = co_id o1 then settled_order c x else x) (List.find (order_of oid uid) (d_charge_orders d))"
    by (simp add: update_rows_def find_map o_def)
  then show "List.find (order_of oid uid) (d_charge_orders (success_db c o1 q d)) = Some (settled_order c o1)"
    using assms(2) by (simp add: success_db_def)
  have u: "user_of (success_db c o1 q d) j = (if j = co_user_id o1 then map_option (credited True q) (user_of d j) else user_of d j)"
    using dk cr by (simp add: success_db_def user_of_def update_rows_find1)
  show "balance_of (success_db c o1 q d) j =
      (if j = co_user_id o1 then map_option (\<lambda>(a, b, g). (a + q, b + q, g)) (balance_of d j) else balance_of d j)"
    unfolding balance_of_def u
    by (cases "user_of d j") (auto simp: balance_def credited_def add_quota_def add_topup_def)
qed

lemma charge_success_outcome:
  assumes "stripeChargeSuccess c w = (r, w')" "ch_status c = ''succeeded''" "w_base w = None" "orders_distinct (w_db w)"
  obtains (failed) e where "r = Inl e" "w_db w' = w_db w"
  | (settled) o1 d1 f i cq where "r = Inr ()"
    "List.find (order_of (ch_order c) (ch_user c)) (d_charge_orders (w_db w)) = Some o1" "co_status o1 = StatusCreate"
    "commission_step (ch_order c) (success_db c o1 (AmountToQuota (w_cfg w) (charge_major c)) (w_db w)) d1 i cq"
    "charge_view (w_db w') = charge_view (d_bills_update f d1)" "i = 0 \<or> i \<noteq> co_user_id o1"
proof -
  let ?after = "\<lambda>o1. success_after (co_user_id o1) (f_of_int (wrap64 (go_div (ch_amount c) 100 - go_div (ch_fee c) 100)))"
  obtain r1 w1 where f: "first d_charge_orders (order_of (ch_order c) (ch_user c)) w = (r1, w1)" by fastforce
  note t1 = touchedD [OF first_touched [OF f]]
  show thesis
  proof (cases r1)
    case (Inl e)
    with assms(1,2) f t1(1) show thesis by (intro failed [of e]) (auto simp: stripeChargeSuccess_def on_ok_def)
  next
    case (Inr o1)
    with f have fd: "List.find (order_of (ch_order c) (ch_user c)) (d_charge_orders (w_db w)) = Some o1" by (auto elim: first_Inr)
    obtain r2 w2 where t: "transaction (success_body c o1) w1 = (r2, w2)" by fastforce
    have run: "on_ok (transaction (success_body c o1)) (?after o1) w1 = (r, w')"
      using assms(1,2) f Inr by (simp add: stripeChargeSuccess_def on_ok_def)
    show thesis
    proof (cases r2)
      case (Inl e)
      with run t transaction_atomic [OF keeps_base_success] assms(3) t1 show thesis
        by (intro failed [of e]) (auto simp: on_ok_def)
    next
      case (Inr icq)
      obtain i cq where icq: "icq = (i, cq)" by (cases icq)
      obtain fs w3 fs' where b: "success_body c o1 (w1\<lparr>w_base := Some (w_db w1), w_aborted := False, w_faults := fs\<rparr>) = (Inr (i, cq), w3)"
        "w2 = w3\<lparr>w_base := None, w_faults := fs'\<rparr>"
        using t [unfolded Inr icq] by (rule transaction_Inr)
      have a: "?after o1 icq w2 = (r, w')" using run t Inr by (simp add: on_ok_def)
      note ar = success_after_result [OF a]
      let ?v = "w1\<lparr>w_base := Some (w_db w1), w_aborted := False, w_faults := fs\<rparr>"
      have v: "w_db ?v = w_db w" "w_cfg ?v = w_cfg w" using t1 by simp_all
      obtain d1 g where "co_status o1 = StatusCreate"
        "commission_step (ch_order c) (success_db c o1 (AmountToQuota (w_cfg w) (charge_major c)) (w_db w)) d1 i cq"
        "w_db w3 = d_bills_update g d1" "i = 0 \<or> i \<noteq> co_user_id o1"
        using success_body_Inr [OF b(1)] v assms(4) fd by metis
      with settled [OF ar(1) fd] ar(2) b(2) show thesis by simp
    qed
  qed
qed

lemma commission_orders: "commission_step no d d' i q \<Longrightarrow> d_charge_orders d' = d_charge_orders d"
  by (auto simp: commission_step_def granted_def grant_db_def)

lemma next_id_fresh: "next_id ids \<notin> set ids"
proof -
  have "x \<in> set ids \<Longrightarrow> x \<le> foldr max ids 0" for x by (induction ids) auto
  then show ?thesis by (force simp: next_id_def)
qed

lemma commission_keys: "commission_step no d d' i q \<Longrightarrow> keys_ok d \<Longrightarrow> keys_ok d'"
  using next_id_fresh [of "map cm_id (d_commissions d)"]
  by (auto simp: commission_step_def granted_def grant_db_def keys_ok_def add_gift_def image_iff)

lemma bills_frame [simp]:
  "balance_of (d_bills_update f d) = balance_of d" "keys_ok (d_bills_update f d) = keys_ok d"
  by (simp_all add: balance_of_def user_of_def keys_ok_def fun_eq_iff)


section \<open>Refunds\<close>

lemma actual_reverse_bounds: "0 \<le> actual_reverse q x" "min 0 x \<le> x - actual_reverse q x"
  by (auto simp: actual_reverse_def Let_def)

lemma condition_none:
  assumes "UpdateChargeOrderStatusWithConditionTx oid uid a b w = (r, w')"
    and "List.find (order_of oid uid) (d_charge_orders (w_db w)) = None"
  shows "touched w w' (w_db w')" "r = Inr False" "w_db w' = w_db w"
proof -
  let ?p = "\<lambda>x. order_of oid uid x \<and> co_status x = a" and ?f = "\<lambda>x. x\<lparr>co_status := b\<rparr>"
  obtain r1 where u: "update_charges ?p ?f w = (r1, w')" and r: "r = Inr (\<exists>n. r1 = Inr n \<and> n = 1)"
    using assms(1) by (auto simp: UpdateChargeOrderStatusWithConditionTx_def split: sum.splits)
  note t = update_where_touched [OF u]
  have none: "\<not> ?p x" if "x \<in> set (d_charge_orders (w_db w))" for x using assms(2) that by (auto simp: find_None_iff)
  then have "filter (\<lambda>x. ?p x \<and> (w_dialect w = MySQL \<longrightarrow> ?f x \<noteq> x)) (d_charge_orders (w_db w)) = []"
    by (intro filter_False) blast
  moreover have "update_rows ?p ?f (d_charge_orders (w_db w)) = d_charge_orders (w_db w)"
    unfolding update_rows_def by (rule map_idI) (rule if_not_P [OF none])
  ultimately have n: "affected (w_dialect w) ?p ?f (d_charge_orders (w_db w)) = 0"
    and db: "d_charge_orders_update (update_rows ?p ?f) (w_db w) = w_db w"
    by (simp_all add: affected_def)
  show "touched w w' (w_db w')" by (rule t(1))
  show "r = Inr False"
  proof (cases r1)
    case (Inr k)
    with u have "k = 0" by (auto elim!: update_where_Inr simp only: n)
    with r Inr show ?thesis by simp
  qed (simp add: r)
  show "w_db w' = w_db w" using t(2,3) db by (cases r1) simp_all
qed

text \<open>The writes of a refund before the commission is reversed.\<close>

definition refund_db :: "charge_order \<Rightarrow> int \<Rightarrow> user \<Rightarrow> db \<Rightarrow> db" where
  "refund_db o1 q u d =
     d_users_update (update_rows (\<lambda>v. u_id v = co_user_id o1)
        (\<lambda>v. add_topup (- actual_reverse q (u_topup_quota u)) (add_quota (- actual_reverse q (u_quota u)) v)))
       (d_charge_orders_update (update_rows (\<lambda>x. co_id x = co_id o1) (\<lambda>x. x\<lparr>co_status := StatusRefund\<rparr>)) d)"

definition reversal_step :: "int \<Rightarrow> string \<Rightarrow> db \<Rightarrow> db \<Rightarrow> int \<Rightarrow> int \<Rightarrow> bool" where
  "reversal_step now no d d' i q \<longleftrightarrow> (i = 0 \<and> q = 0 \<and> d' = d \<and> not_granted no d) \<or> reversed now no d d' i q"

lemma first_row: "first tbl p w = (Inr x, w') \<Longrightarrow> List.find p (tbl (w_db w)) = Some x \<and> touched w w' (w_db w)"
  using first_touched by (auto elim: first_Inr)

lemma find_updated:
  assumes "\<And>x. p (f x) = p x" "List.find p rs = Some x"
  shows "List.find p (update_rows (\<lambda>y. key y = key x) f rs) = Some (f x)"
proof -
  have "List.find p (update_rows (\<lambda>y. key y = key x) f rs) = map_option (\<lambda>y. if key y = key x then f y else y) (List.find p rs)"
    unfolding update_rows_def by (rule find_map) (simp add: assms(1))
  with assms(2) show ?thesis by simp
qed

lemma refund_user_Inr:
  assumes "refund_user c o1 u w = (Inr x, w')"
  obtains i rv where "reversal_step (w_now w) (ch_order c)
     (d_users_update (update_rows (\<lambda>v. u_id v = co_user_id o1)
        (\<lambda>v. add_topup (- actual_reverse (AmountToQuota (w_cfg w) (co_amount o1)) (u_topup_quota u))
          (add_quota (- actual_reverse (AmountToQuota (w_cfg w) (co_amount o1)) (u_quota u)) v))) (w_db w)) (w_db w') i rv"
proof -
  let ?q = "AmountToQuota (w_cfg w) (co_amount o1)"
  from assms obtain w1 i rv w2 where s: "stmt (update_users (\<lambda>v. u_id v = co_user_id o1)
        (\<lambda>v. add_topup (- actual_reverse ?q (u_topup_quota u)) (add_quota (- actual_reverse ?q (u_quota u)) v))) w = (Inr (), w1)"
    and r: "ReverseCommission (ch_order c) w1 = (Inr (i, rv), w2)"
    and l: "(if 0 < i \<and> 0 < rv
           then then_do (RecordLog i LogTypeAffCommission (LogCommissionReversed rv (ch_order c))) (ret (co_user_id o1, i))
           else ret (co_user_id o1, 0)) w2 = (Inr x, w')"
    unfolding refund_user_def reading_def Let_def by (elim then_do_Inr on_ok_Inr) auto
  have "w_db w' = w_db w2" using l by (auto split: if_splits dest: RecordLog_result(2))
  moreover have "w_now w1 = w_now w" using touchedD(3) [OF stmt_result(1) [OF s]] .
  ultimately show thesis
    using that [of i rv] ReverseCommission_outcome [OF r] stmt_result(2) [OF s]
    by (auto simp: reverse_outcome_def reversal_step_def)
qed

lemma refund_body_Inr:
  assumes "refund_body c w = (Inr rr, w')" "orders_distinct (w_db w)"
  obtains (idle) "w_db w' = w_db w"
  | (refunded) o1 u i rv where "List.find (order_of (ch_order c) (ch_user c)) (d_charge_orders (w_db w)) = Some o1"
      "co_status o1 = StatusSuccess" "user_of (w_db w) (co_user_id o1) = Some u"
      "reversal_step (w_now w) (ch_order c) (refund_db o1 (AmountToQuota (w_cfg w) (co_amount o1)) u (w_db w)) (w_db w') i rv"
proof -
  from assms(1) obtain ok w1 where c1: "UpdateChargeOrderStatusWithConditionTx (ch_order c) (ch_user c) StatusSuccess StatusRefund w = (Inr ok, w1)"
    and k1: "(if \<not> ok then ret (0, 0)
       else on_ok (first d_charge_orders (order_of (ch_order c) (ch_user c))) (\<lambda>o1.
         on_ok (first d_users (\<lambda>u. u_id u = co_user_id o1)) (refund_user c o1))) w1 = (Inr rr, w')"
    unfolding refund_body_def by (elim on_ok_Inr)
  show thesis
  proof (cases "List.find (order_of (ch_order c) (ch_user c)) (d_charge_orders (w_db w))")
    case None
    from condition_none [OF c1 None] k1 show thesis by (intro idle) (simp split: if_splits)
  next
    case (Some o1)
    have ne: "StatusSuccess \<noteq> StatusRefund" by (simp add: charge_status)
    note cr = condition_result [OF c1 assms(2) ne Some]
    show thesis
    proof (cases ok)
      case False
      with k1 cr show thesis by (intro idle) auto
    next
      case True
      let ?o = "o1\<lparr>co_status := StatusRefund\<rparr>"
      from cr True have st: "co_status o1 = StatusSuccess" and t1: "touched w w1 (w_db w1)"
        and db1: "w_db w1 = d_charge_orders_update (update_rows (\<lambda>x. co_id x = co_id o1) (\<lambda>x. x\<lparr>co_status := StatusRefund\<rparr>)) (w_db w)"
        by blast+
      from k1 True obtain o2 w2 u w3 where f1: "first d_charge_orders (order_of (ch_order c) (ch_user c)) w1 = (Inr o2, w2)"
        and f2: "first d_users (\<lambda>u. u_id u = co_user_id o2) w2 = (Inr u, w3)" and k: "refund_user c o2 u w3 = (Inr rr, w')"
        by (auto elim!: on_ok_Inr)
      note r1 = first_row [OF f1] and r2 = first_row [OF f2]
      have "List.find (order_of (ch_order c) (ch_user c)) (d_charge_orders (w_db w1)) = Some ?o"
        using find_updated [where key = co_id and f = "\<lambda>x. x\<lparr>co_status := StatusRefund\<rparr>", OF _ Some]
        by (simp add: db1 order_of_def)
      with r1 have o2: "o2 = ?o" by simp
      have w: "w_db w3 = w_db w1" "w_cfg w3 = w_cfg w" "w_now w3 = w_now w"
        using touchedD(1-3) [OF conjunct2 [OF r1]] touchedD(1-3) [OF conjunct2 [OF r2]] touchedD(2,3) [OF t1] by simp_all
      have u: "user_of (w_db w) (co_user_id o1) = Some u"
        using r2 touchedD(1) [OF conjunct2 [OF r1]] by (simp add: user_of_def db1 o2)
      from k obtain i rv where "reversal_step (w_now w) (ch_order c)
         (d_users_update (update_rows (\<lambda>v. u_id v = co_user_id o2)
           (\<lambda>v. add_topup (- actual_reverse (AmountToQuota (w_cfg w) (co_amount o2)) (u_topup_quota u))
             (add_quota (- actual_reverse (AmountToQuota (w_cfg w) (co_amount o2)) (u_quota u)) v))) (w_db w3)) (w_db w') i rv"
        unfolding w(2,3) [symmetric] by (rule refund_user_Inr)
      then show thesis using refunded [OF Some st u] by (simp add: refund_db_def w(1) db1 o2)
    qed
  qed
qed

lemma keeps_base_reverse: "keeps_base (ReverseCommission no)"
  by (rule keeps_baseI) (drule ReverseCommission_outcome, auto simp: reverse_outcome_def dest: touchedD(4))

lemma keeps_base_refund: "keeps_base (refund_body c)"
proof -
  have "keeps_base (case p of (i, rv) \<Rightarrow> if 0 < i \<and> 0 < rv
      then then_do (RecordLog i LogTypeAffCommission (LogCommissionReversed rv no)) (ret (k, i)) else ret (k, 0))"
    for p :: "int \<times> int" and no and k :: int
    by (cases p) (simp add: base_intros)
  then show ?thesis
    unfolding refund_body_def refund_user_def UpdateChargeOrderStatusWithConditionTx_def stmt_def Let_def
    by (intro base_intros keeps_base_reverse)
qed

lemma refund_outcome:
  assumes "stripeChargeRefund c w = (r, w')" "w_base w = None" "orders_distinct (w_db w)"
  obtains (idle) "w_db w' = w_db w"
  | (refunded) o1 u i rv where "r = Inr ()" "ch_status c = ''succeeded''"
      "List.find (order_of (ch_order c) (ch_user c)) (d_charge_orders (w_db w)) = Some o1"
      "co_status o1 = StatusSuccess" "user_of (w_db w) (co_user_id o1) = Some u"
      "reversal_step (w_now w) (ch_order c) (refund_db o1 (AmountToQuota (w_cfg w) (co_amount o1)) u (w_db w)) (w_db w') i rv"
proof (cases "ch_status c = ''succeeded''")
  case False
  with assms(1) show thesis by (intro idle) (simp add: stripeChargeRefund_def)
next
  case True
  obtain r1 w1 where t: "transaction (refund_body c) w = (r1, w1)" by fastforce
  let ?k = "\<lambda>(refunded, inviter). then_do (if 0 < refunded then ignore_err (CacheUpdateUserQuota2 refunded) else ret ())
          (if 0 < inviter then ignore_err (CacheUpdateUserQuota2 inviter) else ret ())"
  have run: "on_ok (transaction (refund_body c)) ?k w = (r, w')" using assms(1) True by (simp add: stripeChargeRefund_def)
  show thesis
  proof (cases r1)
    case (Inl e)
    with run t transaction_atomic [OF keeps_base_refund assms(2)] show thesis by (intro idle) (auto simp: on_ok_def)
  next
    case (Inr rr)
    obtain fs w2 fs' where b: "refund_body c (w\<lparr>w_base := Some (w_db w), w_aborted := False, w_faults := fs\<rparr>) = (Inr rr, w2)"
      "w1 = w2\<lparr>w_base := None, w_faults := fs'\<rparr>"
      using t [unfolded Inr] by (rule transaction_Inr)
    have k: "?k rr w1 = (r, w')" using run t Inr by (simp add: on_ok_def)
    have ky: "keeps (\<lambda>d. d) (?k rr)"
      unfolding CacheUpdateUserQuota2_def GetUserQuota_def by (cases rr) (simp, intro conjI impI keeps_intros)
    have db: "w_db w' = w_db w2" using keepsD [OF ky k] b(2) by simp
    have "succeeds (?k rr)" by (cases rr) (simp, intro conjI impI succeeds_rules)
    with k have ok: "r = Inr ()" unfolding succeeds_def by (cases r) auto
    have od: "orders_distinct (w_db (w\<lparr>w_base := Some (w_db w), w_aborted := False, w_faults := fs\<rparr>))"
      using assms(3) by simp
    from b(1) od show thesis
    proof (cases rule: refund_body_Inr)
      case idle
      then show thesis using that(1) db by simp
    next
      case (refunded o1 u i rv)
      then show thesis using that(2) [OF ok True] db by simp
    qed
  qed
qed

lemma refund_db_effect:
  assumes "orders_ok d" "List.find (order_of oid uid) (d_charge_orders d) = Some o1" "user_of d (co_user_id o1) = Some u"
  shows "orders_ok (refund_db o1 q u d)" "d_commissions (refund_db o1 q u d) = d_commissions d"
    and "List.find (order_of oid uid) (d_charge_orders (refund_db o1 q u d)) = Some (o1\<lparr>co_status := StatusRefund\<rparr>)"
    and "balance_of (refund_db o1 q u d) j = (if j = co_user_id o1
      then map_option (\<lambda>(a, b, g). (a - actual_reverse q (u_quota u), b - actual_reverse q (u_topup_quota u), g)) (balance_of d j)
      else balance_of d j)"
proof -
  have dk: "distinct (map u_id (d_users d))" using assms(1) by (simp add: orders_ok_def keys_ok_def)
  have "map co_id (update_rows (\<lambda>x. co_id x = co_id o1) (\<lambda>x. x\<lparr>co_status := StatusRefund\<rparr>) rs) = map co_id rs"
    "map co_app_order_id (update_rows (\<lambda>x. co_id x = co_id o1) (\<lambda>x. x\<lparr>co_status := StatusRefund\<rparr>) rs) = map co_app_order_id rs" for rs
    by (simp_all add: update_rows_def)
  then show "orders_ok (refund_db o1 q u d)"
    using assms(1) by (simp add: orders_ok_def orders_distinct_def keys_ok_def refund_db_def add_topup_def add_quota_def)
  show "d_commissions (refund_db o1 q u d) = d_commissions d" by (simp add: refund_db_def)
  show "List.find (order_of oid uid) (d_charge_orders (refund_db o1 q u d)) = Some (o1\<lparr>co_status := StatusRefund\<rparr>)"
    using find_updated [where key = co_id and f = "\<lambda>x. x\<lparr>co_status := StatusRefund\<rparr>", OF _ assms(2)]
    by (simp add: refund_db_def order_of_def)
  have us: "user_of (refund_db o1 q u d) j = (if j = co_user_id o1 then map_option
      (\<lambda>v. add_topup (- actual_reverse q (u_topup_quota u)) (add_quota (- actual_reverse q (u_quota u)) v)) (user_of d j)
      else user_of d j)"
    using dk by (simp add: refund_db_def user_of_def update_rows_find1 add_topup_def add_quota_def)
  show "balance_of (refund_db o1 q u d) j = (if j = co_user_id o1
      then map_option (\<lambda>(a, b, g). (a - actual_reverse q (u_quota u), b - actual_reverse q (u_topup_quota u), g)) (balance_of d j)
      else balance_of d j)"
    unfolding balance_of_def us by (cases "user_of d j") (auto simp: balance_def add_topup_def add_quota_def)
qed

lemma reversal_effect:
  assumes "reversal_step now no d d' i q" "keys_ok d"
  shows "balance_of d' j = (if j = i then map_option (\<lambda>(a, b, g). (a - q, b, g - q)) (balance_of d j) else balance_of d j)"
    and "d_charge_orders d' = d_charge_orders d" "0 \<le> q"
    and "balance_of d i = Some (a, b, g) \<Longrightarrow> min 0 a \<le> a - q"
proof -
  show "d_charge_orders d' = d_charge_orders d"
    using assms(1) by (auto simp: reversal_step_def reversed_def reverse_db_def)
  show "0 \<le> q" using assms(1) reversed_bounds(1) by (auto simp: reversal_step_def)
  have same: "map_option (\<lambda>(a, b, g). (a - 0, b, g - 0)) x = x" for x :: "(int \<times> int \<times> int) option"
    by (cases x) auto
  show "balance_of d' j = (if j = i then map_option (\<lambda>(a, b, g). (a - q, b, g - q)) (balance_of d j) else balance_of d j)"
  proof (cases "reversed now no d d' i q")
    case True
    show ?thesis
      unfolding balance_of_def reversed_effect(1) [OF True assms(2)]
      using reversed_bounds(1) [OF True] same
      by (cases "user_of d j") (auto simp: balance_def)
  next
    case False
    with assms(1) same show ?thesis by (auto simp: reversal_step_def)
  qed
  show "min 0 a \<le> a - q" if "balance_of d i = Some (a, b, g)"
    using assms(1) that actual_reverse_bounds(2)
    by (auto simp: reversal_step_def reversed_def balance_of_def balance_def)
qed


section \<open>A refund undoes a charge\<close>

lemma actual_reverse_full: "0 \<le> q \<Longrightarrow> q \<le> x \<Longrightarrow> actual_reverse q x = q"
  by (simp add: actual_reverse_def)

text \<open>What the commission of a charge adds, the refund of the charge finds and takes back.\<close>

lemma find_last_row: "\<forall>x\<in>set xs. \<not> p x \<Longrightarrow> p y \<Longrightarrow> List.find p (xs @ [y]) = Some y"
  by (induction xs) auto

lemma reversal_of_grant:
  assumes "commission_step no d d1 i cq" "\<forall>x\<in>set (d_commissions d). cm_source_no x \<noteq> no" "no \<noteq> []"
    and "reversal_step now no e e' k rv" "d_commissions e = d_commissions d1"
    and "i \<noteq> 0 \<longrightarrow> balance_of e i = balance_of d1 i" "keys_ok d"
    and "\<And>a b g. balance_of d i = Some (a, b, g) \<Longrightarrow> 0 \<le> a"
  shows "rv = cq \<and> (cq \<noteq> 0 \<longrightarrow> k = i)"
proof (cases "granted d d1 i cq no")
  case False
  with assms(1) have z: "i = 0" "cq = 0" "d1 = d" by (auto simp: commission_step_def)
  have "List.find (\<lambda>x. cm_source_no x = no) (d_commissions e) = None"
    using assms(2) by (simp add: assms(5) z(3) find_None_iff)
  with assms(4) z show ?thesis by (auto simp: reversal_step_def reversed_def)
next
  case True
  then obtain rec u0 where rec: "cm_source_no rec = no" "cm_inviter_id rec = i" "cm_commission_quota rec = cq"
    "cm_status rec = AffCommissionStatusGranted" "d1 = grant_db i cq rec d" and u0: "user_of d i = Some u0" and q: "0 < cq" "i \<noteq> 0"
    by (auto simp: granted_def)
  have "List.find (\<lambda>x. cm_source_no x = no) (d_commissions d @ [rec]) = Some rec"
    using assms(2) rec(1) by (intro find_last_row) auto
  then have fr: "List.find (\<lambda>x. cm_source_no x = no) (d_commissions e) = Some rec"
    by (simp add: assms(5) rec(5) grant_db_def)
  have "user_of d1 i = Some (u0\<lparr>u_quota := u_quota u0 + cq, u_gift_quota := u_gift_quota u0 + cq\<rparr>)"
    using granted_effect [OF True assms(7)] u0 by simp
  then have "\<exists>u. user_of e i = Some u \<and> u_quota u = u_quota u0 + cq"
    using assms(6) q(2) by (auto simp: balance_of_def balance_def)
  moreover have "0 \<le> u_quota u0" using assms(8) u0 by (auto simp: balance_of_def balance_def)
  moreover have "\<not> not_granted no e" using fr assms(3) rec(4) by (simp add: not_granted_def)
  ultimately show ?thesis
    using assms(4) fr rec q by (auto simp: reversal_step_def reversed_def actual_reverse_full)
qed

text \<open>A credit, a commission, a refund of the credit and the reversal of the commission cancel out.\<close>

lemma balances_restored:
  fixes B0 Bd Bv Br B' :: "int \<Rightarrow> (int \<times> int \<times> int) option"
  assumes d: "\<And>j. Bd j = (if j = p then map_option (\<lambda>(a, b, g). (a + q, b + q, g)) (B0 j) else B0 j)"
    and v: "\<And>j. Bv j = (if j = i then map_option (\<lambda>(a, b, g). (a + cq, b, g + cq)) (Bd j) else Bd j)"
    and r: "\<And>j. Br j = (if j = p then map_option (\<lambda>(a, b, g). (a - actual_reverse q x, b - actual_reverse q y, g)) (Bv j) else Bv j)"
    and t: "\<And>j. B' j = (if j = k then map_option (\<lambda>(a, b, g). (a - rv, b, g - rv)) (Br j) else Br j)"
    and other: "i = 0 \<or> i \<noteq> p" "i = 0 \<longrightarrow> cq = 0" "rv = cq \<and> (cq \<noteq> 0 \<longrightarrow> k = i)"
    and u: "Bv p = Some (x, y, z)" and pos: "0 \<le> q" "\<And>j a b g. B0 j = Some (a, b, g) \<Longrightarrow> 0 \<le> a \<and> 0 \<le> b"
  shows "B' = B0"
proof -
  have same: "map_option (\<lambda>(a, b, g). (a + 0, b, g + 0)) m = m" "map_option (\<lambda>(a, b, g). (a - 0, b, g - 0)) m = m"
    "map_option (\<lambda>(a, b, g). (a - cq, b, g - cq)) (map_option (\<lambda>(a, b, g). (a + cq, b, g + cq)) m) = m"
    for m :: "(int \<times> int \<times> int) option" by (cases m; auto)+
  have vp: "Bv p = map_option (\<lambda>(a, b, g). (a + q, b + q, g)) (B0 p)"
    using v [of p] d [of p] other(1,2) same(1) by (cases "i = p") auto
  obtain a b g where o1: "B0 p = Some (a, b, g)" using vp u by (cases "B0 p") auto
  have xy: "x = a + q" "y = b + q" using vp u o1 by auto
  have "actual_reverse q x = q" "actual_reverse q y = q"
    using pos(1) pos(2) [OF o1] by (simp_all add: xy actual_reverse_full)
  then have rp: "Br p = B0 p" using r [of p] vp o1 by simp
  have br: "Br j = (if j = i then map_option (\<lambda>(a, b, g). (a + cq, b, g + cq)) (B0 j) else B0 j)" for j
  proof (cases "j = p")
    case True
    then show ?thesis using rp other(1,2) same(1) by (cases "i = p") simp_all
  next
    case False
    then show ?thesis by (simp only: r [of j] v [of j] d [of j] if_False)
  qed
  show ?thesis
  proof (rule ext)
    fix j
    show "B' j = B0 j"
    proof (cases "cq = 0")
      case True
      then have "Br j = B0 j" using br [of j] same(1) by simp
      then show ?thesis using t [of j] other(3) True same(2) by auto
    next
      case False
      then have "k = i" "rv = cq" using other(3) by simp_all
      then show ?thesis using t [of j] br [of j] same(3) by (cases "j = i") simp_all
    qed
  qed
qed

text \<open>
  C32. A refund undoes its charge: after a charge has been settled by a database in which nobody
  is in debt and whose order had no commission yet, the refund event of the order, when it does
  anything, gives every user, the inviter included, exactly the balance, the accumulated top-ups
  and the gift total from before the charge.
\<close>

theorem charge_then_refund:
  assumes "stripeChargeSuccess c w = (Inr (), w1)" "ch_status c = ''succeeded''" "w_base w = None" "orders_ok (w_db w)"
    and "\<forall>j a b g. balance_of (w_db w) j = Some (a, b, g) \<longrightarrow> 0 \<le> a \<and> 0 \<le> b"
    and "\<forall>x\<in>set (d_commissions (w_db w)). cm_source_no x \<noteq> ch_order c" "ch_order c \<noteq> []"
    and "\<not> feq (charge_major c) fzero" "0 \<le> AmountToQuota (w_cfg w) (charge_major c)"
    and "stripeChargeRefund c2 v = (r, v')" "ch_order c2 = ch_order c" "ch_user c2 = ch_user c"
    and "w_db v = w_db w1" "w_cfg v = w_cfg w" "w_base v = None" "w_db v' \<noteq> w_db v"
  shows "balance_of (w_db v') = balance_of (w_db w)"
proof -
  have od: "orders_distinct (w_db w)" using assms(4) by (simp add: orders_ok_def)
  from assms(1,2,3) od show ?thesis
  proof (cases rule: charge_success_outcome)
    case (failed e)
    then show ?thesis by simp
  next
    case (settled o1 d1 f i cq)
    let ?q = "AmountToQuota (w_cfg w) (charge_major c)" and ?d = "success_db c o1 (AmountToQuota (w_cfg w) (charge_major c)) (w_db w)"
    note eff = success_db_effect [OF assms(4) settled(2), of c ?q]
    have ko: "keys_ok ?d" using eff(1) by (simp add: orders_ok_def)
    note com = commission_balance [OF settled(4) ko]
    note cv = charge_viewD [OF settled(5)]
    have ords: "d_charge_orders (w_db w1) = d_charge_orders ?d"
      using cv(2) commission_orders [OF settled(4)] by simp
    have ok1: "orders_ok (w_db w1)"
      using eff(1) ords cv(4) commission_keys [OF settled(4) ko] by (simp add: orders_ok_def orders_distinct_def)
    have com1: "d_commissions (w_db w1) = d_commissions d1" using cv(3) by simp
    have fd: "List.find (order_of (ch_order c) (ch_user c)) (d_charge_orders (w_db v)) = Some (settled_order c o1)"
      using eff(2) ords assms(13) by simp
    have okv: "orders_ok (w_db v)" "orders_distinct (w_db v)" using ok1 assms(13) by (simp_all add: orders_ok_def)
    have set: "co_amount (settled_order c o1) = charge_major c" "co_user_id (settled_order c o1) = co_user_id o1"
      using assms(8) by (simp_all add: settled_order_def Let_def keep_zero_def)
    have bal: "balance_of (w_db v) j = (if j = i then map_option (\<lambda>(a, b, g). (a + cq, b, g + cq)) (balance_of ?d j) else balance_of ?d j)" for j
      using cv(1) com(1) [of j] assms(13) by simp
    have comd: "d_commissions ?d = d_commissions (w_db w)" by (simp add: success_db_def)
    from assms(10,15) okv(2) show ?thesis
    proof (cases rule: refund_outcome)
      case idle
      with assms(16) show ?thesis by simp
    next
      case (refunded o2 u k rv)
      have o2: "o2 = settled_order c o1" using refunded(3) fd assms(11,12) by simp
      let ?r = "refund_db o2 ?q u (w_db v)"
      note eff2 = refund_db_effect [OF okv(1) refunded(3,5), of ?q]
      have kr: "keys_ok ?r" using eff2(1) by (simp add: orders_ok_def)
      have amt: "AmountToQuota (w_cfg v) (co_amount o2) = ?q" using o2 set(1) assms(14) by simp
      note rs = refunded(6) [unfolded amt assms(11)]
      note rev = reversal_effect [OF rs kr]
      have old: "0 \<le> a" "0 \<le> b" if "balance_of (w_db w) j = Some (a, b, g)" for j a b g
        using assms(5) that by blast+
      have nn: "0 \<le> a" if "balance_of ?d i = Some (a, b, g)" for a b g
      proof (cases "balance_of (w_db w) i")
        case (Some x)
        with that eff(3) [of i] old [of i] assms(9) show ?thesis by (cases x) (auto split: if_splits)
      qed (use that eff(3) [of i] in \<open>auto split: if_splits\<close>)
      have taken: "rv = cq \<and> (cq \<noteq> 0 \<longrightarrow> k = i)"
      proof (rule reversal_of_grant [OF settled(4) _ assms(7) rs _ _ ko nn])
        show "\<forall>x\<in>set (d_commissions ?d). cm_source_no x \<noteq> ch_order c" using assms(6) comd by simp
        show "d_commissions ?r = d_commissions d1" using eff2(2) com1 assms(13) by simp
        show "i \<noteq> 0 \<longrightarrow> balance_of ?r i = balance_of d1 i"
          using eff2(4) [of i] settled(6) cv(1) assms(13) o2 set(2) by auto
      qed
      have c0: "i = 0 \<longrightarrow> cq = 0" using settled(4) by (auto simp: commission_step_def granted_def)
      have u: "balance_of (w_db v) (co_user_id o1) = Some (u_quota u, u_topup_quota u, u_gift_quota u)"
        using refunded(5) o2 set(2) by (simp add: balance_of_def balance_def)
      have br: "balance_of ?r j = (if j = co_user_id o1
          then map_option (\<lambda>(a, b, g). (a - actual_reverse ?q (u_quota u), b - actual_reverse ?q (u_topup_quota u), g)) (balance_of (w_db v) j)
          else balance_of (w_db v) j)" for j using eff2(4) [of j] o2 set(2) by simp
      show ?thesis
        by (rule balances_restored [OF eff(3) bal br rev(1) settled(6) c0 taken u assms(9)]) (use old in blast)
    qed
  qed
qed

section \<open>Two losses\<close>

text \<open>
  The conditional status change of a refund answers only whether one row changed, so a
  statement that fails is taken for an order already refunded: outside PostgreSQL the webhook
  reports success although nothing was taken back, and Stripe does not send the event again.
\<close>

theorem failed_refund_reported_done:
  assumes "ch_status c = ''succeeded''" "w_dialect w \<noteq> PostgreSQL" "w_faults w = False # True # False # fs"
    and "verify payload signature = Inr (''charge.refunded'', raw)" "decode raw = Inr c"
  shows "fst (HandleStripeCallback verify decode payload signature w) = Inr () \<and>
      w_db (snd (HandleStripeCallback verify decode payload signature w)) = w_db w"
  using assms
  by (simp add: HandleStripeCallback_def stripeChargeRefund_def refund_body_def UpdateChargeOrderStatusWithConditionTx_def
      go_simps transaction_def take_fault_def update_where_def exec_def abort_tx_def)

lemma orders_frame [simp]:
  "balance_of (d_orders_update f d) = balance_of d"
  by (simp add: balance_of_def user_of_def fun_eq_iff)

text \<open>A callback for a payment whose order exists never credits anybody.\<close>

lemma known_payment_not_credited:
  assumes "CreateOrUpdateOrder cb name w = (r, w')" "List.find (\<lambda>o1. or_uuid o1 = cb_uuid cb) (d_orders (w_db w)) = Some o1"
  shows "balance_of (w_db w') = balance_of (w_db w) \<and>
    (\<exists>o2. List.find (\<lambda>o1. or_uuid o1 = cb_uuid cb) (d_orders (w_db w')) = Some o2)"
proof -
  define V where "V d = (balance_of d, map or_uuid (d_orders d))" for d
  have kb: "keeps V (UpdateBill u k)" for u k
    unfolding UpdateBill_def stmt_def by (intro keeps_intros keeps_update) (simp add: V_def)
  have ko: "keeps V (UpdateOrder u k)" for u k
    unfolding UpdateOrder_def stmt_def
    by (intro keeps_intros keeps_update) (simp add: V_def update_rows_def o_def if_distrib cong: if_cong)
  obtain r1 w1 where f: "first d_orders (\<lambda>o1. or_uuid o1 = cb_uuid cb) w = (r1, w1)" by fastforce
  have t: "w_db w1 = w_db w" using touchedD(1) [OF first_touched [OF f]] .
  have nf: "r1 \<noteq> Inl NotFound" using first_NotFound f assms(2) by fastforce
  define rest where "rest = (\<lambda>o1 :: crypto_order. if or_status o1 < CryptResponseResult (cb_result cb)
    then then_do (UpdateOrder (or_uuid o1) (CryptResponseResult (cb_result cb))) (UpdateBill (or_uuid o1) (CryptResponseResult (cb_result cb)))
    else ret ())"
  have kr: "keeps V (rest x)" for x unfolding rest_def by (intro keeps_intros kb ko)
  have "V (w_db w') = V (w_db w1)"
  proof (cases r1)
    case (Inl e)
    with assms(1) f nf show ?thesis by (simp add: CreateOrUpdateOrder_def on_result_def Let_def)
  next
    case (Inr x)
    with assms(1) f have "rest x w1 = (r, w')" by (simp add: CreateOrUpdateOrder_def on_result_def Let_def rest_def)
    then show ?thesis by (rule keepsD [OF kr])
  qed
  then have v: "balance_of (w_db w') = balance_of (w_db w)" "map or_uuid (d_orders (w_db w')) = map or_uuid (d_orders (w_db w))"
    by (simp_all add: V_def t)
  have "cb_uuid cb \<in> set (map or_uuid (d_orders (w_db w')))"
    unfolding v(2) using find_SomeD [OF assms(2)] by force
  then have "List.find (\<lambda>o1. or_uuid o1 = cb_uuid cb) (d_orders (w_db w')) \<noteq> None"
    by (auto simp: find_None_iff)
  with v(1) show ?thesis by auto
qed

text \<open>
  The order and the bill of a crypto payment are written outside the transaction that
  credits it: when the credit fails they stay, the callback reports the error, and no later
  callback for that payment, whatever it says, credits anybody.
\<close>

theorem crypto_credit_lost:
  assumes "w_base w = None" "\<not> w_aborted w" "cb_result cb = ''sent''"
    and "List.find (\<lambda>o1. or_uuid o1 = cb_uuid cb) (d_orders (w_db w)) = None"
    and "w_faults w = False # False # False # False # True # fs"
  shows "\<exists>w' o1. CreateOrUpdateOrder cb name w = (Inl DbErr, w') \<and> balance_of (w_db w') = balance_of (w_db w) \<and>
    List.find (\<lambda>o1. or_uuid o1 = cb_uuid cb) (d_orders (w_db w')) = Some o1 \<and> or_status o1 = 3 \<and>
    (\<forall>cb2 name2 v r2 v'. cb_uuid cb2 = cb_uuid cb \<and> w_db v = w_db w' \<and>
       CreateOrUpdateOrder cb2 name2 v = (r2, v') \<longrightarrow> balance_of (w_db v') = balance_of (w_db v))"
proof -
  define o1 where "o1 = (new_order cb name 3 (w_now w))\<lparr>or_id := next_id (map or_id (d_orders (w_db w)))\<rparr>"
  define b1 where "b1 = (new_bill cb name 3 (w_now w))\<lparr>b_id := next_id (map b_id (d_bills (w_db w)))\<rparr>"
  define d1 where "d1 = d_bills_update (\<lambda>rs. rs @ [b1]) (d_orders_update (\<lambda>rs. rs @ [o1]) (w_db w))"
  have run: "\<exists>w'. CreateOrUpdateOrder cb name w = (Inl DbErr, w') \<and> w_db w' = d1"
    using assms
    by (simp add: CreateOrUpdateOrder_def CryptResponseResult_def crypto_body_def create_order_global_def create_bill_global_def
        exec_global_def transaction_def rollback_def take_fault_def abort_tx_def exec_def query_def first_def update_where_def stmt_def
        go_simps d1_def o1_def b1_def)
  have o1: "or_uuid o1 = cb_uuid cb" "or_status o1 = 3" by (simp_all add: o1_def new_order_def)
  have fd: "List.find (\<lambda>o1. or_uuid o1 = cb_uuid cb) (d_orders d1) = Some o1"
    using assms(4) o1(1) by (simp add: d1_def find_None_iff find_last_row)
  have b: "balance_of d1 = balance_of (w_db w)" by (simp add: d1_def)
  show ?thesis using run fd b o1(2) known_payment_not_credited fd by metis
qed

section \<open>A run\<close>

definition a_charge :: stripe_charge where
  "a_charge = \<lparr>ch_id = ''ch1'', ch_status = ''succeeded'', ch_amount = 1099, ch_fee = 30, ch_order = ''O1'', ch_user = ''2''\<rparr>"

definition a_payment :: crypt_callback where
  "a_payment = \<lparr>cb_user_id = 2, cb_uuid = ''U1'', cb_result = ''sent'', cb_coin = ''btc'', cb_address_in = [],
     cb_address_out = [], cb_fee_coin = fzero, cb_value_coin = f_of_int 10, cb_forwarded = f_of_int 10\<rparr>"

definition charge_demo :: world where
  "charge_demo = aff_demo\<lparr>w_db := (w_db aff_demo)\<lparr>
     d_charge_orders := [\<lparr>co_id = 7, co_user_id = 2, co_app_order_id = ''O1'', co_order_no = [], co_charge_id = 0, co_status = 1,
       co_currency = ''USD'', co_amount = f_of_int 10, co_real_amount = fzero, co_order_cost = fzero\<rparr>],
     d_bills := [\<lparr>b_id = 4, b_username = ''bob'', b_user_id = 2, b_type = ''stripe'', b_created_at = 5, b_updated_at = 5,
       b_amount = f_of_int 10, b_status = 1, b_source_id = ''O1''\<rparr>]\<rparr>\<rparr>"

lemma a_charge_values:
  "parse_int64 ''2'' = Some 2" "charge_major a_charge = f_of_int 10" "ch_status a_charge = ''succeeded''"
  "ch_order a_charge = ''O1''" "ch_user a_charge = ''2''" "ch_amount a_charge = 1099" "ch_fee a_charge = 30"
  "feq (f_of_int 10) fzero = False" "AmountToQuota (w_cfg aff_demo) (f_of_int 10) = 5000000"
proof -
  have "itoa 2 = ''2''" by code_simp
  then show "parse_int64 ''2'' = Some 2" using parse_itoa [of 2] by (simp add: in_int64_def min_int64_def max_int64_def)
qed (simp_all add: a_charge_def charge_major_def go_div_def aff_demo_def run_simps AmountToQuota_def float_eval)

lemma settled_key [simp]:
  "co_id (settled_order c o1) = co_id o1" "co_user_id (settled_order c o1) = co_user_id o1"
  "co_app_order_id (settled_order c o1) = co_app_order_id o1" "co_status (settled_order c o1) = 3"
  by (simp_all add: settled_order_def Let_def charge_status)

lemmas charge_run = charge_demo_def a_charge_values grant_run stripeChargeSuccess_def success_body_def
  UpdateChargeOrderStatusWithConditionTx_def order_of_def charge_status
  settle_bill_def success_after_def credited_def CacheUpdateUserQuota2_def
  RecalcUserLevelAndRefreshCache_def RecalcUserLevel_def raise_level_def GetGroupConfigsByThresholdDesc_def threshold_key_def
  InvalidateUserGroupCache_def RecordLog_def exec_global_def LogTypeConsume_def LogTypeAffCommission_def Let_def
  AfterChargeSuccess_def GetUserEmail_def send_email_def add_gift_def add_quota_def add_topup_def

definition charge_demo1 :: world where
  "charge_demo1 = snd (stripeChargeSuccess a_charge charge_demo)"

lemma charge_demo_run: "stripeChargeSuccess a_charge charge_demo = (Inr (), charge_demo1)"
  by (simp add: charge_demo1_def charge_run)

lemma a_charge_settles: "co_amount (settled_order a_charge o1) = f_of_int 10"
  using a_charge_values(2,8) by (simp add: settled_order_def Let_def keep_zero_def)

definition charge_demo2 :: world where
  "charge_demo2 = snd (stripeChargeRefund a_charge charge_demo1)"

lemma charge_demo_facts:
  "w_base charge_demo = None" "w_cfg charge_demo = w_cfg aff_demo" "d_commissions (w_db charge_demo) = []"
  "w_aborted charge_demo = False" "d_orders (w_db charge_demo) = []"
  by (simp_all add: charge_demo_def aff_demo_def start_defs)

lemma charge_demo_orders: "orders_ok (w_db charge_demo)"
  by (simp add: charge_demo_def aff_demo_def run_simps orders_ok_def orders_distinct_def)

lemma charge_demo_balances:
  "balance_of (w_db charge_demo) = (\<lambda>j. if j = 1 then Some (100, 0, 0) else if j = 2 then Some (0, 0, 0) else None)"
  by (rule ext) (simp add: charge_demo_def aff_demo_def start_defs balance_of_def balance_def user_of_def)

lemma charge_demo_order:
  "map_option co_user_id (List.find (order_of ''O1'' ''2'') (d_charge_orders (w_db charge_demo))) = Some 2"
  by (simp add: charge_demo_def aff_demo_def order_of_def a_charge_values(1))

lemma charge_demo1_facts:
  "w_base charge_demo1 = None" "w_cfg charge_demo1 = w_cfg aff_demo"
  "map co_status (d_charge_orders (w_db charge_demo1)) = [3]"
  by (simp_all add: charge_demo1_def charge_run)

lemma charge_demo2_status: "map co_status (d_charge_orders (w_db charge_demo2)) = [5]"
  by (simp add: charge_demo2_def charge_demo1_def charge_run stripeChargeRefund_def refund_body_def refund_user_def reverse_run
      a_charge_settles)


theorem charge_then_refund_witness:
  "balance_of (w_db charge_demo2) = balance_of (w_db charge_demo)"
proof -
  obtain r where r: "stripeChargeRefund a_charge charge_demo1 = (r, charge_demo2)"
    unfolding charge_demo2_def by (metis prod.collapse)
  have ne: "w_db charge_demo2 \<noteq> w_db charge_demo1" using charge_demo1_facts(3) charge_demo2_status by auto
  have pos: "\<forall>j a b g. balance_of (w_db charge_demo) j = Some (a, b, g) \<longrightarrow> 0 \<le> a \<and> 0 \<le> b" by (simp add: charge_demo_balances)
  show ?thesis
    by (rule charge_then_refund [OF charge_demo_run a_charge_values(3) charge_demo_facts(1) charge_demo_orders pos _ _ _ _ r refl refl refl _ _ ne])
      (simp_all add: charge_demo_facts charge_demo1_facts a_charge_values)
qed


theorem failed_refund_reported_done_witness:
  "fst (HandleStripeCallback (\<lambda>p s. Inr (''charge.refunded'', p)) (\<lambda>_. Inr a_charge) [] []
     (charge_demo1\<lparr>w_dialect := MySQL, w_faults := [False, True, False]\<rparr>)) = Inr ()"
  using failed_refund_reported_done [OF a_charge_values(3),
      of "charge_demo1\<lparr>w_dialect := MySQL, w_faults := [False, True, False]\<rparr>" "[]"
        "\<lambda>p s. Inr (''charge.refunded'', p)" "[]" "[]" "[]" "\<lambda>_. Inr a_charge"]
  by simp

theorem crypto_credit_lost_witness:
  "fst (CreateOrUpdateOrder a_payment ''bob'' (charge_demo\<lparr>w_faults := [False, False, False, False, True]\<rparr>)) = Inl DbErr"
proof -
  let ?w = "charge_demo\<lparr>w_faults := [False, False, False, False, True]\<rparr>"
  have "w_base ?w = None" "\<not> w_aborted ?w" "cb_result a_payment = ''sent''" "w_faults ?w = False # False # False # False # True # []"
    "List.find (\<lambda>o1. or_uuid o1 = cb_uuid a_payment) (d_orders (w_db ?w)) = None"
    by (simp_all add: charge_demo_facts a_payment_def)
  from crypto_credit_lost [OF this(1,2,3,5,4), of "''bob''"] show ?thesis by auto
qed

end
