(* ===== verification/LogRange.thy ===== *)
theory LogRange
  imports Prelude
begin

text \<open>
  \<open>model/id_range.go\<close> and the hourly graphs of \<open>model/log.go\<close>: a range of times is turned into a range of
  primary keys by a binary search over the keys, for the statistics, the lists and the clean-up of logs.
\<close>

section \<open>The table\<close>

text \<open>What the search reads of a log row.\<close>

record log_key =
  lk_id :: int
  lk_created :: int

text \<open>
  The statements of one search are numbered from 0; those in \<open>bad\<close> fail. \<open>MIN\<close> and \<open>MAX\<close> of an empty
  table are null; the row of a key is the first one with it, \<open>0\<close> remains scanned without one.
\<close>

definition min_id :: "log_key list \<Rightarrow> int option" where
  "min_id rows = (if rows = [] then None else Some (Min (lk_id ` set rows)))"

definition max_id :: "log_key list \<Rightarrow> int option" where
  "max_id rows = (if rows = [] then None else Some (Max (lk_id ` set rows)))"

definition created_of :: "log_key list \<Rightarrow> int \<Rightarrow> int" where
  "created_of rows i = (case List.find (\<lambda>r. lk_id r = i) rows of None \<Rightarrow> 0 | Some r \<Rightarrow> lk_created r)"

text \<open>\<open>WHERE id >= mid ORDER BY id LIMIT 1\<close>.\<close>

definition first_from :: "log_key list \<Rightarrow> int \<Rightarrow> log_key option" where
  "first_from rows mid =
     (case sort_key lk_id (filter (\<lambda>r. mid \<le> lk_id r) rows) of [] \<Rightarrow> None | r # _ \<Rightarrow> Some r)"

section \<open>The search\<close>

fun search_ids :: "log_key list \<Rightarrow> (nat \<Rightarrow> bool) \<Rightarrow> int \<Rightarrow> nat \<Rightarrow> nat \<Rightarrow> int \<Rightarrow> int \<Rightarrow> int \<Rightarrow> int" where
  "search_ids rows bad ts 0 n minId maxId resultId = resultId"
| "search_ids rows bad ts (Suc k) n minId maxId resultId =
     (if \<not> minId < maxId then resultId
      else let midId = go_div (wrap64 (minId + maxId + 1)) 2
      in case (if bad n then None else first_from rows midId) of
           None \<Rightarrow> search_ids rows bad ts k (Suc n) minId (midId - 1) resultId
         | Some row \<Rightarrow>
             if lk_id row = 0 then search_ids rows bad ts k (Suc n) minId (midId - 1) resultId
             else if lk_created row < ts then search_ids rows bad ts k (Suc n) (lk_id row + 1) maxId (lk_id row)
             else search_ids rows bad ts k (Suc n) minId (lk_id row - 1) resultId)"

definition findMaxIdByTimestampGeneric :: "log_key list \<Rightarrow> (nat \<Rightarrow> bool) \<Rightarrow> int \<Rightarrow> int \<times> bool" where
  "findMaxIdByTimestampGeneric rows bad ts =
     (case (if bad 0 then None else min_id rows) of
        None \<Rightarrow> (0, False)
      | Some minId \<Rightarrow>
          if minId = 0 then (0, False)
          else (case (if bad 1 then None else max_id rows) of
             None \<Rightarrow> (0, False)
           | Some maxId \<Rightarrow>
               if maxId = 0 then (0, False)
               else if bad 2 then (0, False)
               else if ts \<le> created_of rows minId then (0, True)
               else if bad 3 then (0, False)
               else if created_of rows maxId < ts then (maxId, True)
               else (search_ids rows bad ts 100 4 minId maxId 0, True)))"

text \<open>The conditions on the key that a range of times becomes.\<close>

datatype id_cond = IdAbove int | IdUpTo int | Impossible

definition applyTimestampIdRange ::
  "log_key list \<Rightarrow> (nat \<Rightarrow> bool) \<Rightarrow> (nat \<Rightarrow> bool) \<Rightarrow> int \<Rightarrow> int \<Rightarrow> id_cond list" where
  "applyTimestampIdRange rows bad1 bad2 startTimestamp endTimestamp =
     (if 0 < startTimestamp
      then (case findMaxIdByTimestampGeneric rows bad1 startTimestamp of
              (i, found) \<Rightarrow> if found \<and> i = 0 then [] else if found \<and> 0 < i then [IdAbove i] else [])
      else []) @
     (if 0 < endTimestamp
      then (case findMaxIdByTimestampGeneric rows bad2 (endTimestamp + 1) of
              (i, found) \<Rightarrow> if found \<and> i = 0 then [Impossible] else if found \<and> 0 < i then [IdUpTo i] else [])
      else [])"

fun cond_holds :: "id_cond \<Rightarrow> log_key \<Rightarrow> bool" where
  "cond_holds (IdAbove i) r \<longleftrightarrow> i < lk_id r"
| "cond_holds (IdUpTo i) r \<longleftrightarrow> lk_id r \<le> i"
| "cond_holds Impossible r \<longleftrightarrow> False"

definition rows_in_range :: "log_key list \<Rightarrow> int \<Rightarrow> int \<Rightarrow> log_key list" where
  "rows_in_range rows s e = filter (\<lambda>r. list_all (\<lambda>c. cond_holds c r) (applyTimestampIdRange rows (\<lambda>_. False) (\<lambda>_. False) s e)) rows"

text \<open>\<open>deleteLogsWithoutMetricsGuard\<close> where no ranking has been kept: the rows left.\<close>

definition delete_old_rows :: "log_key list \<Rightarrow> (nat \<Rightarrow> bool) \<Rightarrow> int \<Rightarrow> log_key list" where
  "delete_old_rows rows bad ts =
     (case findMaxIdByTimestampGeneric rows bad ts of
        (i, found) \<Rightarrow> if \<not> found \<or> i = 0 then rows else filter (\<lambda>r. \<not> lk_id r \<le> i) rows)"

section \<open>Hourly graphs\<close>

record hourly_data =
  hd_hour :: string
  hd_amount :: int

definition two_digits :: "nat \<Rightarrow> string" where
  "two_digits n = (if n < 10 then ''0'' @ nat_digits n else nat_digits n)"

definition newEmptyHourlyData :: "hourly_data list" where
  "newEmptyHourlyData = map (\<lambda>i. \<lparr>hd_hour = two_digits i, hd_amount = 0\<rparr>) [0..<24]"

text \<open>The hour of a time of day in UTC.\<close>

definition utc_hour :: "int \<Rightarrow> nat" where
  "utc_hour t = nat (t mod 86400 div 3600)"

fun add_to_slot :: "string \<Rightarrow> int \<Rightarrow> hourly_data list \<Rightarrow> hourly_data list" where
  "add_to_slot hour v [] = []"
| "add_to_slot hour v (s # slots) =
     (if hd_hour s = hour then s\<lparr>hd_amount := wrap64 (hd_amount s + v)\<rparr> # slots else s # add_to_slot hour v slots)"

definition fillHourlyData :: "hourly_data list \<Rightarrow> (int \<times> int) list \<Rightarrow> hourly_data list" where
  "fillHourlyData slots rows = fold (\<lambda>(bucket, v). add_to_slot (two_digits (utc_hour bucket)) v) rows slots"

section \<open>Tables without gaps\<close>

definition dense_rows :: "int \<Rightarrow> int \<Rightarrow> (int \<Rightarrow> int) \<Rightarrow> log_key list" where
  "dense_rows lo hi c = map (\<lambda>i. \<lparr>lk_id = i, lk_created = c i\<rparr>) [lo..hi]"

lemma dense_ids: "lk_id ` set (dense_rows lo hi c) = {lo..hi}"
  by (force simp: dense_rows_def)

lemma dense_empty [simp]: "dense_rows lo hi c = [] \<longleftrightarrow> hi < lo"
  by (auto simp: dense_rows_def)

lemma dense_min_max: "lo \<le> hi \<Longrightarrow> min_id (dense_rows lo hi c) = Some lo \<and> max_id (dense_rows lo hi c) = Some hi"
  by (auto simp: min_id_def max_id_def dense_ids intro: Min_eqI Max_eqI)

lemma find_id:
  assumes "distinct (map lk_id rows)" "r \<in> set rows"
  shows "List.find (\<lambda>x. lk_id x = lk_id r) rows = Some r"
  using assms by (induction rows) (auto simp: image_iff)

lemma dense_created: "i \<in> {lo..hi} \<Longrightarrow> created_of (dense_rows lo hi c) i = c i"
proof -
  assume i: "i \<in> {lo..hi}"
  have "List.find (\<lambda>x. lk_id x = lk_id \<lparr>lk_id = i, lk_created = c i\<rparr>) (dense_rows lo hi c) = Some \<lparr>lk_id = i, lk_created = c i\<rparr>"
    by (rule find_id) (use i in \<open>auto simp: dense_rows_def comp_def\<close>)
  then show ?thesis by (simp add: created_of_def)
qed

lemma upto_from:
  assumes "lo \<le> mid" "mid \<le> hi"
  shows "filter (\<lambda>i. mid \<le> i) [lo..hi] = [mid..hi]"
proof -
  have "[lo..hi] = [lo..mid - 1] @ [mid..hi]" by (rule upto_split1 [OF assms])
  moreover have "filter (\<lambda>i. mid \<le> i) [lo..mid - 1] = []" by (auto simp: filter_empty_conv)
  moreover have "filter (\<lambda>i. mid \<le> i) [mid..hi] = [mid..hi]" by (simp add: filter_id_conv)
  ultimately show ?thesis by simp
qed

lemma dense_first_from:
  assumes "lo \<le> mid" "mid \<le> hi"
  shows "first_from (dense_rows lo hi c) mid = Some \<lparr>lk_id = mid, lk_created = c mid\<rparr>"
proof -
  have f: "filter (\<lambda>r. mid \<le> lk_id r) (dense_rows lo hi c) = map (\<lambda>i. \<lparr>lk_id = i, lk_created = c i\<rparr>) [mid..hi]"
    using upto_from [OF assms] by (simp add: dense_rows_def filter_map comp_def)
  have "sorted (map lk_id (map (\<lambda>i. \<lparr>lk_id = i, lk_created = c i\<rparr>) [mid..hi]))" by (simp add: comp_def)
  then have "sort_key lk_id (map (\<lambda>i. \<lparr>lk_id = i, lk_created = c i\<rparr>) [mid..hi]) = map (\<lambda>i. \<lparr>lk_id = i, lk_created = c i\<rparr>) [mid..hi]"
    by (rule sort_key_id_if_sorted)
  then show ?thesis using assms(2) unfolding first_from_def f by (simp add: upto.simps)
qed

text \<open>What is known of the result: the rows up to it are older, and those beyond the next are not.\<close>

definition near_boundary :: "int \<Rightarrow> int \<Rightarrow> (int \<Rightarrow> int) \<Rightarrow> int \<Rightarrow> int \<Rightarrow> bool" where
  "near_boundary lo hi c ts r \<longleftrightarrow> (r = 0 \<or> r \<in> {lo..hi}) \<and>
     (\<forall>i\<in>{lo..hi}. (i \<le> r \<longrightarrow> c i < ts) \<and> (max r (lo - 1) + 1 < i \<longrightarrow> ts \<le> c i))"

lemma search_near:
  assumes "0 < lo" "hi < 2 ^ 62" "\<And>i j. lo \<le> i \<Longrightarrow> i \<le> j \<Longrightarrow> j \<le> hi \<Longrightarrow> c i \<le> c j"
    and "lo \<le> mn" "mx \<le> hi" "mn \<le> mx + 1" "\<And>i. lo \<le> i \<Longrightarrow> i < mn \<Longrightarrow> c i < ts" "\<And>i. mx < i \<Longrightarrow> i \<le> hi \<Longrightarrow> ts \<le> c i"
    and "r = (if mn = lo then 0 else mn - 1)" "mx - mn < 2 ^ k"
  shows "near_boundary lo hi c ts (search_ids (dense_rows lo hi c) (\<lambda>_. False) ts k n mn mx r)"
  using assms(4-10)
proof (induction k arbitrary: n mn mx r)
  case 0
  then have "mx \<le> mn" by simp
  have "r = 0 \<or> r \<in> {lo..hi}" using 0 by auto
  then show ?case using 0 \<open>mx \<le> mn\<close> assms(1) by (auto simp: near_boundary_def)
next
  case (Suc k)
  show ?case
  proof (cases "mn < mx")
    case False
    then show ?thesis using Suc.prems assms(1) by (auto simp: near_boundary_def)
  next
    case True
    define mid where "mid = (mn + mx + 1) div 2"
    have m: "mn < mid" "mid \<le> mx" using True by (auto simp: mid_def)
    have i64: "in_int64 (mn + mx + 1)"
      using Suc.prems(1,2) True assms(1,2) by (simp add: in_int64_def min_int64_def max_int64_def)
    have g: "go_div (wrap64 (mn + mx + 1)) 2 = mid"
      using i64 Suc.prems(1) True assms(1) by (simp add: mid_def)
    have f: "first_from (dense_rows lo hi c) mid = Some \<lparr>lk_id = mid, lk_created = c mid\<rparr>"
      by (rule dense_first_from) (use m Suc.prems(1,2) in auto)
    have nz: "mid \<noteq> 0" using m Suc.prems(1) assms(1) by simp
    show ?thesis
    proof (cases "c mid < ts")
      case lt: True
      have "near_boundary lo hi c ts (search_ids (dense_rows lo hi c) (\<lambda>_. False) ts k (Suc n) (mid + 1) mx mid)"
      proof (rule Suc.IH)
        show "c i < ts" if "lo \<le> i" "i < mid + 1" for i
          using assms(3) [of i mid] that m(2) lt Suc.prems(2) by fastforce
        show "mx - (mid + 1) < 2 ^ k" using Suc.prems(7) m by (simp add: mid_def)
      qed (use m Suc.prems in auto)
      then show ?thesis using True g f nz lt by (simp add: Let_def)
    next
      case ge: False
      have "near_boundary lo hi c ts (search_ids (dense_rows lo hi c) (\<lambda>_. False) ts k (Suc n) mn (mid - 1) r)"
      proof (rule Suc.IH)
        show "ts \<le> c i" if "mid - 1 < i" "i \<le> hi" for i
          using assms(3) [of mid i] that m(1) ge Suc.prems(1) by fastforce
        show "mid - 1 - mn < 2 ^ k" using Suc.prems(7) m by (simp add: mid_def)
      qed (use m Suc.prems in auto)
      then show ?thesis using True g f nz ge by (simp add: Let_def)
    qed
  qed
qed

lemma find_near:
  assumes "0 < lo" "lo \<le> hi" "hi < 2 ^ 62" "\<And>i j. lo \<le> i \<Longrightarrow> i \<le> j \<Longrightarrow> j \<le> hi \<Longrightarrow> c i \<le> c j"
  obtains r where "findMaxIdByTimestampGeneric (dense_rows lo hi c) (\<lambda>_. False) ts = (r, True)" "near_boundary lo hi c ts r"
proof -
  have e: "created_of (dense_rows lo hi c) lo = c lo" "created_of (dense_rows lo hi c) hi = c hi"
    by (rule dense_created, use assms(2) in simp)+
  have w: "hi - lo < 2 ^ 100" using assms(1,3) by simp
  consider "ts \<le> c lo" | "c lo < ts" "c hi < ts" | "c lo < ts" "ts \<le> c hi" by fastforce
  then show thesis
  proof cases
    case 1
    have "ts \<le> c i" if "i \<in> {lo..hi}" for i using 1 assms(4) [of lo i] that by fastforce
    then have "near_boundary lo hi c ts 0" using assms(1) by (auto simp: near_boundary_def)
    then show thesis using that [of 0] 1 e assms(1,2) by (simp add: findMaxIdByTimestampGeneric_def dense_min_max)
  next
    case 2
    have "c i < ts" if "i \<in> {lo..hi}" for i using 2(2) assms(4) [of i hi] that by fastforce
    then have "near_boundary lo hi c ts hi" using assms(1,2) by (auto simp: near_boundary_def)
    then show thesis using that [of hi] 2 e assms(1,2) by (simp add: findMaxIdByTimestampGeneric_def dense_min_max)
  next
    case 3
    have "c i < ts" if "lo \<le> i" "i < lo" for i using that by simp
    moreover have "ts \<le> c i" if "hi < i" "i \<le> hi" for i using that by simp
    ultimately have "near_boundary lo hi c ts (search_ids (dense_rows lo hi c) (\<lambda>_. False) ts 100 4 lo hi 0)"
      using assms(2) w by (intro search_near [OF assms(1,3,4)]) simp_all
    then show thesis
      using that [of "search_ids (dense_rows lo hi c) (\<lambda>_. False) ts 100 4 lo hi 0"] 3 e assms(1,2)
      by (simp add: findMaxIdByTimestampGeneric_def dense_min_max del: search_ids.simps)
  qed
qed

lemma dense_member: "i \<in> {lo..hi} \<Longrightarrow> \<lparr>lk_id = i, lk_created = c i\<rparr> \<in> set (dense_rows lo hi c)"
  by (auto simp: dense_rows_def)

text \<open>
  On a table without gaps whose times grow with the keys, a range of times selects the right rows up
  to one at each end: a selected row is never later than the range and is not before it unless it is the
  last row before it, and a row of the range that is not selected is the last one of the range. The
  clean-up deletes only rows older than its time and leaves at most one of them.
\<close>

theorem time_range_off_by_one:
  assumes "0 < lo" "lo \<le> hi" "hi < 2 ^ 62" "\<And>i j. lo \<le> i \<Longrightarrow> i \<le> j \<Longrightarrow> j \<le> hi \<Longrightarrow> c i \<le> c j"
    and "0 < s" "0 < e" "i \<in> {lo..hi}" "row = \<lparr>lk_id = i, lk_created = c i\<rparr>"
  shows "(row \<in> set (rows_in_range (dense_rows lo hi c) s e) \<longrightarrow> c i \<le> e \<and> (s \<le> c i \<or> i = hi \<or> s \<le> c (i + 1))) \<and>
    (s \<le> c i \<and> c i \<le> e \<and> row \<notin> set (rows_in_range (dense_rows lo hi c) s e) \<longrightarrow> i = hi \<or> e < c (i + 1)) \<and>
    (row \<notin> set (delete_old_rows (dense_rows lo hi c) (\<lambda>_. False) s) \<longrightarrow> c i < s) \<and>
    (row \<in> set (delete_old_rows (dense_rows lo hi c) (\<lambda>_. False) s) \<and> c i < s \<longrightarrow> i = hi \<or> s \<le> c (i + 1))"
proof -
  obtain r1 where r1: "findMaxIdByTimestampGeneric (dense_rows lo hi c) (\<lambda>_. False) s = (r1, True)" "near_boundary lo hi c s r1"
    by (rule find_near [where c = c and ts = s, OF assms(1-4)])
  obtain r2 where r2: "findMaxIdByTimestampGeneric (dense_rows lo hi c) (\<lambda>_. False) (e + 1) = (r2, True)" "near_boundary lo hi c (e + 1) r2"
    by (rule find_near [where c = c and ts = "e + 1", OF assms(1-4)])
  have m: "row \<in> set (dense_rows lo hi c)" using dense_member [OF assms(7)] assms(8) by simp
  have nn: "0 \<le> r1" "0 \<le> r2" using r1(2) r2(2) assms(1) by (auto simp: near_boundary_def)
  have sel: "row \<in> set (rows_in_range (dense_rows lo hi c) s e) \<longleftrightarrow> (r1 = 0 \<or> r1 < i) \<and> r2 \<noteq> 0 \<and> i \<le> r2"
    using m nn assms(5,6,8) r1(1) r2(1) by (auto simp: rows_in_range_def applyTimestampIdRange_def)
  have del: "row \<in> set (delete_old_rows (dense_rows lo hi c) (\<lambda>_. False) s) \<longleftrightarrow> r1 = 0 \<or> r1 < i"
    using m r1(1) assms(8) by (auto simp: delete_old_rows_def)
  have old: "c i < s" if "i \<le> r1" using r1(2) assms(7) that unfolding near_boundary_def by blast
  have up: "c i < e + 1" if "i \<le> r2" using r2(2) assms(7) that unfolding near_boundary_def by blast
  have next1: "s \<le> c (i + 1)" if "r1 = 0 \<or> r1 < i" "i \<noteq> hi"
    using r1(2) assms(1,7) that unfolding near_boundary_def by (auto dest!: bspec [of _ _ "i + 1"])
  have next2: "e + 1 \<le> c (i + 1)" if "r2 = 0 \<or> r2 < i" "i \<noteq> hi"
    using r2(2) assms(1,7) that unfolding near_boundary_def by (auto dest!: bspec [of _ _ "i + 1"])
  have "r1 = 0 \<or> r1 < i" if "s \<le> c i" using old that by fastforce
  then show ?thesis using sel del old up next1 next2 by fastforce
qed

section \<open>Tables with gaps\<close>

lemma gap_first_from:
  assumes "m < mid" "mid \<le> j"
  shows "first_from (dense_rows lo m c @ [\<lparr>lk_id = j, lk_created = b\<rparr>]) mid = Some \<lparr>lk_id = j, lk_created = b\<rparr>"
proof -
  have "filter (\<lambda>r. mid \<le> lk_id r) (dense_rows lo m c) = []" using assms(1) by (auto simp: dense_rows_def filter_empty_conv)
  then show ?thesis using assms(2) by (simp add: first_from_def)
qed

lemma gap_search_stuck:
  assumes "0 < lo" "lo \<le> m" "m < (lo + j) div 2" "j < 2 ^ 62" "ts \<le> b"
  shows "search_ids (dense_rows lo m c @ [\<lparr>lk_id = j, lk_created = b\<rparr>]) (\<lambda>_. False) ts k n lo (j - 1) 0 = 0"
proof (induction k arbitrary: n)
  case (Suc k)
  have "lo < j" using assms(2,3) by linarith
  then have "in_int64 (lo + (j - 1) + 1)" using assms by (simp add: in_int64_def min_int64_def max_int64_def)
  then have g: "go_div (wrap64 (lo + (j - 1) + 1)) 2 = (lo + j) div 2" using assms(1,2,3) by simp
  have "first_from (dense_rows lo m c @ [\<lparr>lk_id = j, lk_created = b\<rparr>]) ((lo + j) div 2) = Some \<lparr>lk_id = j, lk_created = b\<rparr>"
    by (rule gap_first_from) (use assms in auto)
  then show ?case using g Suc assms by (simp add: Let_def)
qed simp

text \<open>
  The search misses rows: with a row at or after the time, all earlier rows at consecutive keys, and
  either only one of them or a gap of keys as wide as the earlier rows before the last, the search answers
  that every row is later. The range up to just before the time is then empty, although all rows but the
  last are in it, and the clean-up removes nothing.
\<close>

theorem gap_hides_logs:
  assumes "0 < lo" "lo \<le> m" "m < j" "j < 2 ^ 62" "m < (lo + j) div 2 \<or> j = lo + 1"
    and "\<forall>i\<in>{lo..m}. c i < ts" "ts \<le> b" "1 < ts" "rows = dense_rows lo m c @ [\<lparr>lk_id = j, lk_created = b\<rparr>]"
  shows "findMaxIdByTimestampGeneric rows (\<lambda>_. False) ts = (0, True) \<and> rows_in_range rows 0 (ts - 1) = [] \<and>
    filter (\<lambda>r. lk_created r \<le> ts - 1) rows = dense_rows lo m c \<and> delete_old_rows rows (\<lambda>_. False) ts = rows"
proof -
  let ?rows = "dense_rows lo m c @ [\<lparr>lk_id = j, lk_created = b\<rparr>]"
  have ids: "lk_id ` set ?rows = insert j {lo..m}" using dense_ids [of lo m c] by auto
  have mm: "min_id ?rows = Some lo" "max_id ?rows = Some j"
  proof -
    have "Min (insert j {lo..m}) = lo" by (rule Min_eqI) (use assms(2,3) in auto)
    moreover have "Max (insert j {lo..m}) = j" by (rule Max_eqI) (use assms(2,3) in auto)
    ultimately show "min_id ?rows = Some lo" "max_id ?rows = Some j" unfolding min_id_def max_id_def ids by simp_all
  qed
  have d: "distinct (map lk_id ?rows)" using assms(3) by (auto simp: dense_rows_def comp_def)
  have "created_of ?rows lo = c lo"
    using find_id [OF d, of "\<lparr>lk_id = lo, lk_created = c lo\<rparr>"] assms(2) dense_member [of lo lo m c] by (simp add: created_of_def)
  moreover have "created_of ?rows j = b"
    using find_id [OF d, of "\<lparr>lk_id = j, lk_created = b\<rparr>"] by (simp add: created_of_def)
  moreover have "search_ids ?rows (\<lambda>_. False) ts 100 4 lo j 0 = 0"
  proof -
    let ?mid = "(lo + j + 1) div 2"
    have "in_int64 (lo + j + 1)" using assms(1-4) by (simp add: in_int64_def min_int64_def max_int64_def)
    then have g: "go_div (wrap64 (lo + j + 1)) 2 = ?mid" using assms(1-3) by simp
    have "m < ?mid" "?mid \<le> j" using assms(2,3,5) by auto
    then have f: "first_from ?rows ?mid = Some \<lparr>lk_id = j, lk_created = b\<rparr>" by (rule gap_first_from)
    have stuck: "search_ids ?rows (\<lambda>_. False) ts 99 5 lo (j - 1) 0 = 0"
    proof (cases "j = lo + 1")
      case True
      then show ?thesis by (simp add: numeral_eq_Suc)
    next
      case False
      then show ?thesis using assms(5) gap_search_stuck [OF assms(1,2) _ assms(4,7)] by blast
    qed
    have "search_ids ?rows (\<lambda>_. False) ts (Suc k) 4 lo j 0 = search_ids ?rows (\<lambda>_. False) ts k (Suc 4) lo (j - 1) 0" for k
      using g f assms(1-3,7) by (simp add: Let_def)
    moreover have e: "(100 :: nat) = Suc 99" "(5 :: nat) = Suc 4" by simp_all
    ultimately have "search_ids ?rows (\<lambda>_. False) ts 100 4 lo j 0 = search_ids ?rows (\<lambda>_. False) ts 99 5 lo (j - 1) 0"
      unfolding e by blast
    then show ?thesis using stuck by simp
  qed
  moreover have "c lo < ts" using assms(2,6) by simp
  ultimately have r: "findMaxIdByTimestampGeneric ?rows (\<lambda>_. False) ts = (0, True)"
    using assms(1-3,7) by (simp add: findMaxIdByTimestampGeneric_def mm del: search_ids.simps)
  then have "rows_in_range ?rows 0 (ts - 1) = []"
    using assms(8) by (auto simp: rows_in_range_def applyTimestampIdRange_def filter_empty_conv)
  moreover have "filter (\<lambda>r. lk_created r \<le> ts - 1) (dense_rows lo m c) = dense_rows lo m c"
    using assms(6) by (auto simp: dense_rows_def filter_id_conv)
  ultimately show ?thesis using r assms(7,9) by (auto simp: delete_old_rows_def)
qed

section \<open>The graph of a day\<close>

lemma slot_names: "i < 24 \<Longrightarrow> j < 24 \<Longrightarrow> two_digits i = two_digits j \<longleftrightarrow> i = j"
proof -
  have n: "nat_digits k = (if k < 10 then [digit_char k] else [digit_char (k div 10), digit_char (k mod 10)])" if "k < 24" for k
  proof -
    have "k div 10 < 10" using that by simp
    then show ?thesis by (simp add: nat_digits.simps [of k] nat_digits.simps [of "k div 10"])
  qed
  have inj: "digit_char a = digit_char b \<longleftrightarrow> a = b" if "a < 10" "b < 10" for a b
    using that by (metis digit_val_char option.inject)
  assume ij: "i < 24" "j < 24"
  have z: "''0'' = [digit_char 0]" using char_of_char [where ?'a = nat, of "CHR ''0''"] by (simp add: digit_char_def)
  have b: "k div 10 < 10" "k mod 10 < 10" "(0::nat) < 10" if "k < 24" for k :: nat using that by simp_all
  have "two_digits k = [digit_char (k div 10), digit_char (k mod 10)]" if "k < 24" for k
    using that n by (simp add: two_digits_def z)
  then have "two_digits i = two_digits j \<longleftrightarrow> i div 10 = j div 10 \<and> i mod 10 = j mod 10"
    using ij inj b by simp
  then show "two_digits i = two_digits j \<longleftrightarrow> i = j" by (metis div_mult_mod_eq)
qed

definition slots_of :: "(nat \<Rightarrow> int) \<Rightarrow> hourly_data list" where
  "slots_of f = map (\<lambda>i. \<lparr>hd_hour = two_digits i, hd_amount = f i\<rparr>) [0..<24]"

lemma add_to_slots:
  assumes "h < 24" "distinct is" "set is \<subseteq> {..<24}"
  shows "add_to_slot (two_digits h) v (map (\<lambda>i. \<lparr>hd_hour = two_digits i, hd_amount = f i\<rparr>) is) =
    map (\<lambda>i. \<lparr>hd_hour = two_digits i, hd_amount = (f(h := wrap64 (f h + v))) i\<rparr>) is"
  using assms(2,3) by (induction "is") (auto simp: slot_names assms(1))

lemma wrap64_add: "wrap64 (wrap64 a + b) = wrap64 (a + b)"
  by (simp add: wrap64_def mod_simps algebra_simps)

lemma utc_hour_less: "utc_hour t < 24"
proof -
  have "t mod 86400 div 3600 < 24" by simp
  then show ?thesis unfolding utc_hour_def by linarith
qed

lemma fill_slots:
  "fillHourlyData (slots_of f) rows =
   slots_of (\<lambda>h. fold (\<lambda>(t, v) x. if utc_hour t = h then wrap64 (x + v) else x) rows (f h))"
proof (induction rows arbitrary: f)
  case Nil
  then show ?case by (simp add: fillHourlyData_def)
next
  case (Cons r rows)
  obtain t v where r: "r = (t, v)" by fastforce
  let ?g = "f(utc_hour t := wrap64 (f (utc_hour t) + v))"
  have "add_to_slot (two_digits (utc_hour t)) v (slots_of f) = slots_of ?g"
    unfolding slots_of_def by (rule add_to_slots) (auto simp: utc_hour_less)
  then have "fillHourlyData (slots_of f) (r # rows) = fillHourlyData (slots_of ?g) rows" by (simp add: fillHourlyData_def r)
  also have "\<dots> = slots_of (\<lambda>h. fold (\<lambda>(t, v) x. if utc_hour t = h then wrap64 (x + v) else x) rows (?g h))" by (rule Cons.IH)
  finally show ?case by (simp add: r fun_upd_def if_distrib cong: if_cong) (simp add: slots_of_def)
qed

lemma fold_wrap64:
  "wrap64 x = x \<Longrightarrow> fold (\<lambda>(t, v) x. if utc_hour t = h then wrap64 (x + v) else x) rows x =
   wrap64 (x + sum_list (map snd (filter (\<lambda>r. utc_hour (fst r) = h) rows)))"
proof (induction rows arbitrary: x)
  case (Cons r rows)
  obtain t v where r: "r = (t, v)" by fastforce
  show ?case
    using Cons.IH [of "wrap64 (x + v)"] Cons.IH [of x] Cons.prems
    by (auto simp: r wrap64_wrap64 wrap64_add add.assoc)
qed simp

text \<open>
  A graph has a slot for each of the 24 hours, and each holds the sum of the buckets of its hour, also
  when buckets of several days fall into one slot.
\<close>

theorem hourly_graph_exact:
  "fillHourlyData newEmptyHourlyData rows =
   map (\<lambda>h. \<lparr>hd_hour = two_digits h, hd_amount = wrap64 (sum_list (map snd (filter (\<lambda>r. utc_hour (fst r) = h) rows)))\<rparr>) [0..<24]"
proof -
  have "wrap64 0 = 0" by (simp add: in_int64_def min_int64_def max_int64_def)
  then have "fold (\<lambda>(t, v) x. if utc_hour t = h then wrap64 (x + v) else x) rows 0 =
      wrap64 (sum_list (map snd (filter (\<lambda>r. utc_hour (fst r) = h) rows)))" for h
    using fold_wrap64 [of 0 h rows] by simp
  then show ?thesis using fill_slots [of "\<lambda>_. 0" rows] by (simp add: slots_of_def newEmptyHourlyData_def)
qed

section \<open>Concrete tables\<close>

theorem time_range_off_by_one_witness:
  "\<lparr>lk_id = 5, lk_created = 50\<rparr> \<notin> set (rows_in_range (dense_rows 1 8 (\<lambda>i. 10 * i)) 20 40)"
proof -
  have "(0 :: int) < 1" "(1 :: int) \<le> 8" "(8 :: int) < 2 ^ 62" "(0 :: int) < 20" "(0 :: int) < 40" "(5 :: int) \<in> {1..8}" by simp_all
  moreover have "10 * i \<le> 10 * j" if "1 \<le> i" "i \<le> j" "j \<le> 8" for i j :: int using that by simp
  ultimately show ?thesis
    using time_range_off_by_one [where lo = 1 and hi = 8 and c = "\<lambda>i. 10 * i" and s = 20 and e = 40 and i = 5] by simp
qed

theorem gap_hides_logs_witness:
  "rows_in_range (dense_rows 1 3 (\<lambda>i. 10 * i) @ [\<lparr>lk_id = 9, lk_created = 90\<rparr>]) 0 49 = []"
proof -
  have "\<forall>i\<in>{1..3::int}. 10 * i < 50" by simp
  then show ?thesis using gap_hides_logs [where lo = 1 and m = 3 and j = 9 and c = "\<lambda>i. 10 * i" and ts = 50 and b = 90] by simp
qed

end
