(* ===== verification/RateLimit.thy ===== *)
theory RateLimit
  imports Prelude
begin

text \<open>
  \<open>common/rate-limit.go\<close> and \<open>middleware/rate-limit.go\<close>: the two rate limiters, one in the memory of the
  process and one in Redis lists, and the sliding window both implement. The memory limiter counts in
  seconds, the Redis one in the milliseconds of its time format.
\<close>

section \<open>The limiter in memory\<close>

record memory_limiter =
  ml_store :: "string \<rightharpoonup> int list"
  ml_expiration :: int

definition limiter_Init :: "int \<Rightarrow> memory_limiter" where
  "limiter_Init expiration = \<lparr>ml_store = (\<lambda>_. None), ml_expiration = expiration\<rparr>"

text \<open>One round of \<open>clearExpiredItems\<close> at the time \<open>now\<close>.\<close>

definition clearExpiredItems :: "int \<Rightarrow> memory_limiter \<Rightarrow> memory_limiter" where
  "clearExpiredItems now l = l\<lparr>ml_store := (\<lambda>key.
     case ml_store l key of
       None \<Rightarrow> None
     | Some queue \<Rightarrow> if queue = [] \<or> ml_expiration l < now - last queue then None else Some queue)\<rparr>"

definition Request :: "string \<Rightarrow> int \<Rightarrow> int \<Rightarrow> int \<Rightarrow> memory_limiter \<Rightarrow> bool \<times> memory_limiter" where
  "Request key maxRequestNum duration now l =
     (case ml_store l key of
        Some queue \<Rightarrow>
          if int (length queue) < maxRequestNum then (True, l\<lparr>ml_store := (ml_store l)(key \<mapsto> queue @ [now])\<rparr>)
          else if duration \<le> now - hd queue then (True, l\<lparr>ml_store := (ml_store l)(key \<mapsto> tl queue @ [now])\<rparr>)
          else (False, l)
      | None \<Rightarrow> (True, l\<lparr>ml_store := (ml_store l)(key \<mapsto> [now])\<rparr>))"

section \<open>The limiter in Redis\<close>

text \<open>A Redis list, the newest entry first, and the time its key expires at.\<close>

record redis_list =
  rl_items :: "int list"
  rl_expires :: "int option"

type_synonym redis_lists = "string \<rightharpoonup> redis_list"

definition live_list :: "int \<Rightarrow> redis_lists \<Rightarrow> string \<Rightarrow> redis_list option" where
  "live_list now ls key =
     (case ls key of
        None \<Rightarrow> None
      | Some l \<Rightarrow> (case rl_expires l of None \<Rightarrow> Some l | Some e \<Rightarrow> if now < e then Some l else None))"

definition list_items :: "int \<Rightarrow> redis_lists \<Rightarrow> string \<Rightarrow> int list" where
  "list_items now ls key = (case live_list now ls key of None \<Rightarrow> [] | Some l \<Rightarrow> rl_items l)"

definition LPush :: "int \<Rightarrow> string \<Rightarrow> int \<Rightarrow> redis_lists \<Rightarrow> redis_lists" where
  "LPush now key t ls = ls(key \<mapsto>
     (case live_list now ls key of None \<Rightarrow> \<lparr>rl_items = [t], rl_expires = None\<rparr> | Some l \<Rightarrow> l\<lparr>rl_items := t # rl_items l\<rparr>))"

definition Expire :: "int \<Rightarrow> string \<Rightarrow> int \<Rightarrow> redis_lists \<Rightarrow> redis_lists" where
  "Expire now key ttl ls =
     (case live_list now ls key of None \<Rightarrow> ls | Some l \<Rightarrow> ls(key \<mapsto> l\<lparr>rl_expires := Some (now + ttl)\<rparr>))"

text \<open>\<open>LTRIM key 0 n-1\<close>, for a positive \<open>n\<close>.\<close>

definition LTrim :: "int \<Rightarrow> string \<Rightarrow> nat \<Rightarrow> redis_lists \<Rightarrow> redis_lists" where
  "LTrim now key n ls =
     (case live_list now ls key of None \<Rightarrow> ls | Some l \<Rightarrow> ls(key \<mapsto> l\<lparr>rl_items := take n (rl_items l)\<rparr>))"

datatype verdict = Passed | TooMany | ServerError

text \<open>Where a request stands: before which of its commands, or answered.\<close>

datatype limiter_pc =
    AskLength
  | PushNew
  | ExpireNew
  | ReadOldest
  | ExpireRefused
  | PushFull
  | TrimFull
  | ExpireFull
  | Answered verdict

text \<open>
  One command of \<open>redisRateLimiter\<close> at the time \<open>now\<close>; \<open>failed\<close> says that Redis returned an error, which
  only the two reads look at. Time is in milliseconds, \<open>duration\<close> in seconds.
\<close>

definition limiter_step ::
  "int \<Rightarrow> string \<Rightarrow> int \<Rightarrow> int \<Rightarrow> int \<Rightarrow> bool \<Rightarrow> limiter_pc \<Rightarrow> redis_lists \<Rightarrow> limiter_pc \<times> redis_lists" where
  "limiter_step expiration key maxRequestNum duration now failed pc ls =
     (case pc of
        AskLength \<Rightarrow>
          (if failed then Answered ServerError
           else if int (length (list_items now ls key)) < maxRequestNum then PushNew else ReadOldest, ls)
      | PushNew \<Rightarrow> (ExpireNew, if failed then ls else LPush now key now ls)
      | ExpireNew \<Rightarrow> (Answered Passed, if failed then ls else Expire now key expiration ls)
      | ReadOldest \<Rightarrow>
          (if failed \<or> list_items now ls key = [] then Answered ServerError
           else if go_div (now - last (list_items now ls key)) 1000 < duration then ExpireRefused else PushFull, ls)
      | ExpireRefused \<Rightarrow> (Answered TooMany, if failed then ls else Expire now key expiration ls)
      | PushFull \<Rightarrow> (TrimFull, if failed then ls else LPush now key now ls)
      | TrimFull \<Rightarrow> (ExpireFull, if failed then ls else LTrim now key (nat maxRequestNum) ls)
      | ExpireFull \<Rightarrow> (Answered Passed, if failed then ls else Expire now key expiration ls)
      | Answered v \<Rightarrow> (Answered v, ls))"

fun pc_rank :: "limiter_pc \<Rightarrow> nat" where
  "pc_rank AskLength = 5"
| "pc_rank ReadOldest = 4"
| "pc_rank PushFull = 3"
| "pc_rank TrimFull = 2"
| "pc_rank ExpireFull = 1"
| "pc_rank ExpireRefused = 1"
| "pc_rank PushNew = 2"
| "pc_rank ExpireNew = 1"
| "pc_rank (Answered v) = 0"

text \<open>A request that runs alone: its commands one after the other, with the faults of the connection.\<close>

function run_request ::
  "int \<Rightarrow> string \<Rightarrow> int \<Rightarrow> int \<Rightarrow> int \<Rightarrow> bool list \<Rightarrow> limiter_pc \<Rightarrow> redis_lists \<Rightarrow> verdict \<times> redis_lists" where
  "run_request expiration key maxRequestNum duration now faults pc ls =
     (case pc of
        Answered v \<Rightarrow> (v, ls)
      | _ \<Rightarrow>
          (case limiter_step expiration key maxRequestNum duration now (faults \<noteq> [] \<and> hd faults) pc ls of
             (pc', ls') \<Rightarrow> run_request expiration key maxRequestNum duration now (tl faults) pc' ls'))"
  by pat_completeness auto
termination
  by (relation "measure (\<lambda>(_, _, _, _, _, _, pc, _). pc_rank pc)")
    (auto simp: limiter_step_def split: limiter_pc.splits if_splits)

declare run_request.simps [simp del]

definition redisRateLimiter :: "int \<Rightarrow> string \<Rightarrow> int \<Rightarrow> int \<Rightarrow> int \<Rightarrow> bool list \<Rightarrow> redis_lists \<Rightarrow> verdict \<times> redis_lists" where
  "redisRateLimiter expiration key maxRequestNum duration now faults ls =
     run_request expiration key maxRequestNum duration now faults AskLength ls"

section \<open>The middleware\<close>

text \<open>What a limiter is given: the mark of the route group, its limit and its window in seconds.\<close>

record rate_rule =
  rr_mark :: string
  rr_max :: int
  rr_duration :: int

definition RateLimitKeyExpirationDuration :: int where "RateLimitKeyExpirationDuration = 20 * 60"

definition memoryRateLimiter :: "rate_rule \<Rightarrow> string \<Rightarrow> int \<Rightarrow> memory_limiter \<Rightarrow> verdict \<times> memory_limiter" where
  "memoryRateLimiter r ip now l =
     (case Request (rr_mark r @ ip) (rr_max r) (rr_duration r) now l of
        (True, l') \<Rightarrow> (Passed, l') | (False, l') \<Rightarrow> (TooMany, l'))"

definition redis_rate_limit :: "rate_rule \<Rightarrow> string \<Rightarrow> int \<Rightarrow> bool list \<Rightarrow> redis_lists \<Rightarrow> verdict \<times> redis_lists" where
  "redis_rate_limit r ip now faults ls =
     redisRateLimiter (1000 * RateLimitKeyExpirationDuration) (''rateLimit:'' @ rr_mark r @ ip) (rr_max r) (rr_duration r) now faults ls"

text \<open>The rules of the route groups with the values of \<open>config.go\<close>.\<close>

definition GlobalWebRateLimit :: rate_rule where
  "GlobalWebRateLimit = \<lparr>rr_mark = ''GW'', rr_max = 6000, rr_duration = 30 * 60\<rparr>"

definition GlobalAPIRateLimit :: rate_rule where
  "GlobalAPIRateLimit = \<lparr>rr_mark = ''GA'', rr_max = 180000, rr_duration = 30 * 60\<rparr>"

definition CriticalRateLimit :: rate_rule where
  "CriticalRateLimit = \<lparr>rr_mark = ''CT'', rr_max = 200, rr_duration = 200 * 60\<rparr>"

definition DownloadRateLimit :: rate_rule where
  "DownloadRateLimit = \<lparr>rr_mark = ''DW'', rr_max = 10, rr_duration = 60\<rparr>"

definition UploadRateLimit :: rate_rule where
  "UploadRateLimit = \<lparr>rr_mark = ''UP'', rr_max = 10, rr_duration = 600\<rparr>"

section \<open>The sliding window\<close>

text \<open>
  The specification: a request passes when fewer than \<open>m\<close> requests passed within the window. \<open>passed\<close>
  is every time at which a request of the key passed, the newest first.
\<close>

definition window_allows :: "nat \<Rightarrow> int \<Rightarrow> int \<Rightarrow> int list \<Rightarrow> bool" where
  "window_allows m window now passed \<longleftrightarrow> length (filter (\<lambda>t. now - t < window) passed) < m"

datatype limiter_event = Ask string int | Sweep int

fun event_time :: "limiter_event \<Rightarrow> int" where
  "event_time (Ask _ t) = t"
| "event_time (Sweep t) = t"

fun window_answers :: "(string \<Rightarrow> nat \<times> int) \<Rightarrow> limiter_event list \<Rightarrow> (string \<Rightarrow> int list) \<Rightarrow> bool list" where
  "window_answers rule [] passed = []"
| "window_answers rule (Sweep t # es) passed = window_answers rule es passed"
| "window_answers rule (Ask k t # es) passed =
     (let a = window_allows (fst (rule k)) (snd (rule k)) t (passed k)
      in a # window_answers rule es (if a then passed(k := t # passed k) else passed))"

fun limiter_answers ::
  "(string \<Rightarrow> nat \<Rightarrow> int \<Rightarrow> int \<Rightarrow> 's \<Rightarrow> bool \<times> 's) \<Rightarrow> (int \<Rightarrow> 's \<Rightarrow> 's) \<Rightarrow> (string \<Rightarrow> nat \<times> int) \<Rightarrow>
   limiter_event list \<Rightarrow> 's \<Rightarrow> bool list" where
  "limiter_answers request sweep rule [] s = []"
| "limiter_answers request sweep rule (Sweep t # es) s = limiter_answers request sweep rule es (sweep t s)"
| "limiter_answers request sweep rule (Ask k t # es) s =
     (case request k (fst (rule k)) (snd (rule k)) t s of
        (a, s') \<Rightarrow> a # limiter_answers request sweep rule es s')"

text \<open>
  What a limiter does, in the time unit of its window: \<open>holds now s k\<close> is what it remembers of a key at a
  time, and whatever it forgets is at least \<open>horizon\<close> old.
\<close>

locale window_limiter =
  fixes request :: "string \<Rightarrow> nat \<Rightarrow> int \<Rightarrow> int \<Rightarrow> 's \<Rightarrow> bool \<times> 's"
    and sweep :: "int \<Rightarrow> 's \<Rightarrow> 's"
    and holds :: "int \<Rightarrow> 's \<Rightarrow> string \<Rightarrow> int list"
    and window :: "int \<Rightarrow> int"
    and horizon :: int
    and wf :: "'s \<Rightarrow> bool"
  assumes request_wf: "0 < m \<Longrightarrow> wf s \<Longrightarrow> \<forall>t\<in>set (holds now s k). t \<le> now \<Longrightarrow> request k m dur now s = (a, s') \<Longrightarrow> wf s'"
    and sweep_wf: "wf s \<Longrightarrow> wf (sweep now s)"
    and decision: "0 < m \<Longrightarrow> 0 < dur \<Longrightarrow> length (holds now s k) \<le> m \<Longrightarrow> \<forall>t\<in>set (holds now s k). t \<le> now \<Longrightarrow>
      fst (request k m dur now s) \<longleftrightarrow> length (holds now s k) < m \<or> window dur \<le> now - last (holds now s k)"
    and record_same: "wf s \<Longrightarrow> 0 < m \<Longrightarrow> 0 < dur \<Longrightarrow> length (holds now s k) \<le> m \<Longrightarrow> \<forall>t\<in>set (holds now s k). t \<le> now \<Longrightarrow>
      request k m dur now s = (a, s') \<Longrightarrow> holds now s' k = (if a then take m (now # holds now s k) else holds now s k)"
    and record_other: "request k m dur now s = (a, s') \<Longrightarrow> k' \<noteq> k \<Longrightarrow> holds now s' k' = holds now s k'"
    and later: "wf s \<Longrightarrow> now \<le> now' \<Longrightarrow> holds now' s k = holds now s k \<or>
      holds now' s k = [] \<and> (\<forall>t\<in>set (holds now s k). t \<le> now \<longrightarrow> horizon \<le> now' - t)"
    and swept: "wf s \<Longrightarrow> now \<le> now' \<Longrightarrow> \<forall>t\<in>set (holds now s k). t \<le> now \<Longrightarrow> sorted_wrt (\<ge>) (holds now s k) \<Longrightarrow> holds now' (sweep now' s) k = holds now' s k \<or>
      holds now' (sweep now' s) k = [] \<and> (\<forall>t\<in>set (holds now' s k). horizon \<le> now' - t)"
begin

text \<open>The limiter remembers the newest requests that passed, or all that still count.\<close>

definition tracks :: "nat \<Rightarrow> int \<Rightarrow> int \<Rightarrow> int list \<Rightarrow> int list \<Rightarrow> bool" where
  "tracks m w now held passed \<longleftrightarrow>
     (\<exists>n\<le>m. held = take n passed \<and> (n = m \<or> (\<forall>t\<in>set (drop n passed). w \<le> now - t))) \<and>
     sorted_wrt (\<ge>) passed \<and> (\<forall>t\<in>set passed. t \<le> now)"

lemma tracks_length: "tracks m w now held passed \<Longrightarrow> length held \<le> m \<and> (\<forall>t\<in>set held. t \<le> now)"
  by (auto simp: tracks_def dest: in_set_takeD)

lemma tracks_sorted: "tracks m w now held passed \<Longrightarrow> sorted_wrt (\<ge>) held"
  by (auto simp: tracks_def sorted_wrt_take)

lemma tracks_later: "tracks m w now held passed \<Longrightarrow> now \<le> now' \<Longrightarrow> tracks m w now' held passed"
  by (fastforce simp: tracks_def)

lemma tracks_forget:
  "tracks m w now held passed \<Longrightarrow> w \<le> horizon \<Longrightarrow> \<forall>t\<in>set held. horizon \<le> now - t \<Longrightarrow> tracks m w now [] passed"
proof -
  assume a: "tracks m w now held passed" "w \<le> horizon" "\<forall>t\<in>set held. horizon \<le> now - t"
  then obtain n where n: "n \<le> m" "held = take n passed" "n = m \<or> (\<forall>t\<in>set (drop n passed). w \<le> now - t)"
    "sorted_wrt (\<ge>) passed" "\<forall>t\<in>set passed. t \<le> now"
    by (auto simp: tracks_def)
  have old: "w \<le> now - t" if "t \<in> set (take n passed)" for t using a n(2) that by fastforce
  have "\<forall>t\<in>set (drop 0 passed). w \<le> now - t" if nz: "n \<noteq> 0"
  proof
    fix t assume "t \<in> set (drop 0 passed)"
    then have t: "t \<in> set passed" by simp
    show "w \<le> now - t"
    proof (cases "t \<in> set (take n passed)")
      case False
      then have d: "t \<in> set (drop n passed)" using t by (metis Un_iff append_take_drop_id set_append)
      then obtain x xs where x: "take n passed = x # xs" using nz by (cases "take n passed") auto
      have "sorted_wrt (\<ge>) (take n passed @ drop n passed)" using n(4) by simp
      then have "t \<le> x" using d x by (simp only: sorted_wrt_append) simp
      then show ?thesis using old [of x] x by simp
    qed (rule old)
  qed
  then show ?thesis using a(1) n by (cases "n = 0") (auto simp: tracks_def)
qed

lemma filter_prefix:
  assumes "sorted_wrt (\<ge>) passed" "\<forall>t\<in>set (drop n passed). w \<le> now - (t :: int)"
  shows "filter (\<lambda>t. now - t < w) passed = filter (\<lambda>t. now - t < w) (take n passed)"
proof -
  have "filter (\<lambda>t. now - t < w) passed = filter (\<lambda>t. now - t < w) (take n passed @ drop n passed)" by simp
  also have "filter (\<lambda>t. now - t < w) (drop n passed) = []" using assms(2) by (auto simp: filter_empty_conv)
  then have "filter (\<lambda>t. now - t < w) (take n passed @ drop n passed) = filter (\<lambda>t. now - t < w) (take n passed)"
    by (simp only: filter_append append_Nil2)
  finally show ?thesis .
qed

lemma tracks_decides:
  assumes "tracks m w now held passed" "0 < m"
  shows "length held < m \<or> w \<le> now - last held \<longleftrightarrow> window_allows m w now passed"
proof -
  let ?f = "filter (\<lambda>t. now - t < w)"
  obtain n where n: "n \<le> m" "held = take n passed" "n = m \<or> (\<forall>t\<in>set (drop n passed). w \<le> now - t)" "sorted_wrt (\<ge>) passed"
    using assms(1) by (auto simp: tracks_def)
  show ?thesis
  proof (cases "length held < m")
    case True
    have "\<forall>t\<in>set (drop n passed). w \<le> now - t"
    proof (cases "n = m")
      case True
      with \<open>length held < m\<close> n(2) have "drop n passed = []" by auto
      then show ?thesis by simp
    qed (use n(3) in blast)
    from filter_prefix [OF n(4) this] have "length (?f passed) \<le> length held"
      using length_filter_le [of "\<lambda>t. now - t < w" held] n(2) by simp
    then show ?thesis using True by (simp add: window_allows_def)
  next
    case False
    then have full: "length held = m" "n = m" using n(1,2) by auto
    then have ne: "held \<noteq> []" using assms(2) by auto
    have sh: "sorted_wrt (\<ge>) held" using n(2,4) sorted_wrt_take by blast
    have le: "last held \<le> t" if "t \<in> set held" for t
    proof -
      have "sorted_wrt (\<ge>) (butlast held @ [last held])" using sh ne by simp
      then have "\<forall>x\<in>set (butlast held). last held \<le> x" by (simp only: sorted_wrt_append) auto
      moreover have "t \<in> set (butlast held) \<or> t = last held" using that ne by (metis append_butlast_last_id in_set_butlastD rotate1.simps(2) set_ConsD set_rotate1)
      ultimately show ?thesis by auto
    qed
    show ?thesis
    proof (cases "w \<le> now - last held")
      case True
      have "\<forall>t\<in>set (drop (m - 1) passed). w \<le> now - t"
      proof
        fix t assume t: "t \<in> set (drop (m - 1) passed)"
        have l: "last held = passed ! (m - 1)" using full n(2) ne assms(2) by (simp add: last_conv_nth)
        have "m - 1 < length passed" using full n(2) assms(2) by auto
        then have "drop (m - 1) passed = passed ! (m - 1) # drop m passed"
          using Cons_nth_drop_Suc [of "m - 1" passed] assms(2) by simp
        moreover have "sorted_wrt (\<ge>) (drop (m - 1) passed)" using n(4) sorted_wrt_drop by blast
        ultimately have "t \<le> passed ! (m - 1)" using t by auto
        then show "w \<le> now - t" using True l by simp
      qed
      from filter_prefix [OF n(4) this] have "length (?f passed) \<le> m - 1"
        by (metis length_filter_le length_take min.bounded_iff order.trans min.cobounded2)
      then show ?thesis using True assms(2) by (simp add: window_allows_def)
    next
      case w: False
      have "?f held = held" using w le by (fastforce simp: filter_id_conv)
      moreover have "length (?f held) \<le> length (?f passed)"
        using n(2) by (metis append_take_drop_id filter_append le_add1 length_append)
      ultimately show ?thesis using False full w by (simp add: window_allows_def)
    qed
  qed
qed

lemma tracks_pass:
  assumes "tracks m w now held passed" "0 < m"
  shows "tracks m w now (take m (now # held)) (now # passed)"
proof -
  obtain n where n: "n \<le> m" "held = take n passed" "n = m \<or> (\<forall>t\<in>set (drop n passed). w \<le> now - t)" "sorted_wrt (\<ge>) passed"
    "\<forall>t\<in>set passed. t \<le> now"
    using assms(1) by (auto simp: tracks_def)
  show ?thesis
  proof (cases "n = m")
    case True
    then have "take m (now # held) = take m (now # passed)"
      using n(2) assms(2) by (cases m) (auto simp: take_Cons' min_def)
    then show ?thesis using n(4,5) by (auto simp: tracks_def)
  next
    case False
    then have "take m (now # held) = take (Suc n) (now # passed)" using n(1,2) by (cases m) (auto simp: min_def dest: le_antisym)
    then show ?thesis using n False by (auto simp: tracks_def intro!: exI [of _ "Suc n"])
  qed
qed

theorem answers_exact:
  assumes "\<forall>k. 0 < fst (rule k) \<and> 0 < snd (rule k) \<and> window (snd (rule k)) \<le> horizon"
    "sorted (map event_time es)" "\<forall>e\<in>set es. now \<le> event_time e"
    "\<forall>k. tracks (fst (rule k)) (window (snd (rule k))) now (holds now s k) (passed k)" "wf s"
  shows "limiter_answers request sweep rule es s = window_answers (\<lambda>k. (fst (rule k), window (snd (rule k)))) es passed"
  using assms(2-5)
proof (induction es arbitrary: s passed now)
  case Nil
  then show ?case by simp
next
  case (Cons e es)
  have hz: "window (snd (rule k)) \<le> horizon" for k using assms(1) by blast
  have fwd: "tracks (fst (rule k)) (window (snd (rule k))) (event_time e) (holds (event_time e) s k) (passed k)" for k
  proof -
    have tr: "tracks (fst (rule k)) (window (snd (rule k))) (event_time e) (holds now s k) (passed k)"
      by (rule tracks_later [OF Cons.prems(3) [rule_format]]) (use Cons.prems(2) in simp)
    have "\<forall>t\<in>set (holds now s k). t \<le> now" using tracks_length [OF Cons.prems(3) [rule_format, of k]] by simp
    with later [OF Cons.prems(4), of now "event_time e" k] Cons.prems(2) show ?thesis using tr tracks_forget [OF tr hz] by auto
  qed
  have rest: "sorted (map event_time es)" "\<forall>x\<in>set es. event_time e \<le> event_time x" using Cons.prems(1) by simp_all
  show ?case
  proof (cases e)
    case (Sweep t)
    have "tracks (fst (rule k)) (window (snd (rule k))) t (holds t (sweep t s) k) (passed k)" for k
    proof -
      have tr: "tracks (fst (rule k)) (window (snd (rule k))) t (holds t s k) (passed k)" using fwd [of k] Sweep by simp
      then have "\<forall>x\<in>set (holds t s k). x \<le> t" "sorted_wrt (\<ge>) (holds t s k)" using tracks_length tracks_sorted by blast+
      with swept [OF Cons.prems(4), of t t k] show ?thesis using tr tracks_forget [OF tr hz] by auto
    qed
    with Cons.IH [OF rest] sweep_wf [OF Cons.prems(4)] Sweep show ?thesis by simp
  next
    case (Ask k t)
    let ?m = "fst (rule k)" and ?w = "window (snd (rule k))"
    obtain a s' where r: "request k ?m (snd (rule k)) t s = (a, s')" by fastforce
    have tr: "tracks ?m ?w t (holds t s k) (passed k)" using fwd [of k] Ask by simp
    have m: "0 < ?m" "0 < snd (rule k)" using assms(1) by blast+
    note len = tracks_length [OF tr]
    have a: "a = window_allows ?m ?w t (passed k)"
      using decision [OF m conjunct1 [OF len] conjunct2 [OF len]] r tracks_decides [OF tr m(1)] by simp
    let ?p = "if a then passed(k := t # passed k) else passed"
    have "tracks (fst (rule x)) (window (snd (rule x))) t (holds t s' x) (?p x)" for x
    proof (cases "x = k")
      case True
      then show ?thesis
        using record_same [OF Cons.prems(4) m conjunct1 [OF len] conjunct2 [OF len] r] tr tracks_pass [OF tr m(1)] by simp
    next
      case False
      then show ?thesis using record_other [OF r False] fwd [of x] Ask by simp
    qed
    with Cons.IH [OF rest, of s' ?p] request_wf [OF m(1) Cons.prems(4) conjunct2 [OF len] r] Ask have
      "limiter_answers request sweep rule es s' = window_answers (\<lambda>k. (fst (rule k), window (snd (rule k)))) es ?p" by simp
    then show ?thesis using Ask r a by (simp add: Let_def)
  qed
qed

lemma answers_from_start:
  assumes "\<forall>k. 0 < fst (rule k) \<and> 0 < snd (rule k) \<and> window (snd (rule k)) \<le> horizon"
    "sorted (map event_time es)" "\<And>now k. holds now s k = []" "wf s"
  shows "limiter_answers request sweep rule es s = window_answers (\<lambda>k. (fst (rule k), window (snd (rule k)))) es (\<lambda>_. [])"
proof (cases es)
  case (Cons e r)
  show ?thesis
  proof (rule answers_exact [OF assms(1,2), of "event_time e"])
    show "\<forall>x\<in>set es. event_time e \<le> event_time x" using assms(2) Cons by simp
  qed (auto simp: tracks_def assms(3,4) intro!: exI [of _ 0])
qed simp

end

section \<open>The limiter in memory is one\<close>

definition memory_request :: "string \<Rightarrow> nat \<Rightarrow> int \<Rightarrow> int \<Rightarrow> memory_limiter \<Rightarrow> bool \<times> memory_limiter" where
  "memory_request k m dur now l = Request k (int m) dur now l"

definition memory_holds :: "int \<Rightarrow> memory_limiter \<Rightarrow> string \<Rightarrow> int list" where
  "memory_holds now l k = (case ml_store l k of None \<Rightarrow> [] | Some queue \<Rightarrow> rev queue)"

lemma take_rev_append: "length queue \<le> m \<Longrightarrow> 0 < m \<Longrightarrow>
  take m (now # rev queue) = rev (if length queue < m then queue @ [now] else tl queue @ [now])"
  by (cases queue; cases m) (auto simp: take_Cons')

lemma Request_expiration [simp]: "ml_expiration (snd (Request k m dur now l)) = ml_expiration l"
  by (simp add: Request_def split: option.splits)

text \<open>The expiration is set once, so it is a parameter of the limiter.\<close>

definition memory_sweep :: "int \<Rightarrow> int \<Rightarrow> memory_limiter \<Rightarrow> memory_limiter" where
  "memory_sweep expiration now l = clearExpiredItems now (l\<lparr>ml_expiration := expiration\<rparr>)"

interpretation memory_window: window_limiter memory_request "memory_sweep expiration" memory_holds "\<lambda>w. w" expiration "\<lambda>_. True" for expiration
proof (unfold_locales, goal_cases)
  case (3 m dur now s k)
  then show ?case
    by (auto simp: memory_request_def memory_holds_def Request_def last_rev split: option.splits)
next
  case (4 s m dur now k a s')
  show ?case
  proof (cases "ml_store s k")
    case None
    then show ?thesis using 4 by (cases m) (auto simp: memory_request_def memory_holds_def Request_def)
  next
    case (Some queue)
    then have l: "length queue \<le> m" using 4(4) by (simp add: memory_holds_def)
    show ?thesis using 4(2,6) Some take_rev_append [OF l 4(2), of now] l
      by (auto simp: memory_request_def memory_holds_def Request_def split: if_splits)
  qed
next
  case (5 k m dur now s a s' k')
  then show ?case by (auto simp: memory_request_def memory_holds_def Request_def split: option.splits if_splits)
next
  case (6 s now now' k)
  then show ?case by (simp add: memory_holds_def)
next
  case (7 s now now' k)
  show ?case
  proof (cases "ml_store s k")
    case None
    then show ?thesis by (simp add: memory_holds_def memory_sweep_def clearExpiredItems_def)
  next
    case (Some queue)
    show ?thesis
    proof (cases "queue = [] \<or> expiration < now' - last queue")
      case False
      then show ?thesis using Some by (auto simp: memory_holds_def memory_sweep_def clearExpiredItems_def)
    next
      case True
      have e: "memory_holds now' (memory_sweep expiration now' s) k = []" "memory_holds now s k = rev queue" "memory_holds now' s k = rev queue"
        using Some True by (auto simp: memory_holds_def memory_sweep_def clearExpiredItems_def)
      have "expiration \<le> now' - t" if t: "t \<in> set queue" for t
      proof -
        have ne: "queue \<noteq> []" using t by auto
        then obtain q x where q: "queue = q @ [x]" by (cases queue rule: rev_cases) auto
        have "\<forall>y\<in>set q. y \<le> x" using 7 e(2) q by (simp add: sorted_wrt_append)
        then have "t \<le> x" using t q by auto
        then show ?thesis using True ne q by simp
      qed
      then show ?thesis using e by simp
    qed
  qed
qed simp_all

section \<open>The limiter in Redis is one\<close>

definition redis_request :: "int \<Rightarrow> string \<Rightarrow> nat \<Rightarrow> int \<Rightarrow> int \<Rightarrow> redis_lists \<Rightarrow> bool \<times> redis_lists" where
  "redis_request expiration k m dur now ls =
     (case redisRateLimiter expiration k (int m) dur now [] ls of (v, ls') \<Rightarrow> (v = Passed, ls'))"

definition redis_holds :: "int \<Rightarrow> redis_lists \<Rightarrow> string \<Rightarrow> int list" where
  "redis_holds now ls k = list_items now ls k"

text \<open>The three ways through the commands of a request that no error disturbs.\<close>

lemma redis_paths:
  "redisRateLimiter expiration k m dur now [] ls =
     (if int (length (list_items now ls k)) < m
      then (Passed, Expire now k expiration (LPush now k now ls))
      else if list_items now ls k = [] then (ServerError, ls)
      else if go_div (now - last (list_items now ls k)) 1000 < dur then (TooMany, Expire now k expiration ls)
      else (Passed, Expire now k expiration (LTrim now k (nat m) (LPush now k now ls))))"
  by (simp add: redisRateLimiter_def run_request.simps limiter_step_def)

lemma list_ops:
  "live_list now (LPush now k t ls) k = Some \<lparr>rl_items = t # list_items now ls k,
     rl_expires = (case live_list now ls k of None \<Rightarrow> None | Some l \<Rightarrow> rl_expires l)\<rparr>"
  "0 < ttl \<Longrightarrow> live_list now (Expire now k ttl ls) k = map_option (\<lambda>l. l\<lparr>rl_expires := Some (now + ttl)\<rparr>) (live_list now ls k)"
  "live_list now (LTrim now k n ls) k = map_option (\<lambda>l. l\<lparr>rl_items := take n (rl_items l)\<rparr>) (live_list now ls k)"
  by (auto simp: LPush_def Expire_def LTrim_def list_items_def live_list_def split: option.splits if_splits)

lemma items_ops:
  "list_items now (LPush now k t ls) k = t # list_items now ls k"
  "0 < ttl \<Longrightarrow> list_items now (Expire now k ttl ls) k = list_items now ls k"
  "list_items now (LTrim now k n ls) k = take n (list_items now ls k)"
  by (simp_all add: list_items_def list_ops split: option.splits)

lemma key_ops:
  "k' \<noteq> k \<Longrightarrow> LPush now k t ls k' = ls k'" "k' \<noteq> k \<Longrightarrow> LTrim now k n ls k' = ls k'"
  by (simp_all add: LPush_def LTrim_def split: option.splits)

lemma other_lists:
  "k' \<noteq> k \<Longrightarrow> live_list u (LPush now k t ls) k' = live_list u ls k'"
  "k' \<noteq> k \<Longrightarrow> live_list u (Expire now k ttl ls) k' = live_list u ls k'"
  "k' \<noteq> k \<Longrightarrow> live_list u (LTrim now k n ls) k' = live_list u ls k'"
  by (auto simp: LPush_def Expire_def LTrim_def live_list_def split: option.splits)

lemma go_div_lt:
  assumes "0 < dur"
  shows "go_div a 1000 < dur \<longleftrightarrow> a < 1000 * dur"
proof (cases "0 \<le> a")
  case True
  then show ?thesis using assms by simp linarith
next
  case False
  then have "go_div a 1000 \<le> 0" by (simp add: go_div_def)
  then show ?thesis using False assms by linarith
qed

definition redis_limiter_ok :: "int \<Rightarrow> redis_lists \<Rightarrow> bool" where
  "redis_limiter_ok expiration ls \<longleftrightarrow>
     (\<forall>k l e. ls k = Some l \<longrightarrow> rl_expires l = Some e \<longrightarrow> (\<forall>t\<in>set (rl_items l). t + expiration \<le> e))"

lemma redis_request_ok:
  assumes "redis_limiter_ok expiration ls" "0 < expiration" "\<forall>t\<in>set (list_items now ls k). t \<le> now"
    "redisRateLimiter expiration k (int m) dur now [] ls = (v, ls')" "0 < m"
  shows "redis_limiter_ok expiration ls'"
proof -
  have touched: "redis_limiter_ok expiration (ls(k \<mapsto> l))"
    if "\<forall>e. rl_expires l = Some e \<longrightarrow> (\<forall>t\<in>set (rl_items l). t + expiration \<le> e)" for l
    using assms(1) that by (auto simp: redis_limiter_ok_def)
  have expire: "redis_limiter_ok expiration (Expire now k expiration x)"
    if x: "\<And>k'. k' \<noteq> k \<Longrightarrow> x k' = ls k'" "\<forall>t\<in>set (list_items now x k). t \<le> now" "live_list now x k \<noteq> None" for x
  proof -
    obtain l where l: "live_list now x k = Some l" using x(3) by blast
    have "Expire now k expiration x = ls(k \<mapsto> l\<lparr>rl_expires := Some (now + expiration)\<rparr>)"
      using l x(1) by (auto simp: Expire_def fun_eq_iff)
    moreover have "\<forall>t\<in>set (rl_items l). t \<le> now" using x(2) l by (simp add: list_items_def)
    ultimately show ?thesis using touched [of "l\<lparr>rl_expires := Some (now + expiration)\<rparr>"] by simp
  qed
  consider "ls' = Expire now k expiration (LPush now k now ls)" | "ls' = ls" | "ls' = Expire now k expiration ls" "live_list now ls k \<noteq> None"
    | "ls' = Expire now k expiration (LTrim now k m (LPush now k now ls))"
    using assms(4) by (auto simp: redis_paths list_items_def split: if_splits option.splits)
  then show ?thesis
  proof cases
    case 1
    show ?thesis unfolding 1
      by (rule expire) (use assms(3) in \<open>auto simp: items_ops key_ops list_ops\<close>)
  next
    case 2
    then show ?thesis using assms(1) by simp
  next
    case 3
    show ?thesis unfolding 3(1)
      by (rule expire) (use assms(3) 3(2) in auto)
  next
    case 4
    have "set (take m (now # list_items now ls k)) \<subseteq> insert now (set (list_items now ls k))" using set_take_subset [of m "now # list_items now ls k"] by simp
    then have "\<forall>t\<in>set (take m (now # list_items now ls k)). t \<le> now" using assms(3) by auto
    then show ?thesis unfolding 4
      by (intro expire) (auto simp: items_ops key_ops list_ops)
  qed
qed

lemma redis_request_holds:
  assumes "0 < expiration" "0 < m" "length (list_items now ls k) \<le> m"
    "redisRateLimiter expiration k (int m) dur now [] ls = (v, ls')"
  shows "list_items now ls' k = (if v = Passed then take m (now # list_items now ls k) else list_items now ls k)"
proof (cases "length (list_items now ls k) < m")
  case True
  then show ?thesis using assms by (auto simp: redis_paths list_items_def list_ops)
next
  case False
  show ?thesis using False assms by (auto simp: redis_paths items_ops split: if_splits)
qed

interpretation redis_window: window_limiter "redis_request expiration" "\<lambda>_ ls. ls" redis_holds "\<lambda>dur. 1000 * dur" expiration
  "\<lambda>ls. redis_limiter_ok expiration ls \<and> 0 < expiration" for expiration
proof (unfold_locales, goal_cases)
  case (1 m s now k dur a s')
  then show ?case using redis_request_ok by (auto simp: redis_request_def redis_holds_def split: prod.splits)
next
  case (3 m dur now s k)
  then show ?case
    by (auto simp: redis_request_def redis_holds_def redis_paths go_div_lt)
next
  case (4 s m dur now k a s')
  then show ?case using redis_request_holds [of expiration m now s k dur] by (auto simp: redis_request_def redis_holds_def split: prod.splits)
next
  case (5 k m dur now s a s' k')
  then show ?case
    by (auto simp: redis_request_def redis_holds_def redis_paths list_items_def other_lists split: if_splits prod.splits)
next
  case (6 s now now' k)
  show ?case
  proof (cases "s k")
    case None
    then show ?thesis by (simp add: redis_holds_def list_items_def live_list_def)
  next
    case (Some l)
    show ?thesis
    proof (cases "rl_expires l")
      case None
      then show ?thesis using Some by (simp add: redis_holds_def list_items_def live_list_def)
    next
      case e: (Some e)
      have "\<forall>t\<in>set (rl_items l). t + expiration \<le> e" using 6(1) Some e by (auto simp: redis_limiter_ok_def)
      then have "expiration \<le> now' - t" if "e \<le> now'" "t \<in> set (rl_items l)" for t using that by fastforce
      then show ?thesis using Some e 6(2) by (cases "now < e"; cases "now' < e") (auto simp: redis_holds_def list_items_def live_list_def)
    qed
  qed
qed auto

section \<open>The properties\<close>

definition rule_of :: "rate_rule \<Rightarrow> nat \<times> int" where
  "rule_of r = (nat (rr_max r), rr_duration r)"


lemma limiter_append:
  assumes "limiter_answers request sweep rule es s = bs" 
  shows "\<exists>s'. \<forall>fs. limiter_answers request sweep rule (es @ fs) s = bs @ limiter_answers request sweep rule fs s'"
  using assms
proof (induction es arbitrary: s bs)
  case Nil
  then show ?case by auto
next
  case (Cons e es)
  then show ?case by (cases e) (fastforce split: prod.splits)+
qed

text \<open>Requests of one moment that find a list of \<open>j\<close> entries below the limit.\<close>

lemma redis_burst:
  assumes "list_items t ls k = replicate j t" "j + n \<le> fst (rule k)" "0 < expiration" "0 < n"
  shows "\<exists>ls'. list_items t ls' k = replicate (j + n) t \<and> map_option rl_expires (ls' k) = Some (Some (t + expiration)) \<and>
    (\<forall>fs. limiter_answers (redis_request expiration) sweep rule (replicate n (Ask k t) @ fs) ls =
       replicate n True @ limiter_answers (redis_request expiration) sweep rule fs ls')"
  using assms(1,2,4)
proof (induction n arbitrary: j ls)
  case 0
  then show ?case by simp
next
  case (Suc n)
  let ?ls1 = "Expire t k expiration (LPush t k t ls)"
  have r: "redis_request expiration k (fst (rule k)) (snd (rule k)) t ls = (True, ?ls1)"
    using Suc.prems by (simp add: redis_request_def redis_paths)
  have i: "list_items t ?ls1 k = replicate (Suc j) t" using Suc.prems(1) assms(3) by (simp add: items_ops)
  have e: "map_option rl_expires (?ls1 k) = Some (Some (t + expiration))"
    by (simp add: Expire_def list_ops(1))
  show ?case
  proof (cases "n = 0")
    case True
    then show ?thesis using r i e by (intro exI [of _ ?ls1]) auto
  next
    case False
    from Suc.IH [OF i] Suc.prems(2) False obtain ls' where "list_items t ls' k = replicate (Suc j + n) t"
      "map_option rl_expires (ls' k) = Some (Some (t + expiration))"
      "\<forall>fs. limiter_answers (redis_request expiration) sweep rule (replicate n (Ask k t) @ fs) ?ls1 =
         replicate n True @ limiter_answers (redis_request expiration) sweep rule fs ls'" by auto
    then show ?thesis using r by (intro exI [of _ ls']) auto
  qed
qed

lemma window_burst:
  assumes "n + length (filter (\<lambda>x. t - x < snd (rule k)) (passed k)) \<le> fst (rule k)" "0 < snd (rule k)"
  shows "window_answers rule (replicate n (Ask k t) @ fs) passed =
    replicate n True @ window_answers rule fs (passed(k := replicate n t @ passed k))"
  using assms(1)
proof (induction n arbitrary: passed)
  case (Suc n)
  let ?p = "passed(k := t # passed k)"
  have w: "window_allows (fst (rule k)) (snd (rule k)) t (passed k)" using Suc.prems by (simp add: window_allows_def)
  have "n + length (filter (\<lambda>x. t - x < snd (rule k)) (?p k)) \<le> fst (rule k)"
    using Suc.prems assms(2) by simp
  note ih = Suc.IH [where passed = ?p, OF this]
  have eq: "replicate n t @ t # xs = t # replicate n t @ xs" for xs by (induction n) auto
  have "window_answers rule (replicate n (Ask k t) @ fs) ?p = replicate n True @ window_answers rule fs (passed(k := t # replicate n t @ passed k))"
    using ih by (simp only: fun_upd_upd fun_upd_same eq)
  then show ?case using w by (simp only: replicate_Suc append_Cons window_answers.simps Let_def if_True)
qed simp

lemma window_refuses:
  assumes "fst (rule k) \<le> length (filter (\<lambda>x. t - x < snd (rule k)) (passed k))"
  shows "window_answers rule (replicate n (Ask k t)) passed = replicate n False"
  using assms by (induction n) (simp_all add: window_allows_def)

text \<open>
  A window longer than the twenty minutes for which Redis keeps an idle key is not kept: 200 requests
  of the critical group pass at once and 200 more pass twenty minutes later, where the window of 200
  minutes allows none of the latter.
\<close>

theorem long_window_forgotten:
  "let rule = (\<lambda>_. rule_of CriticalRateLimit); E = 1000 * RateLimitKeyExpirationDuration;
       es = replicate 200 (Ask k 0) @ replicate 200 (Ask k E)
   in limiter_answers (redis_request E) (\<lambda>_ ls. ls) rule es (\<lambda>_. None) = replicate 200 True @ replicate 200 True \<and>
      window_answers (\<lambda>k. (fst (rule k), 1000 * snd (rule k))) es (\<lambda>_. []) = replicate 200 True @ replicate 200 False"
proof -
  let ?rule = "\<lambda>_ :: string. rule_of CriticalRateLimit" and ?E = "1000 * RateLimitKeyExpirationDuration :: int"
  let ?req = "limiter_answers (redis_request ?E) (\<lambda>_ ls. ls) ?rule"
  have m: "fst (?rule k) = 200" "snd (?rule k) = 12000" by (simp_all add: rule_of_def CriticalRateLimit_def)
  have e: "0 < ?E" by (simp add: RateLimitKeyExpirationDuration_def)
  have start: "list_items 0 (\<lambda>_. None) k = replicate 0 0" by (simp add: list_items_def live_list_def)
  from redis_burst [OF start, of 200 ?rule ?E "\<lambda>_ ls. ls"] m e
  obtain ls where ls: "map_option rl_expires (ls k) = Some (Some ?E)"
    "\<And>fs. ?req (replicate 200 (Ask k 0) @ fs) (\<lambda>_. None) = replicate 200 True @ ?req fs ls" by auto
  have gone: "list_items ?E ls k = replicate 0 ?E" using ls(1) by (auto simp: list_items_def live_list_def)
  from redis_burst [OF gone, of 200 ?rule ?E "\<lambda>_ ls. ls"] m e
  obtain ls' where "\<And>fs. ?req (replicate 200 (Ask k ?E) @ fs) ls = replicate 200 True @ ?req fs ls'" by auto
  from this [of "[]"] have second: "?req (replicate 200 (Ask k ?E)) ls = replicate 200 True" by simp
  have a: "?req (replicate 200 (Ask k 0) @ replicate 200 (Ask k ?E)) (\<lambda>_. None) = replicate 200 True @ replicate 200 True"
    by (simp only: ls(2) second)
  let ?w = "\<lambda>k. (fst (?rule k), 1000 * snd (?rule k))"
  have "window_answers ?w (replicate 200 (Ask k 0) @ replicate 200 (Ask k ?E)) (\<lambda>_. []) =
      replicate 200 True @ window_answers ?w (replicate 200 (Ask k ?E)) ((\<lambda>_. [])(k := replicate 200 0 @ []))"
    by (rule window_burst) (simp_all add: m)
  also have "window_answers ?w (replicate 200 (Ask k ?E)) ((\<lambda>_. [])(k := replicate 200 0 @ [])) = replicate 200 False"
    by (rule window_refuses) (simp add: m RateLimitKeyExpirationDuration_def)
  finally show ?thesis using a by (simp only: Let_def)
qed

section \<open>Concurrent requests\<close>

text \<open>
  Requests of one moment whose commands interleave: \<open>run_schedule\<close> runs the next command of the requests
  the schedule names, one after the other.
\<close>

fun run_schedule ::
  "int \<Rightarrow> string \<Rightarrow> int \<Rightarrow> int \<Rightarrow> int \<Rightarrow> nat list \<Rightarrow> (nat \<Rightarrow> limiter_pc) \<Rightarrow> redis_lists \<Rightarrow> (nat \<Rightarrow> limiter_pc) \<times> redis_lists" where
  "run_schedule E k m dur now [] pcs ls = (pcs, ls)"
| "run_schedule E k m dur now (i # is) pcs ls =
     (case limiter_step E k m dur now False (pcs i) ls of
        (pc, ls') \<Rightarrow> run_schedule E k m dur now is (pcs(i := pc)) ls')"

text \<open>A request alone runs as in a schedule that names only it.\<close>

lemma step_rank:
  assumes "limiter_step E k m dur now f pc ls = (pc', ls')" "\<forall>v. pc \<noteq> Answered v"
  shows "pc_rank pc' < pc_rank pc"
  using assms by (cases pc) (auto simp: limiter_step_def split: if_splits)

lemma schedule_alone:
  "run_request E k m dur now [] pc ls = (v, ls') \<Longrightarrow> pcs i = pc \<Longrightarrow>
   \<exists>n. run_schedule E k m dur now (replicate n i) pcs ls = (pcs(i := Answered v), ls')"
proof (induction "pc_rank pc" arbitrary: pc ls pcs rule: less_induct)
  case less
  show ?case
  proof (cases "\<exists>v. pc = Answered v")
    case True
    then show ?thesis using less.prems by (intro exI [of _ 0]) (auto simp: run_request.simps)
  next
    case False
    obtain pc1 ls1 where s: "limiter_step E k m dur now False pc ls = (pc1, ls1)" by fastforce
    have r: "run_request E k m dur now [] pc1 ls1 = (v, ls')"
      using less.prems(1) run_request.simps [of E k m dur now "[]" pc ls] s False by (cases pc) simp_all
    have "pc_rank pc1 < pc_rank pc" using step_rank [OF s] False by blast
    from less.hyps [OF this r, of "pcs(i := pc1)"] obtain n where
      "run_schedule E k m dur now (replicate n i) (pcs(i := pc1)) ls1 = (pcs(i := pc1, i := Answered v), ls')" by auto
    then show ?thesis using s less.prems(2) by (intro exI [of _ "Suc n"]) simp
  qed
qed

lemma schedule_append:
  "run_schedule E k m dur now (is @ js) pcs ls =
     (case run_schedule E k m dur now is pcs ls of (pcs', ls') \<Rightarrow> run_schedule E k m dur now js pcs' ls')"
  by (induction "is" arbitrary: pcs ls) (auto split: prod.splits)

lemma all_count:
  assumes "int (length (list_items now ls k)) < m" "\<forall>i<n. pcs i = AskLength"
  shows "run_schedule E k m dur now [0..<n] pcs ls = ((\<lambda>i. if i < n then PushNew else pcs i), ls)"
  using assms(2)
proof (induction n)
  case (Suc n)
  then show ?case using assms(1) by (auto simp: schedule_append limiter_step_def fun_eq_iff less_Suc_eq)
qed simp

lemma all_push:
  assumes "\<forall>i<n. pcs i = PushNew"
  shows "\<exists>ls'. run_schedule E k m dur now (concat (map (\<lambda>i. [i, i]) [0..<n])) pcs ls =
    ((\<lambda>i. if i < n then Answered Passed else pcs i), ls')"
  using assms
proof (induction n)
  case (Suc n)
  then obtain ls' where r: "run_schedule E k m dur now (concat (map (\<lambda>i. [i, i]) [0..<n])) pcs ls =
    ((\<lambda>i. if i < n then Answered Passed else pcs i), ls')" by auto
  show ?case
    unfolding upt_Suc_append [OF le0] map_append concat_append schedule_append r
    using Suc.prems by (auto simp: limiter_step_def fun_eq_iff less_Suc_eq)
qed simp

text \<open>
  The limit does not hold against concurrent requests: the length is read before the entry is pushed,
  so any number of requests that all read it before the first one pushes pass together, whatever the
  limit, though one after the other at most as many as the limit would.
\<close>

theorem concurrent_requests_all_pass:
  assumes "0 < m"
  shows "\<exists>schedule pcs ls. run_schedule E k m dur now schedule (\<lambda>_. AskLength) (\<lambda>_. None) = (pcs, ls) \<and>
    (\<forall>i<n. pcs i = Answered Passed)"
proof -
  let ?sched = "[0..<n] @ concat (map (\<lambda>i. [i, i]) [0..<n])"
  let ?p = "\<lambda>i. if i < n then PushNew else AskLength"
  have l: "int (length (list_items now (\<lambda>_. None) k)) < m" using assms by (simp add: list_items_def live_list_def)
  have 1: "run_schedule E k m dur now [0..<n] (\<lambda>_. AskLength) (\<lambda>_. None) = (?p, \<lambda>_. None)"
    using all_count [OF l, of n "\<lambda>_. AskLength" E dur] by simp
  obtain ls where 2: "run_schedule E k m dur now (concat (map (\<lambda>i. [i, i]) [0..<n])) ?p (\<lambda>_. None) =
      ((\<lambda>i. if i < n then Answered Passed else ?p i), ls)"
    using all_push [of n ?p E k m dur now "\<lambda>_. None"] by auto
  have "run_schedule E k m dur now ?sched (\<lambda>_. AskLength) (\<lambda>_. None) = ((\<lambda>i. if i < n then Answered Passed else ?p i), ls)"
    by (simp only: schedule_append 1 2 prod.case)
  then show ?thesis by (intro exI [of _ ?sched] exI [of _ "\<lambda>i. if i < n then Answered Passed else ?p i"] exI [of _ ls]) simp
qed

section \<open>Concrete runs\<close>


theorem concurrent_requests_all_pass_witness:
  "\<exists>schedule pcs ls. run_schedule 1200000 ''rateLimit:CT1.2.3.4'' 1 12000 0 schedule (\<lambda>_. AskLength) (\<lambda>_. None) = (pcs, ls) \<and>
    (\<forall>i<5. pcs i = Answered Passed)"
  by (rule concurrent_requests_all_pass) simp

end
